(* ===== verification/Js_Base.thy ===== *)
theory Js_Base
  imports Main "HOL-Library.Char_ord" "HOL-Library.List_Lexorder" "HOL-Library.Sublist" "HOL-Library.Multiset"
begin

text \<open>
  Prelude of the development.  A JavaScript string without lone surrogates is modelled by its
  UTF-8 encoding: a \<^typ>\<open>string\<close> whose characters are bytes.  Every operation of the source that
  is modelled here either looks for ASCII characters only, compares whole strings, or works on the
  UTF-8 bytes themselves (percent-encoding), so the encoding is a homomorphism for it; where the
  source orders strings by UTF-16 code unit the order is written out (\<open>utf16_key\<close>).
  Case folding (\<open>ascii_lower\<close>) is the ASCII part of the source's \<open>toLowerCase\<close>.

  A thrown error is the left branch of a sum; \<open>res_bind\<close> and \<open>map_res\<close> are the sequencing the
  source gets from exceptions.
\<close>

section \<open>Collections of facts\<close>

named_theorems js_string \<open>structure of strings: joins, splits, index search\<close>
named_theorems js_result \<open>sequencing of results that may be errors\<close>

section \<open>Results\<close>

type_synonym ('e, 'a) res = "'e + 'a"

fun res_bind :: "('e, 'a) res \<Rightarrow> ('a \<Rightarrow> ('e, 'b) res) \<Rightarrow> ('e, 'b) res" where
  "res_bind (Inl e) f = Inl e"
| "res_bind (Inr a) f = f a"

fun res_map :: "('a \<Rightarrow> 'b) \<Rightarrow> ('e, 'a) res \<Rightarrow> ('e, 'b) res" where
  "res_map f (Inl e) = Inl e"
| "res_map f (Inr a) = Inr (f a)"

fun res_err :: "('e \<Rightarrow> 'd) \<Rightarrow> ('e, 'a) res \<Rightarrow> ('d, 'a) res" where
  "res_err g (Inl e) = Inl (g e)"
| "res_err g (Inr a) = Inr a"

definition check :: "bool \<Rightarrow> 'e \<Rightarrow> ('e, unit) res" where
  "check b e = (if b then Inr () else Inl e)"

lemma res_bind_cong [fundef_cong]:
  "m = m' \<Longrightarrow> (\<And>a. m' = Inr a \<Longrightarrow> f a = g a) \<Longrightarrow> res_bind m f = res_bind m' g"
  by (cases m') auto

lemma res_bind_Inr_iff [js_result]:
  "res_bind m f = Inr b \<longleftrightarrow> (\<exists>a. m = Inr a \<and> f a = Inr b)"
  by (cases m) auto

lemma res_bind_Inl_iff [js_result]:
  "res_bind m f = Inl e \<longleftrightarrow> m = Inl e \<or> (\<exists>a. m = Inr a \<and> f a = Inl e)"
  by (cases m) auto

lemma res_map_Inr_iff [js_result]: "res_map f m = Inr b \<longleftrightarrow> (\<exists>a. m = Inr a \<and> b = f a)"
  by (cases m) auto

lemma res_map_Inl_iff [js_result]: "res_map f m = Inl e \<longleftrightarrow> m = Inl e"
  by (cases m) auto

lemma res_err_Inr_iff [js_result]: "res_err g m = Inr b \<longleftrightarrow> m = Inr b"
  by (cases m) auto

lemma res_err_Inl_iff [js_result]: "res_err g m = Inl d \<longleftrightarrow> (\<exists>e. m = Inl e \<and> d = g e)"
  by (cases m) auto

lemma check_Inr_iff [js_result]: "check b e = Inr u \<longleftrightarrow> b"
  by (simp add: check_def)

lemma check_Inl_iff [js_result]: "check b e = Inl d \<longleftrightarrow> \<not> b \<and> d = e"
  by (auto simp: check_def)

lemma check_simps [simp]: "check True e = Inr ()" "check False e = Inl e"
  by (simp_all add: check_def)

text \<open>\<open>map_res\<close> is \<open>Array.map\<close> of a callback that may throw: the first error wins.\<close>

fun map_res :: "('a \<Rightarrow> ('e, 'b) res) \<Rightarrow> 'a list \<Rightarrow> ('e, 'b list) res" where
  "map_res f [] = Inr []"
| "map_res f (x # xs) = res_bind (f x) (\<lambda>y. res_map ((#) y) (map_res f xs))"

text \<open>\<open>imap_res\<close> is the same with the index the callback receives.\<close>

fun imap_res :: "(nat \<Rightarrow> 'a \<Rightarrow> ('e, 'b) res) \<Rightarrow> nat \<Rightarrow> 'a list \<Rightarrow> ('e, 'b list) res" where
  "imap_res f i [] = Inr []"
| "imap_res f i (x # xs) = res_bind (f i x) (\<lambda>y. res_map ((#) y) (imap_res f (Suc i) xs))"

text \<open>\<open>each_res\<close> is a \<open>for\<close> loop over state whose body may throw.\<close>

fun each_res :: "('a \<Rightarrow> 's \<Rightarrow> ('e, 's) res) \<Rightarrow> 'a list \<Rightarrow> 's \<Rightarrow> ('e, 's) res" where
  "each_res f [] s = Inr s"
| "each_res f (x # xs) s = res_bind (f x s) (each_res f xs)"

lemma map_res_cong [fundef_cong]:
  "xs = ys \<Longrightarrow> (\<And>x. x \<in> set ys \<Longrightarrow> f x = g x) \<Longrightarrow> map_res f xs = map_res g ys"
proof (induction xs arbitrary: ys)
  case Nil
  then show ?case by auto
next
  case (Cons x xs)
  then have "map_res f xs = map_res g xs" by (metis list.set_intros(2))
  with Cons show ?case by (auto simp: list.set_intros)
qed

lemma imap_res_cong [fundef_cong]:
  "xs = ys \<Longrightarrow> i = j \<Longrightarrow> (\<And>k x. x \<in> set ys \<Longrightarrow> f k x = g k x) \<Longrightarrow> imap_res f i xs = imap_res g j ys"
proof (induction xs arbitrary: ys i j)
  case Nil
  then show ?case by auto
next
  case (Cons x xs)
  then have "imap_res f (Suc i) xs = imap_res g (Suc i) xs" by (metis list.set_intros(2))
  with Cons show ?case by (auto simp: list.set_intros)
qed

lemma map_res_Inr_iff [js_result]:
  "map_res f xs = Inr ys \<longleftrightarrow> list_all2 (\<lambda>x y. f x = Inr y) xs ys"
  by (induction xs arbitrary: ys) (auto simp: js_result list_all2_Cons1)

lemma map_res_Inr [simp]: "map_res (\<lambda>x. Inr (f x)) xs = Inr (map f xs)"
  by (induction xs) auto

lemma map_res_Inl_iff:
  "(\<exists>e. map_res f xs = Inl e) \<longleftrightarrow> (\<exists>x\<in>set xs. \<exists>e. f x = Inl e)"
proof (induction xs)
  case Nil
  then show ?case by simp
next
  case (Cons x xs)
  then show ?case
    by (cases "f x"; cases "map_res f xs") auto
qed

lemma imap_res_eq_map_res:
  assumes "\<And>k x y. f k x = Inr y \<longleftrightarrow> g x = Inr y"
  shows "imap_res f i xs = Inr ys \<longleftrightarrow> map_res g xs = Inr ys"
  by (induction xs arbitrary: i ys) (auto simp: res_bind_Inr_iff res_map_Inr_iff assms)

lemma each_res_append:
  "each_res f (xs @ ys) s = res_bind (each_res f xs s) (each_res f ys)"
proof (induction xs arbitrary: s)
  case Nil
  then show ?case by simp
next
  case (Cons x xs)
  then show ?case by (cases "f x s") auto
qed

lemma each_res_cong [fundef_cong]:
  "xs = ys \<Longrightarrow> s = t \<Longrightarrow> (\<And>x s. x \<in> set ys \<Longrightarrow> f x s = g x s) \<Longrightarrow> each_res f xs s = each_res g ys t"
proof (induction xs arbitrary: ys s t)
  case Nil
  then show ?case by auto
next
  case (Cons x xs)
  then have "each_res f xs = each_res g xs" by (auto simp: fun_eq_iff)
  with Cons show ?case by auto
qed

text \<open>The loop rule: an invariant kept by the body holds for the state the loop returns.\<close>

lemma each_res_invariant:
  assumes "each_res f xs s = Inr t" and "I s"
    and "\<And>x s t. x \<in> set xs \<Longrightarrow> I s \<Longrightarrow> f x s = Inr t \<Longrightarrow> I t"
  shows "I t"
  using assms
proof (induction xs arbitrary: s)
  case Nil
  then show ?case by simp
next
  case (Cons x xs)
  from Cons.prems(1) obtain u where u: "f x s = Inr u" "each_res f xs u = Inr t"
    by (auto simp: res_bind_Inr_iff)
  have "I u" using Cons.prems(2,3) u(1) by (meson list.set_intros(1))
  with Cons.IH [OF u(2)] Cons.prems(3) show ?case by (meson list.set_intros(2))
qed

section \<open>Bytes and character classes\<close>

definition byte :: "char \<Rightarrow> nat" where
  "byte c = of_char c"

lemma byte_lt [simp]: "byte c < 256"
  by (simp add: byte_def)

lemma byte_div_16 [simp]: "byte c div 16 < 16"
  by (rule less_mult_imp_div_less) simp

lemma char_of_byte [simp]: "char_of (byte c) = c"
  by (simp add: byte_def)

lemma byte_char_of: "n < 256 \<Longrightarrow> byte (char_of n) = n"
  by (simp add: byte_def)

lemma byte_inject [simp]: "byte c = byte d \<longleftrightarrow> c = d"
  by (simp add: byte_def)

definition is_upper :: "char \<Rightarrow> bool" where
  "is_upper c \<longleftrightarrow> 0x41 \<le> byte c \<and> byte c \<le> 0x5A"

definition is_lower :: "char \<Rightarrow> bool" where
  "is_lower c \<longleftrightarrow> 0x61 \<le> byte c \<and> byte c \<le> 0x7A"

definition is_digit :: "char \<Rightarrow> bool" where
  "is_digit c \<longleftrightarrow> 0x30 \<le> byte c \<and> byte c \<le> 0x39"

definition is_alnum :: "char \<Rightarrow> bool" where
  "is_alnum c \<longleftrightarrow> is_upper c \<or> is_lower c \<or> is_digit c"

definition is_ascii :: "char \<Rightarrow> bool" where
  "is_ascii c \<longleftrightarrow> byte c < 0x80"

definition to_lower :: "char \<Rightarrow> char" where
  "to_lower c = (if is_upper c then char_of (byte c + 0x20) else c)"

definition to_upper :: "char \<Rightarrow> char" where
  "to_upper c = (if is_lower c then char_of (byte c - 0x20) else c)"

definition ascii_lower :: "string \<Rightarrow> string" where
  "ascii_lower = map to_lower"

definition ascii_upper :: "string \<Rightarrow> string" where
  "ascii_upper = map to_upper"

lemmas char_class_defs = is_upper_def is_lower_def is_digit_def is_alnum_def is_ascii_def byte_def

lemma is_upper_to_lower [simp]: "\<not> is_upper (to_lower c)"
  by (auto simp: to_lower_def is_upper_def byte_char_of)

lemma to_lower_idem [simp]: "to_lower (to_lower c) = to_lower c"
  by (metis is_upper_to_lower to_lower_def)

lemma ascii_lower_idem [simp]: "ascii_lower (ascii_lower s) = ascii_lower s"
  by (simp add: ascii_lower_def)

lemma ascii_lower_length [simp]: "length (ascii_lower s) = length s"
  by (simp add: ascii_lower_def)

lemma ascii_lower_append [simp]: "ascii_lower (s @ t) = ascii_lower s @ ascii_lower t"
  by (simp add: ascii_lower_def)

lemma ascii_lower_Nil [simp]: "ascii_lower [] = []" "ascii_lower s = [] \<longleftrightarrow> s = []"
  by (simp_all add: ascii_lower_def)

text \<open>The regular expression \<open>/^[!#$%&'*+.^_`|~0-9A-Za-z-]+$/\<close> the source repeats as HTTP_TOKEN.\<close>

definition is_tchar :: "char \<Rightarrow> bool" where
  "is_tchar c \<longleftrightarrow> is_alnum c \<or> c \<in> set ''!#$%&'*+.^_`|~-''"

definition is_http_token :: "string \<Rightarrow> bool" where
  "is_http_token s \<longleftrightarrow> s \<noteq> [] \<and> list_all is_tchar s"

lemma is_tchar_ascii: "is_tchar c \<Longrightarrow> is_ascii c"
  by (auto simp: is_tchar_def char_class_defs)

section \<open>Hexadecimal\<close>

definition hex_digit :: "nat \<Rightarrow> char" where
  "hex_digit n = ''0123456789ABCDEF'' ! n"

definition hex_value :: "char \<Rightarrow> nat option" where
  "hex_value c =
     (if is_digit c then Some (byte c - 0x30)
      else if 0x41 \<le> byte c \<and> byte c \<le> 0x46 then Some (byte c - 0x41 + 10)
      else if 0x61 \<le> byte c \<and> byte c \<le> 0x66 then Some (byte c - 0x61 + 10)
      else None)"

lemma hex_digits_ok:
  "\<forall>n\<in>set [0..<16]. hex_value (hex_digit n) = Some n \<and> (is_upper (hex_digit n) \<or> is_digit (hex_digit n))"
  by code_simp

lemma hex_value_hex_digit: "n < 16 \<Longrightarrow> hex_value (hex_digit n) = Some n"
  using hex_digits_ok by simp

lemma hex_digit_class: "n < 16 \<Longrightarrow> is_upper (hex_digit n) \<or> is_digit (hex_digit n)"
  using hex_digits_ok by simp

lemma hex_value_lt: "hex_value c = Some n \<Longrightarrow> n < 16"
  by (auto simp: hex_value_def is_digit_def split: if_splits)

section \<open>Joining, splitting, searching\<close>

fun join :: "string \<Rightarrow> string list \<Rightarrow> string" where
  "join sep [] = []"
| "join sep [x] = x"
| "join sep (x # y # ys) = x @ sep @ join sep (y # ys)"

text \<open>\<open>s.split(sep)\<close> for a non-empty separator string: always at least one part.\<close>

function split_str :: "string \<Rightarrow> string \<Rightarrow> string list" where
  "split_str sep s =
     (if sep \<noteq> [] \<and> prefix sep s then [] # split_str sep (drop (length sep) s)
      else (case s of
              [] \<Rightarrow> [[]]
            | c # cs \<Rightarrow> (case split_str sep cs of [] \<Rightarrow> [[c]] | p # ps \<Rightarrow> (c # p) # ps)))"
  by pat_completeness auto
termination
  by (relation "measure (\<lambda>(sep, s). length s)") (auto simp: prefix_def)

declare split_str.simps [simp del]

lemma split_str_nonempty [simp]: "split_str sep s \<noteq> []"
  by (subst split_str.simps) (auto split: list.splits)

lemma join_cons: "ys \<noteq> [] \<Longrightarrow> join sep (x # ys) = x @ sep @ join sep ys"
  by (cases ys) auto

lemma join_Cons_cons: "join sep ((c # p) # ps) = c # join sep (p # ps)"
  by (cases ps) auto

lemma join_split_str [js_string]: "sep \<noteq> [] \<Longrightarrow> join sep (split_str sep s) = s"
proof (induction sep s rule: split_str.induct)
  case (1 sep s)
  show ?case
  proof (cases "prefix sep s")
    case True
    then obtain t where t: "s = sep @ t" by (auto simp: prefix_def)
    with "1.IH"(1) "1.prems" True have "join sep (split_str sep t) = t" by simp
    with t "1.prems" show ?thesis
      by (subst split_str.simps) (simp add: join_cons)
  next
    case False
    show ?thesis
    proof (cases s)
      case Nil
      with False show ?thesis by (subst split_str.simps) simp
    next
      case (Cons c cs)
      with "1.IH"(2) False "1.prems" have IH: "join sep (split_str sep cs) = cs" by simp
      obtain p ps where p: "split_str sep cs = p # ps"
        using split_str_nonempty [of sep cs] by (cases "split_str sep cs") auto
      with False Cons IH show ?thesis
        by (subst split_str.simps) (simp add: join_Cons_cons)
    qed
  qed
qed

text \<open>For a one-character separator the parts are the maximal runs without it.\<close>

lemma split_char_Nil: "split_str [c] [] = [[]]"
  by (subst split_str.simps) simp

lemma split_char_same: "split_str [c] (c # s) = [] # split_str [c] s"
  by (subst split_str.simps) simp

lemma split_char_other:
  "d \<noteq> c \<Longrightarrow> split_str [c] (d # s) = (d # hd (split_str [c] s)) # tl (split_str [c] s)"
  using split_str_nonempty [of "[c]" s]
  by (subst split_str.simps) (auto split: list.splits)

lemmas split_char_simps = split_char_Nil split_char_same split_char_other

lemma split_char_free: "\<forall>p\<in>set (split_str [c] s). c \<notin> set p"
proof (induction s)
  case Nil
  then show ?case by (simp add: split_char_simps)
next
  case (Cons d s)
  have n: "split_str [c] s \<noteq> []" by simp
  show ?case
  proof (cases "d = c")
    case True
    with Cons show ?thesis by (simp add: split_char_simps)
  next
    case False
    from n Cons have "c \<notin> set (hd (split_str [c] s))" "\<forall>p\<in>set (tl (split_str [c] s)). c \<notin> set p"
      by (auto dest: list.set_sel(1) list.set_sel(2) [OF n])
    with False show ?thesis by (auto simp: split_char_simps)
  qed
qed

lemma split_char_append: "c \<notin> set s \<Longrightarrow> split_str [c] (s @ c # t) = s # split_str [c] t"
  by (induction s) (auto simp: split_char_simps)

lemma split_char_single: "c \<notin> set s \<Longrightarrow> split_str [c] s = [s]"
  by (induction s) (auto simp: split_char_simps)

lemma split_join_char:
  "xs \<noteq> [] \<Longrightarrow> \<forall>x\<in>set xs. c \<notin> set x \<Longrightarrow> split_str [c] (join [c] xs) = xs"
proof (induction xs)
  case Nil
  then show ?case by simp
next
  case (Cons x xs)
  then show ?case
    by (cases xs) (auto simp: split_char_single split_char_append)
qed

lemma length_split_char: "length (split_str [c] s) = Suc (count_list s c)"
proof (induction s)
  case Nil
  then show ?case by (simp add: split_char_simps)
next
  case (Cons d s)
  have "split_str [c] s \<noteq> []" by simp
  with Cons show ?case by (cases "d = c") (auto simp: split_char_simps)
qed

lemma set_join: "set (join sep xs) \<subseteq> set sep \<union> (\<Union>x\<in>set xs. set x)"
  by (induction sep xs rule: join.induct) auto

text \<open>\<open>s.indexOf(c)\<close> with \<open>None\<close> for -1.\<close>

fun index_of :: "char \<Rightarrow> string \<Rightarrow> nat option" where
  "index_of c [] = None"
| "index_of c (d # s) = (if c = d then Some 0 else map_option Suc (index_of c s))"

lemma index_of_None [js_string]: "index_of c s = None \<longleftrightarrow> c \<notin> set s"
  by (induction s) auto

lemma index_of_Some [js_string]:
  "index_of c s = Some i \<longleftrightarrow> i < length s \<and> s ! i = c \<and> c \<notin> set (take i s)"
proof (induction s arbitrary: i)
  case Nil
  then show ?case by simp
next
  case (Cons d s)
  then show ?case by (cases i) auto
qed

lemma index_of_append: "c \<notin> set s \<Longrightarrow> index_of c (s @ c # t) = Some (length s)"
  by (induction s) auto

text \<open>The text around the first and around the last occurrence of a character.\<close>

definition cut :: "char \<Rightarrow> string \<Rightarrow> (string \<times> string) option" where
  "cut c s = map_option (\<lambda>i. (take i s, drop (Suc i) s)) (index_of c s)"

definition cut_last :: "char \<Rightarrow> string \<Rightarrow> (string \<times> string) option" where
  "cut_last c s = map_option (\<lambda>(a, b). (rev b, rev a)) (cut c (rev s))"

lemma cut_None [js_string]: "cut c s = None \<longleftrightarrow> c \<notin> set s"
  by (simp add: cut_def index_of_None)

lemma cut_Some [js_string]: "cut c s = Some (a, b) \<longleftrightarrow> s = a @ c # b \<and> c \<notin> set a"
proof
  assume "cut c s = Some (a, b)"
  then obtain i where i: "index_of c s = Some i" "a = take i s" "b = drop (Suc i) s"
    by (auto simp: cut_def)
  then have "i < length s" "s ! i = c" "c \<notin> set (take i s)" by (auto simp: index_of_Some)
  with i show "s = a @ c # b \<and> c \<notin> set a" using id_take_nth_drop [of i s] by simp
next
  assume "s = a @ c # b \<and> c \<notin> set a"
  then show "cut c s = Some (a, b)" by (simp add: cut_def index_of_append)
qed

lemma cut_last_None [js_string]: "cut_last c s = None \<longleftrightarrow> c \<notin> set s"
  by (simp add: cut_last_def cut_None)

lemma cut_last_Some [js_string]: "cut_last c s = Some (a, b) \<longleftrightarrow> s = a @ c # b \<and> c \<notin> set b"
proof -
  have "cut_last c s = Some (a, b) \<longleftrightarrow> cut c (rev s) = Some (rev b, rev a)"
    by (auto simp: cut_last_def)
  also have "\<dots> \<longleftrightarrow> rev s = rev b @ c # rev a \<and> c \<notin> set b" by (simp add: cut_Some)
  also have "rev s = rev b @ c # rev a \<longleftrightarrow> s = a @ c # b"
    by (metis append.assoc append_Cons append_Nil rev.simps(2) rev_append rev_rev_ident)
  finally show ?thesis .
qed

definition starts_with :: "string \<Rightarrow> string \<Rightarrow> bool" where
  "starts_with p s = prefix p s"

definition ends_with :: "string \<Rightarrow> string \<Rightarrow> bool" where
  "ends_with p s = suffix p s"

text \<open>
  \<open>s.replaceAll(pat, tpl)\<close> for a non-empty pattern string.  The replacement is a template
  (ECMAScript GetSubstitution): a dollar sign followed by a dollar sign, an ampersand, a backtick
  or an apostrophe stands for a dollar sign, the match, the text before it and the text after it.
\<close>

fun subst_template :: "string \<Rightarrow> string \<Rightarrow> string \<Rightarrow> string \<Rightarrow> string" where
  "subst_template m before after [] = []"
| "subst_template m before after [c] = [c]"
| "subst_template m before after (c # d # t) =
     (if c = CHR ''$'' \<and> d = CHR ''$'' then CHR ''$'' # subst_template m before after t
      else if c = CHR ''$'' \<and> d = CHR ''&'' then m @ subst_template m before after t
      else if c = CHR ''$'' \<and> d = CHR 0x60 then before @ subst_template m before after t
      else if c = CHR ''$'' \<and> d = CHR 0x27 then after @ subst_template m before after t
      else c # subst_template m before after (d # t))"

function replace_from :: "string \<Rightarrow> string \<Rightarrow> string \<Rightarrow> string \<Rightarrow> string" where
  "replace_from pat tpl before s =
     (if pat \<noteq> [] \<and> prefix pat s then
        subst_template pat before (drop (length pat) s) tpl
        @ replace_from pat tpl (before @ pat) (drop (length pat) s)
      else (case s of [] \<Rightarrow> [] | c # cs \<Rightarrow> c # replace_from pat tpl (before @ [c]) cs))"
  by pat_completeness auto
termination
  by (relation "measure (\<lambda>(pat, tpl, before, s). length s)") (auto simp: prefix_def)

declare replace_from.simps [simp del]

definition replace_all :: "string \<Rightarrow> string \<Rightarrow> string \<Rightarrow> string" where
  "replace_all pat tpl s = replace_from pat tpl [] s"

lemma subst_template_plain: "CHR ''$'' \<notin> set t \<Longrightarrow> subst_template m b a t = t"
  by (induction m b a t rule: subst_template.induct) auto

text \<open>Without a dollar sign in the replacement, \<open>replaceAll\<close> is splitting and joining.\<close>

lemma replace_from_plain:
  "pat \<noteq> [] \<Longrightarrow> CHR ''$'' \<notin> set tpl \<Longrightarrow>
     replace_from pat tpl before s = join tpl (split_str pat s)"
proof (induction pat tpl before s rule: replace_from.induct)
  case (1 pat tpl before s)
  show ?case
  proof (cases "prefix pat s")
    case True
    with 1 show ?thesis
      by (subst replace_from.simps, subst split_str.simps)
        (simp add: subst_template_plain join_cons)
  next
    case False
    show ?thesis
    proof (cases s)
      case Nil
      with False show ?thesis by (subst replace_from.simps, subst split_str.simps) simp
    next
      case (Cons c cs)
      obtain p ps where p: "split_str pat cs = p # ps"
        using split_str_nonempty [of pat cs] by (cases "split_str pat cs") auto
      from 1 False Cons have "replace_from pat tpl (before @ [c]) cs = join tpl (split_str pat cs)"
        by simp
      with False Cons p show ?thesis
        by (subst replace_from.simps, subst split_str.simps) (simp add: join_Cons_cons)
    qed
  qed
qed

lemma replace_all_plain [js_string]:
  "pat \<noteq> [] \<Longrightarrow> CHR ''$'' \<notin> set tpl \<Longrightarrow> replace_all pat tpl s = join tpl (split_str pat s)"
  by (simp add: replace_all_def replace_from_plain)

text \<open>\<open>s.replace(pat, tpl)\<close> for a non-empty pattern string: the first occurrence only.\<close>

fun replace_first_from :: "string \<Rightarrow> string \<Rightarrow> string \<Rightarrow> string \<Rightarrow> string" where
  "replace_first_from pat tpl before [] = []"
| "replace_first_from pat tpl before (c # s) =
     (if prefix pat (c # s) then
        subst_template pat before (drop (length pat) (c # s)) tpl @ drop (length pat) (c # s)
      else c # replace_first_from pat tpl (before @ [c]) s)"

definition replace_first :: "string \<Rightarrow> string \<Rightarrow> string \<Rightarrow> string" where
  "replace_first pat tpl s = replace_first_from pat tpl [] s"

lemma count_join:
  "c \<notin> set tpl \<Longrightarrow> c \<notin> set pat \<Longrightarrow> count_list (join tpl xs) c = count_list (join pat xs) c"
  by (induction tpl xs rule: join.induct) (simp_all add: count_list_append count_list_0_iff)

lemma count_replace_all:
  assumes "pat \<noteq> []" and "CHR ''$'' \<notin> set tpl" and "c \<notin> set tpl" and "c \<notin> set pat"
  shows "count_list (replace_all pat tpl s) c = count_list s c"
proof -
  have "count_list (replace_all pat tpl s) c = count_list (join tpl (split_str pat s)) c"
    using assms by (simp add: replace_all_plain)
  also have "\<dots> = count_list (join pat (split_str pat s)) c"
    using assms by (intro count_join)
  also have "\<dots> = count_list s c" using assms by (simp add: join_split_str)
  finally show ?thesis .
qed

section \<open>White space\<close>

text \<open>
  The UTF-8 encodings of the code points \<open>String.prototype.trim\<close> removes: white space and line
  terminators of ECMAScript.
\<close>

definition js_spaces :: "string list" where
  "js_spaces =
     map (map char_of) ([[0x09], [0x0A], [0x0B], [0x0C], [0x0D], [0x20], [0xC2, 0xA0],
       [0xE1, 0x9A, 0x80], [0xE2, 0x80, 0xA8], [0xE2, 0x80, 0xA9], [0xE2, 0x80, 0xAF],
       [0xE2, 0x81, 0x9F], [0xE3, 0x80, 0x80], [0xEF, 0xBB, 0xBF],
       [0xE2, 0x80, 0x80], [0xE2, 0x80, 0x81], [0xE2, 0x80, 0x82], [0xE2, 0x80, 0x83],
       [0xE2, 0x80, 0x84], [0xE2, 0x80, 0x85], [0xE2, 0x80, 0x86], [0xE2, 0x80, 0x87],
       [0xE2, 0x80, 0x88], [0xE2, 0x80, 0x89], [0xE2, 0x80, 0x8A]] :: nat list list)"

text \<open>The same list with its characters, for evaluation.\<close>

lemma js_spaces_code [code]:
  "js_spaces =
     [
      [CHR 0x09], [CHR 0x0A], [CHR 0x0B], [CHR 0x0C], [CHR 0x0D], [CHR 0x20], [CHR 0xC2, CHR 0xA0],
      [CHR 0xE1, CHR 0x9A, CHR 0x80], [CHR 0xE2, CHR 0x80, CHR 0xA8], [CHR 0xE2, CHR 0x80, CHR 0xA9],
      [CHR 0xE2, CHR 0x80, CHR 0xAF], [CHR 0xE2, CHR 0x81, CHR 0x9F], [CHR 0xE3, CHR 0x80, CHR 0x80],
      [CHR 0xEF, CHR 0xBB, CHR 0xBF], [CHR 0xE2, CHR 0x80, CHR 0x80], [CHR 0xE2, CHR 0x80, CHR 0x81],
      [CHR 0xE2, CHR 0x80, CHR 0x82], [CHR 0xE2, CHR 0x80, CHR 0x83], [CHR 0xE2, CHR 0x80, CHR 0x84],
      [CHR 0xE2, CHR 0x80, CHR 0x85], [CHR 0xE2, CHR 0x80, CHR 0x86], [CHR 0xE2, CHR 0x80, CHR 0x87],
      [CHR 0xE2, CHR 0x80, CHR 0x88], [CHR 0xE2, CHR 0x80, CHR 0x89], [CHR 0xE2, CHR 0x80, CHR 0x8A]]"
  by (simp add: js_spaces_def char_of_def bit_iff_odd)

fun strip_units :: "string list \<Rightarrow> string \<Rightarrow> nat \<Rightarrow> string" where
  "strip_units us s 0 = s"
| "strip_units us s (Suc n) =
     (case List.find (\<lambda>u. prefix u s) us of None \<Rightarrow> s | Some u \<Rightarrow> strip_units us (drop (length u) s) n)"

text \<open>The bound is the length of the string: every unit removed has at least one byte.\<close>

definition trim_start :: "string \<Rightarrow> string" where
  "trim_start s = strip_units js_spaces s (length s)"

definition trim_end :: "string \<Rightarrow> string" where
  "trim_end s = rev (strip_units (map rev js_spaces) (rev s) (length s))"

definition js_trim :: "string \<Rightarrow> string" where
  "js_trim s = trim_end (trim_start s)"

lemma strip_units_length: "length (strip_units us s n) \<le> length s"
proof (induction us s n rule: strip_units.induct)
  case (2 us s n)
  then show ?case
    by (cases "List.find (\<lambda>u. prefix u s) us") (auto intro: order_trans)
qed simp

lemma trim_lengths [simp]:
  "length (trim_start s) \<le> length s" "length (trim_end s) \<le> length s" "length (js_trim s) \<le> length s"
proof -
  show a: "length (trim_start s) \<le> length s" for s by (simp add: trim_start_def strip_units_length)
  show b: "length (trim_end s) \<le> length s" for s
    using strip_units_length [of _ "rev s"] by (simp add: trim_end_def)
  show "length (js_trim s) \<le> length s" using a b by (auto simp: js_trim_def intro: order_trans)
qed

definition is_blank :: "char \<Rightarrow> bool" where
  "is_blank c \<longleftrightarrow> c = CHR '' '' \<or> c = CHR 0x09"

section \<open>Orders on strings\<close>

text \<open>
  \<open>codePointCompare\<close> orders by code point, which is the byte order of UTF-8; the default
  comparison of JavaScript (\<open>Array.prototype.sort\<close>, \<open><\<close>) orders by UTF-16 code unit.  The two
  differ in one place: the units of U+E000..U+FFFF (lead bytes 0xEE and 0xEF) come after the
  surrogates of the astral planes (lead bytes 0xF0..0xF4).
\<close>

definition utf16_key :: "string \<Rightarrow> nat list" where
  "utf16_key s = map (\<lambda>c. if byte c = 0xEE \<or> byte c = 0xEF then byte c + 256 else byte c) s"

definition code_point_key :: "string \<Rightarrow> nat list" where
  "code_point_key s = map byte s"

lemma inj_utf16_key: "inj utf16_key"
proof -
  have "inj (\<lambda>c. if byte c = 0xEE \<or> byte c = 0xEF then byte c + 256 else byte c)"
  proof (rule injI)
    fix c d
    assume e: "(if byte c = 0xEE \<or> byte c = 0xEF then byte c + 256 else byte c) =
               (if byte d = 0xEE \<or> byte d = 0xEF then byte d + 256 else byte d)"
    from e byte_lt [of c] byte_lt [of d] have "byte c = byte d"
      by (auto simp del: byte_inject byte_lt split: if_splits)
    then show "c = d" by simp
  qed
  then have "inj (map (\<lambda>c. if byte c = 0xEE \<or> byte c = 0xEF then byte c + 256 else byte c))"
    by (rule inj_mapI)
  then show ?thesis by (simp add: utf16_key_def [abs_def])
qed

lemma inj_code_point_key: "inj code_point_key"
proof -
  have "inj byte" by (simp add: inj_def)
  then have "inj (map byte)" by (rule inj_mapI)
  then show ?thesis by (simp add: code_point_key_def [abs_def])
qed

definition js_sort :: "string list \<Rightarrow> string list" where
  "js_sort = sort_key utf16_key"

definition code_point_sort :: "string list \<Rightarrow> string list" where
  "code_point_sort = sort_key code_point_key"

definition code_point_less :: "string \<Rightarrow> string \<Rightarrow> bool" where
  "code_point_less a b \<longleftrightarrow> code_point_key a < code_point_key b"

lemma set_js_sort [simp]: "set (js_sort xs) = set xs"
  by (simp add: js_sort_def)

lemma set_code_point_sort [simp]: "set (code_point_sort xs) = set xs"
  by (simp add: code_point_sort_def)

lemma js_sort_Nil [simp]: "js_sort [] = []" "js_sort xs = [] \<longleftrightarrow> xs = []"
  by (simp_all add: js_sort_def) (metis length_0_conv length_sort)

lemma code_point_sort_Nil [simp]: "code_point_sort [] = []" "code_point_sort xs = [] \<longleftrightarrow> xs = []"
  by (simp_all add: code_point_sort_def) (metis length_0_conv length_sort)

section \<open>Decimal texts\<close>

text \<open>\<open>String(n)\<close> of a non-negative integer below 10 ^ 21, as indices and lengths are.\<close>

fun decimal :: "nat \<Rightarrow> string" where
  "decimal n =
     (if n < 10 then [char_of (0x30 + n)] else decimal (n div 10) @ [char_of (0x30 + n mod 10)])"

declare decimal.simps [simp del]

lemma decimal_digit: "n < 10 \<Longrightarrow> is_digit (char_of (0x30 + n :: nat))"
  by (simp add: is_digit_def byte_char_of)

lemma decimal_digits [js_string]: "decimal n \<noteq> [] \<and> list_all is_digit (decimal n)"
proof (induction n rule: decimal.induct)
  case (1 n)
  then show ?case by (simp add: decimal.simps [of n] decimal_digit)
qed

end
