(* ===== verification/Js_Value.thy ===== *)
theory Js_Value
  imports Js_Base
begin

text \<open>
  The JavaScript values the client works on: what \<open>JSON.parse\<close> or the exact-number parser of
  \<open>@openbindings/json\<close> can build, plus \<open>undefined\<close>, the non-finite numbers and functions, which the
  code tests for.  A finite number, native or a decimal carrier, is its JSON token; an object is
  the list of its own members in own-key order.  The serializer of \<open>@openbindings/json\<close> is not code
  of the repository, so the definitions that call it take it as a parameter of type
  \<open>json_stringify\<close>.
\<close>

datatype jsval =
    JUndefined
  | JNull
  | JBool bool
  | JNum string
  | JNonFinite string
  | JStr string
  | JFun
  | JArr "jsval list"
  | JObj "(string \<times> jsval) list"

type_synonym js_members = "(string \<times> jsval) list"
type_synonym json_stringify = "jsval \<Rightarrow> string option"

section \<open>Access\<close>

definition member_of :: "js_members \<Rightarrow> string \<Rightarrow> jsval" where
  "member_of ms k = (case map_of ms k of None \<Rightarrow> JUndefined | Some v \<Rightarrow> v)"

definition has_member :: "js_members \<Rightarrow> string \<Rightarrow> bool" where
  "has_member ms k \<longleftrightarrow> k \<in> fst ` set ms"

definition member_keys :: "js_members \<Rightarrow> string list" where
  "member_keys ms = map fst ms"

text \<open>\<open>v.k\<close> for a name \<open>k\<close> no built-in prototype defines, \<open>Object.hasOwn(v, k)\<close>.\<close>

fun get_prop :: "jsval \<Rightarrow> string \<Rightarrow> jsval" where
  "get_prop (JObj ms) k = member_of ms k"
| "get_prop _ k = JUndefined"

fun has_own :: "jsval \<Rightarrow> string \<Rightarrow> bool" where
  "has_own (JObj ms) k = has_member ms k"
| "has_own _ k = False"

fun as_array :: "jsval \<Rightarrow> jsval list option" where
  "as_array (JArr xs) = Some xs"
| "as_array _ = None"

text \<open>\<open>asObject\<close> and \<open>asRecord\<close>: a non-null object that is no array (and no decimal carrier).\<close>

fun as_object :: "jsval \<Rightarrow> js_members option" where
  "as_object (JObj ms) = Some ms"
| "as_object _ = None"

fun as_str :: "jsval \<Rightarrow> string option" where
  "as_str (JStr s) = Some s"
| "as_str _ = None"

fun truthy :: "jsval \<Rightarrow> bool" where
  "truthy JUndefined = False"
| "truthy JNull = False"
| "truthy (JBool b) = b"
| "truthy (JNum t) = (t \<noteq> ''0'')"
| "truthy (JNonFinite t) = (t \<noteq> ''NaN'')"
| "truthy (JStr s) = (s \<noteq> [])"
| "truthy _ = True"

definition is_str :: "jsval \<Rightarrow> bool" where
  "is_str v \<longleftrightarrow> as_str v \<noteq> None"

definition str_or :: "jsval \<Rightarrow> string \<Rightarrow> string" where
  "str_or v d = (case as_str v of None \<Rightarrow> d | Some s \<Rightarrow> s)"

text \<open>\<open>String(v)\<close>, which template literals apply.\<close>

fun js_String :: "jsval \<Rightarrow> string" where
  "js_String JUndefined = ''undefined''"
| "js_String JNull = ''null''"
| "js_String (JBool b) = (if b then ''true'' else ''false'')"
| "js_String (JNum t) = t"
| "js_String (JNonFinite t) = t"
| "js_String (JStr s) = s"
| "js_String JFun = ''function''"
| "js_String (JArr xs) =
     join '','' (map (\<lambda>x. if x = JUndefined \<or> x = JNull then [] else js_String x) xs)"
| "js_String (JObj ms) = ''[object Object]''"

text \<open>Well-formed values: an object's own keys are distinct, at every depth.\<close>

fun wf_val :: "jsval \<Rightarrow> bool" where
  "wf_val (JArr xs) = list_all wf_val xs"
| "wf_val (JObj ms) = (distinct (map fst ms) \<and> list_all (\<lambda>m. wf_val (snd m)) ms)"
| "wf_val _ = True"

lemma as_str_Some [simp]: "as_str v = Some s \<longleftrightarrow> v = JStr s"
  by (cases v) auto

lemma as_array_Some [simp]: "as_array v = Some xs \<longleftrightarrow> v = JArr xs"
  by (cases v) auto

lemma as_object_Some [simp]: "as_object v = Some ms \<longleftrightarrow> v = JObj ms"
  by (cases v) auto

lemma is_str_iff: "is_str v \<longleftrightarrow> (\<exists>s. v = JStr s)"
  by (cases v) (auto simp: is_str_def)

lemma get_prop_JStr: "get_prop v k = JStr s \<Longrightarrow> \<exists>ms. v = JObj ms \<and> map_of ms k = Some (JStr s)"
  by (cases v) (auto simp: member_of_def split: option.splits)

section \<open>Objects as association lists\<close>

text \<open>
  Array-index keys come first, in ascending order, whatever order they were assigned in; other
  keys keep the order of their first assignment.
\<close>

fun digits_value :: "nat \<Rightarrow> string \<Rightarrow> nat" where
  "digits_value acc [] = acc"
| "digits_value acc (c # s) = digits_value (10 * acc + (byte c - 0x30)) s"

definition is_index_key :: "string \<Rightarrow> bool" where
  "is_index_key k \<longleftrightarrow>
     k = ''0'' \<or>
     (k \<noteq> [] \<and> list_all is_digit k \<and> hd k \<noteq> CHR ''0'' \<and> digits_value 0 k < 4294967295)"

definition key_precedes :: "string \<Rightarrow> string \<Rightarrow> bool" where
  "key_precedes k l \<longleftrightarrow>
     is_index_key k \<and> (\<not> is_index_key l \<or> digits_value 0 k < digits_value 0 l)"

fun insert_member :: "string \<Rightarrow> jsval \<Rightarrow> js_members \<Rightarrow> js_members" where
  "insert_member k v [] = [(k, v)]"
| "insert_member k v ((l, w) # ms) =
     (if key_precedes k l then (k, v) # (l, w) # ms else (l, w) # insert_member k v ms)"

fun replace_member :: "string \<Rightarrow> jsval \<Rightarrow> js_members \<Rightarrow> js_members" where
  "replace_member k v [] = []"
| "replace_member k v ((l, w) # ms) = (if k = l then (l, v) # ms else (l, w) # replace_member k v ms)"

text \<open>Defining an own member, as an object literal or \<open>Object.fromEntries\<close> does.\<close>

definition define_member :: "string \<Rightarrow> jsval \<Rightarrow> js_members \<Rightarrow> js_members" where
  "define_member k v ms = (if has_member ms k then replace_member k v ms else insert_member k v ms)"

text \<open>
  \<open>o[k] = v\<close> on an ordinary object: the name \<open>__proto__\<close> reaches the accessor of
  \<open>Object.prototype\<close> and makes no own member.
\<close>

definition assign_member :: "string \<Rightarrow> jsval \<Rightarrow> js_members \<Rightarrow> js_members" where
  "assign_member k v ms = (if k = ''__proto__'' \<and> \<not> has_member ms k then ms else define_member k v ms)"

lemma has_member_simps [simp]:
  "has_member [] k = False"
  "has_member ((l, w) # ms) k = (k = l \<or> has_member ms k)"
  by (auto simp: has_member_def)

lemma has_member_iff: "has_member ms k \<longleftrightarrow> (\<exists>v. map_of ms k = Some v)"
  by (induction ms) auto

lemma map_of_insert_member:
  "\<not> has_member ms k \<Longrightarrow> map_of (insert_member k v ms) = (map_of ms)(k \<mapsto> v)"
  by (induction k v ms rule: insert_member.induct) (auto simp: fun_upd_twist)

lemma map_of_replace_member:
  "has_member ms k \<Longrightarrow> map_of (replace_member k v ms) = (map_of ms)(k \<mapsto> v)"
  by (induction k v ms rule: replace_member.induct) (auto simp: fun_upd_twist)

lemma map_of_define_member: "map_of (define_member k v ms) = (map_of ms)(k \<mapsto> v)"
  by (simp add: define_member_def map_of_insert_member map_of_replace_member)

lemma map_of_assign_member: "k \<noteq> ''__proto__'' \<Longrightarrow> map_of (assign_member k v ms) = (map_of ms)(k \<mapsto> v)"
  by (simp add: assign_member_def map_of_define_member)

lemma keys_insert_member: "set (map fst (insert_member k v ms)) = insert k (set (map fst ms))"
  by (induction k v ms rule: insert_member.induct) (simp_all add: insert_commute)

lemma distinct_insert_member:
  "\<not> has_member ms k \<Longrightarrow> distinct (map fst ms) \<Longrightarrow> distinct (map fst (insert_member k v ms))"
proof (induction k v ms rule: insert_member.induct)
  case (2 k v l w ms)
  then show ?case
    using keys_insert_member [of k v ms] by (auto simp: has_member_def)
qed simp

lemma keys_replace_member: "map fst (replace_member k v ms) = map fst ms"
  by (induction k v ms rule: replace_member.induct) auto

lemma distinct_define_member:
  "distinct (map fst ms) \<Longrightarrow> distinct (map fst (define_member k v ms))"
  by (simp add: define_member_def distinct_insert_member keys_replace_member)

section \<open>Inherited members\<close>

text \<open>
  \<open>k in o\<close> and \<open>o[k]\<close> also see \<open>Object.prototype\<close> when \<open>o\<close> is an ordinary object.
\<close>

definition object_prototype_names :: "string list" where
  "object_prototype_names =
     [''constructor'', ''__defineGetter__'', ''__defineSetter__'', ''hasOwnProperty'',
      ''__lookupGetter__'', ''__lookupSetter__'', ''isPrototypeOf'', ''propertyIsEnumerable'',
      ''toString'', ''valueOf'', ''__proto__'', ''toLocaleString'']"

definition in_object :: "string \<Rightarrow> js_members \<Rightarrow> bool" where
  "in_object k ms \<longleftrightarrow> has_member ms k \<or> k \<in> set object_prototype_names"

definition get_object :: "js_members \<Rightarrow> string \<Rightarrow> jsval" where
  "get_object ms k =
     (case map_of ms k of
        Some v \<Rightarrow> v
      | None \<Rightarrow>
          if k = ''__proto__'' then JObj []
          else if k \<in> set object_prototype_names then JFun
          else JUndefined)"

lemma get_object_own: "map_of ms k = Some v \<Longrightarrow> get_object ms k = v"
  by (simp add: get_object_def)

section \<open>\<open>JSON.stringify\<close>\<close>

text \<open>
  The built-in serializer without a replacer: \<open>undefined\<close> and functions have no text on their own,
  become \<open>null\<close> in an array and vanish from an object; non-finite numbers become \<open>null\<close>.
\<close>

definition hex_lower :: "nat \<Rightarrow> char" where
  "hex_lower n = ''0123456789abcdef'' ! n"

definition json_char :: "char \<Rightarrow> string" where
  "json_char c =
     (if c = CHR 0x22 then [CHR 0x5C, CHR 0x22]
      else if c = CHR 0x5C then [CHR 0x5C, CHR 0x5C]
      else if c = CHR 0x08 then [CHR 0x5C, CHR ''b'']
      else if c = CHR 0x0C then [CHR 0x5C, CHR ''f'']
      else if c = CHR 0x0A then [CHR 0x5C, CHR ''n'']
      else if c = CHR 0x0D then [CHR 0x5C, CHR ''r'']
      else if c = CHR 0x09 then [CHR 0x5C, CHR ''t'']
      else if byte c < 0x20 then CHR 0x5C # ''u00'' @ [hex_lower (byte c div 16), hex_lower (byte c mod 16)]
      else [c])"

definition json_quote :: "string \<Rightarrow> string" where
  "json_quote s = CHR 0x22 # concat (map json_char s) @ [CHR 0x22]"

fun JSON_stringify :: "jsval \<Rightarrow> string option" where
  "JSON_stringify JUndefined = None"
| "JSON_stringify JFun = None"
| "JSON_stringify JNull = Some ''null''"
| "JSON_stringify (JBool b) = Some (if b then ''true'' else ''false'')"
| "JSON_stringify (JNum t) = Some t"
| "JSON_stringify (JNonFinite t) = Some ''null''"
| "JSON_stringify (JStr s) = Some (json_quote s)"
| "JSON_stringify (JArr xs) =
     Some (''['' @ join '','' (map (\<lambda>x. case JSON_stringify x of None \<Rightarrow> ''null'' | Some s \<Rightarrow> s) xs) @ '']'')"
| "JSON_stringify (JObj ms) =
     Some (''{'' @ join '','' (concat (map (\<lambda>m.
         (case JSON_stringify (snd m) of
            None \<Rightarrow> []
          | Some s \<Rightarrow> [json_quote (fst m) @ '':'' @ s])) ms)) @ ''}'')"

end
