(* ===== verification/Declaration.thy ===== *)
theory Declaration
  imports Js_Value
begin

text \<open>
  \<open>resolved-declaration.ts\<close>: the declaration-only reading of a Schema Object that the parameter
  gates use.  Modelled as the parameter code calls it, without a reference resolver: the document
  is already dereferenced, a schema is a finite value, and the \<open>seen\<close> set, which only stops cycles
  through object identity, never fires.  The regular-expression engine behind \<open>patternProperties\<close>
  is the parameter \<open>rx\<close> (\<open>None\<close> for a pattern that does not compile).
\<close>

section \<open>Sizes of members\<close>

definition array_member :: "js_members \<Rightarrow> string \<Rightarrow> jsval list" where
  "array_member ms k = (case member_of ms k of JArr xs \<Rightarrow> xs | _ \<Rightarrow> [])"

lemma size_member_of: "map_of ms k = Some v \<Longrightarrow> size v < size (JObj ms)"
  by (induction ms) (auto split: if_splits)

lemma size_array_member: "x \<in> set (array_member ms k) \<Longrightarrow> size x < size (JObj ms)"
proof -
  assume x: "x \<in> set (array_member ms k)"
  then obtain xs where xs: "map_of ms k = Some (JArr xs)" "x \<in> set xs"
    by (auto simp: array_member_def member_of_def split: jsval.splits option.splits)
  have "size x < size (JArr xs)" using xs(2) by (induction xs) auto
  with size_member_of [OF xs(1)] show ?thesis by simp
qed

section \<open>Conjuncts\<close>

record conjuncts_result =
  conjuncts :: "js_members list"
  ambiguous :: bool
  unsatisfiable :: bool

definition ambiguous_result :: conjuncts_result where
  "ambiguous_result = \<lparr> conjuncts = [], ambiguous = True, unsatisfiable = False \<rparr>"

text \<open>The types one conjunct declares; \<open>None\<close> is the \<open>null\<close> of the source.\<close>

definition nonempty_strings :: "jsval list \<Rightarrow> string list" where
  "nonempty_strings xs = filter (\<lambda>s. s \<noteq> []) (List.map_filter as_str xs)"

definition declarationTypeSet :: "bool \<Rightarrow> js_members \<Rightarrow> string list option" where
  "declarationTypeSet oas30 schema =
     (let raw = member_of schema ''type'';
          declared =
            (case raw of
               JStr s \<Rightarrow> if s = [] then None else Some [s]
             | JArr xs \<Rightarrow>
                 if oas30 then None
                 else if nonempty_strings xs = [] then None
                 else Some (nonempty_strings xs)
             | _ \<Rightarrow> None)
      in map_option (\<lambda>ts. remdups (if oas30 \<and> member_of schema ''nullable'' = JBool True then ts @ [''null''] else ts))
           declared)"

text \<open>\<open>resolveDeclaration\<close> intersects what the conjuncts declare.\<close>

definition meet_types :: "string list option \<Rightarrow> string list option \<Rightarrow> string list option" where
  "meet_types types candidate =
     (case candidate of
        None \<Rightarrow> types
      | Some cs \<Rightarrow> (case types of None \<Rightarrow> Some cs | Some ts \<Rightarrow> Some (filter (\<lambda>t. t \<in> set cs) ts)))"

definition conjunct_types :: "bool \<Rightarrow> js_members list \<Rightarrow> string list option" where
  "conjunct_types oas30 cs = fold (\<lambda>c ts. meet_types ts (declarationTypeSet oas30 c)) cs None"

definition types_within :: "string list option \<Rightarrow> string list \<Rightarrow> bool" where
  "types_within types allowed \<longleftrightarrow>
     (case types of None \<Rightarrow> False | Some [] \<Rightarrow> False | Some ts \<Rightarrow> list_all (\<lambda>t. t \<in> set allowed) ts)"

definition result_declares_only :: "bool \<Rightarrow> conjuncts_result \<Rightarrow> string list \<Rightarrow> bool" where
  "result_declares_only oas30 r allowed \<longleftrightarrow>
     \<not> ambiguous r \<and> types_within (conjunct_types oas30 (conjuncts r)) allowed"

definition join_results :: "conjuncts_result \<Rightarrow> conjuncts_result \<Rightarrow> conjuncts_result" where
  "join_results r s =
     (if ambiguous r then r
      else if ambiguous s then s
      else \<lparr> conjuncts = conjuncts r @ conjuncts s, ambiguous = False,
             unsatisfiable = unsatisfiable r \<or> unsatisfiable s \<rparr>)"

text \<open>
  The \<open>anyOf\<close>/\<open>oneOf\<close> step over the branches' own results: branches that declare only \<open>null\<close> are
  left out, exactly one must remain.
\<close>

definition choose_branch :: "bool \<Rightarrow> conjuncts_result list \<Rightarrow> conjuncts_result" where
  "choose_branch oas30 branches =
     (if branches = [] then \<lparr> conjuncts = [], ambiguous = False, unsatisfiable = False \<rparr>
      else
        (case filter (\<lambda>r. \<not> result_declares_only oas30 r [''null'']) branches of
           [r] \<Rightarrow> r
         | _ \<Rightarrow> ambiguous_result))"

function declarationConjuncts :: "bool \<Rightarrow> jsval \<Rightarrow> conjuncts_result" where
  "declarationConjuncts oas30 (JBool True) = \<lparr> conjuncts = [[]], ambiguous = False, unsatisfiable = False \<rparr>"
| "declarationConjuncts oas30 (JBool False) = \<lparr> conjuncts = [], ambiguous = False, unsatisfiable = True \<rparr>"
| "declarationConjuncts oas30 (JObj ms) =
     foldl join_results \<lparr> conjuncts = [ms], ambiguous = False, unsatisfiable = False \<rparr>
       (choose_branch oas30 (map (declarationConjuncts oas30) (array_member ms ''anyOf''))
        # choose_branch oas30 (map (declarationConjuncts oas30) (array_member ms ''oneOf''))
        # map (declarationConjuncts oas30) (array_member ms ''allOf''))"
| "declarationConjuncts oas30 JUndefined = \<lparr> conjuncts = [], ambiguous = False, unsatisfiable = False \<rparr>"
| "declarationConjuncts oas30 JNull = \<lparr> conjuncts = [], ambiguous = False, unsatisfiable = False \<rparr>"
| "declarationConjuncts oas30 (JNum t) = \<lparr> conjuncts = [], ambiguous = False, unsatisfiable = False \<rparr>"
| "declarationConjuncts oas30 (JNonFinite t) = \<lparr> conjuncts = [], ambiguous = False, unsatisfiable = False \<rparr>"
| "declarationConjuncts oas30 (JStr s) = \<lparr> conjuncts = [], ambiguous = False, unsatisfiable = False \<rparr>"
| "declarationConjuncts oas30 JFun = \<lparr> conjuncts = [], ambiguous = False, unsatisfiable = False \<rparr>"
| "declarationConjuncts oas30 (JArr xs) = \<lparr> conjuncts = [], ambiguous = False, unsatisfiable = False \<rparr>"
  by pat_completeness auto
termination
  by (relation "measure (\<lambda>(oas30, v). size v)") (auto dest: size_array_member)

section \<open>Admission of null\<close>

definition null_by_type :: "bool \<Rightarrow> js_members \<Rightarrow> bool" where
  "null_by_type oas30 ms =
     (case member_of ms ''type'' of
        JStr s \<Rightarrow>
          if s = [] then True
          else if oas30 then member_of ms ''nullable'' = JBool True
          else s = ''null''
      | JArr xs \<Rightarrow> if oas30 \<or> xs = [] then True else JStr ''null'' \<in> set xs
      | _ \<Rightarrow> True)"

function declarationAdmitsNull :: "bool \<Rightarrow> jsval \<Rightarrow> bool" where
  "declarationAdmitsNull oas30 (JBool b) = b"
| "declarationAdmitsNull oas30 (JObj ms) =
     ((has_member ms ''const'' \<longrightarrow> member_of ms ''const'' = JNull) \<and>
      (case member_of ms ''enum'' of JArr xs \<Rightarrow> JNull \<in> set xs | _ \<Rightarrow> True) \<and>
      null_by_type oas30 ms \<and>
      (array_member ms ''anyOf'' \<noteq> [] \<longrightarrow>
         0 < length (filter id (map (declarationAdmitsNull oas30) (array_member ms ''anyOf'')))) \<and>
      (array_member ms ''oneOf'' \<noteq> [] \<longrightarrow>
         length (filter id (map (declarationAdmitsNull oas30) (array_member ms ''oneOf''))) = 1) \<and>
      list_all id (map (declarationAdmitsNull oas30) (array_member ms ''allOf'')))"
| "declarationAdmitsNull oas30 JUndefined = True"
| "declarationAdmitsNull oas30 JNull = True"
| "declarationAdmitsNull oas30 (JNum t) = True"
| "declarationAdmitsNull oas30 (JNonFinite t) = True"
| "declarationAdmitsNull oas30 (JStr s) = True"
| "declarationAdmitsNull oas30 JFun = True"
| "declarationAdmitsNull oas30 (JArr xs) = True"
  by pat_completeness auto
termination
  by (relation "measure (\<lambda>(oas30, v). size v)") (auto dest: size_array_member)

section \<open>The resolved declaration\<close>

record decl =
  d_conjuncts :: "js_members list"
  d_types :: "string list option"
  d_ambiguous :: bool
  d_oas30 :: bool
  d_unsatisfiable :: bool
  d_null :: bool

definition ambiguousDeclaration :: "bool \<Rightarrow> decl" where
  "ambiguousDeclaration oas30 =
     \<lparr> d_conjuncts = [], d_types = None, d_ambiguous = True, d_oas30 = oas30,
       d_unsatisfiable = False, d_null = False \<rparr>"

definition resolveDeclaration :: "jsval \<Rightarrow> bool \<Rightarrow> decl" where
  "resolveDeclaration schema oas30 =
     (let r = declarationConjuncts oas30 schema in
      if ambiguous r then ambiguousDeclaration oas30
      else
        \<lparr> d_conjuncts = conjuncts r, d_types = conjunct_types oas30 (conjuncts r),
          d_ambiguous = False, d_oas30 = oas30, d_unsatisfiable = unsatisfiable r,
          d_null = declarationAdmitsNull oas30 schema \<rparr>)"

definition declaresOnly :: "decl \<Rightarrow> string list \<Rightarrow> bool" where
  "declaresOnly d allowed \<longleftrightarrow> \<not> d_ambiguous d \<and> types_within (d_types d) allowed"

definition admitsStringAsSoleNonNullType :: "decl \<Rightarrow> bool" where
  "admitsStringAsSoleNonNullType d \<longleftrightarrow>
     \<not> d_ambiguous d \<and>
     (case d_types d of
        None \<Rightarrow> False
      | Some ts \<Rightarrow> ''string'' \<in> set ts \<and> list_all (\<lambda>t. t = ''string'' \<or> t = ''null'') ts)"

definition admitsNoInstance :: "decl \<Rightarrow> bool" where
  "admitsNoInstance d \<longleftrightarrow> \<not> d_ambiguous d \<and> (d_unsatisfiable d \<or> d_types d = Some [])"

definition typeless :: "decl \<Rightarrow> bool" where
  "typeless d \<longleftrightarrow>
     \<not> d_ambiguous d \<and> \<not> d_unsatisfiable d \<and> d_types d = None \<and>
     list_all (\<lambda>c. \<not> has_member c ''type'') (d_conjuncts d)"

definition admitsNull :: "decl \<Rightarrow> bool" where
  "admitsNull d \<longleftrightarrow> \<not> d_ambiguous d \<and> \<not> d_unsatisfiable d \<and> d_null d"

text \<open>A string keyword over the conjuncts: its one value, or a conflict.\<close>

definition resolvedStringKeyword :: "decl \<Rightarrow> string \<Rightarrow> string \<times> bool" where
  "resolvedStringKeyword d key =
     (case remdups (nonempty_strings (map (\<lambda>c. member_of c key) (d_conjuncts d))) of
        [] \<Rightarrow> ([], False)
      | [v] \<Rightarrow> (v, False)
      | _ \<Rightarrow> ([], True))"

definition decl_format :: "decl \<Rightarrow> string \<times> bool" where
  "decl_format d = resolvedStringKeyword d ''format''"

definition keywordString :: "decl \<Rightarrow> string \<Rightarrow> string \<times> bool" where
  "keywordString d key = (if d_oas30 d then ([], False) else resolvedStringKeyword d key)"

definition admitsStringEnumValue :: "decl \<Rightarrow> string \<Rightarrow> bool" where
  "admitsStringEnumValue d v \<longleftrightarrow>
     \<not> d_ambiguous d \<and> \<not> d_unsatisfiable d \<and>
     list_all (\<lambda>c.
         (case member_of c ''const'' of JStr s \<Rightarrow> s = v | _ \<Rightarrow> True) \<and>
         (let strings = List.map_filter as_str (array_member c ''enum'')
          in strings \<noteq> [] \<longrightarrow> v \<in> set strings))
       (d_conjuncts d)"

definition propertyNames :: "decl \<Rightarrow> string list" where
  "propertyNames d =
     (if d_ambiguous d then []
      else js_sort (remdups (concat (map (\<lambda>c.
          (case member_of c ''properties'' of JObj ps \<Rightarrow> member_keys ps | _ \<Rightarrow> [])) (d_conjuncts d)))))"

definition requiresProperty :: "decl \<Rightarrow> string \<Rightarrow> bool" where
  "requiresProperty d name \<longleftrightarrow>
     \<not> d_ambiguous d \<and> list_ex (\<lambda>c. JStr name \<in> set (array_member c ''required'')) (d_conjuncts d)"

definition conjoin :: "jsval list \<Rightarrow> jsval" where
  "conjoin members =
     (case members of
        [] \<Rightarrow> JUndefined
      | [m] \<Rightarrow> m
      | ms \<Rightarrow> JObj [(''allOf'', JArr ms)])"

text \<open>What one conjunct says of a property: its slot, the patterns that match, else \<open>additionalProperties\<close>.\<close>

definition property_matches ::
  "(string \<Rightarrow> string \<Rightarrow> bool option) \<Rightarrow> bool \<Rightarrow> string \<Rightarrow> js_members \<Rightarrow> jsval list" where
  "property_matches rx oas30 name c =
     (let own = (case member_of c ''properties'' of
                   JObj ps \<Rightarrow> if has_member ps name then [member_of ps name] else []
                 | _ \<Rightarrow> []);
          patterns = (if oas30 then []
                      else (case member_of c ''patternProperties'' of
                              JObj ps \<Rightarrow>
                                map (member_of ps) (filter (\<lambda>p. rx p name = Some True) (js_sort (member_keys ps)))
                            | _ \<Rightarrow> []));
          additional = member_of c ''additionalProperties'' in
      if own @ patterns \<noteq> [] then own @ patterns
      else if additional = JBool False then []
      else if additional = JUndefined \<or> additional = JBool True then [JObj []]
      else [additional])"

definition decl_property ::
  "(string \<Rightarrow> string \<Rightarrow> bool option) \<Rightarrow> decl \<Rightarrow> string \<Rightarrow> decl" where
  "decl_property rx d name =
     (if d_ambiguous d then ambiguousDeclaration (d_oas30 d)
      else resolveDeclaration
             (conjoin (concat (map (property_matches rx (d_oas30 d) name) (d_conjuncts d)))) (d_oas30 d))"

definition decl_items :: "decl \<Rightarrow> decl" where
  "decl_items d =
     (if d_ambiguous d then ambiguousDeclaration (d_oas30 d)
      else resolveDeclaration
             (conjoin (map (\<lambda>c. member_of c ''items'') (filter (\<lambda>c. has_member c ''items'') (d_conjuncts d))))
             (d_oas30 d))"

definition propertySlots :: "decl \<Rightarrow> string \<Rightarrow> (js_members \<times> jsval) list" where
  "propertySlots d name =
     (if d_ambiguous d then []
      else concat (map (\<lambda>c.
          (case member_of c ''properties'' of
             JObj ps \<Rightarrow> if has_member ps name then [(ps, member_of ps name)] else []
           | _ \<Rightarrow> [])) (d_conjuncts d)))"

section \<open>Properties\<close>

lemma meet_types_None [simp]: "meet_types None c = c" "meet_types t None = t"
  by (simp_all add: meet_types_def split: option.splits)

lemma meet_types_assoc: "meet_types (meet_types a b) c = meet_types a (meet_types b c)"
  by (cases a; cases b; cases c) (auto simp: meet_types_def intro: filter_cong)

lemma fold_meet_types:
  "fold (\<lambda>c ts. meet_types ts (f c)) cs t = meet_types t (fold (\<lambda>c ts. meet_types ts (f c)) cs None)"
proof (induction cs arbitrary: t)
  case Nil
  then show ?case by simp
next
  case (Cons c cs)
  have "fold (\<lambda>c ts. meet_types ts (f c)) (c # cs) t =
      meet_types (meet_types t (f c)) (fold (\<lambda>c ts. meet_types ts (f c)) cs None)"
    by (simp add: Cons [of "meet_types t (f c)"])
  also have "\<dots> = meet_types t (meet_types (f c) (fold (\<lambda>c ts. meet_types ts (f c)) cs None))"
    by (rule meet_types_assoc)
  also have "meet_types (f c) (fold (\<lambda>c ts. meet_types ts (f c)) cs None) =
      fold (\<lambda>c ts. meet_types ts (f c)) (c # cs) None"
    by (simp add: Cons [of "f c"])
  finally show ?case .
qed

lemma conjunct_types_append:
  "conjunct_types oas30 (cs @ ds) = meet_types (conjunct_types oas30 cs) (conjunct_types oas30 ds)"
  unfolding conjunct_types_def fold_append comp_def by (rule fold_meet_types)

lemma join_results_simps:
  "ambiguous r \<Longrightarrow> join_results r s = r"
  "\<not> ambiguous r \<Longrightarrow> ambiguous s \<Longrightarrow> join_results r s = s"
  by (simp_all add: join_results_def)

lemma foldl_join_ambiguous: "ambiguous r \<Longrightarrow> foldl join_results r rs = r"
  by (induction rs) (simp_all add: join_results_simps)

lemma foldl_join_results:
  "\<not> ambiguous r \<Longrightarrow> \<forall>s\<in>set rs. \<not> ambiguous s \<Longrightarrow>
     foldl join_results r rs =
       \<lparr> conjuncts = conjuncts r @ concat (map conjuncts rs), ambiguous = False,
         unsatisfiable = unsatisfiable r \<or> (\<exists>s\<in>set rs. unsatisfiable s) \<rparr>"
proof (induction rs arbitrary: r)
  case Nil
  then show ?case by simp
next
  case (Cons s rs)
  then show ?case by (simp add: join_results_def)
qed

lemma foldl_join_results_ambiguous:
  "\<exists>s\<in>set rs. ambiguous s \<Longrightarrow> ambiguous (foldl join_results r rs)"
proof (induction rs arbitrary: r)
  case (Cons s rs)
  show ?case
  proof (cases "ambiguous r \<or> ambiguous s")
    case True
    then have "ambiguous (join_results r s)" by (auto simp: join_results_def)
    then show ?thesis by (simp add: foldl_join_ambiguous)
  next
    case False
    with Cons show ?thesis by simp
  qed
qed simp

text \<open>\<open>allOf\<close> is the intersection of what its members declare.\<close>

lemma resolve_allOf:
  assumes "\<forall>m\<in>set members. \<not> d_ambiguous (resolveDeclaration m oas30)"
  shows "d_types (resolveDeclaration (JObj [(''allOf'', JArr members)]) oas30) =
           foldl meet_types None (map (\<lambda>m. d_types (resolveDeclaration m oas30)) members)"
    and "\<not> d_ambiguous (resolveDeclaration (JObj [(''allOf'', JArr members)]) oas30)"
proof -
  let ?rs = "map (declarationConjuncts oas30) members"
  have ok: "\<forall>s\<in>set ?rs. \<not> ambiguous s"
    using assms by (auto simp: resolveDeclaration_def Let_def ambiguousDeclaration_def split: if_splits)
  have r: "declarationConjuncts oas30 (JObj [(''allOf'', JArr members)]) =
      \<lparr> conjuncts = [(''allOf'', JArr members)] # concat (map conjuncts ?rs), ambiguous = False,
        unsatisfiable = (\<exists>s\<in>set ?rs. unsatisfiable s) \<rparr>"
    using ok by (simp add: array_member_def member_of_def choose_branch_def join_results_def foldl_join_results)
  have "conjunct_types oas30 [[(''allOf'', JArr members)]] = None"
    by (simp add: conjunct_types_def declarationTypeSet_def member_of_def)
  then have "conjunct_types oas30 ([(''allOf'', JArr members)] # concat (map conjuncts ?rs)) =
      conjunct_types oas30 (concat (map conjuncts ?rs))"
    using conjunct_types_append [of oas30 "[[(''allOf'', JArr members)]]"] by simp
  also have "\<dots> = foldl meet_types None (map (\<lambda>r. conjunct_types oas30 (conjuncts r)) ?rs)"
  proof (induction members rule: rev_induct)
    case Nil
    then show ?case by (simp add: conjunct_types_def)
  next
    case (snoc m ms)
    then show ?case by (simp add: conjunct_types_append)
  qed
  also have "map (\<lambda>r. conjunct_types oas30 (conjuncts r)) ?rs =
      map (\<lambda>m. d_types (resolveDeclaration m oas30)) members"
    using ok by (auto simp: resolveDeclaration_def Let_def)
  finally show "d_types (resolveDeclaration (JObj [(''allOf'', JArr members)]) oas30) =
      foldl meet_types None (map (\<lambda>m. d_types (resolveDeclaration m oas30)) members)"
    using r by (simp add: resolveDeclaration_def Let_def)
  show "\<not> d_ambiguous (resolveDeclaration (JObj [(''allOf'', JArr members)]) oas30)"
    using r by (simp add: resolveDeclaration_def Let_def)
qed

lemma meet_types_Some:
  "meet_types a b = Some ts \<Longrightarrow>
     t \<in> set ts \<longleftrightarrow> (case a of None \<Rightarrow> True | Some us \<Rightarrow> t \<in> set us) \<and> (case b of None \<Rightarrow> True | Some us \<Rightarrow> t \<in> set us)"
  by (cases a; cases b) (auto simp: meet_types_def)

lemma foldl_meet_types_set:
  "foldl meet_types None cs = Some ts \<Longrightarrow>
     t \<in> set ts \<longleftrightarrow> (\<forall>c\<in>set cs. case c of None \<Rightarrow> True | Some us \<Rightarrow> t \<in> set us)"
proof (induction cs arbitrary: ts rule: rev_induct)
  case Nil
  then show ?case by simp
next
  case (snoc c cs)
  show ?case
  proof (cases "foldl meet_types None cs")
    case None
    have "\<forall>d\<in>set cs. d = None"
      using None
    proof (induction cs rule: rev_induct)
      case (snoc d ds)
      then show ?case by (auto simp: meet_types_def split: option.splits)
    qed simp
    with None snoc.prems show ?thesis by auto
  next
    case (Some us)
    with snoc.IH [OF Some] meet_types_Some [of "Some us" c ts t] snoc.prems show ?thesis by auto
  qed
qed

lemma declaresOnly_mono: "declaresOnly d allowed \<Longrightarrow> set allowed \<subseteq> set wider \<Longrightarrow> declaresOnly d wider"
  by (auto simp: declaresOnly_def types_within_def list_all_iff split: option.splits list.splits)

lemma resolve_non_schema: "as_object v = None \<Longrightarrow> \<not> declaresOnly (resolveDeclaration v oas30) allowed"
  by (cases v rule: jsval.exhaust; cases "v = JBool True")
    (auto simp: declaresOnly_def resolveDeclaration_def conjunct_types_def types_within_def
      declarationTypeSet_def member_of_def)

section \<open>Claims\<close>

text \<open>
  \<open>allOf\<close> is conjunction: when no member is ambiguous, the types a schema with just an \<open>allOf\<close>
  is resolved to are exactly those every type-declaring member allows, and the schema is not
  ambiguous itself.
\<close>

theorem allOf_is_intersection:
  assumes "\<forall>m\<in>set members. \<not> d_ambiguous (resolveDeclaration m oas30)"
    and "d_types (resolveDeclaration (JObj [(''allOf'', JArr members)]) oas30) = Some ts"
  shows "\<not> d_ambiguous (resolveDeclaration (JObj [(''allOf'', JArr members)]) oas30) \<and>
    (t \<in> set ts \<longleftrightarrow>
      (\<forall>m\<in>set members. case d_types (resolveDeclaration m oas30) of None \<Rightarrow> True | Some us \<Rightarrow> t \<in> set us))"
  using resolve_allOf [OF assms(1)] assms(2)
    foldl_meet_types_set [of "map (\<lambda>m. d_types (resolveDeclaration m oas30)) members" ts t] by simp

theorem allOf_is_intersection_witness:
  "''string'' \<in> set [''string''] \<longleftrightarrow>
     (\<forall>m\<in>set [JObj [(''type'', JArr [JStr ''null'', JStr ''string''])], JObj [(''type'', JStr ''string'')]].
        case d_types (resolveDeclaration m False) of None \<Rightarrow> True | Some us \<Rightarrow> ''string'' \<in> set us)"
proof -
  let ?ms = "[JObj [(''type'', JArr [JStr ''null'', JStr ''string''])], JObj [(''type'', JStr ''string'')]]"
  have "\<forall>m\<in>set ?ms. \<not> d_ambiguous (resolveDeclaration m False)" by code_simp
  moreover have "d_types (resolveDeclaration (JObj [(''allOf'', JArr ?ms)]) False) = Some [''string'']" by code_simp
  ultimately show ?thesis using allOf_is_intersection [of ?ms False] by blast
qed

end
