(* ===== verification/Uri_Escape.thy ===== *)
theory Uri_Escape
  imports Js_Base
begin

text \<open>
  Percent-encoding: \<open>queryEscape\<close>, \<open>encodePathValue\<close>, \<open>rfc3986Escape\<close> and \<open>percentEncodeBytes\<close> of
  \<open>params.ts\<close>, with the standard functions \<open>encodeURIComponent\<close> and \<open>decodeURIComponent\<close> they and
  their callers use.  The interface \<open>component_escaper\<close> states what the style expansions need of an
  escaper; both escapers of the source provide it.
\<close>

section \<open>UTF-8\<close>

definition is_cont :: "nat \<Rightarrow> bool" where
  "is_cont b \<longleftrightarrow> 0x80 \<le> b \<and> b \<le> 0xBF"

text \<open>Number of bytes a lead byte announces; 0 for a byte that leads nothing.\<close>

definition utf8_len :: "nat \<Rightarrow> nat" where
  "utf8_len b =
     (if b < 0x80 then 1
      else if 0xC2 \<le> b \<and> b \<le> 0xDF then 2
      else if 0xE0 \<le> b \<and> b \<le> 0xEF then 3
      else if 0xF0 \<le> b \<and> b \<le> 0xF4 then 4
      else 0)"

text \<open>Well-formed sequences (Unicode, table 3-7): no overlong form, no surrogate, at most U+10FFFF.\<close>

definition second_ok :: "nat \<Rightarrow> nat \<Rightarrow> bool" where
  "second_ok b c \<longleftrightarrow>
     (if b = 0xE0 then 0xA0 \<le> c \<and> c \<le> 0xBF
      else if b = 0xED then 0x80 \<le> c \<and> c \<le> 0x9F
      else if b = 0xF0 then 0x90 \<le> c \<and> c \<le> 0xBF
      else if b = 0xF4 then 0x80 \<le> c \<and> c \<le> 0x8F
      else is_cont c)"

definition utf8_seq :: "string \<Rightarrow> bool" where
  "utf8_seq s \<longleftrightarrow>
     (case s of
        [] \<Rightarrow> False
      | [c] \<Rightarrow> byte c < 0x80
      | c # d # cs \<Rightarrow>
          utf8_len (byte c) = length s \<and> second_ok (byte c) (byte d) \<and> list_all (\<lambda>e. is_cont (byte e)) cs)"

inductive utf8 :: "string \<Rightarrow> bool" where
  utf8_Nil: "utf8 []"
| utf8_Seq: "utf8_seq u \<Longrightarrow> utf8 s \<Longrightarrow> utf8 (u @ s)"

lemma utf8_ascii: "is_ascii c \<Longrightarrow> utf8 s \<Longrightarrow> utf8 (c # s)"
  using utf8_Seq [of "[c]" s] by (simp add: utf8_seq_def is_ascii_def)

lemma utf8_all_ascii: "list_all is_ascii s \<Longrightarrow> utf8 s"
  by (induction s) (auto intro: utf8_Nil utf8_ascii)

lemma utf8_append: "utf8 s \<Longrightarrow> utf8 t \<Longrightarrow> utf8 (s @ t)"
  by (induction rule: utf8.induct) (auto intro: utf8.intros)

section \<open>Encoding\<close>

text \<open>The unreserved characters of RFC 3986, the set RESERVED_BYTES, the set \<open>formBody\<close> selects.\<close>

definition is_unreserved :: "char \<Rightarrow> bool" where
  "is_unreserved c \<longleftrightarrow> is_alnum c \<or> c \<in> set ''-._~''"

definition reserved_bytes :: "char set" where
  "reserved_bytes = set '':/?#[]@!$&'()*+,;=''"

definition form_body_allowed :: "char set" where
  "form_body_allowed = set '':/?@!$'()*,;''"

definition pct :: "char \<Rightarrow> string" where
  "pct c = [CHR ''%'', hex_digit (byte c div 16), hex_digit (byte c mod 16)]"

text \<open>Encoding byte by byte, with the characters that stay literal as a predicate.\<close>

definition encode_with :: "(char \<Rightarrow> bool) \<Rightarrow> string \<Rightarrow> string" where
  "encode_with literal s = concat (map (\<lambda>c. if literal c then [c] else pct c) s)"

definition percentEncodeBytes :: "string \<Rightarrow> bool \<Rightarrow> string" where
  "percentEncodeBytes bytes allowReserved =
     encode_with (\<lambda>c. is_unreserved c \<or> (allowReserved \<and> c \<in> reserved_bytes)) bytes"

definition rfc3986Escape :: "string \<Rightarrow> bool \<Rightarrow> bool \<Rightarrow> string" where
  "rfc3986Escape s allowReserved formBody =
     (let allowed = (if formBody then form_body_allowed else reserved_bytes)
      in encode_with (\<lambda>c. is_unreserved c \<or> (allowReserved \<and> c \<in> allowed)) s)"

definition uri_mark :: "char \<Rightarrow> bool" where
  "uri_mark c \<longleftrightarrow> is_alnum c \<or> c \<in> set ''-_.!~*'()''"

definition encodeURIComponent :: "string \<Rightarrow> string" where
  "encodeURIComponent s = encode_with uri_mark s"

text \<open>
  The table RESERVED_ESCAPES and the global replacement over it: at a percent sign followed by a
  pair of the table the character replaces the three, anything else is copied.
\<close>

definition reserved_escapes :: "(string \<times> char) list" where
  "reserved_escapes =
     [(''3A'', CHR '':''), (''2F'', CHR ''/''), (''3F'', CHR ''?''), (''23'', CHR ''#''),
      (''5B'', CHR ''[''), (''5D'', CHR '']''), (''40'', CHR ''@''), (''24'', CHR ''$''),
      (''26'', CHR ''&''), (''2B'', CHR ''+''), (''2C'', CHR '',''), (''3B'', CHR '';''),
      (''3D'', CHR ''='')]"

fun restore_reserved :: "string \<Rightarrow> string" where
  "restore_reserved (a # b # c # s) =
     (case (if a = CHR ''%'' then map_of reserved_escapes [b, c] else None) of
        Some r \<Rightarrow> r # restore_reserved s
      | None \<Rightarrow> a # restore_reserved (b # c # s))"
| "restore_reserved s = s"

definition queryEscape :: "string \<Rightarrow> bool \<Rightarrow> bool \<Rightarrow> bool \<Rightarrow> string" where
  "queryEscape s allowReserved revision3 formBody =
     (if revision3 then rfc3986Escape s allowReserved formBody
      else let escaped = encodeURIComponent s
           in if \<not> allowReserved then escaped else restore_reserved escaped)"

definition encodePathValue :: "string \<Rightarrow> bool \<Rightarrow> string" where
  "encodePathValue s revision3 = (if revision3 then rfc3986Escape s False False else encodeURIComponent s)"

section \<open>Decoding\<close>

text \<open>
  \<open>decodeURIComponent\<close>; \<open>None\<close> is the URIError.  A percent-encoded lead byte takes its
  continuation bytes percent-encoded too; anything else than a percent sign is copied.
\<close>

fun take_escape :: "string \<Rightarrow> (char \<times> string) option" where
  "take_escape (p # h # l # s) =
     (if p = CHR ''%'' then
        (case (hex_value h, hex_value l) of
           (Some x, Some y) \<Rightarrow> Some (char_of (16 * x + y), s)
         | _ \<Rightarrow> None)
      else None)"
| "take_escape _ = None"

fun take_escapes :: "nat \<Rightarrow> string \<Rightarrow> (string \<times> string) option" where
  "take_escapes 0 s = Some ([], s)"
| "take_escapes (Suc n) s =
     (case take_escape s of
        None \<Rightarrow> None
      | Some (c, t) \<Rightarrow> map_option (\<lambda>(cs, u). (c # cs, u)) (take_escapes n t))"

lemma take_escape_length: "take_escape s = Some (c, t) \<Longrightarrow> length t < length s"
  by (induction s rule: take_escape.induct) (auto split: if_splits option.splits)

lemma take_escapes_length: "take_escapes n s = Some (cs, t) \<Longrightarrow> length t \<le> length s"
proof (induction n arbitrary: s cs)
  case 0
  then show ?case by simp
next
  case (Suc n)
  then obtain c u us where "take_escape s = Some (c, u)" "take_escapes n u = Some (us, t)"
    by (auto split: option.splits)
  with Suc.IH take_escape_length show ?case by fastforce
qed

function decodeURIComponent :: "string \<Rightarrow> string option" where
  "decodeURIComponent s =
     (case s of
        [] \<Rightarrow> Some []
      | c # cs \<Rightarrow>
          if c \<noteq> CHR ''%'' then map_option ((#) c) (decodeURIComponent cs)
          else (case take_escape s of
                  None \<Rightarrow> None
                | Some (b, t) \<Rightarrow>
                    (case take_escapes (utf8_len (byte b) - 1) t of
                       None \<Rightarrow> None
                     | Some (bs, u) \<Rightarrow>
                         if utf8_seq (b # bs) then map_option ((@) (b # bs)) (decodeURIComponent u)
                         else None)))"
  by pat_completeness auto
termination
  by (relation "measure length")
    (auto dest!: take_escape_length take_escapes_length)

declare decodeURIComponent.simps [simp del]

lemma decode_Nil [simp]: "decodeURIComponent [] = Some []"
  by (subst decodeURIComponent.simps) simp

lemma decode_literal: "c \<noteq> CHR ''%'' \<Longrightarrow> decodeURIComponent (c # s) = map_option ((#) c) (decodeURIComponent s)"
  by (subst decodeURIComponent.simps) simp

lemma decode_escape:
  assumes "hd s = CHR ''%''" and "take_escape s = Some (b, t)"
    and "take_escapes (utf8_len (byte b) - 1) t = Some (bs, u)" and "utf8_seq (b # bs)"
  shows "decodeURIComponent s = map_option ((@) (b # bs)) (decodeURIComponent u)"
proof (cases s)
  case Nil
  with assms(2) show ?thesis by simp
next
  case (Cons c cs)
  with assms(1) have "s = CHR ''%'' # cs" by simp
  with assms(2-4) show ?thesis by (subst decodeURIComponent.simps) (simp del: take_escape.simps)
qed

text \<open>Decoding goes through the parts of a text that are whole on their own.\<close>

lemma take_escape_append: "take_escape s = Some (c, u) \<Longrightarrow> take_escape (s @ t) = Some (c, u @ t)"
  by (induction s rule: take_escape.induct) (auto split: option.splits if_splits)

lemma take_escapes_append: "take_escapes n s = Some (cs, u) \<Longrightarrow> take_escapes n (s @ t) = Some (cs, u @ t)"
proof (induction n arbitrary: s cs u)
  case 0
  then show ?case by simp
next
  case (Suc n)
  then obtain c v us where v: "take_escape s = Some (c, v)" "take_escapes n v = Some (us, u)" "cs = c # us"
    by (auto split: option.splits)
  show ?case
    using take_escape_append [OF v(1)] Suc.IH [OF v(2)] v(3) by simp
qed

lemma decode_escape_cases:
  assumes "decodeURIComponent s = Some a" and s: "s = CHR ''%'' # cs"
  obtains b u bs v d where "take_escape s = Some (b, u)"
    "take_escapes (utf8_len (byte b) - 1) u = Some (bs, v)" "utf8_seq (b # bs)"
    "decodeURIComponent v = Some d" "a = b # bs @ d"
proof -
  have eq: "decodeURIComponent s =
      (case take_escape s of
         None \<Rightarrow> None
       | Some (b, u) \<Rightarrow>
           (case take_escapes (utf8_len (byte b) - 1) u of
              None \<Rightarrow> None
            | Some (bs, v) \<Rightarrow>
                if utf8_seq (b # bs) then map_option ((@) (b # bs)) (decodeURIComponent v) else None))"
    by (subst decodeURIComponent.simps) (simp add: s del: take_escape.simps)
  obtain b u where bu: "take_escape s = Some (b, u)"
    using eq assms(1) by (cases "take_escape s") auto
  obtain bs v where bsv: "take_escapes (utf8_len (byte b) - 1) u = Some (bs, v)"
    using eq assms(1) bu by (cases "take_escapes (utf8_len (byte b) - 1) u") auto
  have "utf8_seq (b # bs)" and "map_option ((@) (b # bs)) (decodeURIComponent v) = Some a"
    using eq assms(1) bu bsv by (simp_all split: if_splits)
  then show ?thesis using that [OF bu bsv] by auto
qed

lemma decode_append:
  "decodeURIComponent s = Some a \<Longrightarrow>
     decodeURIComponent (s @ t) = map_option ((@) a) (decodeURIComponent t)"
proof (induction s arbitrary: a rule: length_induct)
  case (1 s)
  show ?case
  proof (cases s)
    case Nil
    with "1.prems" show ?thesis by (simp add: option.map_ident)
  next
    case (Cons c cs)
    show ?thesis
    proof (cases "c = CHR ''%''")
      case False
      with Cons "1.prems" obtain b where b: "decodeURIComponent cs = Some b" "a = c # b"
        by (auto simp: decode_literal)
      have "decodeURIComponent (cs @ t) = map_option ((@) b) (decodeURIComponent t)"
        using "1.IH" b(1) Cons by simp
      with False Cons b(2) show ?thesis
        by (simp add: decode_literal option.map_comp o_def)
    next
      case True
      obtain b u bs v d where
        e: "take_escape s = Some (b, u)" "take_escapes (utf8_len (byte b) - 1) u = Some (bs, v)"
          "utf8_seq (b # bs)" "decodeURIComponent v = Some d" "a = b # bs @ d"
        by (rule decode_escape_cases [OF "1.prems", of cs]) (simp_all only: Cons True)
      have "length v < length s"
        using take_escape_length [OF e(1)] take_escapes_length [OF e(2)] by simp
      then have "decodeURIComponent (v @ t) = map_option ((@) d) (decodeURIComponent t)"
        using "1.IH" e(4) by blast
      moreover have "decodeURIComponent (s @ t) = map_option ((@) (b # bs)) (decodeURIComponent (v @ t))"
        using Cons True by (intro decode_escape [OF _ take_escape_append [OF e(1)] take_escapes_append [OF e(2)] e(3)]) simp
      ultimately show ?thesis
        using e(5) by (simp add: option.map_comp o_def)
    qed
  qed
qed

section \<open>Properties of the encoders\<close>

lemma encode_with_simps [simp]:
  "encode_with lit [] = []"
  "encode_with lit (c # s) = (if lit c then [c] else pct c) @ encode_with lit s"
  "encode_with lit (s @ t) = encode_with lit s @ encode_with lit t"
  by (simp_all add: encode_with_def)

lemma pct_chars: "d \<in> set (pct c) \<Longrightarrow> d = CHR ''%'' \<or> is_upper d \<or> is_digit d"
  using hex_digit_class [of "byte c div 16"] hex_digit_class [of "byte c mod 16"]
  by (auto simp: pct_def)

lemma hd_pct [simp]: "hd (pct c @ s) = CHR ''%''"
  by (simp add: pct_def)

lemma encode_with_chars:
  "d \<in> set (encode_with lit s) \<Longrightarrow> lit d \<or> d = CHR ''%'' \<or> is_upper d \<or> is_digit d"
  by (induction s) (auto dest: pct_chars split: if_splits)

lemma encode_with_Nil_iff [simp]: "encode_with lit s = [] \<longleftrightarrow> s = []"
  by (cases s) (auto simp: pct_def)

lemma take_escape_pct [simp]: "take_escape (pct c @ s) = Some (c, s)"
  by (simp add: pct_def hex_value_hex_digit)

lemma take_escapes_pct: "take_escapes (length u) (concat (map pct u) @ s) = Some (u, s)"
  by (induction u) auto

text \<open>An encoder that keeps only ASCII characters other than the percent sign can be undone.\<close>

definition plain_literals :: "(char \<Rightarrow> bool) \<Rightarrow> bool" where
  "plain_literals lit \<longleftrightarrow> (\<forall>c. lit c \<longrightarrow> is_ascii c \<and> c \<noteq> CHR ''%'')"

lemma decode_pct_seq:
  assumes "utf8_seq (c # cs)"
  shows "decodeURIComponent (concat (map pct (c # cs)) @ s) = map_option ((@) (c # cs)) (decodeURIComponent s)"
proof -
  have "utf8_len (byte c) - 1 = length cs"
    using assms by (cases cs) (auto simp: utf8_seq_def utf8_len_def)
  then have "take_escapes (utf8_len (byte c) - 1) (concat (map pct cs) @ s) = Some (cs, s)"
    by (simp add: take_escapes_pct)
  then show ?thesis
    using assms decode_escape [of "pct c @ concat (map pct cs) @ s" c "concat (map pct cs) @ s" cs s]
    by simp
qed

lemma utf8_seq_not_ascii:
  assumes "utf8_seq (c # d # cs)" and "e \<in> set (c # d # cs)"
  shows "\<not> is_ascii e"
proof -
  have "utf8_len (byte c) = Suc (Suc (length cs))" "second_ok (byte c) (byte d)"
    "\<forall>e\<in>set cs. is_cont (byte e)"
    using assms(1) by (auto simp: utf8_seq_def list_all_iff)
  with assms(2) show ?thesis
    by (auto simp: is_ascii_def second_ok_def is_cont_def utf8_len_def split: if_splits)
qed

lemma decode_encode_seq:
  assumes lit: "plain_literals lit" and u: "utf8_seq u"
  shows "decodeURIComponent (encode_with lit u @ s) = map_option ((@) u) (decodeURIComponent s)"
proof -
  obtain c cs where c: "u = c # cs" using u by (cases u) (auto simp: utf8_seq_def)
  show ?thesis
  proof (cases "cs = [] \<and> lit c")
    case True
    with lit c have "c \<noteq> CHR ''%''" by (auto simp: plain_literals_def)
    with True c show ?thesis by (cases "decodeURIComponent s") (simp_all add: decode_literal)
  next
    case False
    have "\<forall>e\<in>set u. \<not> lit e"
    proof (cases cs)
      case Nil
      with False c show ?thesis by simp
    next
      case (Cons d ds)
      with u c have "\<forall>e\<in>set u. \<not> is_ascii e" using utf8_seq_not_ascii by blast
      with lit show ?thesis by (auto simp: plain_literals_def)
    qed
    then have "encode_with lit u = concat (map pct u)" by (induction u) auto
    with u c show ?thesis using decode_pct_seq by simp
  qed
qed

lemma decode_encode:
  assumes "plain_literals lit" and "utf8 s"
  shows "decodeURIComponent (encode_with lit s) = Some s"
  using assms(2)
proof (induction rule: utf8.induct)
  case utf8_Nil
  then show ?case by simp
next
  case (utf8_Seq u s)
  with assms(1) show ?case by (simp add: decode_encode_seq)
qed

lemma alnum_plain: "is_alnum c \<Longrightarrow> is_ascii c \<and> c \<noteq> CHR ''%''"
  by (auto simp: char_class_defs)

lemma plain_unreserved: "plain_literals (\<lambda>c. is_unreserved c \<or> (r \<and> c \<in> reserved_bytes))"
  using alnum_plain
  by (auto simp: plain_literals_def is_unreserved_def reserved_bytes_def is_ascii_def byte_def)

lemma plain_form_body: "plain_literals (\<lambda>c. is_unreserved c \<or> (r \<and> c \<in> form_body_allowed))"
  using alnum_plain
  by (auto simp: plain_literals_def is_unreserved_def form_body_allowed_def is_ascii_def byte_def)

lemma plain_uri_mark: "plain_literals uri_mark"
  using alnum_plain by (auto simp: plain_literals_def uri_mark_def is_ascii_def byte_def)

section \<open>The interface of a component escaper\<close>

text \<open>
  What the style expansions rely on: an escaped component decodes to the text it came from, and
  holds no character outside a safe set but the percent sign.  From it: a list of escaped
  components joined by an unsafe delimiter can be taken apart again.
\<close>

locale component_escaper =
  fixes esc :: "string \<Rightarrow> string" and safe :: "char \<Rightarrow> bool"
  assumes esc_decode: "utf8 s \<Longrightarrow> decodeURIComponent (esc s) = Some s"
    and esc_chars: "c \<in> set (esc s) \<Longrightarrow> safe c \<or> c = CHR ''%''"
begin

lemma esc_injective: "utf8 s \<Longrightarrow> utf8 t \<Longrightarrow> esc s = esc t \<Longrightarrow> s = t"
  by (metis esc_decode option.inject)

lemma esc_avoids: "\<not> safe d \<Longrightarrow> d \<noteq> CHR ''%'' \<Longrightarrow> d \<notin> set (esc s)"
  using esc_chars by blast

lemma split_escaped:
  "\<not> safe d \<Longrightarrow> d \<noteq> CHR ''%'' \<Longrightarrow> xs \<noteq> [] \<Longrightarrow> split_str [d] (join [d] (map esc xs)) = map esc xs"
  by (rule split_join_char) (auto dest: esc_avoids)

lemma decode_escaped:
  "\<forall>x\<in>set xs. utf8 x \<Longrightarrow> those (map decodeURIComponent (map esc xs)) = Some xs"
  by (induction xs) (auto simp: esc_decode)

lemma decode_split_escaped:
  assumes "\<not> safe d" and "d \<noteq> CHR ''%''" and "xs \<noteq> []" and "\<forall>x\<in>set xs. utf8 x"
  shows "those (map decodeURIComponent (split_str [d] (join [d] (map esc xs)))) = Some xs"
  using assms decode_escaped by (simp add: split_escaped)

end

lemma component_escaper_encode:
  assumes "plain_literals lit" and "\<And>c. lit c \<or> is_upper c \<or> is_digit c \<Longrightarrow> safe c"
  shows "component_escaper (encode_with lit) safe"
  using assms decode_encode encode_with_chars by unfold_locales blast+

lemma rfc3986_plain:
  "rfc3986Escape s False formBody = encode_with (\<lambda>c. is_unreserved c \<or> (False \<and> c \<in> reserved_bytes)) s"
  by (simp add: rfc3986Escape_def)

interpretation rfc: component_escaper "\<lambda>s. rfc3986Escape s False formBody" is_unreserved for formBody
  unfolding rfc3986_plain
  by (rule component_escaper_encode [OF plain_unreserved]) (auto simp: is_unreserved_def is_alnum_def)

interpretation uric: component_escaper encodeURIComponent uri_mark
  unfolding encodeURIComponent_def [abs_def]
  by (rule component_escaper_encode [OF plain_uri_mark]) (auto simp: uri_mark_def is_alnum_def)

text \<open>The escaper of the source for a query name or a path segment, in both profiles.\<close>

definition segment_safe :: "char \<Rightarrow> bool" where
  "segment_safe c \<longleftrightarrow> is_unreserved c \<or> uri_mark c"

lemma queryEscape_component:
  "component_escaper (\<lambda>s. queryEscape s False revision3 formBody) segment_safe"
proof (cases revision3)
  case True
  then show ?thesis
    by unfold_locales
      (auto simp: queryEscape_def segment_safe_def rfc.esc_decode dest: rfc.esc_chars)
next
  case False
  then show ?thesis
    by unfold_locales
      (auto simp: queryEscape_def segment_safe_def Let_def uric.esc_decode dest: uric.esc_chars)
qed

interpretation qesc: component_escaper "\<lambda>s. queryEscape s False revision3 formBody" segment_safe
  for revision3 formBody
  by (rule queryEscape_component)

lemma encodePathValue_eq: "encodePathValue s revision3 = queryEscape s False revision3 False"
  by (simp add: encodePathValue_def queryEscape_def)

interpretation pesc: component_escaper "\<lambda>s. encodePathValue s revision3" segment_safe for revision3
  unfolding encodePathValue_eq by (rule queryEscape_component)

lemma segment_safe_iff [simp]:
  "segment_safe c \<longleftrightarrow> is_alnum c \<or> c \<in> set ''-_.~!*'()''"
  by (auto simp: segment_safe_def is_unreserved_def uri_mark_def)

section \<open>The legacy reserved expansion\<close>

lemma restore_reserved_other: "c \<noteq> CHR ''%'' \<Longrightarrow> restore_reserved (c # s) = c # restore_reserved s"
  by (cases "(c, s)" rule: prod.exhaust, cases s, simp, cases "tl s") auto

definition hex_pair :: "char \<Rightarrow> string" where
  "hex_pair c = [hex_digit (byte c div 16), hex_digit (byte c mod 16)]"

lemma hex_pair_inject [simp]: "hex_pair c = hex_pair d \<longleftrightarrow> c = d"
proof
  assume "hex_pair c = hex_pair d"
  then have "pct c = pct d" by (simp add: pct_def hex_pair_def)
  then have "Some (c, ''x'') = Some (d, ''x'')" by (metis take_escape_pct)
  then show "c = d" by simp
qed simp

lemma map_of_hex_pair: "map_of (map (\<lambda>d. (hex_pair d, d)) ds) (hex_pair c) = (if c \<in> set ds then Some c else None)"
  by (induction ds) auto

lemma reserved_escapes_eq: "reserved_escapes = map (\<lambda>d. (hex_pair d, d)) '':/?#[]@$&+,;=''"
  by (simp add: reserved_escapes_def hex_pair_def hex_digit_def byte_def)

lemma reserved_unmarked: "c \<in> set '':/?#[]@$&+,;='' \<longleftrightarrow> c \<in> reserved_bytes \<and> \<not> uri_mark c"
  by (auto simp: reserved_bytes_def uri_mark_def char_class_defs)

lemma reserved_table_lookup:
  "map_of reserved_escapes [hex_digit (byte c div 16), hex_digit (byte c mod 16)] =
     (if c \<in> reserved_bytes \<and> \<not> uri_mark c then Some c else None)"
  using map_of_hex_pair [of "'':/?#[]@$&+,;=''" c]
  by (simp only: reserved_escapes_eq hex_pair_def [symmetric] reserved_unmarked)

lemma hex_digit_not_percent: "n < 16 \<Longrightarrow> hex_digit n \<noteq> CHR ''%''"
  using hex_digit_class [of n] by (auto simp: char_class_defs)

lemma restore_reserved_encode:
  "restore_reserved (encode_with uri_mark s) = encode_with (\<lambda>c. uri_mark c \<or> c \<in> reserved_bytes) s"
proof (induction s)
  case Nil
  then show ?case by simp
next
  case (Cons c s)
  show ?case
  proof (cases "uri_mark c")
    case True
    then have "c \<noteq> CHR ''%''" using plain_uri_mark by (auto simp: plain_literals_def)
    with True Cons show ?thesis by (simp add: restore_reserved_other)
  next
    case False
    with Cons show ?thesis
      by (simp add: pct_def reserved_table_lookup hex_digit_not_percent restore_reserved_other)
  qed
qed

end
