(* ===== verification/Unicode.thy ===== *)
theory Unicode
  imports Uri_Escape
begin

text \<open>
  Code points and UTF-16 units of a text in UTF-8, \<open>codePointCompare\<close> of \<open>util.ts\<close>, and the proof
  that it orders well-formed texts as their bytes: the convention by which the other theories sort
  names (\<open>code_point_sort\<close>).
\<close>

section \<open>Decoding\<close>

text \<open>The bits a lead byte contributes, and the value of a whole sequence.\<close>

definition lead_bits :: "nat \<Rightarrow> nat" where
  "lead_bits b =
     (if b < 0x80 then b else if b < 0xE0 then b - 0xC0 else if b < 0xF0 then b - 0xE0 else b - 0xF0)"

definition seq_value :: "char \<Rightarrow> string \<Rightarrow> nat" where
  "seq_value c cs = foldl (\<lambda>acc d. acc * 64 + byte d mod 64) (lead_bits (byte c)) cs"

function code_points :: "string \<Rightarrow> nat list" where
  "code_points [] = []"
| "code_points (c # s) =
     (let n = utf8_len (byte c) - 1 in seq_value c (take n s) # code_points (drop n s))"
  by pat_completeness auto
termination by (relation "measure length") auto

definition point_units :: "nat \<Rightarrow> nat list" where
  "point_units p =
     (if p > 0xFFFF then [0xD800 + (p - 0x10000) div 0x400, 0xDC00 + (p - 0x10000) mod 0x400] else [p])"

definition utf16_units :: "string \<Rightarrow> nat list" where
  "utf16_units s = concat (map point_units (code_points s))"

section \<open>\<open>codePointCompare\<close>\<close>

text \<open>
  The loop reads a code point at the same index of both texts and advances over it; when one text
  ends, the rest of the length difference in UTF-16 units decides.
\<close>

fun compare_points :: "nat list \<Rightarrow> nat list \<Rightarrow> int" where
  "compare_points (p # ps) (q # qs) =
     (if p \<noteq> q then (if p < q then -1 else 1) else compare_points ps qs)"
| "compare_points ps qs =
     int (length (concat (map point_units ps))) - int (length (concat (map point_units qs)))"

definition codePointCompare :: "string \<Rightarrow> string \<Rightarrow> int" where
  "codePointCompare a b = compare_points (code_points a) (code_points b)"

lemma point_units_length: "0 < length (point_units p)"
  by (simp add: point_units_def)

lemma units_pos: "0 < length (concat (map point_units (p # ps)))"
  using point_units_length [of p] by simp

lemma compare_points_ends:
  "compare_points [] (q # qs) < 0" "compare_points (q # qs) [] > 0"
  using units_pos [of q qs] by (simp_all only: compare_points.simps list.map(1) concat.simps(1) list.size(3))

lemma compare_points_less: "compare_points ps qs < 0 \<longleftrightarrow> ps < qs"
proof (induction ps qs rule: compare_points.induct [case_names step left right])
  case (left qs)
  then show ?case using compare_points_ends(1) by (cases qs) auto
next
  case (right ps)
  then show ?case by (cases ps) auto
qed auto

lemma compare_points_eq: "compare_points ps qs = 0 \<longleftrightarrow> ps = qs"
proof (induction ps qs rule: compare_points.induct [case_names step left right])
  case (left qs)
  show ?case
  proof (cases qs)
    case (Cons q r)
    then show ?thesis using compare_points_ends(1) [of q r] by (simp del: compare_points.simps)
  qed simp
next
  case (right ps)
  show ?case
  proof (cases ps)
    case (Cons q r)
    then show ?thesis using compare_points_ends(2) [of q r] by (simp del: compare_points.simps)
  qed simp
qed auto

section \<open>Byte order is code point order\<close>

text \<open>The values of well-formed sequences of two, three and four bytes.\<close>

definition seq_bytes :: "nat \<Rightarrow> string \<Rightarrow> bool" where
  "seq_bytes n u \<longleftrightarrow> utf8_seq u \<and> length u = n"

lemma cont_mod: "is_cont b \<Longrightarrow> b mod 64 = b - 0x80"
  by (auto simp: is_cont_def intro: mod_nat_eqI)

lemma second_cont: "second_ok b c \<Longrightarrow> is_cont c"
  by (auto simp: second_ok_def is_cont_def split: if_splits)

lemma utf8_seq_cases:
  assumes "utf8_seq u"
  obtains (one) a where "u = [a]" "byte a < 0x80"
  | (two) a b where "u = [a, b]" "0xC2 \<le> byte a" "byte a \<le> 0xDF" "is_cont (byte b)"
  | (three) a b c where "u = [a, b, c]" "0xE0 \<le> byte a" "byte a \<le> 0xEF" "second_ok (byte a) (byte b)" "is_cont (byte c)"
  | (four) a b c d where "u = [a, b, c, d]" "0xF0 \<le> byte a" "byte a \<le> 0xF4" "second_ok (byte a) (byte b)"
      "is_cont (byte c)" "is_cont (byte d)"
proof (cases u)
  case Nil
  with assms show ?thesis by (simp add: utf8_seq_def)
next
  case (Cons a v)
  show ?thesis
  proof (cases v)
    case Nil
    with assms Cons one show ?thesis by (simp add: utf8_seq_def)
  next
    case (Cons b w)
    with assms \<open>u = a # v\<close> have len: "utf8_len (byte a) = Suc (Suc (length w))" and s: "second_ok (byte a) (byte b)"
      and w: "list_all (\<lambda>e. is_cont (byte e)) w"
      by (simp_all add: utf8_seq_def)
    consider "w = []" | c where "w = [c]" | c d where "w = [c, d]" | "length w > 2"
    proof (cases w rule: remdups_adj.cases)
      case (3 x y xs)
      then show ?thesis using that by (cases xs) auto
    qed (use that in auto)
    then show ?thesis
    proof cases
      case 1
      with len s Cons \<open>u = a # v\<close> two show ?thesis
        by (auto simp: utf8_len_def dest: second_cont split: if_splits)
    next
      case 2
      with len s w Cons \<open>u = a # v\<close> three show ?thesis by (auto simp: utf8_len_def split: if_splits)
    next
      case 3
      with len s w Cons \<open>u = a # v\<close> four show ?thesis by (auto simp: utf8_len_def split: if_splits)
    next
      case 4
      with len show ?thesis by (auto simp: utf8_len_def split: if_splits)
    qed
  qed
qed

definition value_of :: "string \<Rightarrow> nat" where
  "value_of u = seq_value (hd u) (tl u)"

lemma lead_bits_simps [simp]:
  "b < 0x80 \<Longrightarrow> lead_bits b = b"
  "0xC2 \<le> b \<Longrightarrow> b \<le> 0xDF \<Longrightarrow> lead_bits b = b - 0xC0"
  "0xE0 \<le> b \<Longrightarrow> b \<le> 0xEF \<Longrightarrow> lead_bits b = b - 0xE0"
  "0xF0 \<le> b \<Longrightarrow> lead_bits b = b - 0xF0"
  by (simp_all add: lead_bits_def)

text \<open>Digits to base 64, compared from the most significant one.\<close>

lemma digits_less:
  assumes "x < 64" and "y < 64"
  shows "p * 64 + x < q * 64 + y \<longleftrightarrow> p < q \<or> p = q \<and> x < (y :: nat)"
  using assms by (cases p q rule: linorder_cases) linarith+

lemma digits_eq:
  assumes "x < 64" and "y < 64"
  shows "p * 64 + x = q * 64 + y \<longleftrightarrow> p = q \<and> x = (y :: nat)"
  using assms by (cases p q rule: linorder_cases) linarith+

lemma cont_digits:
  "is_cont b \<Longrightarrow> is_cont c \<Longrightarrow> b mod 64 < c mod 64 \<longleftrightarrow> b < c"
  "is_cont b \<Longrightarrow> is_cont c \<Longrightarrow> b mod 64 = c mod 64 \<longleftrightarrow> b = c"
  by (auto simp: cont_mod) (auto simp: is_cont_def)

text \<open>The values of the four lengths are disjoint and ordered like the lead bytes.\<close>

definition seq_class :: "string \<Rightarrow> nat \<times> nat \<times> nat \<times> nat" where
  "seq_class u =
     (if length u = 1 then (0, 0x80, 0, 0x80) else if length u = 2 then (0x80, 0x800, 0xC2, 0xE0)
      else if length u = 3 then (0x800, 0x10000, 0xE0, 0xF0) else (0x10000, 0x200000, 0xF0, 0xF5))"

lemma three_digits:
  fixes x y z :: nat
  assumes "32 \<le> y \<or> 1 \<le> x" and "x \<le> 15" and "y < 64" and "z < 64"
  shows "0x800 \<le> (x * 64 + y) * 64 + z" and "(x * 64 + y) * 64 + z < 0x10000"
proof -
  from assms(1) show "0x800 \<le> (x * 64 + y) * 64 + z" by (elim disjE) (simp_all add: distrib_right)
  show "(x * 64 + y) * 64 + z < 0x10000" using assms(2-) by (simp add: distrib_right)
qed

lemma four_digits:
  fixes w x y z :: nat
  assumes "16 \<le> x \<or> 1 \<le> w" and "w \<le> 4" and "x < 64" and "y < 64" and "z < 64"
  shows "0x10000 \<le> ((w * 64 + x) * 64 + y) * 64 + z" and "((w * 64 + x) * 64 + y) * 64 + z < 0x200000"
proof -
  from assms(1) show "0x10000 \<le> ((w * 64 + x) * 64 + y) * 64 + z" by (elim disjE) (simp_all add: distrib_right)
  show "((w * 64 + x) * 64 + y) * 64 + z < 0x200000" using assms(2-) by (simp add: distrib_right)
qed

lemma seq_in_class:
  assumes "utf8_seq u"
  shows "case seq_class u of (lo, hi, a, b) \<Rightarrow>
    lo \<le> value_of u \<and> value_of u < hi \<and> a \<le> byte (hd u) \<and> byte (hd u) < b \<and> u \<noteq> []"
  using assms
proof (cases rule: utf8_seq_cases)
  case one
  then show ?thesis by (simp add: seq_class_def value_of_def seq_value_def)
next
  case (two a b)
  have "byte b mod 64 < 64" "2 \<le> byte a - 0xC0" "byte a - 0xC0 \<le> 31" using two by simp_all
  then have "0x80 \<le> (byte a - 0xC0) * 64 + byte b mod 64" "(byte a - 0xC0) * 64 + byte b mod 64 < 0x800"
    by linarith+
  with two show ?thesis by (simp add: seq_class_def value_of_def seq_value_def)
next
  case (three a b c)
  have m: "byte b mod 64 < 64" "byte c mod 64 < 64" by simp_all
  have "byte a = 0xE0 \<longrightarrow> 32 \<le> byte b mod 64"
    using three(4) second_cont [OF three(4)] by (auto simp: second_ok_def cont_mod)
  moreover have "byte a \<noteq> 0xE0 \<longrightarrow> 1 \<le> byte a - 0xE0" using three by auto
  ultimately have "32 \<le> byte b mod 64 \<or> 1 \<le> byte a - 0xE0" by blast
  moreover have "byte a - 0xE0 \<le> 15" using three by linarith
  ultimately show ?thesis using three_digits [OF _ _ m, of "byte a - 0xE0"] three(1-3)
    by (simp add: seq_class_def value_of_def seq_value_def)
next
  case (four a b c d)
  have m: "byte b mod 64 < 64" "byte c mod 64 < 64" "byte d mod 64 < 64" by simp_all
  have "byte a = 0xF0 \<longrightarrow> 16 \<le> byte b mod 64"
    using four(4) second_cont [OF four(4)] by (auto simp: second_ok_def cont_mod)
  moreover have "byte a \<noteq> 0xF0 \<longrightarrow> 1 \<le> byte a - 0xF0" using four by auto
  ultimately have "16 \<le> byte b mod 64 \<or> 1 \<le> byte a - 0xF0" by blast
  moreover have "byte a - 0xF0 \<le> 4" using four by linarith
  ultimately show ?thesis using four_digits [OF _ _ m, of "byte a - 0xF0"] four(1-3)
    by (simp add: seq_class_def value_of_def seq_value_def)
qed

lemma seq_shorter:
  assumes "utf8_seq u" and "utf8_seq v" and "length u < length v"
  shows "value_of u < value_of v \<and> byte (hd u) < byte (hd v)"
proof -
  note c = seq_in_class [OF assms(1)] seq_in_class [OF assms(2)]
  from assms(1) show ?thesis
  proof (cases rule: utf8_seq_cases)
    case one
    from assms(2) show ?thesis using c assms(3) unfolding one
      by (cases rule: utf8_seq_cases) (auto simp: seq_class_def)
  next
    case two
    from assms(2) show ?thesis using c assms(3) unfolding two
      by (cases rule: utf8_seq_cases) (auto simp: seq_class_def)
  next
    case three
    from assms(2) show ?thesis using c assms(3) unfolding three
      by (cases rule: utf8_seq_cases) (auto simp: seq_class_def)
  next
    case four
    from assms(2) show ?thesis using c assms(3) unfolding four
      by (cases rule: utf8_seq_cases) (auto simp: seq_class_def)
  qed
qed

lemma fold_digits:
  "length cs = length ds \<Longrightarrow> list_all (\<lambda>e. is_cont (byte e)) cs \<Longrightarrow> list_all (\<lambda>e. is_cont (byte e)) ds \<Longrightarrow>
     (foldl (\<lambda>acc d. acc * 64 + byte d mod 64) x cs < foldl (\<lambda>acc d. acc * 64 + byte d mod 64) y ds \<longleftrightarrow>
        x < y \<or> x = y \<and> map byte cs < map byte ds) \<and>
     (foldl (\<lambda>acc d. acc * 64 + byte d mod 64) x cs = foldl (\<lambda>acc d. acc * 64 + byte d mod 64) y ds \<longleftrightarrow>
        x = y \<and> cs = ds)"
proof (induction cs ds arbitrary: x y rule: list_induct2)
  case (Cons c cs d ds)
  then show ?case by (auto simp: digits_less digits_eq cont_digits)
qed simp

lemma utf8_seq_conts: "utf8_seq (c # cs) \<Longrightarrow> list_all (\<lambda>e. is_cont (byte e)) cs"
  by (erule utf8_seq_cases) (auto dest: second_cont)

lemma lead_bits_order:
  assumes "utf8_seq (a # cs)" and "utf8_seq (b # ds)" and "length cs = length ds"
  shows "lead_bits (byte a) < lead_bits (byte b) \<longleftrightarrow> byte a < byte b"
    "lead_bits (byte a) = lead_bits (byte b) \<longleftrightarrow> a = b"
proof -
  obtain k where k: "lead_bits (byte a) = byte a - k" "lead_bits (byte b) = byte b - k" "k \<le> byte a" "k \<le> byte b"
  proof -
    note c = seq_in_class [OF assms(1)] seq_in_class [OF assms(2)]
    consider "length cs = 0" | "length cs = 1" | "length cs = 2" | "length cs > 2" by linarith
    then show ?thesis
    proof cases
      case 1
      then have "seq_class (a # cs) = (0, 0x80, 0, 0x80)" "seq_class (b # ds) = (0, 0x80, 0, 0x80)"
        using assms(3) by (auto simp: seq_class_def)
      with c that [of 0] show ?thesis by (simp add: lead_bits_def)
    next
      case 2
      then have "seq_class (a # cs) = (0x80, 0x800, 0xC2, 0xE0)" "seq_class (b # ds) = (0x80, 0x800, 0xC2, 0xE0)"
        using assms(3) by (auto simp: seq_class_def)
      with c that [of "0xC0"] show ?thesis by (simp add: lead_bits_def)
    next
      case 3
      then have "seq_class (a # cs) = (0x800, 0x10000, 0xE0, 0xF0)" "seq_class (b # ds) = (0x800, 0x10000, 0xE0, 0xF0)"
        using assms(3) by (auto simp: seq_class_def)
      with c that [of "0xE0"] show ?thesis by (simp add: lead_bits_def)
    next
      case 4
      then have "seq_class (a # cs) = (0x10000, 0x200000, 0xF0, 0xF5)" "seq_class (b # ds) = (0x10000, 0x200000, 0xF0, 0xF5)"
        using assms(3) by (auto simp: seq_class_def)
      with c that [of "0xF0"] show ?thesis by (simp add: lead_bits_def)
    qed
  qed
  show "lead_bits (byte a) < lead_bits (byte b) \<longleftrightarrow> byte a < byte b" using k by linarith
  show "lead_bits (byte a) = lead_bits (byte b) \<longleftrightarrow> a = b" using k byte_inject [of a b] by linarith
qed

lemma seq_order:
  assumes "utf8_seq u" and "utf8_seq v"
  shows "(value_of u < value_of v \<longleftrightarrow> map byte u < map byte v) \<and> (value_of u = value_of v \<longleftrightarrow> u = v)"
proof -
  obtain a cs b ds where uv: "u = a # cs" "v = b # ds"
    using assms by (cases u; cases v) (auto simp: utf8_seq_def)
  show ?thesis
  proof (cases "length cs = length ds")
    case True
    from assms fold_digits [OF True utf8_seq_conts utf8_seq_conts, of a b] lead_bits_order [of a cs b ds] True
    show ?thesis by (simp add: uv value_of_def seq_value_def)
  next
    case False
    with assms seq_shorter [of u v] seq_shorter [of v u] show ?thesis
      unfolding uv by (auto simp: linorder_neq_iff)
  qed
qed

lemma code_points_seq:
  assumes "utf8_seq u"
  shows "code_points (u @ s) = value_of u # code_points s"
proof -
  obtain c cs where u: "u = c # cs" using assms by (cases u) (auto simp: utf8_seq_def)
  have "utf8_len (byte c) - 1 = length cs"
    using assms u by (cases cs) (auto simp: utf8_seq_def utf8_len_def)
  then show ?thesis by (simp add: u value_of_def)
qed

text \<open>Well-formed sequences are no proper prefixes of one another.\<close>

lemma seq_compare:
  assumes "utf8_seq u" and "utf8_seq v"
  shows "map byte (u @ s) < map byte (v @ t) \<longleftrightarrow> map byte u < map byte v \<or> u = v \<and> map byte s < map byte t"
proof (cases "length u = length v")
  case True
  then show ?thesis
  proof (induction u v rule: list_induct2)
    case (Cons a u b v)
    then show ?case by auto
  qed simp
next
  case False
  obtain a u' b v' where uv: "u = a # u'" "v = b # v'"
    using assms by (cases u; cases v) (auto simp: utf8_seq_def)
  have "byte a \<noteq> byte b"
    using seq_shorter [OF assms] seq_shorter [OF assms(2,1)] False
    unfolding uv by (metis linorder_neqE_nat list.sel(1) less_irrefl)
  then show ?thesis unfolding uv by auto
qed

lemma code_points_order:
  "utf8 s \<Longrightarrow> utf8 t \<Longrightarrow>
     (code_points s < code_points t \<longleftrightarrow> map byte s < map byte t) \<and> (code_points s = code_points t \<longleftrightarrow> s = t)"
proof (induction arbitrary: t rule: utf8.induct)
  case utf8_Nil
  from this show ?case
  proof (cases rule: utf8.cases)
    case (utf8_Seq v t')
    then have "v \<noteq> []" by (auto simp: utf8_seq_def)
    with utf8_Seq show ?thesis by (simp add: code_points_seq neq_Nil_conv) auto
  qed simp
next
  case (utf8_Seq u s)
  from utf8_Seq.prems show ?case
  proof (cases rule: utf8.cases)
    case utf8_Nil
    have "u \<noteq> []" using utf8_Seq.hyps(1) by (auto simp: utf8_seq_def)
    with utf8_Nil utf8_Seq.hyps(1) show ?thesis by (simp add: code_points_seq)
  next
    case (utf8_Seq v t')
    note o = seq_order [OF \<open>utf8_seq u\<close> \<open>utf8_seq v\<close>]
    have "u @ s = v @ t' \<longleftrightarrow> u = v \<and> s = t'"
    proof
      assume e: "u @ s = v @ t'"
      then have "\<not> map byte (u @ s) < map byte (v @ t')" "\<not> map byte (v @ t') < map byte (u @ s)" by auto
      then have "\<not> map byte u < map byte v" "\<not> map byte v < map byte u"
        using seq_compare \<open>utf8_seq u\<close> \<open>utf8_seq v\<close> by blast+
      then have "map byte u = map byte v" by auto
      then have "u = v" using inj_map_eq_map [of byte u v] by (simp add: inj_def)
      with e show "u = v \<and> s = t'" by simp
    qed simp
    with o utf8_Seq.IH [OF \<open>utf8 t'\<close>] \<open>t = v @ t'\<close> seq_compare [OF \<open>utf8_seq u\<close> \<open>utf8_seq v\<close>, of s t']
    show ?thesis by (auto simp: code_points_seq \<open>utf8_seq u\<close> \<open>utf8_seq v\<close>)
  qed
qed

section \<open>Lone surrogates\<close>

text \<open>\<open>stringHasLoneSurrogate\<close> works on UTF-16 units, where a text need not be well-formed.\<close>

fun stringHasLoneSurrogate :: "nat list \<Rightarrow> bool" where
  "stringHasLoneSurrogate [] = False"
| "stringHasLoneSurrogate (u # us) =
     (if 0xD800 \<le> u \<and> u \<le> 0xDBFF then
        (case us of
           [] \<Rightarrow> True
         | v # vs \<Rightarrow> if v < 0xDC00 \<or> 0xDFFF < v then True else stringHasLoneSurrogate vs)
      else if 0xDC00 \<le> u \<and> u \<le> 0xDFFF then True
      else stringHasLoneSurrogate us)"

text \<open>The Unicode scalar values: code points that are no surrogates.\<close>

definition scalar :: "nat \<Rightarrow> bool" where
  "scalar p \<longleftrightarrow> p \<le> 0x10FFFF \<and> \<not> (0xD800 \<le> p \<and> p \<le> 0xDFFF)"

lemma well_formed_units: "list_all scalar ps \<Longrightarrow> \<not> stringHasLoneSurrogate (concat (map point_units ps))"
proof (induction ps)
  case (Cons p ps)
  show ?case
  proof (cases "p > 0xFFFF")
    case True
    have "p \<le> 0x10FFFF" using Cons.prems by (simp add: scalar_def)
    then have "p - 0x10000 < 0x400 * 0x400" by simp
    then have "(p - 0x10000) div 0x400 < 0x400" by (rule less_mult_imp_div_less)
    with True Cons show ?thesis by (simp add: point_units_def)
  next
    case False
    with Cons show ?thesis by (auto simp: point_units_def scalar_def)
  qed
qed simp

lemma units_well_formed:
  "list_all (\<lambda>u. u < 0x10000) us \<Longrightarrow> \<not> stringHasLoneSurrogate us \<Longrightarrow>
     \<exists>ps. list_all scalar ps \<and> us = concat (map point_units ps)"
proof (induction us rule: stringHasLoneSurrogate.induct)
  case 1
  then show ?case by (intro exI [where x = "[]"]) simp
next
  case (2 u us)
  show ?case
  proof (cases "0xD800 \<le> u \<and> u \<le> 0xDBFF")
    case True
    then obtain v vs where us: "us = v # vs" using "2.prems"(2) by (cases us) auto
    have v: "0xDC00 \<le> v" "v \<le> 0xDFFF" "\<not> stringHasLoneSurrogate vs"
      using "2.prems"(2) True us by (auto split: if_splits)
    then obtain ps where ps: "list_all scalar ps" "vs = concat (map point_units ps)"
      using "2.IH"(1) [OF True us] "2.prems"(1) us by auto
    obtain a where a: "u = 0xD800 + a" "a < 0x400" using True le_Suc_ex [of "0xD800" u] by auto
    obtain b where b: "v = 0xDC00 + b" "b < 0x400" using v le_Suc_ex [of "0xDC00" v] by auto
    define p where "p = 0x10000 + a * 0x400 + b"
    have "point_units p = [u, v]" using a b by (simp add: p_def point_units_def)
    moreover have "scalar p" using a b by (simp add: p_def scalar_def)
    ultimately show ?thesis using ps us by (intro exI [where x = "p # ps"]) simp
  next
    case False
    with "2.prems" have u: "u < 0x10000" "scalar u" "\<not> stringHasLoneSurrogate us"
      by (auto simp: scalar_def split: if_splits)
    then have "\<exists>ps. list_all scalar ps \<and> us = concat (map point_units ps)"
      using "2.IH"(2) [OF False] "2.prems" False by (auto split: if_splits)
    then obtain ps where "list_all scalar ps" "us = concat (map point_units ps)" by blast
    moreover have "point_units u = [u]" using u by (simp add: point_units_def)
    ultimately show ?thesis using u by (intro exI [where x = "u # ps"]) simp
  qed
qed

section \<open>Claims\<close>

text \<open>The canonical order: on well-formed texts \<open>codePointCompare\<close>, a loop over UTF-16 indices,
  orders exactly as the UTF-8 bytes do (the order the Go implementation uses), and finds two texts
  equal only when they are.\<close>

theorem codePointCompare_is_byte_order:
  assumes "utf8 a" and "utf8 b"
  shows "(codePointCompare a b < 0 \<longleftrightarrow> code_point_less a b) \<and> (codePointCompare a b = 0 \<longleftrightarrow> a = b)"
  using code_points_order [OF assms]
  by (simp add: codePointCompare_def compare_points_less compare_points_eq code_point_less_def code_point_key_def)

lemma codePointCompare_is_byte_order_witness:
  "codePointCompare (map char_of [0xEF, 0xBF, 0xBD :: nat]) (map char_of [0xF0, 0x9F, 0x98, 0x80 :: nat]) < 0"
proof -
  have "utf8_seq (map char_of [0xEF, 0xBF, 0xBD :: nat])" "utf8_seq (map char_of [0xF0, 0x9F, 0x98, 0x80 :: nat])"
    by code_simp+
  then have "utf8 (map char_of [0xEF, 0xBF, 0xBD :: nat])" "utf8 (map char_of [0xF0, 0x9F, 0x98, 0x80 :: nat])"
    using utf8_Seq [OF _ utf8_Nil] by (metis append_Nil2)+
  from codePointCompare_is_byte_order [OF this] show ?thesis
    by (simp add: code_point_less_def code_point_key_def byte_char_of)
qed

text \<open>The surrogate check is exact: a sequence of 16-bit units passes precisely when it is the
  UTF-16 encoding of some sequence of Unicode scalar values.\<close>

theorem lone_surrogate_check_is_exact:
  assumes "list_all (\<lambda>u. u < 0x10000) us"
  shows "\<not> stringHasLoneSurrogate us \<longleftrightarrow> (\<exists>ps. list_all scalar ps \<and> us = concat (map point_units ps))"
  using units_well_formed [OF assms] well_formed_units by blast

lemma lone_surrogate_check_is_exact_witness:
  "\<exists>ps. list_all scalar ps \<and> [0x41, 0xD83D, 0xDE00] = concat (map point_units ps)"
proof -
  have u: "list_all (\<lambda>u. u < 0x10000) [0x41, 0xD83D, 0xDE00 :: nat]" by simp
  have "\<not> stringHasLoneSurrogate [0x41, 0xD83D, 0xDE00]" by simp
  then show ?thesis using lone_surrogate_check_is_exact [OF u] by (rule iffD1 [rotated])
qed

end
