(* ===== verification/Artifact_Names.thy ===== *)
theory Artifact_Names
  imports Unicode Js_Value
begin

text \<open>
  The naming half of \<open>util.ts\<close>: keys, JSON Pointer references, and the names of the schemas a cyclic
  artifact is cut at.  The platform's URL parser is a parameter (\<open>url_address\<close>: protocol, host with
  port, path name; \<open>None\<close> for its TypeError).  A replacement that the source makes per code point is
  made here at the first byte of its UTF-8 sequence.
\<close>

section \<open>Keys\<close>

definition key_char :: "char \<Rightarrow> bool" where
  "key_char c \<longleftrightarrow> is_alnum c \<or> c \<in> set ''._-''"

definition replace_non_key :: "string \<Rightarrow> string" where
  "replace_non_key s =
     concat (map (\<lambda>c. if key_char c then [c] else if is_cont (byte c) then [] else ''_'') s)"

definition strip_underscores :: "string \<Rightarrow> string" where
  "strip_underscores s =
     rev (dropWhile (\<lambda>c. c = CHR ''_'') (rev (dropWhile (\<lambda>c. c = CHR ''_'') s)))"

definition sanitizeKey :: "string \<Rightarrow> string" where
  "sanitizeKey name =
     (let key = strip_underscores (replace_non_key name) in
      if key = [] then ''unnamed''
      else if is_upper (hd key) \<or> is_lower (hd key) \<or> hd key = CHR ''_'' then key
      else CHR ''_'' # key)"

definition sanitizeNameSegment :: "string \<Rightarrow> string" where
  "sanitizeNameSegment = replace_non_key"

text \<open>Candidates \<open>key_2\<close>, \<open>key_3\<close>, and so on; only finitely many can be used.\<close>

definition candidate :: "string \<Rightarrow> nat \<Rightarrow> string" where
  "candidate key i = key @ ''_'' @ decimal i"

lemma digits_value_append: "digits_value a (s @ [c]) = 10 * digits_value a s + (byte c - 0x30)"
  by (induction a s rule: digits_value.induct) auto

lemma digits_value_decimal: "digits_value 0 (decimal n) = n"
proof (induction n rule: decimal.induct)
  case (1 n)
  have d: "byte (char_of (48 + m :: nat)) = 48 + m" if "m < 10" for m using that by (simp add: byte_char_of)
  show ?case
  proof (cases "n < 10")
    case True
    then show ?thesis by (simp add: decimal.simps [of n] d)
  next
    case False
    with 1 show ?thesis by (simp add: decimal.simps [of n] digits_value_append d)
  qed
qed

lemma candidate_inj: "candidate key i = candidate key j \<Longrightarrow> i = j"
  by (simp add: candidate_def) (metis digits_value_decimal)

function unique_from :: "string \<Rightarrow> string list \<Rightarrow> nat \<Rightarrow> string" where
  "unique_from key used i =
     (if candidate key i \<notin> set used then candidate key i else unique_from key used (Suc i))"
  by pat_completeness auto
termination
proof (relation "measure (\<lambda>(key, used, i). card {n \<in> set used. \<exists>j\<ge>i. n = candidate key j})")
  fix key used and i :: nat
  assume "\<not> candidate key i \<notin> set used"
  then have "{n \<in> set used. \<exists>j\<ge>Suc i. n = candidate key j} \<subset> {n \<in> set used. \<exists>j\<ge>i. n = candidate key j}"
    by (auto simp: Suc_le_eq dest: candidate_inj intro: less_imp_le)
  then have "card {n \<in> set used. \<exists>j\<ge>Suc i. n = candidate key j} < card {n \<in> set used. \<exists>j\<ge>i. n = candidate key j}"
    by (intro psubset_card_mono) simp_all
  then show "((key, used, Suc i), (key, used, i)) \<in>
      measure (\<lambda>(key, used, i). card {n \<in> set used. \<exists>j\<ge>i. n = candidate key j})"
    by (simp only: in_measure prod.case)
qed simp

definition uniqueKey :: "string \<Rightarrow> string list \<Rightarrow> string" where
  "uniqueKey key used = (if key \<notin> set used then key else unique_from key used 2)"

section \<open>References to operations\<close>

datatype ref_error =
    NotOperationPointer string
  | NotTwoSegments string
  | MethodNotLowercase string string
  | InvalidMethod string

definition VALID_METHODS :: "string list" where
  "VALID_METHODS =
     [''get'', ''post'', ''put'', ''patch'', ''delete'', ''head'', ''options'', ''trace'']"

definition ref_prefix :: string where "ref_prefix = ''#/paths/''"

definition parseRef :: "string \<Rightarrow> (ref_error, string \<times> string) res" where
  "parseRef r =
     (if \<not> prefix ref_prefix r then Inl (NotOperationPointer r)
      else
        case split_str ''/'' (drop (length ref_prefix) r) of
          [escapedPath, meth] \<Rightarrow>
            if meth \<notin> set VALID_METHODS then
              (if ascii_lower meth \<in> set VALID_METHODS then Inl (MethodNotLowercase r meth)
               else Inl (InvalidMethod meth))
            else Inr (replace_all ''~0'' ''~'' (replace_all ''~1'' ''/'' escapedPath), meth)
        | _ \<Rightarrow> Inl (NotTwoSegments r))"

definition escapePointerSegment :: "string \<Rightarrow> string" where
  "escapePointerSegment s = replace_all ''/'' ''~1'' (replace_all ''~'' ''~0'' s)"

definition unescapeJSONPointerSegment :: "string \<Rightarrow> string" where
  "unescapeJSONPointerSegment s = replace_all ''~0'' ''~'' (replace_all ''~1'' ''/'' s)"

definition buildJsonPointerRef :: "string \<Rightarrow> string \<Rightarrow> string" where
  "buildJsonPointerRef path meth = ref_prefix @ escapePointerSegment path @ ''/'' @ ascii_lower meth"

section \<open>Editions and body shapes\<close>

definition ACCEPTED_OPENAPI_VERSIONS :: "string list" where
  "ACCEPTED_OPENAPI_VERSIONS =
     [''3.0.0'', ''3.0.1'', ''3.0.2'', ''3.0.3'', ''3.0.4'', ''3.1.0'', ''3.1.1'', ''3.1.2'']"

datatype version_error = NoOpenapiField | UnsupportedVersion string

definition checkAcceptedOpenAPIVersion :: "jsval \<Rightarrow> (version_error, unit) res" where
  "checkAcceptedOpenAPIVersion raw =
     (let v = str_or (get_prop raw ''openapi'') [] in
      if v = [] then Inl NoOpenapiField
      else check (v \<in> set ACCEPTED_OPENAPI_VERSIONS) (UnsupportedVersion v))"

definition followsPointerBelowReference :: "string \<Rightarrow> bool" where
  "followsPointerBelowReference version \<longleftrightarrow> version \<notin> set [''3.1.0'', ''3.1.1'', ''3.1.2'']"

definition isObjectTypedSchema :: "js_members \<Rightarrow> bool" where
  "isObjectTypedSchema schema =
     (case member_of schema ''type'' of
        JStr s \<Rightarrow> s = ''object''
      | JArr ts \<Rightarrow> ts = [JStr ''object'']
      | _ \<Rightarrow> False)"

definition bodySchemaFlattens :: "js_members \<Rightarrow> bool" where
  "bodySchemaFlattens schema =
     ((case member_of schema ''properties'' of JObj _ \<Rightarrow> True | JArr _ \<Rightarrow> True | _ \<Rightarrow> False) \<or>
      isObjectTypedSchema schema)"

section \<open>The JSON domain\<close>

datatype domain_error =
    NonFiniteAt string string
  | NotJSONAt string

text \<open>\<open>assertJSONDomain\<close> on the tree a document parses to; the first offending value is reported.\<close>

fun domain_walk :: "jsval \<Rightarrow> string \<Rightarrow> (domain_error, unit) res" where
  "domain_walk (JNonFinite t) path = Inl (NonFiniteAt path t)"
| "domain_walk JUndefined path = Inl (NotJSONAt path)"
| "domain_walk JFun path = Inl (NotJSONAt path)"
| "domain_walk (JArr xs) path =
     res_map (\<lambda>_. ()) (imap_res (\<lambda>i x. domain_walk x (path @ ''/'' @ decimal i)) 0 xs)"
| "domain_walk (JObj ms) path =
     res_map (\<lambda>_. ()) (map_res (\<lambda>m. domain_walk (snd m) (path @ ''/'' @ escapePointerSegment (fst m))) ms)"
| "domain_walk _ path = Inr ()"

definition assertJSONDomain :: "jsval \<Rightarrow> (domain_error, jsval) res" where
  "assertJSONDomain root =
     (if root = JUndefined then Inr root else res_map (\<lambda>_. root) (domain_walk root []))"

section \<open>Names of cut points\<close>

record component =
  comp_name :: string
  comp_document :: "string option"
  comp_pointer :: string

definition canonicalComponentIdentity :: "component \<Rightarrow> string" where
  "canonicalComponentIdentity c =
     (case comp_document c of None \<Rightarrow> [] | Some d \<Rightarrow> d) @ [CHR 0x00] @ comp_pointer c"

definition isQualifiable :: "component \<Rightarrow> bool" where
  "isQualifiable c \<longleftrightarrow> comp_document c \<noteq> None \<and> comp_document c \<noteq> Some []"

record document_address =
  da_opaque :: bool
  da_relative :: bool
  da_scheme :: string
  da_host :: string
  da_path :: string

type_synonym url_address = "string \<Rightarrow> (string \<times> string \<times> string) option"

definition opaque_address :: document_address where
  "opaque_address =
     \<lparr> da_opaque = True, da_relative = False, da_scheme = [], da_host = [], da_path = [] \<rparr>"

text \<open>The match of \<open>/^[A-Za-z][A-Za-z0-9+.-]*:/\<close>: the text after the colon.\<close>

definition after_scheme :: "string \<Rightarrow> string option" where
  "after_scheme uri =
     (case cut (CHR '':'') uri of
        Some (c # cs, rest) \<Rightarrow>
          if (is_upper c \<or> is_lower c) \<and> list_all (\<lambda>d. is_alnum d \<or> d \<in> set ''+.-'') cs then Some rest else None
      | _ \<Rightarrow> None)"

definition decodePath :: "string \<Rightarrow> string" where
  "decodePath path = (case decodeURIComponent path of None \<Rightarrow> path | Some p \<Rightarrow> p)"

definition documentAddress :: "url_address \<Rightarrow> string \<Rightarrow> document_address" where
  "documentAddress new_url uri =
     (case after_scheme uri of
        Some rest \<Rightarrow>
          if \<not> prefix ''/'' rest then opaque_address
          else
            (case new_url uri of
               None \<Rightarrow> opaque_address
             | Some (scheme, host, pathname) \<Rightarrow>
                 \<lparr> da_opaque = False, da_relative = False, da_scheme = scheme, da_host = host,
                   da_path = decodePath pathname \<rparr>)
      | None \<Rightarrow>
          let path = decodePath (takeWhile (\<lambda>c. c \<notin> set ''#?'') uri) in
          \<lparr> da_opaque = False, da_relative = \<not> prefix ''/'' path, da_scheme = [], da_host = [],
            da_path = path \<rparr>)"

fun strip_dot_slash :: "string \<Rightarrow> string" where
  "strip_dot_slash (a # b # s) = (if a = CHR ''.'' \<and> b = CHR ''/'' then strip_dot_slash s else a # b # s)"
| "strip_dot_slash s = s"

definition origin_dir :: "string \<Rightarrow> string" where
  "origin_dir path =
     (case cut_last (CHR ''/'') path of
        None \<Rightarrow> ''./''
      | Some (dir, _) \<Rightarrow> dir @ ''/'')"

definition strip_extension :: "string \<Rightarrow> string" where
  "strip_extension path =
     (case cut_last (CHR ''.'') path of
        None \<Rightarrow> path
      | Some (stem, ext) \<Rightarrow> if CHR ''/'' \<in> set ext then path else stem)"

definition relative_path :: "url_address \<Rightarrow> string option \<Rightarrow> document_address \<Rightarrow> string" where
  "relative_path new_url base target =
     (let path = da_path target in
      if da_relative target then strip_dot_slash path
      else
        let origin = map_option (documentAddress new_url) base in
        case origin of
          Some o' \<Rightarrow>
            if \<not> da_opaque o' \<and> da_host o' = da_host target \<and>
               (da_scheme o' = da_scheme target \<or> da_scheme o' = [] \<or> da_scheme target = [])
            then (let dir = origin_dir (da_path o') in
                  if prefix dir path then drop (length dir) path else path)
            else if da_host target \<noteq> [] then da_host target @ path else path
        | None \<Rightarrow> if da_host target \<noteq> [] then da_host target @ path else path)"

definition relativeDocumentName :: "url_address \<Rightarrow> string option \<Rightarrow> string \<Rightarrow> string" where
  "relativeDocumentName new_url base document =
     (let target = documentAddress new_url document in
      if da_opaque target then document
      else
        let path = relative_path new_url base target;
            path = (if prefix ''/'' path then tl path else path);
            path = strip_extension path in
        if path = [] then document else path)"

text \<open>The sort key of a claimant: the artifact's own components first, then canonical identity.\<close>

definition claimant_key :: "component \<Rightarrow> nat list" where
  "claimant_key c = (if comp_document c = None then 0 else 1) # code_point_key (canonicalComponentIdentity c)"

definition claim_count :: "component list \<Rightarrow> string \<Rightarrow> nat" where
  "claim_count components name = count_list (map comp_name components) name"

fun keep_bare ::
  "(string \<Rightarrow> nat) \<Rightarrow> (nat \<times> component) list \<Rightarrow> string list \<Rightarrow>
     ((nat \<times> component) \<times> string) list \<times> (nat \<times> component) list \<times> string list" where
  "keep_bare claimed [] kept = ([], [], kept)"
| "keep_bare claimed (e # es) kept =
     (let name = comp_name (snd e) in
      if claimed name = 1 \<or> (\<not> isQualifiable (snd e) \<and> name \<notin> set kept)
      then (let (named, rest, taken) = keep_bare claimed es (name # kept) in ((e, name) # named, rest, taken))
      else (let (named, rest, taken) = keep_bare claimed es kept in (named, e # rest, taken)))"

definition name_stem :: "url_address \<Rightarrow> string option \<Rightarrow> component \<Rightarrow> string" where
  "name_stem new_url base c =
     (if isQualifiable c
      then sanitizeNameSegment (relativeDocumentName new_url base (the (comp_document c))) @ ''_'' @ comp_name c
      else comp_name c)"

fun qualify ::
  "url_address \<Rightarrow> string option \<Rightarrow> (nat \<times> component) list \<Rightarrow> string list \<Rightarrow> ((nat \<times> component) \<times> string) list" where
  "qualify new_url base [] taken = []"
| "qualify new_url base (e # es) taken =
     (let name = uniqueKey (name_stem new_url base (snd e)) taken in
      (e, name) # qualify new_url base es (name # taken))"

definition named_claimants ::
  "url_address \<Rightarrow> string option \<Rightarrow> (string \<Rightarrow> nat) \<Rightarrow> (nat \<times> component) list \<Rightarrow> ((nat \<times> component) \<times> string) list" where
  "named_claimants new_url base claimed order =
     (let (named, rest, taken) = keep_bare claimed order [] in named @ qualify new_url base rest taken)"

definition assignCutPointNames :: "url_address \<Rightarrow> component list \<Rightarrow> string option \<Rightarrow> string list" where
  "assignCutPointNames new_url components base =
     (let order = sort_key (claimant_key \<circ> snd) (enumerate 0 components);
          names = map (\<lambda>(e, name). (fst e, name))
            (named_claimants new_url base (claim_count components) order) in
      map (\<lambda>i. the (map_of names i)) [0..<length components])"

section \<open>Properties of keys\<close>

declare unique_from.simps [simp del]

lemma unique_from_correct:
  "\<exists>j\<ge>i. unique_from key used i = candidate key j \<and> candidate key j \<notin> set used \<and>
     (\<forall>k. i \<le> k \<and> k < j \<longrightarrow> candidate key k \<in> set used)"
proof (induction key used i rule: unique_from.induct)
  case (1 key used i)
  show ?case
  proof (cases "candidate key i \<in> set used")
    case False
    then show ?thesis by (subst unique_from.simps) auto
  next
    case True
    with 1 obtain j where "j \<ge> Suc i" "unique_from key used (Suc i) = candidate key j"
      "candidate key j \<notin> set used" "\<forall>k. Suc i \<le> k \<and> k < j \<longrightarrow> candidate key k \<in> set used" by auto
    moreover from this True have "\<forall>k. i \<le> k \<and> k < j \<longrightarrow> candidate key k \<in> set used"
      by (metis le_neq_implies_less Suc_leI)
    ultimately show ?thesis using True by (subst unique_from.simps) (auto intro: exI [where x = j])
  qed
qed

lemma uniqueKey_fresh: "uniqueKey key used \<notin> set used"
  using unique_from_correct [of 2 key used] by (auto simp: uniqueKey_def)

lemma strip_underscores_subset: "set (strip_underscores s) \<subseteq> set s"
  by (auto simp: strip_underscores_def dest!: set_dropWhileD)

lemma replace_non_key_chars: "c \<in> set (replace_non_key s) \<Longrightarrow> key_char c"
  by (auto simp: replace_non_key_def key_char_def split: if_splits)

text \<open>The identifier grammar of OBI-D-03.\<close>

definition obi_identifier :: "string \<Rightarrow> bool" where
  "obi_identifier k \<longleftrightarrow>
     k \<noteq> [] \<and> (is_upper (hd k) \<or> is_lower (hd k) \<or> hd k = CHR ''_'') \<and> list_all key_char k"

lemma sanitizeKey_identifier: "obi_identifier (sanitizeKey name)"
proof (cases "strip_underscores (replace_non_key name) = []")
  case True
  have "obi_identifier ''unnamed''" by code_simp
  with True show ?thesis by (simp add: sanitizeKey_def)
next
  case False
  moreover have "list_all key_char (strip_underscores (replace_non_key name))"
    using strip_underscores_subset [of "replace_non_key name"] replace_non_key_chars
    by (auto simp: list_all_iff)
  ultimately show ?thesis by (auto simp: sanitizeKey_def obi_identifier_def Let_def key_char_def)
qed

lemma candidate_identifier: "obi_identifier k \<Longrightarrow> obi_identifier (candidate k i)"
  using decimal_digits [of i]
  by (auto simp: obi_identifier_def candidate_def list_all_iff key_char_def is_alnum_def)

lemma uniqueKey_identifier: "obi_identifier k \<Longrightarrow> obi_identifier (uniqueKey k used)"
  using unique_from_correct [of 2 k used] candidate_identifier by (auto simp: uniqueKey_def)

section \<open>Properties of references\<close>

text \<open>Escaping, character by character, and the two replacements that undo it.\<close>

definition pointer_char :: "char \<Rightarrow> string" where
  "pointer_char c = (if c = CHR ''~'' then ''~0'' else if c = CHR ''/'' then ''~1'' else [c])"

lemma replace_from_Nil [simp]: "replace_from pat tpl before [] = []"
  by (subst replace_from.simps) auto

lemma replace_one:
  "CHR ''$'' \<notin> set tpl \<Longrightarrow>
     replace_from [p] tpl before (c # s) =
     (if c = p then tpl @ replace_from [p] tpl (before @ [p]) s else c # replace_from [p] tpl (before @ [c]) s)"
  by (subst replace_from.simps) (simp add: subst_template_plain)

lemma replace_from_char:
  "CHR ''$'' \<notin> set tpl \<Longrightarrow> replace_from [p] tpl before s = concat (map (\<lambda>c. if c = p then tpl else [c]) s)"
  by (induction s arbitrary: before) (simp_all add: replace_one)

lemma escapePointerSegment_chars: "escapePointerSegment s = concat (map pointer_char s)"
  by (induction s) (auto simp: escapePointerSegment_def replace_all_def replace_from_char pointer_char_def)

lemma replace_two:
  "CHR ''$'' \<notin> set tpl \<Longrightarrow>
     replace_from [p, q] tpl before (c # s) =
     (if c = p \<and> s \<noteq> [] \<and> hd s = q then tpl @ replace_from [p, q] tpl (before @ [p, q]) (tl s)
      else c # replace_from [p, q] tpl (before @ [c]) s)"
  by (subst replace_from.simps) (cases s; auto simp: subst_template_plain)

lemma undo_slashes:
  "replace_from ''~1'' ''/'' before (concat (map pointer_char s)) =
     concat (map (\<lambda>c. if c = CHR ''~'' then ''~0'' else [c]) s)"
  by (induction s arbitrary: before) (auto simp: pointer_char_def replace_two)

lemma undo_tildes:
  "replace_from ''~0'' ''~'' before (concat (map (\<lambda>c. if c = CHR ''~'' then ''~0'' else [c]) s)) = s"
proof (induction s arbitrary: before)
  case (Cons c s)
  then show ?case by (auto simp: replace_two)
qed simp

lemma unescape_escape: "unescapeJSONPointerSegment (escapePointerSegment s) = s"
  by (simp add: unescapeJSONPointerSegment_def replace_all_def escapePointerSegment_chars undo_slashes undo_tildes)

lemma slash_not_escaped: "CHR ''/'' \<notin> set (escapePointerSegment s)"
  by (auto simp: escapePointerSegment_chars pointer_char_def)

lemma methods_plain: "m \<in> set VALID_METHODS \<Longrightarrow> ascii_lower m = m \<and> CHR ''/'' \<notin> set m"
proof -
  have "\<forall>m\<in>set VALID_METHODS. ascii_lower m = m \<and> CHR ''/'' \<notin> set m" by code_simp
  then show "m \<in> set VALID_METHODS \<Longrightarrow> ascii_lower m = m \<and> CHR ''/'' \<notin> set m" by blast
qed

lemma build_then_parse:
  assumes "m \<in> set VALID_METHODS"
  shows "parseRef (buildJsonPointerRef path m) = Inr (path, m)"
proof -
  have "split_str ''/'' (escapePointerSegment path @ ''/'' @ m) = [escapePointerSegment path, m]"
    using methods_plain [OF assms] slash_not_escaped by (simp add: split_char_append split_char_single)
  then show ?thesis
    using assms methods_plain [OF assms] unescape_escape [of path]
    by (simp add: parseRef_def buildJsonPointerRef_def unescapeJSONPointerSegment_def)
qed

section \<open>Properties of cut-point names\<close>

lemma keep_bare_parts:
  "keep_bare claimed es kept = (named, rest, taken) \<Longrightarrow>
     mset (map fst named) + mset rest = mset es \<and> set taken = set kept \<union> set (map snd named) \<and>
     (\<forall>(e, n)\<in>set named. n = comp_name (snd e))"
proof (induction claimed es kept arbitrary: named rest taken rule: keep_bare.induct)
  case (2 claimed e es kept)
  let ?n = "comp_name (snd e)"
  show ?case
  proof (cases "claimed ?n = 1 \<or> (\<not> isQualifiable (snd e) \<and> ?n \<notin> set kept)")
    case True
    then obtain named' where n: "keep_bare claimed es (?n # kept) = (named', rest, taken)" "named = (e, ?n) # named'"
      using "2.prems" by (auto simp: Let_def split: prod.splits)
    from "2.IH"(1) [OF refl True n(1)] n(2) show ?thesis by auto
  next
    case False
    then obtain rest' where n: "keep_bare claimed es kept = (named, rest', taken)" "rest = e # rest'"
      using "2.prems" by (auto simp: Let_def split: prod.splits)
    from "2.IH"(2) [OF refl False n(1)] n(2) show ?thesis by auto
  qed
qed simp

text \<open>A bare name is kept once: a name claimed once is no earlier claimant's.\<close>

lemma keep_bare_distinct:
  assumes "keep_bare claimed es kept = (named, rest, taken)"
    and "\<And>n. claimed n = count_list (map (comp_name \<circ> snd) (prev @ es)) n"
    and "set kept \<subseteq> set (map (comp_name \<circ> snd) prev)"
  shows "distinct (map snd named) \<and> set (map snd named) \<inter> set kept = {}"
  using assms
proof (induction claimed es kept arbitrary: prev named rest taken rule: keep_bare.induct)
  case (2 claimed e es kept)
  let ?n = "comp_name (snd e)"
  have fresh: "?n \<notin> set kept" if "claimed ?n = 1"
  proof
    assume "?n \<in> set kept"
    then have "0 < count_list (map (comp_name \<circ> snd) prev) ?n"
      using "2.prems"(3) by (metis count_list_0_iff gr0I subsetD)
    then have "1 < claimed ?n" by (simp add: "2.prems"(2) count_list_append comp_def)
    with that show False by simp
  qed
  show ?case
  proof (cases "claimed ?n = 1 \<or> (\<not> isQualifiable (snd e) \<and> ?n \<notin> set kept)")
    case True
    then obtain named' where n: "keep_bare claimed es (?n # kept) = (named', rest, taken)" "named = (e, ?n) # named'"
      using "2.prems"(1) by (auto simp: Let_def split: prod.splits)
    have "distinct (map snd named') \<and> set (map snd named') \<inter> set (?n # kept) = {}"
      using "2.IH"(1) [OF refl True n(1), of "prev @ [e]"] "2.prems"(2,3) by auto
    with n(2) fresh True show ?thesis by auto
  next
    case False
    then obtain rest' where n: "keep_bare claimed es kept = (named, rest', taken)"
      using "2.prems"(1) by (auto simp: Let_def split: prod.splits)
    show ?thesis using "2.IH"(2) [OF refl False n, of "prev @ [e]"] "2.prems"(2,3) by auto
  qed
qed simp

lemma qualify_names:
  "map fst (qualify new_url base es taken) = es \<and> distinct (map snd (qualify new_url base es taken)) \<and>
     set (map snd (qualify new_url base es taken)) \<inter> set taken = {}"
proof (induction es arbitrary: taken)
  case (Cons e es)
  from Cons [of "uniqueKey (name_stem new_url base (snd e)) taken # taken"]
    uniqueKey_fresh [of "name_stem new_url base (snd e)" taken]
  show ?case by (auto simp: Let_def)
qed simp

lemma named_claimants_ok:
  assumes "\<And>n. claimed n = count_list (map (comp_name \<circ> snd) order) n"
  shows "mset (map fst (named_claimants new_url base claimed order)) = mset order \<and>
    distinct (map snd (named_claimants new_url base claimed order))"
proof -
  obtain named rest taken where k: "keep_bare claimed order [] = (named, rest, taken)"
    by (metis prod.exhaust)
  note parts = keep_bare_parts [OF k]
  have "distinct (map snd named)" using keep_bare_distinct [OF k, of "[]"] assms by simp
  with parts qualify_names [of new_url base rest taken] show ?thesis
    by (auto simp: named_claimants_def k)
qed

lemma count_list_mset: "count_list xs x = count (mset xs) x"
  by (induction xs) auto

lemma claim_count_order:
  "claim_count cs n = count_list (map (comp_name \<circ> snd) (sort_key f (enumerate 0 cs))) n"
proof -
  have "mset (map (comp_name \<circ> snd) (sort_key f (enumerate 0 cs))) = mset (map (comp_name \<circ> snd) (enumerate 0 cs))"
    by simp
  also have "map (comp_name \<circ> snd) (enumerate 0 cs) = map comp_name cs"
    by (metis map_map map_snd_enumerate)
  finally show ?thesis by (simp only: claim_count_def count_list_mset)
qed

lemma assigned:
  fixes components base new_url
  defines "nm \<equiv> named_claimants new_url base (claim_count components)
    (sort_key (claimant_key \<circ> snd) (enumerate 0 components))"
  shows "mset (map fst nm) = mset (enumerate 0 components)" and "distinct (map snd nm)"
    and "i < length components \<Longrightarrow>
      ((i, components ! i), assignCutPointNames new_url components base ! i) \<in> set nm"
proof -
  note ok = named_claimants_ok [OF claim_count_order, of new_url base components "claimant_key \<circ> snd"]
  show m: "mset (map fst nm) = mset (enumerate 0 components)" using ok by (simp add: nm_def)
  show "distinct (map snd nm)" using ok by (simp add: nm_def)
  assume i: "i < length components"
  have "distinct (map fst (enumerate 0 components))" by simp
  moreover have mm: "mset (map (fst \<circ> fst) nm) = mset (map fst (enumerate 0 components))"
    using m by (metis map_map mset_map)
  ultimately have d: "distinct (map (fst \<circ> fst) nm)" by (metis mset_eq_imp_distinct_iff)
  have "(i, components ! i) \<in> set (enumerate 0 components)"
    using i by (auto simp: in_set_enumerate_eq)
  then have "(i, components ! i) \<in> set (map fst nm)" using m by (metis set_mset_mset)
  then obtain n where n: "((i, components ! i), n) \<in> set nm" by auto
  have keys: "map fst (map (\<lambda>(e, name). (fst e, name)) nm) = map (fst \<circ> fst) nm" by auto
  have "(i, n) \<in> set (map (\<lambda>(e, name). (fst e, name)) nm)" using n by force
  then have "map_of (map (\<lambda>(e, name). (fst e, name)) nm) i = Some n"
    using d by (intro map_of_is_SomeI) (simp_all only: keys)
  with i n show "((i, components ! i), assignCutPointNames new_url components base ! i) \<in> set nm"
    by (simp add: assignCutPointNames_def nm_def)
qed

text \<open>Only the components of the sorted claimants matter, not their positions.\<close>

abbreviation forget :: "nat \<times> component \<Rightarrow> nat \<times> component" where
  "forget e \<equiv> (0, snd e)"

lemma keep_bare_forget:
  "keep_bare claimed (map forget es) kept =
     (let (named, rest, taken) = keep_bare claimed es kept in
      (map (\<lambda>(e, n). (forget e, n)) named, map forget rest, taken))"
  by (induction claimed es kept rule: keep_bare.induct) (simp_all add: Let_def case_prod_beta)

lemma qualify_forget:
  "qualify new_url base (map forget es) taken = map (\<lambda>(e, n). (forget e, n)) (qualify new_url base es taken)"
  by (induction es arbitrary: taken) (simp_all add: Let_def)

lemma named_claimants_forget:
  "named_claimants new_url base claimed (map forget es) =
     map (\<lambda>(e, n). (forget e, n)) (named_claimants new_url base claimed es)"
  by (simp add: named_claimants_def keep_bare_forget qualify_forget case_prod_beta Let_def)

lemma map_insort_key: "map f (insort_key (g \<circ> f) x xs) = insort_key g (f x) (map f xs)"
  by (induction xs) auto

lemma map_sort_key: "map f (sort_key (g \<circ> f) xs) = sort_key g (map f xs)"
proof (induction xs)
  case (Cons x xs)
  then show ?case using map_insort_key [of f g x "sort_key (g \<circ> f) xs"] by (simp add: comp_def)
qed simp

definition component_names :: "url_address \<Rightarrow> component list \<Rightarrow> string option \<Rightarrow> (component \<times> string) set" where
  "component_names new_url components base = set (zip components (assignCutPointNames new_url components base))"

lemma component_names_eq:
  fixes components base new_url
  defines "nm \<equiv> named_claimants new_url base (claim_count components) (map (Pair 0) (sort_key claimant_key components))"
  shows "component_names new_url components base = (\<lambda>(e, n). (snd e, n)) ` set nm"
proof -
  let ?order = "sort_key (claimant_key \<circ> snd) (enumerate 0 components)"
  let ?full = "named_claimants new_url base (claim_count components) ?order"
  have "map forget ?order = map (Pair 0) (map snd ?order)" by simp
  also have "map snd ?order = sort_key claimant_key components" by (simp only: map_sort_key map_snd_enumerate)
  finally have nm: "nm = map (\<lambda>(e, n). (forget e, n)) ?full"
    by (simp only: nm_def flip: named_claimants_forget)
  have img: "(\<lambda>(e, n). (snd e, n)) ` set nm = (\<lambda>(e, n). (snd e, n)) ` set ?full"
    unfolding nm by (force simp: image_iff)
  have "component_names new_url components base = (\<lambda>(e, n). (snd e, n)) ` set ?full"
  proof (intro equalityI subsetI)
    fix p
    assume "p \<in> component_names new_url components base"
    then obtain i where i: "i < length components"
      "p = (components ! i, assignCutPointNames new_url components base ! i)"
      by (auto simp: component_names_def set_zip)
    with assigned(3) [OF i(1), of new_url base] show "p \<in> (\<lambda>(e, n). (snd e, n)) ` set ?full" by force
  next
    fix p
    assume "p \<in> (\<lambda>(e, n). (snd e, n)) ` set ?full"
    then obtain e n where e: "(e, n) \<in> set ?full" "p = (snd e, n)" by auto
    then have "e \<in> set (enumerate 0 components)"
      using assigned(1) [of new_url base components] by (metis fst_conv image_eqI list.set_map set_mset_mset)
    then obtain i where i: "i < length components" "e = (i, components ! i)" by (auto simp: in_set_enumerate_eq)
    have d: "distinct (map fst ?full)"
      using assigned(1) [of new_url base components] distinct_enumerate by (metis mset_eq_imp_distinct_iff)
    have "assignCutPointNames new_url components base ! i = n"
      using assigned(3) [OF i(1), of new_url base] e(1) i(2) d by (metis eq_key_imp_eq_value)
    moreover have "length (assignCutPointNames new_url components base) = length components"
      by (simp add: assignCutPointNames_def)
    ultimately show "p \<in> component_names new_url components base"
      using i e(2) by (auto simp: component_names_def set_zip)
  qed
  with img show ?thesis by simp
qed

section \<open>Claims\<close>

text \<open>References round-trip: the reference built for any path and any method the client knows
  parses back to that path and method, whatever slashes and tildes the path holds.\<close>

theorem operation_ref_roundtrip:
  assumes "m \<in> set VALID_METHODS"
  shows "parseRef (buildJsonPointerRef path m) = Inr (path, m)"
  using assms by (rule build_then_parse)

lemma operation_ref_roundtrip_witness:
  "parseRef ''#/paths/~1a~0~1{b}/get'' = Inr (''/a~/{b}'', ''get'')"
proof -
  have g: "''get'' \<in> set VALID_METHODS" by code_simp
  have "buildJsonPointerRef ''/a~/{b}'' ''get'' = ''#/paths/~1a~0~1{b}/get''" by code_simp
  with operation_ref_roundtrip [OF g, of "''/a~/{b}''"] show ?thesis by simp
qed

text \<open>Synthesis keys: for every name and every set of used keys the search for a free suffix ends;
  the key it returns matches the OBI-D-03 identifier grammar, is unused, and is the sanitized name
  itself when that is free, else carries the least suffix from 2 on that is.\<close>

theorem synthesis_key_is_fresh_identifier:
  "\<exists>k. k = uniqueKey (sanitizeKey name) used \<and> obi_identifier k \<and> k \<notin> set used \<and>
     (if sanitizeKey name \<notin> set used then k = sanitizeKey name
      else \<exists>j\<ge>2. k = candidate (sanitizeKey name) j \<and>
        {candidate (sanitizeKey name) i | i. 2 \<le> i \<and> i < j} \<subseteq> set used)"
  using uniqueKey_fresh [of "sanitizeKey name" used] unique_from_correct [of 2 "sanitizeKey name" used]
    uniqueKey_identifier [OF sanitizeKey_identifier, of name used]
  by (auto simp: uniqueKey_def)

text \<open>C38. Cut-point names are total and injective: every cut point receives a name and no two receive
  the same, whatever documents and pointers they were declared under, so no definition is dropped
  from \<open>$defs\<close>.\<close>

theorem cut_point_names_injective:
  "length (assignCutPointNames new_url components base) = length components \<and>
   distinct (assignCutPointNames new_url components base)"
proof -
  let ?nm = "named_claimants new_url base (claim_count components)
    (sort_key (claimant_key \<circ> snd) (enumerate 0 components))"
  have len: "length (assignCutPointNames new_url components base) = length components"
    by (simp add: assignCutPointNames_def)
  moreover have "i = j" if "i < length components" "j < length components"
    "assignCutPointNames new_url components base ! i = assignCutPointNames new_url components base ! j" for i j
  proof -
    have "inj_on snd (set ?nm)" using assigned(2) [of new_url base components] by (simp add: distinct_map)
    from inj_onD [OF this, OF _ assigned(3) [OF that(1)] assigned(3) [OF that(2)]] that(3) show "i = j" by simp
  qed
  ultimately show ?thesis by (simp add: distinct_conv_nth) blast
qed

text \<open>Cut-point names depend on the set of cut points only: whatever order the walk met them in,
  each component gets the same name, as long as no two agree on document and pointer.\<close>

theorem cut_point_names_ignore_order:
  assumes "mset components = mset components'" and "distinct (map claimant_key components)"
  shows "component_names new_url components base = component_names new_url components' base"
proof -
  have "inj_on claimant_key (set components)" using assms(2) by (simp add: distinct_map)
  then have "sort_key claimant_key components = sort_key claimant_key components'"
    using assms(1) by (intro sort_key_inj_key_eq) (simp_all add: sorted_sort_key)
  moreover have "claim_count components = claim_count components'"
    using assms(1) by (simp add: claim_count_def count_list_mset fun_eq_iff)
  ultimately show ?thesis by (simp add: component_names_eq)
qed

definition example_components :: "component list" where
  "example_components =
     [\<lparr> comp_name = ''Pet'', comp_document = Some ''./lib/a.yaml'', comp_pointer = ''/components/schemas/Pet'' \<rparr>,
      \<lparr> comp_name = ''Pet'', comp_document = None, comp_pointer = ''/components/schemas/Pet'' \<rparr>]"

lemma cut_point_names_ignore_order_witness:
  "(hd example_components, ''lib_a_Pet'') \<in> component_names (\<lambda>_. None) (rev example_components) None"
proof -
  have d: "distinct (map claimant_key example_components)" by code_simp
  have m: "mset example_components = mset (rev example_components)" by simp
  have "assignCutPointNames (\<lambda>_. None) example_components None = [''lib_a_Pet'', ''Pet'']" by code_simp
  then have "(hd example_components, ''lib_a_Pet'') \<in> component_names (\<lambda>_. None) example_components None"
    by (simp add: component_names_def example_components_def)
  then show ?thesis using cut_point_names_ignore_order [OF m d, of "\<lambda>_. None" None] by simp
qed

end
