(* ===== verification/Openapi32_Media.thy ===== *)
theory Openapi32_Media
  imports Complex_Main Declaration Artifact_Names
begin

text \<open>
  \<open>openapi32-media.ts\<close>: the request media an OpenAPI 3.2 operation adds to those of 3.0 and 3.1, the
  non-JSON text lane with its number spelling, the sequential bodies and the multipart builder.

  Parameters of the model: the JSON serializer and number reader of \<open>@openbindings/json\<close>, its test for
  integer tokens, the regular expression engine of \<open>patternProperties\<close>, and the texts \<open>Math.random\<close>
  supplies for boundaries.  Errors carry the text they are thrown with.
\<close>

record media32_env =
  e32_stringify :: json_stringify
  e32_number :: "string \<Rightarrow> jsval"
  e32_integer :: "string \<Rightarrow> bool"
  e32_regexp :: "string \<Rightarrow> string \<Rightarrow> bool option"
  e32_random :: "nat \<Rightarrow> string"

abbreviation fails :: "string \<Rightarrow> (string, 'a) res" where "fails s \<equiv> Inl s"

section \<open>Admission\<close>

datatype sequential_kind = JSON_Lines | JSON_Seq

datatype admission_family = Text_Family | Multipart_Family | Sequential_Family

record admission =
  ad_handled :: bool
  ad_family :: "admission_family option"
  ad_sequential :: "sequential_kind option"
  ad_positional :: bool
  ad_error :: "string option"

definition no_admission :: admission where
  "no_admission = \<lparr> ad_handled = False, ad_family = None, ad_sequential = None, ad_positional = False, ad_error = None \<rparr>"

definition mediaBase :: "string \<Rightarrow> string" where
  "mediaBase mt = ascii_lower (js_trim (hd (split_str '';'' mt)))"

definition strip_quotes :: "string \<Rightarrow> string" where
  "strip_quotes v =
     (let w = (if prefix [CHR 0x22] v then tl v else v) in
      if w \<noteq> [] \<and> last w = CHR 0x22 then butlast w else w)"

definition mediaParameter :: "string \<Rightarrow> string \<Rightarrow> string option" where
  "mediaParameter mt name =
     (case List.map_filter (\<lambda>part.
          (case cut (CHR ''='') part of
             None \<Rightarrow> None
           | Some (k, v) \<Rightarrow> if ascii_lower (js_trim k) = name then Some (strip_quotes (js_trim v)) else None))
        (tl (split_str '';'' mt)) of
        [] \<Rightarrow> None
      | v # _ \<Rightarrow> Some v)"

definition firstContentType :: "string \<Rightarrow> string" where
  "firstContentType v = js_trim (hd (split_str '','' v))"

definition isCharacterDataMedia :: "string \<Rightarrow> bool" where
  "isCharacterDataMedia base \<longleftrightarrow>
     starts_with ''text/'' base \<or> base = ''application/xml'' \<or> ends_with ''+xml'' base"

definition openAPI32NonJSONTextSchema :: "jsval \<Rightarrow> bool" where
  "openAPI32NonJSONTextSchema schema \<longleftrightarrow>
     (let d = resolveDeclaration schema False in
      \<not> d_ambiguous d \<and>
      (case d_types d of
         None \<Rightarrow> False
       | Some ts \<Rightarrow>
           list_all (\<lambda>t. t \<in> set [''null'', ''string'', ''boolean'', ''number'', ''integer'']) ts \<and>
           list_ex (\<lambda>t. t \<noteq> ''null'') ts))"

definition openAPI32PositionalMultipart :: "js_members option \<Rightarrow> bool" where
  "openAPI32PositionalMultipart media \<longleftrightarrow>
     (case media of
        None \<Rightarrow> False
      | Some m \<Rightarrow>
          has_member m ''prefixEncoding'' \<or> has_member m ''itemEncoding'' \<or> has_member m ''itemSchema'' \<or>
          declaresOnly (resolveDeclaration (member_of m ''schema'') False) [''array''])"

section \<open>Scalar text\<close>

datatype text_codec = Text_String | Text_Boolean | Text_Number

definition openAPI32NonJSONTextKind :: "jsval \<Rightarrow> text_codec option" where
  "openAPI32NonJSONTextKind schema =
     (let d = resolveDeclaration schema False in
      if admitsStringAsSoleNonNullType d then Some Text_String
      else if d_ambiguous d \<or> admitsNoInstance d then None
      else
        (case d_types d of
           Some [t] \<Rightarrow>
             if t = ''boolean'' then Some Text_Boolean
             else if t = ''number'' \<or> t = ''integer'' then Some Text_Number else None
         | _ \<Rightarrow> None))"

text \<open>The number grammar of RFC 8259: sign, integer, fraction, exponent.\<close>

definition is_integer_part :: "string \<Rightarrow> bool" where
  "is_integer_part s \<longleftrightarrow> s \<noteq> [] \<and> list_all is_digit s \<and> (hd s \<noteq> CHR ''0'' \<or> s = ''0'')"

definition digit_run :: "string \<Rightarrow> bool" where
  "digit_run s \<longleftrightarrow> s \<noteq> [] \<and> list_all is_digit s"

definition is_exponent :: "char \<Rightarrow> bool" where
  "is_exponent c \<longleftrightarrow> c = CHR ''e'' \<or> c = CHR ''E''"

definition number_mantissa :: "string \<Rightarrow> string" where
  "number_mantissa s = takeWhile (\<lambda>c. \<not> is_exponent c) s"

definition number_exponent :: "string \<Rightarrow> string option" where
  "number_exponent s = (case dropWhile (\<lambda>c. \<not> is_exponent c) s of [] \<Rightarrow> None | _ # e \<Rightarrow> Some e)"

definition unsigned_exponent :: "string \<Rightarrow> string" where
  "unsigned_exponent e = (if e \<noteq> [] \<and> (hd e = CHR ''+'' \<or> hd e = CHR ''-'') then tl e else e)"

definition is_json_number :: "string \<Rightarrow> bool" where
  "is_json_number input \<longleftrightarrow>
     (let raw = (if prefix ''-'' input then tl input else input); mantissa = number_mantissa raw in
      (case cut (CHR ''.'') mantissa of
         None \<Rightarrow> is_integer_part mantissa
       | Some (i, f) \<Rightarrow> is_integer_part i \<and> digit_run f) \<and>
      (case number_exponent raw of None \<Rightarrow> True | Some e \<Rightarrow> digit_run (unsigned_exponent e)))"

text \<open>\<open>BigInt\<close> of the exponent text.\<close>

definition exponent_value :: "string \<Rightarrow> int" where
  "exponent_value e = (if prefix ''-'' e then - int (digits_value 0 (tl e)) else int (digits_value 0 (unsigned_exponent e)))"

definition drop_zeros :: "string \<Rightarrow> string" where
  "drop_zeros s = dropWhile (\<lambda>c. c = CHR ''0'') s"

text \<open>Digits and scale: the number is the digits times ten to the minus scale.\<close>

definition number_digits :: "string \<Rightarrow> string \<times> int" where
  "number_digits raw =
     (let mantissa = number_mantissa raw;
          (i, f) = (case cut (CHR ''.'') mantissa of None \<Rightarrow> (mantissa, []) | Some p \<Rightarrow> p);
          exponent = (case number_exponent raw of None \<Rightarrow> 0 | Some e \<Rightarrow> exponent_value e) in
      (i @ f, int (length f) - exponent))"

definition signed_text :: "int \<Rightarrow> string" where
  "signed_text i = (if i < 0 then ''-'' @ decimal (nat (- i)) else decimal (nat i))"

definition exponential_spelling :: "string \<Rightarrow> string \<Rightarrow> int \<Rightarrow> string" where
  "exponential_spelling sign digits scale =
     sign @ (if length digits = 1 then digits else hd digits # ''.'' @ tl digits) @ ''e'' @
     signed_text (int (length digits - 1) - scale)"

definition plain_length :: "string \<Rightarrow> string \<Rightarrow> int \<Rightarrow> int" where
  "plain_length sign digits scale =
     (if scale \<le> 0 then int (length sign + length digits) - scale
      else if scale \<ge> int (length digits) then int (length sign + 2) + scale
      else int (length sign + length digits + 1))"

definition plain_spelling :: "string \<Rightarrow> string \<Rightarrow> int \<Rightarrow> string" where
  "plain_spelling sign digits scale =
     (if scale \<le> 0 then sign @ digits @ replicate (nat (- scale)) (CHR ''0'')
      else if scale \<ge> int (length digits)
      then sign @ ''0.'' @ replicate (nat scale - length digits) (CHR ''0'') @ digits
      else sign @ take (length digits - nat scale) digits @ ''.'' @ drop (length digits - nat scale) digits)"

definition normalizeOpenAPI32JSONNumber :: "string \<Rightarrow> (string, string) res" where
  "normalizeOpenAPI32JSONNumber input =
     (if \<not> is_json_number input then fails (json_quote input @ '' is not an RFC 8259 number'')
      else
        let negative = prefix ''-'' input;
            (all, scale0) = number_digits (if negative then tl input else input);
            significant = drop_zeros all in
        if significant = [] then Inr ''0''
        else
          let digits = rev (drop_zeros (rev significant));
              scale = scale0 - int (length significant - length digits);
              sign = (if negative then ''-'' else []);
              exponential = exponential_spelling sign digits scale in
          if plain_length sign digits scale > int (length exponential) then Inr exponential
          else Inr (plain_spelling sign digits scale))"

definition blank_trim :: "string \<Rightarrow> string" where
  "blank_trim s =
     (let blank = (\<lambda>c. c \<in> set [CHR '' '', CHR 0x09, CHR 0x0D, CHR 0x0A]) in
      rev (dropWhile blank (rev (dropWhile blank s))))"

definition parseOpenAPI32NonJSONText :: "media32_env \<Rightarrow> jsval \<Rightarrow> string \<Rightarrow> (string, jsval) res" where
  "parseOpenAPI32NonJSONText env schema s =
     (let kind = openAPI32NonJSONTextKind schema; token = blank_trim s in
      if kind = Some Text_String then Inr (JStr s)
      else if kind = Some Text_Boolean \<and> (token = ''true'' \<or> token = ''false'') then Inr (JBool (token = ''true''))
      else if kind = Some Text_Number \<and> is_json_number token then Inr (e32_number env token)
      else fails ''non-JSON scalar text does not match its declaration-selected boolean or number codec'')"

definition openAPI32JSONValueType :: "media32_env \<Rightarrow> jsval \<Rightarrow> string" where
  "openAPI32JSONValueType env v =
     (case v of
        JStr _ \<Rightarrow> ''string''
      | JBool _ \<Rightarrow> ''boolean''
      | JNum t \<Rightarrow> if e32_integer env t then ''integer'' else ''number''
      | JArr _ \<Rightarrow> ''array''
      | JObj _ \<Rightarrow> ''object''
      | _ \<Rightarrow> [])"

definition serializeOpenAPI32NonJSONText :: "media32_env \<Rightarrow> jsval \<Rightarrow> jsval \<Rightarrow> (string, string) res" where
  "serializeOpenAPI32NonJSONText env schema v =
     (if v = JNull then fails ''non-JSON text serialization has no null lexical form''
      else
        (case (openAPI32NonJSONTextKind schema, v) of
           (Some Text_String, JStr s) \<Rightarrow> Inr s
         | (Some Text_Boolean, JBool b) \<Rightarrow> Inr (if b then ''true'' else ''false'')
         | (Some Text_Number, JNum t) \<Rightarrow> normalizeOpenAPI32JSONNumber t
         | _ \<Rightarrow> fails ''declaration and supplied value select no single permitted non-JSON serialization codec''))"

section \<open>Sequential bodies\<close>

text \<open>The characters a script reader could trip over, escaped: less, greater, ampersand, U+2028, U+2029.\<close>

fun escape_markup :: "string \<Rightarrow> string" where
  "escape_markup [] = []"
| "escape_markup (c # s) =
     (if c = CHR ''<'' then CHR 0x5C # ''u003c'' @ escape_markup s
      else if c = CHR ''>'' then CHR 0x5C # ''u003e'' @ escape_markup s
      else if c = CHR ''&'' then CHR 0x5C # ''u0026'' @ escape_markup s
      else if prefix [CHR 0xE2, CHR 0x80, CHR 0xA8] (c # s) then CHR 0x5C # ''u2028'' @ escape_markup (drop 2 s)
      else if prefix [CHR 0xE2, CHR 0x80, CHR 0xA9] (c # s) then CHR 0x5C # ''u2029'' @ escape_markup (drop 2 s)
      else c # escape_markup s)"

definition stringify_media_json :: "media32_env \<Rightarrow> jsval \<Rightarrow> (string, string) res" where
  "stringify_media_json env v =
     (case e32_stringify env v of None \<Rightarrow> fails ''value has no JSON representation'' | Some t \<Rightarrow> Inr (escape_markup t))"

fun js_typeof :: "jsval \<Rightarrow> string" where
  "js_typeof JUndefined = ''undefined''"
| "js_typeof JFun = ''function''"
| "js_typeof JNull = ''null''"
| "js_typeof (JBool _) = ''boolean''"
| "js_typeof (JStr _) = ''string''"
| "js_typeof (JNum _) = ''number''"
| "js_typeof (JNonFinite _) = ''number''"
| "js_typeof _ = ''object''"

definition buildOpenAPI32SequentialBody :: "media32_env \<Rightarrow> sequential_kind \<Rightarrow> jsval \<Rightarrow> (string, string) res" where
  "buildOpenAPI32SequentialBody env kind v =
     (case as_array v of
        None \<Rightarrow> fails (''sequential request body must be an array, got '' @ js_typeof v)
      | Some items \<Rightarrow>
          res_map concat (map_res (\<lambda>item.
              res_map (\<lambda>json. (if kind = JSON_Seq then [CHR 0x1E] else []) @ json @ [CHR 0x0A])
                (stringify_media_json env item)) items))"

section \<open>The spelling of numbers\<close>

definition text_value :: "string \<times> int \<Rightarrow> rat" where
  "text_value p = of_nat (digits_value 0 (fst p)) * 10 powi (- snd p)"

definition number_value :: "string \<Rightarrow> rat" where
  "number_value s =
     (if prefix ''-'' s then - text_value (number_digits (tl s)) else text_value (number_digits s))"

lemma digits_value_acc: "digits_value acc s = acc * 10 ^ length s + digits_value 0 s"
proof (induction s arbitrary: acc)
  case (Cons c s)
  show ?case using Cons.IH [of "10 * acc + (byte c - 48)"] Cons.IH [of "byte c - 48"] by (simp add: algebra_simps)
qed simp

lemma digits_value_join: "digits_value 0 (s @ t) = digits_value 0 s * 10 ^ length t + digits_value 0 t"
  by (induction s) (simp_all add: digits_value_acc [of "byte _ - 48"] algebra_simps power_add)

lemma digits_value_zeros [simp]: "digits_value 0 (replicate n (CHR ''0'')) = 0"
  by (induction n) (simp_all add: byte_def)

lemma digits_value_leading: "digits_value 0 (replicate n (CHR ''0'') @ s) = digits_value 0 s"
  by (simp add: digits_value_join)

lemma drop_zeros_replicate: "s = replicate (length s - length (drop_zeros s)) (CHR ''0'') @ drop_zeros s"
proof (induction s)
  case (Cons c s)
  have "length (drop_zeros s) \<le> length s" by (simp add: drop_zeros_def length_dropWhile_le)
  then show ?case using Cons.IH by (cases "c = CHR ''0''") (simp_all add: drop_zeros_def Suc_diff_le)
qed (simp add: drop_zeros_def)

lemma drop_zeros_value: "digits_value 0 (drop_zeros s) = digits_value 0 s"
  using digits_value_leading [of "length s - length (drop_zeros s)" "drop_zeros s"] drop_zeros_replicate [of s] by simp

lemma drop_zeros_hd: "drop_zeros s \<noteq> [] \<Longrightarrow> hd (drop_zeros s) \<noteq> CHR ''0''"
  using hd_dropWhile [of "\<lambda>c. c = CHR ''0''" s] by (simp add: drop_zeros_def)

lemma drop_zeros_sub: "list_all is_digit s \<Longrightarrow> list_all is_digit (drop_zeros s)"
  by (auto simp: drop_zeros_def list_all_iff dest: set_dropWhileD)

lemma trailing_zeros:
  "s = rev (drop_zeros (rev s)) @ replicate (length s - length (rev (drop_zeros (rev s)))) (CHR ''0'')"
  using arg_cong [OF drop_zeros_replicate [of "rev s"], of rev] by simp

lemma exponent_value_signed [simp]: "exponent_value (signed_text i) = i"
proof -
  have d: "decimal n \<noteq> [] \<and> hd (decimal n) \<noteq> CHR ''-'' \<and> hd (decimal n) \<noteq> CHR ''+''" for n
    using decimal_digits [of n] by (cases "decimal n") (auto simp: is_digit_def byte_def)
  have "\<not> prefix ''-'' (decimal n)" "unsigned_exponent (decimal n) = decimal n" for n
    using d [of n] by (auto simp: unsigned_exponent_def prefix_def)
  then show ?thesis by (simp add: exponent_value_def signed_text_def digits_value_decimal)
qed

lemma signed_text_run: "digit_run (unsigned_exponent (signed_text i))"
proof -
  have d: "decimal n \<noteq> [] \<and> list_all is_digit (decimal n) \<and> hd (decimal n) \<noteq> CHR ''-'' \<and> hd (decimal n) \<noteq> CHR ''+''" for n
    using decimal_digits [of n] by (cases "decimal n") (auto simp: is_digit_def byte_def)
  then show ?thesis by (simp add: signed_text_def unsigned_exponent_def digit_run_def)
qed

text \<open>The two spellings of digits and a scale: they are numbers, and have the value they spell.\<close>

definition significant_digits :: "string \<Rightarrow> bool" where
  "significant_digits ds \<longleftrightarrow> ds \<noteq> [] \<and> list_all is_digit ds \<and> hd ds \<noteq> CHR ''0''"

lemma digit_facts: "is_digit c \<Longrightarrow> \<not> is_exponent c \<and> c \<noteq> CHR ''.'' \<and> c \<noteq> CHR ''-''"
  by (auto simp: is_digit_def is_exponent_def byte_def)

lemma no_exponent:
  assumes "list_all (\<lambda>c. is_digit c \<or> c = CHR ''.'') m"
  shows "number_mantissa m = m" and "number_exponent m = None"
    and "number_mantissa (m @ CHR ''e'' # e) = m" and "number_exponent (m @ CHR ''e'' # e) = Some e"
proof -
  have all: "\<forall>c\<in>set m. \<not> is_exponent c"
    using assms digit_facts by (auto simp: list_all_iff is_exponent_def)
  have e: "is_exponent (CHR ''e'')" by (simp add: is_exponent_def)
  show "number_mantissa m = m" "number_mantissa (m @ CHR ''e'' # e) = m"
    using all e by (simp_all add: number_mantissa_def takeWhile_append2 takeWhile_eq_all_conv [THEN iffD2])
  show "number_exponent m = None" "number_exponent (m @ CHR ''e'' # e) = Some e"
    using all e by (simp_all add: number_exponent_def dropWhile_append2 dropWhile_eq_Nil_conv [THEN iffD2])
qed

lemma no_point: "list_all is_digit m \<Longrightarrow> cut (CHR ''.'') m = None"
  using digit_facts by (auto simp: cut_None list_all_iff)

lemma one_point: "list_all is_digit i \<Longrightarrow> cut (CHR ''.'') (i @ CHR ''.'' # f) = Some (i, f)"
  using digit_facts by (auto simp: cut_Some list_all_iff)

lemma digits_or_point: "list_all is_digit m \<Longrightarrow> list_all (\<lambda>c. is_digit c \<or> c = CHR ''.'') m"
  by (auto simp: list_all_iff)

lemma number_digits_plain:
  "list_all is_digit m \<Longrightarrow> number_digits m = (m, 0)"
  "list_all is_digit i \<Longrightarrow> list_all is_digit f \<Longrightarrow> number_digits (i @ CHR ''.'' # f) = (i @ f, int (length f))"
  using no_exponent [of m] no_exponent [of "i @ CHR ''.'' # f"] no_point one_point
  by (simp_all add: number_digits_def digits_or_point)

lemma number_digits_exponential:
  "list_all is_digit m \<Longrightarrow> number_digits (m @ CHR ''e'' # signed_text x) = (m, - x)"
  "list_all is_digit i \<Longrightarrow> list_all is_digit f \<Longrightarrow>
     number_digits (i @ CHR ''.'' # f @ CHR ''e'' # signed_text x) = (i @ f, int (length f) - x)"
  using no_exponent [of m] no_exponent [of "i @ CHR ''.'' # f"] no_point one_point
  by (simp_all add: number_digits_def digits_or_point)

lemma text_value_scaled:
  "text_value (ds @ replicate k (CHR ''0''), x) = text_value (ds, x - int k)"
  by (simp add: text_value_def digits_value_join power_int_diff power_int_minus field_simps flip: power_int_of_nat)

lemma prefix_minus: "ds \<noteq> [] \<Longrightarrow> hd ds \<noteq> CHR ''-'' \<Longrightarrow> \<not> prefix ''-'' (ds @ r)"
  by (cases ds) auto

lemma number_value_signed:
  assumes "sign = [] \<or> sign = ''-''" and "u \<noteq> []" and "hd u \<noteq> CHR ''-''"
  shows "number_value (sign @ u) = (if sign = [] then 1 else - 1) * text_value (number_digits u)"
    and "is_json_number (sign @ u) = is_json_number u"
  using assms prefix_minus [of u "[]"] by (auto simp: number_value_def is_json_number_def)

lemma is_json_number_digits:
  assumes "list_all is_digit i" and "i \<noteq> []" and "hd i \<noteq> CHR ''0'' \<or> i = ''0''"
  shows "is_json_number i"
    and "f \<noteq> [] \<Longrightarrow> list_all is_digit f \<Longrightarrow> is_json_number (i @ CHR ''.'' # f)"
    and "is_json_number (i @ CHR ''e'' # signed_text x)"
    and "f \<noteq> [] \<Longrightarrow> list_all is_digit f \<Longrightarrow> is_json_number (i @ CHR ''.'' # f @ CHR ''e'' # signed_text x)"
proof -
  have "hd i \<noteq> CHR ''-''" using assms(1,2) digit_facts by (cases i) auto
  then have "\<not> prefix ''-'' (i @ r)" for r using assms(2) by (intro prefix_minus)
  note facts = this this [of "[]", simplified] assms no_exponent [of i] no_exponent [of "i @ CHR ''.'' # f"]
    no_point [OF assms(1)] one_point [OF assms(1)] signed_text_run
  show "is_json_number i" "is_json_number (i @ CHR ''e'' # signed_text x)"
    using facts by (simp_all add: is_json_number_def is_integer_part_def digits_or_point)
  show "f \<noteq> [] \<Longrightarrow> list_all is_digit f \<Longrightarrow> is_json_number (i @ CHR ''.'' # f)"
    "f \<noteq> [] \<Longrightarrow> list_all is_digit f \<Longrightarrow> is_json_number (i @ CHR ''.'' # f @ CHR ''e'' # signed_text x)"
    using facts by (simp_all add: is_json_number_def is_integer_part_def digit_run_def digits_or_point)
qed

lemma exponential_spelling_ok:
  assumes "significant_digits ds" and "sign = [] \<or> sign = ''-''"
  shows "is_json_number (exponential_spelling sign ds scale)"
    and "number_value (exponential_spelling sign ds scale) = (if sign = [] then 1 else - 1) * text_value (ds, scale)"
proof -
  obtain d f where ds: "ds = d # f" "is_digit d" "list_all is_digit f" "d \<noteq> CHR ''0''"
    using assms(1) by (cases ds) (auto simp: significant_digits_def)
  then have d: "d \<noteq> CHR ''-''" using digit_facts by blast
  let ?x = "int (length ds - 1) - scale"
  let ?u = "(if length ds = 1 then ds else hd ds # ''.'' @ tl ds) @ ''e'' @ signed_text ?x"
  have u: "exponential_spelling sign ds scale = sign @ ?u" "?u \<noteq> []" "hd ?u \<noteq> CHR ''-''"
    using d ds(1) by (simp_all add: exponential_spelling_def)
  have "is_json_number ?u \<and> text_value (number_digits ?u) = text_value (ds, scale)"
    using is_json_number_digits(3) [of "[d]" ?x] is_json_number_digits(4) [of "[d]" f ?x]
      number_digits_exponential(1) [of "[d]" ?x] number_digits_exponential(2) [of "[d]" f ?x] ds
    by (cases f) simp_all
  then show "is_json_number (exponential_spelling sign ds scale)"
    and "number_value (exponential_spelling sign ds scale) = (if sign = [] then 1 else - 1) * text_value (ds, scale)"
    using number_value_signed [OF assms(2) u(2,3)] unfolding u(1) by simp_all
qed

lemma plain_spelling_ok:
  assumes "significant_digits ds" and "sign = [] \<or> sign = ''-''"
  shows "is_json_number (plain_spelling sign ds scale)"
    and "number_value (plain_spelling sign ds scale) = (if sign = [] then 1 else - 1) * text_value (ds, scale)"
    and "int (length (plain_spelling sign ds scale)) = plain_length sign ds scale"
proof -
  have ds: "ds \<noteq> []" "list_all is_digit ds" "hd ds \<noteq> CHR ''0''" using assms(1) by (simp_all add: significant_digits_def)
  have minus: "hd ds \<noteq> CHR ''-''" using ds digit_facts by (cases ds) auto
  have zeros: "list_all is_digit (replicate k (CHR ''0''))" for k by (simp add: list_all_iff is_digit_def byte_def)
  define n where "n = length ds - nat scale"
  have parts: "list_all is_digit (take n ds)" "list_all is_digit (drop n ds)"
    using ds(2) by (auto simp: list_all_iff dest: in_set_takeD in_set_dropD)
  obtain u where u: "plain_spelling sign ds scale = sign @ u" "u \<noteq> []" "hd u \<noteq> CHR ''-''"
    and ok: "is_json_number u" "text_value (number_digits u) = text_value (ds, scale)"
  proof (cases "scale \<le> 0")
    case True
    show thesis
    proof (rule that)
      show "plain_spelling sign ds scale = sign @ ds @ replicate (nat (- scale)) (CHR ''0'')"
        using True by (simp add: plain_spelling_def)
    qed (use ds minus zeros True text_value_scaled [of ds "nat (- scale)" 0] in
        \<open>simp_all add: number_digits_plain is_json_number_digits\<close>)
  next
    case False
    show thesis
    proof (cases "scale \<ge> int (length ds)")
      case True
      let ?z = "replicate (nat scale - length ds) (CHR ''0'')"
      show thesis
      proof (rule that)
        show "plain_spelling sign ds scale = sign @ ''0'' @ CHR ''.'' # ?z @ ds"
          using True False by (simp add: plain_spelling_def)
        show "is_json_number (''0'' @ CHR ''.'' # ?z @ ds)"
          using ds zeros by (intro is_json_number_digits) (simp_all add: is_digit_def byte_def)
        show "text_value (number_digits (''0'' @ CHR ''.'' # ?z @ ds)) = text_value (ds, scale)"
          using True number_digits_plain(2) [of "''0''" "?z @ ds"] ds(2) zeros digits_value_leading [of "Suc (nat scale - length ds)" ds]
          by (simp add: is_digit_def byte_def text_value_def)
      qed simp_all
    next
      case inner: False
      have n: "take n ds \<noteq> []" "drop n ds \<noteq> []" "length (drop n ds) = nat scale"
        using False inner ds(1) by (auto simp: n_def)
      show thesis
      proof (rule that)
        show "plain_spelling sign ds scale = sign @ take n ds @ CHR ''.'' # drop n ds"
          using False inner by (simp add: plain_spelling_def n_def)
        show "is_json_number (take n ds @ CHR ''.'' # drop n ds)"
        proof (rule is_json_number_digits(2) [OF parts(1) n(1) _ n(2) parts(2)])
          have "hd (take n ds) = hd ds" using n(1) by (cases n; cases ds) simp_all
          then show "hd (take n ds) \<noteq> CHR ''0'' \<or> take n ds = ''0''" using ds(3) by simp
        qed
        show "text_value (number_digits (take n ds @ CHR ''.'' # drop n ds)) = text_value (ds, scale)"
          using number_digits_plain(2) [OF parts] n(3) False by simp
        show "hd (take n ds @ CHR ''.'' # drop n ds) \<noteq> CHR ''-''" using n(1) minus by (cases n; cases ds) simp_all
      qed simp
    qed
  qed
  show "is_json_number (plain_spelling sign ds scale)"
    and "number_value (plain_spelling sign ds scale) = (if sign = [] then 1 else - 1) * text_value (ds, scale)"
    using number_value_signed [OF assms(2) u(2,3)] ok unfolding u(1) by simp_all
  show "int (length (plain_spelling sign ds scale)) = plain_length sign ds scale"
  proof (cases "scale \<le> 0")
    case True
    then show ?thesis by (simp add: plain_spelling_def plain_length_def)
  next
    case False
    have "length (take n ds) + length (drop n ds) = length ds" by (simp flip: length_append)
    moreover have "length ds \<le> nat scale" if "scale \<ge> int (length ds)" using that by linarith
    ultimately show ?thesis
      using False unfolding plain_spelling_def plain_length_def n_def [symmetric]
      by (simp del: length_take length_drop)
  qed
qed

definition shorter_of_two :: "string \<Rightarrow> rat \<Rightarrow> bool" where
  "shorter_of_two out q \<longleftrightarrow>
     (if q = 0 then out = ''0''
      else \<exists>sign ds scale. sign \<in> {[], ''-''} \<and> significant_digits ds \<and> last ds \<noteq> CHR ''0'' \<and>
             q = (if sign = [] then 1 else - 1) * text_value (ds, scale) \<and>
             out = (if length (exponential_spelling sign ds scale) < length (plain_spelling sign ds scale)
                    then exponential_spelling sign ds scale else plain_spelling sign ds scale))"

lemma number_digits_all:
  assumes "is_json_number input" and "\<not> prefix ''-'' input"
  shows "list_all is_digit (fst (number_digits input))"
  using assms
  by (auto simp: is_json_number_def number_digits_def Let_def is_integer_part_def digit_run_def split: option.splits)

lemma is_json_number_unsigned:
  assumes "is_json_number (CHR ''-'' # u)"
  shows "is_json_number u \<and> \<not> prefix ''-'' u"
proof
  have "\<not> prefix ''-'' u"
  proof
    assume "prefix ''-'' u"
    then obtain v where u: "u = CHR ''-'' # v" by (auto simp: prefix_def)
    have "number_mantissa u = CHR ''-'' # number_mantissa v" by (simp add: u number_mantissa_def is_exponent_def)
    then show False
      using assms by (auto simp: is_json_number_def Let_def is_integer_part_def is_digit_def byte_def cut_Some Cons_eq_append_conv
          split: option.splits)
  qed
  then show "is_json_number u" "\<not> prefix ''-'' u" using assms by (simp_all add: is_json_number_def)
qed

lemma text_value_zero: "text_value (ds, x) = 0 \<longleftrightarrow> digits_value 0 ds = 0"
  by (simp add: text_value_def)

lemma digits_value_pos: "ds \<noteq> [] \<Longrightarrow> list_all is_digit ds \<Longrightarrow> hd ds \<noteq> CHR ''0'' \<Longrightarrow> digits_value 0 ds \<noteq> 0"
proof (cases ds)
  case (Cons c r)
  assume "list_all is_digit ds" "hd ds \<noteq> CHR ''0''"
  then have "byte c - 48 \<noteq> 0" using Cons byte_inject [of c "CHR ''0''"] by (auto simp: is_digit_def byte_def)
  then show ?thesis using Cons digits_value_join [of "[c]" r] by simp
qed simp

text \<open>What is written, by the significant digits of the input.\<close>

lemma normalized_number_cases:
  assumes "is_json_number input"
  obtains (zero) "number_value input = 0" "normalizeOpenAPI32JSONNumber input = Inr ''0''"
  | (significant) sign ds scale where "sign = [] \<or> sign = ''-''" "significant_digits ds" "last ds \<noteq> CHR ''0''"
      "number_value input = (if sign = [] then 1 else - 1) * text_value (ds, scale)" "number_value input \<noteq> 0"
      "normalizeOpenAPI32JSONNumber input =
        Inr (if plain_length sign ds scale > int (length (exponential_spelling sign ds scale))
             then exponential_spelling sign ds scale else plain_spelling sign ds scale)"
proof -
  define sign where "sign = (if prefix ''-'' input then ''-'' else [])"
  define u where "u = (if prefix ''-'' input then tl input else input)"
  have input: "input = sign @ u" by (auto simp: sign_def u_def prefix_def)
  have sgn: "sign = [] \<or> sign = ''-''" by (simp add: sign_def)
  have u: "is_json_number u \<and> \<not> prefix ''-'' u"
    using assms is_json_number_unsigned [of "tl input"] by (auto simp: u_def prefix_def)
  obtain all scale0 where parts: "number_digits u = (all, scale0)" by (cases "number_digits u")
  have digits: "list_all is_digit all" using number_digits_all [of u] u parts by simp
  have value_input: "number_value input = (if sign = [] then 1 else - 1) * text_value (all, scale0)"
    using parts by (auto simp: number_value_def sign_def u_def)
  define sig where "sig = drop_zeros all"
  have sig: "digits_value 0 sig = digits_value 0 all" "list_all is_digit sig"
    using digits by (simp_all add: sig_def drop_zeros_value drop_zeros_sub)
  show ?thesis
  proof (cases "sig = []")
    case True
    then have "normalizeOpenAPI32JSONNumber input = Inr ''0''" and "number_value input = 0"
      using assms parts sig(1) value_input text_value_zero [of all scale0]
      by (simp_all add: normalizeOpenAPI32JSONNumber_def u_def sig_def)
    then show ?thesis using zero by blast
  next
    case False
    define ds where "ds = rev (drop_zeros (rev sig))"
    define scale where "scale = scale0 - int (length sig - length ds)"
    have split: "sig = ds @ replicate (length sig - length ds) (CHR ''0'')"
      using trailing_zeros [of sig] by (simp add: ds_def)
    have ds: "significant_digits ds" "last ds \<noteq> CHR ''0''"
    proof -
      have "hd sig \<noteq> CHR ''0''" using drop_zeros_hd [of all] False by (simp add: sig_def)
      then have ne: "ds \<noteq> []" using split False by (metis append_Nil hd_replicate length_0_conv length_replicate)
      then have "hd ds = hd sig" by (metis hd_append split)
      with ne \<open>hd sig \<noteq> CHR ''0''\<close> show "significant_digits ds"
        using sig(2) split by (metis list_all_append significant_digits_def)
      show "last ds \<noteq> CHR ''0''" using drop_zeros_hd [of "rev sig"] ne by (simp add: ds_def last_rev)
    qed
    have same: "text_value (ds, scale) = text_value (all, scale0)"
      using text_value_scaled [of ds "length sig - length ds" scale0] split sig(1) by (simp add: scale_def text_value_def)
    have nonzero: "number_value input \<noteq> 0"
      using value_input sgn ds(1) digits_value_pos [of ds] text_value_zero [of ds scale] same
      by (auto simp: significant_digits_def)
    have out: "normalizeOpenAPI32JSONNumber input =
        Inr (if plain_length sign ds scale > int (length (exponential_spelling sign ds scale))
             then exponential_spelling sign ds scale else plain_spelling sign ds scale)"
      using assms False parts unfolding normalizeOpenAPI32JSONNumber_def u_def
      by (simp add: sig_def [symmetric] ds_def [symmetric] scale_def [symmetric] sign_def [symmetric] Let_def)
    show ?thesis by (rule significant [OF sgn ds _ nonzero out]) (use value_input same in simp)
  qed
qed

text \<open>
  C40. The spelling of a number changes only its text: every RFC 8259 number is accepted, and what is
  written is an RFC 8259 number with exactly the same value.  Its significant digits have two spellings
  that are compared, the plain one and the exponential one with the point after the first digit, and what
  is written is the shorter of these two, the plain one when they are equally long (not the
  shortest of all spellings, see \<open>shorter_spelling_missed\<close>).
\<close>
theorem number_spelling_exact:
  assumes "is_json_number input"
  shows "\<exists>out. normalizeOpenAPI32JSONNumber input = Inr out \<and> is_json_number out \<and>
    number_value out = number_value input \<and> shorter_of_two out (number_value input)"
  using assms
proof (cases rule: normalized_number_cases)
  case zero
  moreover have "is_json_number ''0'' \<and> number_value ''0'' = 0" by code_simp
  ultimately show ?thesis by (simp add: shorter_of_two_def)
next
  case digits: (significant sign ds scale)
  note ok = exponential_spelling_ok [OF digits(2,1), of scale] plain_spelling_ok [OF digits(2,1), of scale]
  define out where "out = (if length (exponential_spelling sign ds scale) < length (plain_spelling sign ds scale)
    then exponential_spelling sign ds scale else plain_spelling sign ds scale)"
  have "normalizeOpenAPI32JSONNumber input = Inr out" using digits(6) ok(5) by (auto simp: out_def)
  moreover have "is_json_number out" "number_value out = number_value input" using ok(1-4) digits(4) by (auto simp: out_def)
  moreover have "shorter_of_two out (number_value input)"
  proof -
    have "sign \<in> {[], ''-''}" using digits(1) by simp
    with digits(2-5) out_def show ?thesis unfolding shorter_of_two_def by (simp only: if_False) blast
  qed
  ultimately show ?thesis by blast
qed

lemma number_spelling_exact_witness:
  "\<exists>out. normalizeOpenAPI32JSONNumber ''1200000e-2'' = Inr out \<and> number_value out = number_value ''1200000e-2'' \<and>
     shorter_of_two out (number_value ''1200000e-2'')"
proof -
  have "is_json_number ''1200000e-2''" by code_simp
  from number_spelling_exact [OF this] show ?thesis by blast
qed

text \<open>
  The shorter of the two spellings is not the shortest spelling: an exponent with another position of the
  point is never tried.
\<close>

lemma shorter_spelling_missed:
  "normalizeOpenAPI32JSONNumber ''120000'' = Inr ''1.2e5'' \<and> is_json_number ''12e4'' \<and>
     number_value ''12e4'' = number_value ''120000'' \<and> length ''12e4'' < length ''1.2e5''"
proof -
  have "normalizeOpenAPI32JSONNumber ''120000'' = Inr ''1.2e5''" "is_json_number ''12e4''" by code_simp+
  moreover have "number_value ''12e4'' = 120000"
  proof -
    have "number_digits ''12e4'' = (''12'', - 4)" by code_simp
    moreover have "digits_value 0 ''12'' = 12" by (simp add: byte_def)
    ultimately show ?thesis by (simp add: number_value_def text_value_def power_int_def)
  qed
  moreover have "number_value ''120000'' = 120000"
  proof -
    have "number_digits ''120000'' = (''120000'', 0)" by code_simp
    moreover have "digits_value 0 ''120000'' = 120000" by (simp add: byte_def)
    ultimately show ?thesis by (simp add: number_value_def text_value_def)
  qed
  ultimately show ?thesis by simp
qed

end
