(* ===== verification/Media_Type.thy ===== *)
theory Media_Type
  imports Js_Value
begin

text \<open>
  The media-type grammar of \<open>media.ts\<close>: normalization, parsing of concrete media types and of media
  ranges, with the two parameter grammars (\<open>semanticParameters\<close>), the canonical rendering and the
  identity that declarations are matched by.
\<close>

datatype media_error =
    NotConcrete
  | NotARange
  | UnterminatedQuote
  | InvalidParameter
  | InvalidWhitespace
  | InvalidParameterName
  | DuplicateParameter string
  | InvalidUnquotedValue
  | InvalidQuotedParameter
  | InvalidQuotedPair
  | InvalidQuotedString

section \<open>Classification\<close>

definition normalizeMediaType :: "string \<Rightarrow> string" where
  "normalizeMediaType mt = ascii_lower (js_trim (hd (split_str '';'' mt)))"

definition isMediaRange :: "string \<Rightarrow> bool" where
  "isMediaRange mt \<longleftrightarrow> CHR ''*'' \<in> set mt"

definition isStructuralMediaRange :: "string \<Rightarrow> string \<Rightarrow> bool" where
  "isStructuralMediaRange ty subtype \<longleftrightarrow> subtype = ''*'' \<or> ty = ''*''"

definition isJSONMediaType :: "string \<Rightarrow> bool" where
  "isJSONMediaType mt \<longleftrightarrow> mt = ''application/json'' \<or> ends_with ''+json'' mt"

section \<open>Splitting at semicolons outside quotes\<close>

text \<open>The loop state: the part being read, whether inside quotes, whether after a backslash.\<close>

fun split_media :: "string \<Rightarrow> string \<Rightarrow> bool \<Rightarrow> bool \<Rightarrow> (media_error, string list) res" where
  "split_media [] cur quoted escaped = (if quoted then Inl UnterminatedQuote else Inr [rev cur])"
| "split_media (c # s) cur quoted escaped =
     (if escaped then split_media s (c # cur) quoted False
      else if c = CHR 0x5C \<and> quoted then split_media s (c # cur) quoted True
      else if c = CHR 0x22 then split_media s (c # cur) (\<not> quoted) False
      else if c = CHR '';'' \<and> \<not> quoted then res_map ((#) (rev cur)) (split_media s [] quoted False)
      else split_media s (c # cur) quoted False)"

definition splitMediaType :: "string \<Rightarrow> (media_error, string list) res" where
  "splitMediaType raw = split_media raw [] False False"

section \<open>Parameter values\<close>

text \<open>
  The checks on a quoted string, code unit by code unit: a unit up to U+00FF other than a control,
  the quote and the backslash; a backslash takes the next unit.  In UTF-8 the units U+0080..U+00FF
  are the bytes 0x80..0xC3 of well-formed text.
\<close>

definition qdtext_ok :: "char \<Rightarrow> bool" where
  "qdtext_ok c \<longleftrightarrow> byte c = 9 \<or> byte c = 32 \<or> byte c = 0x21 \<or> (0x23 \<le> byte c \<and> byte c \<le> 0x5B) \<or>
     (0x5D \<le> byte c \<and> byte c \<le> 0x7E) \<or> (0x80 \<le> byte c \<and> byte c \<le> 0xC3)"

definition quoted_pair_ok :: "char \<Rightarrow> bool" where
  "quoted_pair_ok c \<longleftrightarrow> byte c = 9 \<or> byte c = 32 \<or> (0x21 \<le> byte c \<and> byte c \<le> 0x7E) \<or>
     (0x80 \<le> byte c \<and> byte c \<le> 0xC3)"

fun check_quoted :: "string \<Rightarrow> (media_error, unit) res" where
  "check_quoted [] = Inr ()"
| "check_quoted [c] =
     (if c = CHR 0x5C then Inl InvalidQuotedPair
      else if qdtext_ok c then Inr () else Inl InvalidQuotedString)"
| "check_quoted (c # d # s) =
     (if c = CHR 0x5C then (if quoted_pair_ok d then check_quoted s else Inl InvalidQuotedPair)
      else if qdtext_ok c then check_quoted (d # s) else Inl InvalidQuotedString)"

fun unescape_pairs :: "(char \<Rightarrow> bool) \<Rightarrow> string \<Rightarrow> string" where
  "unescape_pairs ok (c # d # s) =
     (if c = CHR 0x5C \<and> ok d then d # unescape_pairs ok s else c # unescape_pairs ok (d # s))"
| "unescape_pairs ok s = s"

definition not_line_terminator :: "char \<Rightarrow> bool" where
  "not_line_terminator c \<longleftrightarrow> byte c \<noteq> 0x0A \<and> byte c \<noteq> 0x0D"

definition unquoteParameter :: "string \<Rightarrow> bool \<Rightarrow> (media_error, string) res" where
  "unquoteParameter v fullQuotedPair =
     (if \<not> starts_with [CHR 0x22] v then
        (if fullQuotedPair \<and> \<not> is_http_token v then Inl InvalidUnquotedValue else Inr v)
      else if \<not> ends_with [CHR 0x22] v \<or> length v < 2 then Inl InvalidQuotedParameter
      else
        (let inner = butlast (tl v) in
         res_bind (if fullQuotedPair then check_quoted inner else Inr ()) (\<lambda>_.
           Inr (unescape_pairs (if fullQuotedPair then not_line_terminator
                                else (\<lambda>c. c = CHR 0x5C \<or> c = CHR 0x22)) inner))))"

definition formatParameter :: "string \<Rightarrow> string" where
  "formatParameter v =
     (if is_http_token v then v
      else [CHR 0x22]
           @ concat (map (\<lambda>c. if c = CHR 0x5C \<or> c = CHR 0x22 then [CHR 0x5C, c] else [c]) v)
           @ [CHR 0x22])"

section \<open>Parsing\<close>

type_synonym media_params = "(string \<times> string) list"

record parsed_media =
  pm_base :: string
  pm_params :: media_params
  pm_rendered :: media_params
  pm_canonical :: string
  pm_identity :: string

text \<open>
  The loop over the parameter parts, shared by \<open>parseMediaType\<close> and \<open>parseMediaRange\<close>; \<open>nested\<close> is
  \<open>normalizeMediaParameterValue\<close>.  With the legacy grammar \<open>params\<close> is an ordinary object, so the
  lower-case names of \<open>Object.prototype\<close> count as present.
\<close>

definition strip_blanks_start :: "string \<Rightarrow> string" where
  "strip_blanks_start s = dropWhile is_blank s"

definition strip_blanks_end :: "string \<Rightarrow> string" where
  "strip_blanks_end s = rev (dropWhile is_blank (rev s))"

definition present_parameter :: "bool \<Rightarrow> media_params \<Rightarrow> string \<Rightarrow> bool" where
  "present_parameter semantic params name \<longleftrightarrow>
     name \<in> fst ` set params \<or> (\<not> semantic \<and> name \<in> set object_prototype_names)"

definition parse_parameter ::
  "(string \<Rightarrow> string \<Rightarrow> string) \<Rightarrow> bool \<Rightarrow> string \<Rightarrow> media_params \<times> media_params \<Rightarrow>
     (media_error, media_params \<times> media_params) res" where
  "parse_parameter nested semantic part st =
     (if semantic \<and> js_trim part = [] then Inr st
      else
        (case index_of CHR ''='' part of
           None \<Rightarrow> Inl InvalidParameter
         | Some 0 \<Rightarrow> Inl InvalidParameter
         | Some (Suc i) \<Rightarrow>
             (let namePart = take (Suc i) part;
                  rawName = (if semantic then strip_blanks_start namePart else trim_start namePart);
                  rawValue = drop (Suc (Suc i)) part;
                  name = ascii_lower (js_trim rawName) in
              if semantic \<and> (rawName \<noteq> trim_end rawName \<or> (rawValue \<noteq> [] \<and> is_blank (hd rawValue)))
              then Inl InvalidWhitespace
              else if semantic \<and> \<not> is_http_token name then Inl InvalidParameterName
              else if present_parameter semantic (fst st) name then Inl (DuplicateParameter name)
              else
                res_bind (unquoteParameter (if semantic then strip_blanks_end rawValue else js_trim rawValue) semantic)
                  (\<lambda>v. Inr ((name, if semantic then nested name v else v) # fst st, (name, v) # snd st)))))"

definition param_value :: "media_params \<Rightarrow> string \<Rightarrow> string" where
  "param_value ps k = (case map_of ps k of None \<Rightarrow> [] | Some v \<Rightarrow> v)"

definition finish_media :: "string \<Rightarrow> media_params \<times> media_params \<Rightarrow> parsed_media" where
  "finish_media base st =
     (let keys = js_sort (map fst (fst st)) in
      \<lparr> pm_base = base, pm_params = fst st, pm_rendered = snd st,
        pm_canonical =
          base @ concat (map (\<lambda>key. ''; '' @ key @ ''='' @ formatParameter (param_value (snd st) key)) keys),
        pm_identity =
          join [CHR 0x00] (base # map (\<lambda>key. key @ ''='' @ param_value (fst st) key) keys) \<rparr>)"

definition valid_media_base :: "bool \<Rightarrow> string \<Rightarrow> bool" where
  "valid_media_base semantic base \<longleftrightarrow>
     (if semantic then
        (case split_str ''/'' base of
           [ty, subtype] \<Rightarrow>
             is_http_token ty \<and> is_http_token subtype \<and> \<not> isStructuralMediaRange ty subtype
         | _ \<Rightarrow> False)
      else base \<noteq> [] \<and> CHR ''/'' \<in> set base \<and> \<not> isMediaRange base)"

definition normalize_with ::
  "(string \<Rightarrow> (media_error, parsed_media) res) \<Rightarrow> string \<Rightarrow> string \<Rightarrow> string" where
  "normalize_with parse name v =
     (if name = ''charset'' then ascii_lower v
      else if name = ''type'' then (case parse v of Inr p \<Rightarrow> pm_identity p | Inl _ \<Rightarrow> v)
      else v)"

text \<open>
  A \<open>type\<close> parameter is compared by the identity of the media type it names, parsed recursively.
  The first argument bounds the nesting: a parameter value is shorter than the text it is read
  from, so the length of the text is enough (\<open>parse_media_enough\<close>).
\<close>

fun parse_media :: "nat \<Rightarrow> string \<Rightarrow> bool \<Rightarrow> (media_error, parsed_media) res" where
  "parse_media 0 raw semantic = Inl NotConcrete"
| "parse_media (Suc n) raw semantic =
     res_bind (splitMediaType raw) (\<lambda>parts.
       let base = ascii_lower (js_trim (hd parts)) in
       if \<not> valid_media_base semantic base then Inl NotConcrete
       else
         res_map (finish_media base)
           (each_res
              (parse_parameter (normalize_with (\<lambda>v. parse_media n v True)) semantic)
              (tl parts) ([], [])))"

declare parse_media.simps(2) [simp del]

definition parseMediaType :: "string \<Rightarrow> bool \<Rightarrow> (media_error, parsed_media) res" where
  "parseMediaType raw semantic = parse_media (Suc (length raw)) raw semantic"

definition normalizeMediaParameterValue :: "string \<Rightarrow> string \<Rightarrow> string" where
  "normalizeMediaParameterValue name v =
     normalize_with (\<lambda>w. parseMediaType w True) name v"

definition valid_range_base :: "bool \<Rightarrow> string \<Rightarrow> bool" where
  "valid_range_base semantic base \<longleftrightarrow>
     (if semantic then
        (case split_str ''/'' base of
           [rangeType, rangeSubtype] \<Rightarrow>
             rangeSubtype = ''*'' \<and> is_http_token rangeType \<and> (rangeType \<noteq> ''*'' \<or> base = ''*/*'')
         | _ \<Rightarrow> False)
      else base = ''*/*'' \<or>
        (let ty = butlast (butlast base) in
         ends_with ''/*'' base \<and> ty \<noteq> [] \<and> CHR ''*'' \<notin> set ty \<and> CHR ''/'' \<notin> set ty \<and>
         list_all (\<lambda>u. length (split_str u ty) = 1) js_spaces))"

definition parseMediaRange :: "string \<Rightarrow> bool \<Rightarrow> (media_error, parsed_media \<times> nat) res" where
  "parseMediaRange raw semantic =
     res_bind (splitMediaType raw) (\<lambda>parts.
       let base = ascii_lower (js_trim (hd parts)) in
       if \<not> valid_range_base semantic base then Inl NotARange
       else
         res_map (\<lambda>st. (finish_media base st, if base = ''*/*'' then 0 else 1))
           (each_res (parse_parameter normalizeMediaParameterValue semantic) (tl parts) ([], [])))"

section \<open>The nesting bound is enough\<close>

lemma unescape_pairs_length: "length (unescape_pairs ok s) \<le> length s"
  by (induction ok s rule: unescape_pairs.induct) auto

lemma unquoteParameter_length: "unquoteParameter v full = Inr w \<Longrightarrow> length w \<le> length v"
  using unescape_pairs_length [of _ "butlast (tl v)"]
  by (auto simp: unquoteParameter_def Let_def js_result split: if_splits
      intro: order_trans [OF _ diff_le_self])

lemma split_media_part_length:
  "split_media s cur quoted escaped = Inr parts \<Longrightarrow> p \<in> set parts \<Longrightarrow> length p \<le> length s + length cur"
proof (induction s cur quoted escaped arbitrary: parts rule: split_media.induct)
  case (2 c s cur quoted escaped)
  then show ?case by (force simp: js_result split: if_splits)
qed (auto split: if_splits)

lemma splitMediaType_part_length: "splitMediaType raw = Inr parts \<Longrightarrow> p \<in> set parts \<Longrightarrow> length p \<le> length raw"
  using split_media_part_length [of raw "[]" False False parts p] by (simp add: splitMediaType_def)

lemma splitMediaType_nonempty: "splitMediaType raw = Inr parts \<Longrightarrow> parts \<noteq> []"
proof -
  have "split_media s cur q e = Inr ps \<Longrightarrow> ps \<noteq> []" for s cur q e ps
    by (induction s cur q e arbitrary: ps rule: split_media.induct) (auto simp: js_result split: if_splits)
  then show "splitMediaType raw = Inr parts \<Longrightarrow> parts \<noteq> []" by (simp add: splitMediaType_def)
qed

lemma strip_blanks_end_length: "length (strip_blanks_end s) \<le> length s"
  using length_dropWhile_le [of is_blank "rev s"] by (simp add: strip_blanks_end_def)

lemma parse_parameter_cong:
  assumes "\<And>name v. length v < length part \<Longrightarrow> f name v = g name v"
  shows "parse_parameter f semantic part st = parse_parameter g semantic part st"
proof (cases "index_of CHR ''='' part")
  case None
  then show ?thesis by (simp add: parse_parameter_def)
next
  case (Some i)
  then have i: "i < length part" by (simp add: index_of_Some)
  let ?raw = "if semantic then strip_blanks_end (drop (Suc i) part) else js_trim (drop (Suc i) part)"
  have "res_bind (unquoteParameter ?raw semantic)
          (\<lambda>v. Inr ((name, if semantic then f name v else v) # fst st, (name, v) # snd st)) =
        res_bind (unquoteParameter ?raw semantic)
          (\<lambda>v. Inr ((name, if semantic then g name v else v) # fst st, (name, v) # snd st))" for name
  proof (rule res_bind_cong)
    fix w
    assume "unquoteParameter ?raw semantic = Inr w"
    then have "length w \<le> length ?raw" by (rule unquoteParameter_length)
    also have "\<dots> \<le> length (drop (Suc i) part)"
      using strip_blanks_end_length [of "drop (Suc i) part"] trim_lengths(3) [of "drop (Suc i) part"]
      by simp
    finally have "length w < length part" using i by simp
    then show "(Inr ((name, if semantic then f name w else w) # fst st, (name, w) # snd st) :: (media_error, _) res) =
        Inr ((name, if semantic then g name w else w) # fst st, (name, w) # snd st)"
      by (simp add: assms)
  qed simp
  then show ?thesis
    by (cases i) (simp_all only: parse_parameter_def Some option.case nat.case Let_def)
qed

lemma parse_media_enough: "length raw < n \<Longrightarrow> parse_media n raw semantic = parseMediaType raw semantic"
proof (induction n arbitrary: raw semantic rule: less_induct)
  case (less n)
  obtain m where m: "n = Suc m" "length raw \<le> m" using less.prems by (cases n) auto
  show ?case
  proof (cases "splitMediaType raw")
    case (Inl e)
    with m show ?thesis by (simp add: parseMediaType_def parse_media.simps(2))
  next
    case (Inr parts)
    have nested: "parse_media m v True = parse_media (length raw) v True" if "length v < length raw" for v
      using less.IH [of m v] less.IH [of "length raw" v] that m by simp
    have "parse_parameter (normalize_with (\<lambda>v. parse_media m v True)) semantic p st =
          parse_parameter (normalize_with (\<lambda>v. parse_media (length raw) v True)) semantic p st"
      if p: "p \<in> set (tl parts)" for p st
    proof (rule parse_parameter_cong)
      fix name v :: string
      assume "length v < length p"
      moreover have "length p \<le> length raw"
        using splitMediaType_part_length [OF Inr] splitMediaType_nonempty [OF Inr] p
        by (auto dest: list.set_sel(2))
      ultimately have "length v < length raw" by simp
      then show "normalize_with (\<lambda>v. parse_media m v True) name v =
          normalize_with (\<lambda>v. parse_media (length raw) v True) name v"
        by (simp add: normalize_with_def nested)
    qed
    then have "each_res (parse_parameter (normalize_with (\<lambda>v. parse_media m v True)) semantic) (tl parts) ([], []) =
        each_res (parse_parameter (normalize_with (\<lambda>v. parse_media (length raw) v True)) semantic) (tl parts) ([], [])"
      by (intro each_res_cong) auto
    then show ?thesis
      using m Inr by (simp add: parseMediaType_def parse_media.simps(2) Let_def)
  qed
qed

text \<open>So the definition satisfies the recursion of the source.\<close>

lemma parseMediaType_unfold:
  "parseMediaType raw semantic =
     res_bind (splitMediaType raw) (\<lambda>parts.
       let base = ascii_lower (js_trim (hd parts)) in
       if \<not> valid_media_base semantic base then Inl NotConcrete
       else
         res_map (finish_media base)
           (each_res (parse_parameter normalizeMediaParameterValue semantic) (tl parts) ([], [])))"
proof -
  have "parseMediaType raw semantic = parse_media (Suc (Suc (length raw))) raw semantic"
    by (rule parse_media_enough [symmetric]) simp
  moreover have "each_res (parse_parameter (normalize_with (\<lambda>v. parse_media (Suc (length raw)) v True)) semantic) (tl parts) ([], []) =
        each_res (parse_parameter normalizeMediaParameterValue semantic) (tl parts) ([], [])"
    if "splitMediaType raw = Inr parts" for parts
  proof (intro each_res_cong refl parse_parameter_cong)
    fix p name v :: string
    assume "p \<in> set (tl parts)" and "length v < length p"
    then have "length v < Suc (length raw)"
      using splitMediaType_part_length [OF that, of p] splitMediaType_nonempty [OF that]
      by (auto dest: list.set_sel(2))
    then show "normalize_with (\<lambda>v. parse_media (Suc (length raw)) v True) name v = normalizeMediaParameterValue name v"
      by (simp add: normalizeMediaParameterValue_def normalize_with_def parse_media_enough)
  qed
  ultimately show ?thesis
    by (cases "splitMediaType raw") (simp_all add: Let_def parse_media.simps(2) [of "Suc (length raw)"])
qed

end
