(* ===== verification/Base64.thy ===== *)
theory Base64
  imports Js_Base
begin

text \<open>
  The platform's \<open>btoa\<close> on octets (RFC 4648, with padding) and the reading of what it writes.  The
  credentials of \<open>security-wire.ts\<close> go through it.
\<close>

definition base64_alphabet :: string where
  "base64_alphabet = ''ABCDEFGHIJKLMNOPQRSTUVWXYZabcdefghijklmnopqrstuvwxyz0123456789+/''"

definition sextet :: "nat \<Rightarrow> char" where
  "sextet n = base64_alphabet ! n"

fun btoa :: "string \<Rightarrow> string" where
  "btoa (a # b # c # s) =
     sextet (byte a div 4) # sextet (byte a mod 4 * 16 + byte b div 16)
     # sextet (byte b mod 16 * 4 + byte c div 64) # sextet (byte c mod 64) # btoa s"
| "btoa [a, b] =
     [sextet (byte a div 4), sextet (byte a mod 4 * 16 + byte b div 16), sextet (byte b mod 16 * 4), CHR ''='']"
| "btoa [a] = [sextet (byte a div 4), sextet (byte a mod 4 * 16), CHR ''='', CHR ''='']"
| "btoa [] = []"

definition sextet_value :: "char \<Rightarrow> nat option" where
  "sextet_value c =
     (if is_upper c then Some (byte c - 0x41)
      else if is_lower c then Some (byte c - 0x61 + 26)
      else if is_digit c then Some (byte c - 0x30 + 52)
      else if c = CHR ''+'' then Some 62
      else if c = CHR ''/'' then Some 63
      else None)"

fun atob :: "string \<Rightarrow> string option" where
  "atob [] = Some []"
| "atob (w # x # y # z # s) =
     (case (sextet_value w, sextet_value x) of
        (Some p, Some q) \<Rightarrow>
          if y = CHR ''='' \<and> z = CHR ''='' \<and> s = [] then
            (if q mod 16 = 0 then Some [char_of (p * 4 + q div 16)] else None)
          else
            (case sextet_value y of
               None \<Rightarrow> None
             | Some r \<Rightarrow>
                 if z = CHR ''='' \<and> s = [] then
                   (if r mod 4 = 0
                    then Some [char_of (p * 4 + q div 16), char_of (q mod 16 * 16 + r div 4)] else None)
                 else
                   (case sextet_value z of
                      None \<Rightarrow> None
                    | Some t \<Rightarrow>
                        map_option (\<lambda>u. char_of (p * 4 + q div 16) # char_of (q mod 16 * 16 + r div 4)
                                          # char_of (r mod 4 * 64 + t) # u) (atob s)))
      | _ \<Rightarrow> None)"
| "atob _ = None"

lemma sextets_ok:
  "\<forall>n\<in>set [0..<64]. sextet_value (sextet n) = Some n \<and> is_ascii (sextet n) \<and>
     (is_alnum (sextet n) \<or> sextet n \<in> set ''+/'')"
  by code_simp

lemma sextet_value_sextet [simp]: "n < 64 \<Longrightarrow> sextet_value (sextet n) = Some n"
  using sextets_ok by simp

lemma sextet_class: "n < 64 \<Longrightarrow> is_alnum (sextet n) \<or> sextet n \<in> set ''+/''"
  using sextets_ok by simp

lemma sextet_not_padding [simp]: "n < 64 \<Longrightarrow> sextet n \<noteq> CHR ''=''"
  using sextet_class [of n] by (auto simp: char_class_defs)

lemma byte_parts: "byte b div 16 < 16" "byte b div 64 < 4" "byte b div 4 < 64"
proof -
  have "byte b < 16 * 16" "byte b < 4 * 64" "byte b < 64 * 4" using byte_lt [of b] by simp_all
  then show "byte b div 16 < 16" "byte b div 64 < 4" "byte b div 4 < 64"
    by (simp_all add: div_less_iff_less_mult)
qed

lemma sextet_bounds [simp]:
  "byte a div 4 < 64" "byte a mod 4 * 16 + byte b div 16 < 64" "byte b mod 16 * 4 + byte c div 64 < 64"
  "byte c mod 64 < 64" "byte a mod 4 * 16 < 64" "byte b mod 16 * 4 < 64"
proof -
  have m: "byte a mod 4 < 4" "byte b mod 16 < 16" by simp_all
  show "byte a div 4 < 64" by (rule byte_parts)
  show "byte a mod 4 * 16 + byte b div 16 < 64" using m(1) byte_parts(1) [of b] by linarith
  show "byte b mod 16 * 4 + byte c div 64 < 64" using m(2) byte_parts(2) [of c] by linarith
  show "byte c mod 64 < 64" by simp
  show "byte a mod 4 * 16 < 64" using m(1) by linarith
  show "byte b mod 16 * 4 < 64" using m(2) by linarith
qed

lemma pack_parts: "e < k \<Longrightarrow> (m * k + e) div k = (m :: nat)" "e < k \<Longrightarrow> (m * k + e) mod k = (e :: nat)"
  by simp_all

lemma sextets_to_bytes:
  "char_of (byte a div 4 * 4 + (byte a mod 4 * 16 + byte b div 16) div 16) = a"
  "char_of ((byte a mod 4 * 16 + byte b div 16) mod 16 * 16 + (byte b mod 16 * 4 + byte c div 64) div 4) = b"
  "char_of ((byte b mod 16 * 4 + byte c div 64) mod 4 * 64 + byte c mod 64) = c"
proof -
  have "byte b div 16 < 16" "byte c div 64 < 4" by (rule byte_parts)+
  then have "byte a div 4 * 4 + (byte a mod 4 * 16 + byte b div 16) div 16 = byte a"
    "(byte a mod 4 * 16 + byte b div 16) mod 16 * 16 + (byte b mod 16 * 4 + byte c div 64) div 4 = byte b"
    "(byte b mod 16 * 4 + byte c div 64) mod 4 * 64 + byte c mod 64 = byte c"
    by (simp_all add: pack_parts)
  then show "char_of (byte a div 4 * 4 + (byte a mod 4 * 16 + byte b div 16) div 16) = a"
    "char_of ((byte a mod 4 * 16 + byte b div 16) mod 16 * 16 + (byte b mod 16 * 4 + byte c div 64) div 4) = b"
    "char_of ((byte b mod 16 * 4 + byte c div 64) mod 4 * 64 + byte c mod 64) = c"
    by (simp_all only: char_of_byte)
qed

lemma byte_zero: "byte CHR 0x00 = 0"
  by (simp add: byte_def)

lemma atob_btoa: "atob (btoa s) = Some s"
proof (induction s rule: btoa.induct)
  case (1 a b c s)
  then show ?case
    using sextets_to_bytes(1) [of a b] sextets_to_bytes(2) [where a = a and b = b and c = c]
      sextets_to_bytes(3) [of b c] by (simp del: char_of_eq_iff)
next
  case (2 a b)
  have "byte b mod 16 * 4 mod 4 = 0" by simp
  with sextets_to_bytes(1) [of a b] sextets_to_bytes(2) [where a = a and b = b and c = "CHR 0x00"] show ?case by (simp add: byte_zero)
next
  case (3 a)
  have "byte a mod 4 * 16 mod 16 = 0" by simp
  with sextets_to_bytes(1) [where a = a and b = "CHR 0x00"] show ?case by (simp add: byte_zero)
qed simp

lemma btoa_chars: "c \<in> set (btoa s) \<Longrightarrow> is_alnum c \<or> c \<in> set ''+/=''"
proof (induction s rule: btoa.induct)
  case (1 a b d s)
  then show ?case using sextet_class [of "byte a div 4"] sextet_class [of "byte a mod 4 * 16 + byte b div 16"]
      sextet_class [of "byte b mod 16 * 4 + byte d div 64"] sextet_class [of "byte d mod 64"] by auto
next
  case (2 a b)
  then show ?case using sextet_class [of "byte a div 4"] sextet_class [of "byte a mod 4 * 16 + byte b div 16"]
      sextet_class [of "byte b mod 16 * 4"] by auto
next
  case (3 a)
  then show ?case using sextet_class [of "byte a div 4"] sextet_class [of "byte a mod 4 * 16"] by auto
qed simp

end
