(* ===== verification/Param_Values.thy ===== *)
theory Param_Values
  imports Js_Value Uri_Escape
begin

text \<open>
  Value shaping and the style/explode expansions of \<open>params.ts\<close>: how one parameter value becomes
  the text of a path segment, a header, query units, multipart parts or cookie units.  The
  parameter \<open>sj\<close> is the JSON serializer of \<open>@openbindings/json\<close>.
\<close>

section \<open>Errors\<close>

text \<open>One constructor per \<open>throw\<close> of the source, with what its message names.\<close>

datatype param_error =
    NotPrimitive
  | NoJSONValue
  | ArrayElement nat param_error
  | ObjectMember string param_error
  | UndefinedStyle string string
  | StyleNeedsNoExplode string
  | StyleNeedsArray string
  | DeepObjectNeedsExplode
  | DeepObjectNeedsObject
  | DelimitedPrimitive

section \<open>Value shaping\<close>

fun primitiveString :: "json_stringify \<Rightarrow> jsval \<Rightarrow> (param_error, string) res" where
  "primitiveString sj JNull = Inr []"
| "primitiveString sj JUndefined = Inr []"
| "primitiveString sj (JStr s) = Inr s"
| "primitiveString sj (JBool b) = Inr (if b then ''true'' else ''false'')"
| "primitiveString sj (JNum t) = (case sj (JNum t) of None \<Rightarrow> Inl NoJSONValue | Some s \<Rightarrow> Inr s)"
| "primitiveString sj (JNonFinite t) =
     (case sj (JNonFinite t) of None \<Rightarrow> Inl NoJSONValue | Some s \<Rightarrow> Inr s)"
| "primitiveString sj _ = Inl NotPrimitive"

definition arrayStrings :: "json_stringify \<Rightarrow> jsval list \<Rightarrow> (param_error, string list) res" where
  "arrayStrings sj arr = imap_res (\<lambda>i e. res_err (ArrayElement i) (primitiveString sj e)) 0 arr"

definition objectPairs :: "json_stringify \<Rightarrow> js_members \<Rightarrow> (param_error, (string \<times> string) list) res" where
  "objectPairs sj obj =
     map_res (\<lambda>k. res_err (ObjectMember k) (res_map (Pair k) (primitiveString sj (member_of obj k))))
       (js_sort (member_keys obj))"

definition flattenPairs :: "(string \<times> string) list \<Rightarrow> string list" where
  "flattenPairs pairs = concat (map (\<lambda>(k, v). [k, v]) pairs)"

definition joinEscaped :: "string list \<Rightarrow> string \<Rightarrow> (string \<Rightarrow> string) \<Rightarrow> string" where
  "joinEscaped parts sep esc = join sep (map esc parts)"

definition joinPairs ::
  "(string \<times> string) list \<Rightarrow> string \<Rightarrow> string \<Rightarrow> (string \<Rightarrow> string) \<Rightarrow> string" where
  "joinPairs pairs kvSep pairSep esc = join pairSep (map (\<lambda>(k, v). esc k @ kvSep @ esc v) pairs)"

section \<open>Expansions\<close>

definition expandSimple ::
  "json_stringify \<Rightarrow> jsval \<Rightarrow> bool \<Rightarrow> (string \<Rightarrow> string) \<Rightarrow> (param_error, string) res" where
  "expandSimple sj v explode esc =
     (case as_array v of
        Some arr \<Rightarrow> res_map (\<lambda>ps. joinEscaped ps '','' esc) (arrayStrings sj arr)
      | None \<Rightarrow>
          (case as_object v of
             Some obj \<Rightarrow>
               res_map (\<lambda>pairs. if explode then joinPairs pairs ''='' '','' esc
                                else joinEscaped (flattenPairs pairs) '','' esc)
                 (objectPairs sj obj)
           | None \<Rightarrow> res_map esc (primitiveString sj v)))"

definition expandLabel ::
  "json_stringify \<Rightarrow> jsval \<Rightarrow> bool \<Rightarrow> (string \<Rightarrow> string) \<Rightarrow> (param_error, string) res" where
  "expandLabel sj v explode esc =
     (case as_array v of
        Some arr \<Rightarrow>
          res_map (\<lambda>ps. ''.'' @ joinEscaped ps (if explode then ''.'' else '','') esc) (arrayStrings sj arr)
      | None \<Rightarrow>
          (case as_object v of
             Some obj \<Rightarrow>
               res_map (\<lambda>pairs. if explode then ''.'' @ joinPairs pairs ''='' ''.'' esc
                                else ''.'' @ joinEscaped (flattenPairs pairs) '','' esc)
                 (objectPairs sj obj)
           | None \<Rightarrow> res_map (\<lambda>s. ''.'' @ esc s) (primitiveString sj v)))"

definition expandMatrix ::
  "json_stringify \<Rightarrow> string \<Rightarrow> jsval \<Rightarrow> bool \<Rightarrow> (string \<Rightarrow> string) \<Rightarrow> (param_error, string) res" where
  "expandMatrix sj name v explode esc =
     (let n = esc name in
      case as_array v of
        Some arr \<Rightarrow>
          res_map (\<lambda>parts. if explode then concat (map (\<lambda>p. '';'' @ n @ ''='' @ esc p) parts)
                           else '';'' @ n @ ''='' @ joinEscaped parts '','' esc)
            (arrayStrings sj arr)
      | None \<Rightarrow>
          (case as_object v of
             Some obj \<Rightarrow>
               res_map (\<lambda>pairs. if explode then concat (map (\<lambda>(k, w). '';'' @ esc k @ ''='' @ esc w) pairs)
                                else '';'' @ n @ ''='' @ joinEscaped (flattenPairs pairs) '','' esc)
                 (objectPairs sj obj)
           | None \<Rightarrow>
               res_map (\<lambda>s. if s = [] then '';'' @ n else '';'' @ n @ ''='' @ esc s)
                 (primitiveString sj v)))"

definition expandFormPairs ::
  "json_stringify \<Rightarrow> string \<Rightarrow> jsval \<Rightarrow> bool \<Rightarrow> (string \<Rightarrow> string) \<Rightarrow> (param_error, string list) res" where
  "expandFormPairs sj name v explode esc =
     (case as_array v of
        Some arr \<Rightarrow>
          res_map (\<lambda>parts.
              if explode then
                (if parts = [] then [name @ ''=''] else map (\<lambda>p. name @ ''='' @ esc p) parts)
              else [name @ ''='' @ joinEscaped parts '','' esc])
            (arrayStrings sj arr)
      | None \<Rightarrow>
          (case as_object v of
             Some obj \<Rightarrow>
               res_map (\<lambda>pairs.
                   if explode then
                     (if pairs = [] then [name @ ''='']
                      else map (\<lambda>(k, w). esc k @ ''='' @ esc w) pairs)
                   else [name @ ''='' @ joinEscaped (flattenPairs pairs) '','' esc])
                 (objectPairs sj obj)
           | None \<Rightarrow> res_map (\<lambda>s. [name @ ''='' @ esc s]) (primitiveString sj v)))"

definition expandDelimited ::
  "json_stringify \<Rightarrow> string \<Rightarrow> jsval \<Rightarrow> bool \<Rightarrow> string \<Rightarrow> (string \<Rightarrow> string) \<Rightarrow>
     (param_error, string list) res" where
  "expandDelimited sj name v explode delim esc =
     (if explode then
        (if as_array v = None \<and> as_object v = None then Inl DelimitedPrimitive
         else expandFormPairs sj name v True esc)
      else
        (case as_array v of
           Some arr \<Rightarrow> res_map (\<lambda>ps. [name @ ''='' @ joinEscaped ps delim esc]) (arrayStrings sj arr)
         | None \<Rightarrow>
             (case as_object v of
                Some obj \<Rightarrow>
                  res_map (\<lambda>pairs. [name @ ''='' @ joinEscaped (flattenPairs pairs) delim esc])
                    (objectPairs sj obj)
              | None \<Rightarrow> Inl DelimitedPrimitive)))"

section \<open>Serializers per location\<close>

definition serializePathValue ::
  "json_stringify \<Rightarrow> string \<Rightarrow> jsval \<Rightarrow> string \<Rightarrow> bool \<Rightarrow> bool \<Rightarrow> (param_error, string) res" where
  "serializePathValue sj name v style explode revision3 =
     (let escape = (\<lambda>s. encodePathValue s revision3) in
      if style = ''simple'' then expandSimple sj v explode escape
      else if style = ''label'' then expandLabel sj v explode escape
      else if style = ''matrix'' then expandMatrix sj name v explode escape
      else Inl (UndefinedStyle ''path'' style))"

text \<open>
  A header string of the platform carries one octet per code unit, so the UTF-8 octets of a
  non-ASCII value are carried as the characters U+0000..U+00FF with the same numbers.
\<close>

definition latin1_char :: "char \<Rightarrow> string" where
  "latin1_char c =
     (if byte c < 0x80 then [c]
      else if byte c < 0xC0 then [char_of (0xC2 :: nat), c]
      else [char_of (0xC3 :: nat), char_of (byte c - 0x40)])"

definition bytesAsLatin1 :: "string \<Rightarrow> string" where
  "bytesAsLatin1 bytes = concat (map latin1_char bytes)"

definition headerFieldOctets :: "string \<Rightarrow> string" where
  "headerFieldOctets s = (if list_all is_ascii s then s else bytesAsLatin1 s)"

definition serializeHeaderValue ::
  "json_stringify \<Rightarrow> jsval \<Rightarrow> string \<Rightarrow> bool \<Rightarrow> (param_error, string) res" where
  "serializeHeaderValue sj v style explode =
     (if style \<noteq> ''simple'' then Inl (UndefinedStyle ''header'' style)
      else res_map headerFieldOctets (expandSimple sj v explode (\<lambda>s. s)))"

definition serializeQueryValue ::
  "json_stringify \<Rightarrow> string \<Rightarrow> jsval \<Rightarrow> string \<Rightarrow> bool \<Rightarrow> bool \<Rightarrow> bool \<Rightarrow> bool \<Rightarrow> bool \<Rightarrow>
     (param_error, string list) res" where
  "serializeQueryValue sj name v style explode allowReserved revision3 formBody encodeStyleDelimiters =
     (let n = queryEscape name False revision3 formBody;
          esc = (\<lambda>s. queryEscape s allowReserved revision3 formBody) in
      if style = ''form'' then expandFormPairs sj n v explode esc
      else if style = ''spaceDelimited'' then
        (if explode then Inl (StyleNeedsNoExplode style)
         else if as_array v = None then Inl (StyleNeedsArray style)
         else expandDelimited sj n v False ''%20'' esc)
      else if style = ''pipeDelimited'' then
        (if explode then Inl (StyleNeedsNoExplode style)
         else if as_array v = None then Inl (StyleNeedsArray style)
         else expandDelimited sj n v False (if encodeStyleDelimiters then ''%7C'' else ''|'') esc)
      else if style = ''deepObject'' then
        (if \<not> explode then Inl DeepObjectNeedsExplode
         else
           (case as_object v of
              None \<Rightarrow> Inl DeepObjectNeedsObject
            | Some obj \<Rightarrow>
                let leftBracket = (if encodeStyleDelimiters then ''%5B'' else ''['');
                    rightBracket = (if encodeStyleDelimiters then ''%5D'' else '']'') in
                res_map (map (\<lambda>(k, w).
                    n @ leftBracket @ queryEscape k False revision3 formBody @ rightBracket @ ''='' @ esc w))
                  (objectPairs sj obj)))
      else Inl (UndefinedStyle ''query'' style))"

definition serializeMultipartValue ::
  "json_stringify \<Rightarrow> string \<Rightarrow> jsval \<Rightarrow> string \<Rightarrow> bool \<Rightarrow> (param_error, (string \<times> string) list) res" where
  "serializeMultipartValue sj name v style explode =
     (if style = ''form'' then
        (case as_array v of
           Some arr \<Rightarrow>
             res_map (\<lambda>values. if explode then map (Pair name) values else [(name, join '','' values)])
               (arrayStrings sj arr)
         | None \<Rightarrow>
             (case as_object v of
                Some obj \<Rightarrow>
                  res_map (\<lambda>pairs. if explode then pairs else [(name, join '','' (flattenPairs pairs))])
                    (objectPairs sj obj)
              | None \<Rightarrow> res_map (\<lambda>s. [(name, s)]) (primitiveString sj v)))
      else if style = ''spaceDelimited'' \<or> style = ''pipeDelimited'' then
        (if explode then Inl (StyleNeedsNoExplode style)
         else
           (case as_array v of
              None \<Rightarrow> Inl (StyleNeedsArray style)
            | Some arr \<Rightarrow>
                res_map (\<lambda>values. [(name, join (if style = ''spaceDelimited'' then '' '' else ''|'') values)])
                  (arrayStrings sj arr)))
      else if style = ''deepObject'' then
        (if \<not> explode then Inl DeepObjectNeedsExplode
         else
           (case as_object v of
              None \<Rightarrow> Inl DeepObjectNeedsObject
            | Some obj \<Rightarrow>
                res_map (map (\<lambda>(key, w). (name @ ''['' @ key @ '']'', w))) (objectPairs sj obj)))
      else Inl (UndefinedStyle ''multipart'' style))"

definition cookie_escape :: "string \<Rightarrow> string" where
  "cookie_escape raw = queryEscape raw False True False"

definition serializeCookieValue ::
  "json_stringify \<Rightarrow> string \<Rightarrow> jsval \<Rightarrow> string \<Rightarrow> bool \<Rightarrow> (string \<Rightarrow> string) \<Rightarrow>
     (param_error, string list) res" where
  "serializeCookieValue sj name v style explode escape =
     (if style \<noteq> ''form'' then Inl (UndefinedStyle ''cookie'' style)
      else expandFormPairs sj name v explode escape)"

section \<open>Shape of the results\<close>

lemma arrayStrings_length: "arrayStrings sj arr = Inr parts \<Longrightarrow> length parts = length arr"
proof -
  have "imap_res f i xs = Inr ys \<Longrightarrow> length ys = length xs" for f :: "nat \<Rightarrow> jsval \<Rightarrow> _" and i xs and ys :: "string list"
    by (induction xs arbitrary: i ys) (auto simp: js_result)
  then show "arrayStrings sj arr = Inr parts \<Longrightarrow> length parts = length arr"
    by (simp add: arrayStrings_def)
qed

lemma arrayStrings_iff:
  "arrayStrings sj arr = Inr parts \<longleftrightarrow> list_all2 (\<lambda>e p. primitiveString sj e = Inr p) arr parts"
  unfolding arrayStrings_def
  by (subst imap_res_eq_map_res [where g = "primitiveString sj"]) (auto simp: js_result)

text \<open>The members are expanded in an order that does not depend on the object's own.\<close>

lemma objectPairs_cong:
  assumes "map_of m1 = map_of m2" and "mset (member_keys m1) = mset (member_keys m2)"
  shows "objectPairs sj m1 = objectPairs sj m2"
proof -
  have "js_sort (member_keys m1) = js_sort (member_keys m2)"
    unfolding js_sort_def
  proof (rule properties_for_sort_key)
    show "mset (sort_key utf16_key (member_keys m2)) = mset (member_keys m1)"
      using assms(2) by simp
    show "sorted (map utf16_key (sort_key utf16_key (member_keys m2)))" by simp
    fix k
    assume "k \<in> set (sort_key utf16_key (member_keys m2))"
    have only: "filter (\<lambda>x. utf16_key k = utf16_key x) xs = replicate (count (mset xs) k) k" for xs
      using inj_utf16_key by (induction xs) (auto dest: injD)
    show "filter (\<lambda>x. utf16_key k = utf16_key x) (sort_key utf16_key (member_keys m2)) =
          filter (\<lambda>x. utf16_key k = utf16_key x) (member_keys m1)"
      using assms(2) by (simp only: only mset_sort)
  qed
  with assms(1) show ?thesis by (simp add: objectPairs_def member_of_def)
qed

lemma objectPairs_keys:
  "objectPairs sj obj = Inr pairs \<Longrightarrow> map fst pairs = js_sort (member_keys obj)"
proof -
  have "list_all2 (\<lambda>k p. res_err (ObjectMember k) (res_map (Pair k) (f k)) = Inr p) ks ps \<Longrightarrow>
      map fst ps = ks" for f :: "string \<Rightarrow> (param_error, string) res" and ks ps
    by (induction rule: list_all2_induct) (auto simp: js_result)
  then show "objectPairs sj obj = Inr pairs \<Longrightarrow> map fst pairs = js_sort (member_keys obj)"
    by (auto simp: objectPairs_def js_result)
qed

section \<open>What a component escaper gives the expansions\<close>

text \<open>Reading a serialized unit back: the name up to the first equals sign, the value after it.\<close>

definition read_unit :: "string \<Rightarrow> (string \<times> string) option" where
  "read_unit u =
     (case index_of CHR ''='' u of
        None \<Rightarrow> None
      | Some i \<Rightarrow>
          (case (decodeURIComponent (take i u), decodeURIComponent (drop (Suc i) u)) of
             (Some n, Some v) \<Rightarrow> Some (n, v)
           | _ \<Rightarrow> None))"

lemma read_unit_eq:
  "CHR ''='' \<notin> set a \<Longrightarrow> decodeURIComponent a = Some n \<Longrightarrow> decodeURIComponent b = Some v \<Longrightarrow>
     read_unit (a @ ''='' @ b) = Some (n, v)"
  by (simp add: read_unit_def index_of_append)

lemma set_joinEscaped: "set (joinEscaped ps sep esc) \<subseteq> set sep \<union> (\<Union>p\<in>set ps. set (esc p))"
  using set_join [of sep "map esc ps"] by (auto simp: joinEscaped_def)

lemma set_joinPairs:
  "set (joinPairs ps kv sep esc) \<subseteq> set sep \<union> set kv \<union> (\<Union>(k, v)\<in>set ps. set (esc k) \<union> set (esc v))"
  using set_join [of sep "map (\<lambda>(k, v). esc k @ kv @ esc v) ps"] by (auto simp: joinPairs_def)

context component_escaper
begin

definition drawn_from :: "string \<Rightarrow> string \<Rightarrow> bool" where
  "drawn_from extra s \<longleftrightarrow> (\<forall>c\<in>set s. safe c \<or> c = CHR ''%'' \<or> c \<in> set extra)"

lemma drawn_from_simps [simp]:
  "drawn_from extra []"
  "drawn_from extra (c # s) \<longleftrightarrow> (safe c \<or> c = CHR ''%'' \<or> c \<in> set extra) \<and> drawn_from extra s"
  "drawn_from extra (s @ t) \<longleftrightarrow> drawn_from extra s \<and> drawn_from extra t"
  "drawn_from extra (concat ss) \<longleftrightarrow> (\<forall>s\<in>set ss. drawn_from extra s)"
  by (auto simp: drawn_from_def)

lemma drawn_from_mono: "drawn_from a s \<Longrightarrow> set a \<subseteq> set b \<Longrightarrow> drawn_from b s"
  by (auto simp: drawn_from_def)

lemma drawn_from_esc [simp]: "drawn_from extra (esc s)"
  using esc_chars by (auto simp: drawn_from_def)

lemma drawn_from_joinEscaped [simp]: "set sep \<subseteq> set extra \<Longrightarrow> drawn_from extra (joinEscaped ps sep esc)"
  using set_joinEscaped [of ps sep esc] esc_chars by (fastforce simp: drawn_from_def)

lemma drawn_from_joinPairs [simp]:
  "set sep \<union> set kv \<subseteq> set extra \<Longrightarrow> drawn_from extra (joinPairs ps kv sep esc)"
  using set_joinPairs [of ps kv sep esc] esc_chars by (fastforce simp: drawn_from_def)

lemma expandSimple_drawn: "expandSimple sj v explode esc = Inr out \<Longrightarrow> drawn_from ''=,'' out"
  by (auto simp: expandSimple_def js_result split: option.splits if_splits)

lemma expandLabel_drawn: "expandLabel sj v explode esc = Inr out \<Longrightarrow> drawn_from ''=,.'' out"
  by (auto simp: expandLabel_def js_result split: option.splits if_splits)

lemma expandMatrix_drawn: "expandMatrix sj name v explode esc = Inr out \<Longrightarrow> drawn_from ''=,;'' out"
  by (auto simp: expandMatrix_def Let_def js_result split: option.splits if_splits)

lemma expandFormPairs_drawn:
  "expandFormPairs sj n v explode esc = Inr units \<Longrightarrow> drawn_from ''=,'' n \<Longrightarrow> u \<in> set units \<Longrightarrow>
     drawn_from ''=,'' u"
  by (auto simp: expandFormPairs_def js_result split: option.splits if_splits)

lemma read_unit_esc:
  assumes "\<not> safe CHR ''=''" and "utf8 n" and "utf8 v"
  shows "read_unit (esc n @ ''='' @ esc v) = Some (n, v)"
  using assms by (intro read_unit_eq) (auto simp: esc_decode esc_avoids)

text \<open>An exploded form expansion is read back as the pairs it was made from.\<close>

lemma expandFormPairs_array_read:
  assumes "\<not> safe CHR ''=''" and "utf8 name" and "arrayStrings sj arr = Inr parts"
    and "arr \<noteq> []" and "\<forall>p\<in>set parts. utf8 p"
    and "expandFormPairs sj (esc name) (JArr arr) True esc = Inr units"
  shows "map read_unit units = map (\<lambda>p. Some (name, p)) parts"
proof -
  have "parts \<noteq> []" using arrayStrings_length [OF assms(3)] assms(4) by auto
  with assms show ?thesis
    by (auto simp: expandFormPairs_def js_result read_unit_esc simp del: append.simps)
qed

lemma expandFormPairs_object_read:
  assumes "\<not> safe CHR ''=''" and "objectPairs sj obj = Inr pairs" and "pairs \<noteq> []"
    and "\<forall>(k, v)\<in>set pairs. utf8 k \<and> utf8 v"
    and "expandFormPairs sj n (JObj obj) True esc = Inr units"
  shows "map read_unit units = map Some pairs"
  using assms read_unit_esc by (fastforce simp: expandFormPairs_def js_result)

lemma expandSimple_array_decode:
  assumes "\<not> safe CHR '',''" and "arrayStrings sj arr = Inr parts" and "arr \<noteq> []"
    and "\<forall>p\<in>set parts. utf8 p"
    and "expandSimple sj (JArr arr) explode esc = Inr out"
  shows "those (map decodeURIComponent (split_str '','' out)) = Some parts"
proof -
  have "parts \<noteq> []" using arrayStrings_length [OF assms(2)] assms(3) by auto
  then show ?thesis
    using assms decode_split_escaped [of "CHR '',''" parts]
    by (auto simp: expandSimple_def js_result joinEscaped_def)
qed

end

lemma bracketed_name_decode:
  assumes "utf8 n" and "utf8 k"
    and "lb = ''['' \<and> rb = '']'' \<or> lb = ''%5B'' \<and> rb = ''%5D''"
  shows "decodeURIComponent (queryEscape n False revision3 fb @ lb @ queryEscape k False revision3 fb @ rb) =
    Some (n @ ''['' @ k @ '']'')"
proof -
  have "decodeURIComponent ''%5B'' = Some ''[''" "decodeURIComponent ''%5D'' = Some '']''"
    by code_simp+
  with assms(3) have brackets: "decodeURIComponent lb = Some ''[''" "decodeURIComponent rb = Some '']''"
    by (auto simp: decode_literal)
  have "decodeURIComponent (queryEscape x False revision3 fb) = Some x" if "utf8 x" for x
    using qesc.esc_decode [OF that] by simp
  with assms(1,2) brackets show ?thesis by (simp add: decode_append)
qed

lemma serializePathValue_cases:
  assumes "serializePathValue sj name v style explode revision3 = Inr out"
  obtains "expandSimple sj v explode (\<lambda>s. encodePathValue s revision3) = Inr out"
    | "expandLabel sj v explode (\<lambda>s. encodePathValue s revision3) = Inr out"
    | "expandMatrix sj name v explode (\<lambda>s. encodePathValue s revision3) = Inr out"
  using assms by (auto simp: serializePathValue_def Let_def split: if_splits)

lemma serializePathValue_drawn:
  assumes "serializePathValue sj name v style explode revision3 = Inr out"
  shows "pesc.drawn_from ''=,.;'' out"
  using assms
proof (cases rule: serializePathValue_cases)
  case 1
  show ?thesis by (rule pesc.drawn_from_mono [OF pesc.expandSimple_drawn [OF 1]]) simp
next
  case 2
  show ?thesis by (rule pesc.drawn_from_mono [OF pesc.expandLabel_drawn [OF 2]]) simp
next
  case 3
  show ?thesis by (rule pesc.drawn_from_mono [OF pesc.expandMatrix_drawn [OF 3]]) simp
qed

section \<open>Properties\<close>

definition example_stringify :: json_stringify where
  "example_stringify v = (case v of JNum t \<Rightarrow> Some t | JBool b \<Rightarrow> Some (if b then ''true'' else ''false'') | _ \<Rightarrow> None)"

text \<open>
  Path substitution cannot leave its segment: whatever the style and the value, the expansion
  of a path parameter holds letters, digits, the marks of \<open>encodeURIComponent\<close>, percent signs and
  the delimiters of the styles only, so no slash, question mark, hash, brace or dollar sign.
\<close>

theorem path_value_stays_in_segment:
  assumes "serializePathValue sj name v style explode revision3 = Inr out" and "c \<in> set out"
  shows "is_alnum c \<or> c \<in> set ''-_.~!*'()%=,;''"
proof -
  have "pesc.drawn_from ''=,.;'' out"
    using assms(1) by (rule serializePathValue_drawn)
  then have "segment_safe c \<or> c = CHR ''%'' \<or> c \<in> set ''=,.;''"
    using assms(2) unfolding pesc.drawn_from_def by (rule bspec)
  then show ?thesis unfolding segment_safe_iff list.set insert_iff empty_iff by (elim disjE) simp_all
qed

theorem path_value_stays_in_segment_witness:
  "\<exists>out. serializePathValue example_stringify ''id'' (JStr ''a/b'') ''simple'' False True = Inr out \<and>
     (\<forall>c\<in>set out. is_alnum c \<or> c \<in> set ''-_.~!*'()%=,;'')"
proof -
  have "serializePathValue example_stringify ''id'' (JStr ''a/b'') ''simple'' False True = Inr ''a%2Fb''"
    by code_simp
  with path_value_stays_in_segment show ?thesis by blast
qed

text \<open>
  An array in a path segment with style \<open>simple\<close> can be read back: splitting at the commas and
  percent-decoding the pieces gives the array's element texts, in order.
\<close>

theorem path_array_roundtrip:
  assumes "serializePathValue sj name (JArr arr) ''simple'' explode revision3 = Inr out"
    and "arrayStrings sj arr = Inr parts" and "arr \<noteq> []" and "\<forall>p\<in>set parts. utf8 p"
  shows "those (map decodeURIComponent (split_str '','' out)) = Some parts"
  using assms by (intro pesc.expandSimple_array_decode)
    (auto simp: serializePathValue_def Let_def char_class_defs)

theorem path_array_roundtrip_witness:
  "those (map decodeURIComponent (split_str '','' ''a%2Cb,c'')) = Some [''a,b'', ''c'']"
  by (rule path_array_roundtrip
      [of example_stringify "''ids''" "[JStr ''a,b'', JStr ''c'']" False True])
    (code_simp, code_simp, simp, simp add: utf8_all_ascii is_ascii_def byte_def)

text \<open>
  An exploded query array of style \<open>form\<close> can be read back: each unit splits at its first
  equals sign into the parameter's name and one element text, in the array's order.
\<close>

theorem query_array_roundtrip:
  assumes "serializeQueryValue sj name (JArr arr) ''form'' True False revision3 formBody enc = Inr units"
    and "arrayStrings sj arr = Inr parts" and "arr \<noteq> []" and "utf8 name" and "\<forall>p\<in>set parts. utf8 p"
  shows "map read_unit units = map (\<lambda>p. Some (name, p)) parts"
  using assms by (intro qesc.expandFormPairs_array_read)
    (auto simp: serializeQueryValue_def Let_def char_class_defs)

theorem query_array_roundtrip_witness:
  "map read_unit [''a%3Db=x%26y'', ''a%3Db=z''] = map (\<lambda>p. Some (''a=b'', p)) [''x&y'', ''z'']"
  by (rule query_array_roundtrip
      [of example_stringify "''a=b''" "[JStr ''x&y'', JStr ''z'']" True False False])
    (code_simp, code_simp, simp, simp_all add: utf8_all_ascii is_ascii_def byte_def)

text \<open>
  An exploded query object of style \<open>form\<close> can be read back: the units are the object's
  members, one each, in the order the serializer sorts them.
\<close>

theorem query_object_roundtrip:
  assumes "serializeQueryValue sj name (JObj obj) ''form'' True False revision3 formBody enc = Inr units"
    and "objectPairs sj obj = Inr pairs" and "obj \<noteq> []" and "\<forall>(k, v)\<in>set pairs. utf8 k \<and> utf8 v"
  shows "map read_unit units = map Some pairs"
proof -
  have "pairs \<noteq> []"
    using objectPairs_keys [OF assms(2), symmetric] assms(3) by (cases pairs) (auto simp: member_keys_def)
  with assms show ?thesis
    by (intro qesc.expandFormPairs_object_read) (auto simp: serializeQueryValue_def Let_def char_class_defs)
qed

theorem query_object_roundtrip_witness:
  "map read_unit [''a=1'', ''b%3D=x''] = map Some [(''a'', ''1''), (''b='', ''x'')]"
  by (rule query_object_roundtrip
      [of example_stringify "''o''" "[(''b='', JStr ''x''), (''a'', JNum ''1'')]" True False False])
    (code_simp, code_simp, simp, simp_all add: utf8_all_ascii is_ascii_def byte_def)

text \<open>
  A \<open>deepObject\<close> query parameter can be read back, whether its brackets ride percent-encoded or
  literal: each unit names \<open>name[key]\<close> and carries the member's text.
\<close>

theorem query_deepObject_roundtrip:
  assumes "serializeQueryValue sj name (JObj obj) ''deepObject'' True False revision3 formBody enc = Inr units"
    and "objectPairs sj obj = Inr pairs" and "utf8 name" and "\<forall>(k, v)\<in>set pairs. utf8 k \<and> utf8 v"
  shows "map read_unit units = map (\<lambda>(k, v). Some (name @ ''['' @ k @ '']'', v)) pairs"
proof -
  let ?e = "\<lambda>s. queryEscape s False revision3 formBody"
  let ?lb = "if enc then ''%5B'' else ''[''" and ?rb = "if enc then ''%5D'' else '']''"
  have units: "units = map (\<lambda>(k, w). (?e name @ ?lb @ ?e k @ ?rb) @ ''='' @ ?e w) pairs"
    using assms(1,2) by (simp add: serializeQueryValue_def Let_def)
  have "read_unit ((?e name @ ?lb @ ?e k @ ?rb) @ ''='' @ ?e w) = Some (name @ ''['' @ k @ '']'', w)"
    if "(k, w) \<in> set pairs" for k w
  proof (rule read_unit_eq)
    have "CHR ''='' \<notin> set (?e s)" for s by (rule qesc.esc_avoids) (simp_all add: char_class_defs)
    then show "CHR ''='' \<notin> set (?e name @ ?lb @ ?e k @ ?rb)" by simp
    show "decodeURIComponent (?e name @ ?lb @ ?e k @ ?rb) = Some (name @ ''['' @ k @ '']'')"
      using assms(3,4) that by (intro bracketed_name_decode) auto
    show "decodeURIComponent (?e w) = Some w" using assms(4) that by (auto simp: qesc.esc_decode)
  qed
  then show ?thesis by (auto simp: units simp del: append_assoc append.simps)
qed

theorem query_deepObject_roundtrip_witness:
  "map read_unit [''f%5Bk%5D=a%20b''] = map (\<lambda>(k, v). Some (''f'' @ ''['' @ k @ '']'', v)) [(''k'', ''a b'')]"
  by (rule query_deepObject_roundtrip
      [of example_stringify "''f''" "[(''k'', JStr ''a b'')]" True False True])
    (code_simp, code_simp, simp_all add: utf8_all_ascii is_ascii_def byte_def)

text \<open>
  The wire text of an object value does not depend on the order in which the caller built it:
  two objects with the same members serialize alike in every location and style.
\<close>

theorem serialization_order_independent:
  assumes "map_of m1 = map_of m2" and "mset (map fst m1) = mset (map fst m2)"
  shows "serializePathValue sj name (JObj m1) style explode rev3 = serializePathValue sj name (JObj m2) style explode rev3 \<and>
    serializeHeaderValue sj (JObj m1) style explode = serializeHeaderValue sj (JObj m2) style explode \<and>
    serializeQueryValue sj name (JObj m1) style explode reserved rev3 fb enc =
      serializeQueryValue sj name (JObj m2) style explode reserved rev3 fb enc \<and>
    serializeMultipartValue sj name (JObj m1) style explode =
      serializeMultipartValue sj name (JObj m2) style explode \<and>
    serializeCookieValue sj name (JObj m1) style explode esc =
      serializeCookieValue sj name (JObj m2) style explode esc"
proof -
  have "objectPairs sj m1 = objectPairs sj m2"
    using assms by (intro objectPairs_cong) (auto simp: member_keys_def)
  note same = this
  have "expandSimple sj (JObj m1) = expandSimple sj (JObj m2)"
    "expandLabel sj (JObj m1) = expandLabel sj (JObj m2)"
    "expandMatrix sj name (JObj m1) = expandMatrix sj name (JObj m2)"
    and form: "expandFormPairs sj n (JObj m1) = expandFormPairs sj n (JObj m2)" for n
    by (simp_all only: fun_eq_iff expandSimple_def expandLabel_def expandMatrix_def expandFormPairs_def
        as_array.simps as_object.simps option.case same simp_thms)
  moreover have "expandDelimited sj n (JObj m1) = expandDelimited sj n (JObj m2)" for n
    by (simp add: fun_eq_iff expandDelimited_def form same)
  ultimately show ?thesis
    by (simp only: serializePathValue_def serializeHeaderValue_def serializeQueryValue_def
        serializeMultipartValue_def serializeCookieValue_def as_array.simps as_object.simps
        option.case same form simp_thms)
qed

theorem serialization_order_independent_witness:
  "serializeQueryValue example_stringify ''q'' (JObj [(''b'', JStr ''2''), (''a'', JStr ''1'')]) ''form'' True False True False True =
   serializeQueryValue example_stringify ''q'' (JObj [(''a'', JStr ''1''), (''b'', JStr ''2'')]) ''form'' True False True False True"
  using serialization_order_independent
    [of "[(''b'', JStr ''2''), (''a'', JStr ''1'')]" "[(''a'', JStr ''1''), (''b'', JStr ''2'')]"]
  by (simp add: fun_eq_iff add_mset_commute)

end
