(* ===== verification/Param_Decls.thy ===== *)
theory Param_Decls
  imports Declaration Param_Values
begin

text \<open>
  The declaration side of \<open>params.ts\<close>: the effective parameter set of an operation, the gates on
  Parameter Objects and their serialization methods, path templates.  A Parameter Object is the
  JSON value it was read from; where the source relies on the TypeScript type of a field
  (\<open>name?: string\<close>) a value of another type counts as absent (\<open>fld\<close>).
\<close>

section \<open>Profiles\<close>

record execution_profile =
  ep_name :: string
  routedInputs :: bool
  mediaFidelity :: bool
  responseFidelity :: bool
  dynamicObjectCarriage :: bool
  wholeJSONCarriage :: bool
  schemaOmittedOAS30ByteCarriage :: bool
  inputRouteKey :: string
  inputRouteMarker :: string

definition OPENAPI_PROFILE_BASE :: execution_profile where
  "OPENAPI_PROFILE_BASE =
     \<lparr> ep_name = ''base'', routedInputs = False, mediaFidelity = False, responseFidelity = False,
       dynamicObjectCarriage = False, wholeJSONCarriage = False,
       schemaOmittedOAS30ByteCarriage = False, inputRouteKey = ''$openapi'',
       inputRouteMarker = ''openapi-client.routed@1'' \<rparr>"

definition OPENAPI_PROFILE_ROUTED :: execution_profile where
  "OPENAPI_PROFILE_ROUTED = OPENAPI_PROFILE_BASE \<lparr> ep_name := ''routed'', routedInputs := True \<rparr>"

definition OPENAPI_PROFILE_MEDIA :: execution_profile where
  "OPENAPI_PROFILE_MEDIA = OPENAPI_PROFILE_ROUTED \<lparr> ep_name := ''media'', mediaFidelity := True \<rparr>"

definition OPENAPI_PROFILE_RESPONSE :: execution_profile where
  "OPENAPI_PROFILE_RESPONSE = OPENAPI_PROFILE_MEDIA \<lparr> ep_name := ''response'', responseFidelity := True \<rparr>"

definition OPENAPI_PROFILE_DYNAMIC_OBJECT :: execution_profile where
  "OPENAPI_PROFILE_DYNAMIC_OBJECT =
     OPENAPI_PROFILE_RESPONSE \<lparr> ep_name := ''dynamic-object'', dynamicObjectCarriage := True \<rparr>"

definition OPENAPI_PROFILE_WHOLE_JSON :: execution_profile where
  "OPENAPI_PROFILE_WHOLE_JSON =
     OPENAPI_PROFILE_DYNAMIC_OBJECT \<lparr> ep_name := ''whole-json'', wholeJSONCarriage := True \<rparr>"

definition OPENAPI_PROFILE_FULL :: execution_profile where
  "OPENAPI_PROFILE_FULL =
     OPENAPI_PROFILE_WHOLE_JSON \<lparr> ep_name := ''full'', schemaOmittedOAS30ByteCarriage := True \<rparr>"

datatype profile_error = EmptyRouteKey | EmptyRouteMarker

definition withInputRouteMarker ::
  "execution_profile \<Rightarrow> string \<Rightarrow> (profile_error, execution_profile) res" where
  "withInputRouteMarker base marker =
     (if marker = [] then Inl EmptyRouteMarker else Inr (base \<lparr> inputRouteMarker := marker \<rparr>))"

definition withInputRouteEnvelope ::
  "execution_profile \<Rightarrow> string \<Rightarrow> string \<Rightarrow> (profile_error, execution_profile) res" where
  "withInputRouteEnvelope base key marker =
     (if key = [] then Inl EmptyRouteKey
      else if marker = [] then Inl EmptyRouteMarker
      else Inr (base \<lparr> inputRouteKey := key, inputRouteMarker := marker \<rparr>))"

section \<open>Fields of a Parameter Object\<close>

definition fld :: "jsval \<Rightarrow> string \<Rightarrow> string" where
  "fld p k = str_or (get_prop p k) []"

definition p_name :: "jsval \<Rightarrow> string" where "p_name p = fld p ''name''"
definition p_in :: "jsval \<Rightarrow> string" where "p_in p = fld p ''in''"
definition p_required :: "jsval \<Rightarrow> bool" where "p_required p \<longleftrightarrow> get_prop p ''required'' = JBool True"

definition parameters_of :: "jsval \<Rightarrow> jsval list option" where
  "parameters_of item = as_array (get_prop item ''parameters'')"

section \<open>The effective parameter set\<close>

definition ignored_header_names :: "string list" where
  "ignored_header_names = [''accept'', ''content-type'', ''authorization'']"

definition merge_key :: "jsval \<Rightarrow> string" where
  "merge_key p = p_in p @ '':'' @ p_name p"

definition has_identity :: "jsval \<Rightarrow> bool" where
  "has_identity p \<longleftrightarrow> p_in p \<noteq> [] \<and> p_name p \<noteq> []"

definition mergeParameters :: "jsval list option \<Rightarrow> jsval list option \<Rightarrow> jsval list" where
  "mergeParameters pathParams opParams =
     (let pp = (case pathParams of None \<Rightarrow> [] | Some xs \<Rightarrow> xs);
          op = (case opParams of None \<Rightarrow> [] | Some xs \<Rightarrow> xs) in
      if pp = [] then op
      else if op = [] then pp
      else
        (let overridden = map merge_key (filter has_identity op)
         in filter (\<lambda>p. has_identity p \<and> merge_key p \<notin> set overridden) pp @ op))"

definition effectiveParameters :: "jsval \<Rightarrow> jsval \<Rightarrow> jsval list" where
  "effectiveParameters pathItem op =
     filter (\<lambda>p.
         p_name p \<noteq> [] \<and> p_in p \<noteq> [] \<and>
         \<not> (p_in p = ''header'' \<and> ascii_lower (p_name p) \<in> set ignored_header_names) \<and>
         \<not> ((p_in p = ''header'' \<or> p_in p = ''cookie'') \<and> \<not> is_http_token (p_name p)))
       (mergeParameters (parameters_of pathItem) (parameters_of op))"

definition invalidRequiredParameterName :: "jsval list \<Rightarrow> string option" where
  "invalidRequiredParameterName parameters =
     map_option p_name (List.find (\<lambda>p.
         p_required p \<and> (p_in p = ''header'' \<or> p_in p = ''cookie'') \<and>
         is_str (get_prop p ''name'') \<and> \<not> is_http_token (p_name p)) parameters)"

text \<open>Identities as the source keys them: location, NUL, name; both must be strings.\<close>

definition parameterIdentity :: "jsval \<Rightarrow> string option" where
  "parameterIdentity p =
     (if truthy p \<and> is_str (get_prop p ''name'') \<and> is_str (get_prop p ''in'')
      then Some (p_in p @ [CHR 0x00] @ p_name p) else None)"

fun first_duplicate :: "jsval list \<Rightarrow> string list \<Rightarrow> string option" where
  "first_duplicate [] seen = None"
| "first_duplicate (p # ps) seen =
     (case parameterIdentity p of
        None \<Rightarrow> first_duplicate ps seen
      | Some i \<Rightarrow>
          if i \<in> set seen then Some (p_in p @ ''/'' @ p_name p) else first_duplicate ps (i # seen))"

definition duplicateDeclaredParameterIdentity :: "jsval \<Rightarrow> jsval \<Rightarrow> string option" where
  "duplicateDeclaredParameterIdentity pathItem operation =
     (case first_duplicate (case parameters_of pathItem of None \<Rightarrow> [] | Some ps \<Rightarrow> ps) [] of
        Some d \<Rightarrow> Some d
      | None \<Rightarrow> first_duplicate (case parameters_of operation of None \<Rightarrow> [] | Some ps \<Rightarrow> ps) [])"

definition ignoredHeaderParameter :: "jsval \<Rightarrow> bool" where
  "ignoredHeaderParameter p \<longleftrightarrow>
     p_in p = ''header'' \<and> is_str (get_prop p ''name'') \<and> ascii_lower (p_name p) \<in> set ignored_header_names"

definition effectiveParameterDeclarationRows :: "jsval \<Rightarrow> jsval \<Rightarrow> jsval list" where
  "effectiveParameterDeclarationRows pathItem operation =
     (let pathRows = (case parameters_of pathItem of None \<Rightarrow> [] | Some ps \<Rightarrow> ps);
          operationRows = (case parameters_of operation of None \<Rightarrow> [] | Some ps \<Rightarrow> ps);
          overridden = List.map_filter parameterIdentity operationRows in
      filter (\<lambda>p. \<not> ignoredHeaderParameter p)
        (filter (\<lambda>p. case parameterIdentity p of None \<Rightarrow> True | Some i \<Rightarrow> i \<notin> set overridden) pathRows
         @ operationRows))"

definition malformed_parameter :: "string list \<Rightarrow> jsval \<Rightarrow> bool" where
  "malformed_parameter locations p \<longleftrightarrow>
     \<not> truthy p \<or> \<not> is_str (get_prop p ''name'') \<or> p_name p = [] \<or>
     \<not> (is_str (get_prop p ''in'') \<and> p_in p \<in> set locations) \<or>
     has_own p ''schema'' = has_own p ''content'' \<or>
     (p_in p = ''path'' \<and> \<not> p_required p) \<or>
     (has_own p ''content'' \<and>
        (case as_object (get_prop p ''content'') of None \<Rightarrow> True | Some c \<Rightarrow> length (member_keys c) \<noteq> 1))"

definition malformedEffectiveParameter :: "jsval list \<Rightarrow> string \<Rightarrow> string option" where
  "malformedEffectiveParameter parameters openapiVersion =
     (let locations =
        (if openapiVersion = ''3.2.0'' then [''path'', ''query'', ''querystring'', ''header'', ''cookie'']
         else [''path'', ''query'', ''header'', ''cookie''])
      in map_option (\<lambda>p. if p_name p \<noteq> [] then p_name p else ''<unnamed>'')
           (List.find (malformed_parameter locations) parameters))"

text \<open>The loop of \<open>unflattenableParam\<close> over its two maps.\<close>

fun unflattenable_from ::
  "bool \<Rightarrow> jsval list \<Rightarrow> (string \<rightharpoonup> string) \<Rightarrow> (string \<rightharpoonup> string) \<Rightarrow> string" where
  "unflattenable_from routed [] locs spellings = []"
| "unflattenable_from routed (p # ps) locs spellings =
     (if p_name p = [] \<or> p_in p = [] then unflattenable_from routed ps locs spellings
      else if \<not> routed \<and> locs (p_name p) \<noteq> None \<and> locs (p_name p) \<noteq> Some (p_in p) then p_name p
      else
        (let locs' = locs(p_name p \<mapsto> p_in p) in
         if p_in p = ''header'' then
           (let folded = ascii_lower (p_name p) in
            if spellings folded \<noteq> None \<and> spellings folded \<noteq> Some (p_name p) then p_name p
            else unflattenable_from routed ps locs' (spellings(folded \<mapsto> p_name p)))
         else unflattenable_from routed ps locs' spellings))"

definition unflattenableParam :: "jsval list \<Rightarrow> execution_profile \<Rightarrow> string" where
  "unflattenableParam params prof =
     unflattenable_from (routedInputs prof) params Map.empty Map.empty"

section \<open>Serialization methods\<close>

record serialization =
  s_style :: string
  s_explode :: bool

definition serializationMethod :: "jsval \<Rightarrow> serialization" where
  "serializationMethod p =
     (let style =
        (if fld p ''style'' \<noteq> [] then fld p ''style''
         else if p_in p = ''query'' \<or> p_in p = ''cookie'' then ''form''
         else ''simple'') in
      \<lparr> s_style = style,
        s_explode = (case get_prop p ''explode'' of JBool b \<Rightarrow> b | _ \<Rightarrow> style = ''form'') \<rparr>)"

datatype style_error =
    InvalidStyleField string
  | NonBooleanExplode string
  | UnsupportedStyle string string string
  | DelimitedNeedsArray string
  | DelimitedNoExplode string
  | DelimitedNeedsArrayOrObject string
  | DeepObjectNeedsObject string
  | DeepObjectNoExplode
  | UnsupportedLocation string

function parameterSchemaTypes :: "jsval \<Rightarrow> string list" where
  "parameterSchemaTypes (JObj ms) =
     remdups
       ((case member_of ms ''type'' of
           JStr s \<Rightarrow> [s]
         | JArr xs \<Rightarrow> List.map_filter as_str xs
         | _ \<Rightarrow> [])
        @ concat (map parameterSchemaTypes (array_member ms ''allOf'')))"
| "parameterSchemaTypes JUndefined = []"
| "parameterSchemaTypes JNull = []"
| "parameterSchemaTypes (JBool b) = []"
| "parameterSchemaTypes (JNum t) = []"
| "parameterSchemaTypes (JNonFinite t) = []"
| "parameterSchemaTypes (JStr s) = []"
| "parameterSchemaTypes JFun = []"
| "parameterSchemaTypes (JArr xs) = []"
  by pat_completeness auto
termination
  by (relation "measure size") (auto dest: size_array_member)

text \<open>\<open>p.content && typeof p.content === "object"\<close>: an object or an array.\<close>

definition content_object :: "jsval \<Rightarrow> bool" where
  "content_object p \<longleftrightarrow>
     as_object (get_prop p ''content'') \<noteq> None \<or> as_array (get_prop p ''content'') \<noteq> None"

definition declared_fields_ok :: "jsval \<Rightarrow> (style_error, unit) res" where
  "declared_fields_ok p =
     (if has_own p ''style'' \<and> fld p ''style'' = [] then Inl (InvalidStyleField (p_name p))
      else if has_own p ''explode'' \<and> (\<forall>b. get_prop p ''explode'' \<noteq> JBool b)
      then Inl (NonBooleanExplode (p_name p))
      else Inr ())"

lemma not_boolean [code_unfold]:
  "(\<forall>b. v \<noteq> JBool b) \<longleftrightarrow> v \<noteq> JBool True \<and> v \<noteq> JBool False"
  by (metis (full_types))

definition validateParameterSerialization :: "jsval \<Rightarrow> (style_error, unit) res" where
  "validateParameterSerialization p =
     (if content_object p then Inr ()
      else
        res_bind (declared_fields_ok p) (\<lambda>_.
          let m = serializationMethod p;
              style = s_style m;
              types = parameterSchemaTypes (get_prop p ''schema'') in
          if p_in p = ''path'' then
            check (style \<in> set [''simple'', ''label'', ''matrix'']) (UnsupportedStyle ''path'' (p_name p) style)
          else if p_in p = ''header'' then
            check (style = ''simple'') (UnsupportedStyle ''header'' (p_name p) style)
          else if p_in p = ''cookie'' then
            check (style = ''form'') (UnsupportedStyle ''cookie'' (p_name p) style)
          else if p_in p = ''query'' then
            (if style = ''form'' then Inr ()
             else if style = ''spaceDelimited'' \<or> style = ''pipeDelimited'' then
               check (\<not> (s_explode m \<or> types = [] \<or> list_ex (\<lambda>t. t \<noteq> ''array'') types))
                 (DelimitedNeedsArray (p_name p))
             else if style = ''deepObject'' then
               check (\<not> (\<not> s_explode m \<or> types = [] \<or> list_ex (\<lambda>t. t \<noteq> ''object'') types))
                 (DeepObjectNeedsObject (p_name p))
             else Inl (UnsupportedStyle ''query'' (p_name p) style))
          else Inl (UnsupportedLocation (p_name p))))"

definition scalar_types :: "string list" where
  "scalar_types = [''null'', ''boolean'', ''number'', ''integer'', ''string'']"

definition validateResolvedParameterSerialization :: "jsval \<Rightarrow> bool \<Rightarrow> (style_error, unit) res" where
  "validateResolvedParameterSerialization p oas30 =
     (if content_object p then Inr ()
      else
        res_bind (declared_fields_ok p) (\<lambda>_.
          let m = serializationMethod p;
              style = s_style m;
              resolved = resolveDeclaration (get_prop p ''schema'') oas30 in
          if p_in p = ''path'' then
            check (style \<in> set [''simple'', ''label'', ''matrix'']) (UnsupportedStyle ''path'' (p_name p) style)
          else if p_in p = ''header'' then
            check (style = ''simple'') (UnsupportedStyle ''header'' (p_name p) style)
          else if p_in p = ''cookie'' then
            check (style = ''form'') (UnsupportedStyle ''cookie'' (p_name p) style)
          else if p_in p = ''query'' then
            (if style = ''form'' then Inr ()
             else if style = ''spaceDelimited'' \<or> style = ''pipeDelimited'' then
               (if s_explode m then Inl (DelimitedNoExplode style)
                else check (\<not> declaresOnly resolved scalar_types) (DelimitedNeedsArrayOrObject style))
             else if style = ''deepObject'' then
               (if \<not> s_explode m then Inl DeepObjectNoExplode
                else check (\<not> declaresOnly resolved (scalar_types @ [''array'']))
                       (DeepObjectNeedsObject (p_name p)))
             else Inl (UnsupportedStyle ''query'' (p_name p) style))
          else Inl (UnsupportedLocation (p_name p))))"

section \<open>Members without a defined expansion\<close>

definition all_styles :: "string list" where
  "all_styles =
     [''form'', ''spaceDelimited'', ''pipeDelimited'', ''deepObject'', ''simple'', ''label'', ''matrix'']"

definition resolvedStyleLaneUndefinedExpansionMember ::
  "(string \<Rightarrow> string \<Rightarrow> bool option) \<Rightarrow> jsval \<Rightarrow> bool \<Rightarrow> string option" where
  "resolvedStyleLaneUndefinedExpansionMember rx schema oas30 =
     (let resolved = resolveDeclaration schema oas30 in
      if declaresOnly resolved [''array''] then
        (if declaresOnly (decl_items resolved) [''object'', ''array''] then Some ''[]'' else None)
      else if \<not> declaresOnly resolved [''object''] then None
      else
        map_option (\<lambda>name. ''.'' @ name)
          (List.find (\<lambda>name. declaresOnly (decl_property rx resolved name) [''object'', ''array''])
            (propertyNames resolved)))"

definition resolvedParameterStyleLaneUndefinedExpansionMember ::
  "(string \<Rightarrow> string \<Rightarrow> bool option) \<Rightarrow> jsval \<Rightarrow> bool \<Rightarrow> string option" where
  "resolvedParameterStyleLaneUndefinedExpansionMember rx p oas30 =
     (if \<not> truthy p \<or> as_object (get_prop p ''content'') \<noteq> None \<or> \<not> has_own p ''schema'' then None
      else if s_style (serializationMethod p) \<notin> set all_styles then None
      else map_option (\<lambda>member. p_name p @ member)
             (resolvedStyleLaneUndefinedExpansionMember rx (get_prop p ''schema'') oas30))"

fun find_map :: "('a \<Rightarrow> 'b option) \<Rightarrow> 'a list \<Rightarrow> 'b option" where
  "find_map f [] = None"
| "find_map f (x # xs) = (case f x of None \<Rightarrow> find_map f xs | Some y \<Rightarrow> Some y)"

definition resolvedStyleLaneUndefinedExpansionParam ::
  "(string \<Rightarrow> string \<Rightarrow> bool option) \<Rightarrow> jsval list \<Rightarrow> execution_profile \<Rightarrow> bool \<Rightarrow> string option" where
  "resolvedStyleLaneUndefinedExpansionParam rx parameters prof oas30 =
     (if \<not> mediaFidelity prof then None
      else find_map (\<lambda>p. resolvedParameterStyleLaneUndefinedExpansionMember rx p oas30) parameters)"

definition formStyleCookieMultiValueProof :: "jsval \<Rightarrow> bool \<Rightarrow> bool" where
  "formStyleCookieMultiValueProof p oas30 \<longleftrightarrow>
     p_in p = ''cookie'' \<and> as_object (get_prop p ''content'') = None \<and> has_own p ''schema'' \<and>
     (let m = serializationMethod p; resolved = resolveDeclaration (get_prop p ''schema'') oas30 in
      s_style m = ''form'' \<and> s_explode m \<and>
      (declaresOnly resolved [''array''] \<or>
       (declaresOnly resolved [''object''] \<and> 0 < length (propertyNames resolved))))"

definition formStyleCookieMultiValueParameter :: "jsval list \<Rightarrow> bool \<Rightarrow> string option" where
  "formStyleCookieMultiValueParameter parameters oas30 =
     map_option p_name (List.find (\<lambda>p. formStyleCookieMultiValueProof p oas30) parameters)"

section \<open>Path templates\<close>

text \<open>The scan of \<open>pathTemplateVariables\<close>: the text since the last opening brace, if one is open.\<close>

fun template_scan :: "string \<Rightarrow> string option \<Rightarrow> string list" where
  "template_scan [] open = []"
| "template_scan (c # s) open =
     (if c = CHR ''{'' then template_scan s (Some [])
      else
        (case open of
           None \<Rightarrow> template_scan s None
         | Some acc \<Rightarrow>
             if c = CHR ''}'' then acc # template_scan s None else template_scan s (Some (acc @ [c]))))"

definition pathTemplateVariables :: "string \<Rightarrow> string list" where
  "pathTemplateVariables pathTemplate = template_scan pathTemplate None"

definition uniqueSorted :: "string list \<Rightarrow> string list" where
  "uniqueSorted xs = code_point_sort (remdups xs)"

datatype template_problem =
    UndeclaredExpressions "string list"
  | RepeatedExpressions "string list"
  | UnmatchedParameters "string list"

text \<open>The expressions that occurred before, in the order the source pushes them.\<close>

fun repeated_from :: "string list \<Rightarrow> string list \<Rightarrow> string list" where
  "repeated_from seen [] = []"
| "repeated_from seen (e # es) =
     (if e \<in> set seen then e # repeated_from seen es else repeated_from (e # seen) es)"

definition checkPathTemplateDeclaration :: "string \<Rightarrow> jsval list \<Rightarrow> bool \<Rightarrow> template_problem option" where
  "checkPathTemplateDeclaration pathTemplate parameters oas31 =
     (let declared = remdups (map p_name (filter (\<lambda>p. p_in p = ''path'' \<and> is_str (get_prop p ''name'')) parameters));
          expressions = pathTemplateVariables pathTemplate;
          missing = filter (\<lambda>e. e \<notin> set declared) expressions;
          duplicates = repeated_from [] expressions;
          unmatched = code_point_sort (filter (\<lambda>n. n \<notin> set expressions) declared) in
      if missing \<noteq> [] then Some (UndeclaredExpressions (uniqueSorted missing))
      else if oas31 \<and> duplicates \<noteq> [] then Some (RepeatedExpressions (uniqueSorted duplicates))
      else if unmatched \<noteq> [] then Some (UnmatchedParameters unmatched)
      else None)"

function normalizedPathTemplateHierarchy :: "string \<Rightarrow> string \<times> bool" where
  "normalizedPathTemplateHierarchy path =
     (case path of
        [] \<Rightarrow> ([], False)
      | c # s \<Rightarrow>
          if c \<noteq> CHR ''{'' then map_prod ((#) c) id (normalizedPathTemplateHierarchy s)
          else
            (case index_of CHR ''}'' s of
               None \<Rightarrow> map_prod ((#) c) id (normalizedPathTemplateHierarchy s)
             | Some i \<Rightarrow>
                 map_prod ((@) ''{}'') (\<lambda>_. True) (normalizedPathTemplateHierarchy (drop (Suc i) s))))"
  by pat_completeness auto
termination
  by (relation "measure length") auto

declare normalizedPathTemplateHierarchy.simps [simp del]

definition equivalentPathTemplateCollision :: "string list \<Rightarrow> string \<Rightarrow> string option" where
  "equivalentPathTemplateCollision paths selected =
     (let wanted = normalizedPathTemplateHierarchy selected in
      if \<not> snd wanted then None
      else List.find (\<lambda>candidate.
             candidate \<noteq> selected \<and> snd (normalizedPathTemplateHierarchy candidate) \<and>
             fst (normalizedPathTemplateHierarchy candidate) = fst wanted) paths)"

section \<open>What the declaration gates establish\<close>

definition well_named :: "jsval \<Rightarrow> bool" where
  "well_named p \<longleftrightarrow>
     p_name p \<noteq> [] \<and> p_in p \<noteq> [] \<and>
     (p_in p = ''header'' \<longrightarrow> ascii_lower (p_name p) \<notin> set ignored_header_names) \<and>
     (p_in p = ''header'' \<or> p_in p = ''cookie'' \<longrightarrow> is_http_token (p_name p))"

lemma well_named_identity: "well_named p \<Longrightarrow> has_identity p"
  by (simp add: well_named_def has_identity_def)

lemma effectiveParameters_filter:
  "effectiveParameters pathItem op = filter well_named (mergeParameters (parameters_of pathItem) (parameters_of op))"
  unfolding effectiveParameters_def by (rule filter_cong) (auto simp: well_named_def)

definition rows :: "jsval \<Rightarrow> jsval list" where
  "rows item = (case parameters_of item of None \<Rightarrow> [] | Some ps \<Rightarrow> ps)"

lemma set_mergeParameters:
  "has_identity p \<Longrightarrow>
     p \<in> set (mergeParameters (parameters_of pathItem) (parameters_of op)) \<longleftrightarrow>
     p \<in> set (rows op) \<or>
     p \<in> set (rows pathItem) \<and> (\<forall>q\<in>set (rows op). has_identity q \<longrightarrow> merge_key q \<noteq> merge_key p)"
proof -
  have "mergeParameters (parameters_of pathItem) (parameters_of op) =
      (if rows pathItem = [] then rows op
       else if rows op = [] then rows pathItem
       else filter (\<lambda>p. has_identity p \<and> merge_key p \<notin> set (map merge_key (filter has_identity (rows op))))
              (rows pathItem) @ rows op)"
    by (simp add: mergeParameters_def Let_def rows_def)
  moreover assume "has_identity p"
  ultimately show ?thesis by (cases "rows op = []") (auto simp: image_iff)
qed

lemma repeated_from_Nil: "repeated_from seen es = [] \<longleftrightarrow> distinct es \<and> set es \<inter> set seen = {}"
  by (induction es arbitrary: seen) auto

lemma uniqueSorted_Nil [simp]: "uniqueSorted xs = [] \<longleftrightarrow> xs = []"
  by (simp add: uniqueSorted_def)

text \<open>Templates as a sequence of literal text and named expressions.\<close>

fun render :: "(string + string) list \<Rightarrow> string" where
  "render [] = []"
| "render (Inl text # ps) = text @ render ps"
| "render (Inr name # ps) = ''{'' @ name @ ''}'' @ render ps"

definition template_ok :: "(string + string) list \<Rightarrow> bool" where
  "template_ok ps \<longleftrightarrow>
     list_all (case_sum (\<lambda>t. CHR ''{'' \<notin> set t) (\<lambda>n. CHR ''}'' \<notin> set n)) ps"

lemma normalized_literal:
  "CHR ''{'' \<notin> set t \<Longrightarrow>
     normalizedPathTemplateHierarchy (t @ s) = map_prod ((@) t) id (normalizedPathTemplateHierarchy s)"
proof (induction t)
  case Nil
  then show ?case by (simp add: prod.map_id0 map_prod_def case_prod_beta id_def)
next
  case (Cons c t)
  then have "c \<noteq> CHR ''{''" and "CHR ''{'' \<notin> set t" by auto
  with Cons.IH show ?case
    by (simp add: normalizedPathTemplateHierarchy.simps [of "_ # _"] map_prod_def case_prod_beta)
qed

lemma normalized_expression:
  "CHR ''}'' \<notin> set n \<Longrightarrow>
     normalizedPathTemplateHierarchy (''{'' @ n @ ''}'' @ s) =
       map_prod ((@) ''{}'') (\<lambda>_. True) (normalizedPathTemplateHierarchy s)"
  by (simp add: normalizedPathTemplateHierarchy.simps [of "CHR ''{'' # _"] index_of_append)

lemma normalized_render:
  "template_ok ps \<Longrightarrow>
     normalizedPathTemplateHierarchy (render ps) =
       (render (map (map_sum id (\<lambda>_. [])) ps), list_ex (case_sum (\<lambda>_. False) (\<lambda>_. True)) ps)"
proof (induction ps rule: render.induct)
  case 1
  then show ?case by (simp add: normalizedPathTemplateHierarchy.simps)
next
  case (2 t ps)
  then show ?case by (simp add: template_ok_def normalized_literal)
next
  case (3 n ps)
  then show ?case using normalized_expression [of n "render ps"] by (simp add: template_ok_def)
qed

text \<open>The two maps of \<open>unflattenableParam\<close> record the parameters already seen.\<close>

definition unambiguous_pair :: "bool \<Rightarrow> jsval \<Rightarrow> jsval \<Rightarrow> bool" where
  "unambiguous_pair routed p q \<longleftrightarrow>
     (routed \<or> p_name q \<noteq> p_name p \<or> p_in q = p_in p) \<and>
     (p_in p \<noteq> ''header'' \<or> p_in q \<noteq> ''header'' \<or>
        ascii_lower (p_name q) \<noteq> ascii_lower (p_name p) \<or> p_name q = p_name p)"

definition tracks ::
  "jsval list \<Rightarrow> (jsval \<Rightarrow> bool) \<Rightarrow> (jsval \<Rightarrow> string) \<Rightarrow> (jsval \<Rightarrow> string) \<Rightarrow> (string \<rightharpoonup> string) \<Rightarrow> bool" where
  "tracks qs sel key val m \<longleftrightarrow>
     (\<forall>k v. m k = Some v \<longrightarrow> (\<exists>q\<in>set qs. sel q \<and> key q = k \<and> val q = v)) \<and>
     (\<forall>q\<in>set qs. sel q \<longrightarrow> m (key q) \<noteq> None)"

lemma tracks_Nil [simp]: "tracks [] sel key val Map.empty"
  by (simp add: tracks_def)

lemma tracksI:
  assumes "\<And>k v. m k = Some v \<Longrightarrow> \<exists>q\<in>set qs. sel q \<and> key q = k \<and> val q = v"
    and "\<And>q. q \<in> set qs \<Longrightarrow> sel q \<Longrightarrow> m (key q) \<noteq> None"
  shows "tracks qs sel key val m"
  using assms unfolding tracks_def by blast

lemma tracksD:
  assumes "tracks qs sel key val m"
  shows "m k = Some v \<Longrightarrow> \<exists>q\<in>set qs. sel q \<and> key q = k \<and> val q = v"
    and "q \<in> set qs \<Longrightarrow> sel q \<Longrightarrow> m (key q) \<noteq> None"
  using assms unfolding tracks_def by blast+

lemma tracks_Cons:
  assumes "tracks qs sel key val m" and "sel p"
  shows "tracks (p # qs) sel key val (m(key p \<mapsto> val p))"
proof (rule tracksI)
  fix k v
  assume "(m(key p \<mapsto> val p)) k = Some v"
  then show "\<exists>q\<in>set (p # qs). sel q \<and> key q = k \<and> val q = v"
    using assms(2) tracksD(1) [OF assms(1), of k v] by (cases "k = key p") auto
next
  fix q
  assume "q \<in> set (p # qs)" and "sel q"
  then show "(m(key p \<mapsto> val p)) (key q) \<noteq> None"
    using tracksD(2) [OF assms(1), of q] by (cases "key q = key p") auto
qed

lemma tracks_skip:
  assumes "tracks qs sel key val m" and "\<not> sel p"
  shows "tracks (p # qs) sel key val m"
proof (rule tracksI)
  fix k v
  assume "m k = Some v"
  then show "\<exists>q\<in>set (p # qs). sel q \<and> key q = k \<and> val q = v"
    using tracksD(1) [OF assms(1)] by auto
next
  fix q
  assume "q \<in> set (p # qs)" and "sel q"
  then show "m (key q) \<noteq> None"
    using tracksD(2) [OF assms(1)] assms(2) by (cases "q = p") simp_all
qed

lemma tracks_clash:
  assumes "tracks qs sel key val m"
    and "\<And>q r. q \<in> set qs \<Longrightarrow> r \<in> set qs \<Longrightarrow> sel q \<Longrightarrow> sel r \<Longrightarrow> key q = key r \<Longrightarrow> val q = val r"
  shows "m (key p) \<noteq> None \<and> m (key p) \<noteq> Some (val p) \<longleftrightarrow>
    (\<exists>q\<in>set qs. sel q \<and> key q = key p \<and> val q \<noteq> val p)"
proof (cases "m (key p)")
  case None
  then have "\<not> (\<exists>q\<in>set qs. sel q \<and> key q = key p)"
    using tracksD(2) [OF assms(1)] by metis
  with None show ?thesis by blast
next
  case (Some v)
  then obtain r where r: "r \<in> set qs" "sel r" "key r = key p" "val r = v"
    using tracksD(1) [OF assms(1) Some] by blast
  then have "val q = v" if "q \<in> set qs" "sel q" "key q = key p" for q
    using assms(2) [of q r] that by simp
  with Some r show ?thesis by auto
qed

definition seen_by :: "jsval list \<Rightarrow> (string \<rightharpoonup> string) \<Rightarrow> (string \<rightharpoonup> string) \<Rightarrow> bool" where
  "seen_by qs locs spellings \<longleftrightarrow>
     tracks qs (\<lambda>_. True) p_name p_in locs \<and>
     tracks qs (\<lambda>q. p_in q = ''header'') (\<lambda>q. ascii_lower (p_name q)) p_name spellings"

definition settled :: "bool \<Rightarrow> jsval list \<Rightarrow> bool" where
  "settled routed qs \<longleftrightarrow> (\<forall>p\<in>set qs. \<forall>q\<in>set qs. unambiguous_pair routed p q)"

lemma unambiguous_pair_refl [simp]: "unambiguous_pair routed p p"
  by (simp add: unambiguous_pair_def)

lemma unambiguous_pair_sym: "unambiguous_pair routed p q \<Longrightarrow> unambiguous_pair routed q p"
  unfolding unambiguous_pair_def by metis

lemma settled_Cons:
  "settled routed (p # qs) \<longleftrightarrow> settled routed qs \<and> (\<forall>q\<in>set qs. unambiguous_pair routed p q)"
proof -
  have "settled routed (p # qs) \<longleftrightarrow>
      (\<forall>q\<in>set qs. unambiguous_pair routed p q) \<and>
      (\<forall>r\<in>set qs. unambiguous_pair routed r p \<and> (\<forall>q\<in>set qs. unambiguous_pair routed r q))"
    by (simp add: settled_def)
  also have "\<dots> \<longleftrightarrow> settled routed qs \<and> (\<forall>q\<in>set qs. unambiguous_pair routed p q)"
    unfolding settled_def using unambiguous_pair_sym by metis
  finally show ?thesis .
qed

lemma seen_clash:
  assumes "seen_by qs locs spellings" and "settled routed qs"
  shows "(\<not> routed \<and> locs (p_name p) \<noteq> None \<and> locs (p_name p) \<noteq> Some (p_in p) \<or>
      p_in p = ''header'' \<and> spellings (ascii_lower (p_name p)) \<noteq> None \<and>
        spellings (ascii_lower (p_name p)) \<noteq> Some (p_name p)) \<longleftrightarrow>
    (\<exists>q\<in>set qs. \<not> unambiguous_pair routed p q)"
proof -
  have pair: "unambiguous_pair routed q r" if "q \<in> set qs" "r \<in> set qs" for q r
    using assms(2) that by (simp add: settled_def)
  have tr: "tracks qs (\<lambda>_. True) p_name p_in locs"
    "tracks qs (\<lambda>q. p_in q = ''header'') (\<lambda>q. ascii_lower (p_name q)) p_name spellings"
    using assms(1) by (simp_all only: seen_by_def)
  have L: "locs (p_name p) \<noteq> None \<and> locs (p_name p) \<noteq> Some (p_in p) \<longleftrightarrow>
      (\<exists>q\<in>set qs. True \<and> p_name q = p_name p \<and> p_in q \<noteq> p_in p)" if "\<not> routed"
    by (rule tracks_clash [OF tr(1)]) (use pair [unfolded unambiguous_pair_def] that in blast)
  have H: "spellings (ascii_lower (p_name p)) \<noteq> None \<and> spellings (ascii_lower (p_name p)) \<noteq> Some (p_name p) \<longleftrightarrow>
      (\<exists>q\<in>set qs. p_in q = ''header'' \<and> ascii_lower (p_name q) = ascii_lower (p_name p) \<and> p_name q \<noteq> p_name p)"
    by (rule tracks_clash [OF tr(2)]) (use pair [unfolded unambiguous_pair_def] in blast)
  have "(\<exists>q\<in>set qs. \<not> unambiguous_pair routed p q) \<longleftrightarrow>
      \<not> routed \<and> (\<exists>q\<in>set qs. True \<and> p_name q = p_name p \<and> p_in q \<noteq> p_in p) \<or>
      p_in p = ''header'' \<and> (\<exists>q\<in>set qs. p_in q = ''header'' \<and>
        ascii_lower (p_name q) = ascii_lower (p_name p) \<and> p_name q \<noteq> p_name p)"
    unfolding unambiguous_pair_def by blast
  then show ?thesis using L H by argo
qed

lemma seen_by_Cons:
  "seen_by qs locs spellings \<Longrightarrow>
     seen_by (p # qs) (locs(p_name p \<mapsto> p_in p))
       (if p_in p = ''header'' then spellings(ascii_lower (p_name p) \<mapsto> p_name p) else spellings)"
  using tracks_Cons [of qs "\<lambda>_. True" p_name p_in locs p]
    tracks_Cons [of qs "\<lambda>q. p_in q = ''header''" "\<lambda>q. ascii_lower (p_name q)" p_name spellings p]
    tracks_skip [of qs "\<lambda>q. p_in q = ''header''" "\<lambda>q. ascii_lower (p_name q)" p_name spellings p]
  by (cases "p_in p = ''header''") (simp_all add: seen_by_def)

lemma unflattenable_from_settled:
  assumes "seen_by qs locs spellings" and "settled routed qs"
  shows "unflattenable_from routed ps locs spellings = [] \<longleftrightarrow> settled routed (rev (filter has_identity ps) @ qs)"
  using assms
proof (induction ps arbitrary: qs locs spellings)
  case Nil
  then show ?case by simp
next
  case (Cons p ps)
  have mono: "settled routed (xs @ ys) \<Longrightarrow> settled routed ys" for xs ys by (simp add: settled_def)
  show ?case
  proof (cases "has_identity p")
    case False
    with Cons show ?thesis by (auto simp: has_identity_def)
  next
    case True
    let ?locs = "locs(p_name p \<mapsto> p_in p)"
    let ?sp = "if p_in p = ''header'' then spellings(ascii_lower (p_name p) \<mapsto> p_name p) else spellings"
    define clash where "clash \<longleftrightarrow>
        \<not> routed \<and> locs (p_name p) \<noteq> None \<and> locs (p_name p) \<noteq> Some (p_in p) \<or>
        p_in p = ''header'' \<and> spellings (ascii_lower (p_name p)) \<noteq> None \<and>
          spellings (ascii_lower (p_name p)) \<noteq> Some (p_name p)"
    have clash: "clash \<longleftrightarrow> (\<exists>q\<in>set qs. \<not> unambiguous_pair routed p q)"
      using seen_clash [OF Cons.prems, of p] by (simp add: clash_def)
    have step: "unflattenable_from routed (p # ps) locs spellings =
        (if clash then p_name p else unflattenable_from routed ps ?locs ?sp)"
      using True by (auto simp: clash_def has_identity_def Let_def)
    show ?thesis
    proof (cases clash)
      case True
      then have "\<not> settled routed (p # qs)" using clash by (simp add: settled_Cons)
      then have "\<not> settled routed (rev (filter has_identity ps) @ p # qs)" using mono by blast
      moreover have "p_name p \<noteq> []" using \<open>has_identity p\<close> by (simp add: has_identity_def)
      ultimately show ?thesis unfolding step using True \<open>has_identity p\<close> by simp
    next
      case False
      then have "settled routed (p # qs)" using clash Cons.prems(2) by (simp add: settled_Cons)
      moreover have "seen_by (p # qs) ?locs ?sp"
        using Cons.prems(1) by (rule seen_by_Cons)
      ultimately have "unflattenable_from routed ps ?locs ?sp = [] \<longleftrightarrow>
          settled routed (rev (filter has_identity ps) @ p # qs)"
        by (intro Cons.IH)
      with False True show ?thesis unfolding step by simp
    qed
  qed
qed

section \<open>Claims\<close>

text \<open>
  Operation parameters win over path-item parameters: the effective set holds the usable
  parameters of the operation, and those of the path item whose name and location no operation
  parameter repeats; nothing else.
\<close>

theorem effective_parameters_override:
  "p \<in> set (effectiveParameters pathItem op) \<longleftrightarrow>
     well_named p \<and>
     (p \<in> set (rows op) \<or>
      p \<in> set (rows pathItem) \<and>
        \<not> (\<exists>q. q \<in> set (rows op) \<and> has_identity q \<and> merge_key q = merge_key p))"
  using set_mergeParameters [of p pathItem op] well_named_identity [of p]
  by (auto simp: effectiveParameters_filter)

text \<open>
  The path-template gate is exact: it accepts a template precisely when the declared path
  parameters are the expressions of the template, and, from OpenAPI 3.1 on, no expression occurs
  twice.
\<close>

theorem path_template_gate_exact:
  "checkPathTemplateDeclaration pathTemplate parameters oas31 = None \<longleftrightarrow>
     {p_name p | p. p \<in> set parameters \<and> p_in p = ''path'' \<and> is_str (get_prop p ''name'')} =
       set (pathTemplateVariables pathTemplate) \<and>
     (\<not> oas31 \<or> distinct (pathTemplateVariables pathTemplate))"
proof -
  let ?E = "pathTemplateVariables pathTemplate"
  let ?D = "remdups (map p_name (filter (\<lambda>p. p_in p = ''path'' \<and> is_str (get_prop p ''name'')) parameters))"
  have D: "set ?D = {p_name p | p. p \<in> set parameters \<and> p_in p = ''path'' \<and> is_str (get_prop p ''name'')}"
    by auto
  have "checkPathTemplateDeclaration pathTemplate parameters oas31 = None \<longleftrightarrow>
      filter (\<lambda>e. e \<notin> set ?D) ?E = [] \<and> \<not> (oas31 \<and> repeated_from [] ?E \<noteq> []) \<and>
      filter (\<lambda>n. n \<notin> set ?E) ?D = []"
    unfolding checkPathTemplateDeclaration_def Let_def by (simp split del: if_split split: if_splits)
  also have "\<dots> \<longleftrightarrow> set ?E \<subseteq> set ?D \<and> \<not> (oas31 \<and> \<not> distinct ?E) \<and> set ?D \<subseteq> set ?E"
    unfolding filter_empty_conv repeated_from_Nil by auto
  finally show ?thesis unfolding D by auto
qed

theorem path_template_gate_exact_witness:
  "checkPathTemplateDeclaration ''/a/{id}'' [JObj [(''name'', JStr ''id''), (''in'', JStr ''path'')]] True = None"
proof -
  have "pathTemplateVariables ''/a/{id}'' = [''id'']" by code_simp
  moreover have "{p_name p | p. p \<in> set [JObj [(''name'', JStr ''id''), (''in'', JStr ''path'')]] \<and>
      p_in p = ''path'' \<and> is_str (get_prop p ''name'')} = {''id''}"
    by (auto simp: p_name_def p_in_def fld_def str_or_def is_str_def member_of_def)
  ultimately show ?thesis
    using path_template_gate_exact [of "''/a/{id}''" "[JObj [(''name'', JStr ''id''), (''in'', JStr ''path'')]]" True]
    by simp
qed

text \<open>
  Templates collide by shape: renaming the expressions of a template does not change its
  hierarchy, and two templates with the same literal text between expressions are a collision.
\<close>

theorem template_collision_by_shape:
  assumes "template_ok ps" and "template_ok qs"
    and "map (map_sum id (\<lambda>_. ())) ps = map (map_sum id (\<lambda>_. ())) qs"
    and "render ps \<noteq> render qs" and "list_ex (case_sum (\<lambda>_. False) (\<lambda>_. True)) ps"
  shows "equivalentPathTemplateCollision [render qs] (render ps) = Some (render qs)"
proof -
  let ?u = "map_sum id (\<lambda>_. [] :: string)" and ?v = "map_sum id (\<lambda>_. ())"
  have "map ?u xs = map (map_sum id (\<lambda>_. [])) (map ?v xs)" for xs :: "(string + string) list"
  proof (induction xs)
    case (Cons x xs)
    then show ?case by (cases x) simp_all
  qed simp
  then have "map ?u ps = map ?u qs" using assms(3) by metis
  moreover have "list_ex (case_sum (\<lambda>_. False) (\<lambda>_. True)) xs =
      list_ex (case_sum (\<lambda>_. False) (\<lambda>_. True)) (map ?v xs)" for xs :: "(string + string) list"
    by (induction xs) (auto split: sum.splits)
  then have "list_ex (case_sum (\<lambda>_. False) (\<lambda>_. True)) qs" using assms(3,5) by metis
  ultimately show ?thesis
    using assms by (simp add: equivalentPathTemplateCollision_def Let_def normalized_render)
qed

theorem template_collision_by_shape_witness:
  "equivalentPathTemplateCollision [''/a/{y}''] ''/a/{x}'' = Some ''/a/{y}''"
  using template_collision_by_shape [of "[Inl ''/a/'', Inr ''x'']" "[Inl ''/a/'', Inr ''y'']"]
  by (simp add: template_ok_def)

text \<open>
  The flat-input gate is exact: \<open>unflattenableParam\<close> finds nothing precisely when no two named
  parameters share a name across locations (unless inputs are routed) and no two headers differ
  in case only.
\<close>

theorem unflattenable_exact:
  "unflattenableParam params prof = [] \<longleftrightarrow>
     (\<forall>p q. {p, q} \<subseteq> set (filter has_identity params) \<longrightarrow> unambiguous_pair (routedInputs prof) p q)"
  using unflattenable_from_settled [of "[]" Map.empty Map.empty "routedInputs prof" params]
  by (auto simp: unflattenableParam_def settled_def seen_by_def)

theorem unflattenable_exact_witness:
  "unambiguous_pair False
     (JObj [(''name'', JStr ''a''), (''in'', JStr ''query'')]) (JObj [(''name'', JStr ''a''), (''in'', JStr ''query'')])"
  using unflattenable_exact [of "[JObj [(''name'', JStr ''a''), (''in'', JStr ''query'')]]" OPENAPI_PROFILE_BASE]
  by (simp add: unambiguous_pair_def)

end
