(* ===== verification/Openapi32_Params.thy ===== *)
theory Openapi32_Params
  imports Param_Decls Media_Type
begin

text \<open>
  \<open>openapi32-parameters.ts\<close>: the OpenAPI 3.2 admission gate of an operation's parameters and the
  3.2 serializers, and the errors of the carriage of a parameter that \<open>params.ts\<close> shares with it.
\<close>

section \<open>Errors\<close>

datatype disposition_reason =
    MissingNameOrIn
  | UnsupportedParameterLocation string
  | SchemaXorContent string
  | PathNotRequired string
  | ContentNotOne string
  | QuerystringNeedsContent string
  | ForbiddenField string string
  | DuplicateIdentity string string
  | SequentialQuerystring string
  | NoIncorporatedSerialization string
  | FormWithoutSchema
  | FormNeedsObjectSchema
  | BadStyle string
  | BadExplode string
  | StyleNotDefined string string
  | NoExplodeCell string
  | OnlyArraysOrObjects string
  | DeepObjectOnlyObjects
  | UndefinedMember string
  | SeveralQuerystrings
  | QuerystringBesideQuery
  | TemplateProblem template_problem
  | TemplateCollision string

text \<open>
  The two kinds of OpenAPI32ParameterDispositionError; a malformed media type throws an ordinary error.
\<close>

datatype disposition =
    Invalid disposition_reason
  | Excluded disposition_reason
  | MalformedMedia media_error

datatype carriage_error =
    ValueError param_error
  | AtParameter string string carriage_error
  | ExactlyOneMediaType string
  | MediaError media_error
  | ContentNeedsString string string
  | NoCarriage string string
  | NotRepresentable string
  | UnsupportedCharset string
  | UnknownLocation string string
  | InvalidHeaderByte
  | InvalidRawCookie
  | InvalidCookiePair string
  | CookieNotPair string
  | InvalidCookieName string
  | InvalidCookieValue string
  | NullMember
  | AtIndex nat carriage_error
  | AtMember string carriage_error
  | OutsideScalarDomain
  | ConversionRequired
  | ConversionNotString
  | UndefinedCell string
  | StructuralDelimiter string
  | NeedsArrayOrObject string
  | NeedsObject
  | FormNeedsObjectValue
  | TextNeedsString
  | NoSerialization string
  | NoJSONRepresentation
  | NoDeclaration
  | SeveralCookiePairs
  | MissingPathParam "string list"
  | MissingRequired "string list"
  | UnmatchedWhole "string list"
  | UnmatchedNoBody "string list"
  | FormField string param_error

section \<open>Serialization\<close>

definition openAPI32ParameterSerializationMethod :: "jsval \<Rightarrow> serialization" where
  "openAPI32ParameterSerializationMethod p =
     (let compatible = serializationMethod p; style = s_style compatible in
      if style = ''deepObject'' then \<lparr> s_style = style, s_explode = True \<rparr>
      else if \<not> has_own p ''explode'' \<and> style = ''cookie'' then \<lparr> s_style = style, s_explode = True \<rparr>
      else compatible)"

definition serializeOpenAPI32QueryValue ::
  "json_stringify \<Rightarrow> string \<Rightarrow> jsval \<Rightarrow> string \<Rightarrow> bool \<Rightarrow> bool \<Rightarrow> (param_error, string list) res" where
  "serializeOpenAPI32QueryValue sj name v style explode allowReserved =
     (let effectiveExplode = (if style = ''deepObject'' then True else explode)
      in serializeQueryValue sj name v style effectiveExplode allowReserved True True True)"

definition cookie_octet :: "char \<Rightarrow> bool" where
  "cookie_octet c \<longleftrightarrow>
     byte c = 0x21 \<or> (0x23 \<le> byte c \<and> byte c \<le> 0x2b) \<or> (0x2d \<le> byte c \<and> byte c \<le> 0x3a) \<or>
     (0x3c \<le> byte c \<and> byte c \<le> 0x5b) \<or> (0x5d \<le> byte c \<and> byte c \<le> 0x7e)"

definition validOpenAPI32CookieUnit :: "string \<Rightarrow> (carriage_error, unit) res" where
  "validOpenAPI32CookieUnit u =
     (case index_of CHR ''='' u of
        None \<Rightarrow> Inl (CookieNotPair u)
      | Some 0 \<Rightarrow> Inl (CookieNotPair u)
      | Some i \<Rightarrow>
          (let name = take i u; v = drop (Suc i) u in
           if \<not> is_http_token name then Inl (InvalidCookieName name)
           else if \<not> list_all cookie_octet v then Inl (InvalidCookieValue name)
           else Inr ()))"

definition validateOpenAPI32CookieUnits :: "string list \<Rightarrow> (carriage_error, unit) res" where
  "validateOpenAPI32CookieUnits units = each_res (\<lambda>u _. validOpenAPI32CookieUnit u) units ()"

definition serializeOpenAPI32CookieValue ::
  "json_stringify \<Rightarrow> string \<Rightarrow> jsval \<Rightarrow> string \<Rightarrow> bool \<Rightarrow> (carriage_error, string list) res" where
  "serializeOpenAPI32CookieValue sj name v style explode =
     (if style \<noteq> ''form'' \<and> style \<noteq> ''cookie'' then Inl (ValueError (UndefinedStyle ''cookie'' style))
      else if style = ''cookie'' then
        res_bind (res_err ValueError (serializeCookieValue sj name v ''form'' explode (\<lambda>raw. raw)))
          (\<lambda>units. res_map (\<lambda>_. units) (validateOpenAPI32CookieUnits units))
      else res_err ValueError (serializeCookieValue sj name v ''form'' explode cookie_escape))"

text \<open>
  \<open>stringifyOpenAPI32JSON\<close>: the three ASCII characters and the two line separators (E2 80 A8 and
  E2 80 A9 in UTF-8) are written as escapes.
\<close>

definition ascii_escape :: "char \<Rightarrow> string" where
  "ascii_escape c = CHR 0x5C # ''u00'' @ [hex_lower (byte c div 16), hex_lower (byte c mod 16)]"

fun escape_json_html :: "string \<Rightarrow> string" where
  "escape_json_html (a # b # c # s) =
     (if a = CHR 0xE2 \<and> b = CHR 0x80 \<and> c = CHR 0xA8 then CHR 0x5C # ''u2028'' @ escape_json_html s
      else if a = CHR 0xE2 \<and> b = CHR 0x80 \<and> c = CHR 0xA9 then CHR 0x5C # ''u2029'' @ escape_json_html s
      else (if a \<in> set ''<>&'' then ascii_escape a else [a]) @ escape_json_html (b # c # s))"
| "escape_json_html s = concat (map (\<lambda>c. if c \<in> set ''<>&'' then ascii_escape c else [c]) s)"

definition stringifyOpenAPI32JSON :: "jsval \<Rightarrow> (carriage_error, string) res" where
  "stringifyOpenAPI32JSON v =
     (case JSON_stringify v of None \<Rightarrow> Inl NoJSONRepresentation | Some s \<Rightarrow> Inr (escape_json_html s))"

text \<open>
  The querystring parameter.  \<open>form_body\<close> stands for the 3.2 branch of \<open>buildURLEncodedBody\<close> of
  \<open>media.ts\<close>, which encodes per-property media; it is not part of this model.
\<close>

type_synonym form_body_encoder = "jsval \<Rightarrow> js_members \<Rightarrow> (carriage_error, string) res"

definition single_content :: "jsval \<Rightarrow> (string \<times> jsval) option" where
  "single_content p =
     (case as_object (get_prop p ''content'') of
        Some [entry] \<Rightarrow> Some entry
      | _ \<Rightarrow> None)"

definition serializeOpenAPI32QueryStringParameter ::
  "form_body_encoder \<Rightarrow> jsval \<Rightarrow> jsval \<Rightarrow> (carriage_error, string) res" where
  "serializeOpenAPI32QueryStringParameter form_body p v =
     (case single_content p of
        None \<Rightarrow> Inl (ExactlyOneMediaType (p_name p))
      | Some (mediaType, media) \<Rightarrow>
          res_bind (res_err MediaError (parseMediaType mediaType True)) (\<lambda>parsed.
            if pm_base parsed = ''application/x-www-form-urlencoded'' then
              (case as_object v of
                 None \<Rightarrow> Inl FormNeedsObjectValue
               | Some fs \<Rightarrow> form_body (case media of JObj ms \<Rightarrow> JObj ms | _ \<Rightarrow> JNull) fs)
            else
              res_map (\<lambda>serialized. queryEscape serialized False True False)
                (if isJSONMediaType (pm_base parsed) then stringifyOpenAPI32JSON v
                 else if pm_base parsed = ''text/plain'' then
                   (case as_str v of None \<Rightarrow> Inl TextNeedsString | Some s \<Rightarrow> Inr s)
                 else Inl (NoSerialization mediaType))))"

section \<open>The gate on one Parameter Object\<close>

definition openapi32_locations :: "string list" where
  "openapi32_locations = [''path'', ''query'', ''querystring'', ''header'', ''cookie'']"

definition forbidden_querystring_fields :: "string list" where
  "forbidden_querystring_fields = [''schema'', ''style'', ''explode'', ''allowReserved'', ''allowEmptyValue'']"

definition validateOpenAPI32ParameterObject :: "jsval \<Rightarrow> (disposition, unit) res" where
  "validateOpenAPI32ParameterObject p =
     (if \<not> truthy p \<or> \<not> is_str (get_prop p ''name'') \<or> p_name p = [] \<or> \<not> is_str (get_prop p ''in'')
      then Inl (Invalid MissingNameOrIn)
      else if p_in p \<notin> set openapi32_locations then Inl (Invalid (UnsupportedParameterLocation (p_name p)))
      else if has_own p ''schema'' = has_own p ''content'' then Inl (Invalid (SchemaXorContent (p_name p)))
      else if p_in p = ''path'' \<and> \<not> p_required p then Inl (Invalid (PathNotRequired (p_name p)))
      else if has_own p ''content'' \<and> single_content p = None then Inl (Invalid (ContentNotOne (p_name p)))
      else if p_in p = ''querystring'' then
        (if \<not> has_own p ''content'' then Inl (Invalid (QuerystringNeedsContent (p_name p)))
         else
           (case List.find (has_own p) forbidden_querystring_fields of
              Some f \<Rightarrow> Inl (Invalid (ForbiddenField (p_name p) f))
            | None \<Rightarrow> Inr ()))
      else Inr ())"

definition openAPI32ParameterLaneExclusionReason :: "jsval \<Rightarrow> (media_error, disposition_reason option) res" where
  "openAPI32ParameterLaneExclusionReason p =
     (if p_in p \<noteq> ''querystring'' then Inr None
      else
        (case single_content p of
           None \<Rightarrow> Inr None
         | Some (mediaType, raw) \<Rightarrow>
             res_map (\<lambda>parsed.
                 let base = pm_base parsed; media = as_object raw in
                 if (case media of None \<Rightarrow> False | Some ms \<Rightarrow> has_member ms ''itemSchema'')
                 then Some (SequentialQuerystring mediaType)
                 else if isJSONMediaType base \<or> base = ''text/plain'' then None
                 else if base \<noteq> ''application/x-www-form-urlencoded''
                 then Some (NoIncorporatedSerialization mediaType)
                 else
                   (case media of
                      None \<Rightarrow> Some FormWithoutSchema
                    | Some ms \<Rightarrow>
                        if \<not> has_member ms ''schema'' then Some FormWithoutSchema
                        else if declaresOnly (resolveDeclaration (member_of ms ''schema'') False)
                                  (scalar_types @ [''array''])
                        then Some FormNeedsObjectSchema
                        else None))
               (parseMediaType mediaType True)))"

definition validateOpenAPI32ParameterSerialization :: "jsval \<Rightarrow> (disposition, unit) res" where
  "validateOpenAPI32ParameterSerialization p =
     (if p_in p = ''querystring'' then
        (case openAPI32ParameterLaneExclusionReason p of
           Inl e \<Rightarrow> Inl (MalformedMedia e)
         | Inr None \<Rightarrow> Inr ()
         | Inr (Some r) \<Rightarrow> Inl (Excluded r))
      else if has_own p ''content'' then Inr ()
      else if has_own p ''style'' \<and> fld p ''style'' = [] then Inl (Excluded (BadStyle (p_name p)))
      else if has_own p ''explode'' \<and> (\<forall>b. get_prop p ''explode'' \<noteq> JBool b)
      then Inl (Excluded (BadExplode (p_name p)))
      else
        (let m = openAPI32ParameterSerializationMethod p;
             style = s_style m;
             resolved = resolveDeclaration (get_prop p ''schema'') False in
         if p_in p = ''path'' then
           check (style \<in> set [''simple'', ''label'', ''matrix'']) (Excluded (StyleNotDefined style ''path''))
         else if p_in p = ''header'' then
           check (style = ''simple'') (Excluded (StyleNotDefined style ''header''))
         else if p_in p = ''cookie'' then
           check (style = ''form'' \<or> style = ''cookie'') (Excluded (StyleNotDefined style ''cookie''))
         else if p_in p = ''query'' then
           (if style = ''form'' then Inr ()
            else if style = ''spaceDelimited'' \<or> style = ''pipeDelimited'' then
              (if s_explode m then Inl (Excluded (NoExplodeCell style))
               else check (\<not> declaresOnly resolved scalar_types) (Excluded (OnlyArraysOrObjects style)))
            else if style = ''deepObject'' then
              check (\<not> declaresOnly resolved (scalar_types @ [''array''])) (Excluded DeepObjectOnlyObjects)
            else Inl (Excluded (StyleNotDefined style ''query'')))
         else Inl (Invalid (UnsupportedParameterLocation (p_name p)))))"

section \<open>Path hierarchies\<close>

text \<open>The replacement of the pattern \<open>{[^}]*}\<close>, leftmost first, with the match text taken greedily.\<close>

function normalizedPathHierarchy :: "string \<Rightarrow> string \<times> bool" where
  "normalizedPathHierarchy path =
     (case path of
        [] \<Rightarrow> ([], False)
      | c # s \<Rightarrow>
          if c = CHR ''{'' \<and> dropWhile (\<lambda>d. d \<noteq> CHR ''}'') s \<noteq> [] then
            (let (v, _) = normalizedPathHierarchy (tl (dropWhile (\<lambda>d. d \<noteq> CHR ''}'') s)) in (''{}'' @ v, True))
          else (let (v, templated) = normalizedPathHierarchy s in (c # v, templated)))"
  by pat_completeness auto
termination
proof (relation "measure length", goal_cases)
  case (2 path c s)
  have "length (tl (dropWhile (\<lambda>d. d \<noteq> CHR ''}'') s)) \<le> length s"
    using length_dropWhile_le [of "\<lambda>d. d \<noteq> CHR ''}''" s] by simp
  then show ?case using 2 by simp
qed auto

declare normalizedPathHierarchy.simps [simp del]

definition equivalentOpenAPI32Path :: "string list \<Rightarrow> string \<Rightarrow> string option" where
  "equivalentOpenAPI32Path paths selected =
     (let (v, templated) = normalizedPathHierarchy selected in
      if \<not> templated then None
      else List.find (\<lambda>candidate. candidate \<noteq> selected \<and> normalizedPathHierarchy candidate = (v, True)) paths)"

section \<open>The gate on an operation\<close>

record gate_state =
  g_seen :: "(string \<times> string) list"
  g_excluded :: "((string \<times> string) \<times> disposition_reason) list"
  g_query :: nat
  g_querystring :: nat

definition gate_parameter ::
  "(string \<Rightarrow> string \<Rightarrow> bool option) \<Rightarrow> jsval \<Rightarrow> gate_state \<Rightarrow> (disposition, gate_state) res" where
  "gate_parameter rx p st =
     res_bind (validateOpenAPI32ParameterObject p) (\<lambda>_.
       let identity = (p_in p, p_name p) in
       if identity \<in> set (g_seen st) then Inl (Invalid (DuplicateIdentity (p_in p) (p_name p)))
       else
         let st = st \<lparr> g_seen := g_seen st @ [identity],
                       g_query := g_query st + (if p_in p = ''query'' then 1 else 0),
                       g_querystring := g_querystring st + (if p_in p = ''querystring'' then 1 else 0) \<rparr>
         in res_bind (res_err MalformedMedia (openAPI32ParameterLaneExclusionReason p)) (\<lambda>exclusion.
              case exclusion of
                Some reason \<Rightarrow> Inr (st \<lparr> g_excluded := g_excluded st @ [(identity, reason)] \<rparr>)
              | None \<Rightarrow>
                  res_bind (validateOpenAPI32ParameterSerialization p) (\<lambda>_.
                    case resolvedParameterStyleLaneUndefinedExpansionMember rx p False of
                      Some m \<Rightarrow> Inl (Excluded (UndefinedMember m))
                    | None \<Rightarrow> Inr st)))"

definition validateOpenAPI32OperationParameters ::
  "(string \<Rightarrow> string \<Rightarrow> bool option) \<Rightarrow> string list \<Rightarrow> string \<Rightarrow> jsval \<Rightarrow> jsval \<Rightarrow>
     (disposition, ((string \<times> string) \<times> disposition_reason) list) res" where
  "validateOpenAPI32OperationParameters rx paths path pathItem operation =
     (let parameters = effectiveParameterDeclarationRows pathItem operation in
      res_bind (each_res (gate_parameter rx) parameters
          \<lparr> g_seen = [], g_excluded = [], g_query = 0, g_querystring = 0 \<rparr>) (\<lambda>st.
        if 1 < g_querystring st then Inl (Invalid SeveralQuerystrings)
        else if 0 < g_querystring st \<and> 0 < g_query st then Inl (Invalid QuerystringBesideQuery)
        else
          (case checkPathTemplateDeclaration path parameters True of
             Some problem \<Rightarrow> Inl (Invalid (TemplateProblem problem))
           | None \<Rightarrow>
               (case equivalentOpenAPI32Path paths path of
                  Some collision \<Rightarrow> Inl (Invalid (TemplateCollision collision))
                | None \<Rightarrow> Inr (g_excluded st)))))"

section \<open>What the gate establishes\<close>

lemma dropWhile_index_of:
  "dropWhile (\<lambda>d. d \<noteq> c) s = (case index_of c s of None \<Rightarrow> [] | Some i \<Rightarrow> drop i s)"
  by (induction s) (auto split: option.splits)

lemma normalizedPathHierarchy_eq: "normalizedPathHierarchy path = normalizedPathTemplateHierarchy path"
proof (induction path rule: length_induct)
  case (1 path)
  show ?case
  proof (cases path)
    case Nil
    then show ?thesis
      by (simp add: normalizedPathHierarchy.simps normalizedPathTemplateHierarchy.simps)
  next
    case (Cons c s)
    have s: "normalizedPathHierarchy s = normalizedPathTemplateHierarchy s" using 1 Cons by simp
    show ?thesis
    proof (cases "c = CHR ''{'' \<and> index_of CHR ''}'' s \<noteq> None")
      case False
      then show ?thesis
        using s Cons
        by (auto simp: normalizedPathHierarchy.simps [of "_ # _"] normalizedPathTemplateHierarchy.simps [of "_ # _"]
            dropWhile_index_of map_prod_def split: prod.splits option.splits)
    next
      case True
      then obtain i where i: "index_of CHR ''}'' s = Some i" and c: "c = CHR ''{''" by auto
      have "i < length s" using i by (simp add: index_of_Some)
      have "normalizedPathHierarchy (drop (Suc i) s) = normalizedPathTemplateHierarchy (drop (Suc i) s)"
        using 1 Cons by simp
      then show ?thesis
        using i c Cons \<open>i < length s\<close>
        by (simp add: normalizedPathHierarchy.simps [of "_ # _"] normalizedPathTemplateHierarchy.simps [of "_ # _"]
            dropWhile_index_of tl_drop drop_Suc map_prod_def split: prod.splits)
    qed
  qed
qed

definition gate_invariant :: "jsval list \<Rightarrow> gate_state \<Rightarrow> bool" where
  "gate_invariant ps st \<longleftrightarrow>
     g_seen st = map (\<lambda>p. (p_in p, p_name p)) ps \<and> distinct (g_seen st) \<and>
     g_query st = length (filter (\<lambda>p. p_in p = ''query'') ps) \<and>
     g_querystring st = length (filter (\<lambda>p. p_in p = ''querystring'') ps) \<and>
     (\<forall>p\<in>set ps. validateOpenAPI32ParameterObject p = Inr ())"

lemma gate_parameter_invariant:
  assumes "gate_invariant ps st" and "gate_parameter rx p st = Inr st'"
  shows "gate_invariant (ps @ [p]) st'"
proof -
  let ?st = "st \<lparr> g_seen := g_seen st @ [(p_in p, p_name p)],
      g_query := g_query st + (if p_in p = ''query'' then 1 else 0),
      g_querystring := g_querystring st + (if p_in p = ''querystring'' then 1 else 0) \<rparr>"
  have ok: "validateOpenAPI32ParameterObject p = Inr ()" "(p_in p, p_name p) \<notin> set (g_seen st)"
    using assms(2) by (auto simp: gate_parameter_def Let_def js_result split: if_splits)
  have "st' = ?st \<lparr> g_excluded := g_excluded st' \<rparr>"
    using assms(2) ok
    by (auto simp: gate_parameter_def Let_def js_result split: option.splits)
  with assms(1) ok show ?thesis
    by (cases st') (auto simp: gate_invariant_def)
qed

lemma gate_loop:
  "each_res (gate_parameter rx) ps st = Inr st' \<Longrightarrow> gate_invariant qs st \<Longrightarrow> gate_invariant (qs @ ps) st'"
proof (induction ps arbitrary: qs st)
  case Nil
  then show ?case by simp
next
  case (Cons p ps)
  then obtain t where "gate_parameter rx p st = Inr t" "each_res (gate_parameter rx) ps t = Inr st'"
    by (auto simp: js_result)
  with Cons.IH [of t "qs @ [p]"] gate_parameter_invariant Cons.prems(2) show ?case by fastforce
qed

lemma each_res_unit:
  "each_res (\<lambda>u _. f u) us () = Inr () \<longleftrightarrow> (\<forall>u\<in>set us. f u = Inr ())"
  by (induction us) (auto simp: js_result)

lemma validOpenAPI32CookieUnit_shape:
  assumes "validOpenAPI32CookieUnit u = Inr ()"
  shows "\<exists>n v. u = n @ ''='' @ v \<and> is_http_token n \<and> list_all cookie_octet v"
proof -
  obtain i where i: "index_of CHR ''='' u = Some (Suc i)"
    "is_http_token (take (Suc i) u)" "list_all cookie_octet (drop (Suc (Suc i)) u)"
    using assms by (auto simp: validOpenAPI32CookieUnit_def Let_def split: option.splits nat.splits if_splits)
  then have "u = take (Suc i) u @ ''='' @ drop (Suc (Suc i)) u"
    using index_of_Some [of "CHR ''=''" u "Suc i"] id_take_nth_drop [of "Suc i" u] by simp
  with i show ?thesis by blast
qed

section \<open>Claims\<close>

text \<open>
  An operation the OpenAPI 3.2 gate admits has well-formed Parameter Objects with pairwise
  distinct identities, at most one querystring parameter and none beside an ordinary query
  parameter, path parameters that are exactly the expressions of the template, each used once,
  and no other path of the document has the same templated hierarchy.
\<close>

theorem openapi32_gate_sound:
  assumes "validateOpenAPI32OperationParameters rx paths path pathItem operation = Inr excluded"
    and "ps = effectiveParameterDeclarationRows pathItem operation"
  shows "distinct (map (\<lambda>p. (p_in p, p_name p)) ps) \<and>
    list_all (\<lambda>p. validateOpenAPI32ParameterObject p = Inr ()) ps \<and>
    length (filter (\<lambda>p. p_in p = ''querystring'') ps) \<le> 1 \<and>
    (filter (\<lambda>p. p_in p = ''querystring'') ps = [] \<or> filter (\<lambda>p. p_in p = ''query'') ps = []) \<and>
    checkPathTemplateDeclaration path ps True = None \<and>
    equivalentPathTemplateCollision paths path = None"
proof -
  let ?s0 = "\<lparr> g_seen = [], g_excluded = [], g_query = 0, g_querystring = 0 \<rparr>"
  obtain st where st: "each_res (gate_parameter rx) ps ?s0 = Inr st"
    "g_querystring st \<le> 1" "\<not> (0 < g_querystring st \<and> 0 < g_query st)"
    "checkPathTemplateDeclaration path ps True = None" "equivalentOpenAPI32Path paths path = None"
    using assms
    by (auto simp: validateOpenAPI32OperationParameters_def Let_def js_result not_less
        split: if_splits option.splits)
  have "gate_invariant ([] @ ps) st"
    by (rule gate_loop [OF st(1)]) (simp add: gate_invariant_def)
  moreover have "equivalentPathTemplateCollision paths path = equivalentOpenAPI32Path paths path"
    by (simp add: equivalentPathTemplateCollision_def equivalentOpenAPI32Path_def Let_def
        normalizedPathHierarchy_eq prod_eq_iff case_prod_beta conj_commute)
  ultimately show ?thesis
    using st(2-5) by (auto simp: gate_invariant_def list_all_iff)
qed

definition example_operation :: jsval where
  "example_operation =
     JObj [(''parameters'', JArr
       [JObj [(''name'', JStr ''id''), (''in'', JStr ''path''), (''required'', JBool True),
              (''schema'', JObj [(''type'', JStr ''string'')])],
        JObj [(''name'', JStr ''q''), (''in'', JStr ''query''),
              (''schema'', JObj [(''type'', JStr ''integer'')])]])]"

theorem openapi32_gate_sound_witness:
  "checkPathTemplateDeclaration ''/a/{id}'' (effectiveParameterDeclarationRows (JObj []) example_operation) True = None"
proof -
  have "validateOpenAPI32OperationParameters (\<lambda>_ _. None) [''/a/{id}'', ''/b/{id}''] ''/a/{id}'' (JObj []) example_operation = Inr []"
    by code_simp
  from openapi32_gate_sound [OF this refl] show ?thesis by simp
qed

text \<open>
  The two spellings of the path hierarchy, the scan of \<open>params.ts\<close> and the regular expression
  of \<open>openapi32-parameters.ts\<close>, agree on every path, so the 3.2 gate and the earlier editions see
  the same collisions.
\<close>

theorem path_hierarchies_agree:
  "normalizedPathHierarchy path = normalizedPathTemplateHierarchy path \<and>
   equivalentOpenAPI32Path paths selected = equivalentPathTemplateCollision paths selected"
  by (simp add: equivalentPathTemplateCollision_def equivalentOpenAPI32Path_def Let_def
      normalizedPathHierarchy_eq prod_eq_iff case_prod_beta conj_commute)

text \<open>
  Whatever the value, the contributions of a 3.2 cookie parameter of style \<open>cookie\<close> are cookie
  pairs of RFC 6265: a token, an equals sign, cookie octets.  No semicolon, space, comma or quote
  can split the header.
\<close>

theorem openapi32_cookie_units_are_pairs:
  assumes "serializeOpenAPI32CookieValue sj name v ''cookie'' explode = Inr units" and "u \<in> set units"
  shows "\<exists>n w. u = n @ ''='' @ w \<and> is_http_token n \<and> list_all cookie_octet w"
proof -
  have "validateOpenAPI32CookieUnits units = Inr ()"
    using assms(1) by (auto simp: serializeOpenAPI32CookieValue_def js_result)
  with assms(2) have "validOpenAPI32CookieUnit u = Inr ()"
    by (simp add: validateOpenAPI32CookieUnits_def each_res_unit)
  then show ?thesis by (rule validOpenAPI32CookieUnit_shape)
qed

theorem openapi32_cookie_units_are_pairs_witness:
  "\<exists>n w. ''sid=abc'' = n @ ''='' @ w \<and> is_http_token n \<and> list_all cookie_octet w"
  by (rule openapi32_cookie_units_are_pairs [of example_stringify "''sid''" "JStr ''abc''" True "[''sid=abc'']"])
    (code_simp, simp)

end
