(* ===== verification/Param_Route.thy ===== *)
theory Param_Route
  imports Openapi32_Params
begin

text \<open>
  The routing half of \<open>params.ts\<close>: one populated parameter onto its wire location, and one input
  object onto the parameters and the request body.  \<open>conv\<close> is the caller's scalar converter, \<open>sj\<close>
  the JSON serializer, \<open>form_body\<close> the 3.2 form encoder of \<open>media.ts\<close>.
\<close>

section \<open>Content-form parameters\<close>

definition content_entries :: "jsval \<Rightarrow> js_members" where
  "content_entries p = (case as_object (get_prop p ''content'') of None \<Rightarrow> [] | Some ms \<Rightarrow> ms)"

text \<open>ISO-8859-1 of a text: the characters up to U+00FF, one octet each.\<close>

fun latin1_encode :: "string \<Rightarrow> string option" where
  "latin1_encode [] = Some []"
| "latin1_encode (c # s) =
     (if is_ascii c then map_option ((#) c) (latin1_encode s)
      else
        (case s of
           [] \<Rightarrow> None
         | d # t \<Rightarrow>
             if c = CHR 0xC2 then map_option ((#) d) (latin1_encode t)
             else if c = CHR 0xC3 then map_option ((#) (char_of (byte d + 0x40))) (latin1_encode t)
             else None))"

definition encodeParameterContent :: "string \<Rightarrow> string option \<Rightarrow> (carriage_error, string) res" where
  "encodeParameterContent text charset =
     (let cs = (case charset of None \<Rightarrow> ''utf-8'' | Some c \<Rightarrow> ascii_lower c) in
      if cs = ''utf-8'' then Inr text
      else if cs = ''us-ascii'' then
        (if list_all is_ascii text then Inr text else Inl (NotRepresentable ''US-ASCII''))
      else if cs = ''iso-8859-1'' then
        (case latin1_encode text of None \<Rightarrow> Inl (NotRepresentable ''ISO-8859-1'') | Some b \<Rightarrow> Inr b)
      else Inl (UnsupportedCharset cs))"

definition param_content_text ::
  "json_stringify \<Rightarrow> jsval \<Rightarrow> jsval \<Rightarrow> string \<Rightarrow> string \<Rightarrow> (carriage_error, string) res" where
  "param_content_text sj p v mediaKey mt =
     (if isJSONMediaType mt then
        (case sj v of None \<Rightarrow> Inl (ValueError NoJSONValue) | Some t \<Rightarrow> Inr t)
      else if mt = ''text/plain'' then
        (case as_str v of None \<Rightarrow> Inl (ContentNeedsString (p_name p) mediaKey) | Some t \<Rightarrow> Inr t)
      else Inl (NoCarriage (p_name p) mediaKey))"

definition serializeParamContentValue ::
  "json_stringify \<Rightarrow> jsval \<Rightarrow> jsval \<Rightarrow> execution_profile \<Rightarrow> (carriage_error, string \<times> string option) res" where
  "serializeParamContentValue sj p v prof =
     (let keys = member_keys (content_entries p);
          mediaKey = (case keys of [] \<Rightarrow> [] | k # _ \<Rightarrow> k) in
      if mediaFidelity prof then
        (if length keys \<noteq> 1 then Inl (ExactlyOneMediaType (p_name p))
         else
           res_bind (res_err MediaError (parseMediaType mediaKey True)) (\<lambda>parsed.
             res_bind (param_content_text sj p v mediaKey (pm_base parsed)) (\<lambda>text.
               res_map (\<lambda>bytes. (text, Some bytes))
                 (encodeParameterContent text (map_of (pm_params parsed) ''charset'')))))
      else
        res_map (\<lambda>text. (text, None))
          (param_content_text sj p v mediaKey (normalizeMediaType mediaKey)))"

definition serializeParamContent :: "json_stringify \<Rightarrow> jsval \<Rightarrow> jsval \<Rightarrow> (carriage_error, string) res" where
  "serializeParamContent sj p v = res_map fst (serializeParamContentValue sj p v OPENAPI_PROFILE_BASE)"

section \<open>Preparing a value\<close>

type_synonym converter = "(jsval \<Rightarrow> jsval) option"

definition convert_scalar :: "converter \<Rightarrow> jsval \<Rightarrow> (carriage_error, jsval) res" where
  "convert_scalar conv v =
     (case conv of
        None \<Rightarrow> Inl ConversionRequired
      | Some f \<Rightarrow> (case f v of JStr s \<Rightarrow> Inr (JStr s) | _ \<Rightarrow> Inl ConversionNotString))"

fun convertParameterScalars :: "converter \<Rightarrow> jsval \<Rightarrow> bool \<Rightarrow> (carriage_error, jsval) res" where
  "convertParameterScalars conv JNull member = (if member then Inl NullMember else Inr JNull)"
| "convertParameterScalars conv (JArr xs) member =
     res_map JArr (imap_res (\<lambda>i x. res_err (AtIndex i) (convertParameterScalars conv x True)) 0 xs)"
| "convertParameterScalars conv (JObj ms) member =
     res_map JObj (map_res (\<lambda>m.
         res_err (AtMember (fst m)) (res_map (Pair (fst m)) (convertParameterScalars conv (snd m) True))) ms)"
| "convertParameterScalars conv (JStr s) member = Inr (JStr s)"
| "convertParameterScalars conv (JBool b) member = convert_scalar conv (JBool b)"
| "convertParameterScalars conv (JNum t) member = convert_scalar conv (JNum t)"
| "convertParameterScalars conv _ member = Inl OutsideScalarDomain"

fun isUndefinedStyleValue :: "jsval \<Rightarrow> bool" where
  "isUndefinedStyleValue JNull = True"
| "isUndefinedStyleValue (JArr xs) = (xs = [])"
| "isUndefinedStyleValue (JObj ms) = (ms = [])"
| "isUndefinedStyleValue _ = False"

definition nonRFCStyleDelimiters :: "string \<Rightarrow> string" where
  "nonRFCStyleDelimiters style =
     (if style = ''spaceDelimited'' then '' ''
      else if style = ''pipeDelimited'' then ''|''
      else if style = ''deepObject'' then ''[]=&''
      else [])"

definition containsAnyDelimiter :: "string \<Rightarrow> string \<Rightarrow> bool" where
  "containsAnyDelimiter v delimiters \<longleftrightarrow> list_ex (\<lambda>d. d \<in> set v) delimiters"

definition member_contains :: "string \<Rightarrow> jsval \<Rightarrow> bool" where
  "member_contains delimiters v \<longleftrightarrow> (case v of JStr s \<Rightarrow> containsAnyDelimiter s delimiters | _ \<Rightarrow> False)"

fun styleValueContainsDelimiter :: "jsval \<Rightarrow> string \<Rightarrow> bool" where
  "styleValueContainsDelimiter (JArr xs) delimiters = list_ex (member_contains delimiters) xs"
| "styleValueContainsDelimiter (JObj ms) delimiters =
     list_ex (\<lambda>(name, v). containsAnyDelimiter name delimiters \<or> member_contains delimiters v) ms"
| "styleValueContainsDelimiter _ delimiters = False"

definition prepareStrictParameterStyleValue ::
  "string \<Rightarrow> jsval \<Rightarrow> string \<Rightarrow> converter \<Rightarrow> (carriage_error, jsval) res" where
  "prepareStrictParameterStyleValue name v style conv =
     (if isUndefinedStyleValue v then
        (if style \<in> set [''matrix'', ''label'', ''simple'', ''form'', ''cookie''] then Inr JNull
         else Inl (UndefinedCell style))
      else
        res_bind (convertParameterScalars conv v False) (\<lambda>prepared.
          let delimiters = nonRFCStyleDelimiters style in
          if delimiters \<noteq> [] \<and>
             (containsAnyDelimiter name delimiters \<or> styleValueContainsDelimiter prepared delimiters)
          then Inl (StructuralDelimiter style)
          else if style = ''spaceDelimited'' \<or> style = ''pipeDelimited'' then
            (if as_array prepared = None \<and> as_object prepared = None then Inl (NeedsArrayOrObject style)
             else Inr prepared)
          else if style = ''deepObject'' \<and> as_object prepared = None then Inl NeedsObject
          else Inr prepared))"

definition prepareParameterStyleValue ::
  "string \<Rightarrow> jsval \<Rightarrow> string \<Rightarrow> converter \<Rightarrow> (carriage_error, jsval) res" where
  "prepareParameterStyleValue name v style conv =
     (if conv = None then Inr v else prepareStrictParameterStyleValue name v style conv)"

definition delimitedObjectAsSequence :: "jsval \<Rightarrow> string \<Rightarrow> jsval" where
  "delimitedObjectAsSequence v style =
     (case as_object v of
        None \<Rightarrow> v
      | Some ms \<Rightarrow>
          if style \<noteq> ''spaceDelimited'' \<and> style \<noteq> ''pipeDelimited'' then v
          else JArr (concat (map (\<lambda>name. [JStr name, member_of ms name]) (code_point_sort (member_keys ms)))))"

section \<open>Header and cookie grammar\<close>

definition validHeaderFieldValue :: "string \<Rightarrow> bool" where
  "validHeaderFieldValue v \<longleftrightarrow>
     (v = [] \<or> \<not> is_blank (hd v) \<and> \<not> is_blank (last v)) \<and>
     list_all (\<lambda>c. \<not> (byte c < 0x20 \<and> c \<noteq> CHR 0x09) \<and> byte c \<noteq> 0x7f) v"

definition validCookieValue :: "string \<Rightarrow> bool" where
  "validCookieValue v =
     (let starts = (v \<noteq> [] \<and> hd v = CHR 0x22);
          ends = (v \<noteq> [] \<and> last v = CHR 0x22);
          quoted = (starts \<or> ends) in
      if quoted \<and> \<not> (starts \<and> ends \<and> 2 \<le> length v) then False
      else list_all cookie_octet (if quoted then butlast (tl v) else v))"

definition valid_cookie_pair :: "string \<Rightarrow> bool" where
  "valid_cookie_pair u =
     (case index_of CHR ''='' u of
        None \<Rightarrow> False
      | Some i \<Rightarrow> 0 < i \<and> is_http_token (take i u) \<and> validCookieValue (drop (Suc i) u))"

definition validateCookieUnits :: "string list \<Rightarrow> (carriage_error, unit) res" where
  "validateCookieUnits units = each_res (\<lambda>u _. check (valid_cookie_pair u) (InvalidCookiePair u)) units ()"

definition validCookieString :: "string \<Rightarrow> bool" where
  "validCookieString v =
     (let units = split_str ''; '' v in [] \<notin> set units \<and> validateCookieUnits units = Inr ())"

text \<open>The name a query or cookie unit contributes, for the collision checks.\<close>

definition unit_name :: "string \<Rightarrow> string" where
  "unit_name u = (case index_of CHR ''='' u of None \<Rightarrow> u | Some i \<Rightarrow> take i u)"

definition queryContributionName :: "string \<Rightarrow> string" where
  "queryContributionName u =
     (let raw = unit_name u in
      (case decodeURIComponent (map (\<lambda>c. if c = CHR ''+'' then CHR '' '' else c) raw) of
         None \<Rightarrow> raw
       | Some d \<Rightarrow> d))"

definition cookieContributionName :: "string \<Rightarrow> string" where
  "cookieContributionName u = unit_name u"

section \<open>Routing one parameter\<close>

record populated =
  pop_header :: "string list"
  pop_query :: "string list"
  pop_cookie :: "string list"

record routed_input =
  resolvedPath :: string
  queryUnits :: "string list"
  headers :: "(string \<times> string) list"
  cookieUnits :: "string list"
  bodyFields :: js_members
  bodyValue :: jsval
  bodySet :: bool
  populated :: populated

record route_options =
  ro_converter :: converter
  ro_openapi32 :: bool

text \<open>What a location receives: \<open>push\<close> and \<open>Set.add\<close> on the record.\<close>

definition push_query :: "string list \<Rightarrow> string list \<Rightarrow> routed_input \<Rightarrow> routed_input" where
  "push_query units names r =
     r \<lparr> queryUnits := queryUnits r @ units,
         populated := (populated r) \<lparr> pop_query := fold List.insert names (pop_query (populated r)) \<rparr> \<rparr>"

definition push_header :: "string \<Rightarrow> string \<Rightarrow> routed_input \<Rightarrow> routed_input" where
  "push_header name v r =
     r \<lparr> headers := headers r @ [(name, v)],
         populated := (populated r) \<lparr> pop_header := List.insert (ascii_lower name) (pop_header (populated r)) \<rparr> \<rparr>"

definition push_cookie :: "string list \<Rightarrow> string list \<Rightarrow> routed_input \<Rightarrow> routed_input" where
  "push_cookie units names r =
     r \<lparr> cookieUnits := cookieUnits r @ units,
         populated := (populated r) \<lparr> pop_cookie := fold List.insert names (pop_cookie (populated r)) \<rparr> \<rparr>"

definition substitute_path :: "string \<Rightarrow> string \<Rightarrow> routed_input \<Rightarrow> routed_input" where
  "substitute_path name expanded r =
     r \<lparr> resolvedPath := replace_all (''{'' @ name @ ''}'') expanded (resolvedPath r) \<rparr>"

definition querystring_marker :: string where
  "querystring_marker = CHR 0x00 # ''querystring''"

definition routeContentParameter ::
  "json_stringify \<Rightarrow> form_body_encoder \<Rightarrow> execution_profile \<Rightarrow> route_options \<Rightarrow> jsval \<Rightarrow> jsval \<Rightarrow>
     routed_input \<Rightarrow> (carriage_error, routed_input) res" where
  "routeContentParameter sj form_body prof opts p v r =
     (let name = p_name p; revision3 = mediaFidelity prof in
      if ro_openapi32 opts \<and> p_in p = ''querystring'' then
        res_map (\<lambda>u. push_query [u] [querystring_marker] r) (serializeOpenAPI32QueryStringParameter form_body p v)
      else
        res_bind (serializeParamContentValue sj p v prof) (\<lambda>(text, bytes).
          let raw = (case bytes of None \<Rightarrow> text | Some b \<Rightarrow> bytesAsLatin1 b) in
          if p_in p = ''path'' then
            Inr (substitute_path name
                   (case bytes of None \<Rightarrow> encodePathValue text revision3 | Some b \<Rightarrow> percentEncodeBytes b False) r)
          else if p_in p = ''query'' then
            Inr (push_query
                   [queryEscape name False revision3 True @ ''='' @
                    (case bytes of None \<Rightarrow> queryEscape text False revision3 True
                                 | Some b \<Rightarrow> percentEncodeBytes b False)]
                   [name] r)
          else if p_in p = ''header'' then Inr (push_header name raw r)
          else if p_in p = ''cookie'' then
            (let u = name @ ''='' @ raw in
             res_map (\<lambda>_. push_cookie [u] [name] r)
               (if ro_openapi32 opts \<and> get_prop p ''style'' = JStr ''cookie''
                then validateOpenAPI32CookieUnits [u] else Inr ()))
          else Inl (UnknownLocation name (p_in p))))"

definition header_text ::
  "json_stringify \<Rightarrow> string \<Rightarrow> jsval \<Rightarrow> string \<Rightarrow> bool \<Rightarrow> (carriage_error, string) res" where
  "header_text sj name v style explode =
     res_bind (res_err ValueError (serializeHeaderValue sj v style explode)) (\<lambda>s.
       if \<not> validHeaderFieldValue s then Inl InvalidHeaderByte
       else if ascii_lower name = ''cookie'' \<and> \<not> validCookieString s then Inl InvalidRawCookie
       else Inr s)"

definition routeSchemaParameter ::
  "json_stringify \<Rightarrow> execution_profile \<Rightarrow> route_options \<Rightarrow> jsval \<Rightarrow> jsval \<Rightarrow>
     routed_input \<Rightarrow> (carriage_error, routed_input) res" where
  "routeSchemaParameter sj prof opts p v r =
     (let name = p_name p;
          allowReserved = (get_prop p ''allowReserved'' = JBool True);
          revision3 = mediaFidelity prof;
          m = (if ro_openapi32 opts then openAPI32ParameterSerializationMethod p else serializationMethod p);
          style = s_style m; explode = s_explode m in
      res_bind (prepareParameterStyleValue name v style (ro_converter opts)) (\<lambda>prepared.
        let w = delimitedObjectAsSequence prepared style in
        if p_in p = ''path'' then
          res_map (\<lambda>expanded. substitute_path name expanded r)
            (res_err (\<lambda>e. AtParameter ''path'' name (ValueError e)) (serializePathValue sj name w style explode revision3))
        else if p_in p = ''query'' then
          res_map (\<lambda>units. push_query units (name # map queryContributionName units) r)
            (res_err (\<lambda>e. AtParameter ''query'' name (ValueError e))
              (if ro_openapi32 opts then serializeOpenAPI32QueryValue sj name w style explode allowReserved
               else serializeQueryValue sj name w style explode allowReserved revision3 True True))
        else if p_in p = ''header'' then
          res_map (\<lambda>s. push_header name s r)
            (res_err (AtParameter ''header'' name) (header_text sj name w style explode))
        else if p_in p = ''cookie'' then
          res_bind
            (res_err (AtParameter ''cookie'' name)
              (if ro_openapi32 opts then serializeOpenAPI32CookieValue sj name w style explode
               else res_err ValueError (serializeCookieValue sj name w style explode cookie_escape)))
            (\<lambda>units. res_map (\<lambda>_. push_cookie units (name # map cookieContributionName units) r)
                        (validateCookieUnits units))
        else Inl (UnknownLocation name (p_in p))))"

definition routeParameter ::
  "json_stringify \<Rightarrow> form_body_encoder \<Rightarrow> execution_profile \<Rightarrow> route_options \<Rightarrow> jsval \<Rightarrow> jsval \<Rightarrow>
     routed_input \<Rightarrow> (carriage_error, routed_input) res" where
  "routeParameter sj form_body prof opts p v r =
     (if content_entries p \<noteq> [] then routeContentParameter sj form_body prof opts p v r
      else routeSchemaParameter sj prof opts p v r)"

section \<open>Routing an input object\<close>

text \<open>What routing reads of a body plan.\<close>

record body_plan =
  bp_declared :: bool
  bp_synthetic :: bool
  bp_wholeObject :: bool

definition SYNTHETIC_BODY_PROPERTY :: string where
  "SYNTHETIC_BODY_PROPERTY = ''body''"

definition empty_route :: "string \<Rightarrow> routed_input" where
  "empty_route pathTemplate =
     \<lparr> resolvedPath = pathTemplate, queryUnits = [], headers = [], cookieUnits = [], bodyFields = [],
       bodyValue = JUndefined, bodySet = False,
       populated = \<lparr> pop_header = [], pop_query = [], pop_cookie = [] \<rparr> \<rparr>"

record route_state =
  rs_routed :: routed_input
  rs_consumed :: "string list"
  rs_missingPath :: "string list"
  rs_missingRequired :: "string list"

definition route_declared ::
  "json_stringify \<Rightarrow> form_body_encoder \<Rightarrow> execution_profile \<Rightarrow> route_options \<Rightarrow> js_members \<Rightarrow> jsval \<Rightarrow>
     route_state \<Rightarrow> (carriage_error, route_state) res" where
  "route_declared sj form_body prof opts input p st =
     (if \<not> has_identity p then Inr st
      else if \<not> in_object (p_name p) input then
        Inr (if p_in p = ''path'' then st \<lparr> rs_missingPath := rs_missingPath st @ [p_name p] \<rparr>
             else if p_required p
             then st \<lparr> rs_missingRequired := rs_missingRequired st @ [p_in p @ ''/'' @ p_name p] \<rparr>
             else st)
      else
        res_map (\<lambda>r. st \<lparr> rs_routed := r, rs_consumed := List.insert (p_name p) (rs_consumed st) \<rparr>)
          (routeParameter sj form_body prof opts p (get_object input (p_name p)) (rs_routed st)))"

definition whole_value :: "body_plan option \<Rightarrow> bool" where
  "whole_value plan \<longleftrightarrow>
     (case plan of None \<Rightarrow> False | Some bp \<Rightarrow> bp_declared bp \<and> (bp_synthetic bp \<or> bp_wholeObject bp))"

definition route_field ::
  "body_plan option \<Rightarrow> string list \<Rightarrow> js_members \<Rightarrow> string \<Rightarrow> routed_input \<times> string list \<Rightarrow>
     routed_input \<times> string list" where
  "route_field plan consumed input name st =
     (let (r, unmatched) = st; v = member_of input name in
      if name \<in> set consumed then (r, unmatched)
      else
        (case plan of
           None \<Rightarrow> (r, unmatched @ [name])
         | Some bp \<Rightarrow>
             if \<not> bp_declared bp then (r, unmatched @ [name])
             else if whole_value plan then
               (if name = SYNTHETIC_BODY_PROPERTY then (r \<lparr> bodyValue := v, bodySet := True \<rparr>, unmatched)
                else (r, unmatched @ [name]))
             else (r \<lparr> bodyFields := assign_member name v (bodyFields r) \<rparr>, unmatched)))"

definition routeInput ::
  "json_stringify \<Rightarrow> form_body_encoder \<Rightarrow> jsval list \<Rightarrow> js_members \<Rightarrow> string \<Rightarrow> body_plan option \<Rightarrow>
     execution_profile \<Rightarrow> route_options \<Rightarrow> (carriage_error, routed_input) res" where
  "routeInput sj form_body params input pathTemplate plan prof opts =
     res_bind (each_res (route_declared sj form_body prof opts input) params
         \<lparr> rs_routed = empty_route pathTemplate, rs_consumed = [], rs_missingPath = [], rs_missingRequired = [] \<rparr>)
       (\<lambda>st.
         if rs_missingPath st \<noteq> [] then Inl (MissingPathParam (js_sort (rs_missingPath st)))
         else if rs_missingRequired st \<noteq> [] then Inl (MissingRequired (code_point_sort (rs_missingRequired st)))
         else
           let (r, unmatched) =
                 fold (route_field plan (rs_consumed st) input) (js_sort (member_keys input)) (rs_routed st, [])
           in if unmatched = [] then Inr r
              else if whole_value plan then Inl (UnmatchedWhole unmatched)
              else Inl (UnmatchedNoBody unmatched))"

section \<open>Preparing a routed value\<close>

definition prepareContentValue ::
  "json_stringify \<Rightarrow> jsval \<Rightarrow> jsval \<Rightarrow> bool \<Rightarrow> (carriage_error, jsval \<times> bool) res" where
  "prepareContentValue sj p v openapi32 =
     (if openapi32 \<and> p_in p = ''querystring'' then Inr (v, False)
      else
        res_bind (serializeParamContent sj p v) (\<lambda>s.
          if p_in p = ''header'' \<and> \<not> validHeaderFieldValue s then Inl InvalidHeaderByte
          else if p_in p = ''header'' \<and> ascii_lower (p_name p) = ''cookie'' \<and> \<not> validCookieString s
          then Inl InvalidRawCookie
          else res_map (\<lambda>_. (v, p_in p = ''cookie''))
                 (if p_in p = ''cookie'' then validateCookieUnits [p_name p @ ''='' @ s] else Inr ())))"

definition prepareSchemaParameterValue ::
  "json_stringify \<Rightarrow> jsval option \<Rightarrow> jsval \<Rightarrow> converter \<Rightarrow> bool \<Rightarrow> (carriage_error, jsval \<times> bool) res" where
  "prepareSchemaParameterValue sj parameter v conv openapi32 =
     (case parameter of
        None \<Rightarrow> Inl NoDeclaration
      | Some p \<Rightarrow>
          if as_object (get_prop p ''content'') \<noteq> None then prepareContentValue sj p v openapi32
          else
            (let m = (if openapi32 then openAPI32ParameterSerializationMethod p else serializationMethod p);
                 style = s_style m; explode = s_explode m in
             res_bind (prepareStrictParameterStyleValue (p_name p) v style conv) (\<lambda>prepared.
               let w = delimitedObjectAsSequence prepared style in
               res_bind
                 (if p_in p = ''header'' then
                    res_bind (res_err ValueError (serializeHeaderValue sj w style explode))
                      (\<lambda>s. check (validHeaderFieldValue s) InvalidHeaderByte)
                  else Inr ())
                 (\<lambda>_.
                   if p_in p = ''cookie'' then
                     res_bind
                       (if openapi32 then serializeOpenAPI32CookieValue sj (p_name p) w style explode
                        else res_err ValueError (serializeCookieValue sj (p_name p) w style explode cookie_escape))
                       (\<lambda>units.
                         if 1 < length units \<and> \<not> (openapi32 \<and> style = ''cookie'') then Inl SeveralCookiePairs
                         else res_map (\<lambda>_. (w, units \<noteq> [])) (validateCookieUnits units))
                   else Inr (w, False)))))"

section \<open>The path under routing\<close>

lemma percentEncodeBytes_chars:
  "c \<in> set (percentEncodeBytes b False) \<Longrightarrow> segment_safe c \<or> c = CHR ''%''"
  using encode_with_chars [of c "\<lambda>c. is_unreserved c \<or> (False \<and> c \<in> reserved_bytes)" b]
  by (auto simp: percentEncodeBytes_def is_unreserved_def is_alnum_def)

text \<open>The characters a path expansion is made of, and one substitution with such an expansion.\<close>

definition path_text :: "string \<Rightarrow> bool" where
  "path_text s \<longleftrightarrow> (\<forall>c\<in>set s. segment_safe c \<or> c = CHR ''%'' \<or> c \<in> set ''=,.;'')"

lemma path_text_expansion:
  "serializePathValue sj name v style explode revision3 = Inr out \<Longrightarrow> path_text out"
  using serializePathValue_drawn by (fastforce simp: pesc.drawn_from_def path_text_def)

lemma path_text_encoded: "path_text (encodePathValue s revision3)" "path_text (percentEncodeBytes b False)"
  unfolding path_text_def using pesc.esc_chars percentEncodeBytes_chars by blast+

definition structural :: "char \<Rightarrow> bool" where
  "structural c \<longleftrightarrow> c \<in> set ''/?#''"

lemma path_text_avoids: "path_text s \<Longrightarrow> structural c \<or> c = CHR ''$'' \<Longrightarrow> c \<notin> set s"
proof
  assume "path_text s" "structural c \<or> c = CHR ''$''" "c \<in> set s"
  then have "segment_safe c \<or> c = CHR ''%'' \<or> c \<in> set ''=,.;''" by (simp only: path_text_def)
  moreover have "c = CHR ''/'' \<or> c = CHR ''?'' \<or> c = CHR ''#'' \<or> c = CHR ''$''"
    using \<open>structural c \<or> c = CHR ''$''\<close> by (auto simp: structural_def)
  ultimately show False by (elim disjE) (simp_all add: char_class_defs)
qed

lemma count_substitute_path:
  assumes "path_text out" and "structural c" and "c \<notin> set name"
  shows "count_list (resolvedPath (substitute_path name out r)) c = count_list (resolvedPath r) c"
proof -
  have "c \<notin> set out" "CHR ''$'' \<notin> set out" using assms(1,2) path_text_avoids by blast+
  moreover have "c \<notin> set (''{'' @ name @ ''}'')" using assms(2,3) by (auto simp: structural_def)
  ultimately show ?thesis by (simp add: substitute_path_def count_replace_all del: append.simps)
qed

text \<open>What routing one parameter leaves alone, and the structure of the path it keeps.\<close>

definition routed_frame :: "string \<Rightarrow> routed_input \<Rightarrow> routed_input \<Rightarrow> bool" where
  "routed_frame name r r' \<longleftrightarrow>
     bodyFields r' = bodyFields r \<and> bodyValue r' = bodyValue r \<and> bodySet r' = bodySet r \<and>
     (\<forall>c. structural c \<longrightarrow> c \<notin> set name \<longrightarrow> count_list (resolvedPath r') c = count_list (resolvedPath r) c)"

lemma routed_frame_push [simp]:
  "routed_frame name r (push_query units names r)"
  "routed_frame name r (push_header n v r)"
  "routed_frame name r (push_cookie units names r)"
  by (simp_all add: routed_frame_def push_query_def push_header_def push_cookie_def)

lemma routed_frame_path: "path_text out \<Longrightarrow> routed_frame name r (substitute_path name out r)"
  using count_substitute_path by (simp add: routed_frame_def substitute_path_def)

lemma routeContentParameter_frame:
  "routeContentParameter sj form_body prof opts p v r = Inr r' \<Longrightarrow> routed_frame (p_name p) r r'"
  by (auto simp: routeContentParameter_def Let_def js_result path_text_encoded
      intro!: routed_frame_path split: if_splits option.splits prod.splits)

lemma routeSchemaParameter_frame:
  "routeSchemaParameter sj prof opts p v r = Inr r' \<Longrightarrow> routed_frame (p_name p) r r'"
  by (auto simp: routeSchemaParameter_def Let_def js_result path_text_expansion
      intro!: routed_frame_path split: if_splits option.splits prod.splits)

lemma routeParameter_frame:
  "routeParameter sj form_body prof opts p v r = Inr r' \<Longrightarrow> routed_frame (p_name p) r r'"
  by (auto simp: routeParameter_def routeContentParameter_frame routeSchemaParameter_frame split: if_splits)

section \<open>What one parameter puts on the wire\<close>

text \<open>
  The contribution of one populated parameter, by its location: the text that replaces its template
  expression, units of the query or of the cookie, or a header field.
\<close>

datatype wire =
    Path_Wire string string
  | Query_Wire "string list"
  | Header_Wire string string
  | Cookie_Wire "string list"

fun wire_path :: "wire \<Rightarrow> string \<Rightarrow> string" where
  "wire_path (Path_Wire name text) path = replace_all (''{'' @ name @ ''}'') text path"
| "wire_path _ path = path"

fun wire_query :: "wire \<Rightarrow> string list" where
  "wire_query (Query_Wire units) = units"
| "wire_query _ = []"

fun wire_headers :: "wire \<Rightarrow> (string \<times> string) list" where
  "wire_headers (Header_Wire name v) = [(name, v)]"
| "wire_headers _ = []"

fun wire_cookies :: "wire \<Rightarrow> string list" where
  "wire_cookies (Cookie_Wire units) = units"
| "wire_cookies _ = []"

definition content_wire ::
  "json_stringify \<Rightarrow> form_body_encoder \<Rightarrow> execution_profile \<Rightarrow> route_options \<Rightarrow> jsval \<Rightarrow> jsval \<Rightarrow> wire \<Rightarrow> bool" where
  "content_wire sj form_body prof opts p v w \<longleftrightarrow>
     (if ro_openapi32 opts \<and> p_in p = ''querystring''
      then \<exists>u. serializeOpenAPI32QueryStringParameter form_body p v = Inr u \<and> w = Query_Wire [u]
      else
        \<exists>text bytes. serializeParamContentValue sj p v prof = Inr (text, bytes) \<and>
          (let name = p_name p; revision3 = mediaFidelity prof;
               raw = (case bytes of None \<Rightarrow> text | Some b \<Rightarrow> bytesAsLatin1 b) in
           p_in p = ''path'' \<and>
             w = Path_Wire name (case bytes of None \<Rightarrow> encodePathValue text revision3 | Some b \<Rightarrow> percentEncodeBytes b False) \<or>
           p_in p = ''query'' \<and>
             w = Query_Wire [queryEscape name False revision3 True @ ''='' @
               (case bytes of None \<Rightarrow> queryEscape text False revision3 True | Some b \<Rightarrow> percentEncodeBytes b False)] \<or>
           p_in p = ''header'' \<and> w = Header_Wire name raw \<or>
           p_in p = ''cookie'' \<and> w = Cookie_Wire [name @ ''='' @ raw]))"

text \<open>A style parameter: the prepared value, expanded by the serializer of its location and edition.\<close>

definition schema_wire ::
  "json_stringify \<Rightarrow> execution_profile \<Rightarrow> route_options \<Rightarrow> jsval \<Rightarrow> jsval \<Rightarrow> wire \<Rightarrow> bool" where
  "schema_wire sj prof opts p v w \<longleftrightarrow>
     (let name = p_name p; allowReserved = (get_prop p ''allowReserved'' = JBool True); revision3 = mediaFidelity prof;
          m = (if ro_openapi32 opts then openAPI32ParameterSerializationMethod p else serializationMethod p);
          style = s_style m; explode = s_explode m in
      \<exists>prepared. prepareParameterStyleValue name v style (ro_converter opts) = Inr prepared \<and>
        (let u = delimitedObjectAsSequence prepared style in
         p_in p = ''path'' \<and>
           (\<exists>text. serializePathValue sj name u style explode revision3 = Inr text \<and> w = Path_Wire name text) \<or>
         p_in p = ''query'' \<and>
           (\<exists>units. (if ro_openapi32 opts then serializeOpenAPI32QueryValue sj name u style explode allowReserved
                     else serializeQueryValue sj name u style explode allowReserved revision3 True True) = Inr units \<and>
              w = Query_Wire units) \<or>
         p_in p = ''header'' \<and> (\<exists>s. header_text sj name u style explode = Inr s \<and> w = Header_Wire name s) \<or>
         p_in p = ''cookie'' \<and>
           (\<exists>units. (if ro_openapi32 opts then serializeOpenAPI32CookieValue sj name u style explode
                     else res_err ValueError (serializeCookieValue sj name u style explode cookie_escape)) = Inr units \<and>
              w = Cookie_Wire units)))"

definition parameter_wire ::
  "json_stringify \<Rightarrow> form_body_encoder \<Rightarrow> execution_profile \<Rightarrow> route_options \<Rightarrow> jsval \<Rightarrow> jsval \<Rightarrow> wire \<Rightarrow> bool" where
  "parameter_wire sj form_body prof opts p v w \<longleftrightarrow>
     (if content_entries p \<noteq> [] then content_wire sj form_body prof opts p v w else schema_wire sj prof opts p v w)"

text \<open>A routed input with the contributions \<open>ws\<close> of some parameters on top of another.\<close>

definition carries :: "wire list \<Rightarrow> routed_input \<Rightarrow> routed_input \<Rightarrow> bool" where
  "carries ws r r' \<longleftrightarrow>
     resolvedPath r' = fold wire_path ws (resolvedPath r) \<and>
     queryUnits r' = queryUnits r @ concat (map wire_query ws) \<and>
     headers r' = headers r @ concat (map wire_headers ws) \<and>
     cookieUnits r' = cookieUnits r @ concat (map wire_cookies ws)"

lemma carries_refl [simp]: "carries [] r r"
  by (simp add: carries_def)

lemma carries_append: "carries ws r r' \<Longrightarrow> carries us r' r'' \<Longrightarrow> carries (ws @ us) r r''"
  by (simp add: carries_def)

lemma carries_push [simp]:
  "carries [Path_Wire name text] r (substitute_path name text r)"
  "carries [Query_Wire units] r (push_query units names r)"
  "carries [Header_Wire name v] r (push_header name v r)"
  "carries [Cookie_Wire units] r (push_cookie units names r)"
  by (simp_all add: carries_def substitute_path_def push_query_def push_header_def push_cookie_def)

lemma routeContentParameter_wire:
  assumes "routeContentParameter sj form_body prof opts p v r = Inr r'"
  shows "\<exists>w. content_wire sj form_body prof opts p v w \<and> carries [w] r r'"
proof (cases "ro_openapi32 opts \<and> p_in p = ''querystring''")
  case True
  then show ?thesis using assms by (auto simp: routeContentParameter_def content_wire_def res_map_Inr_iff)
next
  case False
  then obtain t bytes where ser: "serializeParamContentValue sj p v prof = Inr (t, bytes)"
    using assms by (auto simp: routeContentParameter_def Let_def res_bind_Inr_iff)
  note rules = routeContentParameter_def content_wire_def Let_def ser res_map_Inr_iff
  consider "p_in p = ''path''" | "p_in p = ''query''" | "p_in p = ''header''" | "p_in p = ''cookie''"
    using assms False ser by (auto simp: routeContentParameter_def Let_def split: if_splits)
  then show ?thesis using assms False by cases (auto simp: rules split: option.splits)
qed

lemma routeSchemaParameter_wire:
  assumes "routeSchemaParameter sj prof opts p v r = Inr r'"
  shows "\<exists>w. schema_wire sj prof opts p v w \<and> carries [w] r r'"
proof -
  define style where "style = s_style (if ro_openapi32 opts then openAPI32ParameterSerializationMethod p else serializationMethod p)"
  obtain prepared where prepared: "prepareParameterStyleValue (p_name p) v style (ro_converter opts) = Inr prepared"
    using assms by (auto simp: routeSchemaParameter_def Let_def res_bind_Inr_iff style_def)
  note rules = routeSchemaParameter_def schema_wire_def Let_def style_def [symmetric] prepared res_map_Inr_iff res_err_Inr_iff
    res_bind_Inr_iff
  consider "p_in p = ''path''" | "p_in p = ''query''" | "p_in p = ''header''" | "p_in p = ''cookie''"
    using assms prepared by (auto simp: routeSchemaParameter_def Let_def style_def [symmetric] split: if_splits)
  then show ?thesis using assms by cases (auto simp: rules; blast intro: carries_push)+
qed

lemma routeParameter_wire:
  "routeParameter sj form_body prof opts p v r = Inr r' \<Longrightarrow>
     \<exists>w. parameter_wire sj form_body prof opts p v w \<and> carries [w] r r'"
  using routeContentParameter_wire routeSchemaParameter_wire
  by (auto simp: routeParameter_def parameter_wire_def split: if_splits)

section \<open>The loops of \<open>routeInput\<close>\<close>

definition declared_invariant :: "js_members \<Rightarrow> string \<Rightarrow> jsval list \<Rightarrow> route_state \<Rightarrow> bool" where
  "declared_invariant input tpl ps st \<longleftrightarrow>
     set (rs_consumed st) = {p_name p | p. p \<in> set ps \<and> has_identity p \<and> in_object (p_name p) input} \<and>
     set (rs_missingPath st) =
       {p_name p | p. p \<in> set ps \<and> has_identity p \<and> \<not> in_object (p_name p) input \<and> p_in p = ''path''} \<and>
     (rs_missingRequired st = [] \<longrightarrow>
       (\<forall>p\<in>set ps. has_identity p \<longrightarrow> p_required p \<longrightarrow> p_in p \<noteq> ''path'' \<longrightarrow> in_object (p_name p) input)) \<and>
     bodyFields (rs_routed st) = [] \<and>
     (\<forall>c. structural c \<longrightarrow> (\<forall>p\<in>set ps. c \<notin> set (p_name p)) \<longrightarrow>
        count_list (resolvedPath (rs_routed st)) c = count_list tpl c)"

lemma route_declared_step:
  assumes "route_declared sj form_body prof opts input p st = Inr st'" and "declared_invariant input tpl ps st"
  shows "declared_invariant input tpl (ps @ [p]) st'"
proof (cases "has_identity p \<and> in_object (p_name p) input")
  case False
  with assms show ?thesis
    by (auto simp: route_declared_def declared_invariant_def split: if_splits)
next
  case True
  then obtain r where r: "routeParameter sj form_body prof opts p (get_object input (p_name p)) (rs_routed st) = Inr r"
    and st': "st' = st \<lparr> rs_routed := r, rs_consumed := List.insert (p_name p) (rs_consumed st) \<rparr>"
    using assms(1) by (auto simp: route_declared_def js_result)
  from routeParameter_frame [OF r] True assms(2) show ?thesis
    unfolding st' by (auto simp: declared_invariant_def routed_frame_def)
qed

lemma route_declared_loop:
  "each_res (route_declared sj form_body prof opts input) ps st = Inr st' \<Longrightarrow>
     declared_invariant input tpl qs st \<Longrightarrow> declared_invariant input tpl (qs @ ps) st'"
proof (induction ps arbitrary: qs st)
  case Nil
  then show ?case by simp
next
  case (Cons p ps)
  then obtain t where t: "route_declared sj form_body prof opts input p st = Inr t"
    "each_res (route_declared sj form_body prof opts input) ps t = Inr st'"
    by (auto simp: js_result)
  from Cons.IH [OF t(2) route_declared_step [OF t(1) Cons.prems(2)]] show ?case by simp
qed

text \<open>The contributions of the supplied parameters, in the order of the declarations.\<close>

definition supplied_params :: "js_members \<Rightarrow> jsval list \<Rightarrow> jsval list" where
  "supplied_params input params = filter (\<lambda>p. has_identity p \<and> in_object (p_name p) input) params"

lemma route_declared_wires:
  "each_res (route_declared sj form_body prof opts input) ps st = Inr st' \<Longrightarrow>
     \<exists>ws. list_all2 (\<lambda>p. parameter_wire sj form_body prof opts p (get_object input (p_name p))) (supplied_params input ps) ws \<and>
       carries ws (rs_routed st) (rs_routed st')"
proof (induction ps arbitrary: st)
  case (Cons p ps)
  then obtain t where t: "route_declared sj form_body prof opts input p st = Inr t"
    "each_res (route_declared sj form_body prof opts input) ps t = Inr st'"
    by (auto simp: js_result)
  from Cons.IH [OF t(2)] obtain ws where ws:
    "list_all2 (\<lambda>p. parameter_wire sj form_body prof opts p (get_object input (p_name p))) (supplied_params input ps) ws"
    "carries ws (rs_routed t) (rs_routed st')" by blast
  show ?case
  proof (cases "has_identity p \<and> in_object (p_name p) input")
    case True
    then obtain w where "parameter_wire sj form_body prof opts p (get_object input (p_name p)) w"
      "carries [w] (rs_routed st) (rs_routed t)"
      using t(1) by (auto simp: route_declared_def js_result dest!: routeParameter_wire)
    with ws True show ?thesis
      by (intro exI [of _ "w # ws"]) (auto simp: supplied_params_def dest: carries_append)
  next
    case False
    then have "rs_routed t = rs_routed st" using t(1) by (auto simp: route_declared_def split: if_splits)
    with ws False show ?thesis by (auto simp: supplied_params_def)
  qed
qed (auto simp: supplied_params_def)

text \<open>Where the loop over the input's own fields has put a field.\<close>

definition placed :: "body_plan option \<Rightarrow> js_members \<Rightarrow> string \<Rightarrow> routed_input \<times> string list \<Rightarrow> bool" where
  "placed plan input k st \<longleftrightarrow>
     (let (r, unmatched) = st in
      k \<in> set unmatched \<or>
      (if whole_value plan
       then k = SYNTHETIC_BODY_PROPERTY \<and> bodySet r \<and> bodyValue r = member_of input k
       else k = ''__proto__'' \<or> map_of (bodyFields r) k = Some (member_of input k)))"

lemma route_field_keeps:
  "placed plan input k st \<Longrightarrow> placed plan input k (route_field plan consumed input name st)"
  by (cases st) (auto simp: placed_def route_field_def Let_def map_of_assign_member assign_member_def
      map_of_define_member split: option.splits)

lemma route_field_places:
  "name \<notin> set consumed \<Longrightarrow> placed plan input name (route_field plan consumed input name st)"
  using map_of_assign_member [of name "member_of input name"]
  by (cases st; cases "name = ''__proto__''")
    (auto simp: placed_def route_field_def Let_def whole_value_def split: option.splits)

lemma route_fields_place:
  assumes "k \<in> set names" and "k \<notin> set consumed"
  shows "placed plan input k (fold (route_field plan consumed input) names st)"
proof -
  have keep: "placed plan input k t \<Longrightarrow> placed plan input k (fold (route_field plan consumed input) ns t)" for ns t
    by (induction ns arbitrary: t) (simp_all add: route_field_keeps del: split_paired_All)
  show ?thesis
    using assms(1)
  proof (induction names arbitrary: st)
    case (Cons n ns)
    then show ?case
      using keep [OF route_field_places [OF assms(2)]] by (cases "n = k") auto
  qed simp
qed

lemma route_field_path [simp]:
  "resolvedPath (fst (route_field plan consumed input name st)) = resolvedPath (fst st)"
  by (cases st) (auto simp: route_field_def Let_def split: option.splits)

lemma route_fields_path:
  "resolvedPath (fst (fold (route_field plan consumed input) names st)) = resolvedPath (fst st)"
  by (induction names arbitrary: st) simp_all

lemma route_field_carries: "carries [] (fst st) (fst (route_field plan consumed input name st))"
  by (cases st) (auto simp: route_field_def carries_def Let_def split: option.splits)

lemma route_fields_carry: "carries [] (fst st) (fst (fold (route_field plan consumed input) names st))"
proof (induction names arbitrary: st)
  case (Cons n names)
  from carries_append [OF route_field_carries this] show ?case by simp
qed simp

lemma routeInput_wires:
  assumes "routeInput sj form_body params input tpl plan prof opts = Inr r"
  shows "\<exists>ws. list_all2 (\<lambda>p. parameter_wire sj form_body prof opts p (get_object input (p_name p))) (supplied_params input params) ws \<and>
    carries ws (empty_route tpl) r"
proof -
  obtain st where loop: "each_res (route_declared sj form_body prof opts input) params
      \<lparr> rs_routed = empty_route tpl, rs_consumed = [], rs_missingPath = [], rs_missingRequired = [] \<rparr> = Inr st"
    and rest: "fold (route_field plan (rs_consumed st) input) (js_sort (member_keys input)) (rs_routed st, []) = (r, [])"
    using assms by (auto simp: routeInput_def js_result Let_def split: if_splits prod.splits)
  from route_declared_wires [OF loop] obtain ws where
    "list_all2 (\<lambda>p. parameter_wire sj form_body prof opts p (get_object input (p_name p))) (supplied_params input params) ws"
    "carries ws (empty_route tpl) (rs_routed st)" by auto
  moreover have "carries [] (rs_routed st) r"
    using route_fields_carry [of "(rs_routed st, [])" plan "rs_consumed st" input "js_sort (member_keys input)"] rest by simp
  ultimately show ?thesis by (metis append.right_neutral carries_append)
qed

lemma routeInput_obtain:
  assumes "routeInput sj form_body params input tpl plan prof opts = Inr r"
  obtains st where "declared_invariant input tpl params st" "rs_missingPath st = []" "rs_missingRequired st = []"
    "fold (route_field plan (rs_consumed st) input) (js_sort (member_keys input)) (rs_routed st, []) = (r, [])"
proof -
  let ?s0 = "\<lparr> rs_routed = empty_route tpl, rs_consumed = [], rs_missingPath = [], rs_missingRequired = [] \<rparr>"
  obtain st where st: "each_res (route_declared sj form_body prof opts input) params ?s0 = Inr st"
    "rs_missingPath st = []" "rs_missingRequired st = []"
    "fold (route_field plan (rs_consumed st) input) (js_sort (member_keys input)) (rs_routed st, []) = (r, [])"
    using assms
    by (auto simp: routeInput_def js_result Let_def split: if_splits prod.splits)
  have "declared_invariant input tpl ([] @ params) st"
    by (rule route_declared_loop [OF st(1)]) (simp add: declared_invariant_def empty_route_def)
  with st that show ?thesis by simp
qed

section \<open>Claims\<close>

text \<open>
  C19.  Routing loses nothing and adds nothing.  When \<open>routeInput\<close> returns, the path is the template with
  the contributions of the supplied parameters substituted in declaration order, and the query units,
  header fields and cookie units are exactly their contributions, in that order; each contribution is the
  parameter's value (its member of the input, inherited ones included) in the serialization of its
  location.  Every own field of the input names such a parameter, or is the body value of a whole-value
  body, or is a field of the object body with its value unchanged.  Only a field named \<open>__proto__\<close> can
  vanish.
\<close>

theorem routing_places_every_field:
  assumes "routeInput sj form_body params input pathTemplate plan prof opts = Inr r"
  shows "(\<exists>ws. list_all2 (\<lambda>p. parameter_wire sj form_body prof opts p (get_object input (p_name p)))
        (supplied_params input params) ws \<and>
      resolvedPath r = fold wire_path ws pathTemplate \<and> queryUnits r = concat (map wire_query ws) \<and>
      headers r = concat (map wire_headers ws) \<and> cookieUnits r = concat (map wire_cookies ws)) \<and>
    (\<forall>k\<in>set (member_keys input). k = ''__proto__'' \<or> k \<in> p_name ` set (supplied_params input params) \<or>
      whole_value plan \<and> k = SYNTHETIC_BODY_PROPERTY \<and> bodySet r \<and> bodyValue r = member_of input k \<or>
      \<not> whole_value plan \<and> map_of (bodyFields r) k = Some (member_of input k))"
proof (rule conjI)
  from routeInput_wires [OF assms] show "\<exists>ws. list_all2 (\<lambda>p. parameter_wire sj form_body prof opts p (get_object input (p_name p)))
        (supplied_params input params) ws \<and>
      resolvedPath r = fold wire_path ws pathTemplate \<and> queryUnits r = concat (map wire_query ws) \<and>
      headers r = concat (map wire_headers ws) \<and> cookieUnits r = concat (map wire_cookies ws)"
    by (simp add: carries_def empty_route_def)
next
  obtain st where st: "declared_invariant input pathTemplate params st"
    "fold (route_field plan (rs_consumed st) input) (js_sort (member_keys input)) (rs_routed st, []) = (r, [])"
    using assms by (rule routeInput_obtain)
  have consumed: "set (rs_consumed st) = p_name ` set (supplied_params input params)"
    using st(1) by (auto simp: declared_invariant_def supplied_params_def)
  show "\<forall>k\<in>set (member_keys input). k = ''__proto__'' \<or> k \<in> p_name ` set (supplied_params input params) \<or>
      whole_value plan \<and> k = SYNTHETIC_BODY_PROPERTY \<and> bodySet r \<and> bodyValue r = member_of input k \<or>
      \<not> whole_value plan \<and> map_of (bodyFields r) k = Some (member_of input k)"
  proof
    fix k assume k: "k \<in> set (member_keys input)"
    show "k = ''__proto__'' \<or> k \<in> p_name ` set (supplied_params input params) \<or>
      whole_value plan \<and> k = SYNTHETIC_BODY_PROPERTY \<and> bodySet r \<and> bodyValue r = member_of input k \<or>
      \<not> whole_value plan \<and> map_of (bodyFields r) k = Some (member_of input k)"
    proof (cases "k \<in> set (rs_consumed st)")
      case False
      have "placed plan input k (fold (route_field plan (rs_consumed st) input) (js_sort (member_keys input)) (rs_routed st, []))"
        using False k by (intro route_fields_place) simp_all
      with st(2) show ?thesis by (auto simp: placed_def split: if_splits)
    qed (simp add: consumed)
  qed
qed

definition example_path_parameter :: jsval where
  "example_path_parameter =
     JObj [(''name'', JStr ''id''), (''in'', JStr ''path''), (''required'', JBool True)]"

definition example_body_plan :: body_plan where
  "example_body_plan = \<lparr> bp_declared = True, bp_synthetic = False, bp_wholeObject = False \<rparr>"

definition example_options :: route_options where
  "example_options = \<lparr> ro_converter = None, ro_openapi32 = False \<rparr>"

theorem routing_places_every_field_witness:
  "\<exists>r. routeInput example_stringify (\<lambda>_ _. Inr []) [example_path_parameter]
        [(''note'', JStr ''n''), (''id'', JStr ''a/b'')] ''/x/{id}'' (Some example_body_plan)
        OPENAPI_PROFILE_FULL example_options = Inr r \<and>
      map_of (bodyFields r) ''note'' = Some (JStr ''n'') \<and> queryUnits r = [] \<and>
      (\<exists>w. parameter_wire example_stringify (\<lambda>_ _. Inr []) OPENAPI_PROFILE_FULL example_options example_path_parameter
             (JStr ''a/b'') w \<and> resolvedPath r = wire_path w ''/x/{id}'')"
proof -
  let ?in = "[(''note'', JStr ''n''), (''id'', JStr ''a/b'')]"
  let ?run = "routeInput example_stringify (\<lambda>_ _. Inr []) [example_path_parameter] ?in
      ''/x/{id}'' (Some example_body_plan) OPENAPI_PROFILE_FULL example_options"
  have "(case ?run of Inl e \<Rightarrow> False | Inr r \<Rightarrow> queryUnits r = [])" by code_simp
  then obtain r where r: "?run = Inr r" "queryUnits r = []" by (cases ?run) simp_all
  have ps: "supplied_params ?in [example_path_parameter] = [example_path_parameter]"
    "p_name example_path_parameter = ''id''" "get_object ?in ''id'' = JStr ''a/b''" by code_simp+
  show ?thesis
    using routing_places_every_field [OF r(1)] r
    by (auto simp: ps list_all2_Cons1 member_keys_def whole_value_def example_body_plan_def member_of_def)
qed

text \<open>
  C22.  A request leaves only with its URL complete: when \<open>routeInput\<close> returns, the input had a value
  for every declared path parameter and for every required parameter.
\<close>

theorem routing_needs_path_and_required:
  assumes "routeInput sj form_body params input pathTemplate plan prof opts = Inr r"
    and "p \<in> set params" and "has_identity p" and "p_in p = ''path'' \<or> p_required p"
  shows "in_object (p_name p) input"
proof -
  obtain st where st: "declared_invariant input pathTemplate params st" "rs_missingPath st = []"
    "rs_missingRequired st = []"
    using assms(1) by (rule routeInput_obtain)
  show ?thesis
  proof (rule ccontr)
    assume "\<not> in_object (p_name p) input"
    with st assms(2-4) show False unfolding declared_invariant_def by (cases "p_in p = ''path''") auto
  qed
qed

theorem routing_needs_path_and_required_witness:
  "in_object ''id'' [(''id'', JStr ''7'')]"
proof -
  let ?run = "routeInput example_stringify (\<lambda>_ _. Inr []) [example_path_parameter] [(''id'', JStr ''7'')]
      ''/x/{id}'' None OPENAPI_PROFILE_BASE example_options"
  have "(case ?run of Inl e \<Rightarrow> False | Inr r \<Rightarrow> True)" by code_simp
  then obtain r where r: "?run = Inr r" by (cases ?run) simp_all
  have "p_name example_path_parameter = ''id''" "has_identity example_path_parameter"
    "p_in example_path_parameter = ''path''"
    by code_simp+
  with routing_needs_path_and_required [OF r, of example_path_parameter] show ?thesis by simp
qed

text \<open>
  C20.  Routing keeps the structure of the URL path: whatever the values, the resolved path has
  exactly as many slashes, question marks and hashes as the template (for parameter names without
  those characters), so no value can add a segment, start a query or cut the path off.
\<close>

theorem routing_keeps_path_structure:
  assumes "routeInput sj form_body params input pathTemplate plan prof opts = Inr r"
    and "c \<in> set ''/?#''" and "\<forall>p\<in>set params. c \<notin> set (p_name p)"
  shows "count_list (resolvedPath r) c = count_list pathTemplate c"
proof -
  obtain st where st: "declared_invariant input pathTemplate params st"
    "fold (route_field plan (rs_consumed st) input) (js_sort (member_keys input)) (rs_routed st, []) = (r, [])"
    using assms(1) by (rule routeInput_obtain)
  have "structural c" using assms(2) by (simp only: structural_def)
  with st(1) assms(3) have "count_list (resolvedPath (rs_routed st)) c = count_list pathTemplate c"
    unfolding declared_invariant_def by blast
  then show ?thesis
    using route_fields_path [of plan "rs_consumed st" input "js_sort (member_keys input)" "(rs_routed st, [])"] st(2)
    by simp
qed

theorem routing_keeps_path_structure_witness:
  "\<exists>r. routeInput example_stringify (\<lambda>_ _. Inr []) [example_path_parameter] [(''id'', JStr ''../a?b'')]
        ''/x/{id}/y'' None OPENAPI_PROFILE_BASE example_options = Inr r \<and>
      count_list (resolvedPath r) CHR ''/'' = 3"
proof -
  let ?run = "routeInput example_stringify (\<lambda>_ _. Inr []) [example_path_parameter] [(''id'', JStr ''../a?b'')]
      ''/x/{id}/y'' None OPENAPI_PROFILE_BASE example_options"
  have "(case ?run of Inl e \<Rightarrow> False | Inr r \<Rightarrow> True)" by code_simp
  then obtain r where r: "?run = Inr r" by (cases ?run) simp_all
  have "p_name example_path_parameter = ''id''" by code_simp
  with routing_keeps_path_structure [OF r, of "CHR ''/''"] r show ?thesis by simp
qed

end
