(* ===== verification/Swagger20_Params.thy ===== *)
theory Swagger20_Params
  imports Unicode Declaration Base64 Param_Route "HOL-Library.Product_Lexorder"
begin

text \<open>
  \<open>swagger20-parameters.ts\<close>: the effective parameters of a Swagger 2.0 operation, what a declaration
  must satisfy, the assertions on values, and the serialization of one native input; with the
  member readers of \<open>swagger20-model.ts\<close>.  Errors carry the text they are thrown with.

  Parameters of the model: the number and equality functions of \<open>@openbindings/json\<close>, the regular
  expression engine, the host's collation (\<open>localeCompare\<close> compares collation keys), the caller's
  scalar converter, and the resolver of the reference graph.
\<close>

datatype sw_error =
    Sw_Error string
  | Sw_Config_Required string string
  | Sw_Unresolved

record sw_env =
  compareNumberTokens :: "string \<Rightarrow> string \<Rightarrow> int"
  multipleNumberTokens :: "string \<Rightarrow> string \<Rightarrow> bool"
  json_equal :: "jsval \<Rightarrow> jsval \<Rightarrow> bool"
  decimal_carrier :: "string \<Rightarrow> bool"
  regexp :: "string \<Rightarrow> string \<Rightarrow> bool option"
  collation :: "string \<Rightarrow> nat list"
  scalar_converter :: "(jsval \<Rightarrow> (string, string) res) option"

section \<open>Members\<close>

datatype 'a sw_member = Absent | Ill_Typed | Valid 'a

fun sw_value :: "'a sw_member \<Rightarrow> 'a option" where
  "sw_value (Valid v) = Some v"
| "sw_value _ = None"

fun sw_present :: "'a sw_member \<Rightarrow> bool" where
  "sw_present Absent = False"
| "sw_present _ = True"

definition typed_member :: "(jsval \<Rightarrow> 'a option) \<Rightarrow> js_members \<Rightarrow> string \<Rightarrow> 'a sw_member" where
  "typed_member read ms k =
     (case map_of ms k of
        None \<Rightarrow> Absent
      | Some v \<Rightarrow> (case read v of None \<Rightarrow> Ill_Typed | Some a \<Rightarrow> Valid a))"

fun as_bool :: "jsval \<Rightarrow> bool option" where
  "as_bool (JBool b) = Some b"
| "as_bool _ = None"

definition stringMember :: "js_members \<Rightarrow> string \<Rightarrow> string sw_member" where
  "stringMember = typed_member as_str"

definition booleanMember :: "js_members \<Rightarrow> string \<Rightarrow> bool sw_member" where
  "booleanMember = typed_member as_bool"

definition objectMember :: "js_members \<Rightarrow> string \<Rightarrow> js_members sw_member" where
  "objectMember = typed_member as_object"

definition arrayMember :: "js_members \<Rightarrow> string \<Rightarrow> jsval list sw_member" where
  "arrayMember = typed_member as_array"

section \<open>Values and assertions\<close>

fun numberValue :: "jsval \<Rightarrow> string option" where
  "numberValue (JNum t) = Some t"
| "numberValue _ = None"

definition finiteNumber :: "jsval \<Rightarrow> bool" where
  "finiteNumber v \<longleftrightarrow> numberValue v \<noteq> None"

definition integer_text :: "string \<Rightarrow> bool" where
  "integer_text t \<longleftrightarrow>
     (let d = (if prefix ''-'' t then tl t else t) in
      d \<noteq> [] \<and> list_all is_digit d \<and> (hd d \<noteq> CHR ''0'' \<or> d = ''0''))"

definition safe_integer_text :: "string \<Rightarrow> bool" where
  "safe_integer_text t \<longleftrightarrow>
     integer_text t \<and> digits_value 0 (if prefix ''-'' t then tl t else t) \<le> 9007199254740991"

definition literalInteger :: "sw_env \<Rightarrow> jsval \<Rightarrow> bool" where
  "literalInteger env v =
     (case numberValue v of
        None \<Rightarrow> False
      | Some t \<Rightarrow> if decimal_carrier env t then integer_text t else safe_integer_text t)"

definition sw_check :: "bool \<Rightarrow> string \<Rightarrow> (sw_error, unit) res" where
  "sw_check ok message = check ok (Sw_Error message)"

definition validateValueType :: "sw_env \<Rightarrow> jsval \<Rightarrow> string \<Rightarrow> (sw_error, unit) res" where
  "validateValueType env v type =
     (if type = ''string'' \<and> \<not> is_str v then Inl (Sw_Error ''value is not string'')
      else if type = ''boolean'' \<and> as_bool v = None then Inl (Sw_Error ''value is not boolean'')
      else if type = ''number'' \<and> \<not> finiteNumber v then Inl (Sw_Error ''value is not a finite number'')
      else if type = ''integer'' \<and> \<not> literalInteger env v
      then Inl (Sw_Error ''value is not a literal JSON integer'')
      else if type = ''array'' \<and> as_array v = None then Inl (Sw_Error ''value is not array'')
      else Inr ())"

definition check_each :: "(bool \<times> string) list \<Rightarrow> (sw_error, unit) res" where
  "check_each cs = each_res (\<lambda>(ok, message) _. sw_check ok message) cs ()"

definition nonnegative_integer :: "sw_env \<Rightarrow> jsval \<Rightarrow> bool" where
  "nonnegative_integer env v \<longleftrightarrow>
     literalInteger env v \<and> 0 \<le> compareNumberTokens env (the (numberValue v)) ''0''"

definition validateAssertionDeclaration :: "sw_env \<Rightarrow> js_members \<Rightarrow> (sw_error, unit) res" where
  "validateAssertionDeclaration env raw =
     check_each
       (map (\<lambda>n. (\<not> has_member raw n \<or> finiteNumber (member_of raw n), n @ '' is not a finite number''))
          [''multipleOf'', ''maximum'', ''minimum''] @
        map (\<lambda>n. (booleanMember raw n \<noteq> Ill_Typed, n @ '' is not a boolean''))
          [''exclusiveMaximum'', ''exclusiveMinimum'', ''uniqueItems''] @
        map (\<lambda>n. (\<not> has_member raw n \<or> nonnegative_integer env (member_of raw n),
                   n @ '' is not a nonnegative integer''))
          [''maxLength'', ''minLength'', ''maxItems'', ''minItems''] @
        [(stringMember raw ''pattern'' \<noteq> Ill_Typed, ''pattern is not a string''),
         (case stringMember raw ''pattern'' of Valid p \<Rightarrow> regexp env p [] \<noteq> None | _ \<Rightarrow> True,
          ''pattern is not an ECMA-262 regular expression''),
         (\<not> has_member raw ''enum'' \<or>
            (case as_array (member_of raw ''enum'') of None \<Rightarrow> False | Some xs \<Rightarrow> xs \<noteq> []),
          ''enum is not a nonempty array'')])"

definition bound_order :: "sw_env \<Rightarrow> js_members \<Rightarrow> string \<Rightarrow> string \<Rightarrow> int option" where
  "bound_order env raw k n =
     (if member_of raw k = JUndefined then None
      else Some (compareNumberTokens env n (the (numberValue (member_of raw k)))))"

definition has_repeat :: "sw_env \<Rightarrow> jsval list \<Rightarrow> bool" where
  "has_repeat env xs \<longleftrightarrow>
     list_ex (\<lambda>i. list_ex (\<lambda>p. json_equal env (xs ! i) p) (take i xs)) [0..<length xs]"

definition number_checks :: "sw_env \<Rightarrow> js_members \<Rightarrow> string \<Rightarrow> (bool \<times> string) list" where
  "number_checks env raw n =
     [(member_of raw ''multipleOf'' = JUndefined \<or>
         multipleNumberTokens env n (the (numberValue (member_of raw ''multipleOf''))),
       ''value violates multipleOf''),
      (case bound_order env raw ''maximum'' n of
         None \<Rightarrow> True
       | Some ord \<Rightarrow> \<not> (0 < ord \<or> (ord = 0 \<and> member_of raw ''exclusiveMaximum'' = JBool True)),
       ''value exceeds maximum''),
      (case bound_order env raw ''minimum'' n of
         None \<Rightarrow> True
       | Some ord \<Rightarrow> \<not> (ord < 0 \<or> (ord = 0 \<and> member_of raw ''exclusiveMinimum'' = JBool True)),
       ''value is below minimum'')]"

definition string_checks :: "sw_env \<Rightarrow> js_members \<Rightarrow> string \<Rightarrow> (bool \<times> string) list" where
  "string_checks env raw s =
     (let n = decimal (length (code_points s)) in
      [(case bound_order env raw ''maxLength'' n of None \<Rightarrow> True | Some ord \<Rightarrow> \<not> 0 < ord, ''string exceeds maxLength''),
       (case bound_order env raw ''minLength'' n of None \<Rightarrow> True | Some ord \<Rightarrow> \<not> ord < 0, ''string is below minLength''),
       (case member_of raw ''pattern'' of JStr p \<Rightarrow> regexp env p s = Some True | _ \<Rightarrow> True,
        ''string does not match pattern'')])"

definition array_checks :: "sw_env \<Rightarrow> js_members \<Rightarrow> jsval list \<Rightarrow> (bool \<times> string) list" where
  "array_checks env raw xs =
     (let n = decimal (length xs) in
      [(case bound_order env raw ''maxItems'' n of None \<Rightarrow> True | Some ord \<Rightarrow> \<not> 0 < ord, ''array exceeds maxItems''),
       (case bound_order env raw ''minItems'' n of None \<Rightarrow> True | Some ord \<Rightarrow> \<not> ord < 0, ''array is below minItems''),
       (\<not> (member_of raw ''uniqueItems'' = JBool True \<and> has_repeat env xs), ''array violates uniqueItems'')])"

text \<open>The type of the value has been checked when the assertions are.\<close>

definition validateAssertions :: "sw_env \<Rightarrow> js_members \<Rightarrow> jsval \<Rightarrow> string \<Rightarrow> (sw_error, unit) res" where
  "validateAssertions env raw v type =
     check_each
       ((case as_array (member_of raw ''enum'') of
           None \<Rightarrow> []
         | Some cs \<Rightarrow> [(list_ex (json_equal env v) cs, ''value is outside enum'')]) @
        (if type = ''number'' \<or> type = ''integer'' then number_checks env raw (the (numberValue v))
         else if type = ''string'' then string_checks env raw (the (as_str v))
         else if type = ''array'' then array_checks env raw (the (as_array v))
         else []))"

section \<open>Items Objects\<close>

datatype sw_items = Items (items_raw: js_members) (items_type: string) (items_items: "sw_items option")

definition items_types :: "string list" where
  "items_types = [''string'', ''number'', ''integer'', ''boolean'', ''array'']"

fun validateItemsValue :: "sw_env \<Rightarrow> sw_items \<Rightarrow> jsval \<Rightarrow> (sw_error, unit) res" where
  "validateItemsValue env (Items raw type inner) v =
     (if v = JNull then Inl (Sw_Error ''Items Object default is null'')
      else
        res_bind (validateValueType env v type) (\<lambda>_.
        res_bind (validateAssertions env raw v type) (\<lambda>_.
          case (inner, as_array v) of
            (Some items, Some xs) \<Rightarrow>
              if type = ''array'' then res_map (\<lambda>_. ()) (map_res (validateItemsValue env items) xs) else Inr ()
          | _ \<Rightarrow> Inr ())))"

function parseItems :: "sw_env \<Rightarrow> js_members \<Rightarrow> (sw_error, sw_items) res" where
  "parseItems env raw =
     (case stringMember raw ''type'' of
        Valid type \<Rightarrow>
          if type \<notin> set items_types
          then Inl (Sw_Error (''Items Object type '' @ json_quote type @ '' is not admitted''))
          else
            res_bind
              (if type = ''array'' then
                 (case objectMember raw ''items'' of
                    Valid nested \<Rightarrow> res_map Some (parseItems env nested)
                  | _ \<Rightarrow> Inl (Sw_Error ''nested array Items Object requires items''))
               else Inr None) (\<lambda>inner.
            res_bind (validateAssertionDeclaration env raw) (\<lambda>_.
            let result = Items raw type inner in
            if has_member raw ''default''
            then res_map (\<lambda>_. result) (validateItemsValue env result (member_of raw ''default''))
            else Inr result))
      | _ \<Rightarrow> Inl (Sw_Error ''Items Object requires string type''))"
  by pat_completeness auto
termination
proof (relation "measure (\<lambda>(env, raw). size (JObj raw))")
  fix env :: sw_env and raw nested :: js_members and type :: string
  assume "objectMember raw ''items'' = Valid nested"
  then have "map_of raw ''items'' = Some (JObj nested)"
    by (auto simp: objectMember_def typed_member_def split: option.splits)
  then show "((env, nested), env, raw) \<in> measure (\<lambda>(env, raw). size (JObj raw))"
    using size_member_of by fastforce
qed simp

section \<open>Declarations\<close>

record sw_resource =
  sr_requested :: "string option"
  sr_retrieval :: "string option"

record sw_param =
  sp_raw :: js_members
  sp_resource :: sw_resource
  sp_name :: string
  sp_in :: string
  sp_type :: string
  sp_required :: bool
  sp_allowEmpty :: bool
  sp_format :: string
  sp_items :: "sw_items option"

definition sw_locations :: "string list" where
  "sw_locations = [''path'', ''query'', ''header'', ''formData'', ''body'']"

definition sw_owned_headers :: "string list" where
  "sw_owned_headers =
     [''host'', ''content-length'', ''content-type'', ''connection'', ''keep-alive'',
      ''proxy-authorization'', ''proxy-connection'', ''te'', ''trailer'', ''transfer-encoding'', ''upgrade'']"

definition member_or :: "'a \<Rightarrow> 'a sw_member \<Rightarrow> 'a" where
  "member_or d m = (case m of Valid v \<Rightarrow> v | _ \<Rightarrow> d)"

definition validateDeclaredValue :: "sw_env \<Rightarrow> sw_param \<Rightarrow> jsval \<Rightarrow> (sw_error, unit) res" where
  "validateDeclaredValue env p v =
     (if sp_type p = ''file'' \<or> v = JNull then Inl (Sw_Error ''default does not conform to the declared type'')
      else
        res_bind
          (if sp_type p = ''array'' then
             (case as_array v of
                None \<Rightarrow> Inl (Sw_Error ''default is not an array'')
              | Some xs \<Rightarrow> res_map (\<lambda>_. ()) (map_res (validateItemsValue env (the (sp_items p))) xs))
           else validateValueType env v (sp_type p)) (\<lambda>_.
        validateAssertions env (sp_raw p) v (sp_type p)))"

text \<open>The collection format of an array, and its Items Object.\<close>

definition array_declaration :: "sw_env \<Rightarrow> sw_param \<Rightarrow> (sw_error, sw_param) res" where
  "array_declaration env p =
     (let collection = stringMember (sp_raw p) ''collectionFormat'' in
      if sp_type p = ''array'' then
        (case objectMember (sp_raw p) ''items'' of
           Valid raw_items \<Rightarrow>
             res_bind (parseItems env raw_items) (\<lambda>items.
             let format = member_or ''csv'' collection in
             if items_type items = ''array''
             then Inl (Sw_Error ''nested non-body arrays have no unambiguous collection serialization'')
             else if format \<notin> set [''csv'', ''ssv'', ''tsv'', ''pipes'', ''multi'']
             then Inl (Sw_Error (''collectionFormat '' @ json_quote format @ '' is not admitted''))
             else if format = ''multi'' \<and> sp_in p \<noteq> ''query'' \<and> sp_in p \<noteq> ''formData''
             then Inl (Sw_Error (''collectionFormat multi is not admitted for '' @ sp_in p))
             else Inr (p \<lparr> sp_items := Some items, sp_format := format \<rparr>))
         | _ \<Rightarrow> Inl (Sw_Error ''array parameter requires an Items Object''))
      else if sw_present collection then Inl (Sw_Error ''collectionFormat applies only to array parameters'')
      else Inr p)"

definition header_declaration :: "sw_param \<Rightarrow> (sw_error, unit) res" where
  "header_declaration p =
     (if sp_in p \<noteq> ''header'' then Inr ()
      else if \<not> is_http_token (sp_name p) then Inl (Sw_Error ''header name is not an HTTP field-name'')
      else sw_check (ascii_lower (sp_name p) \<notin> set sw_owned_headers)
             (''header parameter '' @ json_quote (sp_name p) @ '' collides with a processor-owned field''))"

definition nonbody_declaration :: "sw_env \<Rightarrow> sw_param \<Rightarrow> (sw_error, sw_param) res" where
  "nonbody_declaration env p =
     (case stringMember (sp_raw p) ''type'' of
        Valid type \<Rightarrow>
          let allow = booleanMember (sp_raw p) ''allowEmptyValue'' in
          if type \<notin> set items_types \<and> \<not> (type = ''file'' \<and> sp_in p = ''formData'')
          then Inl (Sw_Error (''type '' @ json_quote type @ '' is not admitted for '' @ sp_in p))
          else if allow = Ill_Typed then Inl (Sw_Error ''allowEmptyValue is not a boolean'')
          else if sw_present allow \<and> sp_in p \<noteq> ''query'' \<and> sp_in p \<noteq> ''formData''
          then Inl (Sw_Error ''allowEmptyValue applies only to query and formData'')
          else if stringMember (sp_raw p) ''collectionFormat'' = Ill_Typed
          then Inl (Sw_Error ''collectionFormat is not a string'')
          else
            res_bind (array_declaration env (p \<lparr> sp_type := type, sp_allowEmpty := (allow = Valid True) \<rparr>)) (\<lambda>p.
            res_bind (header_declaration p) (\<lambda>_.
            res_bind (validateAssertionDeclaration env (sp_raw p)) (\<lambda>_.
            if has_member (sp_raw p) ''default''
            then res_map (\<lambda>_. p) (validateDeclaredValue env p (member_of (sp_raw p) ''default''))
            else Inr p)))
      | _ \<Rightarrow> Inl (Sw_Error ''non-body parameter requires string type''))"

definition validateParameterDeclaration :: "sw_env \<Rightarrow> sw_param \<Rightarrow> (sw_error, sw_param) res" where
  "validateParameterDeclaration env p =
     (case (stringMember (sp_raw p) ''name'', stringMember (sp_raw p) ''in'') of
        (Valid name, Valid loc) \<Rightarrow>
          let required = booleanMember (sp_raw p) ''required'';
              q = p \<lparr> sp_name := name, sp_in := loc, sp_required := (required = Valid True) \<rparr> in
          if name = [] then Inl (Sw_Error ''name and in are required with string values'')
          else if loc \<notin> set sw_locations then Inl (Sw_Error (''in value '' @ json_quote loc @ '' is not admitted''))
          else if required = Ill_Typed then Inl (Sw_Error ''required is not a boolean'')
          else if loc = ''path'' \<and> required \<noteq> Valid True
          then Inl (Sw_Error ''path parameters require required: true'')
          else if loc = ''body'' then
            (case objectMember (sp_raw p) ''schema'' of
               Valid _ \<Rightarrow> Inr q
             | _ \<Rightarrow> Inl (Sw_Error ''body parameter requires an object schema''))
          else nonbody_declaration env q
      | _ \<Rightarrow> Inl (Sw_Error ''name and in are required with string values''))"

section \<open>Effective parameters\<close>

record sw_resolution =
  sn_node :: jsval
  sn_resource :: sw_resource
  sn_cycle :: bool

type_synonym sw_resolver = "string \<Rightarrow> sw_resource \<Rightarrow> (sw_error, sw_resolution) res"

definition reference_key :: "sw_resource \<Rightarrow> string \<Rightarrow> string" where
  "reference_key r target =
     (case sr_retrieval r of
        Some u \<Rightarrow> u
      | None \<Rightarrow> (case sr_requested r of Some u \<Rightarrow> u | None \<Rightarrow> [])) @ ''|parameter|'' @ target"

text \<open>
  Following a chain of references.  The set \<open>active\<close> is shared by the calls, and the source returns
  the nested call without awaiting it inside \<open>try \<dots> finally\<close>: the nested call checks and adds its key,
  reaches its first \<open>await\<close>, and only then the \<open>finally\<close> of its caller removes the caller's key.  So a
  call finds in \<open>active\<close> the key of its immediate caller and no other.  The first argument bounds the
  number of references followed; \<open>Sw_Unresolved\<close> stands for a chain longer than that, and
  \<open>parameter_references_resolve\<close> says when it cannot occur.
\<close>

fun resolveParameter ::
  "sw_resolver \<Rightarrow> nat \<Rightarrow> jsval \<Rightarrow> sw_resource \<Rightarrow> string list \<Rightarrow> (sw_error, sw_param) res" where
  "resolveParameter resolve n (JObj ms) resource active =
     (case stringMember ms ''$ref'' of
        Ill_Typed \<Rightarrow> Inl (Sw_Error ''Parameter Reference Object has an invalid $ref'')
      | Valid target \<Rightarrow>
          if target = [] then Inl (Sw_Error ''Parameter Reference Object has an invalid $ref'')
          else if reference_key resource target \<in> set active
          then Inl (Sw_Error ''selected Parameter reference cycle is not resolvable'')
          else
            (case n of
               0 \<Rightarrow> Inl Sw_Unresolved
             | Suc m \<Rightarrow>
                 res_bind (resolve target resource) (\<lambda>r.
                 if sn_cycle r then Inl (Sw_Error ''selected Parameter reference cycle is not resolvable'')
                 else resolveParameter resolve m (sn_node r) (sn_resource r) [reference_key resource target]))
      | Absent \<Rightarrow>
          Inr \<lparr> sp_raw = ms, sp_resource = resource, sp_name = member_or [] (stringMember ms ''name''),
                sp_in = member_or [] (stringMember ms ''in''), sp_type = [], sp_required = False,
                sp_allowEmpty = False, sp_format = [], sp_items = None \<rparr>)"
| "resolveParameter resolve n _ resource active = Inl (Sw_Error ''Parameter or Reference Object is not an object'')"

definition sw_identity :: "sw_param \<Rightarrow> string" where
  "sw_identity p = sp_in p @ [CHR 0x00] @ sp_name p"

definition scope_step ::
  "sw_resolver \<Rightarrow> nat \<Rightarrow> sw_resource \<Rightarrow> string \<Rightarrow> nat \<times> jsval \<Rightarrow> sw_param list \<Rightarrow> (sw_error, sw_param list) res" where
  "scope_step resolve n resource owner entry ps =
     res_bind (resolveParameter resolve n (snd entry) resource []) (\<lambda>p.
       if sp_name p = [] \<or> sp_in p \<notin> set sw_locations
       then Inl (Sw_Error (''selected Swagger 2.0 '' @ owner @ '' parameter '' @ decimal (fst entry) @
                           '' requires nonempty name and in''))
       else if sw_identity p \<in> set (map sw_identity ps)
       then Inl (Sw_Error (''selected Swagger 2.0 '' @ owner @ '' repeats parameter identity '' @ sw_identity p))
       else Inr (ps @ [p]))"

definition parameterScope ::
  "sw_resolver \<Rightarrow> nat \<Rightarrow> jsval list sw_member \<Rightarrow> sw_resource \<Rightarrow> string \<Rightarrow> (sw_error, sw_param list) res" where
  "parameterScope resolve n declaration resource owner =
     (case declaration of
        Absent \<Rightarrow> Inr []
      | Ill_Typed \<Rightarrow> Inl (Sw_Error (''selected Swagger 2.0 '' @ owner @ '' parameters field is not an array''))
      | Valid xs \<Rightarrow> each_res (scope_step resolve n resource owner) (enumerate 0 xs) [])"

record sw_set =
  ss_all :: "sw_param list"
  ss_nonBody :: "sw_param list"
  ss_body :: "sw_param option"
  ss_qualified :: bool
  ss_names :: "(string \<times> string) list"
  ss_headers :: "(string \<times> string) list"
  ss_bodies :: nat
  ss_forms :: nat

definition empty_set :: sw_set where
  "empty_set =
     \<lparr> ss_all = [], ss_nonBody = [], ss_body = None, ss_qualified = False, ss_names = [], ss_headers = [],
       ss_bodies = 0, ss_forms = 0 \<rparr>"

text \<open>\<open>byWire[location]\<close>, a map of the non-body parameters by name.\<close>

definition by_wire :: "sw_set \<Rightarrow> string \<Rightarrow> string \<Rightarrow> sw_param option" where
  "by_wire S loc name = List.find (\<lambda>p. sp_in p = loc \<and> sp_name p = name) (rev (ss_nonBody S))"

definition wire_names :: "sw_set \<Rightarrow> string \<Rightarrow> string list" where
  "wire_names S loc = map sp_name (filter (\<lambda>p. sp_in p = loc) (ss_nonBody S))"

definition admit_header :: "sw_param \<Rightarrow> sw_set \<Rightarrow> (sw_error, sw_set) res" where
  "admit_header p S =
     (let folded = ascii_lower (sp_name p) in
      case map_of (ss_headers S) folded of
        Some prior \<Rightarrow>
          if prior \<noteq> sp_name p
          then Inl (Sw_Error (''effective header parameters '' @ json_quote prior @ '' and '' @
                              json_quote (sp_name p) @ '' differ only by ASCII case''))
          else Inr S
      | None \<Rightarrow> Inr (S \<lparr> ss_headers := (folded, sp_name p) # ss_headers S \<rparr>))"

definition admit_parameter :: "sw_param \<Rightarrow> sw_set \<Rightarrow> (sw_error, sw_set) res" where
  "admit_parameter p S =
     (let S = S \<lparr> ss_all := ss_all S @ [p] \<rparr> in
      if sp_in p = ''body'' then Inr (S \<lparr> ss_bodies := Suc (ss_bodies S), ss_body := Some p \<rparr>)
      else
        let S = S \<lparr> ss_forms := (if sp_in p = ''formData'' then Suc (ss_forms S) else ss_forms S),
                        ss_nonBody := ss_nonBody S @ [p] \<rparr>;
            S = (case map_of (ss_names S) (sp_name p) of
                     None \<Rightarrow> S \<lparr> ss_names := (sp_name p, sp_in p) # ss_names S \<rparr>
                   | Some previous \<Rightarrow> if previous \<noteq> sp_in p then S \<lparr> ss_qualified := True \<rparr> else S) in
        if sp_in p = ''header'' then admit_header p S else Inr S)"

text \<open>An optional header parameter whose name is no field name is dropped instead of refused.\<close>

definition effective_step :: "sw_env \<Rightarrow> sw_param \<Rightarrow> sw_set \<Rightarrow> (sw_error, sw_set) res" where
  "effective_step env p S =
     (case validateParameterDeclaration env p of
        Inl e \<Rightarrow>
          if sp_in p = ''header'' \<and> booleanMember (sp_raw p) ''required'' \<noteq> Valid True \<and> sp_name p \<noteq> [] \<and>
             \<not> is_http_token (sp_name p)
          then Inr S else Inl e
      | Inr q \<Rightarrow> admit_parameter q S)"

text \<open>The expressions of a path template, with the index turned into the remaining text.\<close>

function path_expressions :: "string \<Rightarrow> (sw_error, string list) res" where
  "path_expressions [] = Inr []"
| "path_expressions (c # s) =
     (if c = CHR ''{'' then
        (case cut (CHR ''}'') s of
           None \<Rightarrow> Inl (Sw_Error ''path template has an unterminated expression'')
         | Some (name, rest) \<Rightarrow>
             if name = [] \<or> CHR ''{'' \<in> set name
             then Inl (Sw_Error ''path template has a malformed expression'')
             else res_map ((#) name) (path_expressions rest))
      else if c = CHR ''}'' then Inl (Sw_Error ''path template has an unmatched closing brace'')
      else path_expressions s)"
  by pat_completeness auto
termination by (relation "measure length") (auto simp: cut_Some)

definition validatePathParameters :: "string \<Rightarrow> string list \<Rightarrow> (sw_error, unit) res" where
  "validatePathParameters path names =
     res_bind (path_expressions path) (\<lambda>exprs.
     res_bind (each_res (\<lambda>n _. sw_check (n \<in> set names)
         (''path template expression '' @ json_quote n @ '' has no effective path parameter'')) (remdups exprs) ()) (\<lambda>_.
     each_res (\<lambda>n _. sw_check (n \<in> set exprs)
         (''effective path parameter '' @ json_quote n @ '' has no matching template expression'')) names ()))"

definition effectiveSwagger20Parameters ::
  "sw_env \<Rightarrow> sw_resolver \<Rightarrow> nat \<Rightarrow> string \<Rightarrow> jsval list sw_member \<times> sw_resource \<Rightarrow> jsval list sw_member \<times> sw_resource \<Rightarrow>
     (sw_error, sw_set) res" where
  "effectiveSwagger20Parameters env resolve n path path_item operation =
     res_bind (parameterScope resolve n (fst path_item) (snd path_item) ''Path Item'') (\<lambda>pathParameters.
     res_bind (parameterScope resolve n (fst operation) (snd operation) ''Operation'') (\<lambda>operationParameters.
     let overridden = map sw_identity operationParameters;
         effective = filter (\<lambda>p. sw_identity p \<notin> set overridden) pathParameters @ operationParameters in
     res_bind (each_res (effective_step env) effective empty_set) (\<lambda>s.
     if ss_bodies s > 1 then Inl (Sw_Error ''effective parameter set contains more than one body parameter'')
     else if ss_bodies s > 0 \<and> ss_forms s > 0
     then Inl (Sw_Error ''effective parameter set mixes body and formData parameters'')
     else res_map (\<lambda>_. s) (validatePathParameters path (wire_names s ''path'')))))"

definition swagger20ParameterInfos :: "sw_set \<Rightarrow> (string \<times> string \<times> string \<times> bool) list" where
  "swagger20ParameterInfos s = map (\<lambda>p. (sp_name p, sp_in p, sp_type p, sp_required p)) (ss_all s)"

section \<open>Serialization\<close>

record sw_contribution =
  wc_name :: string
  wc_value :: string
  wc_present :: bool
  wc_delimiter :: "char option"
  wc_octets :: "string option"

definition base64_char :: "char \<Rightarrow> bool" where
  "base64_char c \<longleftrightarrow> is_alnum c \<or> c = CHR ''+'' \<or> c = CHR ''/''"

fun base64_shape :: "string \<Rightarrow> bool" where
  "base64_shape [] = True"
| "base64_shape (w # x # y # z # s) =
     (base64_char w \<and> base64_char x \<and>
      (if y = CHR ''='' \<and> z = CHR ''='' then s = []
       else base64_char y \<and> (if z = CHR ''='' then s = [] else base64_char z \<and> base64_shape s)))"
| "base64_shape _ = False"

text \<open>\<open>atob\<close> here refuses nonzero pad bits itself, which the source refuses in the next step.\<close>

definition canonicalBase64Bytes :: "string \<Rightarrow> (sw_error, string) res" where
  "canonicalBase64Bytes v =
     (if \<not> base64_shape v then Inl (Sw_Error ''value is not canonical padded Base64'')
      else
        case atob v of
          None \<Rightarrow> Inl (Sw_Error ''value has nonzero unused Base64 pad bits'')
        | Some bytes \<Rightarrow>
            if btoa bytes \<noteq> v then Inl (Sw_Error ''value has nonzero unused Base64 pad bits'') else Inr bytes)"

definition sw_convertScalar :: "sw_env \<Rightarrow> jsval \<Rightarrow> (string, string) res" where
  "sw_convertScalar env v =
     (case v of
        JStr s \<Rightarrow> Inr s
      | JUndefined \<Rightarrow> Inl ''value is outside the JSON scalar conversion domain''
      | JFun \<Rightarrow> Inl ''value is outside the JSON scalar conversion domain''
      | JArr _ \<Rightarrow> Inl ''value is outside the JSON scalar conversion domain''
      | JObj _ \<Rightarrow> Inl ''value is outside the JSON scalar conversion domain''
      | _ \<Rightarrow>
          (case scalar_converter env of
             None \<Rightarrow> Inl ''JSON boolean, number, or null requires parameterConversion''
           | Some f \<Rightarrow> f v))"

definition convert_member :: "sw_env \<Rightarrow> sw_param \<Rightarrow> nat \<Rightarrow> jsval \<Rightarrow> (sw_error, string) res" where
  "convert_member env p i v =
     res_bind
       (if v = JNull then Inr ()
        else
          let items = the (sp_items p) in
          res_bind (validateValueType env v (items_type items)) (\<lambda>_.
            validateAssertions env (items_raw items) v (items_type items))) (\<lambda>_.
     res_err (\<lambda>m. Sw_Error (''parameter '' @ json_quote (sp_name p) @ '' array member '' @ decimal i @ '': '' @ m))
       (sw_convertScalar env v))"

definition validateAndConvert :: "sw_env \<Rightarrow> sw_param \<Rightarrow> jsval \<Rightarrow> (sw_error, string list) res" where
  "validateAndConvert env p v =
     (if sp_type p = ''array'' then
        (case as_array v of
           None \<Rightarrow> Inl (Sw_Error (''parameter '' @ json_quote (sp_name p) @ '' requires a JSON array''))
         | Some xs \<Rightarrow>
             res_bind (validateAssertions env (sp_raw p) v ''array'') (\<lambda>_. imap_res (convert_member env p) 0 xs))
      else
        res_bind
          (if v = JNull then Inr ()
           else res_bind (validateValueType env v (sp_type p)) (\<lambda>_.
                  validateAssertions env (sp_raw p) v (sp_type p))) (\<lambda>_.
        res_map (\<lambda>s. [s]) (res_err Sw_Error (sw_convertScalar env v))))"

definition collectionDelimiter :: "string \<Rightarrow> char" where
  "collectionDelimiter format =
     (if format = ''ssv'' then CHR '' '' else if format = ''tsv'' then CHR 0x09
      else if format = ''pipes'' then CHR ''|'' else CHR '','')"

definition contribution :: "sw_param \<Rightarrow> string \<Rightarrow> bool \<Rightarrow> sw_contribution" where
  "contribution p v present =
     \<lparr> wc_name = sp_name p, wc_value = v, wc_present = present, wc_delimiter = None, wc_octets = None \<rparr>"

text \<open>The choice of the empty spelling: \<open>None\<close> when the caller configured none.\<close>

definition serializeParameter ::
  "sw_env \<Rightarrow> string option \<Rightarrow> sw_param \<Rightarrow> jsval \<Rightarrow> (sw_error, sw_contribution list) res" where
  "serializeParameter env emptyValueForm p v =
     (if sp_type p = ''file'' then
        (case as_str v of
           None \<Rightarrow> Inl (Sw_Error (''parameter '' @ json_quote (sp_name p) @ '' requires a canonical Base64 file value''))
         | Some s \<Rightarrow>
             res_map (\<lambda>bytes. [(contribution p [] True) \<lparr> wc_octets := Some bytes \<rparr>]) (canonicalBase64Bytes s))
      else
        res_bind (validateAndConvert env p v) (\<lambda>converted.
          let emptyArray = (sp_type p = ''array'' \<and> converted = [] \<and> (sp_in p = ''query'' \<or> sp_in p = ''formData'')) in
          if emptyArray \<or> (sp_type p \<noteq> ''array'' \<and> converted = [[]]) then
            (if \<not> sp_allowEmpty p
             then Inl (Sw_Error (''parameter '' @ json_quote (sp_name p) @ '' does not admit an '' @
                                 (if emptyArray then ''empty value'' else ''empty string'')))
             else if emptyValueForm = Some ''name-only'' then Inr [contribution p [] False]
             else if emptyValueForm = Some ''empty'' then Inr [contribution p [] True]
             else Inl (Sw_Config_Required ''emptyValueForm'' []))
          else if sp_type p \<noteq> ''array'' then Inr (map (\<lambda>s. contribution p s True) converted)
          else if sp_format p = ''multi'' then Inr (map (\<lambda>s. contribution p s True) converted)
          else
            let d = collectionDelimiter (sp_format p) in
            res_map (\<lambda>_. [(contribution p (join [d] converted) True) \<lparr> wc_delimiter := Some d \<rparr>])
              (imap_res (\<lambda>i s. sw_check (d \<notin> set s)
                  (''parameter '' @ json_quote (sp_name p) @ '' array member '' @ decimal i @
                   '' contains its structural delimiter'')) 0 converted)))"

definition swagger20PercentEncode :: "string \<Rightarrow> string" where
  "swagger20PercentEncode = encode_with is_unreserved"

definition encodeContribution :: "sw_contribution \<Rightarrow> string" where
  "encodeContribution c =
     (case wc_delimiter c of
        None \<Rightarrow> swagger20PercentEncode (wc_value c)
      | Some d \<Rightarrow> join [d] (map swagger20PercentEncode (split_str [d] (wc_value c))))"

definition swagger20RawQuery :: "sw_contribution list \<Rightarrow> string" where
  "swagger20RawQuery cs =
     join ''&'' (map (\<lambda>c. wc_name c @ (if wc_present c then ''='' @ wc_value c else [])) cs)"

text \<open>\<open>httpFieldValue\<close>: nothing to trim, no control character but the tab.\<close>

definition httpFieldValue :: "string \<Rightarrow> bool" where
  "httpFieldValue v \<longleftrightarrow> v = js_trim v \<and> list_all (\<lambda>c. \<not> (byte c < 0x20 \<and> c \<noteq> CHR 0x09) \<and> byte c \<noteq> 0x7f) v"

text \<open>\<open>cookieString\<close>: the regular expression of cookie pairs joined by a semicolon and a space.\<close>

definition sw_cookie_pair :: "string \<Rightarrow> bool" where
  "sw_cookie_pair u =
     (case cut (CHR ''='') u of
        None \<Rightarrow> False
      | Some (name, v) \<Rightarrow>
          is_http_token name \<and>
          (list_all cookie_octet v \<or>
           (2 \<le> length v \<and> hd v = CHR 0x22 \<and> last v = CHR 0x22 \<and> list_all cookie_octet (butlast (tl v)))))"

definition cookieString :: "string \<Rightarrow> bool" where
  "cookieString v \<longleftrightarrow> list_all sw_cookie_pair (split_str ''; '' v)"

section \<open>Routing\<close>

record sw_input =
  si_path :: js_members
  si_query :: js_members
  si_header :: js_members
  si_formData :: js_members
  si_body :: jsval
  si_bodyPresent :: bool

record sw_routed =
  sw_resolvedPath :: string
  sw_query :: "sw_contribution list"
  sw_headers :: "sw_contribution list"
  sw_formData :: "sw_contribution list"
  sw_body :: jsval
  sw_bodyPresent :: bool
  sw_formPresent :: bool

definition provided :: "sw_input \<Rightarrow> string \<Rightarrow> js_members" where
  "provided input loc =
     (if loc = ''path'' then si_path input else if loc = ''query'' then si_query input
      else if loc = ''header'' then si_header input else si_formData input)"

definition encoded_query :: "sw_contribution \<Rightarrow> sw_contribution" where
  "encoded_query c =
     c \<lparr> wc_name := swagger20PercentEncode (wc_name c),
         wc_value := (if wc_present c then encodeContribution c else []) \<rparr>"

definition route_header :: "sw_param \<Rightarrow> sw_contribution \<Rightarrow> sw_routed \<Rightarrow> (sw_error, sw_routed) res" where
  "route_header p c r =
     (if \<not> httpFieldValue (wc_value c)
      then Inl (Sw_Error (''header parameter '' @ json_quote (sp_name p) @ '' contains a field-invalid byte''))
      else if ascii_lower (sp_name p) = ''cookie'' \<and> \<not> cookieString (wc_value c)
      then Inl (Sw_Error (''header parameter '' @ json_quote (sp_name p) @ '' is not a complete Cookie field value''))
      else Inr (r \<lparr> sw_headers := sw_headers r @ [c] \<rparr>))"

definition route_contributions :: "sw_param \<Rightarrow> sw_contribution list \<Rightarrow> sw_routed \<Rightarrow> (sw_error, sw_routed) res" where
  "route_contributions p cs r =
     (if sp_in p = ''path'' then
        (case cs of
           [c] \<Rightarrow>
             if wc_present c
             then Inr (r \<lparr> sw_resolvedPath :=
                         replace_all (''{'' @ sp_name p @ ''}'') (encodeContribution c) (sw_resolvedPath r) \<rparr>)
             else Inl (Sw_Error (''path parameter '' @ json_quote (sp_name p) @ '' did not produce one value''))
         | _ \<Rightarrow> Inl (Sw_Error (''path parameter '' @ json_quote (sp_name p) @ '' did not produce one value'')))
      else if sp_in p = ''query'' then Inr (r \<lparr> sw_query := sw_query r @ map encoded_query cs \<rparr>)
      else if sp_in p = ''header'' then each_res (route_header p) cs r
      else Inr (r \<lparr> sw_formPresent := True, sw_formData := sw_formData r @ cs \<rparr>))"

definition route_parameter ::
  "sw_env \<Rightarrow> string option \<Rightarrow> sw_input \<Rightarrow> sw_param \<Rightarrow> sw_routed \<Rightarrow> (sw_error, sw_routed) res" where
  "route_parameter env emptyValueForm input p r =
     (case map_of (provided input (sp_in p)) (sp_name p) of
        None \<Rightarrow>
          if sp_required p
          then Inl (Sw_Error (''required '' @ sp_in p @ '' parameter '' @ json_quote (sp_name p) @ '' is missing''))
          else Inr r
      | Some v \<Rightarrow>
          res_bind (serializeParameter env emptyValueForm p v) (\<lambda>cs. route_contributions p cs r))"

definition unknown_parameter :: "sw_set \<Rightarrow> sw_input \<Rightarrow> string \<Rightarrow> (sw_error, unit) res" where
  "unknown_parameter S input loc =
     each_res (\<lambda>name _. sw_check (by_wire S loc name \<noteq> None)
         (''unknown '' @ loc @ '' parameter '' @ json_quote name)) (member_keys (provided input loc)) ()"

definition routeSwagger20Input ::
  "sw_env \<Rightarrow> sw_set \<Rightarrow> string \<Rightarrow> sw_input \<Rightarrow> string option \<Rightarrow> (sw_error, sw_routed) res" where
  "routeSwagger20Input env S path input emptyValueForm =
     res_bind (each_res (\<lambda>loc _. unknown_parameter S input loc) [''path'', ''query'', ''header'', ''formData''] ()) (\<lambda>_.
     if ss_body S = None \<and> si_bodyPresent input
     then Inl (Sw_Error ''body was supplied but the operation has no body parameter'')
     else if (case ss_body S of None \<Rightarrow> False | Some b \<Rightarrow> sp_required b) \<and> \<not> si_bodyPresent input
     then Inl (Sw_Error ''required body is missing'')
     else
       each_res (route_parameter env emptyValueForm input)
         (sort_key (\<lambda>p. (collation env (sp_in p), collation env (sp_name p))) (ss_nonBody S))
         \<lparr> sw_resolvedPath = path, sw_query = [], sw_headers = [], sw_formData = [], sw_body = si_body input,
           sw_bodyPresent = si_bodyPresent input, sw_formPresent = False \<rparr>)"


section \<open>Termination of reference chains\<close>

text \<open>More steps never change an answer that needed fewer.\<close>

declare resolveParameter.simps(1) [simp del]

lemma resolveParameter_ref:
  assumes "stringMember ms ''$ref'' = Valid t"
  shows "resolveParameter resolve 0 (JObj ms) r active =
      (if t = [] then Inl (Sw_Error ''Parameter Reference Object has an invalid $ref'')
       else if reference_key r t \<in> set active
       then Inl (Sw_Error ''selected Parameter reference cycle is not resolvable'')
       else Inl Sw_Unresolved)"
    and "resolveParameter resolve (Suc n) (JObj ms) r active =
      (if t = [] then Inl (Sw_Error ''Parameter Reference Object has an invalid $ref'')
       else if reference_key r t \<in> set active
       then Inl (Sw_Error ''selected Parameter reference cycle is not resolvable'')
       else
         res_bind (resolve t r) (\<lambda>x.
           if sn_cycle x then Inl (Sw_Error ''selected Parameter reference cycle is not resolvable'')
           else resolveParameter resolve n (sn_node x) (sn_resource x) [reference_key r t]))"
  by (simp_all add: resolveParameter.simps(1) [of resolve "0"] resolveParameter.simps(1) [of resolve "Suc n"] assms)

lemma resolveParameter_absent:
  "stringMember ms ''$ref'' = Absent \<Longrightarrow> \<exists>p. \<forall>n. resolveParameter resolve n (JObj ms) r active = Inr p"
  by (intro exI allI) (rule trans [OF resolveParameter.simps(1)], simp)

lemma resolveParameter_ill_typed:
  "stringMember ms ''$ref'' = Ill_Typed \<Longrightarrow>
     resolveParameter resolve n (JObj ms) r active = Inl (Sw_Error ''Parameter Reference Object has an invalid $ref'')"
  by (rule trans [OF resolveParameter.simps(1)]) simp

lemma resolveParameter_no_ref:
  assumes "\<And>t. stringMember ms ''$ref'' \<noteq> Valid t"
  shows "resolveParameter resolve n (JObj ms) r active = resolveParameter resolve m (JObj ms) r active"
    and "resolveParameter resolve n (JObj ms) r active \<noteq> Inl Sw_Unresolved"
proof -
  consider "stringMember ms ''$ref'' = Absent" | "stringMember ms ''$ref'' = Ill_Typed"
    using assms by (cases "stringMember ms ''$ref''") auto
  note kinds = this
  show "resolveParameter resolve n (JObj ms) r active = resolveParameter resolve m (JObj ms) r active"
  proof (rule kinds)
    assume "stringMember ms ''$ref'' = Absent"
    from resolveParameter_absent [OF this, of resolve r active] show ?thesis by auto
  qed (simp add: resolveParameter_ill_typed)
  show "resolveParameter resolve n (JObj ms) r active \<noteq> Inl Sw_Unresolved"
  proof (rule kinds)
    assume "stringMember ms ''$ref'' = Absent"
    from resolveParameter_absent [OF this, of resolve r active] show ?thesis by auto
  qed (simp add: resolveParameter_ill_typed)
qed

lemma resolveParameter_mono:
  "resolveParameter resolve n v r active \<noteq> Inl Sw_Unresolved \<Longrightarrow> n \<le> m \<Longrightarrow>
     resolveParameter resolve m v r active = resolveParameter resolve n v r active"
proof (induction n arbitrary: m v r active)
  case 0
  show ?case
  proof (cases v)
    case (JObj ms)
    show ?thesis
    proof (cases "\<exists>t. stringMember ms ''$ref'' = Valid t")
      case True
      then obtain t where Valid: "stringMember ms ''$ref'' = Valid t" ..
      show ?thesis using 0 unfolding JObj
        by (cases m) (simp_all add: resolveParameter_ref [OF Valid] split: if_splits)
    next
      case False
      then show ?thesis unfolding JObj by (intro resolveParameter_no_ref(1)) simp
    qed
  qed simp_all
next
  case (Suc n)
  from Suc.prems(2) obtain l where l: "m = Suc l" "n \<le> l" by (cases m) auto
  show ?case
  proof (cases v)
    case (JObj ms)
    show ?thesis
    proof (cases "\<exists>t. stringMember ms ''$ref'' = Valid t")
      case True
      then obtain t where Valid: "stringMember ms ''$ref'' = Valid t" ..
      show ?thesis
        using Suc.IH [OF _ l(2)] Suc.prems(1) unfolding JObj l(1) resolveParameter_ref [OF Valid]
        by (cases "resolve t r") (simp_all split: if_splits)
    next
      case False
      then show ?thesis unfolding JObj by (intro resolveParameter_no_ref(1)) simp
    qed
  qed simp_all
qed

text \<open>
  The reference of a node, if it is one, and the condition under which every chain ends: each
  reference leads to a node of smaller rank, or to a node that repeats the same reference.
\<close>

definition node_reference :: "jsval \<Rightarrow> sw_resource \<Rightarrow> string option" where
  "node_reference v r =
     (case v of
        JObj ms \<Rightarrow> (case stringMember ms ''$ref'' of Valid t \<Rightarrow> Some (reference_key r t) | _ \<Rightarrow> None)
      | _ \<Rightarrow> None)"

definition references_descend :: "sw_resolver \<Rightarrow> (jsval \<Rightarrow> sw_resource \<Rightarrow> nat) \<Rightarrow> bool" where
  "references_descend resolve rank \<longleftrightarrow>
     (\<forall>ms r t x. stringMember ms ''$ref'' = Valid t \<longrightarrow> resolve t r = Inr x \<longrightarrow>
        rank (sn_node x) (sn_resource x) < rank (JObj ms) r \<or>
        node_reference (sn_node x) (sn_resource x) = Some (reference_key r t))"

lemma resolveParameter_repeated:
  assumes "node_reference v r = Some k"
  shows "resolveParameter resolve n v r [k] \<noteq> Inl Sw_Unresolved"
proof -
  obtain ms t where v: "v = JObj ms" "stringMember ms ''$ref'' = Valid t" "k = reference_key r t"
    using assms by (auto simp: node_reference_def split: jsval.splits sw_member.splits)
  show ?thesis unfolding v(1) by (cases n) (simp_all add: resolveParameter_ref [OF v(2)] v(3))
qed

lemma resolveParameter_enough_rank:
  assumes "references_descend resolve rank" and "\<forall>t q. resolve t q \<noteq> Inl Sw_Unresolved"
  shows "rank v r < n \<Longrightarrow> resolveParameter resolve n v r active \<noteq> Inl Sw_Unresolved"
proof (induction n arbitrary: v r active)
  case (Suc n)
  show ?case
  proof (cases "\<exists>ms t. v = JObj ms \<and> stringMember ms ''$ref'' = Valid t")
    case True
    then obtain ms t where v: "v = JObj ms" and t: "stringMember ms ''$ref'' = Valid t" by blast
    have "resolveParameter resolve n (sn_node x) (sn_resource x) [reference_key r t] \<noteq> Inl Sw_Unresolved"
      if x: "resolve t r = Inr x" for x
      using assms(1) [unfolded references_descend_def, rule_format, OF t x] Suc.prems
        Suc.IH [of "sn_node x" "sn_resource x"] resolveParameter_repeated
      by (auto simp: v)
    then show ?thesis
      using assms(2) unfolding v resolveParameter_ref [OF t] by (cases "resolve t r") auto
  next
    case False
    then show ?thesis by (cases v) (auto intro!: resolveParameter_no_ref(2))
  qed
qed simp

text \<open>
  C39. Resolution of a parameter reference ends when every reference of the document leads to a node of
  smaller rank or to a node that is the same reference again: as many steps as the rank of the start,
  and one more, give a result (a parameter or an error of the source), and further steps do not
  change it.
\<close>
theorem parameter_references_resolve:
  assumes "references_descend resolve rank" and "\<forall>t q. resolve t q \<noteq> Inl Sw_Unresolved"
    and "rank v r < n"
  shows "resolveParameter resolve n v r [] \<noteq> Inl Sw_Unresolved \<and>
    resolveParameter resolve n v r [] = resolveParameter resolve (Suc (rank v r)) v r []"
proof -
  have enough: "resolveParameter resolve (Suc (rank v r)) v r [] \<noteq> Inl Sw_Unresolved"
    using resolveParameter_enough_rank [OF assms(1,2)] by simp
  from resolveParameter_mono [OF this, of n] assms(3) enough show ?thesis by simp
qed

text \<open>A reference to a reference to itself: the repeated key is noticed.\<close>

definition self_resolver :: sw_resolver where
  "self_resolver target r =
     Inr \<lparr> sn_node = JObj [(''$ref'', JStr ''#/parameters/b'')], sn_resource = r, sn_cycle = False \<rparr>"

definition self_rank :: "jsval \<Rightarrow> sw_resource \<Rightarrow> nat" where
  "self_rank v r = (if v = JObj [(''$ref'', JStr ''#/parameters/b'')] then 0 else 1)"

definition example_resource :: sw_resource where
  "example_resource = \<lparr> sr_requested = Some ''x'', sr_retrieval = None \<rparr>"

lemma parameter_references_resolve_witness:
  "resolveParameter self_resolver 5 (JObj [(''$ref'', JStr ''#/parameters/a'')]) example_resource [] =
   Inl (Sw_Error ''selected Parameter reference cycle is not resolvable'')"
proof -
  have "references_descend self_resolver self_rank"
  proof (unfold references_descend_def, intro allI impI)
    fix ms r t x
    assume t: "stringMember ms ''$ref'' = Valid t" and x: "self_resolver t r = Inr x"
    show "self_rank (sn_node x) (sn_resource x) < self_rank (JObj ms) r \<or>
      node_reference (sn_node x) (sn_resource x) = Some (reference_key r t)"
      using t x by (cases "ms = [(''$ref'', JStr ''#/parameters/b'')]")
        (auto simp: self_resolver_def self_rank_def node_reference_def stringMember_def typed_member_def)
  qed
  from parameter_references_resolve [OF this, of "JObj [(''$ref'', JStr ''#/parameters/a'')]" example_resource 5]
  show ?thesis
    by (simp add: self_resolver_def self_rank_def resolveParameter.simps(1) reference_key_def stringMember_def
        typed_member_def example_resource_def numeral_2_eq_2 numeral_3_eq_3)
qed

text \<open>
  Two references that name each other are never noticed: whatever the number of steps, the chain has
  not ended.
\<close>

definition cyclic_resolver :: sw_resolver where
  "cyclic_resolver target r =
     (if target = ''a''
      then Inr \<lparr> sn_node = JObj [(''$ref'', JStr ''b'')], sn_resource = r, sn_cycle = False \<rparr>
      else Inr \<lparr> sn_node = JObj [(''$ref'', JStr ''a'')], sn_resource = r, sn_cycle = False \<rparr>)"

lemma cyclic_reference_step:
  assumes "active = [] \<or> active = [reference_key example_resource ''b'']"
    and "\<And>n. resolveParameter cyclic_resolver n (JObj [(''$ref'', JStr ''b'')]) example_resource
                [reference_key example_resource ''a''] = Inl Sw_Unresolved"
  shows "resolveParameter cyclic_resolver n (JObj [(''$ref'', JStr ''a'')]) example_resource active = Inl Sw_Unresolved"
proof -
  have t: "stringMember [(''$ref'', JStr ''a'')] ''$ref'' = Valid ''a''"
    by (simp add: stringMember_def typed_member_def)
  have "reference_key example_resource ''a'' \<notin> set active"
    using assms(1) by (auto simp: reference_key_def)
  then show ?thesis
    using assms(2) by (cases n) (simp_all add: resolveParameter_ref [OF t] cyclic_resolver_def)
qed

lemma reference_cycle_never_ends:
  "resolveParameter cyclic_resolver n (JObj [(''$ref'', JStr ''a'')]) example_resource [] = Inl Sw_Unresolved"
proof -
  have b: "stringMember [(''$ref'', JStr ''b'')] ''$ref'' = Valid ''b''"
    by (simp add: stringMember_def typed_member_def)
  have ab: "reference_key example_resource ''b'' \<noteq> reference_key example_resource ''a''"
    by (simp add: reference_key_def)
  have a: "stringMember [(''$ref'', JStr ''a'')] ''$ref'' = Valid ''a''"
    by (simp add: stringMember_def typed_member_def)
  have both: "resolveParameter cyclic_resolver n (JObj [(''$ref'', JStr ''b'')]) example_resource
       [reference_key example_resource ''a''] = Inl Sw_Unresolved \<and>
     resolveParameter cyclic_resolver n (JObj [(''$ref'', JStr ''a'')]) example_resource
       [reference_key example_resource ''b''] = Inl Sw_Unresolved" for n
    using ab by (induction n) (simp_all add: resolveParameter_ref [OF a] resolveParameter_ref [OF b] cyclic_resolver_def)
  show ?thesis using both by (intro cyclic_reference_step) simp_all
qed

section \<open>Well-formed parameter sets\<close>

definition sw_array_ok :: "sw_param \<Rightarrow> bool" where
  "sw_array_ok p \<longleftrightarrow>
     (case sp_items p of
        None \<Rightarrow> False
      | Some items \<Rightarrow>
          items_type items \<in> set items_types \<and> items_type items \<noteq> ''array'' \<and>
          sp_format p \<in> set [''csv'', ''ssv'', ''tsv'', ''pipes'', ''multi''] \<and>
          (sp_format p = ''multi'' \<longrightarrow> sp_in p \<in> set [''query'', ''formData'']))"

definition sw_param_ok :: "sw_param \<Rightarrow> bool" where
  "sw_param_ok p \<longleftrightarrow>
     sp_name p \<noteq> [] \<and> sp_in p \<in> set sw_locations \<and>
     (sp_in p = ''path'' \<longrightarrow> sp_required p) \<and>
     (sp_in p = ''header'' \<longrightarrow> is_http_token (sp_name p) \<and> ascii_lower (sp_name p) \<notin> set sw_owned_headers) \<and>
     (sp_in p \<noteq> ''body'' \<longrightarrow>
        (sp_type p \<in> set items_types \<or> sp_type p = ''file'' \<and> sp_in p = ''formData'') \<and>
        (sp_type p = ''array'' \<longrightarrow> sw_array_ok p) \<and>
        (sp_allowEmpty p \<longrightarrow> sp_in p \<in> set [''query'', ''formData'']))"

declare parseItems.simps [simp del]

lemma parseItems_type: "parseItems env raw = Inr items \<Longrightarrow> items_type items \<in> set items_types"
  by (subst (asm) parseItems.simps)
    (auto simp: js_result Let_def split: sw_member.splits if_splits)

lemma array_declaration_ok:
  assumes "array_declaration env p = Inr q"
  shows "(sp_type q = ''array'' \<longrightarrow> sw_array_ok q) \<and>
    sp_name q = sp_name p \<and> sp_in q = sp_in p \<and> sp_type q = sp_type p \<and> sp_required q = sp_required p \<and>
    sp_allowEmpty q = sp_allowEmpty p \<and> sp_raw q = sp_raw p"
  using assms parseItems_type
  by (auto simp: array_declaration_def sw_array_ok_def js_result Let_def split: if_splits sw_member.splits)

lemma header_declaration_ok:
  "header_declaration p = Inr u \<longleftrightarrow>
     (sp_in p = ''header'' \<longrightarrow> is_http_token (sp_name p) \<and> ascii_lower (sp_name p) \<notin> set sw_owned_headers)"
  by (auto simp: header_declaration_def sw_check_def js_result)

lemma nonbody_declaration_ok:
  assumes "nonbody_declaration env p = Inr q"
  shows "(sp_type q \<in> set items_types \<or> sp_type q = ''file'' \<and> sp_in q = ''formData'') \<and>
    (sp_type q = ''array'' \<longrightarrow> sw_array_ok q) \<and>
    (sp_in q = ''header'' \<longrightarrow> is_http_token (sp_name q) \<and> ascii_lower (sp_name q) \<notin> set sw_owned_headers) \<and>
    (sp_allowEmpty q \<longrightarrow> sp_in q \<in> set [''query'', ''formData'']) \<and>
    sp_name q = sp_name p \<and> sp_in q = sp_in p \<and> sp_required q = sp_required p"
proof -
  from assms obtain type r where t: "stringMember (sp_raw p) ''type'' = Valid type"
    "type \<in> set items_types \<or> type = ''file'' \<and> sp_in p = ''formData''"
    "sw_present (booleanMember (sp_raw p) ''allowEmptyValue'') \<Longrightarrow> sp_in p \<in> set [''query'', ''formData'']"
    and r: "array_declaration env
      (p \<lparr> sp_type := type, sp_allowEmpty := (booleanMember (sp_raw p) ''allowEmptyValue'' = Valid True) \<rparr>) = Inr r"
    "header_declaration r = Inr ()" "q = r"
    by (auto simp: nonbody_declaration_def js_result Let_def split: sw_member.splits if_splits)
  from array_declaration_ok [OF r(1)] r(2) t show ?thesis
    unfolding r(3) header_declaration_ok by auto
qed

lemma validateParameterDeclaration_ok:
  assumes "validateParameterDeclaration env p = Inr q"
  shows "sw_param_ok q \<and> stringMember (sp_raw p) ''name'' = Valid (sp_name q) \<and>
    stringMember (sp_raw p) ''in'' = Valid (sp_in q)"
proof -
  from assms obtain name loc where n: "stringMember (sp_raw p) ''name'' = Valid name"
    "stringMember (sp_raw p) ''in'' = Valid loc"
    by (auto simp: validateParameterDeclaration_def split: sw_member.splits)
  define q0 where "q0 = p \<lparr> sp_name := name, sp_in := loc,
    sp_required := (booleanMember (sp_raw p) ''required'' = Valid True) \<rparr>"
  have q0: "sp_name q0 = name" "sp_in q0 = loc" "sp_required q0 = (booleanMember (sp_raw p) ''required'' = Valid True)"
    by (simp_all add: q0_def)
  have c: "name \<noteq> []" "loc \<in> set sw_locations" "loc = ''path'' \<Longrightarrow> sp_required q0"
    using assms n by (auto simp: validateParameterDeclaration_def Let_def q0_def split: if_splits)
  have r: "if loc = ''body'' then q = q0 else nonbody_declaration env q0 = Inr q"
    using assms n by (auto simp: validateParameterDeclaration_def Let_def q0_def split: if_splits sw_member.splits)
  show ?thesis
  proof (cases "loc = ''body''")
    case True
    then show ?thesis using r c n q0 by (auto simp: sw_param_ok_def)
  next
    case False
    then show ?thesis using r c n q0 nonbody_declaration_ok [of env q0 q] by (auto simp: sw_param_ok_def)
  qed
qed

text \<open>What one declaration of a scope keeps of its raw object.\<close>

definition sw_declared :: "sw_param \<Rightarrow> bool" where
  "sw_declared p \<longleftrightarrow>
     sp_name p = member_or [] (stringMember (sp_raw p) ''name'') \<and>
     sp_in p = member_or [] (stringMember (sp_raw p) ''in'')"

definition sw_key :: "sw_param \<Rightarrow> string \<times> string" where
  "sw_key p = (sp_in p, sp_name p)"

lemma resolveParameter_declared:
  "resolveParameter resolve n v r active = Inr p \<Longrightarrow> sw_declared p"
proof (induction n arbitrary: v r active)
  case 0
  then show ?case
    by (cases v) (auto simp: resolveParameter.simps(1) sw_declared_def split: sw_member.splits if_splits)
next
  case (Suc n)
  show ?case
  proof (cases v)
    case (JObj ms)
    show ?thesis
    proof (cases "stringMember ms ''$ref''")
      case (Valid t)
      show ?thesis using Suc.prems Suc.IH unfolding JObj resolveParameter_ref(2) [OF Valid]
        by (auto simp: js_result split: if_splits)
    qed (use Suc.prems JObj in \<open>auto simp: resolveParameter.simps(1) sw_declared_def\<close>)
  qed (use Suc.prems in auto)
qed

lemma sw_identity_key:
  assumes "sp_in p \<in> set sw_locations" and "sp_in q \<in> set sw_locations"
  shows "sw_identity p = sw_identity q \<longleftrightarrow> sw_key p = sw_key q"
proof -
  have "CHR 0x00 \<notin> set (sp_in p)" "CHR 0x00 \<notin> set (sp_in q)"
    using assms by (auto simp: sw_locations_def)
  then have "cut (CHR 0x00) (sw_identity p) = Some (sw_key p)" "cut (CHR 0x00) (sw_identity q) = Some (sw_key q)"
    by (simp_all add: sw_identity_def sw_key_def cut_Some)
  then have "sw_identity p = sw_identity q \<Longrightarrow> sw_key p = sw_key q" by simp
  then show ?thesis unfolding sw_identity_def sw_key_def prod.inject by metis
qed

definition scope_ok :: "sw_param list \<Rightarrow> bool" where
  "scope_ok ps \<longleftrightarrow>
     (\<forall>p\<in>set ps. sw_declared p \<and> sp_in p \<in> set sw_locations) \<and> distinct (map sw_key ps)"

lemma parameterScope_ok:
  assumes "parameterScope resolve n decl resource owner = Inr ps"
  shows "scope_ok ps"
proof (cases decl)
  case Absent
  then show ?thesis using assms by (simp add: parameterScope_def scope_ok_def)
next
  case (Valid xs)
  then have "each_res (scope_step resolve n resource owner) (enumerate 0 xs) [] = Inr ps"
    using assms by (simp add: parameterScope_def)
  then show ?thesis
  proof (rule each_res_invariant [where I = scope_ok])
    show "scope_ok []" by (simp add: scope_ok_def)
    fix x s t assume s: "scope_ok s" and step: "scope_step resolve n resource owner x s = Inr t"
    from step obtain p where p: "resolveParameter resolve n (snd x) resource [] = Inr p"
      "sp_in p \<in> set sw_locations" "sw_identity p \<notin> set (map sw_identity s)" "t = s @ [p]"
      by (auto simp: scope_step_def js_result split: if_splits)
    have "sw_key p \<notin> set (map sw_key s)"
      using p(2,3) s sw_identity_key by (auto simp: scope_ok_def)
    then show "scope_ok t"
      using s p resolveParameter_declared [OF p(1)] by (simp add: scope_ok_def)
  qed
qed (use assms in \<open>simp add: parameterScope_def\<close>)

lemma validated_key:
  "validateParameterDeclaration env p = Inr q \<Longrightarrow> sw_declared p \<Longrightarrow> sw_key q = sw_key p"
  using validateParameterDeclaration_ok [of env p q] by (auto simp: sw_declared_def sw_key_def member_or_def)

text \<open>What the set being built satisfies.\<close>

definition sw_set_ok :: "sw_set \<Rightarrow> bool" where
  "sw_set_ok S \<longleftrightarrow>
     (\<forall>p\<in>set (ss_all S). sw_param_ok p) \<and> distinct (map sw_key (ss_all S)) \<and>
     ss_nonBody S = filter (\<lambda>p. sp_in p \<noteq> ''body'') (ss_all S) \<and>
     ss_bodies S = length (filter (\<lambda>p. sp_in p = ''body'') (ss_all S)) \<and>
     ss_forms S = length (filter (\<lambda>p. sp_in p = ''formData'') (ss_all S)) \<and>
     (\<forall>b. ss_body S = Some b \<longrightarrow> b \<in> set (ss_all S) \<and> sp_in b = ''body'') \<and>
     (ss_body S = None \<longrightarrow> ss_bodies S = 0) \<and>
     (\<forall>p\<in>set (ss_all S). sp_in p = ''header'' \<longrightarrow> map_of (ss_headers S) (ascii_lower (sp_name p)) = Some (sp_name p))"

text \<open>The parts of a set that admitting a parameter leaves or changes.\<close>

lemma admit_header_ok:
  assumes "admit_header p S = Inr T"
  shows "map_of (ss_headers T) = (map_of (ss_headers S)) (ascii_lower (sp_name p) \<mapsto> sp_name p) \<and>
    map_of (ss_headers S) (ascii_lower (sp_name p)) \<in> {None, Some (sp_name p)} \<and>
    ss_all T = ss_all S \<and> ss_nonBody T = ss_nonBody S \<and> ss_body T = ss_body S \<and>
    ss_bodies T = ss_bodies S \<and> ss_forms T = ss_forms S"
  using assms by (auto simp: admit_header_def Let_def fun_upd_idem split: option.splits if_splits)

lemma admit_parameter_ok:
  assumes "admit_parameter p S = Inr T"
  shows "ss_all T = ss_all S @ [p] \<and>
    ss_nonBody T = (if sp_in p = ''body'' then ss_nonBody S else ss_nonBody S @ [p]) \<and>
    ss_body T = (if sp_in p = ''body'' then Some p else ss_body S) \<and>
    ss_bodies T = (if sp_in p = ''body'' then Suc (ss_bodies S) else ss_bodies S) \<and>
    ss_forms T = (if sp_in p = ''formData'' then Suc (ss_forms S) else ss_forms S) \<and>
    (if sp_in p = ''header''
     then map_of (ss_headers T) = (map_of (ss_headers S)) (ascii_lower (sp_name p) \<mapsto> sp_name p) \<and>
          map_of (ss_headers S) (ascii_lower (sp_name p)) \<in> {None, Some (sp_name p)}
     else ss_headers T = ss_headers S)"
proof (cases "sp_in p = ''body''")
  case True
  then show ?thesis using assms by (auto simp: admit_parameter_def Let_def)
next
  case False
  define V where "V = (let S = S \<lparr> ss_all := ss_all S @ [p] \<rparr> in
    S \<lparr> ss_forms := (if sp_in p = ''formData'' then Suc (ss_forms S) else ss_forms S), ss_nonBody := ss_nonBody S @ [p] \<rparr>)"
  define U where "U = (case map_of (ss_names V) (sp_name p) of
      None \<Rightarrow> V \<lparr> ss_names := (sp_name p, sp_in p) # ss_names V \<rparr>
    | Some previous \<Rightarrow> if previous \<noteq> sp_in p then V \<lparr> ss_qualified := True \<rparr> else V)"
  have U: "ss_all U = ss_all S @ [p]" "ss_nonBody U = ss_nonBody S @ [p]" "ss_body U = ss_body S"
    "ss_bodies U = ss_bodies S" "ss_forms U = (if sp_in p = ''formData'' then Suc (ss_forms S) else ss_forms S)"
    "ss_headers U = ss_headers S"
    by (simp_all add: U_def V_def Let_def split: option.split)
  have adm: "(if sp_in p = ''header'' then admit_header p U else Inr U) = Inr T"
    using assms False by (simp only: admit_parameter_def Let_def U_def V_def if_False)
  show ?thesis
  proof (cases "sp_in p = ''header''")
    case True
    with adm have "admit_header p U = Inr T" by simp
    from admit_header_ok [OF this] U True show ?thesis by simp
  next
    case no: False
    with adm have "T = U" by simp
    with U no False show ?thesis by simp
  qed
qed

lemma admit_parameter_set_ok:
  assumes "admit_parameter p S = Inr T" and "sw_set_ok S" and "sw_param_ok p"
    and "sw_key p \<notin> set (map sw_key (ss_all S))"
  shows "sw_set_ok T"
proof -
  note T = admit_parameter_ok [OF assms(1)]
  have headers: "\<forall>q\<in>set (ss_all T). sp_in q = ''header'' \<longrightarrow>
      map_of (ss_headers T) (ascii_lower (sp_name q)) = Some (sp_name q)"
  proof (intro ballI impI)
    fix q assume q: "q \<in> set (ss_all T)" "sp_in q = ''header''"
    show "map_of (ss_headers T) (ascii_lower (sp_name q)) = Some (sp_name q)"
    proof (cases "q = p")
      case True
      then show ?thesis using T q(2) by simp
    next
      case False
      then have old: "map_of (ss_headers S) (ascii_lower (sp_name q)) = Some (sp_name q)"
        using q T assms(2) by (simp add: sw_set_ok_def)
      show ?thesis
      proof (cases "sp_in p = ''header''")
        case True
        then have "map_of (ss_headers T) = (map_of (ss_headers S)) (ascii_lower (sp_name p) \<mapsto> sp_name p)"
          and "map_of (ss_headers S) (ascii_lower (sp_name p)) \<in> {None, Some (sp_name p)}"
          using T by simp_all
        then show ?thesis using old by (metis fun_upd_apply insertE option.discI singletonD)
      next
        case no: False
        then show ?thesis using T old by simp
      qed
    qed
  qed
  show ?thesis unfolding sw_set_ok_def
  proof (intro conjI)
    show "\<forall>q\<in>set (ss_all T). sw_param_ok q" "distinct (map sw_key (ss_all T))"
      "ss_nonBody T = filter (\<lambda>p. sp_in p \<noteq> ''body'') (ss_all T)"
      "ss_bodies T = length (filter (\<lambda>p. sp_in p = ''body'') (ss_all T))"
      "ss_forms T = length (filter (\<lambda>p. sp_in p = ''formData'') (ss_all T))"
      using T assms(2-4) by (simp_all add: sw_set_ok_def)
    show "ss_body T = None \<longrightarrow> ss_bodies T = 0"
    proof -
      have "ss_body S = None \<longrightarrow> ss_bodies S = 0" using assms(2) unfolding sw_set_ok_def by (elim conjE)
      then show ?thesis using T by (cases "sp_in p = ''body''") simp_all
    qed
    show "\<forall>b. ss_body T = Some b \<longrightarrow> b \<in> set (ss_all T) \<and> sp_in b = ''body''"
      using T assms(2) by (cases "sp_in p = ''body''") (simp_all add: sw_set_ok_def)
  qed (rule headers)
qed

lemma effective_loop:
  assumes "each_res (effective_step env) ps S = Inr T" and "scope_ok ps" and "sw_set_ok S"
    and "set (map sw_key ps) \<inter> set (map sw_key (ss_all S)) = {}"
  shows "sw_set_ok T \<and> set (map sw_key (ss_all T)) \<subseteq> set (map sw_key (ss_all S)) \<union> set (map sw_key ps)"
  using assms
proof (induction ps arbitrary: S)
  case Nil
  then show ?case by simp
next
  case (Cons p ps)
  from Cons.prems(1) obtain U where U: "effective_step env p S = Inr U" "each_res (effective_step env) ps U = Inr T"
    by (auto simp: js_result)
  have ps: "scope_ok ps" "sw_declared p" "sw_key p \<notin> set (map sw_key ps)" using Cons.prems(2) by (auto simp: scope_ok_def)
  have fresh: "sw_key p \<notin> set (map sw_key (ss_all S))" using Cons.prems(4) by auto
  show ?case
  proof (cases "validateParameterDeclaration env p")
    case (Inl e)
    then have "U = S" using U(1) by (auto simp: effective_step_def split: if_splits)
    with Cons.IH [OF U(2) ps(1)] Cons.prems(3,4) show ?thesis by auto
  next
    case (Inr q)
    then have adm: "admit_parameter q S = Inr U" using U(1) by (simp add: effective_step_def)
    have key: "sw_key q = sw_key p" by (rule validated_key [OF Inr ps(2)])
    have "sw_set_ok U"
      using admit_parameter_set_ok [OF adm Cons.prems(3)] validateParameterDeclaration_ok [OF Inr] fresh key by simp
    moreover have all: "ss_all U = ss_all S @ [q]" using admit_parameter_ok [OF adm] by simp
    moreover have "set (map sw_key ps) \<inter> set (map sw_key (ss_all U)) = {}"
      using ps(3) Cons.prems(4) by (auto simp: all key)
    ultimately show ?thesis using Cons.IH [OF U(2) ps(1)] by (auto simp: key)
  qed
qed


text \<open>Two headers of the set do not differ only by case, and there is at most one body.\<close>

lemma sw_set_ok_headers:
  assumes "sw_set_ok S"
  shows "distinct (map (\<lambda>p. ascii_lower (sp_name p)) (filter (\<lambda>p. sp_in p = ''header'') (ss_all S)))"
  unfolding distinct_map
proof (intro conjI inj_onI)
  have "distinct (ss_all S)" using assms by (simp add: sw_set_ok_def distinct_map)
  then show "distinct (filter (\<lambda>p. sp_in p = ''header'') (ss_all S))" by simp
  fix p q
  assume h: "p \<in> set (filter (\<lambda>p. sp_in p = ''header'') (ss_all S))"
    "q \<in> set (filter (\<lambda>p. sp_in p = ''header'') (ss_all S))"
    and eq: "ascii_lower (sp_name p) = ascii_lower (sp_name q)"
  have inv: "\<forall>p\<in>set (ss_all S). sp_in p = ''header'' \<longrightarrow> map_of (ss_headers S) (ascii_lower (sp_name p)) = Some (sp_name p)"
    using assms unfolding sw_set_ok_def by (elim conjE)
  have "map_of (ss_headers S) (ascii_lower (sp_name p)) = Some (sp_name p)"
    using inv h(1) by simp
  moreover have "map_of (ss_headers S) (ascii_lower (sp_name q)) = Some (sp_name q)"
    using inv h(2) by simp
  ultimately have name: "sp_name p = sp_name q" unfolding eq by simp
  have "sp_in p = ''header''" "sp_in q = ''header''" using h by simp_all
  then have "sw_key p = sw_key q" unfolding sw_key_def name by simp
  moreover have "inj_on sw_key (set (ss_all S))" using assms by (simp add: sw_set_ok_def distinct_map)
  ultimately show "p = q" using h by (meson filter_is_subset inj_onD subsetD)
qed

lemma validatePathParameters_ok:
  assumes "validatePathParameters path names = Inr u"
  shows "\<exists>exprs. path_expressions path = Inr exprs \<and> set exprs = set names"
proof -
  have each: "each_res (\<lambda>n _. sw_check (P n) (m n)) xs () = Inr v \<Longrightarrow> \<forall>n\<in>set xs. P n" for P m xs v
    by (induction xs) (auto simp: js_result sw_check_def)
  from assms obtain exprs where e: "path_expressions path = Inr exprs"
    "each_res (\<lambda>n _. sw_check (n \<in> set names)
         (''path template expression '' @ json_quote n @ '' has no effective path parameter'')) (remdups exprs) () = Inr ()"
    "each_res (\<lambda>n _. sw_check (n \<in> set exprs)
         (''effective path parameter '' @ json_quote n @ '' has no matching template expression'')) names () = Inr ()"
    by (auto simp: validatePathParameters_def res_bind_Inr_iff)
  from each [OF e(2)] each [OF e(3)] e(1) show ?thesis by auto
qed

text \<open>
  C21. The effective parameters of an operation are well formed: every one has a name, an admitted
  location and type, the collection format and Items Object an array needs, and, for a header, a
  field name the processor does not own; no two share location and name, header names stay distinct
  after case folding, there is at most one body parameter and none beside form fields, and the path
  parameters are exactly the expressions of the path template.
\<close>
theorem effective_parameters_well_formed:
  assumes "effectiveSwagger20Parameters env resolve n path path_item operation = Inr S"
  shows "list_all sw_param_ok (ss_all S) \<and> distinct (map sw_key (ss_all S)) \<and>
    distinct (map (\<lambda>p. ascii_lower (sp_name p)) (filter (\<lambda>p. sp_in p = ''header'') (ss_all S))) \<and>
    length (filter (\<lambda>p. sp_in p = ''body'') (ss_all S)) \<le> 1 \<and>
    (ss_body S = None \<or> filter (\<lambda>p. sp_in p = ''formData'') (ss_all S) = []) \<and>
    (\<exists>exprs. path_expressions path = Inr exprs \<and>
       set exprs = sp_name ` {p \<in> set (ss_all S). sp_in p = ''path''})"
proof -
  from assms obtain ps os where scopes:
    "parameterScope resolve n (fst path_item) (snd path_item) ''Path Item'' = Inr ps"
    "parameterScope resolve n (fst operation) (snd operation) ''Operation'' = Inr os"
    and loop: "each_res (effective_step env)
      (filter (\<lambda>p. sw_identity p \<notin> set (map sw_identity os)) ps @ os) empty_set = Inr S"
    and counts: "\<not> ss_bodies S > 1" "\<not> (ss_bodies S > 0 \<and> ss_forms S > 0)"
    and path: "validatePathParameters path (wire_names S ''path'') = Inr ()"
    by (auto simp: effectiveSwagger20Parameters_def Let_def res_bind_Inr_iff res_map_Inr_iff
             split: if_splits)
  note ok = parameterScope_ok [OF scopes(1)] parameterScope_ok [OF scopes(2)]
  have "scope_ok (filter (\<lambda>p. sw_identity p \<notin> set (map sw_identity os)) ps @ os)"
    using ok sw_identity_key by (fastforce simp: scope_ok_def distinct_map_filter)
  then have "sw_set_ok S \<and> set (map sw_key (ss_all S)) \<subseteq> set (map sw_key (ss_all empty_set)) \<union>
      set (map sw_key (filter (\<lambda>p. sw_identity p \<notin> set (map sw_identity os)) ps @ os))"
    by (rule effective_loop [OF loop]) (simp_all add: sw_set_ok_def empty_set_def)
  then have S: "sw_set_ok S" ..
  have body: "ss_body S = None \<or> ss_bodies S > 0"
  proof (cases "ss_body S")
    case (Some b)
    then have "b \<in> set (filter (\<lambda>p. sp_in p = ''body'') (ss_all S))" using S by (simp add: sw_set_ok_def)
    then have "0 < length (filter (\<lambda>p. sp_in p = ''body'') (ss_all S))" by (rule length_pos_if_in_set)
    then show ?thesis using S by (simp add: sw_set_ok_def)
  qed simp
  obtain exprs where exprs: "path_expressions path = Inr exprs" "set exprs = set (wire_names S ''path'')"
    using validatePathParameters_ok [OF path] by blast
  have "set exprs = sp_name ` {p \<in> set (ss_all S). sp_in p = ''path''}"
    using S unfolding exprs(2) by (auto simp: sw_set_ok_def wire_names_def)
  moreover have "ss_bodies S = length (filter (\<lambda>p. sp_in p = ''body'') (ss_all S))"
    "ss_forms S = length (filter (\<lambda>p. sp_in p = ''formData'') (ss_all S))"
    "list_all sw_param_ok (ss_all S)" "distinct (map sw_key (ss_all S))"
    using S by (simp_all add: sw_set_ok_def list_all_iff)
  ultimately show ?thesis
    using counts body sw_set_ok_headers [OF S] exprs(1) by auto
qed


definition simple_env :: sw_env where
  "simple_env =
     \<lparr> compareNumberTokens = (\<lambda>a b. int (length a) - int (length b)), multipleNumberTokens = (\<lambda>_ _. True),
       json_equal = (=), decimal_carrier = (\<lambda>_. True), regexp = (\<lambda>_ _. Some True), collation = map byte,
       scalar_converter = None \<rparr>"

definition simple_resource :: sw_resource where
  "simple_resource = \<lparr> sr_requested = Some ''http://a/s.json'', sr_retrieval = None \<rparr>"

definition simple_declarations :: "jsval list" where
  "simple_declarations =
     [JObj [(''name'', JStr ''id''), (''in'', JStr ''path''), (''required'', JBool True), (''type'', JStr ''string'')],
      JObj [(''name'', JStr ''tags''), (''in'', JStr ''query''), (''type'', JStr ''array''),
            (''items'', JObj [(''type'', JStr ''string'')]), (''collectionFormat'', JStr ''pipes'')]]"

lemma effective_parameters_well_formed_witness:
  "\<exists>S. effectiveSwagger20Parameters simple_env (\<lambda>_ _. Inl (Sw_Error [])) 3 ''/a/{id}''
        (Absent, simple_resource) (Valid simple_declarations, simple_resource) = Inr S \<and>
      length (ss_all S) = 2 \<and> distinct (map sw_key (ss_all S))"
proof -
  let ?r = "effectiveSwagger20Parameters simple_env (\<lambda>_ _. Inl (Sw_Error [])) 3 ''/a/{id}''
        (Absent, simple_resource) (Valid simple_declarations, simple_resource)"
  have "case ?r of Inl _ \<Rightarrow> False | Inr S \<Rightarrow> length (ss_all S) = 2" by code_simp
  then obtain S where S: "?r = Inr S" "length (ss_all S) = 2" by (auto split: sum.splits)
  from effective_parameters_well_formed [OF S(1)] S show ?thesis by blast
qed

section \<open>What the wire carries\<close>

lemma swagger20PercentEncode_plain:
  "swagger20PercentEncode = encode_with (\<lambda>c. is_unreserved c \<or> (False \<and> c \<in> reserved_bytes))"
  by (simp add: swagger20PercentEncode_def)

interpretation sw: component_escaper swagger20PercentEncode is_unreserved
  unfolding swagger20PercentEncode_plain
  by (rule component_escaper_encode [OF plain_unreserved]) (auto simp: is_unreserved_def is_alnum_def)

definition collection_delimiters :: string where
  "collection_delimiters = [CHR '','', CHR '' '', CHR 0x09, CHR ''|'']"

lemma collectionDelimiter_in: "collectionDelimiter f \<in> set collection_delimiters"
  by (simp add: collectionDelimiter_def collection_delimiters_def)

lemma collection_delimiters_raw:
  assumes "d \<in> set collection_delimiters"
  shows "\<not> is_unreserved d" and "d \<noteq> CHR ''%''" and "d \<noteq> CHR ''&''" and "d \<noteq> CHR ''=''"
  using assms by (auto simp: collection_delimiters_def is_unreserved_def is_alnum_def is_upper_def is_lower_def
    is_digit_def byte_def)

lemma encodeContribution_chars:
  assumes "e \<in> {CHR ''&'', CHR ''=''}" and "set_option (wc_delimiter c) \<subseteq> set collection_delimiters"
  shows "e \<notin> set (encodeContribution c)"
proof -
  have e: "\<not> is_unreserved e" "e \<noteq> CHR ''%''"
    using assms(1) by (auto simp: is_unreserved_def is_alnum_def is_upper_def is_lower_def is_digit_def byte_def)
  note free = sw.esc_avoids [OF e]
  show ?thesis
  proof (cases "wc_delimiter c")
    case (Some d)
    then have "e \<noteq> d" using assms collection_delimiters_raw [of d] by auto
    then show ?thesis
      using Some free set_join [of "[d]" "map swagger20PercentEncode (split_str [d] (wc_value c))"]
      by (auto simp: encodeContribution_def)
  qed (simp add: encodeContribution_def free)
qed

lemma decode_join:
  assumes "d \<noteq> CHR ''%''" and "\<forall>x\<in>set xs. utf8 x"
  shows "decodeURIComponent (join [d] (map swagger20PercentEncode xs)) = Some (join [d] xs)"
  using assms
proof (induction xs)
  case (Cons x xs)
  then show ?case
    by (cases xs) (auto simp: sw.esc_decode join_cons decode_append decode_literal)
qed simp

definition unicode_contribution :: "sw_contribution \<Rightarrow> bool" where
  "unicode_contribution c \<longleftrightarrow>
     utf8 (wc_name c) \<and>
     (case wc_delimiter c of
        None \<Rightarrow> utf8 (wc_value c)
      | Some d \<Rightarrow> d \<in> set collection_delimiters \<and> list_all utf8 (split_str [d] (wc_value c)))"

lemma decode_contribution:
  assumes "unicode_contribution c"
  shows "decodeURIComponent (encodeContribution c) = Some (wc_value c)"
proof (cases "wc_delimiter c")
  case (Some d)
  then show ?thesis using assms decode_join [of d "split_str [d] (wc_value c)"] collection_delimiters_raw [of d]
    by (simp add: encodeContribution_def unicode_contribution_def list_all_iff join_split_str)
qed (use assms in \<open>simp add: encodeContribution_def unicode_contribution_def sw.esc_decode\<close>)

text \<open>A form decoder that leaves plus signs alone: the decoded name, and the decoded value if there is one.\<close>

definition query_unit :: "string \<Rightarrow> string option \<times> string option option" where
  "query_unit u =
     (case cut (CHR ''='') u of
        None \<Rightarrow> (decodeURIComponent u, None)
      | Some (n, v) \<Rightarrow> (decodeURIComponent n, Some (decodeURIComponent v)))"

lemma query_unit_encoded:
  assumes "unicode_contribution c"
  shows "query_unit (wc_name (encoded_query c) @ (if wc_present (encoded_query c) then ''='' @ wc_value (encoded_query c) else []))
    = (Some (wc_name c), if wc_present c then Some (Some (wc_value c)) else None)"
proof -
  have "CHR ''='' \<notin> set (swagger20PercentEncode (wc_name c))"
    by (rule sw.esc_avoids) (simp_all add: is_unreserved_def is_alnum_def is_upper_def is_lower_def is_digit_def byte_def)
  then have "cut (CHR ''='') (swagger20PercentEncode (wc_name c) @ CHR ''='' # v) = Some (swagger20PercentEncode (wc_name c), v)"
    "cut (CHR ''='') (swagger20PercentEncode (wc_name c)) = None" for v
    by (simp_all add: cut_Some cut_None)
  then show ?thesis
    using assms decode_contribution [OF assms]
    by (auto simp: query_unit_def encoded_query_def unicode_contribution_def sw.esc_decode)
qed

text \<open>
  The raw query of a routed input loses nothing: split at the ampersands and at the first equals
  sign and percent-decoded, it gives back every contribution in order, with its name, whether it has a
  value and the value.
\<close>
theorem swagger20_query_roundtrip:
  assumes "cs \<noteq> []" and "\<forall>c\<in>set cs. unicode_contribution c"
  shows "map query_unit (split_str ''&'' (swagger20RawQuery (map encoded_query cs))) =
    map (\<lambda>c. (Some (wc_name c), if wc_present c then Some (Some (wc_value c)) else None)) cs"
proof -
  let ?u = "\<lambda>c. wc_name (encoded_query c) @ (if wc_present (encoded_query c) then ''='' @ wc_value (encoded_query c) else [])"
  have "CHR ''&'' \<notin> set (?u c)" if "c \<in> set cs" for c
  proof -
    have "CHR ''&'' \<notin> set (swagger20PercentEncode (wc_name c))"
      by (rule sw.esc_avoids) (simp_all add: is_unreserved_def is_alnum_def is_upper_def is_lower_def is_digit_def byte_def)
    moreover have "CHR ''&'' \<notin> set (encodeContribution c)"
      using assms(2) that by (intro encodeContribution_chars) (auto simp: unicode_contribution_def split: option.splits)
    ultimately show ?thesis by (simp add: encoded_query_def)
  qed
  then have "split_str ''&'' (join ''&'' (map ?u cs)) = map ?u cs"
    using assms(1) by (intro split_join_char) auto
  moreover have "swagger20RawQuery (map encoded_query cs) = join ''&'' (map ?u cs)"
    by (simp add: swagger20RawQuery_def comp_def)
  ultimately show ?thesis using assms(2) query_unit_encoded by simp
qed

lemma swagger20_query_roundtrip_witness:
  "map query_unit (split_str ''&'' (swagger20RawQuery (map encoded_query
     [\<lparr> wc_name = ''a&b'', wc_value = ''x=1|y'', wc_present = True, wc_delimiter = Some (CHR ''|''), wc_octets = None \<rparr>,
      \<lparr> wc_name = ''c'', wc_value = [], wc_present = False, wc_delimiter = None, wc_octets = None \<rparr>])))
   = [(Some ''a&b'', Some (Some ''x=1|y'')), (Some ''c'', None)]"
proof -
  have "unicode_contribution \<lparr> wc_name = ''a&b'', wc_value = ''x=1|y'', wc_present = True, wc_delimiter = Some (CHR ''|''), wc_octets = None \<rparr>"
    "unicode_contribution \<lparr> wc_name = ''c'', wc_value = [], wc_present = False, wc_delimiter = None, wc_octets = None \<rparr>"
    by (simp_all add: unicode_contribution_def collection_delimiters_def split_char_simps utf8_all_ascii is_ascii_def byte_def)
  then show ?thesis
    by (subst swagger20_query_roundtrip) simp_all
qed

text \<open>
  C36. Serializing an array in a collection format loses no member: the value that reaches the wire,
  split at the delimiter of its format and percent-decoded, is the list of the converted members.
\<close>
theorem swagger20_collection_roundtrip:
  assumes "serializeParameter env form p v = Inr cs" and "sp_type p = ''array''" and "sp_format p \<noteq> ''multi''"
    and "validateAndConvert env p v = Inr xs" and "xs \<noteq> []" and "\<forall>x\<in>set xs. utf8 x"
  shows "\<exists>c. cs = [c] \<and> wc_name c = sp_name p \<and> wc_present c \<and>
    those (map decodeURIComponent (split_str [collectionDelimiter (sp_format p)] (encodeContribution c))) = Some xs"
proof -
  let ?d = "collectionDelimiter (sp_format p)"
  obtain us where us: "imap_res (\<lambda>i s. sw_check (?d \<notin> set s)
      (''parameter '' @ json_quote (sp_name p) @ '' array member '' @ decimal i @ '' contains its structural delimiter'')) 0 xs = Inr us"
    and cs: "cs = [(contribution p (join [?d] xs) True) \<lparr> wc_delimiter := Some ?d \<rparr>]"
    using assms(1-5) by (auto simp: serializeParameter_def Let_def js_result)
  have "imap_res (\<lambda>i s. sw_check (?d \<notin> set s) (m i)) k ys = Inr vs \<Longrightarrow> \<forall>y\<in>set ys. ?d \<notin> set y" for m k ys vs
    by (induction ys arbitrary: k vs) (auto simp: js_result sw_check_def)
  from this [OF us] have free: "\<forall>x\<in>set xs. ?d \<notin> set x" .
  then have "split_str [?d] (join [?d] xs) = xs" using assms(5) by (intro split_join_char) auto
  then have "encodeContribution ((contribution p (join [?d] xs) True) \<lparr> wc_delimiter := Some ?d \<rparr>) =
      join [?d] (map swagger20PercentEncode xs)"
    by (simp add: encodeContribution_def contribution_def)
  then show ?thesis
    using cs sw.decode_split_escaped [OF collection_delimiters_raw(1,2) [OF collectionDelimiter_in] assms(5,6)]
    by (simp add: contribution_def)
qed

lemma swagger20_collection_roundtrip_witness:
  "\<exists>c. those (map decodeURIComponent (split_str [CHR ''|''] (encodeContribution c))) = Some [''a,b'', ''50%'']"
proof -
  define p where "p = \<lparr> sp_raw = [], sp_resource = simple_resource, sp_name = ''tags'', sp_in = ''query'',
    sp_type = ''array'', sp_required = False, sp_allowEmpty = False, sp_format = ''pipes'',
    sp_items = Some (Items [(''type'', JStr ''string'')] ''string'' None) \<rparr>"
  have "case serializeParameter simple_env None p (JArr [JStr ''a,b'', JStr ''50%'']) of Inl _ \<Rightarrow> False | Inr _ \<Rightarrow> True"
    unfolding p_def by code_simp
  then obtain cs where cs: "serializeParameter simple_env None p (JArr [JStr ''a,b'', JStr ''50%'']) = Inr cs"
    by (auto split: sum.splits)
  have conv: "validateAndConvert simple_env p (JArr [JStr ''a,b'', JStr ''50%'']) = Inr [''a,b'', ''50%'']"
    unfolding p_def by code_simp
  have "utf8 ''a,b''" "utf8 ''50%''" by (simp_all add: utf8_all_ascii is_ascii_def byte_def)
  with swagger20_collection_roundtrip [OF cs _ _ conv] show ?thesis
    by (fastforce simp: p_def collectionDelimiter_def)
qed

end
