(* ===== verification/Openapi32_Multipart.thy ===== *)
theory Openapi32_Multipart
  imports Openapi32_Media Media_Type Swagger20_Params
begin

text \<open>
  The multipart half of \<open>openapi32-media.ts\<close>: Encoding Objects and the header fields they fix, the checks
  on a declaration, the media types of parts, and the builder of name-based, positional and one-level
  nested bodies.  The number of parts built so far indexes the random texts of nested boundaries.
\<close>

section \<open>Encoding headers\<close>

abbreviation own_record :: "js_members option \<Rightarrow> string \<Rightarrow> js_members option" where
  "own_record src k \<equiv> (case src of None \<Rightarrow> None | Some ms \<Rightarrow> as_object (member_of ms k))"

definition has_field :: "js_members option \<Rightarrow> string \<Rightarrow> bool" where
  "has_field src k \<longleftrightarrow> (case src of None \<Rightarrow> False | Some ms \<Rightarrow> has_member ms k)"

definition list_field :: "js_members option \<Rightarrow> string \<Rightarrow> jsval list" where
  "list_field src k = (case src of None \<Rightarrow> [] | Some ms \<Rightarrow> (case as_array (member_of ms k) of None \<Rightarrow> [] | Some xs \<Rightarrow> xs))"

text \<open>\<open>asRecord(o?.[name])\<close>, where \<open>o\<close> is an ordinary object.\<close>

definition named_record :: "js_members option \<Rightarrow> string \<Rightarrow> js_members option" where
  "named_record src name = (case src of None \<Rightarrow> None | Some ms \<Rightarrow> as_object (get_object ms name))"

record header_decl =
  hd_fixed :: "string option"
  hd_values :: "string list option"

definition header_admits :: "header_decl \<Rightarrow> string \<Rightarrow> bool" where
  "header_admits h v \<longleftrightarrow>
     (case hd_values h of None \<Rightarrow> True | Some vs \<Rightarrow> list_ex (\<lambda>c. ascii_lower c = ascii_lower v) vs)"

definition header_schema :: "js_members option \<Rightarrow> jsval" where
  "header_schema header =
     (case own_record header ''schema'' of
        Some s \<Rightarrow> JObj s
      | None \<Rightarrow>
          (case own_record header ''content'' of
             Some ((_, m) # _) \<Rightarrow> get_prop m ''schema''
           | _ \<Rightarrow> JUndefined))"

definition headerDeclaration :: "js_members option \<Rightarrow> string \<Rightarrow> header_decl option" where
  "headerDeclaration encoding wanted =
     (let declared = own_record encoding ''headers'' in
      case List.find (\<lambda>name. ascii_lower name = ascii_lower wanted) (case declared of None \<Rightarrow> [] | Some hs \<Rightarrow> member_keys hs) of
        None \<Rightarrow> None
      | Some key \<Rightarrow>
          if key = [] then None
          else
            let schema = header_schema (named_record declared key) in
            (case as_str (get_prop schema ''const'') of
               Some fixed \<Rightarrow> Some \<lparr> hd_fixed = Some fixed, hd_values = Some [fixed] \<rparr>
             | None \<Rightarrow>
                 (case as_array (get_prop schema ''enum'') of
                    Some xs \<Rightarrow>
                      let vs = List.map_filter as_str xs in
                      Some \<lparr> hd_fixed = (case vs of [v] \<Rightarrow> Some v | _ \<Rightarrow> None), hd_values = Some vs \<rparr>
                  | None \<Rightarrow> Some \<lparr> hd_fixed = None, hd_values = None \<rparr>)))"

function exactHeaderStringDomain :: "jsval \<Rightarrow> bool \<Rightarrow> string list option" where
  "exactHeaderStringDomain schema allowConst =
     (if schema = JBool False then Some []
      else
        (case schema of
           JObj ms \<Rightarrow>
             let own = (case member_of ms ''const'' of JStr s \<Rightarrow> if allowConst then [[s]] else [] | _ \<Rightarrow> []);
                 listed = (case member_of ms ''enum'' of
                             JArr xs \<Rightarrow> (let vs = remdups (List.map_filter as_str xs) in if vs = [] then [] else [vs])
                           | _ \<Rightarrow> []);
                 nested = concat (map (\<lambda>m. case exactHeaderStringDomain m allowConst of None \<Rightarrow> [] | Some d \<Rightarrow> [d])
                                (array_member ms ''allOf'')) in
             (case own @ listed @ nested of
                [] \<Rightarrow> None
              | d # ds \<Rightarrow> Some (filter (\<lambda>v. list_all (\<lambda>e. v \<in> set e) ds) d))
         | _ \<Rightarrow> None))"
  by pat_completeness auto
termination
  by (relation "measure (\<lambda>(schema, _). size schema)") (use size_array_member in auto)

declare exactHeaderStringDomain.simps [simp del]

definition validHTTPFieldValue :: "string \<Rightarrow> bool" where
  "validHTTPFieldValue v \<longleftrightarrow>
     (v = [] \<or> \<not> is_blank (hd v) \<and> \<not> is_blank (last v)) \<and>
     list_all (\<lambda>c. byte c \<noteq> 0x7f \<and> (byte c \<ge> 0x20 \<or> c = CHR 0x09)) v"

record header_member =
  hm_name :: string
  hm_required :: bool
  hm_domain :: "string list option"

record header_group =
  hg_name :: string
  hg_fixed :: "string option"
  hg_required :: bool
  hg_domains :: "string list list"

definition group_admits :: "header_group \<Rightarrow> string \<Rightarrow> bool" where
  "group_admits g v \<longleftrightarrow> list_all (\<lambda>d. v \<in> set d) (hg_domains g)"

text \<open>The members by lower-case name, in the order the names are first met.\<close>

type_synonym header_members = "(string \<times> header_member list) list"

fun add_member :: "string \<Rightarrow> header_member \<Rightarrow> header_members \<Rightarrow> header_members" where
  "add_member k m [] = [(k, [m])]"
| "add_member k m ((l, ms) # gs) = (if k = l then (l, ms @ [m]) # gs else (l, ms) # add_member k m gs)"

definition header_member_step :: "js_members \<Rightarrow> bool \<Rightarrow> string \<Rightarrow> header_members \<Rightarrow> (string, header_members) res" where
  "header_member_step hs allowConst name gs =
     (if ascii_lower name = ''content-type'' then Inr gs
      else if \<not> is_http_token name
      then fails (''Encoding header '' @ json_quote name @ '' is not an HTTP field-name token'')
      else
        (case as_object (member_of hs name) of
           None \<Rightarrow> Inr gs
         | Some header \<Rightarrow>
             Inr (add_member (ascii_lower name)
                    \<lparr> hm_name = name, hm_required = (member_of header ''required'' = JBool True),
                      hm_domain = (if has_member header ''content'' then None
                                   else exactHeaderStringDomain (member_of header ''schema'') allowConst) \<rparr> gs)))"

definition header_group_of :: "header_member list \<Rightarrow> (string, header_group) res" where
  "header_group_of ms =
     (let domains = List.map_filter hm_domain ms;
          fixed = remdups (concat (filter (\<lambda>d. length d = 1) domains));
          name = json_quote (hm_name (hd ms));
          required = list_ex hm_required ms in
      if length fixed > 1
      then fails (''case-equivalent Encoding headers for '' @ name @ '' fix conflicting values'')
      else
        let fixed_value = (case fixed of [] \<Rightarrow> None | v # _ \<Rightarrow> Some v) in
        if (case fixed_value of None \<Rightarrow> False | Some v \<Rightarrow> list_ex (\<lambda>d. v \<notin> set d) domains)
        then fails (''case-equivalent Encoding headers for '' @ name @ '' have no common fixed value'')
        else if fixed_value = None \<and> required
        then fails (''required Encoding header '' @ name @ '' has no exact artifact-fixed value'')
        else if (case fixed_value of None \<Rightarrow> False | Some v \<Rightarrow> \<not> validHTTPFieldValue v)
        then fails (''Encoding header '' @ name @ '' fixes an invalid HTTP field value'')
        else Inr \<lparr> hg_name = hm_name (hd ms), hg_fixed = fixed_value, hg_required = required, hg_domains = domains \<rparr>)"

definition encodingHeaderGroups :: "js_members option \<Rightarrow> string \<Rightarrow> (string, (string \<times> header_group) list) res" where
  "encodingHeaderGroups encoding version =
     (let declared = (case own_record encoding ''headers'' of None \<Rightarrow> [] | Some hs \<Rightarrow> hs) in
      res_bind (each_res (header_member_step declared (\<not> starts_with ''3.0.'' version)) (js_sort (member_keys declared)) [])
        (map_res (\<lambda>(k, ms). res_map (\<lambda>g. (k, g)) (header_group_of ms))))"

section \<open>Dispositions\<close>

text \<open>The part of a text after a leading run of white space, and whether it starts with some.\<close>

definition starts_blank :: "string \<Rightarrow> bool" where
  "starts_blank s \<longleftrightarrow> trim_start s \<noteq> s"

definition after_word :: "string \<Rightarrow> string \<Rightarrow> string option" where
  "after_word w s = (if prefix w (ascii_lower s) then Some (drop (length w) s) else None)"

text \<open>\<open>(?:^|;)\<close>: the text from its start, and after each semicolon.\<close>

definition field_starts :: "string \<Rightarrow> string list" where
  "field_starts s = s # map (\<lambda>i. drop (Suc i) s) (filter (\<lambda>i. s ! i = CHR '';'') [0..<length s])"

definition is_form_data :: "string \<Rightarrow> bool" where
  "is_form_data s \<longleftrightarrow>
     (case after_word ''form-data'' s of None \<Rightarrow> False | Some r \<Rightarrow> prefix '';'' (trim_start r))"

definition names_part :: "string \<Rightarrow> bool" where
  "names_part s \<longleftrightarrow>
     list_ex (\<lambda>f. case after_word ''name='' (trim_start f) of
                    None \<Rightarrow> False
                  | Some r \<Rightarrow> r \<noteq> [] \<and> hd r \<noteq> CHR '';'' \<and> \<not> starts_blank r) (field_starts s)"

definition has_extended_filename :: "string \<Rightarrow> bool" where
  "has_extended_filename s \<longleftrightarrow>
     list_ex (\<lambda>f. case after_word ''filename*'' (trim_start f) of
                    None \<Rightarrow> False
                  | Some r \<Rightarrow> prefix ''='' (trim_start r)) (field_starts s)"

text \<open>The capture of a quoted name, with the backtracking of the regular expression.\<close>

fun quoted_capture :: "string \<Rightarrow> string option" where
  "quoted_capture [] = None"
| "quoted_capture [c] = (if c = CHR 0x22 then Some [] else None)"
| "quoted_capture (c # d # s) =
     (if c = CHR 0x22 then Some []
      else if c = CHR 0x5C then
        (case quoted_capture s of
           Some r \<Rightarrow> Some (c # d # r)
         | None \<Rightarrow> map_option ((#) c) (quoted_capture (d # s)))
      else map_option ((#) c) (quoted_capture (d # s)))"

fun bare_capture :: "string \<Rightarrow> string" where
  "bare_capture [] = []"
| "bare_capture (c # s) = (if c = CHR '';'' \<or> starts_blank (c # s) then [] else c # bare_capture s)"

definition unescape_name :: "string \<Rightarrow> string" where
  "unescape_name = unescape_pairs (\<lambda>c. c = CHR 0x22 \<or> c = CHR 0x5C)"

definition named_field :: "string \<Rightarrow> string option" where
  "named_field f =
     (case after_word ''name'' (trim_start f) of
        None \<Rightarrow> None
      | Some r \<Rightarrow>
          (if \<not> prefix ''='' (trim_start r) then None
           else
             let v = trim_start (tl (trim_start r)) in
             (case (if prefix [CHR 0x22] v then quoted_capture (tl v) else None) of
                Some quoted \<Rightarrow> Some (unescape_name quoted)
              | None \<Rightarrow> if bare_capture v = [] then None else Some (bare_capture v))))"

definition declared_name :: "string \<Rightarrow> string option" where
  "declared_name s = (case List.map_filter named_field (field_starts s) of [] \<Rightarrow> None | n # _ \<Rightarrow> Some n)"

definition no_disposition :: string where
  "no_disposition = ''positional multipart/form-data requires an artifact-fixed Content-Disposition header''"

definition positionalDisposition :: "js_members option \<Rightarrow> (string, string) res" where
  "positionalDisposition encoding =
     (case headerDeclaration encoding ''Content-Disposition'' of
        Some h \<Rightarrow>
          (case hd_fixed h of
             Some fixed \<Rightarrow>
               if fixed \<noteq> [] \<and> is_form_data fixed \<and> names_part fixed then Inr fixed
               else fails no_disposition
           | None \<Rightarrow> fails no_disposition)
      | None \<Rightarrow> fails no_disposition)"

definition validateFixedFormDisposition :: "string \<Rightarrow> js_members option \<Rightarrow> (string, unit) res" where
  "validateFixedFormDisposition name encoding =
     (case (case headerDeclaration encoding ''Content-Disposition'' of None \<Rightarrow> None | Some h \<Rightarrow> hd_fixed h) of
        None \<Rightarrow> Inr ()
      | Some fixed \<Rightarrow>
          if has_extended_filename fixed
          then fails (''multipart property '' @ json_quote name @ '' declares forbidden filename* in Content-Disposition'')
          else if \<not> is_form_data fixed \<or> declared_name fixed \<noteq> Some name
          then fails (''multipart Content-Disposition does not name property '' @ json_quote name)
          else Inr ())"

definition generatedFormDisposition :: "string \<Rightarrow> (string, string) res" where
  "generatedFormDisposition name =
     (if list_ex (\<lambda>c. byte c = 0x7f \<or> byte c < 0x20) name
      then fails (''multipart part name '' @ json_quote name @ '' contains a forbidden control character'')
      else
        Inr (''form-data; name='' @ [CHR 0x22] @
             replace_all [CHR 0x22] [CHR 0x5C, CHR 0x22] (replace_all [CHR 0x5C] [CHR 0x5C, CHR 0x5C] name) @ [CHR 0x22]))"

section \<open>Declarations\<close>

definition nesting_fields :: "string list" where
  "nesting_fields = [''encoding'', ''prefixEncoding'', ''itemEncoding'']"

definition activeNestedEncoding :: "js_members option \<Rightarrow> bool" where
  "activeNestedEncoding encoding \<longleftrightarrow>
     (case encoding of
        None \<Rightarrow> False
      | Some ms \<Rightarrow>
          (case member_of ms ''contentType'' of
             JStr ct \<Rightarrow>
               list_ex (\<lambda>m. let base = mediaBase (js_trim m) in base = ''*/*'' \<or> starts_with ''multipart/'' base)
                 (split_str '','' ct) \<and>
               list_ex (has_member ms) nesting_fields
           | _ \<Rightarrow> False))"

text \<open>The Encoding Objects below an object: by name, by prefix position, and the one of the other items.\<close>

definition encoding_children :: "js_members option \<Rightarrow> js_members option list" where
  "encoding_children src =
     (case own_record src ''encoding'' of None \<Rightarrow> [] | Some es \<Rightarrow> map (as_object \<circ> snd) es) @
     map as_object (list_field src ''prefixEncoding'') @
     (if has_field src ''itemEncoding'' then [own_record src ''itemEncoding''] else [])"

text \<open>The first text a check answers with.\<close>

definition first_error :: "('a \<Rightarrow> string option) \<Rightarrow> 'a list \<Rightarrow> string option" where
  "first_error f xs = (case List.map_filter f xs of [] \<Rightarrow> None | e # _ \<Rightarrow> Some e)"

definition too_deep :: string where
  "too_deep = ''more than one nested Encoding level is not supported''"

definition mixed_encoding :: string where
  "mixed_encoding = ''name-based encoding is mutually exclusive with prefixEncoding and itemEncoding''"

definition child_encoding_error :: "js_members option \<Rightarrow> string option" where
  "child_encoding_error encoding = (if activeNestedEncoding encoding then Some too_deep else None)"

definition validateEncodingDepth :: "js_members option \<Rightarrow> string option" where
  "validateEncodingDepth encoding =
     (if \<not> activeNestedEncoding encoding then None
      else if has_field encoding ''encoding'' \<and> (has_field encoding ''prefixEncoding'' \<or> has_field encoding ''itemEncoding'')
      then Some mixed_encoding
      else first_error child_encoding_error (encoding_children encoding))"

definition thrown_text :: "(string, 'a) res \<Rightarrow> string option" where
  "thrown_text r = (case r of Inl e \<Rightarrow> Some e | Inr _ \<Rightarrow> None)"

definition validateMultipartDeclaration :: "js_members option \<Rightarrow> string \<Rightarrow> bool \<Rightarrow> string option" where
  "validateMultipartDeclaration media base positional =
     (if media = None then Some ''multipart Media Type Object is absent''
      else
        let nameBased = has_field media ''encoding'';
            positionalFields = (has_field media ''prefixEncoding'' \<or> has_field media ''itemEncoding'') in
        if nameBased \<and> positionalFields then Some mixed_encoding
        else if positionalFields \<and> \<not> positional
        then Some ''positional multipart encoding requires itemSchema or an array schema''
        else
          (case first_error validateEncodingDepth (encoding_children media) of
             Some e \<Rightarrow> Some e
           | None \<Rightarrow>
               if positional \<and> base = ''multipart/form-data'' then
                 (let prefixes = map as_object (list_field media ''prefixEncoding'') in
                  case first_error (thrown_text \<circ> positionalDisposition) prefixes of
                    Some e \<Rightarrow> Some e
                  | None \<Rightarrow>
                      if has_field media ''itemEncoding'' then thrown_text (positionalDisposition (own_record media ''itemEncoding''))
                      else if prefixes = [] then Some no_disposition
                      else None)
               else None))"

definition openAPI32RequestMediaAdmission :: "string \<Rightarrow> js_members option \<Rightarrow> admission" where
  "openAPI32RequestMediaAdmission base media =
     (if base = ''text/event-stream''
      then no_admission \<lparr> ad_handled := True, ad_error := Some ''text/event-stream has no incorporated request write algorithm'' \<rparr>
      else if base = ''application/jsonl'' \<or> base = ''application/x-ndjson''
      then no_admission \<lparr> ad_handled := True, ad_family := Some Sequential_Family, ad_sequential := Some JSON_Lines \<rparr>
      else if base = ''application/json-seq'' \<or> ends_with ''+json-seq'' base
      then no_admission \<lparr> ad_handled := True, ad_family := Some Sequential_Family, ad_sequential := Some JSON_Seq \<rparr>
      else if starts_with ''multipart/'' base
      then (let positional = openAPI32PositionalMultipart media;
                error = validateMultipartDeclaration media base positional in
            no_admission \<lparr> ad_handled := True, ad_family := Some Multipart_Family, ad_positional := positional,
              ad_error := (if error = Some [] then None else error) \<rparr>)
      else if has_field media ''itemSchema''
      then no_admission \<lparr> ad_handled := True,
             ad_error := Some (''media type '' @ json_quote base @
               '' declares itemSchema but has no incorporated sequential request framing'') \<rparr>
      else if isCharacterDataMedia base \<and>
              openAPI32NonJSONTextSchema (case media of None \<Rightarrow> JNull | Some ms \<Rightarrow> if has_member ms ''schema'' then member_of ms ''schema'' else JNull)
      then no_admission \<lparr> ad_handled := True, ad_family := Some Text_Family \<rparr>
      else no_admission)"

definition openAPI32MultipartNeedsNativeBuilder :: "js_members option \<Rightarrow> bool" where
  "openAPI32MultipartNeedsNativeBuilder media \<longleftrightarrow>
     openAPI32PositionalMultipart media \<or>
     (case own_record media ''encoding'' of
        None \<Rightarrow> False
      | Some es \<Rightarrow>
          list_ex (\<lambda>(_, v). activeNestedEncoding (as_object v) \<or> has_field (as_object v) ''headers'') es)"

definition media_schema_declaration :: "js_members option \<Rightarrow> bool \<Rightarrow> decl" where
  "media_schema_declaration media oas30 =
     resolveDeclaration (case media of None \<Rightarrow> JUndefined | Some ms \<Rightarrow> member_of ms ''schema'') oas30"

definition multipart_field_error :: "media32_env \<Rightarrow> js_members option \<Rightarrow> string \<Rightarrow> (string, unit) res" where
  "multipart_field_error env media name =
     (let (encoding, conflict) = keywordString (decl_property (e32_regexp env) (media_schema_declaration media False) name) ''contentEncoding'' in
      if conflict \<or> encoding = [] then Inr ()
      else
        (case headerDeclaration (named_record (own_record media ''encoding'') name) ''Content-Transfer-Encoding'' of
           None \<Rightarrow> Inr ()
         | Some h \<Rightarrow>
             check (header_admits h encoding)
               (''multipart part '' @ json_quote name @ '' Content-Transfer-Encoding disallows contentEncoding '' @ json_quote encoding)))"

definition validateOpenAPI32MultipartFields ::
  "media32_env \<Rightarrow> js_members option \<Rightarrow> js_members \<Rightarrow> (string, unit) res" where
  "validateOpenAPI32MultipartFields env media given =
     each_res (\<lambda>name _. multipart_field_error env media name) (member_keys given) ()"

section \<open>Parts\<close>

definition part_base64_bytes :: "jsval \<Rightarrow> string \<Rightarrow> (string, string) res" where
  "part_base64_bytes v subject =
     (case v of
        JStr s \<Rightarrow>
          (case (if base64_shape s then atob s else None) of
             Some bytes \<Rightarrow> if btoa bytes = s then Inr bytes else fails (subject @ '' must be a canonical Base64 string'')
           | None \<Rightarrow> fails (subject @ '' must be a canonical Base64 string''))
      | _ \<Rightarrow> fails (subject @ '' must be a canonical Base64 string''))"

definition declarationAsSchema :: "decl \<Rightarrow> jsval" where
  "declarationAsSchema d = JObj [(''type'', JArr (map JStr (case d_types d of None \<Rightarrow> [] | Some ts \<Rightarrow> ts)))]"

text \<open>The string type with a \<open>contentEncoding\<close>: the value is already encoded by the caller.\<close>

definition content_encoding :: "decl \<Rightarrow> string option" where
  "content_encoding d =
     (let (encoding, conflict) = keywordString d ''contentEncoding'' in
      if \<not> conflict \<and> encoding \<noteq> [] \<and> admitsStringAsSoleNonNullType d then Some encoding else None)"

definition defaultPartContentType :: "media32_env \<Rightarrow> decl \<Rightarrow> jsval \<Rightarrow> string" where
  "defaultPartContentType env d v =
     (let (declared, clash) = keywordString d ''contentMediaType''; (format, mixed) = decl_format d in
      if \<not> clash \<and> declared \<noteq> [] then declared
      else if content_encoding d \<noteq> None then ''application/octet-stream''
      else if typeless d then ''application/octet-stream''
      else if \<not> mixed \<and> (format = ''binary'' \<or> format = ''byte'') then ''application/octet-stream''
      else if openAPI32JSONValueType env v \<in> set [''array'', ''object''] then ''application/json''
      else ''text/plain'')"

definition partBody :: "media32_env \<Rightarrow> decl \<Rightarrow> jsval \<Rightarrow> string \<Rightarrow> (string, string) res" where
  "partBody env d v contentType =
     (if content_encoding d \<noteq> None then
        (case v of JStr s \<Rightarrow> Inr s | _ \<Rightarrow> fails ''artifact-encoded multipart part requires a string'')
      else if decl_format d = (''binary'', False) then part_base64_bytes v ''multipart binary part''
      else if typeless d then part_base64_bytes v ''multipart part''
      else if mediaBase contentType = ''application/json'' \<or> ends_with ''+json'' (mediaBase contentType)
      then stringify_media_json env v
      else serializeOpenAPI32NonJSONText env (declarationAsSchema d) v)"

definition part_crlf :: string where "part_crlf = [CHR 0x0D, CHR 0x0A]"

definition closing_line :: "string \<Rightarrow> string" where
  "closing_line boundary = ''--'' @ boundary @ ''--'' @ part_crlf"

definition part_disposition :: "(string \<times> header_group) list \<Rightarrow> string option \<Rightarrow> string option" where
  "part_disposition groups disposition =
     (case map_of groups ''content-disposition'' of
        Some g \<Rightarrow> (case hg_fixed g of Some v \<Rightarrow> Some v | None \<Rightarrow> disposition)
      | None \<Rightarrow> disposition)"

text \<open>The header fields of a part, in the order they are written.\<close>

definition part_fields :: "(string \<times> header_group) list \<Rightarrow> string option \<Rightarrow> bool \<Rightarrow> string \<Rightarrow> (string \<times> string) list" where
  "part_fields groups disposition formData contentType =
     (let shown = part_disposition groups disposition in
      (case shown of
         Some v \<Rightarrow> [(''Content-Disposition'', v)]
       | None \<Rightarrow> if formData then [(''Content-Disposition'', ''form-data; name='' @ [CHR 0x22, CHR 0x22])] else []) @
      [(''Content-Type'', contentType)] @
      concat (map (\<lambda>(_, g).
          (case hg_fixed g of
             None \<Rightarrow> []
           | Some v \<Rightarrow>
               if ascii_lower (hg_name g) = ''content-type'' then []
               else if ascii_lower (hg_name g) = ''content-disposition'' \<and> shown \<noteq> None then []
               else [(hg_name g, v)])) groups))"

definition field_line :: "string \<times> string \<Rightarrow> string" where
  "field_line f = fst f @ '': '' @ snd f"

definition framed_part :: "string \<Rightarrow> (string \<times> string) list \<Rightarrow> string \<Rightarrow> string" where
  "framed_part boundary given body =
     ''--'' @ boundary @ part_crlf @ join part_crlf (map field_line given) @ part_crlf @ part_crlf @ body @ part_crlf"

definition transfer_check :: "decl \<Rightarrow> (string \<times> header_group) list \<Rightarrow> (string, unit) res" where
  "transfer_check d groups =
     (case (content_encoding d, map_of groups ''content-transfer-encoding'') of
        (Some encoding, Some g) \<Rightarrow>
          check (group_admits g encoding)
            (''explicit Content-Transfer-Encoding Header disallows contentEncoding '' @ json_quote encoding)
      | _ \<Rightarrow> Inr ())"

definition part_content_type :: "media32_env \<Rightarrow> js_members option \<Rightarrow> decl \<Rightarrow> jsval \<Rightarrow> string" where
  "part_content_type env encoding d v =
     (case (case encoding of None \<Rightarrow> JUndefined | Some ms \<Rightarrow> member_of ms ''contentType'') of
        JStr ct \<Rightarrow> if ct \<noteq> [] then firstContentType ct else defaultPartContentType env d v
      | _ \<Rightarrow> defaultPartContentType env d v)"

text \<open>
  One part at depth zero, and one of its children at depth one: \<open>inner\<close> is the builder of children, the
  refusal \<open>too_deep\<close> for the children themselves.  The boundary of a nested body is the text \<open>fresh\<close> unless
  the media type names one.
\<close>

type_synonym part_builder =
  "string \<Rightarrow> string option \<Rightarrow> jsval \<Rightarrow> decl \<Rightarrow> js_members option \<Rightarrow> bool \<Rightarrow> (string, string) res"

definition encoding_at :: "js_members option \<Rightarrow> nat \<Rightarrow> js_members option" where
  "encoding_at src i =
     (let prefixes = list_field src ''prefixEncoding'' in
      case (if i < length prefixes then as_object (prefixes ! i) else None) of
        Some e \<Rightarrow> Some e
      | None \<Rightarrow> own_record src ''itemEncoding'')"

definition positional_disposition_for :: "bool \<Rightarrow> js_members option \<Rightarrow> (string, string option) res" where
  "positional_disposition_for formData encoding =
     (if formData then res_map Some (positionalDisposition encoding) else Inr None)"

definition nested_parts ::
  "media32_env \<Rightarrow> part_builder \<Rightarrow> string \<Rightarrow> js_members option \<Rightarrow> decl \<Rightarrow> jsval \<Rightarrow> bool \<Rightarrow> (string, string list) res" where
  "nested_parts env inner boundary encoding d v formData =
     (if has_field encoding ''encoding'' then
        (case as_object v of
           None \<Rightarrow> fails ''nested name-based multipart value must be an object''
         | Some ms \<Rightarrow>
             map_res (\<lambda>name.
                 res_bind (generatedFormDisposition name) (\<lambda>disposition.
                   inner boundary (Some disposition) (member_of ms name) (decl_property (e32_regexp env) d name)
                     (named_record (own_record encoding ''encoding'') name) formData))
               (js_sort (member_keys ms)))
      else
        (case as_array v of
           None \<Rightarrow> fails ''nested positional multipart value must be an array''
         | Some items \<Rightarrow>
             imap_res (\<lambda>i item.
                 res_bind (positional_disposition_for formData (encoding_at encoding i)) (\<lambda>disposition.
                   inner boundary disposition item (decl_items d) (encoding_at encoding i) formData))
               0 items))"

definition part_with :: "media32_env \<Rightarrow> part_builder option \<Rightarrow> string \<Rightarrow> string \<Rightarrow> part_builder" where
  "part_with env inner version fresh boundary disposition v d encoding formData =
     res_bind (encodingHeaderGroups encoding version) (\<lambda>groups.
       let contentType = part_content_type env encoding d v in
       res_bind
         (if activeNestedEncoding encoding \<and> starts_with ''multipart/'' (mediaBase contentType) then
            (case inner of
               None \<Rightarrow> fails too_deep
             | Some build \<Rightarrow>
                 (let base = mediaBase contentType;
                      nested = (case mediaParameter contentType ''boundary'' of None \<Rightarrow> fresh | Some b \<Rightarrow> b) in
                  res_map (\<lambda>parts. (concat parts @ closing_line nested, base @ ''; boundary='' @ nested))
                    (nested_parts env build nested encoding d v (base = ''multipart/form-data''))))
          else res_map (\<lambda>body. (body, contentType)) (partBody env d v contentType))
         (\<lambda>(body, written).
            res_map (\<lambda>_. framed_part boundary (part_fields groups disposition formData written) body)
              (transfer_check d groups)))"

definition multipartPart :: "media32_env \<Rightarrow> string \<Rightarrow> string \<Rightarrow> part_builder" where
  "multipartPart env version fresh = part_with env (Some (part_with env None version [])) version fresh"

section \<open>The body\<close>

definition generatedBoundary :: "media32_env \<Rightarrow> nat \<Rightarrow> string" where
  "generatedBoundary env k = ''----openbindings-'' @ e32_random env k"

record routed32_body =
  rb_fields :: js_members
  rb_value :: jsval
  rb_set :: bool

record multipart_wire =
  mw_body :: string
  mw_type :: string

definition positional_parts ::
  "media32_env \<Rightarrow> string \<Rightarrow> js_members \<Rightarrow> string \<Rightarrow> bool \<Rightarrow> jsval list \<Rightarrow> (string, string list) res" where
  "positional_parts env version media boundary formData items =
     (let given = member_of media ''itemSchema'';
          oas30 = starts_with ''3.0.'' version;
          d = (if given = JUndefined \<or> given = JNull then decl_items (media_schema_declaration (Some media) oas30)
               else resolveDeclaration given oas30) in
      imap_res (\<lambda>i item.
          res_bind (positional_disposition_for formData (encoding_at (Some media) i)) (\<lambda>disposition.
            multipartPart env version (generatedBoundary env (Suc i)) boundary disposition item d
              (encoding_at (Some media) i) formData))
        0 items)"

text \<open>The parts of a named property: the members of an array that is not one nested body, else the value.\<close>

definition property_members :: "decl \<Rightarrow> bool \<Rightarrow> jsval \<Rightarrow> jsval list" where
  "property_members d nested v =
     (case as_array v of Some items \<Rightarrow> if declaresOnly d [''array''] \<and> \<not> nested then items else [v] | None \<Rightarrow> [v])"

definition named_part ::
  "media32_env \<Rightarrow> string \<Rightarrow> js_members \<Rightarrow> string \<Rightarrow> bool \<Rightarrow> js_members \<Rightarrow> string \<Rightarrow> string list \<Rightarrow> (string, string list) res" where
  "named_part env version media boundary formData given name parts =
     (let root = media_schema_declaration (Some media) (starts_with ''3.0.'' version);
          d = decl_property (e32_regexp env) root name;
          v = member_of given name;
          encoding = named_record (own_record (Some media) ''encoding'') name;
          nested = activeNestedEncoding encoding in
      if v = JNull \<and> admitsNull d \<and> \<not> requiresProperty root name then Inr parts
      else
        res_bind (if formData then validateFixedFormDisposition name encoding else Inr ()) (\<lambda>_.
          if declaresOnly d [''array''] \<and> as_array v = None
          then fails (''multipart property '' @ json_quote name @ '' requires an array value'')
          else
            each_res (\<lambda>member built.
                res_bind (generatedFormDisposition name) (\<lambda>disposition.
                  res_map (\<lambda>part. built @ [part])
                    (multipartPart env version (generatedBoundary env (Suc (length built))) boundary (Some disposition) member
                       (if declaresOnly d [''array''] \<and> \<not> nested then decl_items d else d) encoding formData)))
              (property_members d nested v) parts))"

definition buildOpenAPI32MultipartBody ::
  "media32_env \<Rightarrow> string \<Rightarrow> js_members option \<Rightarrow> routed32_body \<Rightarrow> string \<Rightarrow> (string, multipart_wire) res" where
  "buildOpenAPI32MultipartBody env mediaType media routed version =
     (case media of
        None \<Rightarrow> fails ''OpenAPI 3.2 multipart plan has no Media Type Object''
      | Some ms \<Rightarrow>
          (let base = mediaBase mediaType;
               formData = (base = ''multipart/form-data'');
               boundary = (case mediaParameter mediaType ''boundary'' of None \<Rightarrow> generatedBoundary env 0 | Some b \<Rightarrow> b) in
           res_map (\<lambda>parts. \<lparr> mw_body = concat parts @ closing_line boundary, mw_type = base @ ''; boundary='' @ boundary \<rparr>)
             (if openAPI32PositionalMultipart media then
                (case (if rb_set routed then as_array (rb_value routed) else None) of
                   None \<Rightarrow> fails ''positional multipart request requires one array body''
                 | Some items \<Rightarrow> positional_parts env version ms boundary formData items)
              else
                each_res (named_part env version ms boundary formData (rb_fields routed))
                  (js_sort (member_keys (rb_fields routed))) [])))"

section \<open>What the parts of a body look like\<close>

definition header_members_ok :: "header_members \<Rightarrow> bool" where
  "header_members_ok gs \<longleftrightarrow>
     distinct (map fst gs) \<and>
     (\<forall>(k, ms)\<in>set gs. ms \<noteq> [] \<and> k \<noteq> ''content-type'' \<and>
        (\<forall>m\<in>set ms. ascii_lower (hm_name m) = k \<and> is_http_token (hm_name m)))"

lemma add_member_keys: "fst ` set (add_member k m gs) = insert k (fst ` set gs)"
  by (induction k m gs rule: add_member.induct) (simp_all add: insert_commute)

lemma add_member_ok:
  assumes "header_members_ok gs" and "ascii_lower (hm_name m) = k" and "is_http_token (hm_name m)" and "k \<noteq> ''content-type''"
  shows "header_members_ok (add_member k m gs)"
  using assms
proof (induction gs)
  case (Cons g gs)
  obtain l ms where g: "g = (l, ms)" by (cases g)
  have tail: "header_members_ok gs" using Cons.prems(1) by (simp add: header_members_ok_def)
  show ?case
    using Cons.prems Cons.IH [OF tail] add_member_keys [of k m gs] unfolding g
    by (auto simp: header_members_ok_def)
qed (auto simp: header_members_ok_def)

lemma header_member_step_ok:
  assumes "header_member_step hs allowConst name gs = Inr gs'" and "header_members_ok gs"
  shows "header_members_ok gs'"
  using assms by (auto simp: header_member_step_def intro!: add_member_ok split: if_splits option.splits)

lemma header_group_of_ok:
  assumes "header_group_of ms = Inr g"
  shows "hg_name g = hm_name (hd ms)" and "hg_fixed g = Some v \<Longrightarrow> validHTTPFieldValue v"
  using assms by (auto simp: header_group_of_def Let_def split: if_splits option.splits list.splits)

definition groups_ok :: "(string \<times> header_group) list \<Rightarrow> bool" where
  "groups_ok groups \<longleftrightarrow>
     distinct (map fst groups) \<and>
     (\<forall>(k, g)\<in>set groups. k = ascii_lower (hg_name g) \<and> k \<noteq> ''content-type'' \<and> is_http_token (hg_name g) \<and>
        (\<forall>v. hg_fixed g = Some v \<longrightarrow> validHTTPFieldValue v))"

lemma encodingHeaderGroups_ok:
  assumes "encodingHeaderGroups encoding version = Inr groups"
  shows "groups_ok groups"
proof -
  obtain declared gs where loop: "each_res (header_member_step declared (\<not> starts_with ''3.0.'' version)) (js_sort (member_keys declared)) [] = Inr gs"
    and groups: "map_res (\<lambda>(k, ms). res_map (\<lambda>g. (k, g)) (header_group_of ms)) gs = Inr groups"
    using assms by (auto simp: encodingHeaderGroups_def Let_def js_result)
  have gs: "header_members_ok gs"
    by (rule each_res_invariant [OF loop]) (auto simp: header_members_ok_def [of "[]"] intro: header_member_step_ok)
  have each: "list_all2 (\<lambda>p q. fst p = fst q \<and> header_group_of (snd p) = Inr (snd q)) gs groups"
    using groups unfolding map_res_Inr_iff
    by (rule list_all2_mono) (auto simp: js_result)
  have keys: "map fst groups = map fst gs"
    using each by (induction gs groups rule: list_all2_induct) auto
  have "k = ascii_lower (hg_name g) \<and> k \<noteq> ''content-type'' \<and> is_http_token (hg_name g) \<and>
      (\<forall>v. hg_fixed g = Some v \<longrightarrow> validHTTPFieldValue v)" if member: "(k, g) \<in> set groups" for k g
  proof -
    obtain i where i: "i < length groups" "groups ! i = (k, g)" using member unfolding in_set_conv_nth by blast
    obtain ms where ms: "gs ! i = (k, ms)" "header_group_of ms = Inr g"
      using list_all2_nthD2 [OF each i(1)] i(2) by (cases "gs ! i") simp
    have "(k, ms) \<in> set gs" using ms(1) i(1) keys by (metis length_map nth_mem)
    then have "ms \<noteq> []" "k \<noteq> ''content-type''" "\<forall>m\<in>set ms. ascii_lower (hm_name m) = k \<and> is_http_token (hm_name m)"
      using gs unfolding header_members_ok_def by blast+
    then show ?thesis using header_group_of_ok [OF ms(2)] hd_in_set [of ms] by metis
  qed
  then have "\<forall>(k, g)\<in>set groups. k = ascii_lower (hg_name g) \<and> k \<noteq> ''content-type'' \<and> is_http_token (hg_name g) \<and>
      (\<forall>v. hg_fixed g = Some v \<longrightarrow> validHTTPFieldValue v)" by blast
  moreover have "distinct (map fst groups)" using gs keys unfolding header_members_ok_def by metis
  ultimately show ?thesis unfolding groups_ok_def by (rule conjI [rotated])
qed

text \<open>
  The fields of a part: tokens for names, one field per name in any case, a media type, and values that
  cannot end a line.  The media type, and the disposition of a positional part, are texts of the document.
\<close>

definition field_ok :: "bool \<Rightarrow> string \<times> string \<Rightarrow> bool" where
  "field_ok strict f \<longleftrightarrow>
     is_http_token (fst f) \<and>
     (fst f = ''Content-Type'' \<or> \<not> strict \<and> fst f = ''Content-Disposition'' \<or> validHTTPFieldValue (snd f))"

definition fields_ok :: "bool \<Rightarrow> (string \<times> string) list \<Rightarrow> bool" where
  "fields_ok strict hs \<longleftrightarrow>
     distinct (map (ascii_lower \<circ> fst) hs) \<and> ''Content-Type'' \<in> fst ` set hs \<and> list_all (field_ok strict) hs"

definition strict_disposition :: "bool \<Rightarrow> string option \<Rightarrow> bool" where
  "strict_disposition strict disposition \<longleftrightarrow>
     (strict \<longrightarrow> (case disposition of None \<Rightarrow> True | Some v \<Rightarrow> validHTTPFieldValue v))"

lemma standard_field_names:
  "is_http_token ''Content-Type''" "is_http_token ''Content-Disposition''"
  "ascii_lower ''Content-Type'' = ''content-type''" "ascii_lower ''Content-Disposition'' = ''content-disposition''"
  by code_simp+

lemma empty_disposition_valid: "validHTTPFieldValue (''form-data; name='' @ [CHR 0x22, CHR 0x22])"
  by code_simp

lemma part_disposition_ok:
  assumes "groups_ok groups" and "strict_disposition strict disposition"
  shows "strict_disposition strict (part_disposition groups disposition)"
  using assms
  by (auto simp: part_disposition_def strict_disposition_def groups_ok_def split: option.splits dest!: map_of_SomeD)

definition group_fields :: "bool \<Rightarrow> (string \<times> header_group) list \<Rightarrow> (string \<times> string) list" where
  "group_fields shown groups =
     concat (map (\<lambda>(_, g).
          (case hg_fixed g of
             None \<Rightarrow> []
           | Some v \<Rightarrow>
               if ascii_lower (hg_name g) = ''content-type'' then []
               else if ascii_lower (hg_name g) = ''content-disposition'' \<and> shown then []
               else [(hg_name g, v)])) groups)"

lemma group_fields_from:
  assumes "f \<in> set (group_fields shown groups)"
  obtains k g where "(k, g) \<in> set groups" "hg_fixed g = Some (snd f)" "hg_name g = fst f"
    "shown \<longrightarrow> ascii_lower (fst f) \<noteq> ''content-disposition''"
  using assms by (auto simp: group_fields_def split: option.splits if_splits)

lemma group_fields_ok:
  assumes "groups_ok groups" and "f \<in> set (group_fields shown groups)"
  shows "is_http_token (fst f)" and "validHTTPFieldValue (snd f)" and "ascii_lower (fst f) \<noteq> ''content-type''"
    and "shown \<Longrightarrow> ascii_lower (fst f) \<noteq> ''content-disposition''"
    and "\<exists>g. (ascii_lower (fst f), g) \<in> set groups \<and> hg_fixed g = Some (snd f)"
proof -
  obtain k g where g: "(k, g) \<in> set groups" "hg_fixed g = Some (snd f)" "hg_name g = fst f"
    "shown \<longrightarrow> ascii_lower (fst f) \<noteq> ''content-disposition''"
    using assms(2) by (rule group_fields_from)
  then have "k = ascii_lower (fst f)" "k \<noteq> ''content-type''" "is_http_token (fst f)" "validHTTPFieldValue (snd f)"
    using assms(1) by (auto simp: groups_ok_def)
  then show "is_http_token (fst f)" and "validHTTPFieldValue (snd f)" and "ascii_lower (fst f) \<noteq> ''content-type''"
    and "shown \<Longrightarrow> ascii_lower (fst f) \<noteq> ''content-disposition''"
    and "\<exists>g. (ascii_lower (fst f), g) \<in> set groups \<and> hg_fixed g = Some (snd f)"
    using g by blast+
qed

lemma group_fields_distinct:
  assumes "groups_ok groups"
  shows "distinct (map (ascii_lower \<circ> fst) (group_fields shown groups))"
  using assms
proof (induction groups)
  case (Cons p groups)
  obtain k g where p: "p = (k, g)" by (cases p)
  have ok: "groups_ok groups" and k: "k \<notin> fst ` set groups" "ascii_lower (hg_name g) = k"
    using Cons.prems by (auto simp: groups_ok_def p)
  have "k \<noteq> ascii_lower (fst f)" if "f \<in> set (group_fields shown groups)" for f
    using group_fields_ok(5) [OF ok that] k(1) by force
  then have new: "k \<notin> (\<lambda>f. ascii_lower (fst f)) ` set (group_fields shown groups)" by blast
  have "group_fields shown (p # groups) = group_fields shown groups \<or>
      (\<exists>v. group_fields shown (p # groups) = (hg_name g, v) # group_fields shown groups)"
    by (simp add: group_fields_def p split: option.split)
  then show ?case using Cons.IH [OF ok] new k(2) by auto
qed (simp add: group_fields_def)

lemma part_fields_ok:
  assumes "groups_ok groups" and "strict_disposition strict disposition"
  shows "fields_ok strict (part_fields groups disposition formData contentType)"
proof -
  define shown where "shown = part_disposition groups disposition"
  have ok: "strict_disposition strict shown" unfolding shown_def by (rule part_disposition_ok [OF assms])
  have none: "shown = None \<Longrightarrow> (''content-disposition'', g) \<in> set groups \<Longrightarrow> hg_fixed g = None" for g
    using assms(1) unfolding shown_def part_disposition_def
    by (auto simp: groups_ok_def split: option.splits dest: map_of_is_SomeI)
  have no_disposition_field: "\<forall>f\<in>set (group_fields (shown \<noteq> None) groups). ascii_lower (fst f) \<noteq> ''content-disposition''"
    using group_fields_ok(4,5) [OF assms(1)] none by (cases shown) fastforce+
  define grouped where "grouped = group_fields (shown \<noteq> None) groups"
  define front where "front = (case shown of
         Some v \<Rightarrow> [(''Content-Disposition'', v)]
       | None \<Rightarrow> if formData then [(''Content-Disposition'', ''form-data; name='' @ [CHR 0x22, CHR 0x22])] else [])"
  have split: "part_fields groups disposition formData contentType = front @ (''Content-Type'', contentType) # grouped"
    by (simp only: part_fields_def group_fields_def front_def grouped_def Let_def shown_def [symmetric] append_Cons append_Nil)
  have front: "front = [] \<or> (\<exists>v. front = [(''Content-Disposition'', v)] \<and> (strict \<longrightarrow> validHTTPFieldValue v))"
    using ok empty_disposition_valid by (auto simp: front_def strict_disposition_def split: option.splits)
  have other: "is_http_token (fst f) \<and> validHTTPFieldValue (snd f) \<and>
      ascii_lower (fst f) \<noteq> ''content-type'' \<and> ascii_lower (fst f) \<noteq> ''content-disposition''"
    if "f \<in> set grouped" for f
    using group_fields_ok(1-3) [OF assms(1) that [unfolded grouped_def]] no_disposition_field that unfolding grouped_def by blast
  then have apart: "''content-type'' \<notin> set (map (ascii_lower \<circ> fst) grouped)"
    "''content-disposition'' \<notin> set (map (ascii_lower \<circ> fst) grouped)"
    unfolding set_map comp_apply image_iff by metis+
  have distinct: "distinct (map (ascii_lower \<circ> fst) grouped)"
    unfolding grouped_def by (rule group_fields_distinct [OF assms(1)])
  have ok: "list_all (field_ok strict) grouped" using other by (simp add: list_all_iff field_ok_def)
  from front show ?thesis
  proof
    assume "front = []"
    then show ?thesis using apart distinct ok
      by (simp add: fields_ok_def split standard_field_names field_ok_def)
  next
    assume "\<exists>v. front = [(''Content-Disposition'', v)] \<and> (strict \<longrightarrow> validHTTPFieldValue v)"
    then obtain v where "front = [(''Content-Disposition'', v)]" "strict \<longrightarrow> validHTTPFieldValue v" by blast
    then show ?thesis using apart distinct ok
      by (simp add: fields_ok_def split standard_field_names field_ok_def)
  qed
qed

lemma join_part_subset: "p \<in> set xs \<Longrightarrow> set p \<subseteq> set (join sep xs)"
  by (induction sep xs rule: join.induct) auto

lemma split_str_subset: "p \<in> set (split_str sep s) \<Longrightarrow> sep \<noteq> [] \<Longrightarrow> set p \<subseteq> set s"
  using join_part_subset [of p "split_str sep s" sep] by (simp add: join_split_str)

lemma generated_disposition_valid:
  assumes "generatedFormDisposition name = Inr disposition"
  shows "validHTTPFieldValue disposition"
proof -
  have ok: "list_all (\<lambda>c. byte c \<noteq> 0x7f \<and> byte c \<ge> 0x20) name"
    using assms by (auto simp: generatedFormDisposition_def list_all_iff list_ex_iff split: if_splits)
  define quoted where "quoted = replace_all [CHR 0x22] [CHR 0x5C, CHR 0x22] (replace_all [CHR 0x5C] [CHR 0x5C, CHR 0x5C] name)"
  have disposition: "disposition = ''form-data; name='' @ [CHR 0x22] @ quoted @ [CHR 0x22]"
    using assms by (simp add: generatedFormDisposition_def quoted_def split: if_splits)
  have quoting: "set (replace_all [c] [CHR 0x5C, c] s) \<subseteq> set s \<union> {c, CHR 0x5C}" if "c \<noteq> CHR ''$''" for c s
    using that set_join [of "[CHR 0x5C, c]" "split_str [c] s"] split_str_subset [of _ "[c]" s]
    by (simp add: replace_all_plain) blast
  have "set quoted \<subseteq> set name \<union> {CHR 0x22, CHR 0x5C}"
    unfolding quoted_def using quoting [of "CHR 0x22"] quoting [of "CHR 0x5C" name] by fastforce
  then have "list_all (\<lambda>c. byte c \<noteq> 0x7f \<and> (byte c \<ge> 0x20 \<or> c = CHR 0x09)) quoted"
    using ok by (fastforce simp: list_all_iff byte_def)
  then show ?thesis unfolding disposition by (simp add: validHTTPFieldValue_def is_blank_def byte_def)
qed

section \<open>An example\<close>

definition example_media32_env :: media32_env where
  "example_media32_env =
     \<lparr> e32_stringify = JSON_stringify, e32_number = JNum, e32_integer = (\<lambda>t. list_all is_digit t),
       e32_regexp = (\<lambda>_ _. None), e32_random = decimal \<rparr>"

definition example_multipart_media :: js_members where
  "example_multipart_media =
     [(''schema'', JObj [(''type'', JStr ''object''),
        (''properties'', JObj [(''note'', JObj [(''type'', JStr ''string'')])])]),
      (''encoding'', JObj [(''note'', JObj [(''contentType'', JStr ''text/plain''),
        (''headers'', JObj [(''X-Kind'', JObj [(''schema'', JObj [(''const'', JStr ''k'')])])])])])]"

definition example_multipart_wire :: multipart_wire where
  "example_multipart_wire =
     \<lparr> mw_body = framed_part ''b'' [(''Content-Disposition'', ''form-data; name='' @ [CHR 0x22] @ ''note'' @ [CHR 0x22]),
         (''Content-Type'', ''text/plain''), (''X-Kind'', ''k'')] ''hi'' @ closing_line ''b'',
       mw_type = ''multipart/form-data; boundary=b'' \<rparr>"

lemma example_multipart_built:
  "buildOpenAPI32MultipartBody example_media32_env ''multipart/form-data; boundary=b'' (Some example_multipart_media)
     \<lparr> rb_fields = [(''note'', JStr ''hi'')], rb_value = JUndefined, rb_set = False \<rparr> ''3.2.0'' = Inr example_multipart_wire"
  by code_simp

end
