(* ===== verification/Swagger20_Schema.thy ===== *)
theory Swagger20_Schema
  imports Swagger20_Params
begin

text \<open>
  \<open>swagger20-schema.ts\<close>: what a Swagger 2.0 Schema Object declares of the bytes that carry it, its types
  and formats, through references and \<open>allOf\<close>.  The reference graph is a parameter, as in
  \<open>Swagger20_Params\<close>, and the first argument of the resolution bounds the depth of what it follows.
\<close>

record sw_schema =
  sd_typed :: bool
  sd_types :: "string list"
  sd_formats :: "string list"

definition untyped_schema :: sw_schema where
  "untyped_schema = \<lparr> sd_typed = False, sd_types = [], sd_formats = [] \<rparr>"

definition schema_type_names :: "string list" where
  "schema_type_names = [''null'', ''boolean'', ''object'', ''array'', ''number'', ''string'', ''integer'']"

definition schema_type :: "bool \<Rightarrow> jsval \<Rightarrow> string list \<Rightarrow> (sw_error, string list) res" where
  "schema_type allowFile v seen =
     (case v of
        JStr t \<Rightarrow>
          if t = [] then Inl (Sw_Error ''Schema Object type contains a non-string or empty member'')
          else if t \<notin> set schema_type_names \<and> \<not> (allowFile \<and> t = ''file'')
          then Inl (Sw_Error (''Schema Object type '' @ json_quote t @ '' is not admitted''))
          else if t \<in> set seen then Inl (Sw_Error (''Schema Object type repeats '' @ json_quote t))
          else Inr (seen @ [t])
      | _ \<Rightarrow> Inl (Sw_Error ''Schema Object type contains a non-string or empty member''))"

definition schemaTypes :: "bool \<Rightarrow> jsval \<Rightarrow> (sw_error, string list) res" where
  "schemaTypes allowFile v =
     (let values = (case v of JArr xs \<Rightarrow> xs | _ \<Rightarrow> [v]) in
      if values = [] then Inl (Sw_Error ''Schema Object type array is empty'')
      else each_res (schema_type allowFile) values [])"

definition sw_conjoin :: "sw_schema \<Rightarrow> sw_schema \<Rightarrow> sw_schema" where
  "sw_conjoin l r =
     \<lparr> sd_typed = (sd_typed l \<or> sd_typed r),
       sd_types = (if sd_typed l \<and> sd_typed r then filter (\<lambda>t. t \<in> set (sd_types r)) (sd_types l)
                   else if sd_typed l then sd_types l
                   else if sd_typed r then sd_types r else []),
       sd_formats = sd_formats l @ filter (\<lambda>f. f \<notin> set (sd_formats l)) (sd_formats r) \<rparr>"

definition swagger20SoleString :: "sw_schema \<Rightarrow> bool" where
  "swagger20SoleString d \<longleftrightarrow>
     sd_typed d \<and> ''string'' \<in> set (sd_types d) \<and> list_all (\<lambda>t. t = ''string'' \<or> t = ''null'') (sd_types d)"

definition swagger20RawOctets :: "sw_schema \<Rightarrow> bool" where
  "swagger20RawOctets d \<longleftrightarrow>
     sd_typed d \<and> sd_types d = [''file''] \<or> swagger20SoleString d \<and> sd_formats d = [''binary'']"

definition swagger20ByteString :: "sw_schema \<Rightarrow> bool" where
  "swagger20ByteString d \<longleftrightarrow> swagger20SoleString d \<and> sd_formats d = [''byte'']"

section \<open>Resolution\<close>

definition reference_identity :: "string \<Rightarrow> sw_resource \<Rightarrow> string \<Rightarrow> string" where
  "reference_identity kind r target =
     (case sr_retrieval r of
        Some u \<Rightarrow> u
      | None \<Rightarrow> (case sr_requested r of Some u \<Rightarrow> u | None \<Rightarrow> [])) @ ''|'' @ kind @ ''|'' @ target"

definition own_types :: "bool \<Rightarrow> js_members \<Rightarrow> (sw_error, sw_schema) res" where
  "own_types allowFile ms =
     (if has_member ms ''type''
      then res_map (\<lambda>ts. untyped_schema \<lparr> sd_typed := True, sd_types := ts \<rparr>) (schemaTypes allowFile (member_of ms ''type''))
      else Inr untyped_schema)"

definition own_declaration :: "bool \<Rightarrow> js_members \<Rightarrow> (sw_error, sw_schema) res" where
  "own_declaration allowFile ms =
     res_bind (own_types allowFile ms) (\<lambda>d.
     case stringMember ms ''format'' of
       Absent \<Rightarrow> Inr d
     | Ill_Typed \<Rightarrow> Inl (Sw_Error ''Schema Object format is not a string'')
     | Valid f \<Rightarrow> Inr (d \<lparr> sd_formats := [f] \<rparr>))"

text \<open>The error of an \<open>allOf\<close> member is thrown again with its index.\<close>

fun member_error :: "nat \<Rightarrow> sw_error \<Rightarrow> sw_error" where
  "member_error i (Sw_Error e) = Sw_Error (''Schema Object allOf member '' @ decimal i @ '': '' @ e)"
| "member_error i e = e"

text \<open>
  The set \<open>active\<close> of the keys being resolved is shared as in \<open>resolveParameter\<close>: a nested call sees
  the key of its immediate caller, and so does the first \<open>allOf\<close> member, which is reached before
  anything is awaited; when a later member runs, every key has been removed again.
\<close>

primrec resolveSwagger20SchemaDeclaration ::
  "nat \<Rightarrow> sw_resolver \<Rightarrow> bool \<Rightarrow> jsval \<Rightarrow> sw_resource \<Rightarrow> string list \<Rightarrow> (sw_error, sw_schema) res" where
  "resolveSwagger20SchemaDeclaration 0 resolve allowFile v resource active = Inl Sw_Unresolved"
| "resolveSwagger20SchemaDeclaration (Suc n) resolve allowFile v resource active =
     (case as_object v of
        None \<Rightarrow> Inl (Sw_Error ''Schema Object is not an object'')
      | Some ms \<Rightarrow>
          (case stringMember ms ''$ref'' of
             Ill_Typed \<Rightarrow> Inl (Sw_Error ''Schema Object has an invalid $ref'')
           | Valid target \<Rightarrow>
               if target = [] then Inl (Sw_Error ''Schema Object has an invalid $ref'')
               else if reference_identity ''schema'' resource target \<in> set active
               then Inl (Sw_Error ''selected Schema reference cycle does not resolve a carriage declaration'')
               else
                 res_bind (resolve target resource) (\<lambda>r.
                 if sn_cycle r
                 then Inl (Sw_Error ''selected Schema reference cycle does not resolve a carriage declaration'')
                 else resolveSwagger20SchemaDeclaration n resolve allowFile (sn_node r) (sn_resource r)
                        [reference_identity ''schema'' resource target])
           | Absent \<Rightarrow>
               res_bind (own_declaration allowFile ms) (\<lambda>d.
               if \<not> has_member ms ''allOf'' then Inr d
               else
                 (case as_array (member_of ms ''allOf'') of
                    None \<Rightarrow> Inl (Sw_Error ''Schema Object allOf is not a nonempty array'')
                  | Some members \<Rightarrow>
                      if members = [] then Inl (Sw_Error ''Schema Object allOf is not a nonempty array'')
                      else
                        each_res (\<lambda>(i, m) d.
                            res_map (sw_conjoin d)
                              (res_err (member_error i)
                                 (resolveSwagger20SchemaDeclaration n resolve allowFile m resource
                                    (if i = 0 then active else []))))
                          (enumerate 0 members) d))))"

declare resolveSwagger20SchemaDeclaration.simps(2) [simp del]

section \<open>A declaration is the conjunction of what it reaches\<close>

text \<open>The Schema Objects a value stands for: itself, what its reference names, its \<open>allOf\<close> members.\<close>

inductive conjunct :: "sw_resolver \<Rightarrow> jsval \<Rightarrow> sw_resource \<Rightarrow> js_members \<Rightarrow> bool" for resolve where
  own: "stringMember ms ''$ref'' = Absent \<Longrightarrow> conjunct resolve (JObj ms) r ms"
| reference: "stringMember ms ''$ref'' = Valid t \<Longrightarrow> resolve t r = Inr x \<Longrightarrow>
    conjunct resolve (sn_node x) (sn_resource x) c \<Longrightarrow> conjunct resolve (JObj ms) r c"
| member: "stringMember ms ''$ref'' = Absent \<Longrightarrow> map_of ms ''allOf'' = Some (JArr vs) \<Longrightarrow> v \<in> set vs \<Longrightarrow>
    conjunct resolve v r c \<Longrightarrow> conjunct resolve (JObj ms) r c"

inductive_simps conjunct_object: "conjunct resolve (JObj ms) r c"

fun named_types :: "jsval \<Rightarrow> string set" where
  "named_types (JArr xs) = {t. JStr t \<in> set xs}"
| "named_types v = {t. v = JStr t}"

definition declares :: "sw_schema \<Rightarrow> js_members set \<Rightarrow> bool" where
  "declares d C \<longleftrightarrow>
     sd_typed d = (\<exists>c\<in>C. has_member c ''type'') \<and>
     set (sd_types d) = {t. sd_typed d \<and> (\<forall>c\<in>C. has_member c ''type'' \<longrightarrow> t \<in> named_types (member_of c ''type''))} \<and>
     set (sd_formats d) = {f. \<exists>c\<in>C. stringMember c ''format'' = Valid f}"

lemma declares_sw_conjoin: "declares d C \<Longrightarrow> declares e D \<Longrightarrow> declares (sw_conjoin d e) (C \<union> D)"
  by (auto simp: declares_def sw_conjoin_def)

lemma schema_type_loop:
  "each_res (schema_type allowFile) vs seen = Inr ts \<Longrightarrow> set ts = set seen \<union> {t. JStr t \<in> set vs}"
proof (induction vs arbitrary: seen)
  case (Cons v vs)
  then obtain u where u: "schema_type allowFile v seen = Inr u" "each_res (schema_type allowFile) vs u = Inr ts"
    by (auto simp: js_result)
  then have "set u = set seen \<union> {t. v = JStr t}"
    by (auto simp: schema_type_def split: jsval.splits if_splits)
  with Cons.IH [OF u(2)] show ?case by auto
qed simp

lemma schemaTypes_set:
  assumes "schemaTypes allowFile v = Inr ts"
  shows "set ts = named_types v"
  using assms by (cases v) (auto simp: schemaTypes_def Let_def js_result schema_type_def dest: schema_type_loop split: if_splits)

lemma own_types_declares:
  assumes "own_types allowFile ms = Inr d"
  shows "sd_typed d = has_member ms ''type'' \<and> sd_formats d = [] \<and>
    set (sd_types d) = (if has_member ms ''type'' then named_types (member_of ms ''type'') else {})"
  using assms by (auto simp: own_types_def untyped_schema_def js_result dest: schemaTypes_set split: if_splits)

lemma own_declaration_declares:
  assumes "own_declaration allowFile ms = Inr d"
  shows "declares d {ms}"
proof -
  obtain e where e: "own_types allowFile ms = Inr e"
    and d: "(case stringMember ms ''format'' of Absent \<Rightarrow> Inr e
             | Ill_Typed \<Rightarrow> Inl (Sw_Error ''Schema Object format is not a string'')
             | Valid f \<Rightarrow> Inr (e \<lparr> sd_formats := [f] \<rparr>)) = Inr d"
    using assms by (auto simp: own_declaration_def js_result)
  show ?thesis
    using d own_types_declares [OF e] by (cases "stringMember ms ''format''") (auto simp: declares_def)
qed

lemma sw_conjoin_loop:
  assumes "each_res (\<lambda>(i, m) d. res_map (sw_conjoin d) (f i m)) (enumerate k vs) d = Inr e"
    and "\<And>i v e. v \<in> set vs \<Longrightarrow> f i v = Inr e \<Longrightarrow> declares e (C v)"
    and "declares d D"
  shows "declares e (D \<union> (\<Union>v\<in>set vs. C v))"
  using assms
proof (induction vs arbitrary: k d D)
  case (Cons v vs)
  then obtain u where u: "f k v = Inr u"
    "each_res (\<lambda>(i, m) d. res_map (sw_conjoin d) (f i m)) (enumerate (Suc k) vs) (sw_conjoin d u) = Inr e"
    by (auto simp: js_result)
  have "declares (sw_conjoin d u) (D \<union> C v)"
    using Cons.prems(2) [OF _ u(1)] Cons.prems(3) by (intro declares_sw_conjoin) simp_all
  from Cons.IH [OF u(2) _ this] Cons.prems(2) show ?case by (simp add: Un_assoc)
qed simp

text \<open>
  The types and formats a Schema Object declares are those of the conjunction it stands for: over
  every object its references and \<open>allOf\<close> members reach, the types are the intersection of the \<open>type\<close>
  fields there are, and the formats are all the \<open>format\<close> fields.
\<close>
theorem schema_declaration_is_conjunction:
  assumes "resolveSwagger20SchemaDeclaration n resolve allowFile v r active = Inr d"
  shows "declares d {c. conjunct resolve v r c}"
  using assms
proof (induction n arbitrary: v r active d)
  case (Suc n)
  from Suc.prems obtain ms where v: "v = JObj ms"
    by (auto simp: resolveSwagger20SchemaDeclaration.simps(2) split: option.splits)
  note step = Suc.prems [unfolded v resolveSwagger20SchemaDeclaration.simps(2)]
  show ?case
  proof (cases "stringMember ms ''$ref''")
    case (Valid t)
    with step obtain x where "resolve t r = Inr x"
      "resolveSwagger20SchemaDeclaration n resolve allowFile (sn_node x) (sn_resource x)
         [reference_identity ''schema'' r t] = Inr d"
      by (auto simp: js_result split: if_splits)
    then show ?thesis using Suc.IH Valid by (simp add: v conjunct_object)
  next
    case Absent
    with step obtain e where e: "own_declaration allowFile ms = Inr e" by (auto simp: js_result)
    note own = own_declaration_declares [OF e]
    show ?thesis
    proof (cases "has_member ms ''allOf''")
      case False
      with step Absent e have "e = d" by simp
      moreover have "{c. conjunct resolve v r c} = {ms}"
        using Absent False by (auto simp: v conjunct_object has_member_iff)
      ultimately show ?thesis using own by simp
    next
      case True
      with step Absent e obtain vs where vs: "member_of ms ''allOf'' = JArr vs"
        and loop: "each_res (\<lambda>(i, m) d. res_map (sw_conjoin d) (res_err (member_error i)
            (resolveSwagger20SchemaDeclaration n resolve allowFile m r (if i = 0 then active else []))))
          (enumerate 0 vs) e = Inr d"
        by (auto split: option.splits if_splits)
      have "map_of ms ''allOf'' = Some (JArr vs)"
        using True vs by (auto simp: has_member_iff member_of_def)
      then have all: "{c. conjunct resolve v r c} = {ms} \<union> (\<Union>w\<in>set vs. {c. conjunct resolve w r c})"
        using Absent by (auto simp: v conjunct_object)
      show ?thesis unfolding all
        by (rule sw_conjoin_loop [OF loop _ own]) (auto simp: js_result intro: Suc.IH)
    qed
  qed (use step in simp)
qed simp

definition schema_example :: jsval where
  "schema_example = JObj [(''type'', JArr [JStr ''string'', JStr ''null'']),
     (''allOf'', JArr [JObj [(''$ref'', JStr ''#/definitions/a'')], JObj [(''format'', JStr ''byte'')]])]"

definition schema_example_resolver :: sw_resolver where
  "schema_example_resolver target r =
     Inr \<lparr> sn_node = JObj [(''type'', JStr ''string'')], sn_resource = r, sn_cycle = False \<rparr>"

lemma schema_example_resolved:
  "resolveSwagger20SchemaDeclaration 3 schema_example_resolver False schema_example example_resource [] =
     Inr \<lparr> sd_typed = True, sd_types = [''string''], sd_formats = [''byte''] \<rparr>"
  by code_simp

lemma schema_declaration_is_conjunction_witness:
  "declares \<lparr> sd_typed = True, sd_types = [''string''], sd_formats = [''byte''] \<rparr>
     {c. conjunct schema_example_resolver schema_example example_resource c}"
  by (rule schema_declaration_is_conjunction [OF schema_example_resolved])

end
