(* ===== verification/Swagger20_Media.thy ===== *)
theory Swagger20_Media
  imports Swagger20_Schema Media_Type Artifact_Names
begin

text \<open>
  The request half of \<open>swagger20-media.ts\<close>: the effective \<open>consumes\<close> and \<open>produces\<close> sets, the payload of an
  operation, the selection of its request media and the lane its bytes travel in, and the encoding
  of the payload; with what the other half, in \<open>Swagger20_Responses\<close>, shares.

  Parameters of the model: the request serializer of \<open>@openbindings/json\<close>, the caller's character
  encoders (\<open>None\<close> when one throws or returns no bytes), the texts \<open>Math.random\<close> supplies for
  boundaries.  Strings have no unpaired surrogates and are their UTF-8 octets: \<open>jsonValueHasLoneSurrogate\<close>,
  which the JSON lane asks first, is false of every value here and \<open>TextEncoder\<close> is the identity.
\<close>

section \<open>Media sets\<close>

datatype media_refusal = Refused sw_error | Not_Media media_error | Type_Error

abbreviation refuse :: "string \<Rightarrow> (media_refusal, 'a) res" where
  "refuse s \<equiv> Inl (Refused (Sw_Error s))"

record sw_media =
  sm_media :: parsed_media
  sm_specificity :: nat

abbreviation media_base :: "sw_media \<Rightarrow> string" where "media_base m \<equiv> pm_base (sm_media m)"
abbreviation media_params :: "sw_media \<Rightarrow> media_params" where "media_params m \<equiv> pm_params (sm_media m)"
abbreviation media_text :: "sw_media \<Rightarrow> string" where "media_text m \<equiv> pm_canonical (sm_media m)"

record sw_media_entry =
  se_raw :: string
  se_parsed :: "(media_error, sw_media) res"
  se_colliding :: bool

type_synonym sw_media_set = "sw_media_entry list"

definition parseConcrete :: "string \<Rightarrow> (media_error, sw_media) res" where
  "parseConcrete raw = res_map (\<lambda>m. \<lparr> sm_media = m, sm_specificity = 2 \<rparr>) (parseMediaType raw True)"

definition parseDeclaration :: "string \<Rightarrow> (media_error, sw_media) res" where
  "parseDeclaration raw =
     (if CHR ''*'' \<in> set raw
      then res_map (\<lambda>(m, s). \<lparr> sm_media = m, sm_specificity = s \<rparr>) (parseMediaRange raw True)
      else parseConcrete raw)"

definition media_entry :: "string \<Rightarrow> nat \<Rightarrow> jsval \<Rightarrow> (media_refusal, sw_media_entry) res" where
  "media_entry field i v =
     (case as_str v of
        None \<Rightarrow> refuse (''effective '' @ field @ '' member '' @ decimal i @ '' is not a nonempty string'')
      | Some s \<Rightarrow>
          if s = [] then refuse (''effective '' @ field @ '' member '' @ decimal i @ '' is not a nonempty string'')
          else Inr \<lparr> se_raw = s, se_parsed = parseDeclaration s, se_colliding = False \<rparr>)"

definition entry_identity :: "sw_media_entry \<Rightarrow> string option" where
  "entry_identity e = (case se_parsed e of Inr m \<Rightarrow> Some (pm_identity (sm_media m)) | Inl _ \<Rightarrow> None)"

definition mark_collisions :: "sw_media_set \<Rightarrow> sw_media_set" where
  "mark_collisions es =
     map (\<lambda>e. if entry_identity e \<noteq> None \<and> count_list (map entry_identity es) (entry_identity e) > 1
              then e \<lparr> se_colliding := True \<rparr> else e) es"

definition effectiveSwagger20MediaSet ::
  "js_members \<Rightarrow> js_members \<Rightarrow> string \<Rightarrow> (media_refusal, sw_media_set) res" where
  "effectiveSwagger20MediaSet root operation field =
     (let own = arrayMember operation field;
          declared = (if sw_present own then own else arrayMember root field) in
      case declared of
        Absent \<Rightarrow> Inr []
      | Ill_Typed \<Rightarrow> refuse (''effective '' @ field @ '' is not an array'')
      | Valid values \<Rightarrow> res_map mark_collisions (imap_res (media_entry field) 0 values))"

text \<open>The two halves of a base: \<open>base.split("/")\<close>, whose second part may be missing.\<close>

definition base_parts :: "string \<Rightarrow> string \<times> string option" where
  "base_parts base =
     (case split_str ''/'' base of
        t # s # _ \<Rightarrow> (t, Some s)
      | [t] \<Rightarrow> (t, None)
      | [] \<Rightarrow> ([], None))"

definition declarationMatches :: "sw_media \<Rightarrow> sw_media \<Rightarrow> bool" where
  "declarationMatches d c \<longleftrightarrow>
     (let (dt, ds) = base_parts (media_base d); (ct, cs) = base_parts (media_base c) in
      (dt = ''*'' \<or> dt = ct) \<and> (ds = Some ''*'' \<or> ds = cs) \<and>
      list_all (\<lambda>(name, v). map_of (media_params c) name = Some v) (media_params d))"

text \<open>The entries that can govern: parsed and colliding with no other.\<close>

definition usable_entry :: "sw_media_entry \<Rightarrow> sw_media option" where
  "usable_entry e = (case se_parsed e of Inr m \<Rightarrow> if se_colliding e then None else Some m | Inl _ \<Rightarrow> None)"

type_synonym best_state = "int \<times> int \<times> sw_media list"

definition best_step :: "sw_media \<Rightarrow> sw_media_entry \<Rightarrow> best_state \<Rightarrow> best_state" where
  "best_step wanted e st =
     (case usable_entry e of
        None \<Rightarrow> st
      | Some m \<Rightarrow>
          if \<not> declarationMatches m wanted then st
          else
            let (specificity, parameterCount, best) = st;
                s = int (sm_specificity m); n = int (length (media_params m)) in
            if s > specificity \<or> s = specificity \<and> n > parameterCount then (s, n, [m])
            else if s = specificity \<and> n = parameterCount then (s, n, best @ [m])
            else st)"

definition bestMatches :: "sw_media_set \<Rightarrow> sw_media \<Rightarrow> sw_media list" where
  "bestMatches es wanted = snd (snd (fold (best_step wanted) es (-1, -1, [])))"

section \<open>Payloads and lanes\<close>

datatype payload_kind = Body_Payload | Form_Payload

record sw_payload =
  py_kind :: "payload_kind option"
  py_body :: "sw_param option"
  py_form :: "sw_param list"
  py_declaration :: "sw_schema option"

datatype sw_lane = Lane_JSON | Lane_Text | Lane_Byte | Lane_Octets | Lane_Urlencoded | Lane_Multipart

record sw_selection =
  sl_media :: sw_media
  sl_declaration :: sw_media
  sl_lane :: sw_lane

definition swagger20PayloadFor ::
  "sw_env \<Rightarrow> nat \<Rightarrow> sw_resolver \<Rightarrow> sw_set \<Rightarrow> (sw_error, sw_payload) res" where
  "swagger20PayloadFor env n resolve parameters =
     (case ss_body parameters of
        Some body \<Rightarrow>
          res_map (\<lambda>d. \<lparr> py_kind = Some Body_Payload, py_body = Some body, py_form = [], py_declaration = Some d \<rparr>)
            (resolveSwagger20SchemaDeclaration n resolve False (member_of (sp_raw body) ''schema'') (sp_resource body) [])
      | None \<Rightarrow>
          let form = sort_key (\<lambda>p. collation env (sp_name p)) (filter (\<lambda>p. sp_in p = ''formData'') (ss_nonBody parameters)) in
          Inr \<lparr> py_kind = (if form = [] then None else Some Form_Payload), py_body = None, py_form = form,
                py_declaration = None \<rparr>)"

definition swagger20PayloadRequired :: "sw_payload \<Rightarrow> bool" where
  "swagger20PayloadRequired model \<longleftrightarrow>
     (case py_body model of None \<Rightarrow> False | Some b \<Rightarrow> sp_required b) \<or> list_ex sp_required (py_form model)"

definition isJSONMedia :: "string \<Rightarrow> bool" where
  "isJSONMedia base \<longleftrightarrow>
     base = ''application/json'' \<or> (case snd (base_parts base) of None \<Rightarrow> False | Some s \<Rightarrow> ends_with ''+json'' s)"

definition isCharacterMedia :: "string \<Rightarrow> bool" where
  "isCharacterMedia base \<longleftrightarrow>
     fst (base_parts base) = ''text'' \<or> base = ''application/xml'' \<or>
     (case snd (base_parts base) of None \<Rightarrow> False | Some s \<Rightarrow> ends_with ''+xml'' s)"

definition safeMultipartName :: "string \<Rightarrow> bool" where
  "safeMultipartName v \<longleftrightarrow> v \<noteq> [] \<and> list_all (\<lambda>c. \<not> (byte c < 0x20 \<and> c \<noteq> CHR 0x09) \<and> byte c \<noteq> 0x7f) v"

text \<open>The lane of a body, which requests and responses share.\<close>

definition body_lane :: "string \<Rightarrow> sw_media \<Rightarrow> sw_schema \<Rightarrow> (media_refusal, sw_lane) res" where
  "body_lane message media d =
     (if isJSONMedia (media_base media) then Inr Lane_JSON
      else if swagger20ByteString d then Inr Lane_Byte
      else if swagger20RawOctets d then Inr Lane_Octets
      else if isCharacterMedia (media_base media) \<and> swagger20SoleString d then Inr Lane_Text
      else refuse message)"

definition form_lane :: "sw_media \<Rightarrow> sw_param list \<Rightarrow> (media_refusal, sw_lane) res" where
  "form_lane media form =
     (if media_base media = ''application/x-www-form-urlencoded'' then
        (case List.find (\<lambda>p. sp_type p = ''file'') form of
           Some file \<Rightarrow> refuse (''urlencoded form cannot carry file parameter '' @ json_quote (sp_name file))
         | None \<Rightarrow> Inr Lane_Urlencoded)
      else if media_base media = ''multipart/form-data'' then
        (if list_ex (\<lambda>p. \<not> safeMultipartName (sp_name p)) form
         then refuse ''multipart form parameter name is unsafe'' else Inr Lane_Multipart)
      else refuse ''formData requires application/x-www-form-urlencoded or multipart/form-data'')"

definition swagger20RequestLane :: "sw_media \<Rightarrow> sw_payload \<Rightarrow> (media_refusal, sw_lane) res" where
  "swagger20RequestLane media model =
     (if sm_specificity media \<noteq> 2 then refuse ''media type is not concrete''
      else if py_kind model = Some Form_Payload then form_lane media (py_form model)
      else body_lane ''selected media and resolved declaration define no request byte carriage'' media
             (the (py_declaration model)))"

definition lane_candidates :: "bool \<Rightarrow> string list" where
  "lane_candidates form =
     (if form then [''application/x-www-form-urlencoded'', ''multipart/form-data'']
      else [''application/json'', ''text/plain'', ''application/octet-stream'', ''image/png''])"

definition is_ok :: "('e, 'a) res \<Rightarrow> bool" where
  "is_ok r = (case r of Inr _ \<Rightarrow> True | Inl _ \<Rightarrow> False)"

definition swagger20RangeHasUsableLane :: "sw_media \<Rightarrow> sw_payload \<Rightarrow> bool" where
  "swagger20RangeHasUsableLane declared model =
     list_ex (\<lambda>candidate.
       (case parseConcrete candidate of
          Inl _ \<Rightarrow> False
        | Inr media \<Rightarrow> declarationMatches declared media \<and> is_ok (swagger20RequestLane media model)))
       (lane_candidates (py_kind model = Some Form_Payload))"

text \<open>A candidate with no lane is a range of which some concrete media would be usable.\<close>

definition lane_candidate :: "sw_payload \<Rightarrow> sw_media_entry \<Rightarrow> (sw_media \<times> sw_lane option) list" where
  "lane_candidate model e =
     (case usable_entry e of
        None \<Rightarrow> []
      | Some m \<Rightarrow>
          if sm_specificity m < 2 then (if swagger20RangeHasUsableLane m model then [(m, None)] else [])
          else (case swagger20RequestLane m model of Inr lane \<Rightarrow> [(m, Some lane)] | Inl _ \<Rightarrow> []))"

definition configured_media :: "sw_media_set \<Rightarrow> sw_payload \<Rightarrow> string \<Rightarrow> (media_refusal, sw_selection) res" where
  "configured_media es model configured =
     res_bind (res_err Not_Media (parseConcrete configured)) (\<lambda>wanted.
     case bestMatches es wanted of
       [] \<Rightarrow> refuse (''configuration.requestMedia '' @ json_quote (media_text wanted) @
                     '' matches no non-colliding effective consumes declaration'')
     | [m] \<Rightarrow> res_map (\<lambda>lane. \<lparr> sl_media = wanted, sl_declaration = m, sl_lane = lane \<rparr>)
                (swagger20RequestLane wanted model)
     | _ \<Rightarrow> refuse (''configuration.requestMedia '' @ json_quote (media_text wanted) @
                    '' ambiguously matches effective consumes''))"

definition selectSwagger20RequestMedia ::
  "sw_media_set \<Rightarrow> sw_payload \<Rightarrow> string option \<Rightarrow> (media_refusal, sw_selection) res" where
  "selectSwagger20RequestMedia es model configured =
     (if py_kind model = None
      then refuse ''payload was supplied but the operation declares no request payload model''
      else
        (case configured of
           Some c \<Rightarrow> configured_media es model c
         | None \<Rightarrow>
             (case concat (map (lane_candidate model) es) of
                [] \<Rightarrow> refuse ''effective consumes has no usable request-media candidate''
              | [(m, Some lane)] \<Rightarrow> Inr \<lparr> sl_media = m, sl_declaration = m, sl_lane = lane \<rparr>
              | _ \<Rightarrow> Inl (Refused (Sw_Config_Required ''requestMedia'' [])))))"

section \<open>Encoding\<close>

definition charsetFor :: "sw_media \<Rightarrow> string" where
  "charsetFor media =
     ascii_lower (js_trim (case map_of (media_params media) ''charset'' of None \<Rightarrow> ''utf-8'' | Some c \<Rightarrow> c))"

definition encodeCharacterData ::
  "(string \<Rightarrow> (string \<Rightarrow> string option) option) \<Rightarrow> string \<Rightarrow> sw_media \<Rightarrow> (media_refusal, string) res" where
  "encodeCharacterData encoders v media =
     (let charset = charsetFor media in
      if charset = ''utf-8'' \<or> charset = ''utf8'' then Inr v
      else
        (case encoders charset of
           None \<Rightarrow> refuse (''unsupported request character-data charset '' @ json_quote charset)
         | Some encode \<Rightarrow>
             (case encode v of
                None \<Rightarrow> refuse (''request character-data charset '' @ json_quote charset @ '' failed'')
              | Some bytes \<Rightarrow> Inr bytes)))"

definition form_plain :: "char \<Rightarrow> bool" where
  "form_plain c \<longleftrightarrow> is_alnum c \<or> c \<in> set ''-._~''"

definition formEncode :: "string \<Rightarrow> string" where
  "formEncode v = concat (map (\<lambda>c. if c = CHR '' '' then ''+'' else if form_plain c then [c] else pct c) v)"

definition urlEncoded :: "sw_contribution list \<Rightarrow> string" where
  "urlEncoded cs =
     join ''&'' (map (\<lambda>c. formEncode (wc_name c) @ (if wc_present c then ''='' @ formEncode (wc_value c) else [])) cs)"

text \<open>A contribution has octets exactly when its parameter is a file.\<close>

definition multipartContent :: "sw_contribution \<Rightarrow> string" where
  "multipartContent c =
     wc_name c @ [CHR 0x00] @ wc_value c @ [CHR 0x00] @ (case wc_octets c of None \<Rightarrow> [] | Some os \<Rightarrow> btoa os)"

fun occurs_in :: "string \<Rightarrow> string \<Rightarrow> bool" where
  "occurs_in pat [] = (pat = [])"
| "occurs_in pat (c # s) = (prefix pat (c # s) \<or> occurs_in pat s)"

definition generated_boundary :: "string \<Rightarrow> string" where
  "generated_boundary random = ''swagger20-boundary-'' @ random"

text \<open>
  The search for a boundary; \<open>k\<close> attempts remain of 31.  A configured boundary is never replaced,
  unless it is empty, which the source's test for it overlooks.
\<close>

fun pick_boundary :: "(nat \<Rightarrow> string) \<Rightarrow> string list \<Rightarrow> bool \<Rightarrow> nat \<Rightarrow> string \<Rightarrow> string option" where
  "pick_boundary random contents fixed k boundary =
     (if list_ex (occurs_in boundary) contents then
        (case k of
           0 \<Rightarrow> None
         | Suc m \<Rightarrow>
             if fixed then None
             else pick_boundary random contents fixed m (generated_boundary (random (31 - m))))
      else Some boundary)"

definition multipart_boundary :: "(nat \<Rightarrow> string) \<Rightarrow> sw_media \<Rightarrow> sw_contribution list \<Rightarrow> string option" where
  "multipart_boundary random media cs =
     (let configured = map_of (media_params media) ''boundary'' in
      pick_boundary random (map multipartContent cs) (configured \<noteq> None \<and> configured \<noteq> Some []) 31
        (case configured of None \<Rightarrow> generated_boundary (random 0) | Some b \<Rightarrow> b))"

text \<open>\<open>propertyMedia\<close> is an ordinary object, so the lookup sees the members of \<open>Object.prototype\<close>.\<close>

definition part_type :: "js_members \<Rightarrow> sw_contribution \<Rightarrow> (media_refusal, string) res" where
  "part_type propertyMedia c =
     (if wc_octets c = None then Inr ''text/plain; charset=utf-8''
      else
        let configured = get_object propertyMedia (wc_name c) in
        if \<not> truthy configured
        then Inl (Refused (Sw_Config_Required ''propertyMedia'' (''/'' @ escapePointerSegment (wc_name c))))
        else
          (case as_str configured of
             None \<Rightarrow> Inl Type_Error
           | Some t \<Rightarrow> res_map media_text (res_err Not_Media (parseConcrete t))))"

definition crlf :: string where "crlf = [CHR 0x0D, CHR 0x0A]"

definition quoted_name :: "string \<Rightarrow> string" where
  "quoted_name name =
     replace_all [CHR 0x22] [CHR 0x5C, CHR 0x22] (replace_all [CHR 0x5C] [CHR 0x5C, CHR 0x5C] name)"

definition part_octets :: "sw_contribution \<Rightarrow> string" where
  "part_octets c = (case wc_octets c of None \<Rightarrow> wc_value c | Some os \<Rightarrow> os)"

definition part_text :: "string \<Rightarrow> string \<Rightarrow> sw_contribution \<Rightarrow> string" where
  "part_text boundary type c =
     ''--'' @ boundary @ crlf @ ''Content-Disposition: form-data; name='' @
     [CHR 0x22] @ quoted_name (wc_name c) @ [CHR 0x22] @ crlf @ ''Content-Type: '' @ type @ crlf @ crlf @
     part_octets c @ crlf"

definition multipart ::
  "(nat \<Rightarrow> string) \<Rightarrow> js_members \<Rightarrow> sw_contribution list \<Rightarrow> sw_media \<Rightarrow> (media_refusal, string \<times> string) res" where
  "multipart random propertyMedia cs media =
     (case multipart_boundary random media cs of
        None \<Rightarrow> refuse ''multipart boundary occurs in representation content''
      | Some boundary \<Rightarrow>
          res_map (\<lambda>parts. (concat parts @ ''--'' @ boundary @ ''--'' @ crlf,
                              media_base media @ ''; boundary='' @ boundary))
            (map_res (\<lambda>c. res_map (\<lambda>type. part_text boundary type c) (part_type propertyMedia c)) cs))"

definition encodeSwagger20RequestPayload ::
  "json_stringify \<Rightarrow> (string \<Rightarrow> (string \<Rightarrow> string option) option) \<Rightarrow> (nat \<Rightarrow> string) \<Rightarrow> js_members \<Rightarrow>
     sw_selection \<Rightarrow> sw_payload \<Rightarrow> sw_routed \<Rightarrow> (media_refusal, string \<times> string) res" where
  "encodeSwagger20RequestPayload sj encoders random propertyMedia selection model routed =
     (let media = sl_media selection; typed = (\<lambda>body. (body, media_text media)) in
      case sl_lane selection of
        Lane_JSON \<Rightarrow>
          (case sj (sw_body routed) of
             None \<Rightarrow> refuse ''request value has no strict JSON image''
           | Some encoded \<Rightarrow> Inr (typed encoded))
      | Lane_Text \<Rightarrow>
          (case as_str (sw_body routed) of
             None \<Rightarrow> refuse ''character-data request lane requires a string''
           | Some s \<Rightarrow> res_map typed (encodeCharacterData encoders s media))
      | Lane_Byte \<Rightarrow>
          (case as_str (sw_body routed) of
             None \<Rightarrow> refuse ''format byte request value is not standard Base64''
           | Some s \<Rightarrow>
               if base64_shape s then Inr (typed s)
               else refuse ''format byte request value is not standard Base64'')
      | Lane_Octets \<Rightarrow>
          (case as_str (sw_body routed) of
             None \<Rightarrow> refuse ''raw-octet request lane requires a canonical Base64 string''
           | Some s \<Rightarrow> res_map typed (res_err Refused (canonicalBase64Bytes s)))
      | Lane_Urlencoded \<Rightarrow> Inr (typed (urlEncoded (sw_formData routed)))
      | Lane_Multipart \<Rightarrow>
          if py_kind model \<noteq> Some Form_Payload then refuse ''multipart lane has no formData model''
          else multipart random propertyMedia (sw_formData routed) media)"

section \<open>The best matches are the most specific\<close>

text \<open>The reference: the matching declarations that no matching declaration exceeds.\<close>

definition media_rank :: "sw_media \<Rightarrow> nat \<times> nat" where
  "media_rank m = (sm_specificity m, length (media_params m))"

definition matching :: "sw_media_set \<Rightarrow> sw_media \<Rightarrow> sw_media list" where
  "matching es wanted = filter (\<lambda>m. declarationMatches m wanted) (List.map_filter usable_entry es)"

definition most_specific :: "sw_media list \<Rightarrow> sw_media list" where
  "most_specific ms = filter (\<lambda>m. \<forall>k\<in>set ms. media_rank k \<le> media_rank m) ms"

definition best_invariant :: "sw_media list \<Rightarrow> best_state \<Rightarrow> bool" where
  "best_invariant ms st \<longleftrightarrow>
     (if ms = [] then st = (-1, -1, [])
      else \<exists>s n. st = (int s, int n, most_specific ms) \<and> (\<exists>m\<in>set ms. media_rank m = (s, n)) \<and>
             (\<forall>k\<in>set ms. media_rank k \<le> (s, n)))"

lemma most_specific_max:
  assumes "\<exists>m\<in>set ms. media_rank m = r" and "\<forall>k\<in>set ms. media_rank k \<le> r"
  shows "most_specific ms = filter (\<lambda>m. media_rank m = r) ms"
  unfolding most_specific_def using assms by (intro filter_cong refl) (auto intro: antisym)

lemma rank_bound:
  fixes f :: "'a \<Rightarrow> 'b :: order"
  shows "\<forall>k\<in>set ms. f k \<le> r \<Longrightarrow> r \<le> f m \<Longrightarrow> \<forall>k\<in>set (ms @ [m]). f k \<le> f m"
    and "\<forall>k\<in>set ms. f k \<le> r \<Longrightarrow> f m \<le> r \<Longrightarrow> \<forall>k\<in>set (ms @ [m]). f k \<le> r"
  by (auto intro: order_trans)

lemma best_step_skip: "usable_entry e = None \<or> (\<exists>m. usable_entry e = Some m \<and> \<not> declarationMatches m wanted) \<Longrightarrow>
    best_step wanted e st = st"
  by (auto simp: best_step_def)

lemma best_step_take:
  assumes "usable_entry e = Some m" and "declarationMatches m wanted" and "best_invariant ms st"
  shows "best_invariant (ms @ [m]) (best_step wanted e st)"
proof (cases "ms = []")
  case True
  then show ?thesis
    using assms by (auto simp: best_invariant_def best_step_def most_specific_def media_rank_def Let_def)
next
  case False
  then obtain s n where st: "st = (int s, int n, most_specific ms)"
    and top: "\<exists>m\<in>set ms. media_rank m = (s, n)" "\<forall>k\<in>set ms. media_rank k \<le> (s, n)"
    using assms(3) by (auto simp: best_invariant_def)
  obtain a b where r: "media_rank m = (a, b)" by (cases "media_rank m")
  then have ab: "a = sm_specificity m" "b = length (media_params m)" by (simp_all add: media_rank_def)
  consider "(s, n) < (a, b)" | "(a, b) = (s, n)" | "(a, b) < (s, n)" by (metis linorder_less_linear)
  then show ?thesis
  proof cases
    case 1
    have all: "\<forall>k\<in>set (ms @ [m]). media_rank k \<le> (a, b)"
      using rank_bound(1) [OF top(2), of m, unfolded r, OF less_imp_le [OF 1]] .
    have "filter (\<lambda>k. media_rank k = (a, b)) ms = []" using 1 top(2) by (fastforce simp: filter_empty_conv)
    then have "most_specific (ms @ [m]) = [m]" using r all by (subst most_specific_max [of _ "(a, b)"]) auto
    then show ?thesis
      using 1 all r assms(1,2) unfolding best_invariant_def st best_step_def ab by (auto simp: Let_def)
  next
    case 2
    have all: "\<forall>k\<in>set (ms @ [m]). media_rank k \<le> (s, n)"
      using rank_bound(2) [OF top(2), of m] 2 unfolding r by simp
    have "most_specific (ms @ [m]) = most_specific ms @ [m]"
      using r 2 all top by (subst (1 2) most_specific_max [of _ "(s, n)"]) auto
    then show ?thesis
      using 2 all top r assms(1,2) unfolding best_invariant_def st best_step_def ab by (auto simp: Let_def)
  next
    case 3
    have all: "\<forall>k\<in>set (ms @ [m]). media_rank k \<le> (s, n)"
      using rank_bound(2) [OF top(2), of m, unfolded r, OF less_imp_le [OF 3]] .
    have "most_specific (ms @ [m]) = most_specific ms"
      using r 3 all top by (subst (1 2) most_specific_max [of _ "(s, n)"]) auto
    moreover have "best_step wanted e st = st"
      using 3 assms(1,2) unfolding st best_step_def ab by (auto simp: Let_def)
    ultimately show ?thesis using all top False unfolding best_invariant_def st by auto
  qed
qed

lemma best_loop: "best_invariant (matching es wanted) (fold (best_step wanted) es (-1, -1, []))"
proof (induction es rule: rev_induct)
  case Nil
  show ?case by (simp add: best_invariant_def matching_def map_filter_def)
next
  case (snoc e es)
  show ?case
  proof (cases "\<exists>m. usable_entry e = Some m \<and> declarationMatches m wanted")
    case True
    then obtain m where m: "usable_entry e = Some m" "declarationMatches m wanted" by blast
    then have "matching (es @ [e]) wanted = matching es wanted @ [m]"
      by (simp add: matching_def map_filter_def)
    then show ?thesis using best_step_take [OF m snoc.IH] by simp
  next
    case False
    then have "matching (es @ [e]) wanted = matching es wanted"
      by (cases "usable_entry e") (auto simp: matching_def map_filter_def)
    then show ?thesis using best_step_skip [of e wanted] False snoc.IH by (cases "usable_entry e") auto
  qed
qed

text \<open>
  C33. The one-pass selection of declarations is the reference: of the declarations that match a media
  type, exactly those that no other exceeds in specificity, and among equally specific ones in the
  number of parameters, in the order of the document.
\<close>
theorem best_matches_are_most_specific:
  "bestMatches es wanted = most_specific (matching es wanted)"
  using best_loop [of es wanted] by (auto simp: best_invariant_def bestMatches_def most_specific_def split: if_splits)

section \<open>A selected request medium is declared and unambiguous\<close>

lemma matching_entry: "m \<in> set (matching es wanted) \<longleftrightarrow>
    (\<exists>e\<in>set es. usable_entry e = Some m) \<and> declarationMatches m wanted"
  by (force simp: matching_def map_filter_def)

lemma bestMatches_sub: "m \<in> set (bestMatches es wanted) \<Longrightarrow> m \<in> set (matching es wanted)"
  using best_loop [of es wanted] by (auto simp: best_invariant_def bestMatches_def most_specific_def split: if_splits)

lemma lane_candidate_iff:
  "(m, l) \<in> set (lane_candidate model e) \<longleftrightarrow>
     usable_entry e = Some m \<and>
     (if sm_specificity m < 2 then l = None \<and> swagger20RangeHasUsableLane m model
      else \<exists>lane. l = Some lane \<and> swagger20RequestLane m model = Inr lane)"
  by (auto simp: lane_candidate_def split: option.splits sum.splits)

lemma unconfigured_selection:
  assumes "selectSwagger20RequestMedia es model None = Inr s"
  shows "concat (map (lane_candidate model) es) = [(sl_media s, Some (sl_lane s))] \<and> sl_declaration s = sl_media s"
  using assms
  by (simp add: selectSwagger20RequestMedia_def split: if_splits list.splits option.splits prod.splits) auto

lemma configured_selection:
  assumes "configured_media es model c = Inr s"
  shows "parseConcrete c = Inr (sl_media s) \<and> bestMatches es (sl_media s) = [sl_declaration s] \<and>
    swagger20RequestLane (sl_media s) model = Inr (sl_lane s)"
proof -
  obtain w where w: "parseConcrete c = Inr w"
    and sel: "(case bestMatches es w of
       [] \<Rightarrow> refuse (''configuration.requestMedia '' @ json_quote (media_text w) @
                     '' matches no non-colliding effective consumes declaration'')
     | [m] \<Rightarrow> res_map (\<lambda>lane. \<lparr> sl_media = w, sl_declaration = m, sl_lane = lane \<rparr>)
                (swagger20RequestLane w model)
     | _ \<Rightarrow> refuse (''configuration.requestMedia '' @ json_quote (media_text w) @
                    '' ambiguously matches effective consumes'')) = Inr s"
    using assms by (auto simp: configured_media_def js_result)
  obtain m ms where ms: "bestMatches es w = m # ms" using sel by (cases "bestMatches es w") auto
  with sel have "ms = []" by (cases ms) auto
  with sel ms w show ?thesis by (auto simp: js_result)
qed

text \<open>
  The request medium that is selected stands in the document: its declaration is one of the
  \<open>consumes\<close> entries, parsed and with an identity of its own, the medium has the lane the payload is
  encoded in, and the choice is not arbitrary: a configured medium has no other declaration as
  specific, and without configuration no other entry is usable at all.
\<close>
theorem selected_medium_is_declared:
  assumes "selectSwagger20RequestMedia es model configured = Inr s"
  shows "(\<exists>e\<in>set es. usable_entry e = Some (sl_declaration s)) \<and>
    swagger20RequestLane (sl_media s) model = Inr (sl_lane s) \<and>
    (case configured of
       Some c \<Rightarrow> parseConcrete c = Inr (sl_media s) \<and> declarationMatches (sl_declaration s) (sl_media s) \<and>
         most_specific (matching es (sl_media s)) = [sl_declaration s]
     | None \<Rightarrow> sl_declaration s = sl_media s \<and>
         (\<forall>e\<in>set es. \<forall>m l. (m, l) \<in> set (lane_candidate model e) \<longrightarrow> m = sl_media s \<and> l = Some (sl_lane s)))"
proof (cases configured)
  case None
  note sel = unconfigured_selection [OF assms [unfolded None]]
  have all: "(\<Union>e\<in>set es. set (lane_candidate model e)) = {(sl_media s, Some (sl_lane s))}"
    using arg_cong [of _ _ set, OF conjunct1 [OF sel]] by simp
  then obtain e where e: "e \<in> set es" "(sl_media s, Some (sl_lane s)) \<in> set (lane_candidate model e)" by blast
  then have "usable_entry e = Some (sl_media s)" "swagger20RequestLane (sl_media s) model = Inr (sl_lane s)"
    by (auto simp: lane_candidate_iff split: if_splits)
  then show ?thesis using None e(1) sel all by auto
next
  case (Some c)
  have "configured_media es model c = Inr s"
    using assms by (simp add: Some selectSwagger20RequestMedia_def split: if_splits)
  note sel = configured_selection [OF this]
  then have "sl_declaration s \<in> set (matching es (sl_media s))" by (intro bestMatches_sub) simp
  moreover have "bestMatches es (sl_media s) = most_specific (matching es (sl_media s))"
    using best_loop [of es "sl_media s"]
    by (auto simp: best_invariant_def bestMatches_def most_specific_def split: if_splits)
  ultimately show ?thesis using sel Some by (auto simp: matching_entry)
qed

text \<open>Of two declarations a range and a concrete one match, the concrete one is selected.\<close>

definition example_payload :: sw_payload where
  "example_payload =
     \<lparr> py_kind = Some Body_Payload, py_body = None, py_form = [],
       py_declaration = Some \<lparr> sd_typed = True, sd_types = [''object''], sd_formats = [] \<rparr> \<rparr>"

definition plain_media :: "string \<Rightarrow> nat \<Rightarrow> sw_media" where
  "plain_media base specificity =
     \<lparr> sm_media = \<lparr> pm_base = base, pm_params = [], pm_rendered = [], pm_canonical = base, pm_identity = base \<rparr>,
       sm_specificity = specificity \<rparr>"

definition example_consumes :: sw_media_set where
  "example_consumes =
     map (\<lambda>(raw, k). \<lparr> se_raw = raw, se_parsed = Inr (plain_media raw k), se_colliding = False \<rparr>)
       [(''application/*'', 1), (''application/json'', 2)]"

lemma example_selection:
  "selectSwagger20RequestMedia example_consumes example_payload (Some ''application/json'') =
     Inr \<lparr> sl_media = plain_media ''application/json'' 2, sl_declaration = plain_media ''application/json'' 2,
           sl_lane = Lane_JSON \<rparr>"
  by code_simp

lemma selected_medium_is_declared_witness:
  "most_specific (matching example_consumes (plain_media ''application/json'' 2)) =
     [plain_media ''application/json'' 2]"
  using selected_medium_is_declared [OF example_selection] by simp

section \<open>Urlencoded bodies are read back\<close>

text \<open>The urlencoded parser of the URL standard.\<close>

fun form_decode :: "string \<Rightarrow> string" where
  "form_decode [] = []"
| "form_decode (c # s) =
     (if c = CHR ''+'' then CHR '' '' # form_decode s
      else
        (case take_escape (c # s) of
           Some (d, t) \<Rightarrow> if length t < Suc (length s) then d # form_decode t else []
         | None \<Rightarrow> c # form_decode s))"

declare form_decode.simps(2) [simp del]

definition form_parse :: "string \<Rightarrow> (string \<times> string) list" where
  "form_parse s =
     map (\<lambda>u. case cut (CHR ''='') u of
            None \<Rightarrow> (form_decode u, [])
          | Some (a, b) \<Rightarrow> (form_decode a, form_decode b))
       (filter (\<lambda>u. u \<noteq> []) (split_str ''&'' s))"

lemma take_escape_plain: "c \<noteq> CHR ''%'' \<Longrightarrow> take_escape (c # s) = None"
  by (cases "c # s" rule: take_escape.cases) auto

lemma form_decode_pct: "form_decode (pct c @ s) = c # form_decode s"
proof -
  obtain t where t: "pct c @ s = CHR ''%'' # t" by (metis hd_pct list.collapse append_is_Nil_conv pct_def list.distinct(1))
  have "take_escape (CHR ''%'' # t) = Some (c, s)" using take_escape_pct [of c s] unfolding t .
  moreover from take_escape_length [OF this] have "length s < Suc (length t)" by simp
  ultimately show ?thesis unfolding t by (simp add: form_decode.simps(2) del: take_escape.simps)
qed

lemma form_decode_encode: "form_decode (formEncode v) = v"
proof (induction v)
  case (Cons c v)
  have plain: "form_plain c \<Longrightarrow> c \<noteq> CHR ''%'' \<and> c \<noteq> CHR ''+''" by (auto simp: form_plain_def char_class_defs)
  show ?case
  proof (cases "c = CHR '' ''")
    case True
    then show ?thesis using Cons.IH by (simp add: formEncode_def form_decode.simps(2))
  next
    case other: False
    show ?thesis
    proof (cases "form_plain c")
      case True
      with other plain Cons.IH show ?thesis
        by (simp add: formEncode_def form_decode.simps(2) take_escape_plain del: take_escape.simps)
    next
      case False
      with other Cons.IH show ?thesis by (simp add: formEncode_def form_decode_pct)
    qed
  qed
qed (simp add: formEncode_def)

lemma formEncode_chars: "c \<in> set (formEncode v) \<Longrightarrow> c \<noteq> CHR ''&'' \<and> c \<noteq> CHR ''=''"
  by (auto simp: formEncode_def form_plain_def char_class_defs dest!: pct_chars split: if_splits)

lemma formEncode_Nil [simp]: "formEncode v = [] \<longleftrightarrow> v = []"
  by (cases v) (auto simp: formEncode_def pct_def)

text \<open>
  The urlencoded body carries every form contribution unchanged: a server that parses it by the
  URL standard reads the names and values back, in order, with the empty value for a name alone.
\<close>
theorem urlencoded_body_roundtrip:
  assumes "\<forall>c\<in>set cs. wc_name c \<noteq> []"
  shows "form_parse (urlEncoded cs) = map (\<lambda>c. (wc_name c, if wc_present c then wc_value c else [])) cs"
proof (cases "cs = []")
  case True
  then show ?thesis by (simp add: form_parse_def urlEncoded_def split_char_Nil)
next
  case False
  define pair :: "sw_contribution \<Rightarrow> string" where "pair c = formEncode (wc_name c) @ (if wc_present c then ''='' @ formEncode (wc_value c) else [])" for c
  have "split_str ''&'' (urlEncoded cs) = map pair cs"
    unfolding urlEncoded_def pair_def using False formEncode_chars by (intro split_join_char) (auto split: if_splits)
  moreover have "filter (\<lambda>u. u \<noteq> []) (map pair cs) = map pair cs" using assms by (simp add: pair_def)
  moreover have "(case cut (CHR ''='') (pair c) of
       None \<Rightarrow> (form_decode (pair c), [])
     | Some (a, b) \<Rightarrow> (form_decode a, form_decode b)) = (wc_name c, if wc_present c then wc_value c else [])" for c
  proof (cases "wc_present c")
    case True
    then have "cut (CHR ''='') (pair c) = Some (formEncode (wc_name c), formEncode (wc_value c))"
      using formEncode_chars by (auto simp: cut_Some pair_def)
    then show ?thesis using True by (simp add: form_decode_encode)
  next
    case False
    then have "cut (CHR ''='') (pair c) = None" using formEncode_chars by (auto simp: cut_None pair_def)
    then show ?thesis using False by (simp add: form_decode_encode pair_def)
  qed
  ultimately show ?thesis by (simp add: form_parse_def)
qed

lemma urlencoded_body_roundtrip_witness:
  "form_parse (urlEncoded
      [\<lparr> wc_name = ''a b'', wc_value = ''x&y=z'', wc_present = True, wc_delimiter = None, wc_octets = None \<rparr>,
       \<lparr> wc_name = ''flag'', wc_value = [], wc_present = False, wc_delimiter = None, wc_octets = None \<rparr>]) =
     [(''a b'', ''x&y=z''), (''flag'', [])]"
  by (subst urlencoded_body_roundtrip) simp_all

end
