(* ===== verification/Swagger20_Bodies.thy ===== *)
theory Swagger20_Bodies
  imports Swagger20_Media
begin

text \<open>
  The multipart bodies of \<open>swagger20-media.ts\<close> seen from the receiver: a reader that splits at the
  delimiter gets every part back, when the boundary occurs in no content; and where the check for
  that falls short.
\<close>

section \<open>Text without carriage returns\<close>

lemma check_quoted_no_cr: "check_quoted s = Inr () \<Longrightarrow> CHR 0x0D \<notin> set s"
  by (induction s rule: check_quoted.induct) (auto simp: qdtext_ok_def quoted_pair_ok_def byte_def split: if_splits)

lemma unescape_pairs_sub: "set (unescape_pairs ok s) \<subseteq> set s"
  by (induction ok s rule: unescape_pairs.induct) auto

lemma token_no_cr: "is_http_token s \<Longrightarrow> CHR 0x0D \<notin> set s"
  by (auto simp: is_http_token_def list_all_iff is_tchar_def char_class_defs)

lemma unquoteParameter_no_cr:
  assumes "unquoteParameter v True = Inr w"
  shows "CHR 0x0D \<notin> set w"
proof (cases "starts_with [CHR 0x22] v")
  case True
  then obtain inner where "check_quoted inner = Inr ()" "w = unescape_pairs not_line_terminator inner"
    using assms by (auto simp: unquoteParameter_def Let_def js_result split: if_splits)
  then show ?thesis using check_quoted_no_cr unescape_pairs_sub by fastforce
next
  case False
  then show ?thesis using assms token_no_cr by (auto simp: unquoteParameter_def split: if_splits)
qed

definition parameters_no_cr :: "Media_Type.media_params \<times> Media_Type.media_params \<Rightarrow> bool" where
  "parameters_no_cr st \<longleftrightarrow>
     (\<forall>(n, v)\<in>set (fst st). CHR 0x0D \<notin> set n) \<and> (\<forall>(n, v)\<in>set (snd st). CHR 0x0D \<notin> set v)"

lemma parse_parameter_no_cr:
  assumes "parse_parameter nested True part st = Inr st'" and "parameters_no_cr st"
  shows "parameters_no_cr st'"
proof (cases "js_trim part = []")
  case False
  with assms(1) obtain name v raw where "is_http_token name" "unquoteParameter raw True = Inr v"
    "st' = ((name, nested name v) # fst st, (name, v) # snd st)"
    unfolding parse_parameter_def by (auto simp: js_result Let_def split: option.splits nat.splits if_splits)
  then show ?thesis using assms(2) token_no_cr unquoteParameter_no_cr by (auto simp: parameters_no_cr_def)
qed (use assms in \<open>simp add: parse_parameter_def\<close>)

lemma formatParameter_no_cr: "CHR 0x0D \<notin> set v \<Longrightarrow> CHR 0x0D \<notin> set (formatParameter v)"
  by (auto simp: formatParameter_def)

lemma param_value_no_cr: "parameters_no_cr st \<Longrightarrow> CHR 0x0D \<notin> set (param_value (snd st) k)"
  by (cases "map_of (snd st) k") (auto simp: parameters_no_cr_def param_value_def dest: map_of_SomeD)

lemma finish_media_no_cr:
  assumes "parameters_no_cr st" and "CHR 0x0D \<notin> set base"
  shows "CHR 0x0D \<notin> set (pm_canonical (finish_media base st))"
proof -
  have "CHR 0x0D \<notin> set k" if "k \<in> fst ` set (fst st)" for k
    using that assms(1) by (auto simp: parameters_no_cr_def)
  then show ?thesis
    using assms param_value_no_cr formatParameter_no_cr by (auto simp: finish_media_def Let_def)
qed

lemma concrete_media_no_cr:
  assumes "parseConcrete raw = Inr m"
  shows "CHR 0x0D \<notin> set (media_text m)"
proof -
  obtain p where p: "parseMediaType raw True = Inr p" and m: "media_text m = pm_canonical p"
    using assms by (auto simp: parseConcrete_def js_result)
  obtain parts st base where base: "valid_media_base True base"
    and loop: "each_res (parse_parameter (normalize_with (\<lambda>v. parse_media (length raw) v True)) True) (tl parts) ([], []) = Inr st"
    and fin: "p = finish_media base st"
    using p unfolding parseMediaType_def
    by (auto simp: parse_media.simps(2) js_result Let_def split: if_splits)
  have "parameters_no_cr st"
  proof (rule each_res_invariant [OF loop])
    show "parameters_no_cr ([], [])" by (simp add: parameters_no_cr_def)
  qed (rule parse_parameter_no_cr)
  moreover have "CHR 0x0D \<notin> set base"
  proof -
    obtain ty subtype where parts: "split_str ''/'' base = [ty, subtype]" "is_http_token ty" "is_http_token subtype"
      using base by (auto simp: valid_media_base_def split: list.splits)
    have "base = ty @ ''/'' @ subtype" using join_split_str [of "''/''" base] parts(1) by simp
    then show ?thesis using parts token_no_cr by auto
  qed
  ultimately show ?thesis unfolding m fin by (rule finish_media_no_cr)
qed

section \<open>Splitting at the delimiter\<close>

lemma occurs_in_iff: "occurs_in pat s \<longleftrightarrow> (\<exists>a b. s = a @ pat @ b)"
proof (induction s)
  case (Cons c s)
  have "(\<exists>a b. c # s = a @ pat @ b) \<longleftrightarrow> prefix pat (c # s) \<or> (\<exists>a b. s = a @ pat @ b)"
    by (auto simp: prefix_def Cons_eq_append_conv)
  then show ?case using Cons.IH by simp
qed simp

lemma occurs_in_mono: "occurs_in pat s \<Longrightarrow> occurs_in pat (a @ s @ b)"
  by (auto simp: occurs_in_iff) (metis append.assoc)

text \<open>A delimiter that starts with a carriage return and has no other.\<close>

lemma occurs_in_cr_free: "CHR 0x0D \<notin> set u \<Longrightarrow> occurs_in (CHR 0x0D # d) (u @ v) = occurs_in (CHR 0x0D # d) v"
  by (induction u) auto

lemma split_at_delimiter:
  assumes "CHR 0x0D \<notin> set d"
  shows "\<not> occurs_in (CHR 0x0D # d) p \<Longrightarrow>
    split_str (CHR 0x0D # d) (p @ (CHR 0x0D # d) @ r) = p # split_str (CHR 0x0D # d) r"
proof (induction p)
  case Nil
  show ?case by (subst split_str.simps) (simp add: prefix_def)
next
  case (Cons c p)
  have "\<not> prefix (CHR 0x0D # d) (c # p @ (CHR 0x0D # d) @ r)"
  proof
    assume "prefix (CHR 0x0D # d) (c # p @ (CHR 0x0D # d) @ r)"
    then have "prefix (CHR 0x0D # d) ((c # p) @ (CHR 0x0D # d) @ r)" by (simp only: append_Cons)
    then consider "prefix (CHR 0x0D # d) (c # p)" | u where "CHR 0x0D # d = (c # p) @ u" "prefix u ((CHR 0x0D # d) @ r)"
      by (fastforce simp: prefix_append)
    then show False
    proof cases
      case 1
      then show False using Cons.prems by simp
    next
      case (2 u)
      show False
      proof (cases u)
        case Nil
        then show False using 2 Cons.prems by (simp add: prefix_def)
      next
        case (Cons e w)
        then have "e = CHR 0x0D" using 2(2) by simp
        then show False using 2(1) Cons assms by (metis append_Cons in_set_conv_decomp list.inject)
      qed
    qed
  qed
  moreover have "split_str (CHR 0x0D # d) (p @ (CHR 0x0D # d) @ r) = p # split_str (CHR 0x0D # d) r"
    using Cons by simp
  ultimately show ?case by (subst split_str.simps) simp
qed

lemma split_no_delimiter: "pat \<noteq> [] \<Longrightarrow> \<not> occurs_in pat s \<Longrightarrow> split_str pat s = [s]"
  by (induction s) (subst split_str.simps; auto)+

lemma split_delimited:
  assumes "CHR 0x0D \<notin> set d" and "\<forall>p\<in>set ps. \<not> occurs_in (CHR 0x0D # d) p" and "\<not> occurs_in (CHR 0x0D # d) q"
  shows "split_str (CHR 0x0D # d) (concat (map (\<lambda>p. p @ CHR 0x0D # d) ps) @ q) = ps @ [q]"
  using assms(2)
proof (induction ps)
  case Nil
  then show ?case using assms(3) by (simp add: split_no_delimiter)
next
  case (Cons p ps)
  then show ?case using split_at_delimiter [OF assms(1), of p] by simp
qed

section \<open>The receiver of a multipart body\<close>

fun read_quoted :: "string \<Rightarrow> string \<times> string" where
  "read_quoted [] = ([], [])"
| "read_quoted (c # s) =
     (if c = CHR 0x22 then ([], s)
      else if c = CHR 0x5C \<and> s \<noteq> [] then (let (n, r) = read_quoted (tl s) in (hd s # n, r))
      else (let (n, r) = read_quoted s in (c # n, r)))"

fun after_blank_line :: "string \<Rightarrow> string" where
  "after_blank_line [] = []"
| "after_blank_line (c # s) = (if prefix (crlf @ crlf) (c # s) then drop 3 s else after_blank_line s)"

definition disposition :: string where
  "disposition = crlf @ ''Content-Disposition: form-data; name='' @ [CHR 0x22]"

definition read_part :: "string \<Rightarrow> string \<times> string" where
  "read_part p = (let (name, r) = read_quoted (drop (length disposition) p) in (name, after_blank_line r))"

definition multipart_parts :: "string \<Rightarrow> string \<Rightarrow> string list" where
  "multipart_parts boundary body = butlast (tl (split_str (crlf @ ''--'' @ boundary) (crlf @ body)))"

definition name_char :: "char \<Rightarrow> string" where
  "name_char c = (if c = CHR 0x22 \<or> c = CHR 0x5C then [CHR 0x5C, c] else [c])"

lemma quoted_name_chars: "quoted_name name = concat (map name_char name)"
  by (induction name) (auto simp: quoted_name_def replace_all_def replace_from_char name_char_def)

lemma read_quoted_name: "read_quoted (quoted_name name @ CHR 0x22 # r) = (name, r)"
  by (induction name) (auto simp: quoted_name_chars name_char_def)

lemma quoted_name_no_cr: "safeMultipartName name \<Longrightarrow> CHR 0x0D \<notin> set (quoted_name name)"
  by (auto simp: quoted_name_chars name_char_def safeMultipartName_def list_all_iff byte_def)

lemma after_blank_line_skip: "CHR 0x0D \<notin> set u \<Longrightarrow> after_blank_line (u @ s) = after_blank_line s"
  by (induction u) (auto simp: crlf_def)

text \<open>One part as the receiver sees it, from the end of its boundary to the next delimiter.\<close>

definition part_piece :: "string \<Rightarrow> sw_contribution \<Rightarrow> string" where
  "part_piece type c =
     disposition @ quoted_name (wc_name c) @ CHR 0x22 # crlf @ ''Content-Type: '' @ type @ crlf @ crlf @ part_octets c"

lemma read_part_piece:
  assumes "CHR 0x0D \<notin> set type"
  shows "read_part (part_piece type c) = (wc_name c, part_octets c)"
proof -
  have "after_blank_line (crlf @ ''Content-Type: '' @ type @ crlf @ crlf @ part_octets c) = part_octets c"
    using assms by (simp add: crlf_def after_blank_line_skip)
  then show ?thesis by (simp add: read_part_def part_piece_def read_quoted_name)
qed

lemma piece_no_delimiter:
  assumes "safeMultipartName (wc_name c)" and "CHR 0x0D \<notin> set type" and "\<not> occurs_in b (part_octets c)"
  shows "\<not> occurs_in (crlf @ ''--'' @ b) (part_piece type c)"
proof -
  have "\<not> occurs_in (crlf @ ''--'' @ b) (part_octets c)" and "\<not> prefix (''--'' @ b) (part_octets c)"
    using assms(3) by (auto simp: occurs_in_iff prefix_def) (metis append.assoc append_Cons append_Nil)+
  then show ?thesis
    using assms(2) quoted_name_no_cr [OF assms(1)]
    by (simp add: part_piece_def disposition_def crlf_def occurs_in_cr_free)
qed

lemma body_pieces:
  "crlf @ concat (map (\<lambda>(c, t). part_text b t c) zs) @ ''--'' @ b @ z =
     crlf @ ''--'' @ b @ concat (map (\<lambda>(c, t). part_piece t c @ crlf @ ''--'' @ b) zs) @ z"
proof (induction zs)
  case (Cons y zs)
  then show ?case by (cases y) (simp add: part_text_def part_piece_def disposition_def)
qed simp

lemma pick_boundary_absent:
  "pick_boundary random contents fixed k b0 = Some b \<Longrightarrow> x \<in> set contents \<Longrightarrow> \<not> occurs_in b x"
  by (induction random contents fixed k b0 rule: pick_boundary.induct)
    (auto simp: list_ex_iff split: if_splits nat.splits)

lemma part_type_no_cr: "part_type propertyMedia c = Inr t \<Longrightarrow> CHR 0x0D \<notin> set t"
  by (auto simp: part_type_def Let_def js_result dest: concrete_media_no_cr split: if_splits option.splits)

lemma boundary_not_in_text:
  assumes "multipart_boundary random media cs = Some b" and "c \<in> set cs" and "wc_octets c = None"
  shows "\<not> occurs_in b (part_octets c)"
proof -
  have "\<not> occurs_in b (multipartContent c)"
    using pick_boundary_absent [OF assms(1) [unfolded multipart_boundary_def Let_def]] assms(2) by simp
  moreover have "occurs_in b (wc_value c) \<Longrightarrow> occurs_in b (multipartContent c)"
    using occurs_in_mono [of b "wc_value c" "wc_name c @ [CHR 0x00]"] by (simp add: multipartContent_def)
  ultimately show ?thesis using assms(3) by (auto simp: part_octets_def)
qed

text \<open>
  C17. The multipart body frames its parts: a receiver that splits it at the boundary announced in the
  content type reads exactly the names and contents of the contributions back, in order, when the
  boundary has no line break, the names are the safe ones the lane admits, and no file contains the
  boundary.  Texts are compared with the boundary by the code; files are not (their Base64 text is), so
  the last condition is the caller's, and without it the theorem fails (\<open>file_boundary_unnoticed\<close>).
\<close>
theorem multipart_body_roundtrip:
  assumes "multipart random propertyMedia cs media = Inr (body, contentType)"
    and "multipart_boundary random media cs = Some b" and "CHR 0x0D \<notin> set b"
    and "\<forall>c\<in>set cs. safeMultipartName (wc_name c)"
    and "\<forall>c\<in>set cs. wc_octets c \<noteq> None \<longrightarrow> \<not> occurs_in b (part_octets c)"
  shows "contentType = media_base media @ ''; boundary='' @ b \<and>
    map read_part (multipart_parts b body) = map (\<lambda>c. (wc_name c, part_octets c)) cs"
proof -
  obtain parts where parts: "map_res (\<lambda>c. res_map (\<lambda>type. part_text b type c) (part_type propertyMedia c)) cs = Inr parts"
    and body: "body = concat parts @ ''--'' @ b @ ''--'' @ crlf"
    and ct: "contentType = media_base media @ ''; boundary='' @ b"
    using assms(1,2) by (auto simp: multipart_def js_result)
  define type where "type c = (case part_type propertyMedia c of Inr t \<Rightarrow> t | Inl _ \<Rightarrow> [])" for c
  have ps: "parts = map (\<lambda>c. part_text b (type c) c) cs \<and> (\<forall>c\<in>set cs. part_type propertyMedia c = Inr (type c))"
    using parts by (induction cs arbitrary: parts) (auto simp: js_result type_def)
  let ?D = "crlf @ ''--'' @ b" and ?pieces = "map (\<lambda>c. part_piece (type c) c) cs"
  have "crlf @ body = ?D @ concat (map (\<lambda>p. p @ ?D) ?pieces) @ ''--'' @ crlf"
    using body_pieces [of b "map (\<lambda>c. (c, type c)) cs" "''--'' @ crlf"] ps
    by (simp add: body comp_def)
  moreover have D: "?D = CHR 0x0D # (CHR 0x0A # ''--'' @ b)" by (simp add: crlf_def)
  have cr: "CHR 0x0D \<notin> set (CHR 0x0A # ''--'' @ b)" using assms(3) by simp
  have "\<not> occurs_in ?D (part_piece (type c) c)" if c: "c \<in> set cs" for c
  proof (rule piece_no_delimiter)
    show "\<not> occurs_in b (part_octets c)"
      using c assms(5) boundary_not_in_text [OF assms(2)] by (cases "wc_octets c = None") auto
  qed (use c ps assms(4) part_type_no_cr in auto)
  then have "\<forall>p\<in>set ?pieces. \<not> occurs_in ?D p" by simp
  moreover have "\<not> occurs_in ?D (''--'' @ crlf)" by (simp add: crlf_def)
  ultimately have "split_str ?D (crlf @ body) = [] # ?pieces @ [''--'' @ crlf]"
    using split_at_delimiter [OF cr, of "[]"] split_delimited [OF cr, of ?pieces "''--'' @ crlf"]
    unfolding D by simp
  then have "multipart_parts b body = ?pieces" by (simp add: multipart_parts_def butlast_append)
  then show ?thesis using ct ps part_type_no_cr by (auto simp: read_part_piece)
qed

definition text_part :: "string \<Rightarrow> string \<Rightarrow> sw_contribution" where
  "text_part name v =
     \<lparr> wc_name = name, wc_value = v, wc_present = True, wc_delimiter = None, wc_octets = None \<rparr>"

definition example_form :: "sw_contribution list" where
  "example_form = [text_part ''a'' ''x'', text_part (''b'' @ [CHR 0x22]) ''--y'']"

definition form_media :: sw_media where
  "form_media = plain_media ''multipart/form-data'' 2"

lemma example_form_sent:
  "multipart_boundary (\<lambda>_. ''0'') form_media example_form = Some ''swagger20-boundary-0''"
  "is_ok (multipart (\<lambda>_. ''0'') [] example_form form_media)"
  by code_simp+

lemma multipart_body_roundtrip_witness:
  "\<exists>body contentType. multipart (\<lambda>_. ''0'') [] example_form form_media = Inr (body, contentType) \<and>
     map read_part (multipart_parts ''swagger20-boundary-0'' body) = [(''a'', ''x''), (''b'' @ [CHR 0x22], ''--y'')]"
proof -
  obtain body contentType where sent: "multipart (\<lambda>_. ''0'') [] example_form form_media = Inr (body, contentType)"
    using example_form_sent(2) by (auto simp: is_ok_def split: sum.splits)
  have "\<forall>c\<in>set example_form. safeMultipartName (wc_name c)" "\<forall>c\<in>set example_form. wc_octets c = None"
    by (simp_all add: example_form_def text_part_def safeMultipartName_def byte_def)
  then show ?thesis
    using multipart_body_roundtrip [OF sent example_form_sent(1)] sent
    by (simp add: example_form_def text_part_def part_octets_def)
qed

section \<open>Where the framing falls short\<close>

text \<open>
  The content checked for the boundary is the Base64 text of a file, not its octets, so a file that
  holds the delimiter is sent as it is, and one contribution arrives as two parts.
\<close>

definition boundary_media :: "string \<Rightarrow> sw_media" where
  "boundary_media b =
     \<lparr> sm_media = \<lparr> pm_base = ''multipart/form-data'', pm_params = [(''boundary'', b)], pm_rendered = [(''boundary'', b)],
         pm_canonical = ''multipart/form-data'', pm_identity = ''multipart/form-data'' \<rparr>, sm_specificity = 2 \<rparr>"

definition file_part :: "string \<Rightarrow> string \<Rightarrow> sw_contribution" where
  "file_part name octets =
     \<lparr> wc_name = name, wc_value = [], wc_present = True, wc_delimiter = None, wc_octets = Some octets \<rparr>"

lemma file_boundary_unnoticed:
  "(case multipart (\<lambda>_. []) [(''f'', JStr ''a/b'')] [file_part ''f'' (''x'' @ crlf @ ''--bound'' @ crlf)]
          (boundary_media ''bound'') of
      Inr (body, _) \<Rightarrow> length (multipart_parts ''bound'' body) = 2
    | Inl _ \<Rightarrow> False)"
  by code_simp

text \<open>A boundary that needs quotes is announced without them, in a content type that does not parse.\<close>

lemma quoted_boundary_announced_bare:
  "parseConcrete (''multipart/form-data; boundary='' @ [CHR 0x22] @ ''a:b'' @ [CHR 0x22]) = Inr m \<Longrightarrow>
     map_of (media_params m) ''boundary'' = Some ''a:b''"
  "(case multipart (\<lambda>_. []) [] [text_part ''a'' ''x''] (boundary_media ''a:b'') of
      Inr (_, contentType) \<Rightarrow> \<not> is_ok (parseConcrete contentType)
    | Inl _ \<Rightarrow> False)"
proof -
  have "(case parseConcrete (''multipart/form-data; boundary='' @ [CHR 0x22] @ ''a:b'' @ [CHR 0x22]) of
      Inr m \<Rightarrow> map_of (media_params m) ''boundary'' = Some ''a:b'' | Inl _ \<Rightarrow> False)"
    by code_simp
  then show "parseConcrete (''multipart/form-data; boundary='' @ [CHR 0x22] @ ''a:b'' @ [CHR 0x22]) = Inr m \<Longrightarrow>
     map_of (media_params m) ''boundary'' = Some ''a:b''" by simp
qed code_simp

text \<open>A file parameter with the name of a member of \<open>Object.prototype\<close> is not asked for its media type.\<close>

lemma inherited_property_medium: "part_type [] (file_part ''constructor'' []) = Inl Type_Error"
  by code_simp

end
