(* ===== verification/Multipart_Frames.thy ===== *)
theory Multipart_Frames
  imports Openapi32_Multipart Swagger20_Bodies
begin

text \<open>
  What a multipart body of \<open>openapi32-media.ts\<close> carries: for every value that the input gives a part, in
  order, the fields and the content of the part, and what a receiver that splits at the boundary gets.
\<close>

section \<open>The values that become parts\<close>

text \<open>\<open>mi_name\<close> is the property a part belongs to, \<open>None\<close> in a positional body.\<close>

record multipart_input =
  mi_name :: "string option"
  mi_value :: jsval
  mi_decl :: decl
  mi_encoding :: "js_members option"

definition named_inputs :: "media32_env \<Rightarrow> string \<Rightarrow> js_members \<Rightarrow> js_members \<Rightarrow> string \<Rightarrow> multipart_input list" where
  "named_inputs env version media given name =
     (let root = media_schema_declaration (Some media) (starts_with ''3.0.'' version);
          d = decl_property (e32_regexp env) root name;
          encoding = named_record (own_record (Some media) ''encoding'') name;
          nested = activeNestedEncoding encoding in
      if member_of given name = JNull \<and> admitsNull d \<and> \<not> requiresProperty root name then []
      else map (\<lambda>v. \<lparr> mi_name = Some name, mi_value = v,
                      mi_decl = (if declaresOnly d [''array''] \<and> \<not> nested then decl_items d else d),
                      mi_encoding = encoding \<rparr>)
             (property_members d nested (member_of given name)))"

definition positional_inputs :: "string \<Rightarrow> js_members \<Rightarrow> jsval list \<Rightarrow> multipart_input list" where
  "positional_inputs version media items =
     (let given = member_of media ''itemSchema''; oas30 = starts_with ''3.0.'' version;
          d = (if given = JUndefined \<or> given = JNull then decl_items (media_schema_declaration (Some media) oas30)
               else resolveDeclaration given oas30) in
      map (\<lambda>(i, v). \<lparr> mi_name = None, mi_value = v, mi_decl = d, mi_encoding = encoding_at (Some media) i \<rparr>)
        (enumerate 0 items))"

definition multipart_inputs :: "media32_env \<Rightarrow> string \<Rightarrow> js_members \<Rightarrow> routed32_body \<Rightarrow> multipart_input list" where
  "multipart_inputs env version media routed =
     (if openAPI32PositionalMultipart (Some media)
      then (case as_array (rb_value routed) of None \<Rightarrow> [] | Some items \<Rightarrow> positional_inputs version media items)
      else concat (map (named_inputs env version media (rb_fields routed)) (js_sort (member_keys (rb_fields routed)))))"

section \<open>What a part carries\<close>

type_synonym part_spec = "(string \<times> string) list \<times> string"

text \<open>
  The disposition of a named part: read by the pattern the client itself reads a disposition with, it
  gives the name back, unless the document fixes another value for the field.
\<close>

definition names_its_property :: "string \<Rightarrow> multipart_input \<Rightarrow> (string \<times> string) list \<Rightarrow> bool" where
  "names_its_property version i given \<longleftrightarrow>
     (case mi_name i of
        None \<Rightarrow> True
      | Some name \<Rightarrow>
          (\<exists>v. map_of given ''Content-Disposition'' = Some v \<and>
             (declared_name v = Some name \<or>
              (\<exists>groups g. encodingHeaderGroups (mi_encoding i) version = Inr groups \<and>
                 map_of groups ''content-disposition'' = Some g \<and> hg_fixed g = Some v))))"

text \<open>
  Under an active nested encoding with a multipart type the content is a body of its own, built from the
  nested parts; otherwise it is the encoding of the value under the media type the part states.
\<close>

definition part_carries :: "media32_env \<Rightarrow> string \<Rightarrow> multipart_input \<Rightarrow> part_spec \<Rightarrow> bool" where
  "part_carries env version i p \<longleftrightarrow>
     (let (given, content) = p; d = mi_decl i; v = mi_value i; encoding = mi_encoding i;
          contentType = part_content_type env encoding d v; base = mediaBase contentType in
      fields_ok (mi_name i \<noteq> None) given \<and> names_its_property version i given \<and>
      (if activeNestedEncoding encoding \<and> starts_with ''multipart/'' base
       then \<exists>nested parts. map_of given ''Content-Type'' = Some (base @ ''; boundary='' @ nested) \<and>
              nested_parts env (part_with env None version []) nested encoding d v (base = ''multipart/form-data'') = Inr parts \<and>
              content = concat parts @ closing_line nested
       else map_of given ''Content-Type'' = Some contentType \<and> partBody env d v contentType = Inr content))"

definition framed :: "string \<Rightarrow> part_spec \<Rightarrow> string" where
  "framed boundary p = framed_part boundary (fst p) (snd p)"

section \<open>A generated disposition names its property\<close>

lemma escaped_name: "replace_all [CHR 0x22] [CHR 0x5C, CHR 0x22] (replace_all [CHR 0x5C] [CHR 0x5C, CHR 0x5C] name) =
    concat (map name_char name)"
  using quoted_name_chars by (simp add: quoted_name_def)

lemma quoted_capture_escaped:
  "quoted_capture (concat (map name_char name) @ [CHR 0x22]) = Some (concat (map name_char name))"
proof (induction name)
  case (Cons c name)
  obtain d s where ds: "concat (map name_char name) @ [CHR 0x22] = d # s"
    by (cases "concat (map name_char name) @ [CHR 0x22]") auto
  show ?case
  proof (cases "c = CHR 0x22 \<or> c = CHR 0x5C")
    case True
    then have "name_char c = [CHR 0x5C, c]" by (simp add: name_char_def)
    then show ?thesis using Cons by simp
  next
    case False
    then have "name_char c = [c]" by (simp add: name_char_def)
    then show ?thesis using Cons False ds by simp
  qed
qed simp

lemma unescape_escaped: "unescape_name (concat (map name_char name)) = name"
proof (induction name)
  case (Cons c name)
  have "unescape_pairs ok (c # s) = c # unescape_pairs ok s" if "c \<noteq> CHR 0x5C" for ok c s
    using that by (cases s) auto
  with Cons show ?case by (auto simp: unescape_name_def name_char_def)
qed (simp add: unescape_name_def)

lemma field_starts_semicolon:
  assumes "CHR '';'' \<notin> set a"
  shows "\<exists>fs. field_starts (a @ CHR '';'' # r) = (a @ CHR '';'' # r) # r # fs"
proof -
  have "[0..<length (a @ CHR '';'' # r)] = [0..<length a] @ length a # [Suc (length a)..<length (a @ CHR '';'' # r)]"
    using upt_add_eq_append [of 0 "length a" "Suc (length r)"] upt_conv_Cons [of "length a" "length a + Suc (length r)"]
    by simp
  moreover have "filter (\<lambda>i. (a @ CHR '';'' # r) ! i = CHR '';'') [0..<length a] = []"
    using assms by (auto simp: filter_empty_conv nth_append) (metis nth_mem)
  ultimately show ?thesis by (simp add: field_starts_def)
qed

lemma trim_start_visible:
  assumes "\<forall>u\<in>set js_spaces. \<not> prefix u s"
  shows "trim_start s = s"
proof -
  have "List.find (\<lambda>u. prefix u s) js_spaces = None" using assms by (auto simp: find_None_iff)
  then show ?thesis unfolding trim_start_def by (cases "length s") simp_all
qed

lemma ascii_visible: "c \<in> {CHR ''f'', CHR ''n'', CHR ''='', CHR 0x22} \<Longrightarrow> trim_start (c # s) = c # s"
  by (rule trim_start_visible) (auto simp: js_spaces_code)

lemma trim_start_blank: "trim_start (CHR '' '' # s) = trim_start s"
proof -
  have "List.find (\<lambda>u. prefix u (CHR '' '' # s)) js_spaces = Some [CHR '' '']" by (simp add: js_spaces_code)
  then show ?thesis by (simp add: trim_start_def)
qed

lemma generated_disposition_names:
  assumes "generatedFormDisposition name = Inr v"
  shows "declared_name v = Some name"
proof -
  define q where "q = concat (map name_char name)"
  let ?r = "CHR '' '' # ''name='' @ CHR 0x22 # q @ [CHR 0x22]"
  have v: "v = ''form-data'' @ CHR '';'' # ?r"
    using assms by (simp add: generatedFormDisposition_def escaped_name q_def split: if_splits)
  obtain fs where fs: "field_starts v = v # ?r # fs" using field_starts_semicolon [of "''form-data''" ?r] unfolding v by auto
  have "trim_start v = v" unfolding v by (simp add: ascii_visible)
  then have "named_field v = None"
    unfolding named_field_def by (simp add: v after_word_def ascii_lower_def to_lower_def is_upper_def byte_def)
  moreover have "named_field ?r = Some name"
    using quoted_capture_escaped [of name] unescape_escaped [of name]
    by (simp add: named_field_def trim_start_blank ascii_visible q_def [symmetric] after_word_def ascii_lower_def to_lower_def
        is_upper_def byte_def)
  ultimately show ?thesis by (simp add: declared_name_def fs List.map_filter_simps)
qed

section \<open>Every part carries its value\<close>

lemma part_with_carries:
  assumes "part_with env (Some (part_with env None version [])) version fresh boundary dispo v d encoding formData = Inr part"
    and dispo: "case name of None \<Rightarrow> True | Some n \<Rightarrow> \<exists>w. dispo = Some w \<and> generatedFormDisposition n = Inr w"
  shows "\<exists>p. part = framed boundary p \<and>
    part_carries env version \<lparr> mi_name = name, mi_value = v, mi_decl = d, mi_encoding = encoding \<rparr> p"
proof -
  define contentType where "contentType = part_content_type env encoding d v"
  define base where "base = mediaBase contentType"
  obtain groups body written where groups: "encodingHeaderGroups encoding version = Inr groups"
    and part: "part = framed_part boundary (part_fields groups dispo formData written) body"
    and body: "if activeNestedEncoding encoding \<and> starts_with ''multipart/'' base
       then \<exists>nested parts. written = base @ ''; boundary='' @ nested \<and>
              nested_parts env (part_with env None version []) nested encoding d v (base = ''multipart/form-data'') = Inr parts \<and>
              body = concat parts @ closing_line nested
       else written = contentType \<and> partBody env d v contentType = Inr body"
    using assms(1) unfolding contentType_def base_def
    by (auto simp: part_with_def res_bind_Inr_iff res_map_Inr_iff Let_def split: if_splits)
  define given where "given = part_fields groups dispo formData written"
  have strict: "strict_disposition (name \<noteq> None) dispo"
    using dispo generated_disposition_valid by (auto simp: strict_disposition_def split: option.splits)
  have ok: "fields_ok (name \<noteq> None) given"
    unfolding given_def by (rule part_fields_ok [OF encodingHeaderGroups_ok [OF groups] strict])
  have ct: "map_of given ''Content-Type'' = Some written"
    by (simp add: given_def part_fields_def Let_def split: option.split)
  have named: "names_its_property version \<lparr> mi_name = name, mi_value = v, mi_decl = d, mi_encoding = encoding \<rparr> given"
  proof (cases name)
    case (Some n)
    then obtain w where w: "dispo = Some w" "generatedFormDisposition n = Inr w" using dispo by auto
    have "map_of given ''Content-Disposition'' = part_disposition groups dispo"
      using w(1) by (auto simp: given_def part_fields_def Let_def part_disposition_def split: option.split)
    then show ?thesis
      using Some groups w(1) generated_disposition_names [OF w(2)]
      by (auto simp: names_its_property_def part_disposition_def split: option.splits)
  qed (simp add: names_its_property_def)
  show ?thesis
    using ok ct named body
    by (intro exI [of _ "(given, body)"])
      (simp add: framed_def part given_def [symmetric] part_carries_def Let_def contentType_def [symmetric]
        base_def [symmetric] split: if_splits; blast)
qed

text \<open>A loop that appends parts for the inputs of each element.\<close>

lemma each_res_appends:
  assumes "\<And>x s s'. f x s = Inr s' \<Longrightarrow> \<exists>ts. s' = s @ map g ts \<and> list_all2 R (h x) ts"
  shows "each_res f xs s = Inr s' \<Longrightarrow> \<exists>ts. s' = s @ map g ts \<and> list_all2 R (concat (map h xs)) ts"
proof (induction xs arbitrary: s)
  case (Cons x xs)
  then obtain s1 where s1: "f x s = Inr s1" "each_res f xs s1 = Inr s'" by (auto simp: res_bind_Inr_iff)
  from assms [OF s1(1)] Cons.IH [OF s1(2)] obtain ts us where
    "s1 = s @ map g ts" "list_all2 R (h x) ts" "s' = s1 @ map g us" "list_all2 R (concat (map h xs)) us" by blast
  then show ?case by (intro exI [of _ "ts @ us"]) (simp add: list_all2_appendI)
qed simp

lemma named_part_carries:
  assumes "named_part env version media boundary formData given name parts = Inr parts'"
  shows "\<exists>ps. parts' = parts @ map (framed boundary) ps \<and>
    list_all2 (part_carries env version) (named_inputs env version media given name) ps"
proof -
  define root where "root = media_schema_declaration (Some media) (starts_with ''3.0.'' version)"
  define d where "d = decl_property (e32_regexp env) root name"
  define encoding where "encoding = named_record (own_record (Some media) ''encoding'') name"
  define declared where "declared = (if declaresOnly d [''array''] \<and> \<not> activeNestedEncoding encoding then decl_items d else d)"
  show ?thesis
  proof (cases "member_of given name = JNull \<and> admitsNull d \<and> \<not> requiresProperty root name")
    case True
    then show ?thesis
      using assms by (simp add: named_part_def named_inputs_def Let_def root_def d_def)
  next
    case False
    let ?input = "\<lambda>v. \<lparr> mi_name = Some name, mi_value = v, mi_decl = declared, mi_encoding = encoding \<rparr>"
    let ?step = "\<lambda>member built.
                res_bind (generatedFormDisposition name) (\<lambda>dispo.
                  res_map (\<lambda>part. built @ [part])
                    (multipartPart env version (generatedBoundary env (Suc (length built))) boundary (Some dispo) member declared encoding formData))"
    have loop: "each_res ?step (property_members d (activeNestedEncoding encoding) (member_of given name)) parts = Inr parts'"
      using assms False
      unfolding named_part_def Let_def root_def [symmetric] d_def [symmetric] encoding_def [symmetric] declared_def [symmetric]
      by (auto simp: res_bind_Inr_iff split: if_splits)
    have "\<exists>ps. parts' = parts @ map (framed boundary) ps \<and>
        list_all2 (part_carries env version) (concat (map (\<lambda>v. [?input v])
          (property_members d (activeNestedEncoding encoding) (member_of given name)))) ps"
    proof (rule each_res_appends [OF _ loop])
      fix v s s' assume "?step v s = Inr s'"
      then obtain dispo part where dp: "generatedFormDisposition name = Inr dispo" "s' = s @ [part]"
        "multipartPart env version (generatedBoundary env (Suc (length s))) boundary (Some dispo) v declared encoding formData = Inr part"
        by (auto simp: res_bind_Inr_iff res_map_Inr_iff)
      from part_with_carries [OF dp(3) [unfolded multipartPart_def], of "Some name"] dp(1)
      obtain p where "part = framed boundary p" "part_carries env version (?input v) p" by auto
      then show "\<exists>ts. s' = s @ map (framed boundary) ts \<and> list_all2 (part_carries env version) [?input v] ts"
        using dp(2) by (intro exI [of _ "[p]"]) simp
    qed
    moreover have "named_inputs env version media given name =
        map ?input (property_members d (activeNestedEncoding encoding) (member_of given name))"
      unfolding named_inputs_def Let_def root_def [symmetric] d_def [symmetric] encoding_def [symmetric]
        declared_def [symmetric] using False by (simp only: if_False)
    ultimately show ?thesis by simp
  qed
qed

lemma positional_carries:
  assumes "imap_res (\<lambda>i v. res_bind (h i) (\<lambda>dispo. multipartPart env version (fresh i) boundary dispo v d (enc i) formData)) k vs
      = Inr parts"
  shows "\<exists>ps. parts = map (framed boundary) ps \<and> list_all2 (part_carries env version)
    (map (\<lambda>(i, v). \<lparr> mi_name = None, mi_value = v, mi_decl = d, mi_encoding = enc i \<rparr>) (enumerate k vs)) ps"
  using assms
proof (induction vs arbitrary: k parts)
  case (Cons v vs)
  then obtain dispo part parts' where p: "multipartPart env version (fresh k) boundary dispo v d (enc k) formData = Inr part"
    "parts = part # parts'"
    and rest: "imap_res (\<lambda>i v. res_bind (h i) (\<lambda>dispo. multipartPart env version (fresh i) boundary dispo v d (enc i) formData))
      (Suc k) vs = Inr parts'"
    by (auto simp: res_bind_Inr_iff res_map_Inr_iff)
  from part_with_carries [OF p(1) [unfolded multipartPart_def], of None]
  obtain q where "part = framed boundary q"
    "part_carries env version \<lparr> mi_name = None, mi_value = v, mi_decl = d, mi_encoding = enc k \<rparr> q" by auto
  moreover from Cons.IH [OF rest] obtain ps where "parts' = map (framed boundary) ps" "list_all2 (part_carries env version)
    (map (\<lambda>(i, v). \<lparr> mi_name = None, mi_value = v, mi_decl = d, mi_encoding = enc i \<rparr>) (enumerate (Suc k) vs)) ps" by blast
  ultimately show ?case using p(2) by (intro exI [of _ "q # ps"]) simp
qed simp

section \<open>What a receiver gets\<close>

text \<open>A part from the end of its boundary to the next delimiter.\<close>

definition received_part :: "part_spec \<Rightarrow> string" where
  "received_part p = crlf @ join crlf (map field_line (fst p)) @ crlf @ crlf @ snd p"

definition delimiter_free :: "string \<Rightarrow> part_spec \<Rightarrow> bool" where
  "delimiter_free boundary p \<longleftrightarrow>
     \<not> occurs_in (crlf @ ''--'' @ boundary) (received_part p) \<and> (\<forall>f\<in>set (fst p). CHR 0x0D \<notin> set (snd f))"

lemma framed_pieces:
  "crlf @ concat (map (framed b) ps) @ ''--'' @ b @ z =
     crlf @ ''--'' @ b @ concat (map (\<lambda>p. received_part p @ crlf @ ''--'' @ b) ps) @ z"
  by (induction ps) (simp_all add: framed_def framed_part_def received_part_def crlf_def part_crlf_def)

lemma framed_parts_received:
  assumes "CHR 0x0D \<notin> set b" and "list_all (delimiter_free b) ps"
  shows "multipart_parts b (concat (map (framed b) ps) @ closing_line b) = map received_part ps"
proof -
  let ?d = "CHR 0x0A # ''--'' @ b"
  have D: "crlf @ ''--'' @ b = CHR 0x0D # ?d" by (simp add: crlf_def)
  have cr: "CHR 0x0D \<notin> set ?d" using assms(1) by simp
  have free: "\<forall>p\<in>set (map received_part ps). \<not> occurs_in (CHR 0x0D # ?d) p"
    using assms(2) unfolding D [symmetric] by (simp add: list_all_iff delimiter_free_def)
  have close: "\<not> occurs_in (CHR 0x0D # ?d) (''--'' @ crlf)" by (simp add: crlf_def prefix_def)
  have "crlf @ concat (map (framed b) ps) @ closing_line b =
      [] @ (CHR 0x0D # ?d) @ concat (map (\<lambda>p. p @ CHR 0x0D # ?d) (map received_part ps)) @ ''--'' @ crlf"
    using framed_pieces [of b ps "''--'' @ crlf"] unfolding closing_line_def
    by (simp add: D comp_def part_crlf_def crlf_def)
  then have "split_str (crlf @ ''--'' @ b) (crlf @ concat (map (framed b) ps) @ closing_line b) =
      [] # map received_part ps @ [''--'' @ crlf]"
    unfolding D
    by (simp only: split_at_delimiter [OF cr, of "[]"] split_delimited [OF cr free close] occurs_in.simps prefix_Nil
        list.distinct simp_thms)
  then show ?thesis by (simp add: multipart_parts_def butlast_append)
qed

lemma after_blank_line_line:
  assumes "CHR 0x0D \<notin> set l" and "l \<noteq> []"
  shows "after_blank_line (crlf @ l @ s) = after_blank_line s"
  using assms after_blank_line_skip [of l s] by (cases l) (auto simp: crlf_def)

lemma after_blank_line_lines:
  "\<forall>l\<in>set ls. CHR 0x0D \<notin> set l \<and> l \<noteq> [] \<Longrightarrow> ls \<noteq> [] \<Longrightarrow>
     after_blank_line (crlf @ join crlf ls @ crlf @ crlf @ body) = body"
proof (induction crlf ls rule: join.induct)
  case (2 x)
  have "after_blank_line (crlf @ crlf @ body) = body" by (simp add: crlf_def)
  then show ?case using 2 by (simp add: after_blank_line_line)
qed (simp_all add: after_blank_line_line)

lemma received_content:
  assumes "delimiter_free boundary p" and "fields_ok strict (fst p)"
  shows "after_blank_line (received_part p) = snd p"
  unfolding received_part_def
proof (rule after_blank_line_lines)
  show "map field_line (fst p) \<noteq> []" using assms(2) by (auto simp: fields_ok_def)
  show "\<forall>l\<in>set (map field_line (fst p)). CHR 0x0D \<notin> set l \<and> l \<noteq> []"
    using assms token_no_cr
    by (auto simp: delimiter_free_def fields_ok_def list_all_iff field_ok_def field_line_def)
qed

lemma received_contents:
  assumes "list_all2 (part_carries env version) inputs ps" and "list_all (delimiter_free boundary) ps"
  shows "map after_blank_line (map received_part ps) = map snd ps"
  using assms
proof (induction inputs ps rule: list_all2_induct)
  case (Cons i inputs p ps)
  from Cons.hyps(1) have "fields_ok (mi_name i \<noteq> None) (fst p)" by (cases p) (simp add: part_carries_def Let_def)
  with Cons received_content [of boundary p] show ?case by auto
qed simp



end
