(* ===== verification/Security_Wire.thy ===== *)
theory Security_Wire
  imports Param_Route Base64
begin

text \<open>
  \<open>security-wire.ts\<close>: the wire placements of the credentials of one selected Security Requirement,
  the grammars their values must meet, and the collision rule between credentials and parameters.
  A security scheme is the JSON value it was read from; the credential source is a record of the
  caller's lookups.
\<close>

datatype channel = Header_Channel | Query_Channel | Cookie_Channel

record placement =
  pl_channel :: channel
  pl_name :: string
  pl_value :: string

record credential_source =
  cs_apiKey :: "string \<Rightarrow> string option"
  cs_basic :: "string \<Rightarrow> (string \<times> string) option"
  cs_bearer :: "string \<Rightarrow> string option"
  cs_accessToken :: "string \<Rightarrow> string option"

datatype credential_error =
    ViolatesRFC7617 string
  | NotB64Token string
  | NotCookieValue string
  | BoundaryWhitespace string
  | NotFieldValue string
  | NotCookieString string

section \<open>Grammars\<close>

text \<open>On text in UTF-8 every byte of a character outside ASCII is above 7E.\<close>

definition validBasicCredentialText :: "string \<Rightarrow> bool" where
  "validBasicCredentialText v \<longleftrightarrow> list_all (\<lambda>c. 0x20 \<le> byte c \<and> byte c \<le> 0x7e) v"

definition validateOpenAPIBasicCredential :: "string \<Rightarrow> string \<times> string \<Rightarrow> (credential_error, unit) res" where
  "validateOpenAPIBasicCredential name credential =
     (let (username, password) = credential in
      check (\<not> (CHR '':'' \<in> set username \<or> \<not> validBasicCredentialText username \<or>
               \<not> validBasicCredentialText password)) (ViolatesRFC7617 name))"

definition b64token_char :: "char \<Rightarrow> bool" where
  "b64token_char c \<longleftrightarrow> is_alnum c \<or> c \<in> set ''-._~+/''"

definition validateOpenAPIBearerToken :: "string \<Rightarrow> string \<Rightarrow> (credential_error, unit) res" where
  "validateOpenAPIBearerToken subject token =
     (let body = rev (dropWhile (\<lambda>c. c = CHR ''='') (rev token)) in
      check (body \<noteq> [] \<and> list_all b64token_char body) (NotB64Token subject))"

definition validateOpenAPICookieCredential :: "string \<Rightarrow> string \<Rightarrow> (credential_error, unit) res" where
  "validateOpenAPICookieCredential name v = check (list_all cookie_octet v) (NotCookieValue name)"

definition boundary_blank :: "string \<Rightarrow> bool" where
  "boundary_blank v \<longleftrightarrow> v \<noteq> [] \<and> (is_blank (hd v) \<or> is_blank (last v))"

definition field_octet :: "char \<Rightarrow> bool" where
  "field_octet c \<longleftrightarrow> \<not> ((byte c < 0x20 \<and> c \<noteq> CHR 0x09) \<or> byte c = 0x7f)"

definition validateOpenAPIHeaderCredential :: "string \<Rightarrow> string \<Rightarrow> (credential_error, unit) res" where
  "validateOpenAPIHeaderCredential name v =
     (if boundary_blank v then Inl (BoundaryWhitespace name)
      else if \<not> list_all field_octet v then Inl (NotFieldValue name)
      else if ascii_lower name = ''cookie'' then
        check (list_all valid_cookie_pair (split_str ''; '' v)) (NotCookieString name)
      else Inr ())"

definition encodeOpenAPICredentialQuery :: "string \<Rightarrow> string" where
  "encodeOpenAPICredentialQuery v =
     concat (map (\<lambda>c. if c \<in> set ''!'()*'' then pct c else [c]) (encodeURIComponent v))"

section \<open>Placements\<close>

definition scheme_field :: "jsval \<Rightarrow> string \<Rightarrow> string" where
  "scheme_field scheme k = str_or (get_prop scheme k) []"

definition channel_of :: "string \<Rightarrow> channel option" where
  "channel_of loc =
     (if loc = ''header'' then Some Header_Channel
      else if loc = ''query'' then Some Query_Channel
      else if loc = ''cookie'' then Some Cookie_Channel
      else None)"

definition nonempty :: "string option \<Rightarrow> string option" where
  "nonempty v = (case v of Some s \<Rightarrow> if s = [] then None else Some s | None \<Rightarrow> None)"

definition authorization :: "string \<Rightarrow> placement" where
  "authorization v = \<lparr> pl_channel = Header_Channel, pl_name = ''Authorization'', pl_value = v \<rparr>"

definition apiKey_placement :: "string \<Rightarrow> jsval \<Rightarrow> string option \<Rightarrow> (credential_error, placement list) res" where
  "apiKey_placement name scheme credential =
     (let wire = scheme_field scheme ''name'' in
      case (nonempty credential, channel_of (scheme_field scheme ''in'')) of
        (Some v, Some ch) \<Rightarrow>
          if wire = [] then Inr []
          else
            res_map (\<lambda>_. [\<lparr> pl_channel = ch, pl_name = wire, pl_value = v \<rparr>])
              (case ch of
                 Cookie_Channel \<Rightarrow> validateOpenAPICookieCredential wire v
               | Header_Channel \<Rightarrow> validateOpenAPIHeaderCredential wire v
               | Query_Channel \<Rightarrow> Inr ())
      | _ \<Rightarrow> Inr [])"

definition bearer_placement :: "string \<Rightarrow> string option \<Rightarrow> (credential_error, placement list) res" where
  "bearer_placement subject credential =
     (case nonempty credential of
        None \<Rightarrow> Inr []
      | Some v \<Rightarrow>
          res_map (\<lambda>_. [authorization (''Bearer '' @ v)]) (validateOpenAPIBearerToken subject v))"

definition basic_placement :: "string \<Rightarrow> (string \<times> string) option \<Rightarrow> (credential_error, placement list) res" where
  "basic_placement name credential =
     (case credential of
        None \<Rightarrow> Inr []
      | Some (username, password) \<Rightarrow>
          res_map (\<lambda>_. [authorization (''Basic '' @ btoa (username @ '':'' @ password))])
            (validateOpenAPIBasicCredential name (username, password)))"

definition scheme_placements ::
  "credential_source \<Rightarrow> string \<times> jsval \<Rightarrow> (credential_error, placement list) res" where
  "scheme_placements source entry =
     (let (name, scheme) = entry;
          type = scheme_field scheme ''type'';
          token = ascii_lower (scheme_field scheme ''scheme'') in
      if type = ''apiKey'' then apiKey_placement name scheme (cs_apiKey source name)
      else if type = ''http'' then
        (if token = ''bearer'' then bearer_placement name (cs_bearer source name)
         else if token = ''basic'' then basic_placement name (cs_basic source name)
         else Inr [])
      else if type = ''oauth2'' \<or> type = ''openIdConnect'' then
        bearer_placement name
          (case nonempty (cs_accessToken source name) of None \<Rightarrow> cs_bearer source name | Some t \<Rightarrow> Some t)
      else Inr [])"

definition buildOpenAPICredentialPlacements ::
  "(string \<times> jsval) list \<Rightarrow> credential_source \<Rightarrow> (credential_error, placement list) res" where
  "buildOpenAPICredentialPlacements schemes source =
     res_map concat (map_res (scheme_placements source) schemes)"

definition openAPICredentialDestinations :: "(string \<times> jsval) list \<Rightarrow> placement list" where
  "openAPICredentialDestinations schemes =
     concat (map (\<lambda>(_, scheme).
        let type = scheme_field scheme ''type'';
            wire = scheme_field scheme ''name'';
            dest = (if type = ''apiKey'' \<and> wire \<noteq> [] then channel_of (scheme_field scheme ''in'') else None) in
        case dest of
          Some ch \<Rightarrow> [\<lparr> pl_channel = ch, pl_name = wire, pl_value = [] \<rparr>]
        | None \<Rightarrow>
            if type = ''oauth2'' \<or> type = ''openIdConnect'' \<or>
               (type = ''http'' \<and> ascii_lower (scheme_field scheme ''scheme'') \<in> set [''basic'', ''bearer''])
            then [authorization []] else []) schemes)"

section \<open>Collisions\<close>

datatype collision =
    QuerystringCollision
  | RawCookieCollision
  | RawCookieDeclaredCollision
  | ProcessorOwned string
  | CookieHeaderCollision string
  | ParameterCollision string channel
  | CredentialCollision channel string

definition parameterHasDynamicDestinations :: "jsval \<Rightarrow> bool" where
  "parameterHasDynamicDestinations p =
     (let style = (case get_prop p ''style'' of
                     JStr s \<Rightarrow> s
                   | _ \<Rightarrow> if p_in p = ''query'' \<or> p_in p = ''cookie'' then ''form'' else ''simple'');
          explode = (case get_prop p ''explode'' of JBool b \<Rightarrow> b | _ \<Rightarrow> style = ''form'') in
      style = ''deepObject'' \<or> style = ''querystring'' \<or>
      (explode \<and> (style = ''form'' \<or> style = ''cookie'')))"

definition fixed_destination :: "jsval \<Rightarrow> bool" where
  "fixed_destination p \<longleftrightarrow> p_name p \<noteq> [] \<and> p_required p \<and> \<not> parameterHasDynamicDestinations p"

definition declared_names :: "jsval list \<Rightarrow> channel \<Rightarrow> string list" where
  "declared_names params ch =
     (let fixed = filter fixed_destination params in
      case ch of
        Header_Channel \<Rightarrow> map (\<lambda>p. ascii_lower (p_name p)) (filter (\<lambda>p. p_in p = ''header'') fixed)
      | Query_Channel \<Rightarrow> map p_name (filter (\<lambda>p. p_in p = ''query'') fixed)
      | Cookie_Channel \<Rightarrow> map p_name (filter (\<lambda>p. p_in p = ''cookie'') fixed))"

definition populated_names :: "populated \<Rightarrow> channel \<Rightarrow> string list" where
  "populated_names pop ch =
     (case ch of
        Header_Channel \<Rightarrow> pop_header pop
      | Query_Channel \<Rightarrow> pop_query pop
      | Cookie_Channel \<Rightarrow> pop_cookie pop)"

definition processor_owned :: "string list" where
  "processor_owned = [''host'', ''content-length'', ''content-type'', ''accept'']"

definition wire_key :: "placement \<Rightarrow> channel \<times> string" where
  "wire_key pl =
     (pl_channel pl, if pl_channel pl = Header_Channel then ascii_lower (pl_name pl) else pl_name pl)"

definition raw_cookie :: "placement \<Rightarrow> bool" where
  "raw_cookie pl \<longleftrightarrow> pl_channel pl = Header_Channel \<and> ascii_lower (pl_name pl) = ''cookie''"

fun placement_collision ::
  "jsval list \<Rightarrow> populated \<Rightarrow> placement list \<Rightarrow> (channel \<times> string) list \<Rightarrow> collision option" where
  "placement_collision params pop [] seen = None"
| "placement_collision params pop (pl # pls) seen =
     (let (ch, name) = wire_key pl in
      if ch = Header_Channel \<and> name \<in> set processor_owned then Some (ProcessorOwned (pl_name pl))
      else if ch = Cookie_Channel \<and> ''cookie'' \<in> set (declared_names params Header_Channel)
      then Some (CookieHeaderCollision (pl_name pl))
      else if name \<in> set (declared_names params ch) \<or> name \<in> set (populated_names pop ch)
      then Some (ParameterCollision (pl_name pl) ch)
      else if (ch, name) \<in> set seen then Some (CredentialCollision ch (pl_name pl))
      else placement_collision params pop pls ((ch, name) # seen))"

definition openAPICredentialCollision :: "placement list \<Rightarrow> jsval list \<Rightarrow> populated \<Rightarrow> collision option" where
  "openAPICredentialCollision placements params pop =
     (let rawOwner = (''cookie'' \<in> set (pop_header pop) \<or> list_ex raw_cookie placements);
          structuredOwner =
            (pop_cookie pop \<noteq> [] \<or> list_ex (\<lambda>pl. pl_channel pl = Cookie_Channel) placements) in
      if list_ex (\<lambda>pl. pl_channel pl = Query_Channel) placements \<and>
         (list_ex (\<lambda>p. p_in p = ''querystring'' \<and> p_required p) params \<or>
          querystring_marker \<in> set (pop_query pop))
      then Some QuerystringCollision
      else if rawOwner \<and> structuredOwner then Some RawCookieCollision
      else if list_ex raw_cookie placements \<and> declared_names params Cookie_Channel \<noteq> []
      then Some RawCookieDeclaredCollision
      else placement_collision params pop placements [])"

section \<open>Properties of the grammars\<close>

lemma concat_map_singletons: "(\<And>x. x \<in> set xs \<Longrightarrow> f x = [x]) \<Longrightarrow> concat (map f xs) = xs"
  by (induction xs) auto

lemma encode_marks:
  "concat (map (\<lambda>c. if c \<in> set ''!'()*'' then pct c else [c]) (encode_with uri_mark s)) = encode_with is_unreserved s"
proof -
  have marks: "uri_mark c \<longleftrightarrow> is_unreserved c \<or> c \<in> set ''!'()*''" for c
    by (auto simp: uri_mark_def is_unreserved_def)
  have disjoint: "\<forall>c\<in>set ''!'()*''. \<not> is_unreserved c" by code_simp
  have hex: "\<forall>c\<in>set ''!'()*''. c \<noteq> CHR ''%'' \<and> \<not> is_upper c \<and> \<not> is_digit c" by code_simp
  have "d \<notin> set ''!'()*''" if "d \<in> set (pct c)" for c d
    using pct_chars [OF that] hex by blast
  then have triplet: "concat (map (\<lambda>d. if d \<in> set ''!'()*'' then pct d else [d]) (pct c)) = pct c" for c
    by (intro concat_map_singletons) auto
  show ?thesis
  proof (induction s)
    case (Cons c s)
    show ?case
    proof (cases "c \<in> set ''!'()*''")
      case True
      then have "uri_mark c" "\<not> is_unreserved c" using marks disjoint by blast+
      with True Cons show ?thesis by (simp only: encode_with_simps if_True if_False map_append concat_append) simp
    next
      case False
      then have "uri_mark c \<longleftrightarrow> is_unreserved c" using marks by blast
      with False Cons triplet [of c] show ?thesis
        by (simp only: encode_with_simps map_append concat_append) (simp split: if_splits)
    qed
  qed simp
qed

lemma encodeOpenAPICredentialQuery_eq: "encodeOpenAPICredentialQuery s = rfc3986Escape s False False"
  by (simp only: encodeOpenAPICredentialQuery_def encodeURIComponent_def encode_marks rfc3986_plain) simp

interpretation cred: component_escaper encodeOpenAPICredentialQuery is_unreserved
  unfolding encodeOpenAPICredentialQuery_eq
  by unfold_locales (auto simp: rfc.esc_decode dest: rfc.esc_chars)

lemma set_dropWhile_or: "c \<in> set xs \<Longrightarrow> c \<in> set (dropWhile P xs) \<or> P c"
  by (induction xs) auto

lemma bearer_field_octets:
  assumes "validateOpenAPIBearerToken subject token = Inr ()"
  shows "list_all field_octet token"
proof -
  let ?body = "rev (dropWhile (\<lambda>c. c = CHR ''='') (rev token))"
  have "list_all b64token_char ?body"
    using assms by (auto simp: validateOpenAPIBearerToken_def Let_def js_result)
  moreover have "field_octet c" if "b64token_char c" for c
    using that by (auto simp: b64token_char_def field_octet_def char_class_defs)
  moreover have "c \<in> set ?body \<or> c = CHR ''=''" if "c \<in> set token" for c
    using that set_dropWhile_or [of c "rev token"] by fastforce
  moreover have "field_octet (CHR ''='')" by (simp add: field_octet_def byte_def)
  ultimately show ?thesis unfolding list_all_iff by metis
qed

lemma alnum_field_octet: "is_alnum c \<or> c \<in> set ''+/='' \<Longrightarrow> field_octet c"
  by (auto simp: field_octet_def char_class_defs byte_def)

lemma btoa_field_octets: "list_all field_octet (btoa s)"
  using btoa_chars alnum_field_octet by (metis list_all_iff)

definition safe_placement :: "placement \<Rightarrow> bool" where
  "safe_placement pl \<longleftrightarrow>
     (case pl_channel pl of
        Header_Channel \<Rightarrow> list_all field_octet (pl_value pl)
      | Cookie_Channel \<Rightarrow> list_all cookie_octet (pl_value pl)
      | Query_Channel \<Rightarrow> True)"

lemma safe_authorization:
  "safe_placement (authorization (''Bearer '' @ v)) \<longleftrightarrow> list_all field_octet v"
  "safe_placement (authorization (''Basic '' @ v)) \<longleftrightarrow> list_all field_octet v"
  by (simp_all add: safe_placement_def authorization_def field_octet_def byte_def)

lemma safe_apiKey:
  "apiKey_placement name scheme credential = Inr pls \<Longrightarrow> pl \<in> set pls \<Longrightarrow> safe_placement pl"
  by (auto simp: apiKey_placement_def Let_def js_result safe_placement_def validateOpenAPICookieCredential_def
      validateOpenAPIHeaderCredential_def split: option.splits if_splits channel.splits)

lemma safe_bearer:
  "bearer_placement subject credential = Inr pls \<Longrightarrow> pl \<in> set pls \<Longrightarrow> safe_placement pl"
  using bearer_field_octets
  by (auto simp: bearer_placement_def js_result safe_authorization simp del: append.simps split: option.splits)

lemma safe_basic:
  "basic_placement name credential = Inr pls \<Longrightarrow> pl \<in> set pls \<Longrightarrow> safe_placement pl"
  by (auto simp: basic_placement_def js_result safe_authorization btoa_field_octets simp del: append.simps
      split: option.splits)

lemma safe_scheme:
  assumes "scheme_placements source entry = Inr pls" and "pl \<in> set pls"
  shows "safe_placement pl"
proof -
  obtain name scheme where entry: "entry = (name, scheme)" by (cases entry)
  show ?thesis
    using assms safe_apiKey safe_bearer safe_basic
    unfolding entry scheme_placements_def Let_def prod.case
    by (auto split: if_splits)
qed

lemma placement_collision_None:
  "placement_collision params pop pls seen = None \<Longrightarrow>
     distinct (map wire_key pls) \<and> set (map wire_key pls) \<inter> set seen = {} \<and>
     (\<forall>pl\<in>set pls. \<forall>ch name. wire_key pl = (ch, name) \<longrightarrow>
        name \<notin> set (declared_names params ch) \<and> name \<notin> set (populated_names pop ch) \<and>
        (ch = Header_Channel \<longrightarrow> name \<notin> set processor_owned))"
proof (induction params pop pls seen rule: placement_collision.induct)
  case (2 params pop pl pls seen)
  obtain ch name where k: "wire_key pl = (ch, name)" by (cases "wire_key pl")
  have guards: "\<not> (ch = Header_Channel \<and> name \<in> set processor_owned)"
    "name \<notin> set (declared_names params ch)" "name \<notin> set (populated_names pop ch)" "(ch, name) \<notin> set seen"
    "placement_collision params pop pls ((ch, name) # seen) = None"
    using "2.prems" k by (auto simp: Let_def split: if_splits)
  have "\<not> (ch = Cookie_Channel \<and> ''cookie'' \<in> set (declared_names params Header_Channel))"
    using "2.prems" k by (auto simp: Let_def split: if_splits)
  from "2.IH" [OF k [symmetric] refl guards(1) this _ guards(4,5)] guards
  show ?case by (auto simp: k)
qed simp

lemma cut_at: "c \<notin> set a \<Longrightarrow> cut c (a @ c # b) = Some (a, b)"
  by (simp add: cut_Some)

lemma build_in:
  assumes "buildOpenAPICredentialPlacements schemes source = Inr pls" and "pl \<in> set pls"
  obtains entry part where "scheme_placements source entry = Inr part" "pl \<in> set part"
proof -
  from assms(1) obtain parts where parts: "list_all2 (\<lambda>e p. scheme_placements source e = Inr p) schemes parts"
    "pls = concat parts"
    by (auto simp: buildOpenAPICredentialPlacements_def js_result)
  from assms(2) parts(2) obtain part where part: "part \<in> set parts" "pl \<in> set part" by auto
  from part(1) obtain i where i: "i < length parts" "part = parts ! i" by (auto simp: in_set_conv_nth)
  then have "scheme_placements source (schemes ! i) = Inr part"
    using parts(1) by (auto simp: list_all2_conv_all_nth)
  from this part(2) show ?thesis by (rule that)
qed

section \<open>Claims\<close>

definition example_source :: credential_source where
  "example_source =
     \<lparr> cs_apiKey = (\<lambda>n. if n = ''key'' then Some ''k1'' else None),
       cs_basic = (\<lambda>_. Some (''u'', ''p:w'')),
       cs_bearer = (\<lambda>_. Some ''ab.c=''),
       cs_accessToken = (\<lambda>_. None) \<rparr>"

definition example_schemes :: "(string \<times> jsval) list" where
  "example_schemes =
     [(''key'', JObj [(''type'', JStr ''apiKey''), (''in'', JStr ''cookie''), (''name'', JStr ''sid'')]),
      (''o'', JObj [(''type'', JStr ''oauth2'')])]"

text \<open>C30. No injection through credentials: whatever values the credential source returns, every
  placement that is built carries only octets an HTTP field value may hold (a header) or cookie
  octets (a cookie), so a credential can neither end its field nor add a cookie pair; a query value
  is escaped to unreserved characters and triplets before it is sent.\<close>

theorem credential_placements_are_safe:
  assumes "buildOpenAPICredentialPlacements schemes source = Inr pls" and "pl \<in> set pls"
  shows "(pl_channel pl = Header_Channel \<longrightarrow> list_all field_octet (pl_value pl)) \<and>
    (pl_channel pl = Cookie_Channel \<longrightarrow> list_all cookie_octet (pl_value pl)) \<and>
    (\<forall>c\<in>set (encodeOpenAPICredentialQuery (pl_value pl)). is_unreserved c \<or> c = CHR ''%'')"
proof -
  obtain entry part where "scheme_placements source entry = Inr part" "pl \<in> set part"
    by (rule build_in [OF assms])
  then have "safe_placement pl" by (rule safe_scheme)
  then have "pl_channel pl = Header_Channel \<longrightarrow> list_all field_octet (pl_value pl)"
    "pl_channel pl = Cookie_Channel \<longrightarrow> list_all cookie_octet (pl_value pl)"
    by (simp_all add: safe_placement_def split: channel.splits)
  then show ?thesis using cred.esc_chars by blast
qed

lemma credential_placements_are_safe_witness:
  "buildOpenAPICredentialPlacements example_schemes example_source =
     Inr [\<lparr> pl_channel = Cookie_Channel, pl_name = ''sid'', pl_value = ''k1'' \<rparr>,
          authorization ''Bearer ab.c=''] \<and> list_all field_octet ''Bearer ab.c=''"
proof -
  have b: "buildOpenAPICredentialPlacements example_schemes example_source =
     Inr [\<lparr> pl_channel = Cookie_Channel, pl_name = ''sid'', pl_value = ''k1'' \<rparr>,
          authorization ''Bearer ab.c='']"
    by code_simp
  from credential_placements_are_safe [OF this, of "authorization ''Bearer ab.c=''"]
  show ?thesis using b by (simp add: authorization_def)
qed

text \<open>A collision check that passes is enough: the placements have pairwise distinct wire
  destinations (header names compared without case), none writes a destination a declared parameter
  owns or a populated parameter used, none takes a header the processor sets itself, and no query
  credential is sent beside a populated querystring parameter.\<close>

theorem collision_check_separates_destinations:
  assumes "openAPICredentialCollision pls params pop = None"
  shows "distinct (map wire_key pls) \<and>
    (\<forall>pl\<in>set pls.
       snd (wire_key pl) \<notin> set (declared_names params (pl_channel pl)) \<and>
       snd (wire_key pl) \<notin> set (populated_names pop (pl_channel pl)) \<and>
       (pl_channel pl = Header_Channel \<longrightarrow> ascii_lower (pl_name pl) \<notin> set processor_owned) \<and>
       (pl_channel pl = Query_Channel \<longrightarrow> querystring_marker \<notin> set (pop_query pop)))"
proof -
  have n: "placement_collision params pop pls [] = None"
    and q: "\<not> (list_ex (\<lambda>pl. pl_channel pl = Query_Channel) pls \<and> querystring_marker \<in> set (pop_query pop))"
    using assms by (auto simp: openAPICredentialCollision_def Let_def split: if_splits)
  from placement_collision_None [OF n] q show ?thesis
    by (auto simp: wire_key_def list_ex_iff)
qed

lemma collision_check_separates_destinations_witness:
  "openAPICredentialCollision
     [\<lparr> pl_channel = Cookie_Channel, pl_name = ''sid'', pl_value = ''k1'' \<rparr>, authorization ''Bearer ab.c='']
     [JObj [(''name'', JStr ''q''), (''in'', JStr ''query''), (''required'', JBool True), (''style'', JStr ''pipeDelimited'')]]
     \<lparr> pop_header = [''x-a''], pop_query = [''q''], pop_cookie = [] \<rparr> = None \<and>
   distinct (map wire_key
     [\<lparr> pl_channel = Cookie_Channel, pl_name = ''sid'', pl_value = ''k1'' \<rparr>, authorization ''Bearer ab.c=''])"
proof -
  have c: "openAPICredentialCollision
     [\<lparr> pl_channel = Cookie_Channel, pl_name = ''sid'', pl_value = ''k1'' \<rparr>, authorization ''Bearer ab.c='']
     [JObj [(''name'', JStr ''q''), (''in'', JStr ''query''), (''required'', JBool True), (''style'', JStr ''pipeDelimited'')]]
     \<lparr> pop_header = [''x-a''], pop_query = [''q''], pop_cookie = [] \<rparr> = None"
    by code_simp
  from collision_check_separates_destinations [OF c] c show ?thesis by (simp only: simp_thms)
qed

text \<open>HTTP Basic round trip (RFC 7617): when a Basic credential is placed, a server that decodes
  the token after \<open>Basic\<close> and splits it at the first colon reads back exactly the user name and the
  password, although the password itself may hold colons.\<close>

theorem basic_credential_roundtrip:
  assumes "basic_placement name (Some (username, password)) = Inr pls"
  shows "\<exists>t. pls = [authorization (''Basic '' @ t)] \<and>
    (case atob t of Some s \<Rightarrow> cut (CHR '':'') s | None \<Rightarrow> None) = Some (username, password)"
proof -
  have "CHR '':'' \<notin> set username"
    using assms by (auto simp: basic_placement_def validateOpenAPIBasicCredential_def js_result)
  with assms show ?thesis
    by (intro exI [where x = "btoa (username @ '':'' @ password)"])
      (auto simp: basic_placement_def js_result atob_btoa cut_at)
qed

lemma basic_credential_roundtrip_witness:
  "\<exists>t. [authorization ''Basic dTpwOnc=''] = [authorization (''Basic '' @ t)] \<and>
    (case atob t of Some s \<Rightarrow> cut (CHR '':'') s | None \<Rightarrow> None) = Some (''u'', ''p:w'')"
proof (rule basic_credential_roundtrip)
  show "basic_placement ''b'' (Some (''u'', ''p:w'')) = Inr [authorization ''Basic dTpwOnc='']"
    by code_simp
qed

end
