(* ===== verification/Context_Fields.thy ===== *)
theory Context_Fields
  imports Js_Value
begin

text \<open>
  The readers of the well-known fields of an invocation context (\<open>internal/context.ts\<close>).  A context
  is a JSON value, \<open>null\<close> and \<open>undefined\<close> included; an ill-typed field reads as absent.
\<close>

definition contextBearerToken :: "jsval \<Rightarrow> string" where
  "contextBearerToken ctx = str_or (get_prop ctx ''bearerToken'') []"

text \<open>A field that is no object reads as the empty object.\<close>

definition record_field :: "jsval \<Rightarrow> string \<Rightarrow> js_members" where
  "record_field ctx key = (case as_object (get_prop ctx key) of None \<Rightarrow> [] | Some ms \<Rightarrow> ms)"

definition contextNamedCredential :: "jsval \<Rightarrow> string option \<Rightarrow> jsval" where
  "contextNamedCredential ctx name =
     (case name of
        None \<Rightarrow> JUndefined
      | Some n \<Rightarrow>
          if n = [] then JUndefined
          else
            (case as_object (get_prop ctx ''credentials'') of
               None \<Rightarrow> JUndefined
             | Some ms \<Rightarrow> get_object ms n))"

definition contextBearerTokenFor :: "jsval \<Rightarrow> string option \<Rightarrow> string" where
  "contextBearerTokenFor ctx name =
     (case contextNamedCredential ctx name of
        JStr s \<Rightarrow> if s = [] then contextBearerToken ctx else s
      | _ \<Rightarrow> contextBearerToken ctx)"

fun string_members :: "js_members \<Rightarrow> js_members \<Rightarrow> js_members" where
  "string_members [] out = out"
| "string_members ((k, v) # ms) out =
     string_members ms (if is_str v then assign_member k v out else out)"

definition extractStringMap :: "jsval \<Rightarrow> string \<Rightarrow> js_members" where
  "extractStringMap ctx key = string_members (record_field ctx key) []"

definition contextHeaders :: "jsval \<Rightarrow> js_members" where
  "contextHeaders ctx = extractStringMap ctx ''headers''"

definition contextCookies :: "jsval \<Rightarrow> js_members" where
  "contextCookies ctx = extractStringMap ctx ''cookies''"

definition contextEnvironment :: "jsval \<Rightarrow> js_members" where
  "contextEnvironment ctx = extractStringMap ctx ''environment''"

definition contextConfiguration :: "jsval \<Rightarrow> js_members" where
  "contextConfiguration ctx = record_field ctx ''configuration''"

definition contextMetadata :: "jsval \<Rightarrow> js_members" where
  "contextMetadata ctx = record_field ctx ''metadata''"

text \<open>Nothing but strings is read, and every string under an ordinary name is.\<close>

lemma string_members_map_of:
  "k \<noteq> ''__proto__'' \<Longrightarrow> distinct (map fst ms) \<Longrightarrow>
     map_of (string_members ms out) k =
       (case map_of ms k of Some (JStr s) \<Rightarrow> Some (JStr s) | _ \<Rightarrow> map_of out k)"
proof (induction ms out rule: string_members.induct)
  case (2 l v ms out)
  have l: "map_of ms l = None" using 2(3) by (simp add: map_of_eq_None_iff)
  show ?case
  proof (cases "is_str v")
    case True
    then obtain s where v: "v = JStr s" by (auto simp: is_str_iff)
    have "map_of (assign_member l v out) k = (if k = l then Some v else map_of out k)"
      using 2(2) by (cases "l = ''__proto__''") (auto simp: assign_member_def map_of_define_member)
    with 2 True l v show ?thesis by (auto split: option.splits jsval.splits)
  next
    case False
    with 2 l show ?thesis by (auto simp: is_str_iff split: option.splits jsval.splits)
  qed
qed simp

end
