(* ===== verification/Context_Resolution.thy ===== *)
theory Context_Resolution
  imports Context_Fields Unicode Base64
begin

text \<open>
  The rest of \<open>internal/context.ts\<close>: the credential readers, redaction, context keys, the
  Authorization header of a context, when a stored context satisfies a challenge, the part of it that
  is released, and the resolver backed by a store.

  Parameters of the model: the URL parser of the platform (the protocol and the host of a URL, \<open>None\<close>
  for its TypeError) and the store (what \<open>get\<close> returns).  Contexts are values of \<open>JSON.parse\<close>.
\<close>

section \<open>Credentials\<close>

definition contextApiKey :: "jsval \<Rightarrow> string" where
  "contextApiKey ctx = str_or (get_prop ctx ''apiKey'') []"

definition contextApiKeys :: "jsval \<Rightarrow> js_members" where
  "contextApiKeys ctx = extractStringMap ctx ''apiKeys''"

fun nonempty_text :: "jsval \<Rightarrow> bool" where
  "nonempty_text (JStr s) = (s \<noteq> [])"
| "nonempty_text _ = False"

definition contextApiKeyFor :: "jsval \<Rightarrow> string option \<Rightarrow> jsval" where
  "contextApiKeyFor ctx name =
     (case name of
        None \<Rightarrow> JStr (contextApiKey ctx)
      | Some n \<Rightarrow>
          let credential = contextNamedCredential ctx name;
              named = get_object (contextApiKeys ctx) n in
          if n = [] then JStr (contextApiKey ctx)
          else if nonempty_text credential then credential
          else if truthy named then named
          else JStr (contextApiKey ctx))"

definition basic_pair :: "jsval \<Rightarrow> (string \<times> string) option" where
  "basic_pair v =
     (let username = str_or (get_prop v ''username'') []; password = str_or (get_prop v ''password'') [] in
      if username = [] \<and> password = [] then None else Some (username, password))"

definition contextBasicAuth :: "jsval \<Rightarrow> (string \<times> string) option" where
  "contextBasicAuth ctx = basic_pair (get_prop ctx ''basic'')"

definition contextBasicAuthFor :: "jsval \<Rightarrow> string option \<Rightarrow> (string \<times> string) option" where
  "contextBasicAuthFor ctx name =
     (case basic_pair (contextNamedCredential ctx name) of
        Some pair \<Rightarrow> Some pair
      | None \<Rightarrow> contextBasicAuth ctx)"

definition contextString :: "jsval \<Rightarrow> string \<Rightarrow> string" where
  "contextString ctx key = str_or (get_prop ctx key) []"

definition contextAccessTokenFor :: "jsval \<Rightarrow> string option \<Rightarrow> string" where
  "contextAccessTokenFor ctx name =
     (let token = get_prop (contextNamedCredential ctx name) ''accessToken'' in
      if nonempty_text token then str_or token [] else contextString ctx ''accessToken'')"

section \<open>Redaction\<close>

definition REQUIREMENT_FAMILY_FIELDS :: "(string \<times> string list) list" where
  "REQUIREMENT_FAMILY_FIELDS =
     [(''auth.bearer'', [''bearerToken'']), (''auth.apiKey'', [''apiKey'', ''apiKeys'']),
      (''auth.basic'', [''basic'']),
      (''auth.oauth2'', [''accessToken'', ''bearerToken'', ''refreshToken'', ''clientSecret''])]"

definition CREDENTIAL_FIELDS :: "string list" where
  "CREDENTIAL_FIELDS = concat (map snd REQUIREMENT_FAMILY_FIELDS) @ [''credentials'']"

definition redacted :: jsval where
  "redacted = JStr ''[REDACTED]''"

definition redact_field :: "string \<Rightarrow> jsval \<Rightarrow> jsval" where
  "redact_field k v =
     (if k \<notin> set CREDENTIAL_FIELDS then v
      else if k = ''basic'' then
        (case as_object v of
           None \<Rightarrow> redacted
         | Some b \<Rightarrow> JObj (if has_member b ''password'' then define_member ''password'' redacted b else b))
      else if k = ''apiKeys'' \<or> k = ''credentials'' then
        (case as_object v of
           None \<Rightarrow> redacted
         | Some m \<Rightarrow> JObj (foldl (\<lambda>rc name. assign_member name redacted rc) [] (member_keys m)))
      else redacted)"

definition redactContext :: "js_members option \<Rightarrow> js_members option" where
  "redactContext ctx =
     map_option (\<lambda>ms. foldl (\<lambda>out m. assign_member (fst m) (redact_field (fst m) (snd m)) out) [] ms) ctx"

section \<open>Context keys\<close>

fun cut_text :: "string \<Rightarrow> string \<Rightarrow> (string \<times> string) option" where
  "cut_text sep [] = (if sep = [] then Some ([], []) else None)"
| "cut_text sep (c # s) =
     (if prefix sep (c # s) then Some ([], drop (length sep) (c # s))
      else map_option (\<lambda>(a, b). (c # a, b)) (cut_text sep s))"

definition before :: "char \<Rightarrow> string \<Rightarrow> string" where
  "before c s = (case cut c s of None \<Rightarrow> s | Some (a, _) \<Rightarrow> a)"

definition drop_suffix :: "string \<Rightarrow> string \<Rightarrow> string" where
  "drop_suffix t s = (if ends_with t s then take (length s - length t) s else s)"

definition elideDefaultPort :: "string \<Rightarrow> string \<Rightarrow> string" where
  "elideDefaultPort scheme host =
     (let k = ascii_lower scheme in
      if k = ''https'' \<or> k = ''wss'' then drop_suffix '':443'' host
      else if k = ''http'' \<or> k = ''ws'' then drop_suffix '':80'' host
      else host)"

definition key_host :: "string \<Rightarrow> string" where
  "key_host rest =
     (let authority = before (CHR ''/'') (before (CHR ''#'') (before (CHR ''?'') rest)) in
      ascii_lower (case cut_last (CHR ''@'') authority of None \<Rightarrow> authority | Some (_, host) \<Rightarrow> host))"

definition normalizeContextKey :: "string \<Rightarrow> string" where
  "normalizeContextKey raw =
     (let s = js_trim raw in
      case cut_text ''://'' s of
        None \<Rightarrow> s
      | Some (scheme, rest) \<Rightarrow> elideDefaultPort scheme (key_host rest))"

type_synonym endpoint_parser = "string \<Rightarrow> (string \<times> string) option"

definition normalizeEndpoint :: "endpoint_parser \<Rightarrow> string \<Rightarrow> string" where
  "normalizeEndpoint new_url url =
     (case new_url url of
        None \<Rightarrow> normalizeContextKey url
      | Some (protocol, host) \<Rightarrow>
          if host = [] then normalizeContextKey url
          else normalizeContextKey (drop_suffix '':'' protocol @ ''://'' @ host))"

section \<open>The headers of a context\<close>

text \<open>\<open>btoa\<close> takes the code points as bytes, and throws when one is above FF.\<close>

definition btoa_text :: "string \<Rightarrow> string option" where
  "btoa_text s =
     (let ps = code_points s in if list_all (\<lambda>p. p < 256) ps then Some (btoa (map char_of ps)) else None)"

definition authorization_header :: "jsval \<Rightarrow> js_members option" where
  "authorization_header ctx =
     (let put = (\<lambda>v. [(''Authorization'', JStr v)]) in
      if contextBearerToken ctx \<noteq> [] then Some (put (''Bearer '' @ contextBearerToken ctx))
      else if contextApiKey ctx \<noteq> [] then Some (put (''ApiKey '' @ contextApiKey ctx))
      else
        (case contextBasicAuth ctx of
           None \<Rightarrow> Some []
         | Some (u, p) \<Rightarrow> map_option (\<lambda>e. put (''Basic '' @ e)) (btoa_text (u @ '':'' @ p))))"

definition buildAuthHeaders :: "jsval \<Rightarrow> js_members option" where
  "buildAuthHeaders ctx =
     map_option (\<lambda>headers.
       let merged = foldl (\<lambda>out m. assign_member (fst m) (snd m) out) headers (contextHeaders ctx);
           pairs = js_sort (map (\<lambda>m. fst m @ ''='' @ js_String (snd m)) (contextCookies ctx)) in
       if pairs = [] then merged else assign_member ''Cookie'' (JStr (join ''; '' pairs)) merged)
     (authorization_header ctx)"

section \<open>Configuration values\<close>

fun bad_tilde :: "string \<Rightarrow> bool" where
  "bad_tilde [] = False"
| "bad_tilde (c # s) =
     ((c = CHR ''~'' \<and> (case s of [] \<Rightarrow> True | d # _ \<Rightarrow> d \<noteq> CHR ''0'' \<and> d \<noteq> CHR ''1'')) \<or> bad_tilde s)"

definition configurationPointerTokens :: "string \<Rightarrow> string list option" where
  "configurationPointerTokens path =
     (if path = [] then Some []
      else if hd path \<noteq> CHR ''/'' then None
      else
        let tokens = split_str ''/'' (tl path) in
        if list_ex bad_tilde tokens then None
        else Some (map (\<lambda>t. replace_all ''~0'' ''~'' (replace_all ''~1'' ''/'' t)) tokens))"

fun value_at :: "jsval \<Rightarrow> string list \<Rightarrow> jsval option" where
  "value_at v [] = Some v"
| "value_at v (t # ts) =
     (case as_object v of
        None \<Rightarrow> None
      | Some ms \<Rightarrow> (case map_of ms t of None \<Rightarrow> None | Some w \<Rightarrow> value_at w ts))"

definition configurationValueAt :: "jsval \<Rightarrow> string \<Rightarrow> jsval option" where
  "configurationValueAt root path =
     (case configurationPointerTokens path of
        None \<Rightarrow> None
      | Some ts \<Rightarrow> if ts = [] \<and> root = JUndefined then None else value_at root ts)"

definition configurationFragment :: "string \<Rightarrow> jsval \<Rightarrow> jsval" where
  "configurationFragment path v =
     foldr (\<lambda>t f. JObj [(t, f)]) (case configurationPointerTokens path of None \<Rightarrow> [] | Some ts \<Rightarrow> ts) v"

function mergeConfigurationFragment :: "js_members \<Rightarrow> js_members \<Rightarrow> js_members" where
  "mergeConfigurationFragment left [] = left"
| "mergeConfigurationFragment left ((k, v) # ms) =
     mergeConfigurationFragment
       (assign_member k
         (case (get_object left k, v) of
            (JObj prior, JObj w) \<Rightarrow> JObj (mergeConfigurationFragment prior w)
          | _ \<Rightarrow> v) left) ms"
  by pat_completeness auto
termination by (relation "measure (\<lambda>(l, ms). size (JObj ms))") auto

section \<open>When a context satisfies a challenge\<close>

record requirement =
  rq_type :: string
  rq_name :: jsval
  rq_point :: jsval
  rq_path :: jsval
  rq_schema :: jsval
  rq_durable :: jsval

record challenge =
  ch_target :: string
  ch_alternatives :: "requirement list list"

definition requirement_name :: "requirement \<Rightarrow> string option" where
  "requirement_name req = (if nonempty_text (rq_name req) then as_str (rq_name req) else None)"

function (sequential) jsonEqual :: "jsval \<Rightarrow> jsval \<Rightarrow> bool" where
  "jsonEqual (JArr xs) (JArr ys) = (length xs = length ys \<and> list_all (\<lambda>(x, y). jsonEqual x y) (zip xs ys))"
| "jsonEqual (JObj ms) (JObj ns) =
     (length ms = length ns \<and>
      list_all (\<lambda>m. has_member ns (fst m) \<and> jsonEqual (snd m) (member_of ns (fst m))) ms)"
| "jsonEqual a b = (a = b)"
  by pat_completeness auto
termination
proof (relation "measure (\<lambda>(a, b). size a)")
  fix xs ys :: "jsval list" and p x y
  assume "p \<in> set (zip xs ys)" "(x, y) = p"
  then have "x \<in> set xs" by (auto dest: set_zip_leftD)
  then have "size x < size (JArr xs)" by (induction xs) auto
  then show "((x, y), JArr xs, JArr ys) \<in> measure (\<lambda>(a, b). size a)" by simp
next
  fix ms ns :: js_members and m
  assume "m \<in> set ms"
  then have "size (snd m) < size (JObj ms)" by (induction ms) auto
  then show "((snd m, member_of ns (fst m)), JObj ms, JObj ns) \<in> measure (\<lambda>(a, b). size a)" by simp
qed simp

definition configValueMatchesSchema :: "requirement \<Rightarrow> jsval \<Rightarrow> bool" where
  "configValueMatchesSchema req v =
     (if rq_schema req = JUndefined then True
      else
        (case as_object (rq_schema req) of
           None \<Rightarrow> False
         | Some schema \<Rightarrow>
             if \<not> has_member schema ''enum'' then True
             else
               (case as_array (member_of schema ''enum'') of
                  None \<Rightarrow> False
                | Some xs \<Rightarrow> list_ex (\<lambda>x. jsonEqual x v) xs)))"

definition supplied_value :: "jsval \<Rightarrow> bool" where
  "supplied_value v \<longleftrightarrow> v \<noteq> JUndefined \<and> v \<noteq> JNull \<and> v \<noteq> JStr []"

definition config_satisfied :: "js_members \<Rightarrow> requirement \<Rightarrow> bool" where
  "config_satisfied ctx req =
     (let point = str_or (rq_point req) []; path = str_or (rq_path req) [] in
      case as_object (member_of ctx ''configuration'') of
        None \<Rightarrow> False
      | Some configuration \<Rightarrow>
          point \<noteq> [] \<and>
          (case configurationValueAt (get_object configuration point) path of
             None \<Rightarrow> False
           | Some v \<Rightarrow> supplied_value v \<and> configValueMatchesSchema req v))"

definition named_basic :: "jsval \<Rightarrow> bool" where
  "named_basic v \<longleftrightarrow>
     is_str (get_prop v ''username'') \<and> is_str (get_prop v ''password'') \<and> basic_pair v \<noteq> None"

text \<open>
  A type without a branch of its own gates on the field of its name; a type that names a member of
  \<open>Object.prototype\<close> maps to that function, which is no field.
\<close>

definition requirementSatisfied :: "js_members \<Rightarrow> requirement \<Rightarrow> bool \<Rightarrow> bool" where
  "requirementSatisfied ctx req allowFlat =
     (let c = JObj ctx; type = rq_type req; name = requirement_name req;
          named = contextNamedCredential c name in
      if type = ''auth.bearer'' then nonempty_text named \<or> (allowFlat \<and> contextBearerToken c \<noteq> [])
      else if type = ''auth.apiKey'' then
        nonempty_text named \<or>
        (case name of None \<Rightarrow> False | Some n \<Rightarrow> truthy (get_object (contextApiKeys c) n)) \<or>
        (allowFlat \<and> contextApiKey c \<noteq> [])
      else if type = ''auth.basic'' then named_basic named \<or> (allowFlat \<and> contextBasicAuth c \<noteq> None)
      else if type = ''auth.oauth2'' then
        nonempty_text (get_prop named ''accessToken'') \<or>
        (allowFlat \<and> (contextString c ''accessToken'' \<noteq> [] \<or> contextBearerToken c \<noteq> []))
      else if type = ''config.value'' then config_satisfied ctx req
      else if type \<in> set object_prototype_names \<or> starts_with ''auth.'' type then False
      else supplied_value (member_of ctx type))"

definition flatCredentialIsUnambiguous :: "requirement list list \<Rightarrow> requirement \<Rightarrow> bool" where
  "flatCredentialIsUnambiguous alternatives req =
     (let names = map requirement_name (filter (\<lambda>c. rq_type c = rq_type req) (concat alternatives)) in
      length (remdups (filter (\<lambda>n. n \<noteq> None) names)) + length (filter (\<lambda>n. n = None) names) = 1)"

definition alternative_satisfied :: "js_members \<Rightarrow> requirement list list \<Rightarrow> requirement list \<Rightarrow> bool" where
  "alternative_satisfied ctx alternatives alt \<longleftrightarrow>
     alt \<noteq> [] \<and> list_all (\<lambda>req. requirementSatisfied ctx req (flatCredentialIsUnambiguous alternatives req)) alt"

definition contextSatisfies :: "js_members \<Rightarrow> requirement list list \<Rightarrow> bool" where
  "contextSatisfies ctx alternatives = list_ex (alternative_satisfied ctx alternatives) alternatives"

section \<open>What is released\<close>

text \<open>\<open>{ ...existing, [name]: v }\<close> under a field of the output.\<close>

definition put_entry :: "string \<Rightarrow> string \<Rightarrow> jsval \<Rightarrow> js_members \<Rightarrow> js_members" where
  "put_entry field name v out =
     assign_member field (JObj (define_member name v (record_field (JObj out) field))) out"

definition copy_field :: "js_members \<Rightarrow> string \<Rightarrow> js_members \<Rightarrow> js_members" where
  "copy_field stored f out = (if has_member stored f then assign_member f (member_of stored f) out else out)"

definition admitApiKey :: "js_members \<Rightarrow> string option \<Rightarrow> js_members \<Rightarrow> js_members" where
  "admitApiKey stored name out =
     (let credentials = record_field (JObj stored) ''credentials'';
          keys = as_object (member_of stored ''apiKeys'') in
      case name of
        None \<Rightarrow> copy_field stored ''apiKey'' out
      | Some n \<Rightarrow>
          if nonempty_text (get_object credentials n) then put_entry ''credentials'' n (get_object credentials n) out
          else
            (case keys of
               None \<Rightarrow> copy_field stored ''apiKey'' out
             | Some ms \<Rightarrow>
                 if in_object n ms then put_entry ''apiKeys'' n (get_object ms n) out
                 else copy_field stored ''apiKey'' out))"

definition scope_config :: "js_members \<Rightarrow> requirement \<Rightarrow> js_members \<Rightarrow> js_members" where
  "scope_config stored req out =
     (let point = str_or (rq_point req) []; path = str_or (rq_path req) [] in
      case as_object (member_of stored ''configuration'') of
        None \<Rightarrow> out
      | Some configuration \<Rightarrow>
          if point = [] \<or> \<not> in_object point configuration then out
          else
            let pointValue = get_object configuration point in
            (case configurationValueAt pointValue path of
               None \<Rightarrow> out
             | Some v \<Rightarrow>
                 if path = [] then put_entry ''configuration'' point pointValue out
                 else
                   let prior = get_object (record_field (JObj out) ''configuration'') point;
                       scoped = (case as_object prior of None \<Rightarrow> [] | Some ms \<Rightarrow> ms);
                       fragment = (case configurationFragment path v of JObj ms \<Rightarrow> ms | _ \<Rightarrow> []) in
                   put_entry ''configuration'' point (JObj (mergeConfigurationFragment scoped fragment)) out))"

definition family_fields :: "string \<Rightarrow> string list" where
  "family_fields type = (case map_of REQUIREMENT_FAMILY_FIELDS type of None \<Rightarrow> [type] | Some fs \<Rightarrow> fs)"

definition scope_requirement :: "js_members \<Rightarrow> requirement \<Rightarrow> js_members \<Rightarrow> js_members" where
  "scope_requirement stored req out =
     (if rq_type req = ''auth.apiKey'' then
        admitApiKey stored (if as_str (rq_name req) = Some [] then None else as_str (rq_name req)) out
      else if rq_type req = ''config.value'' then scope_config stored req out
      else
        let flat = fold (copy_field stored) (family_fields (rq_type req)) out in
        case (requirement_name req, as_object (member_of stored ''credentials'')) of
          (Some n, Some credentials) \<Rightarrow>
            if starts_with ''auth.'' (rq_type req) \<and> in_object n credentials
            then put_entry ''credentials'' n (get_object credentials n) out
            else flat
        | _ \<Rightarrow> flat)"

definition scope_alternatives :: "js_members \<Rightarrow> requirement list list \<Rightarrow> js_members" where
  "scope_alternatives stored alternatives =
     (case List.find (alternative_satisfied stored alternatives) alternatives of
        None \<Rightarrow> []
      | Some alt \<Rightarrow> fold (scope_requirement stored) alt [])"

definition scopeContext :: "js_members \<Rightarrow> requirement list list option \<Rightarrow> js_members" where
  "scopeContext stored details =
     (case details of
        None \<Rightarrow> foldl (\<lambda>out m. assign_member (fst m) (snd m) out) [] stored
      | Some alternatives \<Rightarrow> scope_alternatives stored alternatives)"

section \<open>The resolver of a store\<close>

definition durable_alternatives :: "requirement list list \<Rightarrow> requirement list list" where
  "durable_alternatives = filter (\<lambda>alt. alt \<noteq> [] \<and> list_all (\<lambda>r. rq_durable r = JBool True) alt)"

definition released :: "(string \<Rightarrow> js_members option) \<Rightarrow> string \<Rightarrow> requirement list list \<Rightarrow> js_members option" where
  "released get key alternatives =
     (case get key of
        None \<Rightarrow> None
      | Some ctx \<Rightarrow>
          if contextSatisfies ctx alternatives then Some (scopeContext ctx (Some alternatives)) else None)"

definition storeContextResolver ::
  "endpoint_parser \<Rightarrow> (string \<Rightarrow> js_members option) \<Rightarrow> challenge \<Rightarrow> js_members option" where
  "storeContextResolver new_url get details =
     (let reusable = durable_alternatives (ch_alternatives details);
          configOnly = filter (list_all (\<lambda>r. rq_type r = ''config.value'')) reusable;
          credentialBearing = filter (list_ex (\<lambda>r. rq_type r \<noteq> ''config.value'')) reusable;
          exact = (if configOnly \<noteq> [] \<and> ch_target details \<noteq> [] then released get (ch_target details) configOnly
                   else None);
          key = normalizeEndpoint new_url (ch_target details) in
      if reusable = [] then None
      else
        case exact of
          Some out \<Rightarrow> Some out
        | None \<Rightarrow> if credentialBearing = [] \<or> key = [] then None else released get key credentialBearing)"

section \<open>Lemmas on the released context\<close>

definition entry :: "js_members \<Rightarrow> string \<Rightarrow> string \<Rightarrow> jsval option" where
  "entry out field n = map_of (record_field (JObj out) field) n"

definition entry_fields :: "string list" where
  "entry_fields = [''credentials'', ''apiKeys'', ''configuration'']"

lemma map_of_put_entry:
  assumes "field \<in> set entry_fields"
  shows "g \<noteq> field \<Longrightarrow> map_of (put_entry field n v out) g = map_of out g"
    and "map_of (put_entry field n v out) field = Some (JObj (define_member n v (record_field (JObj out) field)))"
proof -
  have "field \<noteq> ''__proto__''" using assms by (auto simp: entry_fields_def)
  then show "g \<noteq> field \<Longrightarrow> map_of (put_entry field n v out) g = map_of out g"
    and "map_of (put_entry field n v out) field = Some (JObj (define_member n v (record_field (JObj out) field)))"
    by (simp_all add: put_entry_def map_of_assign_member)
qed

lemma entry_put_entry:
  assumes "field \<in> set entry_fields"
  shows "entry (put_entry field n v out) g m =
    (if g = field then (if m = n then Some v else entry out field m) else entry out g m)"
  using map_of_put_entry(1) [OF assms, of g n v out] map_of_put_entry(2) [OF assms, of n v out]
  by (cases "g = field") (simp_all add: entry_def record_field_def member_of_def map_of_define_member)

lemma map_of_copy_field:
  "f \<noteq> ''__proto__'' \<Longrightarrow>
     map_of (copy_field stored f out) g = (if g = f \<and> has_member stored f then map_of stored f else map_of out g)"
  by (auto simp: copy_field_def map_of_assign_member member_of_def has_member_iff)

lemma map_of_copy_field_cases:
  "map_of (copy_field stored f out) g = map_of out g \<or>
   (g = f \<and> map_of (copy_field stored f out) g = map_of stored f)"
proof (cases "f = ''__proto__''")
  case True
  then show ?thesis
    by (auto simp: copy_field_def assign_member_def map_of_define_member member_of_def has_member_iff split: if_splits)
qed (auto simp: map_of_copy_field)

lemma entry_copy_field: "g \<noteq> f \<Longrightarrow> entry (copy_field stored f out) g m = entry out g m"
  using map_of_copy_field_cases [of stored f out g] by (simp add: entry_def record_field_def member_of_def)

lemma map_of_copy_fields:
  "map_of (fold (copy_field stored) fs out) g = map_of out g \<or>
   (g \<in> set fs \<and> map_of (fold (copy_field stored) fs out) g = map_of stored g)"
proof (induction fs arbitrary: out)
  case (Cons f fs)
  show ?case
    using map_of_copy_field_cases [of stored f out g] Cons.IH [of "copy_field stored f out"]
    by (simp only: fold.simps comp_def list.set insert_iff) (elim disjE conjE; simp)
qed simp

lemma entry_copy_fields: "g \<notin> set fs \<Longrightarrow> entry (fold (copy_field stored) fs out) g m = entry out g m"
  by (induction fs arbitrary: out) (auto simp: entry_copy_field)

section \<open>Least privilege\<close>

text \<open>The fields a requirement may release.\<close>

definition release_fields :: "requirement \<Rightarrow> string list" where
  "release_fields req =
     (if rq_type req = ''config.value'' then [''configuration'']
      else family_fields (rq_type req) @
        (if requirement_name req \<noteq> None \<and> starts_with ''auth.'' (rq_type req) then [''credentials''] else []))"

text \<open>
  A path below a configuration point is asked for when it continues the pointer of a requirement on the
  point, and leads there when the pointer continues it.  An extension requirement of the type
  \<open>configuration\<close> asks for the whole field.
\<close>

definition config_asked :: "requirement set \<Rightarrow> string \<Rightarrow> string list \<Rightarrow> bool" where
  "config_asked A point ts \<longleftrightarrow>
     (\<exists>req\<in>A. rq_type req = ''configuration'' \<or>
        rq_type req = ''config.value'' \<and> str_or (rq_point req) [] = point \<and>
        (\<exists>p. configurationPointerTokens (str_or (rq_path req) []) = Some p \<and> prefix p ts))"

definition config_leads :: "requirement set \<Rightarrow> string \<Rightarrow> string list \<Rightarrow> bool" where
  "config_leads A point ts \<longleftrightarrow>
     config_asked A point ts \<or>
     (\<exists>req\<in>A. rq_type req = ''config.value'' \<and> str_or (rq_point req) [] = point \<and>
        (\<exists>p. configurationPointerTokens (str_or (rq_path req) []) = Some p \<and> strict_prefix ts p))"

text \<open>
  What may stand at a path: the stored value, when the path is asked for; an object that only leads
  further, where the stored context has an object too.
\<close>

definition config_at :: "js_members \<Rightarrow> requirement set \<Rightarrow> string \<Rightarrow> string list \<Rightarrow> jsval \<Rightarrow> bool" where
  "config_at stored A point ts w \<longleftrightarrow>
     (let there = value_at (get_object (record_field (JObj stored) ''configuration'') point) ts in
      if as_object w = None then config_asked A point ts \<and> there = Some w
      else config_leads A point ts \<and> (\<exists>ms. there = Some (JObj ms)))"

definition entry_ok :: "js_members \<Rightarrow> requirement set \<Rightarrow> string \<Rightarrow> string \<Rightarrow> jsval \<Rightarrow> bool" where
  "entry_ok stored A F n v \<longleftrightarrow>
     (if F = ''configuration'' then \<forall>ts w. value_at v ts = Some w \<longrightarrow> config_at stored A n ts w
      else
        (\<exists>req\<in>A. rq_type req = F \<or>
           requirement_name req = Some n \<and>
           (if F = ''apiKeys'' then rq_type req = ''auth.apiKey'' else starts_with ''auth.'' (rq_type req))) \<and>
        v = get_object (record_field (JObj stored) F) n)"

text \<open>
  Every field belongs to a requirement and has the stored value; in the three fields that hold entries
  every entry does.
\<close>

definition least_privilege :: "js_members \<Rightarrow> requirement set \<Rightarrow> js_members \<Rightarrow> bool" where
  "least_privilege stored A out \<longleftrightarrow>
     (\<forall>f v. map_of out f = Some v \<longrightarrow>
        (\<exists>req\<in>A. f \<in> set (release_fields req)) \<and>
        (map_of stored f = Some v \<or> f \<in> set entry_fields \<and> as_object v \<noteq> None)) \<and>
     (\<forall>F\<in>set entry_fields. \<forall>n v. entry out F n = Some v \<longrightarrow> entry_ok stored A F n v)"

lemma least_privilege_put:
  assumes "least_privilege stored A out" and "req \<in> A" and "field \<in> set entry_fields"
    and "field \<in> set (release_fields req)" and "entry_ok stored A field n v"
  shows "least_privilege stored A (put_entry field n v out)"
  unfolding least_privilege_def
proof (intro conjI allI impI ballI)
  fix f w assume f: "map_of (put_entry field n v out) f = Some w"
  show "\<exists>req\<in>A. f \<in> set (release_fields req)"
    using assms f map_of_put_entry(1) [OF assms(3), of f] by (cases "f = field") (auto simp: least_privilege_def)
  show "map_of stored f = Some w \<or> f \<in> set entry_fields \<and> as_object w \<noteq> None"
    using assms(1,3) f map_of_put_entry(1) [OF assms(3), of f] map_of_put_entry(2) [OF assms(3), of n v out]
    by (cases "f = field") (auto simp: least_privilege_def)
next
  fix F m w assume F: "F \<in> set entry_fields" "entry (put_entry field n v out) F m = Some w"
  then show "entry_ok stored A F m w"
    using assms(1,5) entry_put_entry [OF assms(3), of n v out F m]
    by (auto simp: least_privilege_def split: if_splits)
qed

lemma entry_ok_whole:
  assumes "req \<in> A" and "rq_type req = F" and "entry stored F n = Some v"
  shows "entry_ok stored A F n v"
  using assms by (auto simp: entry_ok_def entry_def get_object_own config_at_def config_asked_def config_leads_def Let_def)

lemma least_privilege_copy:
  assumes "least_privilege stored A out" and "req \<in> A" and "set fs \<subseteq> set (release_fields req)"
    and "\<And>f. f \<in> set fs \<Longrightarrow> f \<in> set entry_fields \<Longrightarrow> rq_type req = f"
  shows "least_privilege stored A (fold (copy_field stored) fs out)"
  unfolding least_privilege_def
proof (intro conjI allI impI ballI)
  fix f w assume f: "map_of (fold (copy_field stored) fs out) f = Some w"
  consider "map_of out f = Some w" | "f \<in> set fs" "map_of stored f = Some w"
    using map_of_copy_fields [of stored fs out f] f by auto
  note kinds = this
  show "\<exists>req\<in>A. f \<in> set (release_fields req)"
    by (rule kinds) (use assms in \<open>auto simp: least_privilege_def\<close>)
  show "map_of stored f = Some w \<or> f \<in> set entry_fields \<and> as_object w \<noteq> None"
    by (rule kinds) (use assms in \<open>auto simp: least_privilege_def\<close>)
next
  fix F n w assume F: "F \<in> set entry_fields" "entry (fold (copy_field stored) fs out) F n = Some w"
  consider "map_of (fold (copy_field stored) fs out) F = map_of out F"
    | "F \<in> set fs" "map_of (fold (copy_field stored) fs out) F = map_of stored F"
    using map_of_copy_fields [of stored fs out F] by blast
  then show "entry_ok stored A F n w"
  proof cases
    case 1
    then have "entry out F n = Some w" using F(2) by (simp add: entry_def record_field_def member_of_def)
    then show ?thesis using assms(1) F(1) by (simp add: least_privilege_def)
  next
    case 2
    then have "entry stored F n = Some w" using F(2) by (simp add: entry_def record_field_def member_of_def)
    then show ?thesis using entry_ok_whole assms(2,4) 2(1) F(1) by blast
  qed
qed

lemma family_fields_entry:
  "f \<in> set (family_fields type) \<Longrightarrow> f \<in> set entry_fields \<Longrightarrow> type = ''auth.apiKey'' \<or> type = f"
  by (auto simp: family_fields_def REQUIREMENT_FAMILY_FIELDS_def entry_fields_def split: if_splits)

text \<open>The paths of a fragment and of a merge.\<close>

lemma value_at_append: "value_at v (p @ r) = (case value_at v p of None \<Rightarrow> None | Some w \<Rightarrow> value_at w r)"
  by (induction v p rule: value_at.induct) (auto split: option.splits)

lemma value_at_strict_prefix:
  "value_at v p = Some w \<Longrightarrow> strict_prefix ts p \<Longrightarrow> \<exists>ms. value_at v ts = Some (JObj ms)"
proof -
  assume w: "value_at v p = Some w" and "strict_prefix ts p"
  then obtain z zs where p: "p = ts @ z # zs" by (auto elim: strict_prefixE')
  with w obtain u where "value_at v ts = Some u" "value_at u (z # zs) = Some w"
    by (auto simp: value_at_append split: option.splits)
  then show ?thesis by (cases u) auto
qed

lemma value_at_fragment:
  "value_at (foldr (\<lambda>t f. JObj [(t, f)]) p v) ts = Some w \<Longrightarrow>
     (\<exists>r. ts = p @ r \<and> value_at v r = Some w) \<or> (strict_prefix ts p \<and> as_object w \<noteq> None)"
proof (induction p arbitrary: ts)
  case (Cons t p)
  show ?case
  proof (cases ts)
    case (Cons u us)
    then show ?thesis using Cons.prems Cons.IH [of us] by (auto split: if_splits)
  qed (use Cons.prems in auto)
qed simp

lemma wf_fragment: "wf_val v \<Longrightarrow> wf_val (foldr (\<lambda>t f. JObj [(t, f)]) p v)"
  by (induction p) auto

lemma wf_value_at: "value_at v ts = Some w \<Longrightarrow> wf_val v \<Longrightarrow> wf_val w"
proof (induction v ts rule: value_at.induct)
  case (2 v t ts)
  then obtain ms u where "v = JObj ms" "map_of ms t = Some u" "value_at u ts = Some w"
    by (auto split: option.splits)
  with 2 show ?case by (auto simp: list_all_iff dest!: map_of_SomeD)
qed simp

definition within :: "(string list \<Rightarrow> jsval \<Rightarrow> bool) \<Rightarrow> string list \<Rightarrow> jsval \<Rightarrow> bool" where
  "within ok q v \<longleftrightarrow> (\<forall>ts w. value_at v ts = Some w \<longrightarrow> ok (q @ ts) w)"

lemma within_here: "within ok q v \<Longrightarrow> ok q v"
  unfolding within_def by (metis append.right_neutral value_at.simps(1))

lemma within_member:
  assumes "within ok q (JObj ms)" and "map_of ms k = Some v"
  shows "within ok (q @ [k]) v"
  unfolding within_def
proof (intro allI impI)
  fix ts w assume "value_at v ts = Some w"
  then have "value_at (JObj ms) (k # ts) = Some w" using assms(2) by simp
  then show "ok ((q @ [k]) @ ts) w" using assms(1) by (simp add: within_def)
qed

lemma within_object:
  assumes "ok q (JObj ms)" and "\<And>k v. map_of ms k = Some v \<Longrightarrow> within ok (q @ [k]) v"
  shows "within ok q (JObj ms)"
  unfolding within_def
proof (intro allI impI)
  fix ts w assume w: "value_at (JObj ms) ts = Some w"
  show "ok (q @ ts) w"
  proof (cases ts)
    case (Cons k us)
    then obtain v where "map_of ms k = Some v" "value_at v us = Some w" using w by (auto split: option.splits)
    then show ?thesis using assms(2) Cons unfolding within_def by fastforce
  qed (use assms(1) w in auto)
qed

lemma merge_within:
  assumes "\<And>ts a b. ok ts (JObj a) \<Longrightarrow> ok ts (JObj b)"
  shows "within ok q (JObj l) \<Longrightarrow> within ok q (JObj r) \<Longrightarrow> wf_val (JObj r) \<Longrightarrow>
    within ok q (JObj (mergeConfigurationFragment l r))"
proof (induction l r arbitrary: q rule: mergeConfigurationFragment.induct)
  case (2 left k v ms)
  have kind: "ok p (JObj b)" if "within ok p (JObj a)" for p a b using assms [OF within_here [OF that]] .
  let ?x = "case (get_object left k, v) of
      (JObj prior, JObj w) \<Rightarrow> JObj (mergeConfigurationFragment prior w) | _ \<Rightarrow> v"
  have v: "within ok (q @ [k]) v" using within_member [OF 2(4), of k v] by simp
  have x: "within ok (q @ [k]) ?x"
  proof (cases "\<exists>prior w. get_object left k = JObj prior \<and> v = JObj w")
    case True
    then obtain prior w where pw: "get_object left k = JObj prior" "v = JObj w" by blast
    have "within ok (q @ [k]) (JObj prior)"
    proof (cases "map_of left k")
      case None
      then have "prior = []" using pw(1) by (simp add: get_object_def split: if_splits)
      then show ?thesis using within_object [of ok "q @ [k]" "[]"] kind [OF v [unfolded pw(2)]] by simp
    next
      case (Some u)
      then show ?thesis using pw(1) within_member [OF 2(3)] by (simp add: get_object_def)
    qed
    then show ?thesis using 2(1) [OF _ pw, of "q @ [k]"] 2(5) v pw by simp
  next
    case False
    then show ?thesis using v by (auto split: jsval.splits)
  qed
  have "within ok q (JObj (assign_member k ?x left))"
  proof (rule within_object)
    show "ok q (JObj (assign_member k ?x left))" using kind [OF 2(3)] .
    fix m u assume "map_of (assign_member k ?x left) m = Some u"
    then show "within ok (q @ [m]) u"
      using x within_member [OF 2(3), of m u]
      by (auto simp: assign_member_def map_of_define_member split: if_splits)
  qed
  moreover have "within ok q (JObj ms)"
  proof (rule within_object)
    show "ok q (JObj ms)" using kind [OF 2(4)] .
    fix m u assume u: "map_of ms m = Some u"
    then have "m \<in> fst ` set ms" by (force dest!: map_of_SomeD)
    then have "m \<noteq> k" using 2(5) by auto
    then show "within ok (q @ [m]) u" using within_member [OF 2(4), of m u] u by simp
  qed
  ultimately show ?case using 2(2) [of q] 2(5) by simp
qed simp

lemma config_entry_within: "entry_ok stored A ''configuration'' n v = within (config_at stored A n) [] v"
  by (simp add: entry_ok_def within_def)

lemma config_at_object: "config_at stored A n ts (JObj a) \<Longrightarrow> config_at stored A n ts (JObj b)"
  by (simp add: config_at_def Let_def)

lemma merge_config_within:
  "within (config_at stored A n) q (JObj l) \<Longrightarrow> within (config_at stored A n) q (JObj r) \<Longrightarrow> wf_val (JObj r) \<Longrightarrow>
     within (config_at stored A n) q (JObj (mergeConfigurationFragment l r))"
  by (rule merge_within) (rule config_at_object)

lemma fragment_within:
  assumes "req \<in> A" and "rq_type req = ''config.value''"
    and p: "configurationPointerTokens (str_or (rq_path req) []) = Some p"
    and v: "value_at (get_object (record_field (JObj stored) ''configuration'') (str_or (rq_point req) [])) p = Some v"
  shows "within (config_at stored A (str_or (rq_point req) [])) [] (foldr (\<lambda>t f. JObj [(t, f)]) p v)"
  unfolding within_def
proof (intro allI impI)
  let ?point = "str_or (rq_point req) []"
  fix ts w assume "value_at (foldr (\<lambda>t f. JObj [(t, f)]) p v) ts = Some w"
  from value_at_fragment [OF this]
  show "config_at stored A ?point ([] @ ts) w"
  proof (elim disjE exE conjE)
    fix r assume r: "ts = p @ r" "value_at v r = Some w"
    have "config_asked A ?point ts" using assms(1,2) p r(1) unfolding config_asked_def by auto
    then show ?thesis
      using v r by (cases w) (auto simp: config_at_def config_leads_def Let_def value_at_append)
  next
    assume s: "strict_prefix ts p" "as_object w \<noteq> None"
    have "config_leads A ?point ts" using assms(1,2) p s(1) unfolding config_leads_def by auto
    then show ?thesis using s(2) value_at_strict_prefix [OF v s(1)] by (auto simp: config_at_def Let_def)
  qed
qed

lemma prior_within:
  assumes "least_privilege stored A out" and "within (config_at stored A n) [] (JObj ms)"
  shows "within (config_at stored A n) []
    (JObj (case as_object (get_object (record_field (JObj out) ''configuration'') n) of None \<Rightarrow> [] | Some ms \<Rightarrow> ms))"
proof -
  have empty: "within (config_at stored A n) [] (JObj [])"
    using within_object [of _ "[]" "[]"] config_at_object [OF within_here [OF assms(2)]] by simp
  show ?thesis
  proof (cases "entry out ''configuration'' n")
    case None
    then show ?thesis using empty by (auto simp: entry_def get_object_def)
  next
    case (Some u)
    then have "within (config_at stored A n) [] u"
      using assms(1) by (simp add: least_privilege_def config_entry_within [symmetric] entry_fields_def)
    then show ?thesis using Some empty by (cases u) (simp_all add: entry_def get_object_own)
  qed
qed

lemma wf_own_member: "wf_val (JObj ms) \<Longrightarrow> map_of ms k = Some v \<Longrightarrow> wf_val v"
  by (auto simp: list_all_iff dest!: map_of_SomeD)

lemma wf_get_object: "wf_val (JObj ms) \<Longrightarrow> wf_val (get_object ms k)"
  using wf_own_member [of ms k] by (auto simp: get_object_def split: option.split)

lemma wf_record_field:
  assumes "wf_val (JObj ms)"
  shows "wf_val (JObj (record_field (JObj ms) k))"
proof (cases "as_object (member_of ms k)")
  case (Some ns)
  then have "map_of ms k = Some (JObj ns)" by (simp add: member_of_def split: option.splits)
  from wf_own_member [OF assms this] Some show ?thesis by (simp add: record_field_def)
qed (simp add: record_field_def)

lemma scope_config_least_privilege:
  assumes lp: "least_privilege stored A out" and req: "req \<in> A" "rq_type req = ''config.value''"
    and wf: "wf_val (JObj stored)"
  shows "least_privilege stored A (scope_config stored req out)"
proof -
  define point path where "point = str_or (rq_point req) []" and "path = str_or (rq_path req) []"
  define there where "there = get_object (record_field (JObj stored) ''configuration'') point"
  have put: "least_privilege stored A (put_entry ''configuration'' point v out)"
    if "within (config_at stored A point) [] v" for v
    using that req by (intro least_privilege_put [OF lp req(1)]) (auto simp: config_entry_within release_fields_def entry_fields_def)
  show ?thesis
  proof (cases "as_object (member_of stored ''configuration'') = None \<or> configurationValueAt there path = None")
    case True
    then show ?thesis
      using lp by (auto simp: scope_config_def Let_def point_def path_def there_def record_field_def split: option.split)
  next
    case False
    then obtain conf v where conf: "member_of stored ''configuration'' = JObj conf" "there = get_object conf point"
      and v: "configurationValueAt there path = Some v"
      by (auto simp: there_def record_field_def)
    then obtain p where p: "configurationPointerTokens path = Some p" "value_at there p = Some v"
      by (auto simp: configurationValueAt_def split: option.splits if_splits)
    have f: "within (config_at stored A point) [] (foldr (\<lambda>t f. JObj [(t, f)]) p v)"
      using fragment_within [OF req] p unfolding point_def path_def there_def by blast
    show ?thesis
    proof (cases "path = []")
      case True
      then have "p = []" using p(1) by (simp add: configurationPointerTokens_def)
      then show ?thesis
        using put f p lp conf v True
        by (auto simp: scope_config_def Let_def point_def [symmetric] path_def [symmetric] split: option.split)
    next
      case nonempty: False
      then obtain t q where tq: "p = t # q"
        using p(1) by (cases p) (auto simp: configurationPointerTokens_def Let_def split: if_splits)
      have "wf_val (JObj [(t, foldr (\<lambda>t f. JObj [(t, f)]) q v)])"
        using wf_fragment wf_value_at [OF p(2)] wf_get_object wf_record_field [OF wf] by (simp add: there_def)
      then have "least_privilege stored A (put_entry ''configuration'' point (JObj (mergeConfigurationFragment
          (case as_object (get_object (record_field (JObj out) ''configuration'') point) of None \<Rightarrow> [] | Some ms \<Rightarrow> ms)
          [(t, foldr (\<lambda>t f. JObj [(t, f)]) q v)])) out)"
        using f unfolding tq foldr.simps comp_def by (intro put merge_config_within prior_within [OF lp])
      then show ?thesis
        using lp v p(1) tq conf nonempty
        by (simp add: scope_config_def Let_def point_def [symmetric] path_def [symmetric] configurationFragment_def)
    qed
  qed
qed

lemma scope_requirement_least_privilege:
  assumes "least_privilege stored A out" and "req \<in> A" and "wf_val (JObj stored)"
  shows "least_privilege stored A (scope_requirement stored req out)"
proof -
  note lp = assms(1,2)
  have named: "entry_ok stored A F n v"
    if "requirement_name req = Some n" "F = ''credentials'' \<and> starts_with ''auth.'' (rq_type req) \<or>
        F = ''apiKeys'' \<and> rq_type req = ''auth.apiKey''" "v = get_object (record_field (JObj stored) F) n" for F n v
    using that assms(2) by (auto simp: entry_ok_def)
  consider (apiKey) "rq_type req = ''auth.apiKey''" | (config) "rq_type req = ''config.value''"
    | (other) "rq_type req \<noteq> ''auth.apiKey''" "rq_type req \<noteq> ''config.value''" by blast
  then show ?thesis
  proof cases
    case apiKey
    have auth: "starts_with ''auth.'' (rq_type req)" using apiKey by (simp add: starts_with_def)
    have fields: "''apiKey'' \<in> set (release_fields req)" "''apiKeys'' \<in> set (release_fields req)"
      "requirement_name req \<noteq> None \<Longrightarrow> ''credentials'' \<in> set (release_fields req)"
      using apiKey auth by (auto simp: release_fields_def family_fields_def REQUIREMENT_FAMILY_FIELDS_def)
    have copy: "least_privilege stored A (copy_field stored ''apiKey'' out)"
      using least_privilege_copy [OF lp, of "[''apiKey'']"] fields by (simp add: entry_fields_def)
    have put: "least_privilege stored A (put_entry f n (get_object (record_field (JObj stored) f) n) out)"
      if "f = ''credentials'' \<or> f = ''apiKeys''" "as_str (rq_name req) = Some n" "n \<noteq> []" for f n
      using that fields apiKey auth
      by (intro least_privilege_put [OF lp] named) (auto simp: entry_fields_def requirement_name_def)
    have keys: "record_field (JObj stored) ''apiKeys'' = ms" if "as_object (member_of stored ''apiKeys'') = Some ms" for ms
      using that by (simp add: record_field_def)
    show ?thesis
      using copy put keys apiKey
      by (auto simp: scope_requirement_def admitApiKey_def Let_def split: option.splits)
  next
    case config
    then show ?thesis using scope_config_least_privilege [OF lp _ assms(3)] by (simp add: scope_requirement_def)
  next
    case other
    have flat: "least_privilege stored A (fold (copy_field stored) (family_fields (rq_type req)) out)"
      using other family_fields_entry by (intro least_privilege_copy [OF lp]) (auto simp: release_fields_def)
    have put: "least_privilege stored A (put_entry ''credentials'' n (get_object (record_field (JObj stored) ''credentials'') n) out)"
      if "requirement_name req = Some n" "starts_with ''auth.'' (rq_type req)" for n
      using that other
      by (intro least_privilege_put [OF lp] named) (auto simp: entry_fields_def release_fields_def)
    have creds: "record_field (JObj stored) ''credentials'' = ms"
      if "as_object (member_of stored ''credentials'') = Some ms" for ms
      using that by (simp add: record_field_def)
    show ?thesis
      using flat put creds other by (auto simp: scope_requirement_def Let_def split: option.splits)
  qed
qed

text \<open>
  C9. What is released of a stored context (one whose objects have each key once, as objects do) is the
  least a challenge needs: nothing unless the context satisfies an alternative.  Otherwise it serves the
  first alternative that is satisfied: every field belongs to one of its requirements and has the stored
  value; in \<open>credentials\<close> and \<open>apiKeys\<close> only the entries under the names it asks for stand, each with its
  stored value; and in \<open>configuration\<close> only the points it names, and in a point only what the pointer of
  a requirement on that point leads to, again with the stored values.
\<close>
theorem scoped_context_is_least_privilege:
  assumes "wf_val (JObj stored)"
  shows "case List.find (alternative_satisfied stored alternatives) alternatives of
      None \<Rightarrow> scopeContext stored (Some alternatives) = []
    | Some alt \<Rightarrow> least_privilege stored (set alt) (scopeContext stored (Some alternatives))"
proof (cases "List.find (alternative_satisfied stored alternatives) alternatives")
  case None
  then show ?thesis by (simp add: scopeContext_def scope_alternatives_def)
next
  case (Some alt)
  have "least_privilege stored (set alt) (fold (scope_requirement stored) alt [])"
  proof (rule fold_invariant [where Q = "\<lambda>req. req \<in> set alt"])
    show "least_privilege stored (set alt) []" by (simp add: least_privilege_def entry_def record_field_def member_of_def)
  qed (use assms in \<open>auto intro: scope_requirement_least_privilege\<close>)
  then show ?thesis using Some by (simp add: scopeContext_def scope_alternatives_def)
qed

definition example_config_requirement :: requirement where
  "example_config_requirement =
     \<lparr> rq_type = ''config.value'', rq_name = JUndefined, rq_point = JStr ''server'', rq_path = JStr ''/vars/region'',
       rq_schema = JUndefined, rq_durable = JBool True \<rparr>"

definition example_stored_context :: js_members where
  "example_stored_context =
     [(''bearerToken'', JStr ''t''),
      (''configuration'', JObj
         [(''security'', JNum ''0''),
          (''server'', JObj [(''index'', JNum ''1''), (''vars'', JObj [(''region'', JStr ''eu''), (''tier'', JStr ''x'')])])])]"

lemma scoped_context_is_least_privilege_witness:
  "least_privilege example_stored_context {example_config_requirement}
     (scopeContext example_stored_context (Some [[example_config_requirement]])) \<and>
   scopeContext example_stored_context (Some [[example_config_requirement]]) =
     [(''configuration'', JObj [(''server'', JObj [(''vars'', JObj [(''region'', JStr ''eu'')])])])]"
proof
  have "List.find (alternative_satisfied example_stored_context [[example_config_requirement]]) [[example_config_requirement]] =
      Some [example_config_requirement]"
    by code_simp
  moreover have "wf_val (JObj example_stored_context)" by code_simp
  ultimately show "least_privilege example_stored_context {example_config_requirement}
     (scopeContext example_stored_context (Some [[example_config_requirement]]))"
    using scoped_context_is_least_privilege [of example_stored_context "[[example_config_requirement]]"] by simp
  show "scopeContext example_stored_context (Some [[example_config_requirement]]) =
     [(''configuration'', JObj [(''server'', JObj [(''vars'', JObj [(''region'', JStr ''eu'')])])])]"
    by code_simp
qed

section \<open>What is released is enough\<close>

definition entry_usable :: "string \<Rightarrow> jsval \<Rightarrow> bool" where
  "entry_usable type v =
     (if type = ''auth.basic'' then named_basic v
      else if type = ''auth.oauth2'' then nonempty_text (get_prop v ''accessToken'')
      else nonempty_text v)"

text \<open>What is stored under the name a credential requirement gives is a usable credential of its kind.\<close>

definition usable_names :: "js_members \<Rightarrow> requirement \<Rightarrow> bool" where
  "usable_names stored req \<longleftrightarrow>
     rq_type req \<in> {''auth.bearer'', ''auth.apiKey'', ''auth.basic'', ''auth.oauth2''} \<and>
     (case requirement_name req of
        None \<Rightarrow> True
      | Some n \<Rightarrow>
          n \<notin> set object_prototype_names \<and>
          (case entry stored ''credentials'' n of None \<Rightarrow> True | Some v \<Rightarrow> entry_usable (rq_type req) v) \<and>
          (rq_type req = ''auth.apiKey'' \<longrightarrow>
             (case entry stored ''apiKeys'' n of None \<Rightarrow> True | Some v \<Rightarrow> nonempty_text v)))"

definition taken_from :: "js_members \<Rightarrow> js_members \<Rightarrow> bool" where
  "taken_from stored out \<longleftrightarrow>
     (\<forall>f. f \<notin> set entry_fields \<longrightarrow> map_of out f = None \<or> map_of out f = map_of stored f) \<and>
     (\<forall>F n. F \<in> {''credentials'', ''apiKeys''} \<longrightarrow> entry out F n = None \<or> entry out F n = entry stored F n) \<and>
     distinct (map fst (record_field (JObj out) ''apiKeys''))"

text \<open>How one requirement is met by the output: through its name, or through the flat fields.\<close>

definition flat_fields :: "string \<Rightarrow> string list" where
  "flat_fields type = (if type = ''auth.apiKey'' then [''apiKey''] else family_fields type)"

definition named_in :: "js_members \<Rightarrow> requirement \<Rightarrow> string \<Rightarrow> jsval option" where
  "named_in ctx req F = (case requirement_name req of None \<Rightarrow> None | Some n \<Rightarrow> entry ctx F n)"

definition covered :: "js_members \<Rightarrow> requirement \<Rightarrow> js_members \<Rightarrow> bool" where
  "covered stored req out \<longleftrightarrow>
     (if named_in stored req ''credentials'' \<noteq> None
      then named_in out req ''credentials'' = named_in stored req ''credentials''
      else if rq_type req = ''auth.apiKey'' \<and> named_in stored req ''apiKeys'' \<noteq> None
      then named_in out req ''apiKeys'' = named_in stored req ''apiKeys''
      else \<forall>f\<in>set (flat_fields (rq_type req)). map_of stored f \<noteq> None \<longrightarrow> map_of out f = map_of stored f)"

lemma record_field_entry: "entry ctx F n = Some v \<Longrightarrow> \<exists>ms. map_of ctx F = Some (JObj ms) \<and> record_field (JObj ctx) F = ms"
  by (auto simp: entry_def record_field_def member_of_def split: option.splits)

lemma named_lookup:
  assumes "n \<notin> set object_prototype_names" and "n \<noteq> []"
  shows "contextNamedCredential (JObj ctx) (Some n) = (case entry ctx ''credentials'' n of None \<Rightarrow> JUndefined | Some v \<Rightarrow> v)"
  using assms
  by (auto simp: contextNamedCredential_def entry_def record_field_def get_object_def object_prototype_names_def split: option.splits)

lemma requirement_name_nonempty: "requirement_name req = Some n \<Longrightarrow> n \<noteq> []"
  by (auto simp: requirement_name_def split: if_splits)

lemma contextNamedCredential_None [simp]: "contextNamedCredential ctx None = JUndefined"
  by (simp add: contextNamedCredential_def)

definition release :: "js_members \<Rightarrow> requirement \<Rightarrow> js_members \<Rightarrow> js_members" where
  "release stored req out =
     (let n = the (requirement_name req) in
      case named_in stored req ''credentials'' of
        Some v \<Rightarrow> put_entry ''credentials'' n v out
      | None \<Rightarrow>
          (case (if rq_type req = ''auth.apiKey'' then named_in stored req ''apiKeys'' else None) of
             Some v \<Rightarrow> put_entry ''apiKeys'' n v out
           | None \<Rightarrow> fold (copy_field stored) (flat_fields (rq_type req)) out))"

lemma as_object_entry:
  "(case as_object (member_of ctx F) of None \<Rightarrow> None | Some ms \<Rightarrow> map_of ms n) = entry ctx F n"
  by (simp add: entry_def record_field_def split: option.split)

lemma get_object_plain: "n \<notin> set object_prototype_names \<Longrightarrow> get_object ms n = (case map_of ms n of None \<Rightarrow> JUndefined | Some v \<Rightarrow> v)"
  by (auto simp: get_object_def object_prototype_names_def split: option.splits)

lemma in_object_plain: "n \<notin> set object_prototype_names \<Longrightarrow> in_object n ms \<longleftrightarrow> map_of ms n \<noteq> None"
  by (auto simp: in_object_def has_member_iff)

lemma scope_apiKey:
  assumes "usable_names stored req" and "rq_type req = ''auth.apiKey''"
  shows "scope_requirement stored req out = release stored req out"
proof (cases "requirement_name req")
  case None
  then have "(if as_str (rq_name req) = Some [] then None else as_str (rq_name req)) = None"
    by (cases "rq_name req") (auto simp: requirement_name_def split: if_splits)
  then show ?thesis
    using assms(2) None by (simp add: scope_requirement_def admitApiKey_def release_def named_in_def flat_fields_def Let_def)
next
  case (Some n)
  then have name: "(if as_str (rq_name req) = Some [] then None else as_str (rq_name req)) = Some n"
    by (cases "rq_name req") (auto simp: requirement_name_def split: if_splits)
  have plain: "n \<notin> set object_prototype_names" using assms(1) Some by (simp add: usable_names_def)
  show ?thesis
  proof (cases "entry stored ''credentials'' n")
    case (Some v)
    have "nonempty_text v" using assms Some \<open>requirement_name req = Some n\<close> by (simp add: usable_names_def entry_usable_def)
    then show ?thesis
      using assms(2) name Some \<open>requirement_name req = Some n\<close> plain
      by (simp add: scope_requirement_def admitApiKey_def release_def named_in_def entry_def get_object_plain)
  next
    case none: None
    then have no: "\<not> nonempty_text (get_object (record_field (JObj stored) ''credentials'') n)"
      using plain by (simp add: entry_def get_object_plain)
    show ?thesis
    proof (cases "as_object (member_of stored ''apiKeys'')")
      case None
      then have "entry stored ''apiKeys'' n = None" by (simp add: entry_def record_field_def)
      then show ?thesis
        using assms(2) name none no None \<open>requirement_name req = Some n\<close>
        by (simp add: scope_requirement_def admitApiKey_def release_def named_in_def flat_fields_def Let_def)
    next
      case (Some ms)
      then have "entry stored ''apiKeys'' n = map_of ms n" by (simp add: entry_def record_field_def)
      then show ?thesis
        using assms(2) name none no Some \<open>requirement_name req = Some n\<close> plain
        by (cases "map_of ms n")
          (simp_all add: scope_requirement_def admitApiKey_def release_def named_in_def flat_fields_def Let_def
            in_object_plain get_object_plain)
    qed
  qed
qed

lemma scope_other:
  assumes "usable_names stored req" and "rq_type req \<noteq> ''auth.apiKey''"
  shows "scope_requirement stored req out = release stored req out"
proof -
  have auth: "rq_type req \<noteq> ''config.value''" "starts_with ''auth.'' (rq_type req)"
    using assms(1) by (auto simp: usable_names_def starts_with_def)
  show ?thesis
  proof (cases "requirement_name req")
    case None
    then show ?thesis
      using assms(2) auth by (simp add: scope_requirement_def release_def named_in_def flat_fields_def Let_def split: option.split)
  next
    case (Some n)
    then have plain: "n \<notin> set object_prototype_names" using assms(1) by (simp add: usable_names_def)
    show ?thesis
    proof (cases "as_object (member_of stored ''credentials'')")
      case None
      then have "entry stored ''credentials'' n = None" by (simp add: entry_def record_field_def)
      then show ?thesis
        using assms(2) auth Some None
        by (simp add: scope_requirement_def release_def named_in_def flat_fields_def Let_def)
    next
      case obj: (Some ms)
      then have "entry stored ''credentials'' n = map_of ms n" by (simp add: entry_def record_field_def)
      then show ?thesis
        using assms(2) auth Some obj plain
        by (cases "map_of ms n")
          (simp_all add: scope_requirement_def release_def named_in_def flat_fields_def Let_def
            in_object_plain get_object_plain)
    qed
  qed
qed

lemma scope_usable: "usable_names stored req \<Longrightarrow> scope_requirement stored req out = release stored req out"
  using scope_apiKey scope_other by blast

lemma flat_fields_plain:
  assumes "usable_names stored req" and "f \<in> set (flat_fields (rq_type req))"
  shows "f \<notin> set entry_fields" and "f \<noteq> ''__proto__''"
  using assms
  by (auto simp: usable_names_def flat_fields_def family_fields_def REQUIREMENT_FAMILY_FIELDS_def entry_fields_def)

text \<open>Every step draws from the stored context, keeps what is there and covers its requirement.\<close>

lemma map_of_copy_plain:
  "\<forall>f\<in>set fs. f \<noteq> ''__proto__'' \<Longrightarrow>
     map_of (fold (copy_field stored) fs out) g =
       (if g \<in> set fs \<and> map_of stored g \<noteq> None then map_of stored g else map_of out g)"
  by (induction fs arbitrary: out) (auto simp: map_of_copy_field has_member_iff)

lemma release_map_of:
  assumes "usable_names stored req" and "f \<notin> set entry_fields"
  shows "map_of (release stored req out) f = map_of out f \<or>
    (map_of stored f \<noteq> None \<and> map_of (release stored req out) f = map_of stored f)"
  using assms flat_fields_plain [OF assms(1)]
  by (auto simp: release_def Let_def map_of_put_entry(1) map_of_copy_plain entry_fields_def split: option.splits)

lemma named_in_name: "named_in stored req F = Some v \<Longrightarrow> \<exists>n. requirement_name req = Some n \<and> entry stored F n = Some v"
  by (auto simp: named_in_def split: option.splits)

lemma release_entry:
  assumes "usable_names stored req" and "F \<in> {''credentials'', ''apiKeys''}"
  shows "entry (release stored req out) F n = entry out F n \<or>
    (entry stored F n \<noteq> None \<and> entry (release stored req out) F n = entry stored F n)"
proof -
  have F: "F \<in> set entry_fields" using assms(2) by (auto simp: entry_fields_def)
  then have "F \<notin> set (flat_fields (rq_type req))" using flat_fields_plain(1) [OF assms(1)] by auto
  then show ?thesis
    by (auto simp: release_def Let_def entry_put_entry entry_copy_fields entry_fields_def
        split: option.splits if_splits dest!: named_in_name)
qed

lemma release_drawn:
  assumes "usable_names stored req" and "taken_from stored out"
  shows "taken_from stored (release stored req out)"
proof -
  have "distinct (map fst (record_field (JObj (release stored req out)) ''apiKeys''))"
  proof -
    have put: "distinct (map fst (record_field (JObj (put_entry F n v out)) ''apiKeys''))" if "F \<in> set entry_fields" for F n v
      using assms(2) map_of_put_entry(1) [OF that, of "''apiKeys''" n v out] map_of_put_entry(2) [OF that, of n v out]
      by (cases "F = ''apiKeys''") (simp_all add: record_field_def member_of_def taken_from_def distinct_define_member)
    have "map_of (fold (copy_field stored) (flat_fields (rq_type req)) out) ''apiKeys'' = map_of out ''apiKeys''"
      using flat_fields_plain [OF assms(1)] by (subst map_of_copy_plain) (auto simp: entry_fields_def)
    then have copied: "record_field (JObj (fold (copy_field stored) (flat_fields (rq_type req)) out)) ''apiKeys'' =
        record_field (JObj out) ''apiKeys''"
      by (simp add: record_field_def member_of_def)
    have fresh: "distinct (map fst (record_field (JObj out) ''apiKeys''))" using assms(2) by (simp add: taken_from_def)
    show ?thesis
    proof (cases "named_in stored req ''credentials''")
      case (Some v)
      then show ?thesis using put by (simp add: release_def entry_fields_def)
    next
      case none: None
      show ?thesis
        using put copied fresh none
        by (cases "if rq_type req = ''auth.apiKey'' then named_in stored req ''apiKeys'' else None")
          (simp_all add: release_def Let_def entry_fields_def)
    qed
  qed
  then show ?thesis
    using assms(2) release_map_of [OF assms(1), of _ out] release_entry [OF assms(1), of _ out]
    unfolding taken_from_def by metis
qed

lemma release_covers: "usable_names stored req \<Longrightarrow> covered stored req (release stored req out)"
  using flat_fields_plain [of stored req]
  by (auto simp: covered_def release_def Let_def named_in_def entry_put_entry entry_fields_def map_of_copy_plain
      split: option.splits)

lemma release_keeps_cover:
  assumes "covered stored r out" and "usable_names stored r" and "usable_names stored req"
  shows "covered stored r (release stored req out)"
proof -
  have ent: "named_in (release stored req out) r F = named_in stored r F"
    if "named_in out r F = named_in stored r F" "F \<in> {''credentials'', ''apiKeys''}" for F
  proof (cases "requirement_name r")
    case (Some n)
    then show ?thesis using release_entry [OF assms(3) that(2), of out n] that(1) by (auto simp: named_in_def)
  qed (simp add: named_in_def)
  have fld: "map_of (release stored req out) f = map_of stored f"
    if "map_of out f = map_of stored f" "f \<in> set (flat_fields (rq_type r))" for f
    using that release_map_of [OF assms(3) flat_fields_plain(1) [OF assms(2) that(2)], of out] by auto
  show ?thesis using assms(1) ent fld unfolding covered_def by (auto split: if_splits)
qed

lemma fold_release:
  assumes "\<forall>r\<in>set rs. usable_names stored r"
  shows "taken_from stored out \<Longrightarrow>
    taken_from stored (fold (release stored) rs out) \<and>
    (\<forall>r\<in>set rs. covered stored r (fold (release stored) rs out)) \<and>
    (\<forall>r. usable_names stored r \<longrightarrow> covered stored r out \<longrightarrow> covered stored r (fold (release stored) rs out))"
  using assms
proof (induction rs arbitrary: out)
  case (Cons r rs)
  then have "usable_names stored r" by simp
  with Cons release_drawn [OF this Cons.prems(1)] release_covers [OF this, of out] release_keeps_cover
  show ?case by (metis fold_simps(2) list.set_intros(2) set_ConsD)
qed simp

lemma fold_scope_release:
  "\<forall>r\<in>set rs. usable_names stored r \<Longrightarrow> fold (scope_requirement stored) rs out = fold (release stored) rs out"
  by (induction rs arbitrary: out) (auto simp: scope_usable)

lemma has_assign_member: "has_member (assign_member l v out) k \<Longrightarrow> k = l \<or> has_member out k"
  by (auto simp: assign_member_def has_member_iff map_of_define_member split: if_splits)

lemma string_members_keys: "has_member (string_members ms out) k \<Longrightarrow> has_member ms k \<or> has_member out k"
proof (induction ms out rule: string_members.induct)
  case (2 l v ms out)
  then show ?case using has_assign_member [of l v out k] by (auto split: if_splits)
qed simp

lemma apiKeys_lookup:
  assumes "n \<notin> set object_prototype_names" and "truthy (get_object (contextApiKeys (JObj ctx)) n)"
  shows "entry ctx ''apiKeys'' n \<noteq> None"
proof -
  have "has_member (contextApiKeys (JObj ctx)) n"
    using assms by (auto simp: get_object_plain has_member_iff split: option.splits)
  then have "has_member (record_field (JObj ctx) ''apiKeys'') n"
    using string_members_keys [of "record_field (JObj ctx) ''apiKeys''" "[]" n]
    by (simp add: contextApiKeys_def extractStringMap_def)
  then show ?thesis by (simp add: entry_def has_member_iff)
qed

lemma apiKeys_truthy:
  assumes "n \<notin> set object_prototype_names" and "distinct (map fst (record_field (JObj ctx) ''apiKeys''))"
    and "entry ctx ''apiKeys'' n = Some (JStr s)" and "s \<noteq> []"
  shows "truthy (get_object (contextApiKeys (JObj ctx)) n)"
proof -
  have "n \<noteq> ''__proto__''" using assms(1) by (auto simp: object_prototype_names_def)
  then have "map_of (contextApiKeys (JObj ctx)) n = Some (JStr s)"
    using string_members_map_of [OF _ assms(2), of n "[]"] assms(3)
    by (simp add: contextApiKeys_def extractStringMap_def entry_def)
  then show ?thesis using assms(4) by (simp add: get_object_own)
qed

text \<open>A covered requirement is satisfied by the output as it is by the stored context.\<close>

lemma credential_at:
  assumes "usable_names stored req"
  shows "contextNamedCredential (JObj ctx) (requirement_name req) =
    (case named_in ctx req ''credentials'' of None \<Rightarrow> JUndefined | Some v \<Rightarrow> v)"
proof (cases "requirement_name req")
  case (Some n)
  then have "n \<notin> set object_prototype_names" using assms by (simp add: usable_names_def)
  then show ?thesis using Some requirement_name_nonempty [OF Some] by (simp add: named_lookup named_in_def)
qed (simp add: named_in_def)

lemma usable_entry:
  assumes "usable_names stored req" and "named_in stored req ''credentials'' = Some v"
  shows "entry_usable (rq_type req) v"
  using assms by (auto simp: usable_names_def dest!: named_in_name)

lemma covered_satisfied:
  assumes "covered stored req out" and "usable_names stored req" and "taken_from stored out"
    and "requirementSatisfied stored req flat"
  shows "requirementSatisfied out req flat"
proof (cases "named_in stored req ''credentials''")
  case (Some v)
  then have "named_in out req ''credentials'' = Some v" using assms(1) by (simp add: covered_def)
  then have "contextNamedCredential (JObj out) (requirement_name req) = v" using credential_at [OF assms(2)] by simp
  with usable_entry [OF assms(2) Some] assms(2) show ?thesis
    by (auto simp: requirementSatisfied_def entry_usable_def usable_names_def Let_def)
next
  case None
  then have no_name: "contextNamedCredential (JObj stored) (requirement_name req) = JUndefined"
    using credential_at [OF assms(2)] by simp
  show ?thesis
  proof (cases "rq_type req = ''auth.apiKey'' \<and> named_in stored req ''apiKeys'' \<noteq> None")
    case True
    then obtain n v where n: "requirement_name req = Some n" "entry stored ''apiKeys'' n = Some v"
      using named_in_name by blast
    then obtain t where t: "v = JStr t" "t \<noteq> []" "n \<notin> set object_prototype_names"
      using assms(2) True by (cases v) (auto simp: usable_names_def)
    have "entry out ''apiKeys'' n = Some (JStr t)"
      using assms(1) None True n t(1) by (simp add: covered_def named_in_def)
    then have "truthy (get_object (contextApiKeys (JObj out)) n)"
      using apiKeys_truthy [OF t(3)] assms(3) t(2) by (simp add: taken_from_def)
    then show ?thesis using True n(1) by (simp add: requirementSatisfied_def Let_def)
  next
    case False
    have fld: "map_of out f = map_of stored f"
      if "f \<in> set (flat_fields (rq_type req))" "map_of stored f \<noteq> None" for f
      using assms(1) None False that by (simp add: covered_def)
    have str: "str_or (member_of stored f) [] \<noteq> [] \<Longrightarrow> str_or (member_of out f) [] \<noteq> []"
      if "f \<in> set (flat_fields (rq_type req))" for f
      using fld [OF that] by (cases "map_of stored f") (simp_all add: member_of_def str_or_def)
    have no_key: "\<not> truthy (get_object (contextApiKeys (JObj stored)) n)"
      if "rq_type req = ''auth.apiKey''" "requirement_name req = Some n" for n
      using False that assms(2) apiKeys_lookup [of n stored] by (auto simp: named_in_def usable_names_def)
    consider "rq_type req = ''auth.bearer''" | "rq_type req = ''auth.apiKey''"
      | "rq_type req = ''auth.basic''" | "rq_type req = ''auth.oauth2''"
      using assms(2) by (auto simp: usable_names_def)
    then show ?thesis
    proof cases
      case 1
      then show ?thesis using assms(4) no_name str [of "''bearerToken''"]
        by (simp add: requirementSatisfied_def Let_def contextBearerToken_def flat_fields_def family_fields_def
            REQUIREMENT_FAMILY_FIELDS_def)
    next
      case 2
      then show ?thesis using assms(4) no_name no_key str [of "''apiKey''"]
        by (auto simp: requirementSatisfied_def Let_def contextApiKey_def flat_fields_def split: option.splits)
    next
      case 3
      have "map_of stored ''basic'' \<noteq> None" if "contextBasicAuth (JObj stored) \<noteq> None"
        using that by (auto simp: contextBasicAuth_def basic_pair_def member_of_def str_or_def split: option.splits)
      then show ?thesis using 3 assms(4) no_name fld [of "''basic''"]
        by (auto simp: requirementSatisfied_def Let_def contextBasicAuth_def flat_fields_def family_fields_def
            REQUIREMENT_FAMILY_FIELDS_def named_basic_def is_str_def member_of_def)
    next
      case 4
      then show ?thesis using assms(4) no_name str [of "''accessToken''"] str [of "''bearerToken''"]
        by (auto simp: requirementSatisfied_def Let_def contextString_def contextBearerToken_def flat_fields_def
            family_fields_def REQUIREMENT_FAMILY_FIELDS_def)
    qed
  qed
qed

text \<open>
  C10. What is released satisfies the challenge again: when the first alternative the stored context
  satisfies asks for bearer, API key, basic or OAuth credentials only, and whatever is stored under a
  requirement's own name (no member of \<open>Object.prototype\<close>) is a usable credential of its kind, the released context satisfies the challenge the stored one did, so
  an invoker that receives it is not challenged a second time.
\<close>
theorem scoped_context_satisfies:
  assumes "List.find (alternative_satisfied stored alternatives) alternatives = Some alt"
    and "\<forall>req\<in>set alt. usable_names stored req"
  shows "contextSatisfies (scopeContext stored (Some alternatives)) alternatives"
proof -
  have alt: "alt \<in> set alternatives" "alternative_satisfied stored alternatives alt"
    using assms(1) by (auto simp: find_Some_iff)
  let ?out = "fold (release stored) alt []"
  have "taken_from stored []"
    by (simp add: taken_from_def entry_def record_field_def member_of_def)
  from fold_release [OF assms(2) this] have out: "taken_from stored ?out" "\<forall>r\<in>set alt. covered stored r ?out" by auto
  have "alternative_satisfied ?out alternatives alt"
    using alt(2) out assms(2) covered_satisfied by (auto simp: alternative_satisfied_def list_all_iff)
  then have "contextSatisfies ?out alternatives" using alt(1) by (auto simp: contextSatisfies_def list_ex_iff)
  then show ?thesis
    using assms fold_scope_release by (simp add: scopeContext_def scope_alternatives_def)
qed

definition req_of :: "string \<Rightarrow> string \<Rightarrow> requirement" where
  "req_of type name =
     \<lparr> rq_type = type, rq_name = JStr name, rq_point = JUndefined, rq_path = JUndefined, rq_schema = JUndefined,
       rq_durable = JBool True \<rparr>"

lemma scoped_context_satisfies_witness:
  "contextSatisfies
     (scopeContext [(''bearerToken'', JStr ''t''), (''credentials'', JObj [(''k'', JStr ''v''), (''z'', JStr ''w'')])]
       (Some [[req_of ''auth.apiKey'' ''k'', req_of ''auth.bearer'' []]]))
     [[req_of ''auth.apiKey'' ''k'', req_of ''auth.bearer'' []]]"
proof (rule scoped_context_satisfies)
  show "List.find (alternative_satisfied
      [(''bearerToken'', JStr ''t''), (''credentials'', JObj [(''k'', JStr ''v''), (''z'', JStr ''w'')])]
      [[req_of ''auth.apiKey'' ''k'', req_of ''auth.bearer'' []]])
      [[req_of ''auth.apiKey'' ''k'', req_of ''auth.bearer'' []]] =
    Some [req_of ''auth.apiKey'' ''k'', req_of ''auth.bearer'' []]"
    by code_simp
  show "\<forall>req\<in>set [req_of ''auth.apiKey'' ''k'', req_of ''auth.bearer'' []].
      usable_names [(''bearerToken'', JStr ''t''), (''credentials'', JObj [(''k'', JStr ''v''), (''z'', JStr ''w'')])] req"
    by code_simp
qed

text \<open>
  Without that provision it fails: an empty credential stored under the requirement's name is released
  in place of the flat field that satisfied the challenge, and a name that \<open>Object.prototype\<close> defines
  satisfies an API key requirement with nothing stored at all.
\<close>

lemma empty_named_credential_hides_flat:
  "contextSatisfies [(''bearerToken'', JStr ''t''), (''credentials'', JObj [(''s'', JStr [])])]
     [[req_of ''auth.bearer'' ''s'']] \<and>
   \<not> contextSatisfies
      (scopeContext [(''bearerToken'', JStr ''t''), (''credentials'', JObj [(''s'', JStr [])])]
        (Some [[req_of ''auth.bearer'' ''s'']]))
      [[req_of ''auth.bearer'' ''s'']]"
  by code_simp

lemma inherited_name_satisfies:
  "requirementSatisfied [] (req_of ''auth.apiKey'' ''toString'') False"
  by code_simp

section \<open>Redaction hides the secrets\<close>

text \<open>Two stored fields that differ in what the taxonomy classifies as secret only.\<close>

definition same_public :: "string \<Rightarrow> jsval \<Rightarrow> jsval \<Rightarrow> bool" where
  "same_public k v w \<longleftrightarrow>
     (if k \<notin> set CREDENTIAL_FIELDS then v = w
      else
        case (as_object v, as_object w) of
          (Some a, Some b) \<Rightarrow>
            if k = ''basic'' then
              list_all2 (\<lambda>m n. fst m = fst n \<and> (fst m \<noteq> ''password'' \<longrightarrow> snd m = snd n)) a b
            else if k = ''apiKeys'' \<or> k = ''credentials'' then map fst a = map fst b
            else True
        | (None, None) \<Rightarrow> True
        | _ \<Rightarrow> \<not> (k = ''basic'' \<or> k = ''apiKeys'' \<or> k = ''credentials''))"

lemma replace_password:
  assumes "list_all2 (\<lambda>m n. fst m = fst n \<and> (fst m \<noteq> ''password'' \<longrightarrow> snd m = snd n)) a b"
    and "distinct (map fst a)"
  shows "replace_member ''password'' v a = replace_member ''password'' v b"
  using assms
proof (induction a b rule: list_all2_induct)
  case (Cons m a n b)
  have same: "a = b" if "''password'' \<notin> set (map fst a)"
  proof -
    have "list_all2 (=) a b"
      using Cons.hyps(2) that
    proof (induction a b rule: list_all2_induct)
      case (Cons m a n b)
      then show ?case by (cases m; cases n) auto
    qed simp
    then show ?thesis by (simp add: list.rel_eq)
  qed
  show ?case using Cons same by (cases m; cases n) auto
qed simp

lemma keys_equal:
  "list_all2 (\<lambda>m n. fst m = fst n \<and> P m n) a b \<Longrightarrow> map fst a = map fst b"
  by (induction a b rule: list_all2_induct) auto

lemma same_without_password:
  assumes "list_all2 (\<lambda>m n. fst m = fst n \<and> (fst m \<noteq> ''password'' \<longrightarrow> snd m = snd n)) a b"
    and "''password'' \<notin> set (map fst a)"
  shows "a = b"
proof -
  have "list_all2 (=) a b"
    using assms
  proof (induction a b rule: list_all2_induct)
    case (Cons m a n b)
    then show ?case by (cases m; cases n) auto
  qed simp
  then show ?thesis by (simp add: list.rel_eq)
qed

lemma redact_basic:
  assumes "list_all2 (\<lambda>m n. fst m = fst n \<and> (fst m \<noteq> ''password'' \<longrightarrow> snd m = snd n)) a b"
    and "distinct (map fst a)"
  shows "redact_field ''basic'' (JObj a) = redact_field ''basic'' (JObj b)"
proof -
  have keys: "has_member a k = has_member b k" for k
    using keys_equal [OF assms(1)] by (metis has_member_def list.set_map)
  show ?thesis
  proof (cases "has_member a ''password''")
    case True
    then show ?thesis
      using keys replace_password [OF assms, of redacted]
      by (simp add: redact_field_def define_member_def CREDENTIAL_FIELDS_def REQUIREMENT_FAMILY_FIELDS_def)
  next
    case False
    then have "a = b" using same_without_password [OF assms(1)] by (simp add: has_member_def)
    then show ?thesis by simp
  qed
qed

lemma redact_same:
  assumes "same_public k v w" and "wf_val v"
  shows "redact_field k v = redact_field k w"
proof (cases "k \<in> set CREDENTIAL_FIELDS")
  case True
  show ?thesis
  proof (cases "as_object v")
    case None
    then show ?thesis using assms True
      by (cases "as_object w") (auto simp: same_public_def redact_field_def split: if_splits)
  next
    case (Some a)
    then have v: "v = JObj a" by simp
    show ?thesis
    proof (cases "as_object w")
      case None
      then show ?thesis using assms True v by (auto simp: same_public_def redact_field_def split: if_splits)
    next
      case (Some b)
      then have w: "w = JObj b" by simp
      show ?thesis
      proof (cases "k = ''basic''")
        case True
        then show ?thesis
          using assms redact_basic [of a b] \<open>k \<in> set CREDENTIAL_FIELDS\<close> v w by (simp add: same_public_def)
      next
        case False
        then show ?thesis
          using assms True v w by (auto simp: same_public_def redact_field_def member_keys_def split: if_splits)
      qed
    qed
  qed
qed (use assms in \<open>simp add: same_public_def redact_field_def\<close>)

text \<open>
  C34. A redacted context carries nothing of the secrets: two contexts with the same field names that
  differ only in the values the taxonomy classifies as secret (a token, a key, a named credential, a
  basic password) have the same redacted form.
\<close>
theorem redaction_hides_secrets:
  assumes "list_all2 (\<lambda>m n. fst m = fst n \<and> same_public (fst m) (snd m) (snd n)) ms ns"
    and "wf_val (JObj ms)"
  shows "redactContext (Some ms) = redactContext (Some ns)"
proof -
  have "list_all (\<lambda>m. wf_val (snd m)) ms" using assms(2) by simp
  with assms(1)
  have "foldl (\<lambda>out m. assign_member (fst m) (redact_field (fst m) (snd m)) out) out ms =
    foldl (\<lambda>out m. assign_member (fst m) (redact_field (fst m) (snd m)) out) out ns" for out
  proof (induction ms ns arbitrary: out rule: list_all2_induct)
    case (Cons m ms n ns)
    from Cons.hyps(1) have m: "fst m = fst n" "same_public (fst m) (snd m) (snd n)" by blast+
    have "wf_val (snd m)" using Cons.prems by simp
    from redact_same [OF m(2) this] have "redact_field (fst m) (snd m) = redact_field (fst n) (snd n)"
      unfolding m(1) .
    with Cons.IH Cons.prems m(1) show ?case by simp
  qed simp
  then show ?thesis by (simp add: redactContext_def)
qed

lemma redaction_hides_secrets_witness:
  "redactContext (Some [(''bearerToken'', JStr ''a''), (''basic'', JObj [(''username'', JStr ''u''), (''password'', JStr ''p'')])]) =
   redactContext (Some [(''bearerToken'', JStr ''b''), (''basic'', JObj [(''username'', JStr ''u''), (''password'', JStr ''q'')])])"
  by (rule redaction_hides_secrets) (simp_all add: same_public_def CREDENTIAL_FIELDS_def REQUIREMENT_FAMILY_FIELDS_def)

section \<open>Context keys hold no userinfo\<close>

lemma set_before: "set (before c s) \<subseteq> set s - {c}"
  by (auto simp: before_def cut_None cut_Some split: option.splits)

lemma set_after: "set (case cut_last c s of None \<Rightarrow> s | Some (_, h) \<Rightarrow> h) \<subseteq> set s - {c}"
  by (auto simp: cut_last_None cut_last_Some split: option.splits)

lemma set_ascii_lower: "\<not> is_lower d \<Longrightarrow> d \<in> set (ascii_lower s) \<Longrightarrow> d \<in> set s"
  by (auto simp: ascii_lower_def to_lower_def is_lower_def is_upper_def byte_char_of split: if_splits)

lemma set_elide: "set (elideDefaultPort scheme host) \<subseteq> set host"
  by (auto simp: elideDefaultPort_def Let_def drop_suffix_def dest: in_set_takeD)

text \<open>
  The key a context is stored under holds no userinfo, path, query or fragment of the URL it was
  made from, so a password written into a URL never becomes part of a store key.
\<close>
theorem context_key_holds_no_userinfo:
  assumes "cut_text ''://'' (js_trim raw) = Some (scheme, rest)"
  shows "set ''@/?#'' \<inter> set (normalizeContextKey raw) = {}"
proof -
  let ?a = "before (CHR ''/'') (before (CHR ''#'') (before (CHR ''?'') rest))"
  have a: "CHR ''/'' \<notin> set ?a" "CHR ''#'' \<notin> set ?a" "CHR ''?'' \<notin> set ?a"
    using set_before [of "CHR ''/''"] set_before [of "CHR ''#''"] set_before [of "CHR ''?''"] by blast+
  define h where "h = (case cut_last (CHR ''@'') ?a of None \<Rightarrow> ?a | Some (_, host) \<Rightarrow> host)"
  have h: "CHR ''/'' \<notin> set h" "CHR ''#'' \<notin> set h" "CHR ''?'' \<notin> set h" "CHR ''@'' \<notin> set h"
    using a set_after [where c = "CHR ''@''" and s = ?a] unfolding h_def by blast+
  have keep: "d \<notin> set (ascii_lower h)" if "d \<notin> set h" "\<not> is_lower d" for d
    using that set_ascii_lower by blast
  have "\<not> is_lower (CHR ''/'')" "\<not> is_lower (CHR ''#'')" "\<not> is_lower (CHR ''?'')" "\<not> is_lower (CHR ''@'')"
    by (simp_all add: is_lower_def byte_def)
  then have free: "CHR ''/'' \<notin> set (ascii_lower h)" "CHR ''#'' \<notin> set (ascii_lower h)"
    "CHR ''?'' \<notin> set (ascii_lower h)" "CHR ''@'' \<notin> set (ascii_lower h)"
    using keep h by blast+
  have "normalizeContextKey raw = elideDefaultPort scheme (ascii_lower h)"
    unfolding normalizeContextKey_def Let_def assms key_host_def h_def by simp
  then have "set (normalizeContextKey raw) \<subseteq> set (ascii_lower h)" using set_elide by simp
  then show ?thesis using free by (simp add: disjoint_iff subset_iff) blast
qed

lemma context_key_holds_no_userinfo_witness:
  "set ''@/?#'' \<inter> set (normalizeContextKey ''ws://u:p@A:80/x'') = {} \<and>
   normalizeContextKey ''ws://u:p@A:80/x'' = ''a''"
proof
  have "cut_text ''://'' (js_trim ''ws://u:p@A:80/x'') = Some (''ws'', ''u:p@A:80/x'')" by code_simp
  then show "set ''@/?#'' \<inter> set (normalizeContextKey ''ws://u:p@A:80/x'') = {}"
    by (rule context_key_holds_no_userinfo)
  show "normalizeContextKey ''ws://u:p@A:80/x'' = ''a''" by code_simp
qed

end
