(* ===== verification/Invocation_Errors.thy ===== *)
theory Invocation_Errors
  imports Js_Value
begin

text \<open>
  \<open>InvocationError\<close> and the context-requirement shapes of \<open>internal/invocation.ts\<close>, with the codes
  of \<open>internal/errcodes.ts\<close>.  The details and diagnostics of an error are JSON values, \<open>undefined\<close>
  when absent; its stack and cause are not modelled.
\<close>

record inv_error =
  err_code :: string
  err_message :: string
  err_details :: jsval
  err_diagnostics :: jsval

text \<open>The codes the modelled code raises or compares with.\<close>

definition canonical_codes :: "string list" where
  "canonical_codes =
     [''ERR_CANCELLED'', ''ERR_ALREADY_CONSUMED'', ''ERR_EXPECTED_SINGLE'', ''ERR_INPUT_CLOSED'',
      ''ERR_INVOCATION_CLOSED'', ''ERR_TOO_MANY_INPUTS'', ''ERR_MISSING_INPUT'', ''ERR_PROTOCOL'',
      ''ERR_TRANSPORT_CLOSED'', ''CONTEXT_REQUIRED'', ''ERR_OPERATION_NOT_FOUND'',
      ''ERR_UNKNOWN_SOURCE'', ''ERR_AUTH_REQUIRED'', ''ERR_PERMISSION_DENIED'', ''ERR_INVALID_REF'',
      ''ERR_REF_NOT_FOUND'', ''ERR_SOURCE_LOAD_FAILED'', ''ERR_SOURCE_CONFIG_ERROR'',
      ''ERR_CONNECT_FAILED'', ''ERR_EXECUTION_FAILED'', ''ERR_RESPONSE_ERROR'', ''ERR_STREAM_ERROR'',
      ''ERR_TIMEOUT'', ''ERR_UNAVAILABLE'', ''ERR_BINDING_NOT_FOUND'',
      ''ERR_BINDING_SELECTION_REQUIRED'', ''ERR_TRANSFORM_ERROR'', ''ERR_VALIDATION_FAILED'',
      ''ERR_SCHEMA_UNRESOLVED'', ''ERR_TYPE_MISMATCH'', ''ERR_RUNTIME'',
      ''ERR_EVENT_LIMIT_EXCEEDED'', ''ERR_OPERATION_GRAPH_EXIT'',
      ''ERR_UNSUPPORTED_FORMAT_VERSION'']"

definition httpErrorCode :: "nat \<Rightarrow> string" where
  "httpErrorCode status = ''ERR_EXECUTION_FAILED''"

section \<open>Context requirements\<close>

definition REQUIREMENT_FIELDS :: js_members where
  "REQUIREMENT_FIELDS =
     [(''auth.bearer'', JStr ''bearerToken''), (''auth.apiKey'', JStr ''apiKey''),
      (''auth.basic'', JStr ''basic''), (''auth.oauth2'', JStr ''accessToken'')]"

definition requirement_text :: "jsval \<Rightarrow> string" where
  "requirement_text req =
     (let type = js_String (get_prop req ''type'');
          mapped = get_object REQUIREMENT_FIELDS type in
      if truthy mapped
      then type @ '' (context field '' @ [CHR 0x22] @ js_String mapped @ [CHR 0x22] @ '')''
      else type)"

definition requirements_of :: "jsval \<Rightarrow> jsval list" where
  "requirements_of alt = (case as_array (get_prop alt ''requirements'') of None \<Rightarrow> [] | Some rs \<Rightarrow> rs)"

definition contextRequirementSummary :: "jsval \<Rightarrow> string" where
  "contextRequirementSummary details =
     (case as_array (get_prop details ''alternatives'') of
        None \<Rightarrow> []
      | Some alternatives \<Rightarrow>
          let alts = concat (map (\<lambda>alt.
                let reqs = map requirement_text (requirements_of alt) in
                if reqs = [] then [] else [join '' + '' reqs]) alternatives);
              target = str_or (get_prop details ''target'') [] in
          if target = [] \<and> alts = [] then []
          else join ''; ''
            ((if target = [] then [] else [''target: '' @ target]) @
             (if alts = [] then [] else [''satisfied by: '' @ join '', or '' alts])))"

text \<open>The constructor of \<open>InvocationError\<close>: a challenge renders its facts into the message.\<close>

definition InvocationError :: "string \<Rightarrow> string \<Rightarrow> jsval \<Rightarrow> jsval \<Rightarrow> inv_error" where
  "InvocationError code message details diagnostics =
     (let rendered = (if message = [] then code else message);
          summary = contextRequirementSummary details in
      \<lparr> err_code = code,
        err_message =
          (if code = ''CONTEXT_REQUIRED'' \<and> summary \<noteq> [] then rendered @ '' ('' @ summary @ '')'' else rendered),
        err_details = details, err_diagnostics = diagnostics \<rparr>)"

abbreviation plain_error :: "string \<Rightarrow> string \<Rightarrow> inv_error" where
  "plain_error code message \<equiv> InvocationError code message JUndefined JUndefined"

definition contextRequiredError :: "string \<Rightarrow> jsval \<Rightarrow> inv_error" where
  "contextRequiredError message details = InvocationError ''CONTEXT_REQUIRED'' message details JUndefined"

definition configValueRequirement :: "string \<Rightarrow> string \<Rightarrow> string \<Rightarrow> jsval \<Rightarrow> jsval \<Rightarrow> jsval" where
  "configValueRequirement point path description schema durable =
     JObj ([(''type'', JStr ''config.value''), (''point'', JStr point), (''path'', JStr path),
            (''description'', JStr description)] @
           (if schema = JUndefined then [] else [(''schema'', schema)]) @
           (if durable = JUndefined then [] else [(''durable'', durable)]))"

definition isContextRequired :: "inv_error \<Rightarrow> bool" where
  "isContextRequired err \<longleftrightarrow>
     err_code err = ''CONTEXT_REQUIRED'' \<and> is_str (get_prop (err_details err) ''target'') \<and>
     as_array (get_prop (err_details err) ''alternatives'') \<noteq> None"

text \<open>The reason of an abort: a deadline, or anything else.\<close>

definition isTimeoutReason :: "jsval \<Rightarrow> bool" where
  "isTimeoutReason reason \<longleftrightarrow> get_prop reason ''name'' = JStr ''TimeoutError''"

definition abortToTerminal :: "jsval \<Rightarrow> inv_error" where
  "abortToTerminal reason =
     (if isTimeoutReason reason then plain_error ''ERR_TIMEOUT'' ''invocation deadline exceeded''
      else plain_error ''ERR_CANCELLED'' ''invocation cancelled'')"

section \<open>Properties\<close>

lemma InvocationError_code [simp]: "err_code (InvocationError c m d x) = c"
  "err_details (InvocationError c m d x) = d" "err_diagnostics (InvocationError c m d x) = x"
  by (simp_all add: InvocationError_def Let_def)

lemma InvocationError_plain: "c \<noteq> ''CONTEXT_REQUIRED'' \<Longrightarrow>
   err_message (InvocationError c m d x) = (if m = [] then c else m)"
  by (simp add: InvocationError_def Let_def)

lemma join_eq_Nil: "join sep xs = [] \<longleftrightarrow> (xs = [] \<or> xs = [[]] \<or> (sep = [] \<and> list_all ((=) []) xs))"
  by (induction sep xs rule: join.induct) auto

lemma InvocationError_nonempty: "c \<noteq> [] \<Longrightarrow> err_message (InvocationError c m d x) \<noteq> []"
  by (simp add: InvocationError_def Let_def)

lemma abortToTerminal_code: "err_code (abortToTerminal r) = ''ERR_TIMEOUT'' \<or> err_code (abortToTerminal r) = ''ERR_CANCELLED''"
  by (simp add: abortToTerminal_def)

text \<open>A challenge the client built itself is recognized and names its target in the message.\<close>

lemma challenge_recognized:
  assumes "get_prop details ''target'' = JStr t" and "get_prop details ''alternatives'' = JArr alts"
  shows "isContextRequired (contextRequiredError m details)"
  using assms by (simp add: isContextRequired_def contextRequiredError_def is_str_def)

lemma challenge_names_target:
  assumes "get_prop details ''target'' = JStr t" and "t \<noteq> []" and "get_prop details ''alternatives'' = JArr alts"
  shows "\<exists>a b. err_message (contextRequiredError m details) = a @ ''target: '' @ t @ b"
proof -
  obtain ps where s: "contextRequirementSummary details = join ''; '' ((''target: '' @ t) # ps)" "ps = [] \<or> (\<exists>p. ps = [p])"
    using assms by (auto simp: contextRequirementSummary_def Let_def str_or_def)
  then obtain b where b: "contextRequirementSummary details = ''target: '' @ t @ b" by fastforce
  then have "err_message (contextRequiredError m details) =
      (if m = [] then ''CONTEXT_REQUIRED'' else m) @ '' ('' @ (''target: '' @ t @ b) @ '')''"
    by (simp add: contextRequiredError_def InvocationError_def Let_def)
  also have "\<dots> = ((if m = [] then ''CONTEXT_REQUIRED'' else m) @ '' ('') @ ''target: '' @ t @ (b @ '')'')"
    by (simp only: append_assoc)
  finally show ?thesis by blast
qed

end
