(* ===== verification/Invocation_Handle.thy ===== *)
theory Invocation_Handle
  imports Invocation_Errors
begin

text \<open>
  The invocation session of \<open>internal/invocation.ts\<close> as a machine.  The code runs on one event loop,
  so an operation is one transition: the statements up to the point where its promise parks.  A
  promise is a number; parked promises wait in the four queues of the source, and the settlements
  of each side are logged in the order they happen.  A parked output read goes on after its
  settlement (\<open>observed_read\<close>).  A validation hook suspends a write; its answer arrives as an event
  of its own.
\<close>

type_synonym metadata = "(string \<times> string list) list"

datatype lifecycle = Open | Closed | Errored inv_error

datatype 'v outcome = Yields 'v | Ends | Fails inv_error

record ('i, 'o) handle =
  inputBuf :: "'i list"
  inputWaiters :: "nat list"
  inputProducerWaiters :: "(nat \<times> 'i) list"
  inputSideClosed :: bool
  outputQueue :: "'o list"
  outputWaiters :: "nat list"
  outputProducerWaiters :: "(nat \<times> 'o) list"
  outputsConsumed :: bool
  life :: lifecycle
  headerMd :: "metadata option"
  header :: "metadata option"
  trailerMd :: "metadata option"
  closed_promise :: "unit outcome option"
  aborted :: bool
  validating :: "(nat \<times> 'i) list"
  promises :: nat
  writes :: "(nat \<times> unit outcome) list"
  input_reads :: "(nat \<times> 'i outcome) list"
  emits :: "(nat \<times> unit outcome) list"
  output_reads :: "(nat \<times> 'o outcome) list"

definition OUTPUT_BUFFER_CAPACITY :: nat where "OUTPUT_BUFFER_CAPACITY = 4"
definition INPUT_BUFFER_CAPACITY :: nat where "INPUT_BUFFER_CAPACITY = 1"

definition closed_error :: inv_error where
  "closed_error = plain_error ''ERR_INVOCATION_CLOSED'' ''invocation is closed''"

definition input_closed_error :: inv_error where
  "input_closed_error = plain_error ''ERR_INPUT_CLOSED'' ''input is closed''"

section \<open>Terminal transitions\<close>

definition settleHeader :: "('i, 'o) handle \<Rightarrow> ('i, 'o) handle" where
  "settleHeader s =
     (case header s of
        Some _ \<Rightarrow> s
      | None \<Rightarrow> s \<lparr> header := Some (case headerMd s of None \<Rightarrow> [] | Some md \<Rightarrow> md) \<rparr>)"

definition closeOutput :: "('i, 'o) handle \<Rightarrow> ('i, 'o) handle" where
  "closeOutput s =
     (if life s \<noteq> Open then s
      else
        let s = settleHeader (s \<lparr> life := Closed, inputSideClosed := True \<rparr>) in
        s \<lparr> output_reads := output_reads s @ map (\<lambda>p. (p, Ends)) (outputWaiters s),
            outputWaiters := [],
            emits := emits s @ map (\<lambda>(p, _). (p, Fails closed_error)) (outputProducerWaiters s),
            outputProducerWaiters := [],
            input_reads := input_reads s @ map (\<lambda>p. (p, Ends)) (inputWaiters s),
            inputWaiters := [],
            writes := writes s @ map (\<lambda>(p, _). (p, Fails closed_error)) (inputProducerWaiters s),
            inputProducerWaiters := [],
            closed_promise := Some (Yields ()),
            aborted := True \<rparr>)"

definition fireError :: "inv_error \<Rightarrow> ('i, 'o) handle \<Rightarrow> ('i, 'o) handle" where
  "fireError error s =
     (if life s \<noteq> Open then s
      else
        let s = settleHeader (s \<lparr> life := Errored error, inputSideClosed := True \<rparr>) in
        s \<lparr> output_reads := output_reads s @ map (\<lambda>p. (p, Ends)) (outputWaiters s),
            outputWaiters := [],
            emits := emits s @ map (\<lambda>(p, _). (p, Fails error)) (outputProducerWaiters s),
            outputProducerWaiters := [],
            input_reads := input_reads s @ map (\<lambda>p. (p, Fails error)) (inputWaiters s),
            inputWaiters := [],
            writes := writes s @ map (\<lambda>(p, _). (p, Fails error)) (inputProducerWaiters s),
            inputProducerWaiters := [],
            closed_promise := Some (Fails error),
            aborted := True \<rparr>)"

section \<open>The caller's side\<close>

definition throwIfUnwritable :: "('i, 'o) handle \<Rightarrow> inv_error option" where
  "throwIfUnwritable s =
     (case life s of
        Errored e \<Rightarrow> Some e
      | Closed \<Rightarrow> Some closed_error
      | Open \<Rightarrow> if inputSideClosed s then Some input_closed_error else None)"

definition fresh_promise :: "('i, 'o) handle \<Rightarrow> ('i, 'o) handle" where
  "fresh_promise s = s \<lparr> promises := Suc (promises s) \<rparr>"

text \<open>The tail of \<open>write\<close>, after the last await.\<close>

definition enqueue_input :: "nat \<Rightarrow> 'i \<Rightarrow> ('i, 'o) handle \<Rightarrow> ('i, 'o) handle" where
  "enqueue_input p v s =
     (case throwIfUnwritable s of
        Some e \<Rightarrow> s \<lparr> writes := writes s @ [(p, Fails e)] \<rparr>
      | None \<Rightarrow>
          (case inputWaiters s of
             w # ws \<Rightarrow>
               s \<lparr> inputWaiters := ws, input_reads := input_reads s @ [(w, Yields v)],
                   writes := writes s @ [(p, Yields ())] \<rparr>
           | [] \<Rightarrow>
               if length (inputBuf s) < INPUT_BUFFER_CAPACITY
               then s \<lparr> inputBuf := inputBuf s @ [v], writes := writes s @ [(p, Yields ())] \<rparr>
               else s \<lparr> inputProducerWaiters := inputProducerWaiters s @ [(p, v)] \<rparr>))"

definition write_input :: "bool \<Rightarrow> 'i \<Rightarrow> ('i, 'o) handle \<Rightarrow> ('i, 'o) handle" where
  "write_input hook v s =
     (let p = promises s; s = fresh_promise s in
      case throwIfUnwritable s of
        Some e \<Rightarrow> s \<lparr> writes := writes s @ [(p, Fails e)] \<rparr>
      | None \<Rightarrow> if hook then s \<lparr> validating := validating s @ [(p, v)] \<rparr> else enqueue_input p v s)"

text \<open>The validation hook answers for the write \<open>p\<close>.\<close>

definition validated :: "nat \<Rightarrow> inv_error option \<Rightarrow> ('i, 'o) handle \<Rightarrow> ('i, 'o) handle" where
  "validated p answer s =
     (case map_of (validating s) p of
        None \<Rightarrow> s
      | Some v \<Rightarrow>
          let s = s \<lparr> validating := filter (\<lambda>e. fst e \<noteq> p) (validating s) \<rparr> in
          case answer of
            Some e \<Rightarrow> let s = fireError e s in s \<lparr> writes := writes s @ [(p, Fails e)] \<rparr>
          | None \<Rightarrow> enqueue_input p v s)"

definition close :: "('i, 'o) handle \<Rightarrow> ('i, 'o) handle" where
  "close s =
     (if inputSideClosed s then s
      else
        s \<lparr> inputSideClosed := True,
            input_reads := input_reads s @ map (\<lambda>p. (p, Ends)) (inputWaiters s),
            inputWaiters := [],
            writes := writes s @ map (\<lambda>(p, _). (p, Fails input_closed_error)) (inputProducerWaiters s),
            inputProducerWaiters := [] \<rparr>)"

definition cancel :: "('i, 'o) handle \<Rightarrow> ('i, 'o) handle" where
  "cancel s =
     (if life s \<noteq> Open then s
      else fireError (plain_error ''ERR_CANCELLED'' ''invocation cancelled'') s)"

text \<open>Acquiring the output sequence: a second acquisition throws.\<close>

definition outputs :: "('i, 'o) handle \<Rightarrow> (inv_error, ('i, 'o) handle) res" where
  "outputs s =
     (if outputsConsumed s then Inl (plain_error ''ERR_ALREADY_CONSUMED'' ''outputs already consumed'')
      else Inr (s \<lparr> outputsConsumed := True \<rparr>))"

definition readNext :: "('i, 'o) handle \<Rightarrow> ('i, 'o) handle" where
  "readNext s =
     (let p = promises s; s = fresh_promise s in
      case outputQueue s of
        v # q \<Rightarrow>
          (let s = s \<lparr> outputQueue := q, output_reads := output_reads s @ [(p, Yields v)] \<rparr> in
           case outputProducerWaiters s of
             [] \<Rightarrow> s
           | (w, u) # ws \<Rightarrow>
               s \<lparr> outputProducerWaiters := ws, outputQueue := outputQueue s @ [u],
                   emits := emits s @ [(w, Yields ())] \<rparr>)
      | [] \<Rightarrow>
          (case life s of
             Errored e \<Rightarrow> s \<lparr> output_reads := output_reads s @ [(p, Fails e)] \<rparr>
           | Closed \<Rightarrow> s \<lparr> output_reads := output_reads s @ [(p, Ends)] \<rparr>
           | Open \<Rightarrow> s \<lparr> outputWaiters := outputWaiters s @ [p] \<rparr>))"

text \<open>A read that was parked resumes: only an end of the sequence surfaces the terminal error.\<close>

definition observed_read :: "('i, 'o) handle \<Rightarrow> 'o outcome \<Rightarrow> 'o outcome" where
  "observed_read s r =
     (case (r, life s) of (Ends, Errored e) \<Rightarrow> Fails e | _ \<Rightarrow> r)"

definition trailer :: "('i, 'o) handle \<Rightarrow> metadata option" where
  "trailer s =
     (if life s = Open then None else Some (case trailerMd s of None \<Rightarrow> [] | Some md \<Rightarrow> md))"

section \<open>The binding's side\<close>

definition inputs_next :: "('i, 'o) handle \<Rightarrow> ('i, 'o) handle" where
  "inputs_next s =
     (let p = promises s; s = fresh_promise s;
          settle = (\<lambda>r s. s \<lparr> input_reads := input_reads s @ [(p, r)] \<rparr>) in
      case life s of
        Errored e \<Rightarrow> settle (Fails e) s
      | _ \<Rightarrow>
          (case inputBuf s of
             v # b \<Rightarrow>
               (let s = s \<lparr> inputBuf := b \<rparr> in
                settle (Yields v)
                  (case inputProducerWaiters s of
                     [] \<Rightarrow> s
                   | (w, u) # ws \<Rightarrow>
                       s \<lparr> inputProducerWaiters := ws, inputBuf := inputBuf s @ [u],
                           writes := writes s @ [(w, Yields ())] \<rparr>))
           | [] \<Rightarrow>
               if inputSideClosed s then settle Ends s
               else if inputWaiters s \<noteq> []
               then settle (Fails (plain_error ''ERR_ALREADY_CONSUMED''
                              ''concurrent inputs() readers on one invocation'')) s
               else s \<lparr> inputWaiters := inputWaiters s @ [p] \<rparr>))"

definition emitOutput :: "'o \<Rightarrow> ('i, 'o) handle \<Rightarrow> ('i, 'o) handle" where
  "emitOutput v s =
     (let p = promises s; s = fresh_promise s in
      case life s of
        Errored e \<Rightarrow> s \<lparr> emits := emits s @ [(p, Fails e)] \<rparr>
      | Closed \<Rightarrow> s \<lparr> emits := emits s @ [(p, Fails closed_error)] \<rparr>
      | Open \<Rightarrow>
          (let s = settleHeader s in
           case outputWaiters s of
             w # ws \<Rightarrow>
               s \<lparr> outputWaiters := ws, output_reads := output_reads s @ [(w, Yields v)],
                   emits := emits s @ [(p, Yields ())] \<rparr>
           | [] \<Rightarrow>
               if length (outputQueue s) < OUTPUT_BUFFER_CAPACITY
               then s \<lparr> outputQueue := outputQueue s @ [v], emits := emits s @ [(p, Yields ())] \<rparr>
               else s \<lparr> outputProducerWaiters := outputProducerWaiters s @ [(p, v)] \<rparr>))"

definition setHeader :: "metadata \<Rightarrow> ('i, 'o) handle \<Rightarrow> ('i, 'o) handle option" where
  "setHeader md s =
     (if header s \<noteq> None then None else Some (settleHeader (s \<lparr> headerMd := Some md \<rparr>)))"

definition setTrailer :: "metadata \<Rightarrow> ('i, 'o) handle \<Rightarrow> ('i, 'o) handle" where
  "setTrailer md s = (if life s \<noteq> Open then s else s \<lparr> trailerMd := Some md \<rparr>)"

section \<open>Sessions\<close>

definition empty_handle :: "('i, 'o) handle" where
  "empty_handle =
     \<lparr> inputBuf = [], inputWaiters = [], inputProducerWaiters = [], inputSideClosed = False,
       outputQueue = [], outputWaiters = [], outputProducerWaiters = [], outputsConsumed = False,
       life = Open, headerMd = None, header = None, trailerMd = None, closed_promise = None,
       aborted = False, validating = [], promises = 0, writes = [], input_reads = [], emits = [],
       output_reads = [] \<rparr>"

text \<open>The constructor: an external signal that is already aborted ends the session at once.\<close>

definition new_handle :: "jsval option \<Rightarrow> ('i, 'o) handle" where
  "new_handle signal =
     (case signal of
        None \<Rightarrow> empty_handle
      | Some reason \<Rightarrow> fireError (abortToTerminal reason) (empty_handle \<lparr> aborted := True \<rparr>))"

datatype ('i, 'o) event =
    Write 'i
  | Validated nat "inv_error option"
  | Close
  | Cancel
  | Acquire
  | Next
  | Read_Input
  | Emit 'o
  | Close_Output
  | Fire_Error inv_error
  | Set_Header metadata
  | Set_Trailer metadata
  | Signal_Abort jsval

text \<open>An operation that throws leaves the session as it was.\<close>

fun exec :: "bool \<Rightarrow> ('i, 'o) event \<Rightarrow> ('i, 'o) handle \<Rightarrow> ('i, 'o) handle" where
  "exec hook (Write v) s = write_input hook v s"
| "exec hook (Validated p answer) s = validated p answer s"
| "exec hook Close s = close s"
| "exec hook Cancel s = cancel s"
| "exec hook Acquire s = (case outputs s of Inl _ \<Rightarrow> s | Inr t \<Rightarrow> t)"
| "exec hook Next s = readNext s"
| "exec hook Read_Input s = inputs_next s"
| "exec hook (Emit v) s = emitOutput v s"
| "exec hook Close_Output s = closeOutput s"
| "exec hook (Fire_Error e) s = fireError e s"
| "exec hook (Set_Header md) s = (case setHeader md s of None \<Rightarrow> s | Some t \<Rightarrow> t)"
| "exec hook (Set_Trailer md) s = setTrailer md s"
| "exec hook (Signal_Abort reason) s = fireError (abortToTerminal reason) s"

definition run :: "bool \<Rightarrow> ('i, 'o) event list \<Rightarrow> ('i, 'o) handle \<Rightarrow> ('i, 'o) handle" where
  "run hook es s = fold (exec hook) es s"

inductive reachable :: "bool \<Rightarrow> ('i, 'o) handle \<Rightarrow> bool" for hook :: bool where
  start: "reachable hook (new_handle signal)"
| step: "reachable hook s \<Longrightarrow> reachable hook (exec hook e s)"

text \<open>\<open>single\<close> over the outcomes of its two reads; the flag says whether it cancels the session.\<close>

definition single :: "'o outcome \<Rightarrow> 'o outcome \<Rightarrow> (inv_error, 'o) res \<times> bool" where
  "single first second =
     (case first of
        Fails e \<Rightarrow> (Inl e, False)
      | Ends \<Rightarrow> (Inl (plain_error ''ERR_EXPECTED_SINGLE'' ''expected one output, got none''), False)
      | Yields v \<Rightarrow>
          (case second of
             Fails e \<Rightarrow> (Inl e, False)
           | Yields _ \<Rightarrow> (Inl (plain_error ''ERR_EXPECTED_SINGLE'' ''expected one output, got more''), True)
           | Ends \<Rightarrow> (Inr v, False)))"

section \<open>Invariants\<close>

lemma settleHeader_sel [simp]:
  "inputBuf (settleHeader s) = inputBuf s" "inputWaiters (settleHeader s) = inputWaiters s"
  "inputProducerWaiters (settleHeader s) = inputProducerWaiters s"
  "inputSideClosed (settleHeader s) = inputSideClosed s"
  "outputQueue (settleHeader s) = outputQueue s" "outputWaiters (settleHeader s) = outputWaiters s"
  "outputProducerWaiters (settleHeader s) = outputProducerWaiters s" "life (settleHeader s) = life s"
  "closed_promise (settleHeader s) = closed_promise s" "aborted (settleHeader s) = aborted s"
  "validating (settleHeader s) = validating s" "promises (settleHeader s) = promises s"
  "writes (settleHeader s) = writes s" "input_reads (settleHeader s) = input_reads s"
  "emits (settleHeader s) = emits s" "output_reads (settleHeader s) = output_reads s"
  by (simp_all add: settleHeader_def split: option.splits)

lemma settleHeader_settles [simp]: "header (settleHeader s) \<noteq> None"
  by (simp add: settleHeader_def split: option.splits)

lemma fresh_promise_sel [simp]:
  "inputBuf (fresh_promise s) = inputBuf s" "inputWaiters (fresh_promise s) = inputWaiters s"
  "inputProducerWaiters (fresh_promise s) = inputProducerWaiters s"
  "inputSideClosed (fresh_promise s) = inputSideClosed s"
  "outputQueue (fresh_promise s) = outputQueue s" "outputWaiters (fresh_promise s) = outputWaiters s"
  "outputProducerWaiters (fresh_promise s) = outputProducerWaiters s" "life (fresh_promise s) = life s"
  "closed_promise (fresh_promise s) = closed_promise s" "aborted (fresh_promise s) = aborted s"
  "validating (fresh_promise s) = validating s" "promises (fresh_promise s) = Suc (promises s)"
  "writes (fresh_promise s) = writes s" "input_reads (fresh_promise s) = input_reads s"
  "emits (fresh_promise s) = emits s" "output_reads (fresh_promise s) = output_reads s"
  "header (fresh_promise s) = header s"
  by (simp_all add: fresh_promise_def)

lemmas operation_defs =
  write_input_def enqueue_input_def validated_def close_def cancel_def outputs_def readNext_def
  inputs_next_def emitOutput_def closeOutput_def fireError_def setHeader_def setTrailer_def
  throwIfUnwritable_def INPUT_BUFFER_CAPACITY_def OUTPUT_BUFFER_CAPACITY_def Let_def

lemmas operation_splits = option.splits list.splits lifecycle.splits prod.splits if_splits sum.splits

text \<open>The output side: consumers park only on an empty queue, producers only on a full one.\<close>

definition output_ok :: "('i, 'o) handle \<Rightarrow> bool" where
  "output_ok s \<longleftrightarrow>
     length (outputQueue s) \<le> OUTPUT_BUFFER_CAPACITY \<and>
     (outputWaiters s = [] \<or> outputQueue s = [] \<and> life s = Open) \<and>
     (outputProducerWaiters s = [] \<or> length (outputQueue s) = OUTPUT_BUFFER_CAPACITY \<and> life s = Open)"

definition input_ok :: "('i, 'o) handle \<Rightarrow> bool" where
  "input_ok s \<longleftrightarrow>
     length (inputBuf s) \<le> INPUT_BUFFER_CAPACITY \<and> length (inputWaiters s) \<le> 1 \<and>
     (inputWaiters s = [] \<or> inputBuf s = [] \<and> \<not> inputSideClosed s) \<and>
     (inputProducerWaiters s = [] \<or> length (inputBuf s) = INPUT_BUFFER_CAPACITY \<and> \<not> inputSideClosed s)"

text \<open>The life cycle: every terminal side effect happens exactly with the terminal transition.\<close>

definition life_ok :: "('i, 'o) handle \<Rightarrow> bool" where
  "life_ok s \<longleftrightarrow>
     (case life s of
        Open \<Rightarrow> \<not> aborted s \<and> closed_promise s = None
      | Closed \<Rightarrow> inputSideClosed s \<and> aborted s \<and> header s \<noteq> None \<and> closed_promise s = Some (Yields ())
      | Errored e \<Rightarrow> inputSideClosed s \<and> aborted s \<and> header s \<noteq> None \<and> closed_promise s = Some (Fails e))"

lemma output_ok_exec: "output_ok s \<Longrightarrow> output_ok (exec hook e s)"
  by (cases e) (auto simp: output_ok_def operation_defs split: operation_splits)

lemma length_one: "length xs \<le> Suc 0 \<Longrightarrow> xs \<noteq> [] \<Longrightarrow> length xs = Suc 0"
  by (cases xs) auto

lemma input_ok_exec: "input_ok s \<Longrightarrow> input_ok (exec hook e s)"
  by (cases e) (auto simp: input_ok_def operation_defs intro: length_one split: operation_splits)

lemma life_ok_exec: "life_ok s \<Longrightarrow> life_ok (exec hook e s)"
  by (cases e) (auto simp: life_ok_def operation_defs split: operation_splits)

text \<open>Bookkeeping of promises: each one that was issued is parked in one place or settled once.\<close>

definition settled_ids :: "('i, 'o) handle \<Rightarrow> nat list" where
  "settled_ids s = map fst (writes s) @ map fst (input_reads s) @ map fst (emits s) @ map fst (output_reads s)"

definition parked_ids :: "('i, 'o) handle \<Rightarrow> nat list" where
  "parked_ids s =
     inputWaiters s @ map fst (inputProducerWaiters s) @ outputWaiters s @ map fst (outputProducerWaiters s)"

definition promises_ok :: "('i, 'o) handle \<Rightarrow> bool" where
  "promises_ok s \<longleftrightarrow>
     mset (settled_ids s) + mset (parked_ids s) + mset (map fst (validating s)) = mset [0..<promises s]"

lemma mset_remove_key:
  "distinct (map fst xs) \<Longrightarrow> map_of xs p = Some v \<Longrightarrow>
     mset (map fst xs) = add_mset p (mset (map fst (filter (\<lambda>e. fst e \<noteq> p) xs)))"
proof (induction xs)
  case (Cons x xs)
  show ?case
  proof (cases "fst x = p")
    case True
    have "fst e \<noteq> p" if "e \<in> set xs" for e
    proof -
      have "fst e \<in> set (map fst xs)" using that by simp
      moreover have "p \<notin> set (map fst xs)" using Cons.prems(1) True by simp
      ultimately show ?thesis by metis
    qed
    then have "filter (\<lambda>e. fst e \<noteq> p) xs = xs" by (simp add: filter_id_conv)
    with True show ?thesis by simp
  next
    case False
    with Cons show ?thesis by (cases x) auto
  qed
qed simp

lemma promises_ok_distinct:
  assumes "promises_ok s"
  shows "distinct (settled_ids s @ parked_ids s @ map fst (validating s))"
proof -
  have "mset (settled_ids s @ parked_ids s @ map fst (validating s)) = mset [0..<promises s]"
    using assms by (simp add: promises_ok_def ac_simps)
  then show ?thesis by (metis distinct_upt mset_eq_imp_distinct_iff)
qed

lemma image_fst_pair [simp]:
  "image_mset fst (image_mset (\<lambda>(p, _). (p, c)) M) = image_mset fst M"
  "image_mset fst (image_mset (\<lambda>p. (p, c)) N) = N"
  by (induction M) (auto simp: image_mset.compositionality comp_def)

lemma mset_set_Suc [simp]: "mset_set {0..<Suc n} = add_mset n (mset_set {0..<n})"
  by (simp add: atLeast0_lessThan_Suc)

lemma promises_ok_exec:
  assumes "promises_ok s"
  shows "promises_ok (exec hook e s)"
proof (cases "\<exists>p a. e = Validated p a")
  case True
  then obtain p a where e: "e = Validated p a" by blast
  have "distinct (map fst (validating s))" using promises_ok_distinct [OF assms] by simp
  with mset_remove_key [of "validating s" p] assms show ?thesis
    by (auto simp: e promises_ok_def settled_ids_def parked_ids_def operation_defs ac_simps split: operation_splits)
next
  case False
  with assms show ?thesis
    by (cases e) (auto simp: promises_ok_def settled_ids_def parked_ids_def operation_defs ac_simps split: operation_splits)
qed

lemma reachable_ok:
  "reachable hook s \<Longrightarrow> output_ok s \<and> input_ok s \<and> life_ok s \<and> promises_ok s"
proof (induction rule: reachable.induct)
  case (start signal)
  show ?case
    by (simp add: new_handle_def empty_handle_def fireError_def output_ok_def input_ok_def life_ok_def
        promises_ok_def settled_ids_def parked_ids_def Let_def split: option.splits lifecycle.splits)
next
  case (step s e)
  then show ?case by (simp add: output_ok_exec input_ok_exec life_ok_exec promises_ok_exec)
qed

lemma reachable_run: "reachable hook s \<Longrightarrow> reachable hook (run hook es s)"
  by (induction es arbitrary: s) (simp_all add: run_def reachable.step)

lemma run_simps [simp]: "run hook [] s = s" "run hook (e # es) s = run hook es (exec hook e s)"
  "run hook (es @ fs) s = run hook fs (run hook es s)"
  by (simp_all add: run_def)

lemma terminal_exec: "life s \<noteq> Open \<Longrightarrow> life (exec hook e s) = life s"
  by (cases e) (auto simp: operation_defs split: operation_splits)

lemma terminal_run: "life s \<noteq> Open \<Longrightarrow> life (run hook es s) = life s"
  by (induction es arbitrary: s) (simp_all add: terminal_exec)

section \<open>Delivery of outputs\<close>

definition yielded :: "(nat \<times> 'v outcome) list \<Rightarrow> 'v list" where
  "yielded log = concat (map (\<lambda>(p, r). case r of Yields v \<Rightarrow> [v] | _ \<Rightarrow> []) log)"

lemma yielded_simps [simp]:
  "yielded [] = []" "yielded (xs @ ys) = yielded xs @ yielded ys"
  "yielded [(p, Yields v)] = [v]" "yielded [(p, Ends)] = []" "yielded [(p, Fails e)] = []"
  "yielded (map (\<lambda>p. (p, Ends)) ps) = []" "yielded (map (\<lambda>p. (p, Fails e)) ps) = []"
  by (induction ps) (simp_all add: yielded_def)

text \<open>The outputs a run hands to the session: those emitted while it is open.\<close>

definition offered_by :: "('i, 'o) event \<Rightarrow> ('i, 'o) handle \<Rightarrow> 'o list" where
  "offered_by e s = (case e of Emit v \<Rightarrow> if life s = Open then [v] else [] | _ \<Rightarrow> [])"

fun offered :: "bool \<Rightarrow> ('i, 'o) event list \<Rightarrow> ('i, 'o) handle \<Rightarrow> 'o list" where
  "offered hook [] s = []"
| "offered hook (e # es) s = offered_by e s @ offered hook es (exec hook e s)"

definition in_order :: "'o list \<Rightarrow> ('i, 'o) handle \<Rightarrow> bool" where
  "in_order vs s \<longleftrightarrow>
     prefix (yielded (output_reads s) @ outputQueue s) vs \<and>
     (life s = Open \<longrightarrow>
        yielded (output_reads s) @ outputQueue s @ map snd (outputProducerWaiters s) = vs)"

lemma in_order_exec:
  assumes "in_order vs s" and "output_ok s"
  shows "in_order (vs @ offered_by e s) (exec hook e s)"
  using assms
  by (cases e)
    (auto simp: in_order_def output_ok_def offered_by_def operation_defs split: operation_splits)

lemma in_order_run:
  "reachable hook s \<Longrightarrow> in_order vs s \<Longrightarrow> in_order (vs @ offered hook es s) (run hook es s)"
proof (induction es arbitrary: s vs)
  case (Cons e es)
  have "output_ok s" using reachable_ok [OF Cons.prems(1)] by simp
  from Cons.IH [OF reachable.step [OF Cons.prems(1)] in_order_exec [OF Cons.prems(2) this], of e]
  show ?case by simp
qed simp

section \<open>After the terminal transition\<close>

definition verdict :: "('i, 'o) handle \<Rightarrow> 'o outcome" where
  "verdict s = (case life s of Errored e \<Rightarrow> Fails e | _ \<Rightarrow> Ends)"

lemma drain:
  assumes "life s \<noteq> Open" and "output_ok s"
  shows "map snd (output_reads (run hook (replicate n Next) s)) =
           map snd (output_reads s) @ map Yields (take n (outputQueue s)) @
           replicate (n - length (outputQueue s)) (verdict s) \<and>
         outputWaiters (run hook (replicate n Next) s) = []"
  using assms
proof (induction n arbitrary: s)
  case 0
  then show ?case by (auto simp: output_ok_def)
next
  case (Suc n)
  let ?t = "exec hook Next s"
  have t: "life ?t = life s" "output_ok ?t" "verdict ?t = verdict s"
    using terminal_exec [OF Suc.prems(1), of hook Next] output_ok_exec [OF Suc.prems(2), of hook Next]
    by (simp_all add: verdict_def del: exec.simps)
  have "outputQueue ?t = tl (outputQueue s) \<and>
      map snd (output_reads ?t) =
        map snd (output_reads s) @ [case outputQueue s of [] \<Rightarrow> verdict s | v # _ \<Rightarrow> Yields v]"
    using Suc.prems
    by (auto simp: readNext_def output_ok_def verdict_def Let_def split: operation_splits)
  with Suc.IH [of ?t] t Suc.prems show ?case
    by (cases "outputQueue s") (simp_all del: exec.simps)
qed

section \<open>Delivery of inputs\<close>

text \<open>The inputs a run hands over: writes that pass their checks, at the moment they do.\<close>

definition offered_input :: "bool \<Rightarrow> ('i, 'o) event \<Rightarrow> ('i, 'o) handle \<Rightarrow> 'i list" where
  "offered_input hook e s =
     (if throwIfUnwritable s \<noteq> None then []
      else
        case e of
          Write v \<Rightarrow> if hook then [] else [v]
        | Validated p None \<Rightarrow> (case map_of (validating s) p of None \<Rightarrow> [] | Some v \<Rightarrow> [v])
        | _ \<Rightarrow> [])"

fun offered_inputs :: "bool \<Rightarrow> ('i, 'o) event list \<Rightarrow> ('i, 'o) handle \<Rightarrow> 'i list" where
  "offered_inputs hook [] s = []"
| "offered_inputs hook (e # es) s = offered_input hook e s @ offered_inputs hook es (exec hook e s)"

definition inputs_in_order :: "'i list \<Rightarrow> ('i, 'o) handle \<Rightarrow> bool" where
  "inputs_in_order vs s \<longleftrightarrow>
     prefix (yielded (input_reads s) @ inputBuf s) vs \<and>
     (inputSideClosed s \<or>
        yielded (input_reads s) @ inputBuf s @ map snd (inputProducerWaiters s) = vs)"

lemma yielded_map_pair [simp]: "yielded (map (\<lambda>(p, _). (p, Fails e)) ps) = []"
  by (induction ps) (simp_all add: yielded_def case_prod_beta)

lemma inputs_in_order_terminal:
  assumes "inputs_in_order vs s"
  shows "inputs_in_order vs (closeOutput s)" "inputs_in_order vs (fireError e s)" "inputs_in_order vs (close s)"
  using assms by (simp_all add: inputs_in_order_def closeOutput_def fireError_def close_def Let_def)

lemma inputs_in_order_enqueue:
  assumes "inputs_in_order vs s" and "input_ok s"
  shows "inputs_in_order (vs @ (if throwIfUnwritable s = None then [v] else [])) (enqueue_input p v s)"
proof (cases "throwIfUnwritable s")
  case (Some e)
  with assms(1) show ?thesis by (simp add: enqueue_input_def inputs_in_order_def)
next
  case None
  then have "\<not> inputSideClosed s" by (simp add: throwIfUnwritable_def split: lifecycle.splits if_splits)
  with None assms show ?thesis
    by (cases "inputWaiters s")
      (auto simp: enqueue_input_def inputs_in_order_def input_ok_def INPUT_BUFFER_CAPACITY_def)
qed

lemma inputs_in_order_next:
  assumes "inputs_in_order vs s" and "input_ok s"
  shows "inputs_in_order vs (inputs_next s)"
proof (cases "inputBuf s")
  case Nil
  with assms show ?thesis
    by (auto simp: inputs_next_def inputs_in_order_def Let_def split: lifecycle.splits)
next
  case (Cons v b)
  with assms have "b = []" "inputWaiters s = []" by (simp_all add: input_ok_def INPUT_BUFFER_CAPACITY_def)
  with Cons assms show ?thesis
    by (cases "inputProducerWaiters s")
      (auto simp: inputs_next_def inputs_in_order_def input_ok_def Let_def split: lifecycle.splits)
qed

lemma inputs_in_order_cong:
  "inputs_in_order vs s \<Longrightarrow> input_reads t = input_reads s \<Longrightarrow> inputBuf t = inputBuf s \<Longrightarrow>
     inputSideClosed t = inputSideClosed s \<Longrightarrow> inputProducerWaiters t = inputProducerWaiters s \<Longrightarrow>
     inputs_in_order vs t"
  by (simp add: inputs_in_order_def)

lemma unwritable_cong:
  "life t = life s \<Longrightarrow> inputSideClosed t = inputSideClosed s \<Longrightarrow> throwIfUnwritable t = throwIfUnwritable s"
  by (simp add: throwIfUnwritable_def)

lemma input_side_kept:
  assumes "e \<in> {Acquire, Next, Emit v, Set_Header md, Set_Trailer md}"
  shows "input_reads (exec hook e s) = input_reads s" "inputBuf (exec hook e s) = inputBuf s"
    "inputSideClosed (exec hook e s) = inputSideClosed s"
    "inputProducerWaiters (exec hook e s) = inputProducerWaiters s"
  using assms
  by (auto simp: outputs_def readNext_def emitOutput_def setHeader_def setTrailer_def Let_def
      split: operation_splits)

lemma inputs_in_order_writes [simp]: "inputs_in_order vs (s \<lparr> writes := w \<rparr>) = inputs_in_order vs s"
  by (simp add: inputs_in_order_def)

lemma inputs_in_order_exec:
  assumes "inputs_in_order vs s" and "input_ok s"
  shows "inputs_in_order (vs @ offered_input hook e s) (exec hook e s)"
proof -
  note kept = inputs_in_order_cong [OF assms(1) input_side_kept]
  have same: "inputs_in_order vs s \<Longrightarrow> offered_input hook e s = [] \<Longrightarrow> inputs_in_order vs (exec hook e s) \<Longrightarrow> ?thesis"
    by simp
  show ?thesis
  proof (cases e)
    case (Write v)
    let ?f = "fresh_promise s"
    have f: "inputs_in_order vs ?f" "input_ok ?f" "throwIfUnwritable ?f = throwIfUnwritable s"
      using assms by (simp_all add: inputs_in_order_def input_ok_def throwIfUnwritable_def)
    from inputs_in_order_enqueue [OF f(1,2), of v "promises s"] f show ?thesis
      by (auto simp: Write write_input_def offered_input_def Let_def split: option.splits
          intro: inputs_in_order_cong [OF assms(1)])
  next
    case (Validated p answer)
    show ?thesis
    proof (cases "map_of (validating s) p")
      case None
      with assms show ?thesis by (simp add: Validated validated_def offered_input_def split: option.splits)
    next
      case (Some v)
      let ?t = "s\<lparr>validating := filter (\<lambda>e. fst e \<noteq> p) (validating s)\<rparr>"
      have t: "inputs_in_order vs ?t" "input_ok ?t" "throwIfUnwritable ?t = throwIfUnwritable s"
        using assms by (simp_all add: inputs_in_order_def input_ok_def throwIfUnwritable_def)
      from inputs_in_order_enqueue [OF t(1,2), of v p] inputs_in_order_terminal(2) [OF t(1)] t(3) Some show ?thesis
        by (auto simp: Validated validated_def offered_input_def Let_def split: option.splits)
    qed
  qed (use assms kept inputs_in_order_terminal inputs_in_order_next in
      \<open>auto simp: offered_input_def cancel_def simp del: exec.simps(5,6,8,11,12)\<close>)
qed

lemma inputs_in_order_run:
  "reachable hook s \<Longrightarrow> inputs_in_order vs s \<Longrightarrow>
     inputs_in_order (vs @ offered_inputs hook es s) (run hook es s)"
proof (induction es arbitrary: s vs)
  case (Cons e es)
  have "input_ok s" using reachable_ok [OF Cons.prems(1)] by simp
  from Cons.IH [OF reachable.step [OF Cons.prems(1)] inputs_in_order_exec [OF Cons.prems(2) this], of e]
  show ?case by simp
qed simp

section \<open>Claims\<close>

lemma new_handle_empty:
  "yielded (output_reads (new_handle signal)) = []" "outputQueue (new_handle signal) = []"
  "outputProducerWaiters (new_handle signal) = []"
  "yielded (input_reads (new_handle signal)) = []" "inputBuf (new_handle signal) = []"
  "inputProducerWaiters (new_handle signal) = []"
  by (simp_all add: new_handle_def empty_handle_def fireError_def Let_def split: option.splits)

lemma run_from_start:
  fixes signal :: "jsval option"
  defines "s0 \<equiv> new_handle signal"
  shows "in_order (offered hook es s0) (run hook es s0) \<and>
    inputs_in_order (offered_inputs hook es s0) (run hook es s0) \<and>
    output_ok (run hook es s0) \<and> input_ok (run hook es s0)"
proof -
  have r: "reachable hook s0" by (simp add: s0_def reachable.start)
  have "in_order [] s0" "inputs_in_order [] s0"
    by (simp_all add: in_order_def inputs_in_order_def s0_def new_handle_empty)
  with in_order_run [OF r, of "[]"] inputs_in_order_run [OF r, of "[]"] reachable_ok [OF reachable_run [OF r]]
  show ?thesis by simp
qed

text \<open>C1. Lossless in-order delivery, in both directions, under any interleaving of the caller, the
  binding and an external abort: the values read so far, followed by the bounded queue, are a prefix
  of the values handed over, in the order they were handed over, and nothing is read twice.  While
  the side is open nothing is lost either: the remaining values are exactly the parked ones.\<close>

theorem delivery_is_lossless_and_ordered:
  fixes es :: "('i, 'o) event list" and signal :: "jsval option" and hook :: bool
  defines "s0 \<equiv> new_handle signal"
  defines "s \<equiv> run hook es s0"
  shows "prefix (yielded (output_reads s) @ outputQueue s) (offered hook es s0) \<and>
    prefix (yielded (input_reads s) @ inputBuf s) (offered_inputs hook es s0) \<and>
    length (outputQueue s) \<le> 4 \<and> length (inputBuf s) \<le> 1 \<and>
    (life s = Open \<longrightarrow>
       yielded (output_reads s) @ outputQueue s @ map snd (outputProducerWaiters s) = offered hook es s0) \<and>
    (\<not> inputSideClosed s \<longrightarrow>
       yielded (input_reads s) @ inputBuf s @ map snd (inputProducerWaiters s) = offered_inputs hook es s0)"
  using run_from_start [of hook es signal]
  unfolding s0_def s_def in_order_def inputs_in_order_def output_ok_def input_ok_def
    OUTPUT_BUFFER_CAPACITY_def INPUT_BUFFER_CAPACITY_def
  by (elim conjE, intro conjI) blast+

definition example_events :: "(nat, nat) event list" where
  "example_events =
     [Write 7, Emit 1, Emit 2, Emit 3, Emit 4, Emit 5, Next, Read_Input, Write 8, Write 9]"

lemma delivery_is_lossless_and_ordered_witness:
  "yielded (output_reads (run False example_events (new_handle None))) = [1] \<and>
   outputQueue (run False example_events (new_handle None)) = [2, 3, 4, 5] \<and>
   yielded (input_reads (run False example_events (new_handle None))) = [7] \<and>
   map snd (inputProducerWaiters (run False example_events (new_handle None))) = [9]"
proof -
  let ?s = "run False example_events (new_handle None)"
  have o: "life ?s = Open" "\<not> inputSideClosed ?s" by code_simp+
  have q: "yielded (output_reads ?s) = [1]" "map snd (outputProducerWaiters ?s) = []"
    "offered False example_events (new_handle None) = [1, 2, 3, 4, 5]"
    "yielded (input_reads ?s) = [7]" "inputBuf ?s = [8]"
    "offered_inputs False example_events (new_handle None) = [7, 8, 9]"
    by code_simp+
  from delivery_is_lossless_and_ordered [of False example_events None] o q show ?thesis
    by (auto simp: Cons_eq_append_conv)
qed

text \<open>C2. Drain before terminal: once the session has ended, successfully or with an error, reading on
  returns every output still queued, in order, then the verdict (the end of the sequence, or the
  terminal error) and nothing else; no such read parks.\<close>

theorem queued_outputs_precede_the_verdict:
  assumes "reachable hook s" and "life s \<noteq> Open"
  shows "\<forall>n. map snd (output_reads (run hook (replicate n Next) s)) =
      map snd (output_reads s) @ map Yields (take n (outputQueue s)) @
      replicate (n - length (outputQueue s)) (case life s of Errored e \<Rightarrow> Fails e | _ \<Rightarrow> Ends) \<and>
    outputWaiters (run hook (replicate n Next) s) = []"
  using drain [OF assms(2)] reachable_ok [OF assms(1)] unfolding verdict_def by blast

lemma queued_outputs_precede_the_verdict_witness:
  "map snd (output_reads (run False (replicate 3 Next)
     (run False [Emit (1 :: nat), Emit 2, Fire_Error closed_error] (new_handle None :: (nat, nat) handle)))) =
   [Yields 1, Yields 2, Fails closed_error]"
proof -
  let ?s = "run False [Emit (1 :: nat), Emit 2, Fire_Error closed_error] (new_handle None :: (nat, nat) handle)"
  have r: "reachable False ?s" by (rule reachable_run) (rule reachable.start)
  have l: "life ?s = Errored closed_error" "outputQueue ?s = [1, 2]" "output_reads ?s = []"
    by code_simp+
  then have "life ?s \<noteq> Open" by simp
  from queued_outputs_precede_the_verdict [OF r this, rule_format, of 3] l show ?thesis
    by (simp add: numeral_eq_Suc del: run_simps)
qed

text \<open>C3. Terminate exactly once, stranding nobody: after the terminal transition no read, write or
  emit is left parked, every promise ever issued is settled exactly once (or still inside the
  validation hook), \<open>closed\<close> is settled with the verdict, the abort signal has fired, and no later
  operation of either side changes the verdict.\<close>

theorem terminal_transition_settles_everything:
  assumes "reachable hook s" and "life s \<noteq> Open"
  shows "parked_ids s = [] \<and>
    mset (settled_ids s) + mset (map fst (validating s)) = mset [0..<promises s] \<and>
    aborted s \<and> inputSideClosed s \<and>
    closed_promise s = Some (case life s of Errored e \<Rightarrow> Fails e | _ \<Rightarrow> Yields ()) \<and>
    (\<forall>es. life (run hook es s) = life s \<and> closed_promise (run hook es s) = closed_promise s)"
proof -
  have ok: "output_ok s" "input_ok s" "life_ok s" "promises_ok s"
    using reachable_ok [OF assms(1)] by simp_all
  then have p: "parked_ids s = []" and l: "inputSideClosed s" "aborted s"
    "closed_promise s = Some (case life s of Errored e \<Rightarrow> Fails e | _ \<Rightarrow> Yields ())"
    using assms(2)
    by (auto simp: parked_ids_def output_ok_def input_ok_def life_ok_def split: lifecycle.splits)
  have "closed_promise (run hook es s) = closed_promise s" for es
    using reachable_ok [OF reachable_run [OF assms(1)]] terminal_run [OF assms(2)] assms(2) l(3)
    by (auto simp: life_ok_def split: lifecycle.splits)
  with p l ok(4) terminal_run [OF assms(2)] show ?thesis by (simp add: promises_ok_def)
qed

lemma terminal_transition_settles_everything_witness:
  "parked_ids (run True [Next, Read_Input, Write (3 :: nat), Signal_Abort JUndefined]
     (new_handle None :: (nat, nat) handle)) = []"
proof -
  let ?s = "run True [Next, Read_Input, Write (3 :: nat), Signal_Abort JUndefined] (new_handle None :: (nat, nat) handle)"
  have r: "reachable True ?s" by (rule reachable_run) (rule reachable.start)
  have "life ?s = Errored (abortToTerminal JUndefined)" by code_simp
  then have "life ?s \<noteq> Open" by (simp only: lifecycle.distinct not_False_eq_True)
  from terminal_transition_settles_everything [OF r this] show ?thesis by (rule conjunct1)
qed

end
