(* ===== verification/Sse.thy ===== *)
theory Sse
  imports Invocation_Handle Media_Type "HOL-Library.AList"
begin

text \<open>
  The event-stream reader of \<open>sse.ts\<close>.  The body arrives as the texts the platform's streaming
  UTF-8 decoder returns for the chunks; a read can also fail or find the session aborted.  The
  consumer's decode hook, and whether the session still takes an output, are parameters.  Lengths
  in UTF-8 bytes are lengths of the string; the line guard compares UTF-16 units.
\<close>

datatype thrown = Thrown_Invocation inv_error | Thrown_Other string

definition stream_failure :: "thrown \<Rightarrow> inv_error" where
  "stream_failure t =
     (case t of Thrown_Invocation e \<Rightarrow> e | Thrown_Other message \<Rightarrow> plain_error ''ERR_STREAM_ERROR'' message)"

record raw_result =
  raw_status :: nat
  raw_body :: string
  raw_meta :: metadata

record sse_config =
  max_event_bytes :: nat
  openAPI32Object :: bool
  decode_unit :: "raw_result \<Rightarrow> (thrown, jsval) res"
  takes_output :: "nat \<Rightarrow> jsval \<Rightarrow> bool"
  sse_status :: nat
  invocation_meta :: metadata
  double_digits :: "string \<Rightarrow> string"

record sse_state =
  eventName :: string
  lastEventID :: string
  eventID :: "string option"
  dataLines :: "string list"
  retryMs :: string
  retrySet :: bool
  eventBytes :: nat
  firstLine :: bool
  emitted :: "(jsval \<times> metadata) list"
  fired :: "inv_error option"

definition sse_start :: sse_state where
  "sse_start =
     \<lparr> eventName = [], lastEventID = [], eventID = None, dataLines = [], retryMs = ''0'', retrySet = False,
       eventBytes = 0, firstLine = True, emitted = [], fired = None \<rparr>"

definition SSE_MAX_LINE_BYTES :: nat where "SSE_MAX_LINE_BYTES = 16 * 1024 * 1024"

definition isSSEContentType :: "string option \<Rightarrow> bool" where
  "isSSEContentType contentType =
     (case contentType of
        None \<Rightarrow> False
      | Some t \<Rightarrow> t \<noteq> [] \<and> normalizeMediaType t = ''text/event-stream'')"

section \<open>Dispatch\<close>

definition event_meta :: "sse_config \<Rightarrow> string \<Rightarrow> string \<Rightarrow> string option \<Rightarrow> metadata" where
  "event_meta cfg name lastID retry =
     (let meta = invocation_meta cfg;
          meta = (if name \<noteq> [] then AList.update ''x-sse-event'' [name] meta else meta);
          meta = (if lastID \<noteq> [] then AList.update ''x-sse-id'' [lastID] meta else meta) in
      case retry of None \<Rightarrow> meta | Some r \<Rightarrow> AList.update ''x-sse-retry'' [r] meta)"

definition event_item :: "string \<Rightarrow> string \<Rightarrow> string option \<Rightarrow> string option \<Rightarrow> jsval" where
  "event_item data name ident retry =
     JObj ([(''data'', JStr data)] @ (if name \<noteq> [] then [(''event'', JStr name)] else []) @
           (case ident of None \<Rightarrow> [] | Some i \<Rightarrow> [(''id'', JStr i)]) @
           (case retry of None \<Rightarrow> [] | Some r \<Rightarrow> [(''retry'', JNum r)]))"

definition event_value :: "sse_config \<Rightarrow> string \<Rightarrow> string \<Rightarrow> string option \<Rightarrow> string option \<Rightarrow> metadata \<Rightarrow> (thrown, jsval) res" where
  "event_value cfg data name ident retry meta =
     (if openAPI32Object cfg then Inr (event_item data name ident retry)
      else decode_unit cfg \<lparr> raw_status = sse_status cfg, raw_body = data, raw_meta = meta \<rparr>)"

definition pending_retry :: "sse_state \<Rightarrow> string option" where
  "pending_retry st = (if retrySet st then Some (retryMs st) else None)"

definition dispatch :: "sse_config \<Rightarrow> sse_state \<Rightarrow> bool \<times> sse_state" where
  "dispatch cfg st =
     (let data = join [CHR 0x0A] (dataLines st);
          name = eventName st;
          ident = eventID st;
          cleared = st \<lparr> eventName := [], eventID := None, dataLines := [] \<rparr> in
      if dataLines st = [] then (True, cleared)
      else
        let retry = pending_retry st;
            meta = event_meta cfg name (lastEventID st) retry;
            cleared = cleared \<lparr> retryMs := ''0'', retrySet := False \<rparr> in
        case event_value cfg data name ident retry meta of
          Inl t \<Rightarrow> (False, cleared \<lparr> fired := Some (stream_failure t) \<rparr>)
        | Inr v \<Rightarrow>
            if takes_output cfg (length (emitted st)) v
            then (True, cleared \<lparr> emitted := emitted st @ [(v, meta)] \<rparr>)
            else (False, cleared))"

section \<open>Lines\<close>

definition bom :: string where "bom = [CHR 0xEF, CHR 0xBB, CHR 0xBF]"

definition strip_bom :: "string \<Rightarrow> string" where
  "strip_bom line = (if prefix bom line then drop 3 line else line)"

definition field_and_value :: "string \<Rightarrow> string \<times> string" where
  "field_and_value line =
     (case cut (CHR '':'') line of
        None \<Rightarrow> (line, [])
      | Some (field, v) \<Rightarrow> (field, case v of [] \<Rightarrow> [] | c # cs \<Rightarrow> if c = CHR '' '' then cs else v))"

text \<open>
  \<open>String(Number.parseInt(v, 10))\<close>: the digits without leading zeros, exact below 10 ^ 15; the
  double nearest to a larger number, and its spelling, are the language's (\<open>double_digits\<close>).
\<close>

definition parse_retry :: "sse_config \<Rightarrow> string \<Rightarrow> string" where
  "parse_retry cfg v =
     (let digits = dropWhile (\<lambda>c. c = CHR ''0'') v in
      if digits = [] then ''0'' else if length digits \<le> 15 then digits else double_digits cfg digits)"

definition apply_field :: "sse_config \<Rightarrow> string \<Rightarrow> string \<Rightarrow> sse_state \<Rightarrow> sse_state" where
  "apply_field cfg field v st =
     (if field = ''event'' then st \<lparr> eventName := v \<rparr>
      else if field = ''id'' then
        (if CHR 0x00 \<in> set v then st else st \<lparr> lastEventID := v, eventID := Some v \<rparr>)
      else if field = ''data'' then st \<lparr> dataLines := dataLines st @ [v] \<rparr>
      else if field = ''retry'' then
        (if v \<noteq> [] \<and> list_all is_digit v then st \<lparr> retryMs := parse_retry cfg v, retrySet := True \<rparr> else st)
      else st)"

definition event_limit_error :: "nat \<Rightarrow> inv_error" where
  "event_limit_error n =
     plain_error ''ERR_RESPONSE_ERROR'' (''SSE event exceeds '' @ decimal n @ '' byte limit'')"

definition processLine :: "sse_config \<Rightarrow> string \<Rightarrow> sse_state \<Rightarrow> bool \<times> sse_state" where
  "processLine cfg line st =
     (let line = (if firstLine st then strip_bom line else line);
          st = st \<lparr> firstLine := False, eventBytes := eventBytes st + length line + 1 \<rparr> in
      if eventBytes st > max_event_bytes cfg
      then (False, st \<lparr> fired := Some (event_limit_error (max_event_bytes cfg)) \<rparr>)
      else if line = [] then dispatch cfg (st \<lparr> eventBytes := 0 \<rparr>)
      else if hd line = CHR '':'' then (True, st)
      else let (field, v) = field_and_value line in (True, apply_field cfg field v st))"

section \<open>The buffer\<close>

text \<open>The match of \<open>/\r\n|\r|\n/g\<close> in a text that starts at index \<open>i\<close>: its index and length.\<close>

fun terminator_at :: "string \<Rightarrow> nat \<Rightarrow> (nat \<times> nat) option" where
  "terminator_at [] i = None"
| "terminator_at (c # s) i =
     (if c = CHR 0x0D then Some (i, if s \<noteq> [] \<and> hd s = CHR 0x0A then 2 else 1)
      else if c = CHR 0x0A then Some (i, 1)
      else terminator_at s (Suc i))"

lemma terminator_at_bounds:
  "terminator_at s i = Some (j, n) \<Longrightarrow> i \<le> j \<and> 0 < n \<and> j + n \<le> i + length s"
  by (induction s i rule: terminator_at.induct) (auto split: if_splits simp: Suc_le_eq)

function drain_loop ::
  "sse_config \<Rightarrow> string \<Rightarrow> bool \<Rightarrow> nat \<Rightarrow> nat \<Rightarrow> sse_state \<Rightarrow> bool \<times> nat \<times> sse_state" where
  "drain_loop cfg buffer atEOF start from st =
     (case terminator_at (drop from buffer) from of
        None \<Rightarrow> (True, start, st)
      | Some (i, n) \<Rightarrow>
          if n = 1 \<and> buffer ! i = CHR 0x0D \<and> Suc i = length buffer \<and> \<not> atEOF then (True, start, st)
          else
            let (go, st') = processLine cfg (drop start (take i buffer)) st in
            if go then drain_loop cfg buffer atEOF (i + n) (i + n) st' else (False, start, st'))"
  by pat_completeness auto
termination
proof (relation "measure (\<lambda>(cfg, buffer, atEOF, start, from, st). length buffer - from)")
  fix cfg :: sse_config and buffer :: string and atEOF :: bool and start "from" :: nat
    and st st' :: sse_state and i n go and p q :: "nat \<times> nat"
  assume "terminator_at (drop from buffer) from = Some p" "(i, n) = p"
  then have "terminator_at (drop from buffer) from = Some (i, n)" by simp
  from terminator_at_bounds [OF this] have "from < i + n" "i + n \<le> max from (length buffer)" "0 < length buffer - from"
    by (auto simp: le_diff_conv2 max_def)
  then show "((cfg, buffer, atEOF, i + n, i + n, st'), cfg, buffer, atEOF, start, from, st)
      \<in> measure (\<lambda>(cfg, buffer, atEOF, start, from, st). length buffer - from)"
    by auto
qed simp

definition drainLines ::
  "sse_config \<Rightarrow> bool \<Rightarrow> string \<times> nat \<Rightarrow> sse_state \<Rightarrow> bool \<times> (string \<times> nat) \<times> sse_state" where
  "drainLines cfg atEOF buf st =
     (let (buffer, scanned) = buf;
          (go, start, st) = drain_loop cfg buffer atEOF 0 scanned st in
      if \<not> go then (False, buf, st)
      else
        let rest = drop start buffer in
        (True, (rest, if rest \<noteq> [] \<and> last rest = CHR 0x0D \<and> \<not> atEOF then length rest - 1 else length rest), st))"

section \<open>The read loop\<close>

datatype sse_read =
    Signal_Aborted
  | Read_Fails bool string
  | Chunk string

datatype sse_end =
    Output_Closed
  | Error_Fired inv_error
  | Session_Over

text \<open>UTF-16 units of a text in UTF-8: one per character, two per character outside the BMP.\<close>

definition utf16_length :: "string \<Rightarrow> nat" where
  "utf16_length s =
     sum_list (map (\<lambda>c. if 0x80 \<le> byte c \<and> byte c < 0xC0 then 0 else if 0xF0 \<le> byte c then 2 else 1) s)"

definition stopped :: "sse_state \<Rightarrow> sse_end" where
  "stopped st = (case fired st of None \<Rightarrow> Session_Over | Some e \<Rightarrow> Error_Fired e)"

definition line_limit_error :: inv_error where
  "line_limit_error = plain_error ''ERR_STREAM_ERROR'' (''SSE line exceeds '' @ decimal SSE_MAX_LINE_BYTES @ '' byte limit'')"

fun read_loop ::
  "sse_config \<Rightarrow> sse_read list \<Rightarrow> string \<Rightarrow> string \<times> nat \<Rightarrow> sse_state \<Rightarrow> sse_end \<times> sse_state" where
  "read_loop cfg [] flush (buffer, scanned) st =
     (let (go, (rest, _), st) = drainLines cfg True (buffer @ flush, scanned) st in
      if \<not> go then (stopped st, st)
      else if rest = [] then (Output_Closed, st)
      else let (go, st) = processLine cfg rest st in (if go then Output_Closed else stopped st, st))"
| "read_loop cfg (Signal_Aborted # reads) flush buf st = (Session_Over, st)"
| "read_loop cfg (Read_Fails was_aborted message # reads) flush buf st =
     (if was_aborted then (Session_Over, st)
      else let e = plain_error ''ERR_STREAM_ERROR'' message in (Error_Fired e, st \<lparr> fired := Some e \<rparr>))"
| "read_loop cfg (Chunk text # reads) flush (buffer, scanned) st =
     (let (go, (rest, scanned), st) = drainLines cfg False (buffer @ text, scanned) st in
      if \<not> go then (stopped st, st)
      else if utf16_length rest > SSE_MAX_LINE_BYTES
      then (Error_Fired line_limit_error, st \<lparr> fired := Some line_limit_error \<rparr>)
      else read_loop cfg reads flush (rest, scanned) st)"

definition streamSSE :: "sse_config \<Rightarrow> (sse_read list \<times> string) option \<Rightarrow> sse_end \<times> sse_state" where
  "streamSSE cfg body =
     (case body of
        None \<Rightarrow> (Output_Closed, sse_start)
      | Some (reads, flush) \<Rightarrow> read_loop cfg reads flush ([], 0) sse_start)"

section \<open>The line grammar\<close>

text \<open>
  The grammar without a buffer: the complete lines of a text and the unterminated rest.  A carriage
  return at the edge ends a line only at the end of the stream.
\<close>

definition no_terminator :: "string \<Rightarrow> bool" where
  "no_terminator s \<longleftrightarrow> CHR 0x0D \<notin> set s \<and> CHR 0x0A \<notin> set s"

definition hold_char :: "char \<Rightarrow> string list \<times> string \<Rightarrow> string list \<times> string" where
  "hold_char c r = (case r of ([], rest) \<Rightarrow> ([], c # rest) | (l # ls, rest) \<Rightarrow> ((c # l) # ls, rest))"

fun split_lines :: "bool \<Rightarrow> string \<Rightarrow> string list \<times> string" where
  "split_lines atEOF [] = ([], [])"
| "split_lines atEOF (c # s) =
     (if c = CHR 0x0A then (let (ls, rest) = split_lines atEOF s in ([] # ls, rest))
      else if c = CHR 0x0D then
        (case s of
           [] \<Rightarrow> if atEOF then ([[]], []) else ([], [c])
         | d # t \<Rightarrow>
             let (ls, rest) = split_lines atEOF (if d = CHR 0x0A then t else s) in ([] # ls, rest))
      else hold_char c (split_lines atEOF s))"

fun run_lines :: "sse_config \<Rightarrow> string list \<Rightarrow> sse_state \<Rightarrow> bool \<times> sse_state" where
  "run_lines cfg [] st = (True, st)"
| "run_lines cfg (l # ls) st =
     (let (go, st) = processLine cfg l st in if go then run_lines cfg ls st else (False, st))"

lemma run_lines_append:
  "run_lines cfg (ls @ ms) st =
     (let (go, st) = run_lines cfg ls st in if go then run_lines cfg ms st else (False, st))"
  by (induction ls arbitrary: st) (auto split: prod.splits)

lemma hold_char_simps [simp]:
  "hold_char c ([], rest) = ([], c # rest)" "hold_char c (l # ls, rest) = ((c # l) # ls, rest)"
  by (simp_all add: hold_char_def)

lemma no_terminator_simps [simp]:
  "no_terminator []" "no_terminator (c # s) \<longleftrightarrow> c \<noteq> CHR 0x0D \<and> c \<noteq> CHR 0x0A \<and> no_terminator s"
  "no_terminator (s @ t) \<longleftrightarrow> no_terminator s \<and> no_terminator t"
  by (auto simp: no_terminator_def)

text \<open>One line at a time: a terminator-free prefix, then each kind of terminator.\<close>

lemma split_lines_free: "no_terminator w \<Longrightarrow> split_lines e w = ([], w)"
  by (induction w) auto

lemma split_lines_LF:
  "no_terminator w \<Longrightarrow> split_lines e (w @ CHR 0x0A # t) = (let (ls, rest) = split_lines e t in (w # ls, rest))"
  by (induction w) (auto split: prod.splits)

lemma split_lines_CRLF:
  "no_terminator w \<Longrightarrow>
     split_lines e (w @ CHR 0x0D # CHR 0x0A # t) = (let (ls, rest) = split_lines e t in (w # ls, rest))"
  by (induction w) (auto split: prod.splits)

lemma split_lines_CR:
  "no_terminator w \<Longrightarrow> t = [] \<longrightarrow> e \<Longrightarrow> t = [] \<or> hd t \<noteq> CHR 0x0A \<Longrightarrow>
     split_lines e (w @ CHR 0x0D # t) = (let (ls, rest) = split_lines e t in (w # ls, rest))"
  by (induction w) (auto split: prod.splits list.splits)

lemma split_lines_held: "no_terminator w \<Longrightarrow> split_lines False (w @ [CHR 0x0D]) = ([], w @ [CHR 0x0D])"
  by (induction w) auto

lemma terminator_at_None: "terminator_at s i = None \<longleftrightarrow> no_terminator s"
  by (induction s i rule: terminator_at.induct) auto

definition line_ends :: "string \<Rightarrow> string \<Rightarrow> string \<Rightarrow> nat \<Rightarrow> bool" where
  "line_ends s w t n \<longleftrightarrow>
     (s = w @ CHR 0x0A # t \<and> n = 1) \<or> (s = w @ CHR 0x0D # CHR 0x0A # t \<and> n = 2) \<or>
     (s = w @ CHR 0x0D # t \<and> n = 1 \<and> (t = [] \<or> hd t \<noteq> CHR 0x0A))"

lemma line_ends_Cons: "line_ends s w t n \<Longrightarrow> line_ends (c # s) (c # w) t n"
  by (auto simp: line_ends_def)

lemma line_ends_drop: "line_ends s w t n \<Longrightarrow> drop (length w + n) s = t"
  by (auto simp: line_ends_def)

lemma terminator_at_Some:
  "terminator_at s i = Some (j, n) \<Longrightarrow> \<exists>w t. no_terminator w \<and> j = i + length w \<and> line_ends s w t n"
proof (induction s i rule: terminator_at.induct)
  case (2 c s i)
  consider (crlf) "c = CHR 0x0D" "s \<noteq> []" "hd s = CHR 0x0A" | (cr) "c = CHR 0x0D" "s = [] \<or> hd s \<noteq> CHR 0x0A"
    | (lf) "c = CHR 0x0A" | (other) "c \<noteq> CHR 0x0D" "c \<noteq> CHR 0x0A"
    by blast
  then show ?case
  proof cases
    case crlf
    then have "line_ends (c # s) [] (tl s) n" "j = i"
      using "2.prems" by (cases s; simp add: line_ends_def)+
    then show ?thesis by force
  next
    case cr
    then have "line_ends (c # s) [] s n" "j = i" using "2.prems" by (auto simp: line_ends_def)
    then show ?thesis by force
  next
    case lf
    then have "line_ends (c # s) [] s n" "j = i" using "2.prems" by (auto simp: line_ends_def)
    then show ?thesis by force
  next
    case other
    then obtain w t where w: "no_terminator w" "j = Suc i + length w" "line_ends s w t n"
      using 2 by auto
    with other line_ends_Cons [OF w(3)] show ?thesis by (intro exI [where x = "c # w"] exI [where x = t]) simp
  qed
qed simp

lemma split_lines_step:
  assumes "no_terminator w" and "line_ends s w t n" and "s = w @ [CHR 0x0D] \<Longrightarrow> e"
  shows "split_lines e s = (let (ls, rest) = split_lines e t in (w # ls, rest))"
proof -
  consider (lf) "s = w @ CHR 0x0A # t" | (crlf) "s = w @ CHR 0x0D # CHR 0x0A # t"
    | (cr) "s = w @ CHR 0x0D # t" "t = [] \<or> hd t \<noteq> CHR 0x0A"
    using assms(2) by (auto simp: line_ends_def)
  then show ?thesis
  proof cases
    case cr
    with assms(3) have "t = [] \<longrightarrow> e" by auto
    with cr assms(1) show ?thesis by (simp add: split_lines_CR)
  qed (simp_all add: assms(1) split_lines_LF split_lines_CRLF)
qed

text \<open>A chunk boundary anywhere: what was left of the first part is read on with the second.\<close>

lemma split_lines_append:
  "split_lines e (a @ b) =
     (let (ls, rest) = split_lines False a; (ms, rest') = split_lines e (rest @ b) in (ls @ ms, rest'))"
proof (induction a rule: length_induct)
  case (1 a)
  show ?case
  proof (cases "terminator_at a 0")
    case None
    then show ?thesis by (simp add: terminator_at_None split_lines_free)
  next
    case (Some p)
    obtain j n where p: "terminator_at a 0 = Some (j, n)" using Some by (cases p) auto
    from terminator_at_Some [OF p] obtain w t where w: "no_terminator w" and t: "line_ends a w t n"
      by blast
    then have "length t < length a" by (auto simp: line_ends_def)
    with 1 have IH: "split_lines e (t @ b) =
        (let (ls, rest) = split_lines False t; (ms, rest') = split_lines e (rest @ b) in (ls @ ms, rest'))"
      by blast
    from t consider (lf) "a = w @ CHR 0x0A # t" | (crlf) "a = w @ CHR 0x0D # CHR 0x0A # t"
      | (cr) "a = w @ CHR 0x0D # t" "t = [] \<or> hd t \<noteq> CHR 0x0A"
      by (auto simp: line_ends_def)
    then show ?thesis
    proof cases
      case lf
      with w IH show ?thesis by (simp add: split_lines_LF split: prod.splits)
    next
      case crlf
      with w IH show ?thesis by (simp add: split_lines_CRLF split: prod.splits)
    next
      case cr
      show ?thesis
      proof (cases "t = []")
        case True
        with cr w show ?thesis by (simp add: split_lines_held)
      next
        case False
        with cr w have "split_lines False a = (let (ls, rest) = split_lines False t in (w # ls, rest))"
          "split_lines e (a @ b) = (let (ls, rest) = split_lines e (t @ b) in (w # ls, rest))"
          by (simp_all add: split_lines_CR)
        with IH show ?thesis by (simp split: prod.splits)
      qed
    qed
  qed
qed

section \<open>The buffer implements the grammar\<close>

declare drain_loop.simps [simp del]

lemma drain_loop_correct:
  "no_terminator (drop start (take from buffer)) \<Longrightarrow> start \<le> from \<Longrightarrow> from \<le> length buffer \<Longrightarrow>
     (let (go, start', st') = drain_loop cfg buffer e start from st;
          (ls, rest) = split_lines e (drop start buffer) in
      run_lines cfg ls st = (go, st') \<and> (go \<longrightarrow> drop start' buffer = rest))"
proof (induction cfg buffer e start "from" st rule: drain_loop.induct)
  case (1 cfg buffer e start "from" st)
  define w0 where "w0 = drop start (take from buffer)"
  have cut: "drop start buffer = w0 @ drop from buffer"
    using 1(3,4) by (metis append_take_drop_id drop_append diff_is_0_eq drop_0 length_take min.absorb2 w0_def)
  show ?case
  proof (cases "terminator_at (drop from buffer) from")
    case None
    then have "no_terminator (drop start buffer)" using 1(2) by (simp add: cut w0_def terminator_at_None)
    with None show ?thesis by (subst drain_loop.simps) (simp add: split_lines_free)
  next
    case (Some p)
    then obtain i n where p: "terminator_at (drop from buffer) from = Some (i, n)" by (cases p) auto
    from terminator_at_Some [OF p] obtain w t where w: "no_terminator w" "i = from + length w"
      and t: "line_ends (drop from buffer) w t n" by blast
    have free: "no_terminator (w0 @ w)" using 1(2) w(1) by (simp add: w0_def)
    have ends: "line_ends (drop start buffer) (w0 @ w) t n"
      using t by (auto simp: cut line_ends_def)
    have len: "i + n \<le> length buffer" "i \<le> length buffer" "from < i + n"
      using terminator_at_bounds [OF p] 1(4) by auto
    have line: "drop start (take i buffer) = w0 @ w"
    proof -
      have "take i buffer = take from buffer @ take (length w) (drop from buffer)"
        by (simp add: w(2) take_add)
      moreover have "take (length w) (drop from buffer) = w" using t by (auto simp: line_ends_def)
      ultimately show ?thesis using 1(3,4) by (simp add: w0_def)
    qed
    have rest: "drop (i + n) buffer = t"
    proof -
      have "drop (i + n) buffer = drop (length w + n) (drop from buffer)" by (simp add: w(2) ac_simps)
      then show ?thesis by (simp only: line_ends_drop [OF t])
    qed
    let ?held = "n = 1 \<and> buffer ! i = CHR 0x0D \<and> Suc i = length buffer \<and> \<not> e"
    have nth: "buffer ! i = drop from buffer ! length w" using len(2) 1(4) by (simp add: w(2))
    show ?thesis
    proof (cases ?held)
      case True
      then have "t = []" using rest by auto
      with True nth t have "drop from buffer = w @ [CHR 0x0D]" by (auto simp: line_ends_def nth_append)
      with True p free show ?thesis
        by (subst drain_loop.simps) (simp add: cut split_lines_held [of "w0 @ w", simplified])
    next
      case False
      have tail: "split_lines e (drop start buffer) = (let (ls, r) = split_lines e t in ((w0 @ w) # ls, r))"
      proof -
        have e if held: "drop start buffer = (w0 @ w) @ [CHR 0x0D]"
        proof -
          have t0: "t = []" "n = 1" using ends that by (auto simp: line_ends_def)
          then have d: "drop from buffer = w @ [CHR 0x0D]" using held cut by simp
          then have "length (drop from buffer) = Suc (length w)" by (simp del: length_drop)
          then have "Suc i = length buffer" using 1(4) by (simp add: w(2))
          moreover have "buffer ! i = CHR 0x0D" using d by (simp only: nth nth_append_length)
          ultimately show e using False t0(2) by blast
        qed
        then show ?thesis by (rule split_lines_step [OF free ends])
      qed
      obtain go st' where step: "processLine cfg (w0 @ w) st = (go, st')" by fastforce
      have unfold: "drain_loop cfg buffer e start from st =
          (if go then drain_loop cfg buffer e (i + n) (i + n) st' else (False, start, st'))"
        by (subst drain_loop.simps) (simp only: p option.case prod.case False if_False line step Let_def)
      show ?thesis
      proof (cases go)
        case go: True
        have IH: "(let (go, start', st'') = drain_loop cfg buffer e (i + n) (i + n) st';
            (ls, r) = split_lines e (drop (i + n) buffer) in
            run_lines cfg ls st' = (go, st'') \<and> (go \<longrightarrow> drop start' buffer = r))"
          using "1.IH" [OF p refl False] step line go len by simp
        with step go tail rest show ?thesis by (simp add: unfold split: prod.splits)
      next
        case nogo: False
        with step tail show ?thesis by (simp add: unfold split: prod.splits)
      qed
    qed
  qed
qed

text \<open>The buffer between two chunks: scanned text without terminators, perhaps a held return.\<close>

definition buffer_ok :: "string \<times> nat \<Rightarrow> bool" where
  "buffer_ok buf \<longleftrightarrow> (case buf of (buffer, scanned) \<Rightarrow> scanned \<le> length buffer \<and> no_terminator (take scanned buffer))"

lemma split_lines_rest:
  "split_lines e s = (ls, rest) \<Longrightarrow>
     no_terminator rest \<or> (\<not> e \<and> (\<exists>w. rest = w @ [CHR 0x0D] \<and> no_terminator w))"
proof (induction s arbitrary: ls rest rule: length_induct)
  case (1 s)
  show ?case
  proof (cases "terminator_at s 0")
    case None
    with "1.prems" show ?thesis by (simp add: terminator_at_None split_lines_free no_terminator_def)
  next
    case (Some p)
    obtain j n where p: "terminator_at s 0 = Some (j, n)" using Some by (cases p) auto
    from terminator_at_Some [OF p] obtain w t where w: "no_terminator w" and t: "line_ends s w t n"
      by blast
    from t have "length t < length s" by (auto simp: line_ends_def)
    with 1 have IH: "split_lines e t = (ms, rest') \<Longrightarrow>
        no_terminator rest' \<or> (\<not> e \<and> (\<exists>w. rest' = w @ [CHR 0x0D] \<and> no_terminator w))" for ms rest'
      by blast
    show ?thesis
    proof (cases "s = w @ [CHR 0x0D] \<and> \<not> e")
      case True
      with w "1.prems" show ?thesis by (auto simp: split_lines_held)
    next
      case False
      with split_lines_step [OF w t] "1.prems" have "\<exists>ms. split_lines e t = (ms, rest)"
        by (auto split: prod.splits)
      then show ?thesis using IH by blast
    qed
  qed
qed

lemma drainLines_correct:
  assumes "buffer_ok (buffer, scanned)" and "drainLines cfg e (buffer, scanned) st = (go, (rest, scanned'), st')"
    and "split_lines e buffer = (ls, r)"
  shows "run_lines cfg ls st = (go, st') \<and> (go \<longrightarrow> rest = r \<and> buffer_ok (rest, scanned'))"
proof -
  obtain start where d: "drain_loop cfg buffer e 0 scanned st = (go, start, st')"
    using assms(2) by (auto simp: drainLines_def Let_def split: prod.splits if_splits)
  have c: "run_lines cfg ls st = (go, st') \<and> (go \<longrightarrow> drop start buffer = r)"
    using drain_loop_correct [of 0 scanned buffer cfg e st] assms(1,3) d by (simp add: buffer_ok_def)
  have "buffer_ok (rest, scanned')" "rest = r" if go
  proof -
    have r: "rest = r" "scanned' = (if r \<noteq> [] \<and> last r = CHR 0x0D \<and> \<not> e then length r - 1 else length r)"
      using that c d assms(2) by (auto simp: drainLines_def Let_def)
    show "rest = r" by (rule r)
    from split_lines_rest [OF assms(3)] r show "buffer_ok (rest, scanned')"
      by (auto simp: buffer_ok_def no_terminator_def dest: in_set_takeD)
  qed
  with c show ?thesis by blast
qed

text \<open>The reader without a buffer: the whole text at once.\<close>

definition read_text :: "sse_config \<Rightarrow> string \<Rightarrow> sse_state \<Rightarrow> sse_end \<times> sse_state" where
  "read_text cfg text st =
     (let (ls, rest) = split_lines True text;
          (go, st) = run_lines cfg (ls @ (if rest = [] then [] else [rest])) st in
      (if go then Output_Closed else stopped st, st))"

text \<open>The line guard is not reached while every line is shorter than the bound.\<close>

definition short_lines :: "string \<Rightarrow> bool" where
  "short_lines text \<longleftrightarrow>
     (let (ls, rest) = split_lines True text in
      \<forall>l\<in>set (ls @ [rest]). utf16_length l < SSE_MAX_LINE_BYTES)"

lemma utf16_length_append [simp]: "utf16_length (s @ t) = utf16_length s + utf16_length t"
  by (simp add: utf16_length_def)

lemma split_lines_prefix:
  "no_terminator w \<Longrightarrow> split_lines e (w @ b) =
     (case split_lines e b of ([], r) \<Rightarrow> ([], w @ r) | (l # ls, r) \<Rightarrow> ((w @ l) # ls, r))"
  by (induction w) (auto split: prod.splits list.splits)

lemma short_lines_prefix:
  assumes "no_terminator w" and "short_lines (w @ b)"
  shows "utf16_length w < SSE_MAX_LINE_BYTES"
  using assms
  by (auto simp: short_lines_def split_lines_prefix split: prod.splits list.splits)

lemma short_lines_append:
  assumes "short_lines (a @ b)" and "split_lines False a = (ls, rest)"
  shows "short_lines (rest @ b)"
  using assms by (auto simp: short_lines_def split_lines_append [of True a b] split: prod.splits)

lemma line_guard_passed:
  assumes "split_lines False a = (ls, rest)" and "short_lines (a @ b)"
  shows "utf16_length rest \<le> SSE_MAX_LINE_BYTES"
proof -
  have s: "short_lines (rest @ b)" by (rule short_lines_append [OF assms(2,1)])
  consider "no_terminator rest" | w where "rest = w @ [CHR 0x0D]" "no_terminator w"
    using split_lines_rest [OF assms(1)] by blast
  then show ?thesis
  proof cases
    case 1
    then show ?thesis using short_lines_prefix [OF _ s] by simp
  next
    case 2
    then have "utf16_length w < SSE_MAX_LINE_BYTES" using short_lines_prefix [of w "CHR 0x0D # b"] s by simp
    then show ?thesis by (simp add: 2(1) utf16_length_def byte_def)
  qed
qed

lemma buffer_ok_append: "buffer_ok (buffer, scanned) \<Longrightarrow> buffer_ok (buffer @ text, scanned)"
  by (simp add: buffer_ok_def)

lemma read_text_append:
  assumes "split_lines False a = (ls, rest)" and "run_lines cfg ls st = (go, st')"
  shows "read_text cfg (a @ b) st = (if go then read_text cfg (rest @ b) st' else (stopped st', st'))"
  using assms
  by (auto simp: read_text_def split_lines_append [of True a b] run_lines_append split: prod.splits)

lemma read_loop_correct:
  "buffer_ok (buffer, scanned) \<Longrightarrow> short_lines (buffer @ concat texts @ flush) \<Longrightarrow>
     read_loop cfg (map Chunk texts) flush (buffer, scanned) st =
     read_text cfg (buffer @ concat texts @ flush) st"
proof (induction texts arbitrary: buffer scanned st)
  case Nil
  obtain ls r where s: "split_lines True (buffer @ flush) = (ls, r)" by fastforce
  obtain go rest scanned' st' where
    d: "drainLines cfg True (buffer @ flush, scanned) st = (go, (rest, scanned'), st')"
    by (metis prod.exhaust)
  from drainLines_correct [OF buffer_ok_append [OF Nil.prems(1)] d s] d s show ?case
    by (auto simp: read_text_def run_lines_append split: prod.splits)
next
  case (Cons chunk texts)
  obtain ls r where s: "split_lines False (buffer @ chunk) = (ls, r)" by fastforce
  obtain go rest scanned' st' where
    d: "drainLines cfg False (buffer @ chunk, scanned) st = (go, (rest, scanned'), st')"
    by (metis prod.exhaust)
  note c = drainLines_correct [OF buffer_ok_append [OF Cons.prems(1)] d s]
  have short: "short_lines ((buffer @ chunk) @ concat texts @ flush)" using Cons.prems(2) by simp
  show ?case
  proof (cases go)
    case True
    with c have r: "rest = r" "buffer_ok (rest, scanned')" by blast+
    from Cons.IH [OF r(2)] short_lines_append [OF short s] r(1)
    have IH: "read_loop cfg (map Chunk texts) flush (rest, scanned') st' =
        read_text cfg (r @ concat texts @ flush) st'" by simp
    from read_text_append [OF s, of cfg st go st' "concat texts @ flush"] c True IH d r(1)
      line_guard_passed [OF s short]
    show ?thesis by simp
  next
    case False
    with read_text_append [OF s, of cfg st go st' "concat texts @ flush"] c d show ?thesis by simp
  qed
qed

section \<open>The event model\<close>

text \<open>
  The processing model of the WHATWG specification on lines: an event is a block of lines closed by
  a blank one.  The last event ID and an unused retry time carry over.
\<close>

record sse_event =
  ev_name :: string
  ev_data :: string
  ev_last_id :: string
  ev_id :: "string option"
  ev_retry :: "string option"

fun blocks :: "string list \<Rightarrow> string list \<Rightarrow> string list list" where
  "blocks cur [] = []"
| "blocks cur (l # ls) = (if l = [] then cur # blocks [] ls else blocks (cur @ [l]) ls)"

definition field_values :: "string \<Rightarrow> string list \<Rightarrow> string list" where
  "field_values field ls =
     map snd (filter (\<lambda>fv. fst fv = field) (map field_and_value (filter (\<lambda>l. hd l \<noteq> CHR '':'') ls)))"

definition block_ids :: "string list \<Rightarrow> string list" where
  "block_ids ls = filter (\<lambda>v. CHR 0x00 \<notin> set v) (field_values ''id'' ls)"

definition block_retries :: "string list \<Rightarrow> string list" where
  "block_retries ls = filter (\<lambda>v. v \<noteq> [] \<and> list_all is_digit v) (field_values ''retry'' ls)"

definition last_opt :: "'a list \<Rightarrow> 'a option" where
  "last_opt xs = (if xs = [] then None else Some (last xs))"

definition or_else :: "'a option \<Rightarrow> 'a option \<Rightarrow> 'a option" where
  "or_else x y = (case x of None \<Rightarrow> y | Some _ \<Rightarrow> x)"

fun events :: "sse_config \<Rightarrow> string \<Rightarrow> string option \<Rightarrow> string list list \<Rightarrow> sse_event list" where
  "events cfg last_id retry [] = []"
| "events cfg last_id retry (b # bs) =
     (let last_id' = last (last_id # block_ids b);
          retry' = or_else (map_option (parse_retry cfg) (last_opt (block_retries b))) retry in
      if field_values ''data'' b = [] then events cfg last_id' retry' bs
      else
        \<lparr> ev_name = last ([] # field_values ''event'' b), ev_data = join [CHR 0x0A] (field_values ''data'' b),
          ev_last_id = last_id', ev_id = last_opt (block_ids b), ev_retry = retry' \<rparr> #
        events cfg last_id' None bs)"

definition delivers :: "sse_config \<Rightarrow> sse_event \<Rightarrow> jsval \<times> metadata \<Rightarrow> bool" where
  "delivers cfg ev out \<longleftrightarrow>
     snd out = event_meta cfg (ev_name ev) (ev_last_id ev) (ev_retry ev) \<and>
     event_value cfg (ev_data ev) (ev_name ev) (ev_id ev) (ev_retry ev) (snd out) = Inr (fst out)"

text \<open>The state of the reader inside a block, against the lines of the block so far.\<close>

definition inside :: "sse_config \<Rightarrow> string \<Rightarrow> string option \<Rightarrow> string list \<Rightarrow> sse_state \<Rightarrow> bool" where
  "inside cfg last_id retry cur st \<longleftrightarrow>
     \<not> firstLine st \<and>
     eventName st = last ([] # field_values ''event'' cur) \<and>
     dataLines st = field_values ''data'' cur \<and>
     lastEventID st = last (last_id # block_ids cur) \<and>
     eventID st = last_opt (block_ids cur) \<and>
     pending_retry st =
       or_else (map_option (parse_retry cfg) (last_opt (block_retries cur))) retry"

lemma field_values_snoc:
  "field_values k (cur @ [l]) =
     field_values k cur @
       (if hd l \<noteq> CHR '':'' \<and> fst (field_and_value l) = k then [snd (field_and_value l)] else [])"
  by (simp add: field_values_def)

lemma field_values_Nil [simp]: "field_values k [] = []"
  by (simp add: field_values_def)

lemma last_opt_simps [simp]: "last_opt [] = None" "last_opt (xs @ [x]) = Some x"
  by (simp_all add: last_opt_def)

lemma or_else_simps [simp]: "or_else None y = y" "or_else (Some x) y = Some x"
  by (simp_all add: or_else_def)

lemma pending_retry_simps [simp]:
  "pending_retry (st\<lparr>firstLine := a\<rparr>) = pending_retry st" "pending_retry (st\<lparr>eventBytes := n\<rparr>) = pending_retry st"
  "pending_retry (st\<lparr>eventName := s\<rparr>) = pending_retry st" "pending_retry (st\<lparr>eventID := i\<rparr>) = pending_retry st"
  "pending_retry (st\<lparr>dataLines := ls\<rparr>) = pending_retry st" "pending_retry (st\<lparr>lastEventID := s\<rparr>) = pending_retry st"
  "pending_retry (st\<lparr>emitted := es\<rparr>) = pending_retry st"
  "pending_retry (st\<lparr>retrySet := True\<rparr>) = Some (retryMs st)" "pending_retry (st\<lparr>retrySet := False\<rparr>) = None"
  by (simp_all add: pending_retry_def)

lemma inside_line:
  assumes "inside cfg last_id retry cur st" and "l \<noteq> []" and "processLine cfg l st = (True, st')"
  shows "inside cfg last_id retry (cur @ [l]) st' \<and> emitted st' = emitted st"
proof -
  obtain field v where fv: "field_and_value l = (field, v)" by fastforce
  have st': "st' = (if hd l = CHR '':'' then st\<lparr>firstLine := False, eventBytes := eventBytes st + length l + 1\<rparr>
      else apply_field cfg field v (st\<lparr>firstLine := False, eventBytes := eventBytes st + length l + 1\<rparr>))"
    using assms fv by (auto simp: processLine_def inside_def Let_def split: if_splits)
  show ?thesis
  proof (cases "hd l = CHR '':''")
    case True
    with st' assms(1) show ?thesis by (simp add: inside_def field_values_snoc block_ids_def block_retries_def)
  next
    case False
    let ?st = "st\<lparr>firstLine := False, eventBytes := eventBytes st + length l + 1\<rparr>"
    have read: "field_values k (cur @ [l]) = field_values k cur @ (if field = k then [v] else [])" for k
      using False fv by (simp add: field_values_snoc)
    have in_st: "inside cfg last_id retry cur ?st" "emitted ?st = emitted st" using assms(1) by (simp_all add: inside_def)
    have st': "st' = apply_field cfg field v ?st" using st' False by simp
    consider "field = ''event''" | "field = ''id''" | "field = ''data''" | "field = ''retry''"
      | "field \<noteq> ''event''" "field \<noteq> ''id''" "field \<noteq> ''data''" "field \<noteq> ''retry''"
      by blast
    then show ?thesis using in_st
      by cases (simp_all add: st' apply_field_def inside_def read block_ids_def block_retries_def)
  qed
qed

lemma inside_blank:
  assumes "inside cfg last_id retry cur st" and "processLine cfg [] st = (True, st')"
  defines "last_id' \<equiv> last (last_id # block_ids cur)"
  defines "retry' \<equiv> or_else (map_option (parse_retry cfg) (last_opt (block_retries cur))) retry"
  shows "if field_values ''data'' cur = []
    then inside cfg last_id' retry' [] st' \<and> emitted st' = emitted st
    else inside cfg last_id' None [] st' \<and>
      (\<exists>out. emitted st' = emitted st @ [out] \<and>
         delivers cfg \<lparr> ev_name = last ([] # field_values ''event'' cur),
           ev_data = join [CHR 0x0A] (field_values ''data'' cur), ev_last_id = last_id',
           ev_id = last_opt (block_ids cur), ev_retry = retry' \<rparr> out)"
proof -
  have not_first: "\<not> firstLine st" using assms(1) by (simp add: inside_def)
  then have d: "dispatch cfg (st\<lparr>firstLine := False, eventBytes := 0\<rparr>) = (True, st')"
    using assms(2) by (auto simp: processLine_def Let_def split: if_splits)
  show ?thesis
  proof (cases "field_values ''data'' cur = []")
    case True
    then have "dataLines st = []" using assms(1) by (simp add: inside_def)
    with d have st': "st' = st\<lparr>firstLine := False, eventBytes := 0, eventName := [], eventID := None, dataLines := []\<rparr>"
      by (simp add: dispatch_def Let_def)
    with True assms(1) show ?thesis
      by (simp add: inside_def last_id'_def retry'_def block_ids_def block_retries_def)
  next
    case False
    then have data: "dataLines st \<noteq> []" using assms(1) by (simp add: inside_def)
    let ?retry = "pending_retry st"
    let ?meta = "event_meta cfg (eventName st) (lastEventID st) ?retry"
    obtain v where v: "event_value cfg (join [CHR 0x0A] (dataLines st)) (eventName st) (eventID st) ?retry ?meta = Inr v"
      and st': "st' = st\<lparr>firstLine := False, eventBytes := 0, eventName := [], eventID := None, dataLines := [],
        retryMs := ''0'', retrySet := False, emitted := emitted st @ [(v, ?meta)]\<rparr>"
      using d data by (auto simp: dispatch_def Let_def split: sum.splits if_splits)
    have "?retry = retry'" using assms(1) by (simp only: inside_def retry'_def)
    with v False assms(1) show ?thesis
      by (auto simp: st' inside_def last_id'_def block_ids_def block_retries_def delivers_def)
  qed
qed

lemma run_lines_events:
  "inside cfg last_id retry cur st \<Longrightarrow> run_lines cfg ls st = (True, st') \<Longrightarrow>
     \<exists>outs. emitted st' = emitted st @ outs \<and>
       list_all2 (delivers cfg) (events cfg last_id retry (blocks cur ls)) outs"
proof (induction ls arbitrary: st cur last_id retry)
  case (Cons l ls)
  obtain st1 where st1: "processLine cfg l st = (True, st1)" and rest: "run_lines cfg ls st1 = (True, st')"
    using Cons.prems(2) by (auto split: prod.splits if_splits)
  show ?case
  proof (cases "l = []")
    case False
    with inside_line [OF Cons.prems(1) False st1] Cons.IH rest show ?thesis by fastforce
  next
    case True
    note b = inside_blank [OF Cons.prems(1) st1 [unfolded True]]
    show ?thesis
    proof (cases "field_values ''data'' cur = []")
      case True
      with b Cons.IH [OF _ rest] \<open>l = []\<close> show ?thesis by (fastforce simp: Let_def)
    next
      case False
      with b Cons.IH [OF _ rest] \<open>l = []\<close> show ?thesis by (fastforce simp: Let_def)
    qed
  qed
qed simp

section \<open>Claims\<close>

text \<open>The lines of a body, a byte order mark on the first one left out.\<close>

definition stream_lines :: "string \<Rightarrow> string list" where
  "stream_lines text =
     (let (ls, rest) = split_lines True text in
      case ls @ (if rest = [] then [] else [rest]) of [] \<Rightarrow> [] | l # others \<Rightarrow> strip_bom l # others)"

lemma processLine_bom:
  "processLine cfg l (st\<lparr>firstLine := True\<rparr>) = processLine cfg (strip_bom l) (st\<lparr>firstLine := False\<rparr>)"
  by (simp add: processLine_def Let_def)

abbreviation after_bom :: sse_state where "after_bom \<equiv> sse_start\<lparr>firstLine := False\<rparr>"

lemma sse_start_first: "sse_start = sse_start\<lparr>firstLine := True\<rparr>"
  by (simp add: sse_start_def)

lemma closed_reading:
  assumes "streamSSE cfg (Some (map Chunk texts, flush)) = (Output_Closed, st)"
    and "short_lines (concat texts @ flush)"
  shows "stream_lines (concat texts @ flush) = [] \<and> st = sse_start \<or>
    run_lines cfg (stream_lines (concat texts @ flush)) after_bom = (True, st)"
proof -
  let ?text = "concat texts @ flush"
  obtain ls rest where s: "split_lines True ?text = (ls, rest)" by fastforce
  let ?all = "ls @ (if rest = [] then [] else [rest])"
  have "read_text cfg ?text sse_start = (Output_Closed, st)"
    using assms read_loop_correct [of "[]" 0 texts flush cfg sse_start]
    by (simp add: streamSSE_def buffer_ok_def)
  then have run: "run_lines cfg ?all sse_start = (True, st)"
    using s by (auto simp: read_text_def stopped_def split: prod.splits if_splits option.splits)
  show ?thesis
  proof (cases ?all)
    case Nil
    with run s show ?thesis by (simp add: stream_lines_def)
  next
    case (Cons l others)
    then have "stream_lines ?text = strip_bom l # others" using s by (simp add: stream_lines_def)
    moreover have "run_lines cfg (l # others) sse_start = run_lines cfg (strip_bom l # others) after_bom"
      using processLine_bom [of cfg l sse_start] by (simp flip: sse_start_first)
    ultimately show ?thesis using run Cons by simp
  qed
qed

definition example_cfg :: sse_config where
  "example_cfg =
     \<lparr> max_event_bytes = 40, openAPI32Object = True, decode_unit = (\<lambda>r. Inr (JStr (raw_body r))),
       takes_output = (\<lambda>_ _. True), sse_status = 200, invocation_meta = [], double_digits = id \<rparr>"

definition example_chunks :: "string list" where
  "example_chunks =
     [bom @ ''da'', ''ta: a'' @ [CHR 0x0D], CHR 0x0A # ''data:b'' @ [CHR 0x0D], ''id:7'' @ [CHR 0x0A, CHR 0x0A], ''data: lost'']"

lemma example_lines:
  "split_lines True (concat example_chunks @ []) = ([bom @ ''data: a'', ''data:b'', ''id:7'', []], ''data: lost'')"
  by code_simp

lemma example_short: "short_lines (concat example_chunks @ [])"
  unfolding short_lines_def example_lines
  by (simp add: utf16_length_def byte_def bom_def SSE_MAX_LINE_BYTES_def)

lemma example_events:
  "events example_cfg [] None (blocks [] (stream_lines (concat example_chunks @ []))) =
   [\<lparr> ev_name = [], ev_data = CHR ''a'' # CHR 0x0A # ''b'', ev_last_id = ''7'', ev_id = Some ''7'', ev_retry = None \<rparr>]"
  by code_simp

lemma example_closed:
  "\<exists>st. streamSSE example_cfg (Some (map Chunk example_chunks, [])) = (Output_Closed, st)"
proof -
  have "streamSSE example_cfg (Some (map Chunk example_chunks, [])) =
      read_text example_cfg (concat example_chunks @ []) sse_start"
    using read_loop_correct [of "[]" 0 example_chunks "[]"] example_short
    by (simp add: streamSSE_def buffer_ok_def)
  moreover have "fst (read_text example_cfg (concat example_chunks @ []) sse_start) = Output_Closed"
    by code_simp
  ultimately show ?thesis by (metis prod.collapse)
qed

text \<open>C5. Chunk independence: however the network cuts the body into chunks, also between the two
  characters of a CRLF, the reader emits, fails and ends exactly as if it read the whole text at once
  by the line grammar of the specification (as long as no line reaches the line guard).\<close>

theorem sse_reading_ignores_chunk_boundaries:
  assumes "short_lines (concat texts @ flush)"
  shows "streamSSE cfg (Some (map Chunk texts, flush)) = read_text cfg (concat texts @ flush) sse_start"
  using read_loop_correct [of "[]" 0 texts flush cfg sse_start] assms
  by (simp add: streamSSE_def buffer_ok_def)

lemma sse_reading_ignores_chunk_boundaries_witness:
  "streamSSE example_cfg (Some (map Chunk example_chunks, [])) =
   streamSSE example_cfg (Some ([Chunk (concat example_chunks)], []))"
proof -
  have "short_lines (concat [concat example_chunks] @ [])" using example_short by simp
  from sse_reading_ignores_chunk_boundaries [OF this, of example_cfg]
    sse_reading_ignores_chunk_boundaries [OF example_short, of example_cfg]
  show ?thesis by simp
qed

text \<open>C4. The reader implements the event model: when it closes the output normally, the values it
  emitted are, one for one and in order, the events of the abstract model: blocks of lines closed by
  a blank line that hold a data field, with the joined data, the last event name, the last event ID
  seen so far and the pending retry time.  An unfinished last block emits nothing.\<close>

theorem sse_refines_event_model:
  assumes "streamSSE cfg (Some (map Chunk texts, flush)) = (Output_Closed, st)"
    and "short_lines (concat texts @ flush)"
  shows "list_all2 (delivers cfg)
    (events cfg [] None (blocks [] (stream_lines (concat texts @ flush)))) (emitted st)"
  using closed_reading [OF assms]
proof (elim disjE conjE)
  assume "run_lines cfg (stream_lines (concat texts @ flush)) after_bom = (True, st)"
  moreover have "inside cfg [] None [] after_bom"
    by (simp add: inside_def sse_start_def block_ids_def block_retries_def pending_retry_def)
  moreover have "emitted after_bom = []" by (simp add: sse_start_def)
  ultimately show ?thesis using run_lines_events [of cfg "[]" None "[]" after_bom] by fastforce
qed (simp add: sse_start_def)

lemma sse_refines_event_model_witness:
  "\<exists>st. streamSSE example_cfg (Some (map Chunk example_chunks, [])) = (Output_Closed, st) \<and>
     list_all2 (delivers example_cfg)
       [\<lparr> ev_name = [], ev_data = CHR ''a'' # CHR 0x0A # ''b'', ev_last_id = ''7'', ev_id = Some ''7'', ev_retry = None \<rparr>]
       (emitted st)"
proof -
  obtain st where st: "streamSSE example_cfg (Some (map Chunk example_chunks, [])) = (Output_Closed, st)"
    using example_closed by blast
  with sse_refines_event_model [OF st example_short, unfolded example_events] show ?thesis by blast
qed

lemma run_lines_block_bytes:
  "run_lines cfg ls st = (True, st') \<Longrightarrow> \<not> firstLine st \<Longrightarrow>
     eventBytes st = sum_list (map (\<lambda>l. length l + 1) cur) \<Longrightarrow>
     b \<in> set (blocks cur ls) \<Longrightarrow> sum_list (map (\<lambda>l. length l + 1) b) < max_event_bytes cfg"
proof (induction ls arbitrary: st cur)
  case (Cons l ls)
  obtain st1 where st1: "processLine cfg l st = (True, st1)" and rest: "run_lines cfg ls st1 = (True, st')"
    using Cons.prems(1) by (auto split: prod.splits if_splits)
  have small: "eventBytes st + length l + 1 \<le> max_event_bytes cfg"
    using st1 Cons.prems(2) by (auto simp: processLine_def Let_def split: if_splits)
  show ?case
  proof (cases "l = []")
    case True
    have "\<not> firstLine st1 \<and> eventBytes st1 = 0"
      using st1 Cons.prems(2) True small
      by (auto simp: processLine_def dispatch_def Let_def split: if_splits sum.splits)
    with Cons.IH [OF rest, of "[]"] Cons.prems(3,4) True small show ?thesis by auto
  next
    case False
    have "\<not> firstLine st1 \<and> eventBytes st1 = eventBytes st + length l + 1"
      using st1 Cons.prems(2) False
      by (auto simp: processLine_def apply_field_def Let_def split: if_splits prod.splits)
    with Cons.IH [OF rest, of "cur @ [l]"] Cons.prems(3,4) False show ?thesis by simp
  qed
qed simp

lemma length_join_le: "length (join [c] vs) \<le> sum_list (map (\<lambda>v. length v + 1) vs)"
  by (induction "[c]" vs rule: join.induct) auto

lemma cut_length: "cut c s = Some (a, b) \<Longrightarrow> length b \<le> length s"
  by (auto simp: cut_Some)

lemma field_value_length: "length (snd (field_and_value l)) \<le> length l"
  by (auto simp: field_and_value_def split: option.splits list.splits dest!: cut_length)

lemma field_values_bytes:
  "sum_list (map (\<lambda>v. length v + 1) (field_values k b)) \<le> sum_list (map (\<lambda>l. length l + 1) b)"
proof (induction b rule: rev_induct)
  case (snoc l b)
  then show ?case using field_value_length [of l] by (auto simp: field_values_snoc)
qed simp

lemma events_data: "ev \<in> set (events cfg last_id retry bs) \<Longrightarrow>
    \<exists>b\<in>set bs. ev_data ev = join [CHR 0x0A] (field_values ''data'' b)"
  by (induction cfg last_id retry bs rule: events.induct) (auto simp: Let_def split: if_splits)

text \<open>Bounded delivery units: no event whose data reaches the delivery-unit limit is ever
  emitted; the bound counts each event on its own, so a long stream is not cut off.\<close>

theorem sse_events_stay_below_limit:
  assumes "streamSSE cfg (Some (map Chunk texts, flush)) = (Output_Closed, st)"
    and "short_lines (concat texts @ flush)"
    and "ev \<in> set (events cfg [] None (blocks [] (stream_lines (concat texts @ flush))))"
  shows "length (ev_data ev) < max_event_bytes cfg"
proof -
  let ?ls = "stream_lines (concat texts @ flush)"
  obtain b where b: "b \<in> set (blocks [] ?ls)" "ev_data ev = join [CHR 0x0A] (field_values ''data'' b)"
    using events_data [OF assms(3)] by blast
  from closed_reading [OF assms(1,2)] b(1) have "run_lines cfg ?ls after_bom = (True, st)" by auto
  from run_lines_block_bytes [OF this _ _ b(1)] have "sum_list (map (\<lambda>l. length l + 1) b) < max_event_bytes cfg"
    by (simp add: sse_start_def)
  with length_join_le [of "CHR 0x0A" "field_values ''data'' b"] field_values_bytes [of "''data''" b] b(2)
  show ?thesis by simp
qed

lemma sse_events_stay_below_limit_witness:
  "length (CHR ''a'' # CHR 0x0A # ''b'') < max_event_bytes example_cfg"
proof -
  obtain st where st: "streamSSE example_cfg (Some (map Chunk example_chunks, [])) = (Output_Closed, st)"
    using example_closed by blast
  from sse_events_stay_below_limit [OF st example_short, unfolded example_events] show ?thesis by simp
qed

end
