(* ===== verification/Security_Plans.thy ===== *)
theory Security_Plans
  imports Security_Wire Context_Resolution Invocation_Errors Sse
begin

text \<open>
  The security half of \<open>invoke.ts\<close>: the plans a list of Security Requirement Objects expands to, which of
  them are usable, the challenge that asks for a context, the plan that is selected and its credentials,
  and the collision checks on declarations and on the hints of a context.

  A plan is one alternative with one choice of OAuth flow.  Documents, operations and contexts are JSON
  values; \<open>security\<close> members that are no arrays count as empty.  Parameters of the model: the resolution
  of a URL against the target (\<open>None\<close> for a TypeError).  A credential that is no text (an inherited
  member of \<open>Object.prototype\<close>, see \<open>inherited_name_satisfies\<close>) counts as absent.
\<close>

section \<open>Security Requirement Objects\<close>

type_synonym url_resolver = "string \<Rightarrow> string \<Rightarrow> string option"

definition list_member :: "jsval \<Rightarrow> string \<Rightarrow> jsval list option" where
  "list_member v k =
     (case get_prop v k of
        JUndefined \<Rightarrow> None
      | JNull \<Rightarrow> None
      | w \<Rightarrow> Some (case as_array w of None \<Rightarrow> [] | Some xs \<Rightarrow> xs))"

definition effectiveSecurityRequirements :: "jsval \<Rightarrow> jsval \<Rightarrow> jsval list" where
  "effectiveSecurityRequirements doc op =
     (case list_member op ''security'' of
        Some reqs \<Rightarrow> reqs
      | None \<Rightarrow> (case list_member doc ''security'' of None \<Rightarrow> [] | Some reqs \<Rightarrow> reqs))"

definition scheme_named :: "jsval \<Rightarrow> string \<Rightarrow> jsval" where
  "scheme_named doc name =
     (case as_object (get_prop (get_prop doc ''components'') ''securitySchemes'') of
        None \<Rightarrow> JUndefined
      | Some schemes \<Rightarrow> get_object schemes name)"

definition scopedSecurityDocument :: "jsval \<Rightarrow> jsval \<Rightarrow> jsval \<Rightarrow> jsval" where
  "scopedSecurityDocument doc referringSchemes ctx =
     (if member_of (contextConfiguration ctx) ''implicitConnectionScope'' \<noteq> JStr ''referring'' \<or>
         \<not> truthy referringSchemes then doc
      else
        (case doc of
           JObj ms \<Rightarrow>
             JObj (define_member ''components''
               (JObj (define_member ''securitySchemes'' referringSchemes
                  (case get_prop doc ''components'' of JObj cs \<Rightarrow> cs | _ \<Rightarrow> []))) ms)
         | _ \<Rightarrow> doc))"

text \<open>\<open>Object.keys\<close>, which throws on \<open>null\<close> and \<open>undefined\<close>.\<close>

definition object_keys :: "jsval \<Rightarrow> string list option" where
  "object_keys v =
     (case v of
        JUndefined \<Rightarrow> None
      | JNull \<Rightarrow> None
      | JObj ms \<Rightarrow> Some (member_keys ms)
      | JArr xs \<Rightarrow> Some (map decimal [0..<length xs])
      | JStr s \<Rightarrow> Some (map decimal [0..<utf16_length s])
      | _ \<Rightarrow> Some [])"

definition undefined_schemes :: "jsval \<Rightarrow> jsval list \<Rightarrow> (unit, string list) res" where
  "undefined_schemes doc reqs =
     res_map (\<lambda>names. remdups (filter (\<lambda>n. \<not> truthy (scheme_named doc n)) (concat names)))
       (map_res (\<lambda>req. case object_keys req of None \<Rightarrow> Inl () | Some ks \<Rightarrow> Inr ks) reqs)"

definition securityConfigurationError :: "jsval \<Rightarrow> jsval \<Rightarrow> (unit, string) res" where
  "securityConfigurationError doc op =
     res_map (\<lambda>missing.
         if missing = [] then []
         else ''OpenAPI security requirement references undefined security scheme'' @
           (if length missing = 1 then [] else ''s'') @ '': '' @ join '', '' (js_sort missing))
       (undefined_schemes doc (effectiveSecurityRequirements doc op))"

section \<open>Valid declarations\<close>

definition openapi_version :: "jsval \<Rightarrow> string" where
  "openapi_version doc = str_or (get_prop doc ''openapi'') []"

definition nonempty_field :: "jsval \<Rightarrow> string \<Rightarrow> bool" where
  "nonempty_field v k \<longleftrightarrow> str_or (get_prop v k) [] \<noteq> []"

definition validSecurityScheme :: "jsval \<Rightarrow> jsval \<Rightarrow> bool" where
  "validSecurityScheme doc scheme =
     (let admitted = [''apiKey'', ''http'', ''oauth2'', ''openIdConnect''] @
            (if prefix ''3.0.'' (openapi_version doc) then [] else [''mutualTLS'']);
          type = get_prop scheme ''type''; loc = scheme_field scheme ''in'' in
      is_str type \<and> str_or type [] \<in> set admitted \<and>
      (if type = JStr ''apiKey'' then
         nonempty_field scheme ''name'' \<and> loc \<in> set [''query'', ''header'', ''cookie''] \<and>
         (loc = ''query'' \<or> is_http_token (scheme_field scheme ''name''))
       else if type = JStr ''http'' then nonempty_field scheme ''scheme''
       else if type = JStr ''oauth2'' then as_object (get_prop scheme ''flows'') \<noteq> None
       else if type = JStr ''openIdConnect'' then nonempty_field scheme ''openIdConnectUrl''
       else True))"

definition valid_entry :: "jsval \<Rightarrow> string \<times> jsval \<Rightarrow> bool" where
  "valid_entry doc m =
     (let (name, scopes) = m; scheme = scheme_named doc name in
      truthy scheme \<and> validSecurityScheme doc scheme \<and>
      (case as_array scopes of
         None \<Rightarrow> False
       | Some xs \<Rightarrow>
           list_all is_str xs \<and>
           (prefix ''3.2.'' (openapi_version doc) \<or>
            scheme_field scheme ''type'' \<in> set [''oauth2'', ''openIdConnect''] \<or> xs = [])))"

definition validSecurityRequirement :: "jsval \<Rightarrow> jsval \<Rightarrow> bool" where
  "validSecurityRequirement doc req =
     (case as_object req of None \<Rightarrow> False | Some ms \<Rightarrow> list_all (valid_entry doc) ms)"

section \<open>What a scheme requires of a context\<close>

definition absolutize :: "url_resolver \<Rightarrow> string \<Rightarrow> string \<Rightarrow> string" where
  "absolutize resolve url baseURL = (case resolve url baseURL of None \<Rightarrow> url | Some u \<Rightarrow> u)"

definition scopes_member :: "string list \<Rightarrow> string \<times> jsval" where
  "scopes_member scopes = (''scopes'', JArr (map JStr scopes))"

definition mapScheme :: "url_resolver \<Rightarrow> jsval \<Rightarrow> string \<Rightarrow> string list \<Rightarrow> js_members" where
  "mapScheme resolve scheme baseURL scopes =
     (let type = get_prop scheme ''type''; token = ascii_lower (scheme_field scheme ''scheme'') in
      if type = JStr ''http'' then
        [(''type'', JStr (if token = ''bearer'' then ''auth.bearer''
                          else if token = ''basic'' then ''auth.basic''
                          else if token = [] then ''auth.http'' else ''auth.http.'' @ token))]
      else if type = JStr ''apiKey'' then [(''type'', JStr ''auth.apiKey'')]
      else if type = JStr ''openIdConnect'' then
        [(''type'', JStr ''auth.oauth2'')] @
        (let url = scheme_field scheme ''openIdConnectUrl'' in
         if url = [] then [] else [(''openIdConnectUrl'', JStr (absolutize resolve url baseURL))]) @
        [scopes_member scopes]
      else [(''type'', JStr (''auth.'' @ js_String type))])"

definition oauthFlowUsable :: "string \<Rightarrow> jsval \<Rightarrow> string list \<Rightarrow> bool" where
  "oauthFlowUsable grantType flow scopes =
     (let authorization = nonempty_field flow ''authorizationUrl''; token = nonempty_field flow ''tokenUrl'' in
      if grantType = ''authorization_code'' \<and> (\<not> authorization \<or> \<not> token) then False
      else if grantType = ''implicit'' \<and> \<not> authorization then False
      else if (grantType = ''password'' \<or> grantType = ''client_credentials'') \<and> \<not> token then False
      else list_all (has_own (get_prop flow ''scopes'')) scopes)"

definition flow_requirement ::
  "url_resolver \<Rightarrow> string \<Rightarrow> string list \<Rightarrow> string \<times> jsval \<Rightarrow> js_members list" where
  "flow_requirement resolve baseURL scopes candidate =
     (let (grantType, flow) = candidate in
      if \<not> truthy flow \<or> \<not> oauthFlowUsable grantType flow scopes then []
      else
        [[(''type'', JStr ''auth.oauth2''), scopes_member scopes, (''grantType'', JStr grantType)] @
         (if nonempty_field flow ''authorizationUrl''
          then [(''authorizeUrl'', JStr (absolutize resolve (str_or (get_prop flow ''authorizationUrl'') []) baseURL))]
          else []) @
         (if nonempty_field flow ''tokenUrl''
          then [(''tokenUrl'', JStr (absolutize resolve (str_or (get_prop flow ''tokenUrl'') []) baseURL))] else [])])"

definition oauth2Requirements :: "url_resolver \<Rightarrow> jsval \<Rightarrow> string \<Rightarrow> string list \<Rightarrow> js_members list" where
  "oauth2Requirements resolve scheme baseURL scopes =
     (let flows = get_prop scheme ''flows'';
          requirements = concat (map (flow_requirement resolve baseURL scopes)
            [(''authorization_code'', get_prop flows ''authorizationCode''), (''implicit'', get_prop flows ''implicit''),
             (''password'', get_prop flows ''password''), (''client_credentials'', get_prop flows ''clientCredentials'')]) in
      if requirements = [] then [[(''type'', JStr ''auth.oauth2''), scopes_member scopes]] else requirements)"

definition schemeRequirements :: "url_resolver \<Rightarrow> jsval \<Rightarrow> string \<Rightarrow> string \<Rightarrow> string list \<Rightarrow> js_members list" where
  "schemeRequirements resolve scheme baseURL name scopes =
     map (\<lambda>req. req @ [(''name'', JStr name), (''durable'', JBool True)] @
            (let description = get_prop scheme ''description'' in
             if truthy description then [(''description'', description)] else []))
       (if get_prop scheme ''type'' = JStr ''oauth2'' then oauth2Requirements resolve scheme baseURL scopes
        else [mapScheme resolve scheme baseURL scopes])"

section \<open>Plans\<close>

record security_plan =
  sp_requirements :: "js_members list"
  sp_schemes :: "(string \<times> jsval) list"
  sp_alternative :: nat

definition extend_plans ::
  "url_resolver \<Rightarrow> jsval \<Rightarrow> string \<Rightarrow> js_members \<Rightarrow> string \<Rightarrow> security_plan list \<Rightarrow> security_plan list" where
  "extend_plans resolve doc baseURL req name plans =
     (let scheme = scheme_named doc name;
          scopes = (case as_array (member_of req name) of None \<Rightarrow> [] | Some xs \<Rightarrow> concat (map (\<lambda>v. case as_str v of None \<Rightarrow> [] | Some s \<Rightarrow> [s]) xs)) in
      concat (map (\<lambda>plan. map (\<lambda>requirement.
          \<lparr> sp_requirements = sp_requirements plan @ [requirement],
            sp_schemes = sp_schemes plan @ [(name, scheme)], sp_alternative = sp_alternative plan \<rparr>)
        (schemeRequirements resolve scheme baseURL name scopes)) plans))"

definition alternative_plans :: "url_resolver \<Rightarrow> jsval \<Rightarrow> string \<Rightarrow> nat \<times> jsval \<Rightarrow> security_plan list" where
  "alternative_plans resolve doc baseURL alternative =
     (let (i, v) = alternative in
      if \<not> validSecurityRequirement doc v then []
      else
        let req = (case v of JObj ms \<Rightarrow> ms | _ \<Rightarrow> []) in
        fold (extend_plans resolve doc baseURL req) (js_sort (member_keys req))
          [\<lparr> sp_requirements = [], sp_schemes = [], sp_alternative = i \<rparr>])"

definition credentialEmitsSensitiveField :: "jsval \<Rightarrow> bool" where
  "credentialEmitsSensitiveField scheme =
     (let type = scheme_field scheme ''type'' in
      type \<in> set [''apiKey'', ''oauth2'', ''openIdConnect''] \<or>
      type = ''http'' \<and> ascii_lower (scheme_field scheme ''scheme'') \<in> set [''basic'', ''bearer''])"

text \<open>No plans are \<open>null\<close> in the source; here the empty list.\<close>

definition securityPlans :: "url_resolver \<Rightarrow> jsval \<Rightarrow> jsval \<Rightarrow> string \<Rightarrow> string \<Rightarrow> security_plan list" where
  "securityPlans resolve doc op baseURL verb =
     (let plans = concat (map (alternative_plans resolve doc baseURL) (enumerate 0 (effectiveSecurityRequirements doc op))) in
      if ascii_upper verb = ''TRACE''
      then filter (\<lambda>plan. \<not> list_ex (\<lambda>s. credentialEmitsSensitiveField (snd s)) (sp_schemes plan)) plans
      else plans)"

definition unpopulated :: populated where
  "unpopulated = \<lparr> pop_header = [], pop_query = [], pop_cookie = [] \<rparr>"

definition plan_collision :: "jsval list \<Rightarrow> security_plan \<Rightarrow> collision option" where
  "plan_collision params plan =
     openAPICredentialCollision (openAPICredentialDestinations (sp_schemes plan)) params unpopulated"

definition viableSecurityPlans ::
  "url_resolver \<Rightarrow> jsval \<Rightarrow> jsval \<Rightarrow> string \<Rightarrow> jsval list \<Rightarrow> string \<Rightarrow> security_plan list" where
  "viableSecurityPlans resolve doc op baseURL params verb =
     filter (\<lambda>plan. plan_collision params plan = None) (securityPlans resolve doc op baseURL verb)"

text \<open>
  An index is a native number, whose token is its shortest spelling; a decimal carrier is none.
\<close>

definition plan_index :: "jsval \<Rightarrow> nat option" where
  "plan_index v =
     (case v of
        JNum t \<Rightarrow>
          if t = ''0'' then Some 0
          else if t \<noteq> [] \<and> list_all is_digit t \<and> hd t \<noteq> CHR ''0'' then Some (digits_value 0 t)
          else None
      | _ \<Rightarrow> None)"

definition configuredSecurityPlans :: "security_plan list \<Rightarrow> jsval \<Rightarrow> security_plan list" where
  "configuredSecurityPlans plans ctx =
     (let configuration = contextConfiguration ctx in
      if \<not> has_member configuration ''security'' then plans
      else
        (case plan_index (get_prop (member_of configuration ''security'') ''index'') of
           None \<Rightarrow> []
         | Some i \<Rightarrow> filter (\<lambda>plan. sp_alternative plan = i) plans))"

definition securitySelectionError ::
  "url_resolver \<Rightarrow> jsval \<Rightarrow> jsval \<Rightarrow> jsval \<Rightarrow> string \<Rightarrow> jsval list \<Rightarrow> string \<Rightarrow> string" where
  "securitySelectionError resolve doc op ctx baseURL params verb =
     (let plans = viableSecurityPlans resolve doc op baseURL params verb in
      if plans = [] then
        (if effectiveSecurityRequirements doc op = [] then []
         else ''security declaration has no complete usable alternative'')
      else if member_of (contextConfiguration ctx) ''security'' \<noteq> JUndefined \<and> configuredSecurityPlans plans ctx = []
      then ''configuration.security does not select a usable alternative''
      else [])"

definition securityAlternativesCollision ::
  "url_resolver \<Rightarrow> jsval \<Rightarrow> jsval \<Rightarrow> string \<Rightarrow> jsval list \<Rightarrow> string \<Rightarrow> collision option" where
  "securityAlternativesCollision resolve doc op baseURL params verb =
     (let collisions = map (plan_collision params) (securityPlans resolve doc op baseURL verb) in
      case collisions of
        [] \<Rightarrow> None
      | first # _ \<Rightarrow> if list_all (\<lambda>c. c \<noteq> None) collisions then first else None)"

section \<open>The challenge and the selection\<close>

definition requirement_of :: "js_members \<Rightarrow> requirement" where
  "requirement_of req =
     \<lparr> rq_type = str_or (member_of req ''type'') [], rq_name = member_of req ''name'',
       rq_point = member_of req ''point'', rq_path = member_of req ''path'',
       rq_schema = member_of req ''schema'', rq_durable = member_of req ''durable'' \<rparr>"

definition securityPlanSatisfied :: "security_plan \<Rightarrow> js_members \<Rightarrow> bool" where
  "securityPlanSatisfied plan ctx =
     (let handled = record_field (JObj ctx) ''$openapiSecurity'' in
      list_all (\<lambda>req.
        (case member_of req ''name'' of JStr n \<Rightarrow> get_object handled n = JBool True | _ \<Rightarrow> False) \<or>
        contextSatisfies ctx [[requirement_of req]]) (sp_requirements plan))"

definition plan_satisfied :: "jsval \<Rightarrow> security_plan \<Rightarrow> bool" where
  "plan_satisfied ctx plan \<longleftrightarrow> (case ctx of JObj ms \<Rightarrow> securityPlanSatisfied plan ms | _ \<Rightarrow> False)"

definition context_details :: "string \<Rightarrow> js_members list list \<Rightarrow> jsval" where
  "context_details target alternatives =
     JObj [(''target'', JStr target),
           (''alternatives'', JArr (map (\<lambda>reqs. JObj [(''requirements'', JArr (map JObj reqs))]) alternatives))]"

definition alternative_indices :: "security_plan list \<Rightarrow> nat list" where
  "alternative_indices plans = sort (remdups (map sp_alternative plans))"

definition selection_requirement :: "nat list \<Rightarrow> js_members" where
  "selection_requirement indices =
     [(''type'', JStr ''config.value''), (''point'', JStr ''security''), (''path'', JStr ''/index''),
      (''description'', JStr ''select one complete declared security alternative''),
      (''schema'', JObj [(''enum'', JArr (map (\<lambda>i. JNum (decimal i)) indices))]), (''durable'', JBool True)]"

definition requiredContext ::
  "url_resolver \<Rightarrow> jsval \<Rightarrow> jsval \<Rightarrow> jsval \<Rightarrow> string \<Rightarrow> jsval list \<Rightarrow> string \<Rightarrow> jsval option" where
  "requiredContext resolve doc op ctx baseURL params verb =
     (let plans = configuredSecurityPlans (viableSecurityPlans resolve doc op baseURL params verb) ctx;
          indices = alternative_indices plans in
      if plans = [] then None
      else if member_of (contextConfiguration ctx) ''security'' = JUndefined \<and> 1 < length indices
      then Some (context_details baseURL [[selection_requirement indices]])
      else if list_ex (\<lambda>plan. sp_requirements plan = []) plans then None
      else if list_ex (plan_satisfied ctx) plans then None
      else Some (context_details baseURL (map sp_requirements plans)))"

definition selectedSecurityPlan ::
  "url_resolver \<Rightarrow> jsval \<Rightarrow> jsval \<Rightarrow> jsval \<Rightarrow> string \<Rightarrow> jsval list \<Rightarrow> string \<Rightarrow> security_plan option" where
  "selectedSecurityPlan resolve doc op ctx baseURL params verb =
     List.find (\<lambda>plan. sp_requirements plan = [] \<or> plan_satisfied ctx plan)
       (configuredSecurityPlans (viableSecurityPlans resolve doc op baseURL params verb) ctx)"

definition context_source :: "jsval \<Rightarrow> credential_source" where
  "context_source ctx =
     \<lparr> cs_apiKey = (\<lambda>n. as_str (contextApiKeyFor ctx (Some n))),
       cs_basic = (\<lambda>n. contextBasicAuthFor ctx (Some n)),
       cs_bearer = (\<lambda>n. Some (contextBearerTokenFor ctx (Some n))),
       cs_accessToken = (\<lambda>n. Some (contextAccessTokenFor ctx (Some n))) \<rparr>"

definition credentialValues :: "security_plan \<Rightarrow> jsval \<Rightarrow> (credential_error, placement list) res" where
  "credentialValues plan ctx = buildOpenAPICredentialPlacements (sp_schemes plan) (context_source ctx)"

definition credentialPlacements ::
  "url_resolver \<Rightarrow> jsval \<Rightarrow> jsval \<Rightarrow> jsval \<Rightarrow> string \<Rightarrow> jsval list \<Rightarrow> (credential_error, placement list) res" where
  "credentialPlacements resolve doc op ctx baseURL params =
     (case selectedSecurityPlan resolve doc op ctx baseURL params [] of
        None \<Rightarrow> Inr []
      | Some plan \<Rightarrow>
          if sp_requirements plan = [] \<or> as_object ctx = None then Inr [] else credentialValues plan ctx)"

section \<open>Conflicts of declarations and of context hints\<close>

definition owned_fields :: "string list" where
  "owned_fields =
     [''host'', ''content-length'', ''connection'', ''keep-alive'', ''proxy-authorization'',
      ''proxy-connection'', ''te'', ''trailer'', ''transfer-encoding'', ''upgrade'']"

definition parameterOwnershipConflict :: "jsval list \<Rightarrow> string" where
  "parameterOwnershipConflict params =
     (let names = map (\<lambda>p. ascii_lower (p_name p)) (filter (\<lambda>p. p_in p = ''header'' \<and> p_name p \<noteq> []) params) in
      case List.find (\<lambda>n. n \<in> set owned_fields) names of
        None \<Rightarrow> []
      | Some n \<Rightarrow>
          ''effective header parameter '' @ [CHR 0x22] @ n @ [CHR 0x22] @
          '' collides with a processor-owned request field (OAPI-P-10)'')"

definition pathTemplateAddressabilityConflict :: "string \<Rightarrow> jsval list \<Rightarrow> string" where
  "pathTemplateAddressabilityConflict template params =
     (let declared = map p_name (filter (\<lambda>p. p_in p = ''path'' \<and> p_name p \<noteq> []) params);
          missing = remdups (filter (\<lambda>n. n \<notin> set declared) (pathTemplateVariables template)) in
      if missing = [] then []
      else ''path template variable(s) '' @ join '', '' (code_point_sort missing) @
        '' have no declared path parameter: the target URL cannot be built (unresolvable target)'')"

definition raw_cookie_hint :: "jsval \<Rightarrow> bool" where
  "raw_cookie_hint ctx \<longleftrightarrow> list_ex (\<lambda>n. ascii_lower n = ''cookie'') (member_keys (contextHeaders ctx))"

definition raw_cookie_owner :: "placement list \<Rightarrow> populated \<Rightarrow> bool" where
  "raw_cookie_owner placements pop \<longleftrightarrow> ''cookie'' \<in> set (pop_header pop) \<or> list_ex raw_cookie placements"

definition contextChannelCollision :: "jsval \<Rightarrow> placement list \<Rightarrow> populated \<Rightarrow> string" where
  "contextChannelCollision ctx placements pop =
     (let hint = raw_cookie_hint ctx; raw = raw_cookie_owner placements pop;
          structured = (pop_cookie pop \<noteq> [] \<or> list_ex (\<lambda>pl. pl_channel pl = Cookie_Channel) placements \<or>
                        contextCookies ctx \<noteq> []) in
      if hint \<and> (raw \<or> structured)
      then ''raw Cookie context header collides with another raw or structured cookie source (OAPI-P-10: refused before dispatch, never a silent overwrite)''
      else if raw \<and> contextCookies ctx \<noteq> []
      then ''raw Cookie header source collides with structured context cookies (OAPI-P-10: refused before dispatch, never a silent overwrite)''
      else [])"

section \<open>What a plan is\<close>

text \<open>A plan over the names of a requirement: its schemes and requirements in the order of the names.\<close>

definition plan_over :: "jsval \<Rightarrow> nat \<Rightarrow> string list \<Rightarrow> security_plan \<Rightarrow> bool" where
  "plan_over doc i names plan \<longleftrightarrow>
     sp_alternative plan = i \<and> sp_schemes plan = map (\<lambda>n. (n, scheme_named doc n)) names \<and>
     map (\<lambda>req. member_of req ''name'') (sp_requirements plan) = map JStr names"

lemma flow_requirement_unnamed: "req \<in> set (flow_requirement resolve baseURL scopes c) \<Longrightarrow> map_of req ''name'' = None"
  by (cases c) (auto simp: flow_requirement_def scopes_member_def split: if_splits)

lemma oauth2Requirements_unnamed:
  "req \<in> set (oauth2Requirements resolve scheme baseURL scopes) \<Longrightarrow> map_of req ''name'' = None"
  by (auto simp: oauth2Requirements_def Let_def scopes_member_def dest!: flow_requirement_unnamed split: if_splits)

lemma mapScheme_unnamed: "map_of (mapScheme resolve scheme baseURL scopes) ''name'' = None"
  by (auto simp: mapScheme_def Let_def scopes_member_def)

lemma schemeRequirements_named:
  "req \<in> set (schemeRequirements resolve scheme baseURL name scopes) \<Longrightarrow> member_of req ''name'' = JStr name"
  using oauth2Requirements_unnamed mapScheme_unnamed
  by (fastforce simp: schemeRequirements_def member_of_def map_add_def split: if_splits option.splits)

lemma extend_plans_over:
  assumes "\<forall>plan\<in>set plans. plan_over doc i done plan" and "plan \<in> set (extend_plans resolve doc baseURL req name plans)"
  shows "plan_over doc i (done @ [name]) plan"
  using assms schemeRequirements_named
  by (fastforce simp: extend_plans_def plan_over_def Let_def)

lemma extended_plans_over:
  "\<forall>plan\<in>set plans. plan_over doc i done plan \<Longrightarrow>
     plan \<in> set (fold (extend_plans resolve doc baseURL req) names plans) \<Longrightarrow> plan_over doc i (done @ names) plan"
proof (induction names arbitrary: plans "done")
  case (Cons name names)
  have "\<forall>p\<in>set (extend_plans resolve doc baseURL req name plans). plan_over doc i (done @ [name]) p"
    using extend_plans_over [OF Cons.prems(1)] by blast
  from Cons.IH [OF this] Cons.prems(2) show ?case by simp
qed simp

lemma securityPlans_over:
  assumes "plan \<in> set (securityPlans resolve doc op baseURL verb)"
  obtains req where "sp_alternative plan < length (effectiveSecurityRequirements doc op)"
    "effectiveSecurityRequirements doc op ! sp_alternative plan = JObj req" "validSecurityRequirement doc (JObj req)"
    "plan_over doc (sp_alternative plan) (js_sort (member_keys req)) plan"
proof -
  let ?reqs = "effectiveSecurityRequirements doc op"
  from assms obtain i v where iv: "(i, v) \<in> set (enumerate 0 ?reqs)" "plan \<in> set (alternative_plans resolve doc baseURL (i, v))"
    by (auto simp: securityPlans_def Let_def split: if_splits)
  from iv(1) have at: "i < length ?reqs" "v = ?reqs ! i" by (auto simp: in_set_enumerate_eq)
  from iv(2) have valid: "validSecurityRequirement doc v" by (auto simp: alternative_plans_def split: if_splits)
  then obtain req where v: "v = JObj req" by (auto simp: validSecurityRequirement_def split: option.splits)
  let ?start = "\<lparr> sp_requirements = [], sp_schemes = [], sp_alternative = i \<rparr>"
  have "plan \<in> set (fold (extend_plans resolve doc baseURL req) (js_sort (member_keys req)) [?start])"
    using iv(2) valid by (simp add: alternative_plans_def v)
  then have over: "plan_over doc i ([] @ js_sort (member_keys req)) plan"
    by (intro extended_plans_over [where plans = "[?start]"]) (simp_all add: plan_over_def)
  then have "sp_alternative plan = i" by (simp add: plan_over_def)
  with at v valid over show ?thesis by (intro that [of req]) simp_all
qed

lemma selected_in:
  assumes "selectedSecurityPlan resolve doc op ctx baseURL params verb = Some plan"
  shows "plan \<in> set (configuredSecurityPlans (viableSecurityPlans resolve doc op baseURL params verb) ctx)"
    and "sp_requirements plan = [] \<or> plan_satisfied ctx plan"
  using assms by (auto simp: selectedSecurityPlan_def find_Some_iff)

lemma configured_in:
  "plan \<in> set (configuredSecurityPlans plans ctx) \<Longrightarrow> plan \<in> set plans \<and>
     (has_member (contextConfiguration ctx) ''security'' \<longrightarrow>
       plan_index (get_prop (member_of (contextConfiguration ctx) ''security'') ''index'') = Some (sp_alternative plan))"
  by (auto simp: configuredSecurityPlans_def Let_def split: if_splits option.splits)

text \<open>When the selection raises no error and no context is required, a plan is selected.\<close>

lemma secured_selection:
  assumes "securitySelectionError resolve doc op ctx baseURL params verb = []"
    and "requiredContext resolve doc op ctx baseURL params verb = None"
    and "effectiveSecurityRequirements doc op \<noteq> []"
    and "map_of (contextConfiguration ctx) ''security'' \<noteq> Some JUndefined"
  shows "\<exists>plan. selectedSecurityPlan resolve doc op ctx baseURL params verb = Some plan"
proof -
  let ?viable = "viableSecurityPlans resolve doc op baseURL params verb"
  let ?plans = "configuredSecurityPlans ?viable ctx"
  have viable: "?viable \<noteq> []"
    using assms(1,3) by (auto simp: securitySelectionError_def Let_def)
  have plans: "?plans \<noteq> []"
  proof (cases "has_member (contextConfiguration ctx) ''security''")
    case True
    then have "member_of (contextConfiguration ctx) ''security'' \<noteq> JUndefined"
      using assms(4) by (auto simp: member_of_def has_member_iff)
    with assms(1) viable show ?thesis by (auto simp: securitySelectionError_def Let_def split: if_splits)
  next
    case False
    with viable show ?thesis by (simp add: configuredSecurityPlans_def)
  qed
  have "list_ex (\<lambda>plan. sp_requirements plan = []) ?plans \<or> list_ex (plan_satisfied ctx) ?plans"
    using assms(2) plans by (auto simp: requiredContext_def Let_def split: if_splits)
  then have "selectedSecurityPlan resolve doc op ctx baseURL params verb \<noteq> None"
    by (auto simp: selectedSecurityPlan_def find_None_iff list_ex_iff)
  then show ?thesis by auto
qed

section \<open>Claims\<close>

text \<open>
  C14.  The credentials of one request come from one declared alternative: the selected plan has exactly
  the schemes of the Security Requirement Object at its index, each resolved in the document and valid, one
  requirement of each in the same order, destinations that collide neither with each other nor with the
  parameters, and the index a configuration names.  It is anonymous or satisfied by the context.
\<close>

theorem selected_plan_is_one_alternative:
  assumes "selectedSecurityPlan resolve doc op ctx baseURL params verb = Some plan"
  shows "\<exists>req. sp_alternative plan < length (effectiveSecurityRequirements doc op) \<and>
    effectiveSecurityRequirements doc op ! sp_alternative plan = JObj req \<and>
    sp_schemes plan = map (\<lambda>n. (n, scheme_named doc n)) (js_sort (member_keys req)) \<and>
    (\<forall>n\<in>set (member_keys req). validSecurityScheme doc (scheme_named doc n)) \<and>
    map (\<lambda>r. member_of r ''name'') (sp_requirements plan) = map JStr (js_sort (member_keys req)) \<and>
    plan_collision params plan = None \<and>
    (has_member (contextConfiguration ctx) ''security'' \<longrightarrow>
      plan_index (get_prop (member_of (contextConfiguration ctx) ''security'') ''index'') = Some (sp_alternative plan)) \<and>
    (sp_requirements plan = [] \<or> plan_satisfied ctx plan)"
proof -
  note c = configured_in [OF selected_in(1) [OF assms]]
  then have viable: "plan \<in> set (securityPlans resolve doc op baseURL verb)" "plan_collision params plan = None"
    by (auto simp: viableSecurityPlans_def)
  from viable(1) obtain req where r: "sp_alternative plan < length (effectiveSecurityRequirements doc op)"
    "effectiveSecurityRequirements doc op ! sp_alternative plan = JObj req" "validSecurityRequirement doc (JObj req)"
    "plan_over doc (sp_alternative plan) (js_sort (member_keys req)) plan" by (rule securityPlans_over)
  from r(3) have "\<forall>n\<in>set (member_keys req). validSecurityScheme doc (scheme_named doc n)"
    by (auto simp: validSecurityRequirement_def valid_entry_def member_keys_def list_all_iff Let_def)
  with r viable(2) c selected_in(2) [OF assms] show ?thesis
    by (intro exI [of _ req]) (simp add: plan_over_def)
qed

text \<open>
  C37.  For the method \<open>TRACE\<close>, whose response repeats the request, the client itself places no credential:
  whatever the document declares and the context holds, the selected plan has no scheme whose credential is a
  key, a token or a password, and the stored credentials give no placement in the headers, the query or the
  cookies.  What a handler of the caller adds for a scheme of another type (HTTP Digest, say), and header fields the caller's
  own context hints name, are not placements of the client and may still reach the request.
\<close>

theorem trace_plan_places_no_credential:
  assumes "selectedSecurityPlan resolve doc op ctx baseURL params verb = Some plan" and "ascii_upper verb = ''TRACE''"
  shows "(\<forall>(name, scheme)\<in>set (sp_schemes plan).
            scheme_field scheme ''type'' \<notin> {''apiKey'', ''oauth2'', ''openIdConnect''} \<and>
            (scheme_field scheme ''type'' = ''http'' \<longrightarrow> ascii_lower (scheme_field scheme ''scheme'') \<notin> {''basic'', ''bearer''})) \<and>
    credentialValues plan ctx = Inr []"
proof
  have "plan \<in> set (securityPlans resolve doc op baseURL verb)"
    using configured_in [OF selected_in(1) [OF assms(1)]] by (auto simp: viableSecurityPlans_def)
  with assms(2) have silent: "\<forall>s\<in>set (sp_schemes plan). \<not> credentialEmitsSensitiveField (snd s)"
    by (auto simp: securityPlans_def Let_def list_ex_iff)
  then show "\<forall>(name, scheme)\<in>set (sp_schemes plan).
      scheme_field scheme ''type'' \<notin> {''apiKey'', ''oauth2'', ''openIdConnect''} \<and>
      (scheme_field scheme ''type'' = ''http'' \<longrightarrow> ascii_lower (scheme_field scheme ''scheme'') \<notin> {''basic'', ''bearer''})"
    by (force simp: credentialEmitsSensitiveField_def Let_def)
  have "scheme_placements source s = Inr []" if "s \<in> set (sp_schemes plan)" for source s
  proof -
    from silent that have "\<not> credentialEmitsSensitiveField (snd s)" by blast
    then show ?thesis by (cases s) (auto simp: scheme_placements_def credentialEmitsSensitiveField_def Let_def)
  qed
  then have "map_res (scheme_placements source) (sp_schemes plan) = Inr (map (\<lambda>_. []) (sp_schemes plan))" for source
    by (simp cong: map_res_cong)
  then show "credentialValues plan ctx = Inr []" by (simp add: credentialValues_def buildOpenAPICredentialPlacements_def)
qed

section \<open>An operation with two alternatives\<close>

definition example_secured_document :: jsval where
  "example_secured_document =
     JObj [(''openapi'', JStr ''3.1.0''),
       (''components'', JObj [(''securitySchemes'', JObj
         [(''key'', JObj [(''type'', JStr ''apiKey''), (''in'', JStr ''header''), (''name'', JStr ''X-Key'')]),
          (''oauth'', JObj [(''type'', JStr ''oauth2''), (''flows'', JObj [])])])]),
       (''security'', JArr [JObj [(''oauth'', JArr [])], JObj [(''key'', JArr []), (''oauth'', JArr [])]])]"

definition example_security_context :: jsval where
  "example_security_context =
     JObj [(''configuration'', JObj [(''security'', JObj [(''index'', JNum ''1'')])]),
           (''apiKey'', JStr ''k''), (''accessToken'', JStr ''t'')]"

definition example_selection :: "security_plan option" where
  "example_selection =
     selectedSecurityPlan (\<lambda>_ _. None) example_secured_document (JObj []) example_security_context ''https://h'' [] ''GET''"

lemma example_selected:
  "map_option (\<lambda>plan. (sp_alternative plan, map fst (sp_schemes plan))) example_selection = Some (1, [''key'', ''oauth''])"
  by code_simp

theorem selected_plan_is_one_alternative_witness:
  "\<exists>plan. example_selection = Some plan \<and>
     (\<exists>req. effectiveSecurityRequirements example_secured_document (JObj []) ! sp_alternative plan = JObj req \<and>
       sp_schemes plan = map (\<lambda>n. (n, scheme_named example_secured_document n)) (js_sort (member_keys req)))"
proof -
  obtain plan where p: "example_selection = Some plan" using example_selected by (cases example_selection) auto
  from selected_plan_is_one_alternative [OF p [unfolded example_selection_def]] p show ?thesis by metis
qed

theorem trace_plan_places_no_credential_witness:
  "\<exists>plan. selectedSecurityPlan (\<lambda>_ _. None) (JObj [(''openapi'', JStr ''3.1.0''),
       (''components'', JObj [(''securitySchemes'', JObj [(''tls'', JObj [(''type'', JStr ''mutualTLS'')])])]),
       (''security'', JArr [JObj [(''tls'', JArr [])]])]) (JObj [])
      (JObj [(''$openapiSecurity'', JObj [(''tls'', JBool True)])]) ''https://h'' [] ''trace'' = Some plan \<and>
     credentialValues plan (JObj [(''$openapiSecurity'', JObj [(''tls'', JBool True)])]) = Inr []"
proof -
  let ?ctx = "JObj [(''$openapiSecurity'', JObj [(''tls'', JBool True)])]"
  let ?sel = "selectedSecurityPlan (\<lambda>_ _. None) (JObj [(''openapi'', JStr ''3.1.0''),
       (''components'', JObj [(''securitySchemes'', JObj [(''tls'', JObj [(''type'', JStr ''mutualTLS'')])])]),
       (''security'', JArr [JObj [(''tls'', JArr [])]])]) (JObj []) ?ctx ''https://h'' [] ''trace''"
  have "map_option sp_alternative ?sel = Some 0" by code_simp
  then obtain plan where p: "?sel = Some plan" by (cases ?sel) auto
  have "ascii_upper ''trace'' = ''TRACE''" by code_simp
  from trace_plan_places_no_credential [OF p this] p show ?thesis by blast
qed

section \<open>Where the decision is lost\<close>

text \<open>
  A configuration that has \<open>security\<close> with the value \<open>undefined\<close> counts as unconfigured for the error and
  for the challenge, but selects no plan: a secured operation is sent without its credentials.
\<close>

lemma undefined_selection_sends_unauthenticated:
  "let ctx = JObj [(''configuration'', JObj [(''security'', JUndefined)]), (''accessToken'', JStr ''t'')] in
   securitySelectionError (\<lambda>_ _. None) example_secured_document (JObj []) ctx ''https://h'' [] ''GET'' = [] \<and>
   requiredContext (\<lambda>_ _. None) example_secured_document (JObj []) ctx ''https://h'' [] ''GET'' = None \<and>
   selectedSecurityPlan (\<lambda>_ _. None) example_secured_document (JObj []) ctx ''https://h'' [] ''GET'' = None"
  by code_simp

end
