(* ===== verification/Target_Base.thy ===== *)
theory Target_Base
  imports Js_Base
begin

text \<open>
  \<open>target-base.ts\<close>: whether a server URL denotes a target address, decided by the productions of
  RFC 3986 and the host rule of RFC 9110 instead of a URL parser.  The second half states those
  productions as predicates on how the text is put together and proves that the code decides them.
\<close>

section \<open>Character classes\<close>

definition isAlpha :: "char \<Rightarrow> bool" where
  "isAlpha c \<longleftrightarrow> is_upper c \<or> is_lower c"

definition isHexDigit :: "char \<Rightarrow> bool" where
  "isHexDigit c \<longleftrightarrow>
     is_digit c \<or> (0x61 \<le> byte c \<and> byte c \<le> 0x66) \<or> (0x41 \<le> byte c \<and> byte c \<le> 0x46)"

definition unreservedChar :: "char \<Rightarrow> bool" where
  "unreservedChar c \<longleftrightarrow> isAlpha c \<or> is_digit c \<or> c \<in> set ''-._~''"

definition subDelimChar :: "char \<Rightarrow> bool" where
  "subDelimChar c \<longleftrightarrow> c \<in> set ''!$&'()*+,;=''"

definition regNameChar :: "char \<Rightarrow> bool" where
  "regNameChar c \<longleftrightarrow> unreservedChar c \<or> subDelimChar c"

definition userinfoChar :: "char \<Rightarrow> bool" where
  "userinfoChar c \<longleftrightarrow> regNameChar c \<or> c = CHR '':''"

definition ipvFutureTailChar :: "char \<Rightarrow> bool" where
  "ipvFutureTailChar c \<longleftrightarrow> unreservedChar c \<or> subDelimChar c \<or> c = CHR '':''"

definition pcharPlusSlash :: "char \<Rightarrow> bool" where
  "pcharPlusSlash c \<longleftrightarrow> userinfoChar c \<or> c = CHR ''@'' \<or> c = CHR ''/''"

definition pcharPlusSlashQuestion :: "char \<Rightarrow> bool" where
  "pcharPlusSlashQuestion c \<longleftrightarrow> pcharPlusSlash c \<or> c = CHR ''?''"

lemmas uri_class_defs = isAlpha_def unreservedChar_def subDelimChar_def regNameChar_def userinfoChar_def
  ipvFutureTailChar_def pcharPlusSlash_def pcharPlusSlashQuestion_def

section \<open>The code\<close>

fun isCharRun :: "(char \<Rightarrow> bool) \<Rightarrow> string \<Rightarrow> bool" where
  "isCharRun allow [] = True"
| "isCharRun allow (c # s) =
     (if c = CHR ''%'' then
        (case s of
           h1 # h2 # t \<Rightarrow> isHexDigit h1 \<and> isHexDigit h2 \<and> isCharRun allow t
         | _ \<Rightarrow> False)
      else allow c \<and> isCharRun allow s)"

definition isURIScheme :: "string \<Rightarrow> bool" where
  "isURIScheme s \<longleftrightarrow>
     (case s of
        [] \<Rightarrow> False
      | c # t \<Rightarrow> isAlpha c \<and> list_all (\<lambda>d. isAlpha d \<or> is_digit d \<or> d \<in> set ''+-.'') t)"

definition isURIPort :: "string \<Rightarrow> bool" where
  "isURIPort remainder \<longleftrightarrow>
     (case remainder of [] \<Rightarrow> True | c # t \<Rightarrow> c = CHR '':'' \<and> list_all is_digit t)"

fun decimal_value :: "nat \<Rightarrow> string \<Rightarrow> nat" where
  "decimal_value v [] = v"
| "decimal_value v (c # s) = decimal_value (v * 10 + (byte c - 0x30)) s"

definition dec_octet :: "string \<Rightarrow> bool" where
  "dec_octet part \<longleftrightarrow>
     1 \<le> length part \<and> length part \<le> 3 \<and> \<not> (1 < length part \<and> hd part = CHR ''0'') \<and>
     list_all is_digit part \<and> decimal_value 0 part \<le> 255"

definition isIPv4Address :: "string \<Rightarrow> bool" where
  "isIPv4Address s \<longleftrightarrow> length (split_str ''.'' s) = 4 \<and> list_all dec_octet (split_str ''.'' s)"

definition h16 :: "string \<Rightarrow> bool" where
  "h16 part \<longleftrightarrow> 1 \<le> length part \<and> length part \<le> 4 \<and> list_all isHexDigit part"

fun count_groups :: "string list \<Rightarrow> nat option" where
  "count_groups [] = Some 0"
| "count_groups [part] =
     (if CHR ''.'' \<in> set part then (if isIPv4Address part then Some 2 else None)
      else if h16 part then Some 1 else None)"
| "count_groups (part # p # ps) =
     (if h16 part then map_option Suc (count_groups (p # ps)) else None)"

definition ipv6Groups :: "string \<Rightarrow> nat option" where
  "ipv6Groups run = (if run = [] then Some 0 else count_groups (split_str '':'' run))"

text \<open>The text around the first \<open>::\<close>.\<close>

fun cut_elision :: "string \<Rightarrow> (string \<times> string) option" where
  "cut_elision (c # d # s) =
     (if c = CHR '':'' \<and> d = CHR '':'' then Some ([], s)
      else map_option (\<lambda>(a, b). (c # a, b)) (cut_elision (d # s)))"
| "cut_elision _ = None"

definition isIPv6Address :: "string \<Rightarrow> bool" where
  "isIPv6Address s =
     (if s = [] then False
      else
        (case cut_elision s of
           None \<Rightarrow> ipv6Groups s = Some 8
         | Some (front, tail) \<Rightarrow>
             if cut_elision tail \<noteq> None then False
             else
               (case (ipv6Groups front, ipv6Groups tail) of
                  (Some m, Some n) \<Rightarrow> m + n \<le> 7
                | _ \<Rightarrow> False)))"

definition isIPLiteralInner :: "string \<Rightarrow> bool" where
  "isIPLiteralInner inner =
     (if inner \<noteq> [] \<and> hd inner \<in> set ''vV'' then
        (case cut CHR ''.'' inner of
           None \<Rightarrow> False
         | Some (front, tail) \<Rightarrow>
             2 \<le> length front \<and> tail \<noteq> [] \<and> list_all isHexDigit (tl front) \<and>
             isCharRun ipvFutureTailChar tail)
      else isIPv6Address inner)"

definition authority_host :: "string \<Rightarrow> string option" where
  "authority_host authority =
     (if authority \<noteq> [] \<and> hd authority = CHR ''['' then
        (case cut CHR '']'' authority of
           None \<Rightarrow> None
         | Some (front, remainder) \<Rightarrow>
             if \<not> isIPLiteralInner (tl front) then None
             else if \<not> isURIPort remainder then None
             else Some (front @ '']''))
      else
        (let (host, remainder) =
               (case cut_last CHR '':'' authority of None \<Rightarrow> (authority, []) | Some (h, p) \<Rightarrow> (h, CHR '':'' # p))
         in if \<not> isCharRun regNameChar host \<or> \<not> isURIPort remainder then None else Some host))"

definition uriAuthorityHost :: "string \<Rightarrow> string option" where
  "uriAuthorityHost authority =
     (case cut_last CHR ''@'' authority of
        None \<Rightarrow> authority_host authority
      | Some (userinfo, rest) \<Rightarrow>
          if \<not> isCharRun userinfoChar userinfo then None else authority_host rest)"

text \<open>Stripping a component behind its first delimiter; \<open>None\<close> when it is malformed.\<close>

definition strip_component :: "char \<Rightarrow> string \<Rightarrow> string option" where
  "strip_component d rest =
     (case cut d rest of
        None \<Rightarrow> Some rest
      | Some (front, component) \<Rightarrow> if isCharRun pcharPlusSlashQuestion component then Some front else None)"

definition hier_host :: "string \<Rightarrow> string option option" where
  "hier_host rest =
     (if starts_with ''//'' rest then
        (let after = drop 2 rest;
             (authority, path) = (case cut CHR ''/'' after of None \<Rightarrow> (after, []) | Some (a, p) \<Rightarrow> (a, CHR ''/'' # p))
         in if path \<noteq> [] \<and> \<not> isCharRun pcharPlusSlash path then None
            else map_option Some (uriAuthorityHost authority))
      else if rest \<noteq> [] \<and> \<not> isCharRun pcharPlusSlash rest then None
      else Some None)"

definition denotesTargetBase :: "string \<Rightarrow> bool" where
  "denotesTargetBase s =
     (case cut CHR '':'' s of
        None \<Rightarrow> False
      | Some (front, rest) \<Rightarrow>
          if front = [] \<or> \<not> isURIScheme front then False
          else
            (let scheme = ascii_lower front in
             case strip_component CHR ''#'' rest of
               None \<Rightarrow> False
             | Some rest' \<Rightarrow>
                 (case strip_component CHR ''?'' rest' of
                    None \<Rightarrow> False
                  | Some hier \<Rightarrow>
                      (case hier_host hier of
                         None \<Rightarrow> False
                       | Some host \<Rightarrow>
                           if scheme = ''http'' \<or> scheme = ''https'' then host \<noteq> None \<and> host \<noteq> Some []
                           else True))))"

definition hasURIScheme :: "string \<Rightarrow> bool" where
  "hasURIScheme s =
     (case cut CHR '':'' s of None \<Rightarrow> False | Some (front, _) \<Rightarrow> front \<noteq> [] \<and> isURIScheme front)"

section \<open>The productions\<close>

text \<open>A run of admitted characters and percent-encoded triplets.\<close>

inductive pct_run :: "(char \<Rightarrow> bool) \<Rightarrow> string \<Rightarrow> bool" for allow where
  run_Nil: "pct_run allow []"
| run_char: "allow c \<Longrightarrow> c \<noteq> CHR ''%'' \<Longrightarrow> pct_run allow s \<Longrightarrow> pct_run allow (c # s)"
| run_pct: "isHexDigit h \<Longrightarrow> isHexDigit l \<Longrightarrow> pct_run allow s \<Longrightarrow> pct_run allow (CHR ''%'' # h # l # s)"

inductive_cases pct_run_ConsE: "pct_run allow (c # s)"

text \<open>\<open>authority = [ userinfo "@" ] host [ ":" port ]\<close>\<close>

definition rfc_authority :: "string \<Rightarrow> string \<Rightarrow> bool" where
  "rfc_authority authority host \<longleftrightarrow>
     (\<exists>user port. authority = user @ host @ port \<and>
        (user = [] \<or> (\<exists>u. user = u @ ''@'' \<and> pct_run userinfoChar u)) \<and>
        (port = [] \<or> (\<exists>d. port = '':'' @ d \<and> list_all is_digit d)) \<and>
        (pct_run regNameChar host \<or> (\<exists>inner. host = ''['' @ inner @ '']'' \<and> isIPLiteralInner inner)))"

text \<open>
  \<open>hier-part\<close>, with the host when there is an authority: two slashes, an authority and a path that
  is empty or starts with a slash; or a path that does not start with two slashes.
\<close>

definition rfc_hier :: "string \<Rightarrow> string option \<Rightarrow> bool" where
  "rfc_hier hier host \<longleftrightarrow>
     (case host of
        None \<Rightarrow> pct_run pcharPlusSlash hier \<and> \<not> prefix ''//'' hier
      | Some h \<Rightarrow>
          (\<exists>authority path. hier = ''//'' @ authority @ path \<and> rfc_authority authority h \<and>
             pct_run pcharPlusSlash path \<and> (path = [] \<or> hd path = CHR ''/'')))"

definition rfc_optional :: "char \<Rightarrow> string \<Rightarrow> bool" where
  "rfc_optional d part \<longleftrightarrow>
     part = [] \<or> (\<exists>q. part = d # q \<and> pct_run pcharPlusSlashQuestion q)"

text \<open>\<open>URI = scheme ":" hier-part [ "?" query ] [ "#" fragment ]\<close>, with a host under http and https.\<close>

definition rfc_target :: "string \<Rightarrow> bool" where
  "rfc_target s \<longleftrightarrow>
     (\<exists>scheme hier query fragment host.
        s = scheme @ '':'' @ hier @ query @ fragment \<and> isURIScheme scheme \<and>
        rfc_hier hier host \<and> rfc_optional CHR ''?'' query \<and> rfc_optional CHR ''#'' fragment \<and>
        (ascii_lower scheme \<in> {''http'', ''https''} \<longrightarrow> host \<noteq> None \<and> host \<noteq> Some []))"

section \<open>The code decides the productions\<close>

lemma isCharRun_iff: "isCharRun allow s \<longleftrightarrow> pct_run allow s"
proof
  show "isCharRun allow s \<Longrightarrow> pct_run allow s"
  proof (induction s rule: length_induct)
    case (1 s)
    show ?case
    proof (cases s)
      case Nil
      then show ?thesis by (simp add: run_Nil)
    next
      case (Cons c t)
      show ?thesis
      proof (cases "c = CHR ''%''")
        case False
        with 1 Cons show ?thesis by (simp add: run_char)
      next
        case True
        with 1(2) Cons obtain h l u where "t = h # l # u" "isHexDigit h" "isHexDigit l" "isCharRun allow u"
          by (cases t; cases "tl t") auto
        with 1(1) Cons True show ?thesis by (simp add: run_pct)
      qed
    qed
  qed
  show "pct_run allow s \<Longrightarrow> isCharRun allow s"
    by (induction rule: pct_run.induct) auto
qed

lemma pct_run_chars:
  "pct_run allow s \<Longrightarrow> d \<in> set s \<Longrightarrow> allow d \<or> d = CHR ''%'' \<or> isHexDigit d"
  by (induction rule: pct_run.induct) auto

lemma delimiter_not_hex:
  "d \<in> set '':/?#[]@'' \<Longrightarrow> \<not> isHexDigit d \<and> d \<noteq> CHR ''%'' \<and> \<not> unreservedChar d \<and> \<not> subDelimChar d"
proof -
  have "\<forall>d\<in>set '':/?#[]@''. \<not> isHexDigit d \<and> d \<noteq> CHR ''%'' \<and> \<not> unreservedChar d \<and> \<not> subDelimChar d"
    by code_simp
  then show "d \<in> set '':/?#[]@'' \<Longrightarrow> ?thesis" by blast
qed

lemma pct_run_avoids:
  "pct_run allow s \<Longrightarrow> \<not> allow d \<Longrightarrow> d \<in> set '':/?#[]@'' \<Longrightarrow> d \<notin> set s"
  using pct_run_chars delimiter_not_hex by blast

lemma class_delimiters:
  "\<forall>d\<in>set '':/?#[]@''. \<not> regNameChar d"
  "\<forall>d\<in>set ''/?#[]@''. \<not> userinfoChar d \<and> \<not> ipvFutureTailChar d"
  "\<forall>d\<in>set ''?#[]''. \<not> pcharPlusSlash d"
  "\<forall>d\<in>set ''#[]''. \<not> pcharPlusSlashQuestion d"
  "\<forall>d\<in>set '':/?#[]@''. \<not> is_digit d"
  "\<forall>d\<in>set ''/?#[]@''. \<not> isHexDigit d \<and> d \<notin> set ''.:vV''"
  by code_simp+

lemma isURIPort_iff: "isURIPort p \<longleftrightarrow> p = [] \<or> (\<exists>d. p = '':'' @ d \<and> list_all is_digit d)"
  by (cases p) (auto simp: isURIPort_def)

lemma digits_not_delimiter: "list_all is_digit d \<Longrightarrow> c \<in> set '':/?#[]@'' \<Longrightarrow> c \<notin> set d"
  using class_delimiters(5) by (auto simp: list_all_iff)

lemma cut_elision_Some: "cut_elision s = Some (a, b) \<Longrightarrow> s = a @ ''::'' @ b"
  by (induction s arbitrary: a b rule: cut_elision.induct) (auto split: if_splits)

lemma isIPv4_chars: "isIPv4Address s \<Longrightarrow> c \<in> set s \<Longrightarrow> is_digit c \<or> c = CHR ''.''"
proof -
  assume "isIPv4Address s" "c \<in> set s"
  have "set s = set (join ''.'' (split_str ''.'' s))" by (simp add: join_split_str)
  then show ?thesis
    using set_join [of "''.''" "split_str ''.'' s"] \<open>isIPv4Address s\<close> \<open>c \<in> set s\<close>
    by (auto simp: isIPv4Address_def list_all_iff dec_octet_def)
qed

lemma count_groups_chars:
  "count_groups ps = Some n \<Longrightarrow> p \<in> set ps \<Longrightarrow> c \<in> set p \<Longrightarrow> isHexDigit c \<or> c = CHR ''.''"
  by (induction ps arbitrary: n rule: count_groups.induct)
    (auto simp: h16_def list_all_iff isHexDigit_def dest: isIPv4_chars split: if_splits)

lemma ipv6Groups_chars:
  "ipv6Groups s = Some n \<Longrightarrow> c \<in> set s \<Longrightarrow> isHexDigit c \<or> c \<in> set ''.:''"
proof -
  assume s: "ipv6Groups s = Some n" "c \<in> set s"
  have "set s = set (join '':'' (split_str '':'' s))" by (simp add: join_split_str)
  then have "c = CHR '':'' \<or> (\<exists>p\<in>set (split_str '':'' s). c \<in> set p)"
    using s(2) set_join [of "'':''" "split_str '':'' s"] by auto
  with s show ?thesis
    by (auto simp: ipv6Groups_def dest: count_groups_chars split: if_splits)
qed

lemma isIPv6_chars: "isIPv6Address s \<Longrightarrow> c \<in> set s \<Longrightarrow> isHexDigit c \<or> c \<in> set ''.:''"
proof -
  assume s: "isIPv6Address s" "c \<in> set s"
  show ?thesis
  proof (cases "cut_elision s")
    case None
    with s ipv6Groups_chars show ?thesis by (auto simp: isIPv6Address_def split: if_splits)
  next
    case (Some ab)
    then obtain a b where ab: "cut_elision s = Some (a, b)" by (cases ab) auto
    with s(1) obtain m n where "ipv6Groups a = Some m" "ipv6Groups b = Some n"
      by (auto simp: isIPv6Address_def split: if_splits option.splits)
    then show ?thesis using s(2) cut_elision_Some [OF ab] ipv6Groups_chars by auto
  qed
qed

lemma isIPLiteral_avoids:
  assumes s: "isIPLiteralInner s" and d: "d \<in> set ''/?#[]@''"
  shows "d \<notin> set s"
proof
  assume m: "d \<in> set s"
  have nd: "\<not> isHexDigit d" "d \<notin> set ''.:vV''" "\<not> ipvFutureTailChar d"
    using d class_delimiters(2,6) by blast+
  have pct: "d \<noteq> CHR ''%''" using d by auto
  show False
  proof (cases "s \<noteq> [] \<and> hd s \<in> set ''vV''")
    case True
    then obtain f t where ft: "cut CHR ''.'' s = Some (f, t)" "2 \<le> length f" "list_all isHexDigit (tl f)"
      "pct_run ipvFutureTailChar t"
      using s by (auto simp only: isIPLiteralInner_def isCharRun_iff if_True simp_thms split: option.splits prod.splits)
    then have f: "s = f @ CHR ''.'' # t" "f = hd s # tl f" by (auto simp: cut_Some) (cases f, auto)
    then have "d = hd s \<or> d \<in> set (tl f) \<or> d = CHR ''.'' \<or> d \<in> set t"
      using m by (metis Un_iff set_ConsD set_append)
    moreover have "d \<noteq> hd s" "d \<noteq> CHR ''.''" using nd(2) True by auto
    moreover have "d \<notin> set (tl f)" using ft(3) nd(1) by (auto simp: list_all_iff)
    moreover have "d \<notin> set t" using pct_run_chars [OF ft(4), of d] nd pct by blast
    ultimately show False by blast
  next
    case False
    with s have "isIPv6Address s" unfolding isIPLiteralInner_def by (simp only: if_False)
    from isIPv6_chars [OF this m] nd(1) have "d \<in> set ''.:''" by blast
    with nd(2) show False by auto
  qed
qed

text \<open>Host and port, then the whole authority.\<close>

definition rfc_host :: "string \<Rightarrow> bool" where
  "rfc_host host \<longleftrightarrow>
     pct_run regNameChar host \<or> (\<exists>inner. host = ''['' @ inner @ '']'' \<and> isIPLiteralInner inner)"

lemma regname_avoids: "pct_run regNameChar h \<Longrightarrow> d \<in> set '':/?#[]@'' \<Longrightarrow> d \<notin> set h"
  using pct_run_avoids class_delimiters(1) by blast

lemma port_avoids: "isURIPort p \<Longrightarrow> d \<in> set ''/?#[]@'' \<Longrightarrow> d \<notin> set p"
  using digits_not_delimiter [of "tl p" d] by (cases p) (auto simp: isURIPort_def)

lemma rfc_host_avoids: "rfc_host h \<Longrightarrow> d \<in> set ''/?#@'' \<Longrightarrow> d \<notin> set h"
  using regname_avoids [of h d] isIPLiteral_avoids [of _ d] by (auto simp: rfc_host_def)

lemma authority_host_iff:
  "authority_host a = Some h \<longleftrightarrow> (\<exists>port. a = h @ port \<and> isURIPort port \<and> rfc_host h)"
proof (cases "a \<noteq> [] \<and> hd a = CHR ''[''")
  case True
  then obtain t where a: "a = CHR ''['' # t" by (cases a) auto
  show ?thesis
  proof
    assume "authority_host a = Some h"
    then obtain f p where fp: "cut CHR '']'' a = Some (f, p)" "isIPLiteralInner (tl f)" "isURIPort p" "h = f @ '']''"
      using a by (auto simp: authority_host_def split: option.splits if_splits)
    then have e: "a = f @ CHR '']'' # p" by (simp add: cut_Some)
    then have "f = CHR ''['' # tl f" using a by (cases f) auto
    with fp e show "\<exists>port. a = h @ port \<and> isURIPort port \<and> rfc_host h"
      unfolding rfc_host_def by (metis append.assoc append_Cons append_Nil)
  next
    assume "\<exists>port. a = h @ port \<and> isURIPort port \<and> rfc_host h"
    then obtain p where p: "a = h @ p" "isURIPort p" "rfc_host h" by blast
    have "h \<noteq> []"
      using p(1,2) a by (auto simp: isURIPort_def)
    then have "hd h = CHR ''[''" using p(1) a by (cases h) auto
    then have "\<not> pct_run regNameChar h" using regname_avoids [of h "CHR ''[''"] \<open>h \<noteq> []\<close> by (cases h) auto
    then obtain inner where inner: "h = ''['' @ inner @ '']''" "isIPLiteralInner inner"
      using p(3) by (auto simp: rfc_host_def)
    have "cut CHR '']'' a = Some (CHR ''['' # inner, p)"
      using p(1) inner isIPLiteral_avoids [OF inner(2), of "CHR '']''"] by (simp add: cut_Some)
    with inner p(2) True show "authority_host a = Some h" by (simp add: authority_host_def)
  qed
next
  case False
  then have code: "authority_host a =
      (let (host, remainder) =
             (case cut_last CHR '':'' a of None \<Rightarrow> (a, []) | Some (h, p) \<Rightarrow> (h, CHR '':'' # p))
       in if \<not> isCharRun regNameChar host \<or> \<not> isURIPort remainder then None else Some host)"
    by (auto simp: authority_host_def)
  have lit: "rfc_host h \<and> a = h @ p \<longleftrightarrow> pct_run regNameChar h \<and> a = h @ p" for p
    using False by (auto simp: rfc_host_def)
  show ?thesis
  proof
    assume "authority_host a = Some h"
    then show "\<exists>port. a = h @ port \<and> isURIPort port \<and> rfc_host h"
      using lit by (auto simp: code cut_last_None cut_last_Some isCharRun_iff isURIPort_def rfc_host_def
          split: option.splits if_splits)
  next
    assume "\<exists>port. a = h @ port \<and> isURIPort port \<and> rfc_host h"
    then obtain p where p: "a = h @ p" "isURIPort p" "pct_run regNameChar h" using lit by blast
    have h: "CHR '':'' \<notin> set h" using regname_avoids [OF p(3)] by simp
    show "authority_host a = Some h"
    proof (cases p)
      case Nil
      with p h have "cut_last CHR '':'' a = None" by (simp add: cut_last_None)
      with p Nil show ?thesis unfolding code by (simp add: isCharRun_iff)
    next
      case (Cons c d)
      with p(2) have c: "c = CHR '':''" "list_all is_digit d" by (auto simp: isURIPort_def)
      then have "CHR '':'' \<notin> set d" using digits_not_delimiter by simp
      with p(1) Cons c have "cut_last CHR '':'' a = Some (h, d)" by (simp add: cut_last_Some)
      with p Cons c show ?thesis unfolding code by (simp add: isCharRun_iff)
    qed
  qed
qed

lemma rfc_authority_iff:
  "rfc_authority a h \<longleftrightarrow>
     (\<exists>user p. a = user @ h @ p \<and> (user = [] \<or> (\<exists>u. user = u @ ''@'' \<and> pct_run userinfoChar u)) \<and>
        isURIPort p \<and> rfc_host h)"
  unfolding rfc_authority_def isURIPort_iff rfc_host_def by blast

lemma rfc_authorityI:
  "isURIPort p \<Longrightarrow> rfc_host h \<Longrightarrow> rfc_authority (h @ p) h"
  "isURIPort p \<Longrightarrow> rfc_host h \<Longrightarrow> pct_run userinfoChar u \<Longrightarrow> rfc_authority (u @ ''@'' @ h @ p) h"
  unfolding rfc_authority_iff by (metis append_Nil) (metis append.assoc)

lemma uriAuthorityHost_iff: "uriAuthorityHost a = Some h \<longleftrightarrow> rfc_authority a h"
proof
  assume h: "uriAuthorityHost a = Some h"
  show "rfc_authority a h"
  proof (cases "cut_last CHR ''@'' a")
    case None
    with h have "authority_host a = Some h" by (simp add: uriAuthorityHost_def)
    then show ?thesis unfolding authority_host_iff using rfc_authorityI(1) by blast
  next
    case (Some ur)
    then obtain u r where "cut_last CHR ''@'' a = Some (u, r)" by (cases ur) auto
    with h have u: "a = u @ ''@'' @ r" "pct_run userinfoChar u" "authority_host r = Some h"
      by (auto simp: uriAuthorityHost_def cut_last_Some isCharRun_iff split: if_splits)
    then obtain p where "r = h @ p" "isURIPort p" "rfc_host h" unfolding authority_host_iff by blast
    with rfc_authorityI(2) [OF this(2,3) u(2)] u(1) show ?thesis by simp
  qed
next
  assume "rfc_authority a h"
  then obtain user p where a: "a = user @ h @ p" "user = [] \<or> (\<exists>u. user = u @ ''@'' \<and> pct_run userinfoChar u)"
    "isURIPort p" "rfc_host h"
    unfolding rfc_authority_iff by blast
  have at: "CHR ''@'' \<notin> set (h @ p)"
    using rfc_host_avoids [OF a(4), of "CHR ''@''"] port_avoids [OF a(3), of "CHR ''@''"] by simp
  have host: "authority_host (h @ p) = Some h" using a(3,4) authority_host_iff by blast
  from a(2) show "uriAuthorityHost a = Some h"
  proof
    assume "user = []"
    with a(1) at have "cut_last CHR ''@'' a = None" by (simp add: cut_last_None)
    with host a(1) \<open>user = []\<close> show ?thesis by (simp add: uriAuthorityHost_def)
  next
    assume "\<exists>u. user = u @ ''@'' \<and> pct_run userinfoChar u"
    then obtain u where u: "user = u @ ''@''" "pct_run userinfoChar u" by blast
    with a(1) at have "cut_last CHR ''@'' a = Some (u, h @ p)" by (simp add: cut_last_Some)
    with host u(2) show ?thesis by (simp add: uriAuthorityHost_def isCharRun_iff)
  qed
qed

lemma rfc_authority_avoids: "rfc_authority a h \<Longrightarrow> d \<in> set ''/?#'' \<Longrightarrow> d \<notin> set a"
proof -
  assume "rfc_authority a h" and d: "d \<in> set ''/?#''"
  then obtain user p where a: "a = user @ h @ p" "user = [] \<or> (\<exists>u. user = u @ ''@'' \<and> pct_run userinfoChar u)"
    "isURIPort p" "rfc_host h"
    unfolding rfc_authority_iff by blast
  have wide: "d \<in> set ''/?#@''" "d \<in> set ''/?#[]@''" "d \<in> set '':/?#[]@''" using d by auto
  have "d \<notin> set h" "d \<notin> set p" using rfc_host_avoids a(4) port_avoids a(3) wide by blast+
  moreover have "d \<notin> set u" if "pct_run userinfoChar u" for u
    using pct_run_avoids [OF that] class_delimiters(2) wide by blast
  then have "d \<notin> set user" using a(2) d by auto
  ultimately show ?thesis using a(1) by simp
qed

lemma hier_host_iff: "hier_host r = Some host \<longleftrightarrow> rfc_hier r host"
proof (cases "prefix ''//'' r")
  case False
  then show ?thesis
    by (cases host) (auto simp: hier_host_def rfc_hier_def starts_with_def isCharRun_iff run_Nil prefix_def)
next
  case True
  then obtain after where r: "r = ''//'' @ after" by (auto simp: prefix_def)
  obtain a p where ap: "(case cut CHR ''/'' after of None \<Rightarrow> (after, []) | Some (a, p) \<Rightarrow> (a, CHR ''/'' # p)) = (a, p)"
    by (cases "cut CHR ''/'' after") auto
  then have after: "after = a @ p" "CHR ''/'' \<notin> set a" "p = [] \<or> hd p = CHR ''/''"
    by (auto simp: cut_None cut_Some split: option.splits)
  have code: "hier_host r = (if p \<noteq> [] \<and> \<not> pct_run pcharPlusSlash p then None else map_option Some (uriAuthorityHost a))"
    using r ap by (simp add: hier_host_def starts_with_def isCharRun_iff)
  show ?thesis
  proof (cases host)
    case None
    with True show ?thesis by (auto simp: code rfc_hier_def)
  next
    case (Some h)
    have unique: "a' = a \<and> p' = p"
      if "after = a' @ p'" "rfc_authority a' h" "p' = [] \<or> hd p' = CHR ''/''" for a' p'
    proof -
      have "CHR ''/'' \<notin> set a'" using rfc_authority_avoids [OF that(2)] by simp
      then have "cut CHR ''/'' after = (if p' = [] then None else Some (a', tl p'))"
        using that(1,3) by (cases p') (auto simp: cut_None cut_Some)
      with ap that(1,3) show ?thesis by (cases p') auto
    qed
    have "rfc_hier r (Some h) \<longleftrightarrow> rfc_authority a h \<and> pct_run pcharPlusSlash p"
    proof
      assume "rfc_hier r (Some h)"
      then obtain a' p' where "after = a' @ p'" "rfc_authority a' h" "pct_run pcharPlusSlash p'" "p' = [] \<or> hd p' = CHR ''/''"
        using r by (auto simp: rfc_hier_def)
      with unique show "rfc_authority a h \<and> pct_run pcharPlusSlash p" by blast
    next
      assume "rfc_authority a h \<and> pct_run pcharPlusSlash p"
      with after r show "rfc_hier r (Some h)" by (auto simp: rfc_hier_def)
    qed
    with Some show ?thesis by (auto simp: code uriAuthorityHost_iff run_Nil)
  qed
qed

lemma rfc_hier_avoids: "rfc_hier r host \<Longrightarrow> d \<in> set ''?#'' \<Longrightarrow> d \<notin> set r"
proof -
  assume h: "rfc_hier r host" and d: "d \<in> set ''?#''"
  have wide: "d \<in> set ''/?#''" "d \<in> set ''?#[]''" "d \<in> set '':/?#[]@''" using d by auto
  have run: "d \<notin> set p" if "pct_run pcharPlusSlash p" for p
    using pct_run_avoids [OF that] class_delimiters(3) wide by blast
  show ?thesis
  proof (cases host)
    case None
    with h run show ?thesis by (simp add: rfc_hier_def)
  next
    case (Some a)
    with h obtain u p where "r = ''//'' @ u @ p" "rfc_authority u a" "pct_run pcharPlusSlash p"
      by (auto simp: rfc_hier_def)
    with run rfc_authority_avoids [of u a d] wide(1) d show ?thesis by auto
  qed
qed

lemma rfc_optional_avoids: "rfc_optional CHR ''?'' q \<Longrightarrow> CHR ''#'' \<notin> set q"
proof -
  have "CHR ''#'' \<notin> set p" if "pct_run pcharPlusSlashQuestion p" for p
    by (rule pct_run_avoids [OF that]) (use class_delimiters(4) in auto)
  then show "rfc_optional CHR ''?'' q \<Longrightarrow> CHR ''#'' \<notin> set q" by (auto simp: rfc_optional_def)
qed

lemma strip_component_iff:
  "strip_component d r = Some f \<longleftrightarrow> (\<exists>part. r = f @ part \<and> d \<notin> set f \<and> rfc_optional d part)"
proof
  assume "strip_component d r = Some f"
  then show "\<exists>part. r = f @ part \<and> d \<notin> set f \<and> rfc_optional d part"
    by (auto simp: strip_component_def rfc_optional_def cut_None cut_Some isCharRun_iff
        split: option.splits if_splits)
next
  assume "\<exists>part. r = f @ part \<and> d \<notin> set f \<and> rfc_optional d part"
  then obtain part where p: "r = f @ part" "d \<notin> set f" "rfc_optional d part" by blast
  show "strip_component d r = Some f"
  proof (cases part)
    case Nil
    with p have "cut d r = None" by (simp add: cut_None)
    with p Nil show ?thesis by (simp add: strip_component_def)
  next
    case (Cons c q)
    with p have "cut d r = Some (f, q)" "pct_run pcharPlusSlashQuestion q"
      by (auto simp: cut_Some rfc_optional_def)
    then show ?thesis by (simp add: strip_component_def isCharRun_iff)
  qed
qed

lemma scheme_no_colon: "isURIScheme s \<Longrightarrow> CHR '':'' \<notin> set s"
  by (cases s) (auto simp: isURIScheme_def list_all_iff isAlpha_def char_class_defs)

lemma denotesTargetBase_obtain:
  "denotesTargetBase s \<longleftrightarrow>
     (\<exists>scheme rest rest' hier host. s = scheme @ '':'' @ rest \<and> isURIScheme scheme \<and>
        strip_component CHR ''#'' rest = Some rest' \<and> strip_component CHR ''?'' rest' = Some hier \<and>
        hier_host hier = Some host \<and>
        (ascii_lower scheme \<in> {''http'', ''https''} \<longrightarrow> host \<noteq> None \<and> host \<noteq> Some []))"
proof
  assume d: "denotesTargetBase s"
  then obtain scheme rest where c: "cut CHR '':'' s = Some (scheme, rest)"
    by (cases "cut CHR '':'' s") (auto simp: denotesTargetBase_def)
  with d obtain rest' where r: "isURIScheme scheme" "strip_component CHR ''#'' rest = Some rest'"
    by (cases "strip_component CHR ''#'' rest") (simp_all add: denotesTargetBase_def Let_def split: if_splits)
  with d c obtain hier where q: "strip_component CHR ''?'' rest' = Some hier"
    by (cases "strip_component CHR ''?'' rest'") (simp_all add: denotesTargetBase_def Let_def split: if_splits)
  with d c r obtain host where "hier_host hier = Some host"
    "ascii_lower scheme \<in> {''http'', ''https''} \<longrightarrow> host \<noteq> None \<and> host \<noteq> Some []"
    by (cases "hier_host hier") (simp_all add: denotesTargetBase_def Let_def split: if_splits)
  moreover have "s = scheme @ '':'' @ rest" using c by (simp add: cut_Some)
  ultimately show "\<exists>scheme rest rest' hier host. s = scheme @ '':'' @ rest \<and> isURIScheme scheme \<and>
        strip_component CHR ''#'' rest = Some rest' \<and> strip_component CHR ''?'' rest' = Some hier \<and>
        hier_host hier = Some host \<and>
        (ascii_lower scheme \<in> {''http'', ''https''} \<longrightarrow> host \<noteq> None \<and> host \<noteq> Some [])"
    using r q by blast
next
  assume "\<exists>scheme rest rest' hier host. s = scheme @ '':'' @ rest \<and> isURIScheme scheme \<and>
        strip_component CHR ''#'' rest = Some rest' \<and> strip_component CHR ''?'' rest' = Some hier \<and>
        hier_host hier = Some host \<and>
        (ascii_lower scheme \<in> {''http'', ''https''} \<longrightarrow> host \<noteq> None \<and> host \<noteq> Some [])"
  then obtain scheme rest rest' hier host where
    h: "s = scheme @ '':'' @ rest" "isURIScheme scheme" "strip_component CHR ''#'' rest = Some rest'"
      "strip_component CHR ''?'' rest' = Some hier" "hier_host hier = Some host"
      "ascii_lower scheme \<in> {''http'', ''https''} \<longrightarrow> host \<noteq> None \<and> host \<noteq> Some []"
    by blast
  have "cut CHR '':'' s = Some (scheme, rest)" using h(1,2) scheme_no_colon by (simp add: cut_Some)
  moreover have "scheme \<noteq> []" using h(2) by (auto simp: isURIScheme_def)
  ultimately show "denotesTargetBase s" using h by (simp add: denotesTargetBase_def Let_def)
qed

section \<open>Claims\<close>

text \<open>
  C23.  The predicate decides the grammar it names: a text denotes a target base exactly when it is
  a URI of RFC 3986 (scheme, hierarchical part, optional query and fragment, with percent-encoded
  triplets whole) whose authority has a non-empty host under http and https.  The alternatives of
  an IP literal are those of \<open>isIPLiteralInner\<close>.
\<close>

theorem denotesTargetBase_is_rfc_target: "denotesTargetBase s = rfc_target s"
proof
  assume "denotesTargetBase s"
  then obtain scheme rest rest' hier host where
    h: "s = scheme @ '':'' @ rest" "isURIScheme scheme" "strip_component CHR ''#'' rest = Some rest'"
      "strip_component CHR ''?'' rest' = Some hier" "hier_host hier = Some host"
      "ascii_lower scheme \<in> {''http'', ''https''} \<longrightarrow> host \<noteq> None \<and> host \<noteq> Some []"
    unfolding denotesTargetBase_obtain by blast
  obtain f q where "rest = rest' @ f" "rfc_optional CHR ''#'' f" "rest' = hier @ q" "rfc_optional CHR ''?'' q"
    using h(3,4) unfolding strip_component_iff by blast
  with h show "rfc_target s"
    unfolding rfc_target_def hier_host_iff by (metis append.assoc)
next
  assume "rfc_target s"
  then obtain scheme hier q f host where
    t: "s = scheme @ '':'' @ hier @ q @ f" "isURIScheme scheme" "rfc_hier hier host"
      "rfc_optional CHR ''?'' q" "rfc_optional CHR ''#'' f"
      "ascii_lower scheme \<in> {''http'', ''https''} \<longrightarrow> host \<noteq> None \<and> host \<noteq> Some []"
    unfolding rfc_target_def by blast
  have "CHR ''#'' \<notin> set (hier @ q)" "CHR ''?'' \<notin> set hier"
    using rfc_hier_avoids [OF t(3)] rfc_optional_avoids [OF t(4)] by auto
  with t(4,5) have "strip_component CHR ''#'' (hier @ q @ f) = Some (hier @ q)"
    "strip_component CHR ''?'' (hier @ q) = Some hier"
    unfolding strip_component_iff by (metis append.assoc)+
  with t show "denotesTargetBase s" unfolding denotesTargetBase_obtain hier_host_iff by metis
qed

text \<open>
  The group counter accepts an IPv4 address at the end of the run before the elision as well, which
  no alternative of the production \<open>IPv6address\<close> allows.
\<close>

lemma ipv4_before_elision: "isIPv6Address ''1.2.3.4::'' \<and> denotesTargetBase ''http://[1.2.3.4::]/''"
  by code_simp

end
