(* ===== verification/Servers.thy ===== *)
theory Servers
  imports Target_Base Context_Fields
begin

text \<open>
  \<open>servers.ts\<close>: the effective Server list, Server Variable substitution, and the resolution of the
  base URL a request goes to.  The platform's URL parser is a parameter (\<open>url_parser\<close>: the text and
  an optional base, \<open>None\<close> for its TypeError).  A Server Object is the JSON value it was read from;
  the two callers that pass one guarantee a string \<open>url\<close> (\<open>asServerList\<close>).
\<close>

record url_parts =
  u_href :: string
  u_protocol :: string
  u_username :: string
  u_password :: string
  u_hostname :: string
  u_pathname :: string
  u_search :: string
  u_hash :: string

type_synonym url_parser = "string \<Rightarrow> string option \<Rightarrow> url_parts option"

datatype server_reason =
    QueryOrFragment string
  | VariableNotObject string string
  | VariableOccurrences string string nat
  | MalformedEnum string string
  | EmptyEnum string string
  | OmitsDefault string string
  | DefaultOutsideEnum string string string
  | NoValueNoDefault string string
  | ValueOutsideEnum string string string
  | InheritedOutsideEnum string string
  | InheritedReplacerThrows string
  | NoUniqueExpression string string
  | UnresolvedVariable string
  | NotRFC3986 string
  | HasUserinfo string
  | NotHTTP string
  | NotAbsolute string
  | SeveralAlternatives nat
  | NoUsableAlternative
  | SelectionMatchesNothing string
  | SelectionBadType
  | BaseUrlNotAbsolute string
  | SelectionUrlUnknown string
  | SelectionIndexInvalid nat
  | SelectionRequired nat
  | VariablesNotObject
  | VariableNotString string
  | BaseNotRetained
  | CompletedDoesNotParse
  | CompletedScheme string
  | CompletedEmptyHost
  | CompletedUserinfo
  | CompletedBadEscape string

text \<open>\<open>ConfigRequired\<close> carries its point's path, the offered values and durability; the rest are errors.\<close>

datatype server_error =
    ConfigRequired string "string list option" bool server_reason
  | ServerError server_reason
  | UrlTypeError

section \<open>Server lists\<close>

definition server_url :: "jsval \<Rightarrow> string" where
  "server_url server = str_or (get_prop server ''url'') []"

definition asServerList :: "jsval \<Rightarrow> jsval list" where
  "asServerList raw =
     (case as_array raw of
        None \<Rightarrow> []
      | Some xs \<Rightarrow> filter (\<lambda>e. as_object e \<noteq> None \<and> is_str (get_prop e ''url'')) xs)"

definition effectiveServers :: "jsval \<Rightarrow> jsval \<Rightarrow> jsval \<Rightarrow> jsval list" where
  "effectiveServers doc pathItem operation =
     (let operationServers = asServerList (get_prop operation ''servers'');
          pathServers = asServerList (get_prop pathItem ''servers'');
          rootServers = asServerList (get_prop doc ''servers'') in
      if operationServers \<noteq> [] then operationServers
      else if pathServers \<noteq> [] then pathServers
      else if rootServers \<noteq> [] then rootServers
      else [JObj [(''url'', JStr ''/'')]])"

section \<open>Server Variables\<close>

definition expression_of :: "string \<Rightarrow> string" where
  "expression_of name = ''{'' @ name @ ''}''"

definition occurrences :: "string \<Rightarrow> string \<Rightarrow> nat" where
  "occurrences pat s = length (split_str pat s) - 1"

text \<open>The declaration gates on one variable: its default and its enum, when it has them.\<close>

definition variable_declaration ::
  "string \<Rightarrow> string \<Rightarrow> js_members \<Rightarrow> string \<Rightarrow> (server_error, string option \<times> string list option) res" where
  "variable_declaration url version variable name =
     (let dflt = as_str (member_of variable ''default'');
          enumPresent = has_member variable ''enum'';
          members = (case member_of variable ''enum'' of JArr xs \<Rightarrow> xs | _ \<Rightarrow> []);
          values = List.map_filter as_str members in
      if enumPresent \<and> (as_array (member_of variable ''enum'') = None \<or> list_ex (\<lambda>m. \<not> is_str m) members)
      then Inl (ServerError (MalformedEnum url name))
      else if enumPresent \<and> values = [] then Inl (ServerError (EmptyEnum url name))
      else if starts_with ''3.0.'' version \<and> dflt = None then Inl (ServerError (OmitsDefault url name))
      else if enumPresent \<and> (case dflt of None \<Rightarrow> False | Some d \<Rightarrow> d \<notin> set values)
      then Inl (ServerError (DefaultOutsideEnum url name (case dflt of None \<Rightarrow> [] | Some d \<Rightarrow> d)))
      else Inr (dflt, if enumPresent then Some values else None))"

definition escapeJSONPointerToken :: "string \<Rightarrow> string" where
  "escapeJSONPointerToken v = replace_all ''/'' ''~1'' (replace_all ''~'' ''~0'' v)"

definition select_value ::
  "string \<Rightarrow> string \<Rightarrow> string option \<Rightarrow> string option \<Rightarrow> string list option \<Rightarrow> (server_error, string) res" where
  "select_value url name supplied dflt values =
     (case (case supplied of None \<Rightarrow> dflt | Some s \<Rightarrow> Some s) of
        None \<Rightarrow>
          Inl (ConfigRequired (''/variables/'' @ escapeJSONPointerToken name) values False
                 (NoValueNoDefault url name))
      | Some selected \<Rightarrow>
          if (case values of None \<Rightarrow> False | Some vs \<Rightarrow> selected \<notin> set vs)
          then Inl (ServerError (ValueOutsideEnum url name selected))
          else Inr selected)"

text \<open>
  \<open>supplied?.[name]\<close> also finds the members of \<open>Object.prototype\<close> when variables are supplied at all: the
  value is then an inherited function (for \<open>__proto__\<close> the prototype itself), which is no member of an
  enum and which \<open>String.replace\<close> calls with the expression: \<open>constructor\<close> gives the expression back,
  \<open>toString\<close> is called without an object, \<open>isPrototypeOf\<close> answers false for a text, and the others throw.
\<close>

definition inherited_replacement :: "string \<Rightarrow> string option" where
  "inherited_replacement name =
     (if name = ''constructor'' then Some (expression_of name)
      else if name = ''toString'' then Some ''[object Undefined]''
      else if name = ''isPrototypeOf'' then Some ''false''
      else if name = ''__proto__'' then Some ''[object Object]''
      else None)"

definition substitute_inherited ::
  "string \<Rightarrow> string \<Rightarrow> string list option \<Rightarrow> string \<Rightarrow> (server_error, string) res" where
  "substitute_inherited url name values result =
     (if values \<noteq> None then Inl (ServerError (InheritedOutsideEnum url name))
      else (case inherited_replacement name of
              None \<Rightarrow> Inl (ServerError (InheritedReplacerThrows name))
            | Some selected \<Rightarrow> Inr (replace_first (expression_of name) selected result)))"

definition substitute_declared ::
  "string \<Rightarrow> string \<Rightarrow> js_members \<Rightarrow> (string \<times> string) list option \<Rightarrow> string \<Rightarrow> string \<Rightarrow> (server_error, string) res" where
  "substitute_declared url version variables supplied name result =
     (case as_object (member_of variables name) of
        None \<Rightarrow> Inl (ServerError (VariableNotObject url name))
      | Some variable \<Rightarrow>
          (let n = occurrences (expression_of name) result in
           if n \<noteq> 1 then Inl (ServerError (VariableOccurrences url name n))
           else
             res_bind (variable_declaration url version variable name) (\<lambda>(dflt, values).
               (let own = (case supplied of None \<Rightarrow> None | Some vs \<Rightarrow> map_of vs name) in
                if own = None \<and> supplied \<noteq> None \<and> name \<in> set object_prototype_names
                then substitute_inherited url name values result
                else res_map (\<lambda>selected. replace_first (expression_of name) selected result)
                       (select_value url name own dflt values)))))"

definition substitute_supplied ::
  "string \<Rightarrow> js_members \<Rightarrow> string \<times> string \<Rightarrow> string \<Rightarrow> (server_error, string) res" where
  "substitute_supplied url variables entry result =
     (let (name, v) = entry in
      if has_member variables name then Inr result
      else if occurrences (expression_of name) result \<noteq> 1
      then Inl (ServerError (NoUniqueExpression url name))
      else Inr (replace_first (expression_of name) v result))"

definition substituteServerVariables ::
  "jsval \<Rightarrow> (string \<times> string) list option \<Rightarrow> string \<Rightarrow> (server_error, string) res" where
  "substituteServerVariables server supplied version =
     (let url = server_url server; variables = record_field server ''variables'' in
      if CHR ''?'' \<in> set url \<or> CHR ''#'' \<in> set url then Inl (ServerError (QueryOrFragment url))
      else
        res_bind (each_res (substitute_declared url version variables supplied) (js_sort (member_keys variables)) url)
          (\<lambda>declared. res_bind (each_res (substitute_supplied url variables) (case supplied of None \<Rightarrow> [] | Some vs \<Rightarrow> vs) declared) (\<lambda>result.
             if CHR ''{'' \<in> set result \<or> CHR ''}'' \<in> set result
             then Inl (ConfigRequired ''/url'' None True (UnresolvedVariable url))
             else Inr result)))"

section \<open>Base URLs\<close>

fun hasValidPercentEscapes :: "string \<Rightarrow> bool" where
  "hasValidPercentEscapes [] = True"
| "hasValidPercentEscapes (c # s) =
     (if c = CHR ''%'' then
        (case s of
           h1 # h2 # t \<Rightarrow> isHexDigit h1 \<and> isHexDigit h2 \<and> hasValidPercentEscapes t
         | _ \<Rightarrow> False)
      else hasValidPercentEscapes s)"

text \<open>The pattern of a percent sign not followed by two hexadecimal digits, anywhere in the text.\<close>

fun stray_percent :: "string \<Rightarrow> bool" where
  "stray_percent [] = False"
| "stray_percent (c # s) =
     (c = CHR ''%'' \<and> \<not> (case s of h1 # h2 # _ \<Rightarrow> isHexDigit h1 \<and> isHexDigit h2 | _ \<Rightarrow> False) \<or> stray_percent s)"

definition validateServerBaseSpelling :: "url_parser \<Rightarrow> string \<Rightarrow> (server_error, unit) res" where
  "validateServerBaseSpelling new_url v =
     (if CHR ''?'' \<in> set v \<or> CHR ''#'' \<in> set v then Inl (ServerError (QueryOrFragment v))
      else if list_ex (\<lambda>c. byte c < 0x21 \<or> 0x7e < byte c) v \<or> stray_percent v
      then Inl (ServerError (NotRFC3986 v))
      else if denotesTargetBase v then
        (case new_url v None of
           None \<Rightarrow> Inl UrlTypeError
         | Some parsed \<Rightarrow>
             if u_username parsed \<noteq> [] \<or> u_password parsed \<noteq> [] then Inl (ServerError (HasUserinfo v))
             else if u_protocol parsed \<noteq> ''http:'' \<and> u_protocol parsed \<noteq> ''https:''
             then Inl (ServerError (NotHTTP v))
             else Inr ())
      else Inr ())"

definition absolutizeServerURL :: "url_parser \<Rightarrow> string \<Rightarrow> string option \<Rightarrow> (server_error, string) res" where
  "absolutizeServerURL new_url serverURL sourceLocation =
     res_bind (validateServerBaseSpelling new_url serverURL) (\<lambda>_.
       let refused = Inl (ConfigRequired ''/url'' None False (NotAbsolute serverURL)) in
       if denotesTargetBase serverURL then Inr serverURL
       else
         (case sourceLocation of
            None \<Rightarrow> refused
          | Some loc \<Rightarrow>
              if \<not> hasURIScheme serverURL \<and> loc \<noteq> [] \<and> denotesTargetBase loc then
                (case new_url serverURL (Some loc) of
                   None \<Rightarrow> refused
                 | Some parsed \<Rightarrow>
                     (case validateServerBaseSpelling new_url (u_href parsed) of
                        Inl UrlTypeError \<Rightarrow> refused
                      | Inl e \<Rightarrow> Inl e
                      | Inr _ \<Rightarrow> if denotesTargetBase (u_href parsed) then Inr (u_href parsed) else refused))
              else refused))"

definition usable_server ::
  "url_parser \<Rightarrow> string \<Rightarrow> string option \<Rightarrow> (jsval \<Rightarrow> string option) \<Rightarrow> jsval \<Rightarrow> bool" where
  "usable_server new_url version sourceLocation locationOf server =
     (case res_bind (substituteServerVariables server None version) (\<lambda>expanded.
             absolutizeServerURL new_url expanded
               (case locationOf server of None \<Rightarrow> sourceLocation | Some l \<Rightarrow> Some l)) of
        Inr _ \<Rightarrow> True
      | Inl (ConfigRequired _ _ _ _) \<Rightarrow> True
      | Inl _ \<Rightarrow> False)"

definition eligibleServers ::
  "url_parser \<Rightarrow> jsval list \<Rightarrow> string \<Rightarrow> string option \<Rightarrow> (jsval \<Rightarrow> string option) \<Rightarrow> (server_error, jsval list) res" where
  "eligibleServers new_url servers version sourceLocation locationOf =
     (let eligible = filter (usable_server new_url version sourceLocation locationOf) servers in
      if eligible \<noteq> [] then Inr eligible
      else Inl (ConfigRequired ''/url'' None True NoUsableAlternative))"

section \<open>Selection\<close>

definition completeConfiguredBase :: "jsval \<Rightarrow> string option" where
  "completeConfiguredBase raw =
     (case raw of
        JStr s \<Rightarrow> if denotesTargetBase s then Some s else None
      | JObj ms \<Rightarrow>
          (case member_of ms ''baseUrl'' of JStr b \<Rightarrow> if b = [] then None else Some b | _ \<Rightarrow> None)
      | _ \<Rightarrow> None)"

definition serverByURL :: "jsval list \<Rightarrow> string \<Rightarrow> jsval option" where
  "serverByURL servers url = List.find (\<lambda>s. server_url s = url) servers"

text \<open>
  The entry an index selects: \<open>configIndex\<close> admits integers, and out of the list's range there is no
  entry.  A number's token is its \<open>String\<close>; only one that is all digits can be a valid index.
\<close>

definition index_selects :: "jsval list \<Rightarrow> jsval \<Rightarrow> jsval option" where
  "index_selects servers raw =
     (case raw of
        JNum t \<Rightarrow>
          if t \<noteq> [] \<and> list_all is_digit t \<and> digits_value 0 t < length servers
          then Some (servers ! digits_value 0 t) else None
      | _ \<Rightarrow> None)"

definition selected_entry :: "js_members \<Rightarrow> jsval list \<Rightarrow> (server_error, jsval) res" where
  "selected_entry v servers =
     (let n = length servers in
      case member_of v ''url'' of
        JStr (c # u) \<Rightarrow>
          (case serverByURL servers (c # u) of
             None \<Rightarrow> Inl (ServerError (SelectionUrlUnknown (c # u)))
           | Some s \<Rightarrow> Inr s)
      | _ \<Rightarrow>
          if has_member v ''index'' then
            (case index_selects servers (member_of v ''index'') of
               None \<Rightarrow> Inl (ServerError (SelectionIndexInvalid n))
             | Some s \<Rightarrow> Inr s)
          else (case servers of [s] \<Rightarrow> Inr s | _ \<Rightarrow> Inl (ServerError (SelectionRequired n))))"

definition supplied_variables :: "js_members \<Rightarrow> (server_error, (string \<times> string) list option) res" where
  "supplied_variables v =
     (case member_of v ''variables'' of
        JUndefined \<Rightarrow> Inr None
      | JObj ms \<Rightarrow>
          res_map (\<lambda>pairs. Some (filter (\<lambda>(k, _). k \<noteq> ''__proto__'') pairs))
            (map_res (\<lambda>(name, m).
               case m of JStr s \<Rightarrow> Inr (name, s) | _ \<Rightarrow> Inl (ServerError (VariableNotString name))) ms)
      | _ \<Rightarrow> Inl (ServerError VariablesNotObject))"

definition resolveOpenAPIServerSelection ::
  "jsval \<Rightarrow> jsval list \<Rightarrow> string \<Rightarrow> (server_error, string \<times> jsval option) res" where
  "resolveOpenAPIServerSelection raw servers version =
     (case raw of
        JStr s \<Rightarrow>
          (case serverByURL servers s of
             Some selected \<Rightarrow>
               res_map (\<lambda>url. (url, Some selected)) (substituteServerVariables selected None version)
           | None \<Rightarrow>
               if denotesTargetBase s then Inr (s, None) else Inl (ServerError (SelectionMatchesNothing s)))
      | JObj v \<Rightarrow>
          (case member_of v ''baseUrl'' of
             JStr (c # b) \<Rightarrow>
               if denotesTargetBase (c # b) then Inr (c # b, None)
               else Inl (ServerError (BaseUrlNotAbsolute (c # b)))
           | _ \<Rightarrow>
               res_bind (selected_entry v servers) (\<lambda>selected.
                 res_bind (supplied_variables v) (\<lambda>supplied.
                   res_map (\<lambda>url. (url, Some selected)) (substituteServerVariables selected supplied version))))
      | _ \<Rightarrow> Inl (ServerError SelectionBadType))"

definition joinableServerBase :: "string \<Rightarrow> string" where
  "joinableServerBase v = rev (dropWhile (\<lambda>c. c = CHR ''/'') (rev v))"

definition resolveServer ::
  "url_parser \<Rightarrow> jsval \<Rightarrow> jsval \<Rightarrow> jsval \<Rightarrow> jsval \<Rightarrow> string option \<Rightarrow> (server_error, string) res" where
  "resolveServer new_url doc pathItem operation context sourceLocation =
     (let version = str_or (get_prop doc ''openapi'') [];
          configured = member_of (contextConfiguration context) ''server'';
          based = (\<lambda>url. res_map joinableServerBase (absolutizeServerURL new_url url sourceLocation)) in
      case completeConfiguredBase configured of
        Some base \<Rightarrow> based base
      | None \<Rightarrow>
          res_bind (eligibleServers new_url (effectiveServers doc pathItem operation) version sourceLocation (\<lambda>_. None))
            (\<lambda>servers.
              if configured \<noteq> JNull \<and> configured \<noteq> JUndefined then
                res_bind (resolveOpenAPIServerSelection configured servers version) (\<lambda>(url, _). based url)
              else
                (case member_of (contextMetadata context) ''baseURL'' of
                   JStr (c # b) \<Rightarrow> based (c # b)
                 | _ \<Rightarrow>
                     (case servers of
                        [server] \<Rightarrow> res_bind (substituteServerVariables server None version) based
                      | _ \<Rightarrow>
                          Inl (ConfigRequired ''/url'' (Some (map server_url servers)) True
                                 (SeveralAlternatives (length servers)))))))"

section \<open>Completed targets\<close>

text \<open>
  The path a serialization base ends in: scheme, two slashes, an authority without slashes, then
  nothing or a path without query and fragment; the empty path for any other text.
\<close>

definition serializedServerBasePath :: "string \<Rightarrow> string" where
  "serializedServerBasePath base =
     (case cut CHR '':'' base of
        None \<Rightarrow> []
      | Some (scheme, rest) \<Rightarrow>
          if \<not> isURIScheme scheme \<or> \<not> starts_with ''//'' rest then []
          else
            (case cut CHR ''/'' (drop 2 rest) of
               None \<Rightarrow> []
             | Some (_, p) \<Rightarrow>
                 if CHR ''?'' \<in> set p \<or> CHR ''#'' \<in> set p then [] else CHR ''/'' # p))"

definition replaceSerializedServerBase ::
  "url_parser \<Rightarrow> string \<Rightarrow> string \<Rightarrow> string \<Rightarrow> (server_error, string) res" where
  "replaceSerializedServerBase new_url current resolvedBase serializedBase =
     (case new_url current None of
        None \<Rightarrow> Inl UrlTypeError
      | Some parsed \<Rightarrow>
          (let basePath = serializedServerBasePath serializedBase in
           if \<not> starts_with basePath (u_pathname parsed) then Inl (ServerError BaseNotRetained)
           else Inr (resolvedBase @ drop (length basePath) (u_pathname parsed) @ u_search parsed)))"

definition strip_last_colon :: "string \<Rightarrow> string" where
  "strip_last_colon s = (if s \<noteq> [] \<and> last s = CHR '':'' then butlast s else s)"

definition validateCompletedOpenAPIURL :: "url_parser \<Rightarrow> string \<Rightarrow> (server_error, unit) res" where
  "validateCompletedOpenAPIURL new_url raw =
     (case new_url raw None of
        None \<Rightarrow> Inl (ServerError CompletedDoesNotParse)
      | Some completed \<Rightarrow>
          (let scheme = ascii_lower (strip_last_colon (u_protocol completed)) in
           if scheme \<noteq> ''http'' \<and> scheme \<noteq> ''https'' then Inl (ServerError (CompletedScheme scheme))
           else if u_hostname completed = [] then Inl (ServerError CompletedEmptyHost)
           else if u_username completed \<noteq> [] \<or> u_password completed \<noteq> []
           then Inl (ServerError CompletedUserinfo)
           else
             (case List.find (\<lambda>(_, component). \<not> hasValidPercentEscapes component)
                     [(''path'', u_pathname completed), (''query'', drop 1 (u_search completed)),
                      (''fragment'', drop 1 (u_hash completed))] of
                Some (name, _) \<Rightarrow> Inl (ServerError (CompletedBadEscape name))
              | None \<Rightarrow> Inr ())))"

section \<open>What the resolution establishes\<close>

lemma stray_percent_iff: "hasValidPercentEscapes s \<longleftrightarrow> \<not> stray_percent s"
proof (induction s rule: hasValidPercentEscapes.induct)
  case (2 c s)
  have hex: "isHexDigit h \<Longrightarrow> h \<noteq> CHR ''%''" for h by (auto simp: isHexDigit_def char_class_defs)
  show ?case
  proof (cases "\<exists>h1 h2 t. s = h1 # h2 # t")
    case True
    then obtain h1 h2 t where "s = h1 # h2 # t" by blast
    with 2 hex [of h1] hex [of h2] show ?thesis by (cases "c = CHR ''%''") auto
  next
    case False
    then have "s = [] \<or> (\<exists>h. s = [h])" by (cases s; cases "tl s") auto
    with 2(2) show ?thesis by (cases "c = CHR ''%''") auto
  qed
qed simp

definition http_base :: "url_parser \<Rightarrow> string \<Rightarrow> bool" where
  "http_base new_url u \<longleftrightarrow>
     denotesTargetBase u \<and> CHR ''?'' \<notin> set u \<and> CHR ''#'' \<notin> set u \<and> hasValidPercentEscapes u \<and>
     list_all (\<lambda>c. 0x21 \<le> byte c \<and> byte c \<le> 0x7e) u \<and>
     (\<exists>p. new_url u None = Some p \<and> u_username p = [] \<and> u_password p = [] \<and>
        u_protocol p \<in> {''http:'', ''https:''})"

lemma validate_http_base:
  "validateServerBaseSpelling new_url u = Inr () \<Longrightarrow> denotesTargetBase u \<Longrightarrow> http_base new_url u"
  by (auto simp: validateServerBaseSpelling_def http_base_def stray_percent_iff list_ex_iff list_all_iff not_less
      split: if_splits option.splits)

lemma absolutize_http_base:
  assumes "absolutizeServerURL new_url url loc = Inr u"
  shows "http_base new_url u"
proof -
  have v: "validateServerBaseSpelling new_url url = Inr ()"
    using assms by (auto simp: absolutizeServerURL_def js_result)
  show ?thesis
  proof (cases "denotesTargetBase url")
    case True
    with assms v have "u = url" by (simp add: absolutizeServerURL_def)
    with True v show ?thesis using validate_http_base by blast
  next
    case False
    with assms v obtain l p where "new_url url (Some l) = Some p"
      "validateServerBaseSpelling new_url (u_href p) = Inr ()" "denotesTargetBase (u_href p)" "u = u_href p"
      by (auto simp: absolutizeServerURL_def Let_def split: option.splits if_splits sum.splits server_error.splits)
    then show ?thesis using validate_http_base by blast
  qed
qed

lemma each_res_member:
  "each_res f xs s = Inr t \<Longrightarrow> x \<in> set xs \<Longrightarrow> \<exists>u v. f x u = Inr v"
  by (induction xs arbitrary: s) (auto simp: js_result)

lemma selected_in_enum:
  assumes "variable_declaration url version variable name = Inr (dflt, values)"
    and "select_value url name (Some v) dflt values = Inr sel"
    and "member_of variable ''enum'' = JArr xs"
  shows "JStr v \<in> set xs"
proof -
  have "has_member variable ''enum''"
    using assms(3) by (auto simp: has_member_iff member_of_def split: option.splits)
  then have "values = Some (List.map_filter as_str xs)"
    using assms(1,3) by (auto simp: variable_declaration_def Let_def split: if_splits)
  with assms(2) have "v \<in> set (List.map_filter as_str xs)"
    by (auto simp: select_value_def split: if_splits)
  then show ?thesis by (auto simp: List.map_filter_def)
qed

section \<open>Claims\<close>

text \<open>
  C29.  Whatever the document, the context and the source location say, a base URL that \<open>resolveServer\<close>
  returns is an absolute http or https target of RFC 3986 without userinfo, query and fragment,
  in printable ASCII with whole percent escapes, less its trailing slashes.
\<close>

theorem resolved_server_is_http_base:
  assumes "resolveServer new_url doc pathItem operation context sourceLocation = Inr u"
  shows "\<exists>b. http_base new_url b \<and> u = joinableServerBase b \<and> (u = [] \<or> last u \<noteq> CHR ''/'')"
proof -
  obtain url where "res_map joinableServerBase (absolutizeServerURL new_url url sourceLocation) = Inr u"
    using assms
    by (auto simp: resolveServer_def Let_def res_bind_Inr_iff
        split: option.splits if_splits list.splits jsval.splits)
  then obtain b where b: "absolutizeServerURL new_url url sourceLocation = Inr b" "u = joinableServerBase b"
    by (auto simp: js_result)
  have "u = [] \<or> last u \<noteq> CHR ''/''"
  proof (cases "dropWhile (\<lambda>c. c = CHR ''/'') (rev b)")
    case Nil
    with b(2) show ?thesis by (simp add: joinableServerBase_def)
  next
    case (Cons c t)
    then have "c \<noteq> CHR ''/''" by (metis (full_types) dropWhile_eq_Cons_conv)
    with Cons b(2) show ?thesis by (simp add: joinableServerBase_def)
  qed
  with b absolutize_http_base [OF b(1)] show ?thesis by blast
qed

definition example_url_parser :: url_parser where
  "example_url_parser s base =
     (if starts_with ''https://'' s
      then Some \<lparr> u_href = s, u_protocol = ''https:'', u_username = [], u_password = [],
                  u_hostname = ''h'', u_pathname = ''/'', u_search = [], u_hash = [] \<rparr>
      else None)"

theorem resolved_server_is_http_base_witness:
  "\<exists>b. http_base example_url_parser b \<and> ''https://eu.example.com/v1'' = joinableServerBase b"
proof -
  have "resolveServer example_url_parser
      (JObj [(''openapi'', JStr ''3.1.0''),
        (''servers'', JArr [JObj [(''url'', JStr ''https://{r}.example.com/v1/''),
           (''variables'', JObj [(''r'', JObj [(''default'', JStr ''eu''), (''enum'', JArr [JStr ''eu'', JStr ''us''])])])]])])
      JUndefined JUndefined JUndefined None = Inr ''https://eu.example.com/v1''"
    by code_simp
  from resolved_server_is_http_base [OF this] show ?thesis by blast
qed

text \<open>
  Server Variable substitution respects the declarations: a URL it returns has no template
  brace left, and a supplied value of a variable with an enum is one of the enum's members.
\<close>

theorem substitution_respects_enums:
  assumes "substituteServerVariables server (Some supplied) version = Inr u"
    and "member_of (record_field server ''variables'') name = JObj variable"
    and "member_of variable ''enum'' = JArr xs" and "map_of supplied name = Some v"
  shows "CHR ''{'' \<notin> set u \<and> CHR ''}'' \<notin> set u \<and> JStr v \<in> set xs"
proof -
  let ?vars = "record_field server ''variables''"
  have braces: "CHR ''{'' \<notin> set u \<and> CHR ''}'' \<notin> set u"
    using assms(1) by (auto simp: substituteServerVariables_def Let_def js_result split: if_splits)
  obtain d where d: "each_res (substitute_declared (server_url server) version ?vars (Some supplied))
      (js_sort (member_keys ?vars)) (server_url server) = Inr d"
    using assms(1) by (auto simp: substituteServerVariables_def Let_def js_result split: if_splits)
  have n: "name \<in> set (js_sort (member_keys ?vars))"
    using assms(2) by (force simp: member_of_def member_keys_def split: option.splits dest: map_of_SomeD)
  obtain r t where "substitute_declared (server_url server) version ?vars (Some supplied) name r = Inr t"
    using each_res_member [OF d n] by blast
  then obtain dflt vals sel where "variable_declaration (server_url server) version variable name = Inr (dflt, vals)"
    "select_value (server_url server) name (Some v) dflt vals = Inr sel"
    using assms(2,4) by (auto simp: substitute_declared_def Let_def js_result split: if_splits)
  with assms(3) braces show ?thesis using selected_in_enum by blast
qed

theorem substitution_respects_enums_witness: "JStr ''us'' \<in> set [JStr ''eu'', JStr ''us'']"
proof -
  let ?var = "[(''enum'', JArr [JStr ''eu'', JStr ''us''])]"
  let ?server = "JObj [(''url'', JStr ''https://{r}.example.com''), (''variables'', JObj [(''r'', JObj ?var)])]"
  have "substituteServerVariables ?server (Some [(''r'', ''us'')]) ''3.1.0'' = Inr ''https://us.example.com''"
    by code_simp
  from substitution_respects_enums [OF this, of "''r''" ?var] show ?thesis
    by (simp add: record_field_def member_of_def)
qed

text \<open>
  Substitution is sequential, and a replacement is a template: a supplied value that holds a dollar
  pattern or a later variable's expression is not inserted as it is.
\<close>

lemma supplied_dollar_pattern:
  "substituteServerVariables
     (JObj [(''url'', JStr ''https://{r}.example.com''), (''variables'', JObj [(''r'', JObj [])])])
     (Some [(''r'', ''a$$b'')]) ''3.1.0'' = Inr ''https://a$b.example.com''"
  by code_simp

text \<open>
  Once any variable is supplied, a variable named like a member of \<open>Object.prototype\<close> loses its default:
  the inherited function is the replacement.
\<close>

lemma inherited_variable_is_supplied:
  "let server = JObj [(''url'', JStr ''https://{toString}.example.com''),
       (''variables'', JObj [(''toString'', JObj [(''default'', JStr ''eu'')])])] in
   substituteServerVariables server None ''3.1.0'' = Inr ''https://eu.example.com'' \<and>
   substituteServerVariables server (Some []) ''3.1.0'' = Inr ''https://[object Undefined].example.com''"
  by code_simp

end
