(* ===== verification/Media_Selection.thy ===== *)
theory Media_Selection
  imports Media_Type Js_Value
begin

text \<open>
  The response half of \<open>media.ts\<close>: the response that governs a status, the collisions of media types in one
  content map, the declaration that governs an actual Content-Type, the Accept field and the streaming
  capability of an operation; with the selection of \<open>openapi32-response.ts\<close>.
\<close>

section \<open>Responses\<close>

definition hundreds :: "string list \<Rightarrow> string \<Rightarrow> bool" where
  "hundreds firsts key \<longleftrightarrow> length key = 3 \<and> [hd key] \<in> set firsts \<and> list_all is_digit (tl key)"

definition isSuccessResponseKey :: "string \<Rightarrow> bool" where
  "isSuccessResponseKey key \<longleftrightarrow> key = ''2XX'' \<or> hundreds [''2''] key"

definition object_like :: "jsval \<Rightarrow> bool" where
  "object_like v \<longleftrightarrow> (case v of JObj _ \<Rightarrow> True | JArr _ \<Rightarrow> True | _ \<Rightarrow> False)"

definition response_keys :: "nat \<Rightarrow> string list" where
  "response_keys status = [decimal status, decimal (status div 100) @ ''XX'', ''default'']"

definition governingResponse :: "js_members \<Rightarrow> nat \<Rightarrow> (string \<times> jsval) option" where
  "governingResponse operation status =
     (let responses = (case member_of operation ''responses'' of JObj ms \<Rightarrow> ms | _ \<Rightarrow> []) in
      case filter (\<lambda>k. object_like (member_of responses k)) (response_keys status) of
        [] \<Rightarrow> None
      | k # _ \<Rightarrow> Some (k, member_of responses k))"

record response_selection =
  sel_status :: nat
  sel_success :: bool
  sel_response :: "(string \<times> jsval) option"

definition selectOpenAPI32Response :: "string \<Rightarrow> js_members option \<Rightarrow> nat \<Rightarrow> (string, response_selection) res" where
  "selectOpenAPI32Response edition operation status =
     (if edition \<noteq> ''3.2.0'' then Inl ''OpenAPI 3.2 response selection requires a 3.2 artifact''
      else
        (case operation of
           None \<Rightarrow> Inl ''OpenAPI 3.2 response selection requires a resolved operation target''
         | Some ms \<Rightarrow>
             Inr \<lparr> sel_status = status, sel_success = (200 \<le> status \<and> status < 300),
                   sel_response = governingResponse ms status \<rparr>))"

definition admittedOpenAPI32ResponseKey :: "string \<Rightarrow> bool" where
  "admittedOpenAPI32ResponseKey key \<longleftrightarrow>
     key = ''default'' \<or> prefix ''x-'' key \<or>
     length key = 3 \<and> [hd key] \<in> set [''1'', ''2'', ''3'', ''4'', ''5''] \<and> (list_all is_digit (tl key) \<or> tl key = ''XX'')"

section \<open>Identities and collisions\<close>

text \<open>A key as a concrete media type of specificity two, else as a range.\<close>

definition media_or_range :: "bool \<Rightarrow> string \<Rightarrow> (media_error, parsed_media \<times> nat) res" where
  "media_or_range revision3 key =
     (case parseMediaType key revision3 of
        Inr p \<Rightarrow> Inr (p, 2)
      | Inl e \<Rightarrow> (case parseMediaRange key revision3 of Inr r \<Rightarrow> Inr r | Inl _ \<Rightarrow> Inl e))"

definition utf16_less :: "string \<Rightarrow> string \<Rightarrow> bool" where
  "utf16_less a b \<longleftrightarrow> utf16_key a < utf16_key b"

fun smallest_text :: "string \<Rightarrow> string list \<Rightarrow> string" where
  "smallest_text s [] = s"
| "smallest_text s (t # ts) = smallest_text (if utf16_less t s then t else s) ts"

definition parsed_keys :: "bool \<Rightarrow> js_members \<Rightarrow> (string \<times> parsed_media) list" where
  "parsed_keys revision3 content =
     concat (map (\<lambda>k. case media_or_range revision3 k of Inr (p, _) \<Rightarrow> [(k, p)] | Inl _ \<Rightarrow> []) (member_keys content))"

definition identity_group :: "(string \<times> parsed_media) list \<Rightarrow> string \<Rightarrow> (string \<times> parsed_media) list" where
  "identity_group ps i = filter (\<lambda>(_, p). pm_identity p = i) ps"

definition normalizedMediaCollisions :: "bool \<Rightarrow> js_members \<Rightarrow> (string \<times> string) list" where
  "normalizedMediaCollisions revision3 content =
     (let ps = parsed_keys revision3 content in
      concat (map (\<lambda>i.
          (case identity_group ps i of
             (k, p) # q # g \<Rightarrow>
               map (\<lambda>(l, _). (l, smallest_text (pm_canonical p) (map (pm_canonical \<circ> snd) (q # g)))) ((k, p) # q # g)
           | _ \<Rightarrow> []))
        (remdups (map (pm_identity \<circ> snd) ps))))"

definition collidesWithNormalizedIdentity :: "bool \<Rightarrow> (string \<times> string) list \<Rightarrow> parsed_media \<Rightarrow> bool" where
  "collidesWithNormalizedIdentity revision3 colliding actual \<longleftrightarrow>
     list_ex (\<lambda>(k, _). case parseMediaType k revision3 of Inr p \<Rightarrow> pm_identity p = pm_identity actual | Inl _ \<Rightarrow> False) colliding"

section \<open>The governing declaration\<close>

definition mediaParametersMatch :: "parsed_media \<Rightarrow> parsed_media \<Rightarrow> bool" where
  "mediaParametersMatch declared actual \<longleftrightarrow>
     list_all (\<lambda>(n, v). map_of (pm_params actual) n = Some v) (pm_params declared)"

definition base_type :: "string \<Rightarrow> string" where
  "base_type b = hd (split_str ''/'' b)"

definition mediaRangeMatches :: "parsed_media \<Rightarrow> parsed_media \<Rightarrow> bool" where
  "mediaRangeMatches range_media actual \<longleftrightarrow>
     (pm_base range_media = ''*/*'' \<or> base_type (pm_base range_media) = base_type (pm_base actual)) \<and>
     mediaParametersMatch range_media actual"

record media_match =
  mm_key :: string
  mm_declared :: parsed_media
  mm_media :: jsval
  mm_range :: nat
  mm_parameters :: nat

datatype match_error =
    Match_Media media_error
  | Match_No_Content_Type
  | Match_Collision
  | Match_None
  | Match_Ambiguous

definition declared_match :: "parsed_media \<Rightarrow> bool \<Rightarrow> string list \<Rightarrow> string \<times> jsval \<Rightarrow> parsed_media \<times> nat \<Rightarrow> media_match list" where
  "declared_match actual fidelity colliding entry parsed =
     (let (key, media) = entry; (declared, specificity) = parsed in
      if key \<in> set colliding then []
      else if specificity < 2 \<and> \<not> fidelity then []
      else if \<not> (if specificity = 2 then pm_base declared = pm_base actual else mediaRangeMatches declared actual) then []
      else if mediaParametersMatch declared actual
      then [\<lparr> mm_key = key, mm_declared = declared, mm_media = media, mm_range = specificity,
              mm_parameters = length (pm_params declared) \<rparr>]
      else [])"

definition parse_declared :: "bool \<Rightarrow> string \<Rightarrow> (match_error, parsed_media \<times> nat) res" where
  "parse_declared revision3 key =
     res_err Match_Media (if revision3 then media_or_range True key else res_map (\<lambda>p. (p, 2)) (parseMediaType key False))"

definition declared_matches :: "bool \<Rightarrow> bool \<Rightarrow> js_members \<Rightarrow> parsed_media \<Rightarrow> (match_error, media_match list) res" where
  "declared_matches revision3 fidelity content actual =
     (let colliding = map fst (normalizedMediaCollisions revision3 content) in
      res_map concat
        (map_res (\<lambda>entry. res_map (declared_match actual fidelity colliding entry) (parse_declared revision3 (fst entry))) content))"

text \<open>
  The comparator without its last key, which only orders alternatives that end in the ambiguity error.
\<close>

definition more_specific :: "media_match \<Rightarrow> media_match \<Rightarrow> bool" where
  "more_specific a b \<longleftrightarrow> mm_range b < mm_range a \<or> mm_range b = mm_range a \<and> mm_parameters b < mm_parameters a"

fun insert_match :: "media_match \<Rightarrow> media_match list \<Rightarrow> media_match list" where
  "insert_match m [] = [m]"
| "insert_match m (n # ns) = (if more_specific n m then n # insert_match m ns else m # n # ns)"

definition sort_matches :: "media_match list \<Rightarrow> media_match list" where
  "sort_matches ms = foldr insert_match ms []"

definition equally_specific :: "media_match \<Rightarrow> media_match \<Rightarrow> bool" where
  "equally_specific a b \<longleftrightarrow> mm_range a = mm_range b \<and> mm_parameters a = mm_parameters b"

definition select_match :: "media_match list \<Rightarrow> (match_error, media_match) res" where
  "select_match ms =
     (case sort_matches ms of
        [] \<Rightarrow> Inl Match_None
      | [m] \<Rightarrow> Inr m
      | m # n # _ \<Rightarrow> if equally_specific m n then Inl Match_Ambiguous else Inr m)"

definition response_content :: "jsval \<Rightarrow> js_members" where
  "response_content response = (case get_prop response ''content'' of JObj ms \<Rightarrow> ms | _ \<Rightarrow> [])"

definition governingResponseMediaMatch ::
  "bool \<Rightarrow> bool \<Rightarrow> js_members \<Rightarrow> string option \<Rightarrow> (match_error, media_match option) res" where
  "governingResponseMediaMatch revision3 fidelity content contentType =
     (if content = [] then Inr None
      else if contentType = None \<or> contentType = Some [] then Inl Match_No_Content_Type
      else
        res_bind (res_err Match_Media (parseMediaType (the contentType) revision3)) (\<lambda>actual.
        res_bind (declared_matches revision3 fidelity content actual) (\<lambda>ms.
        if ms = [] then
          Inl (if collidesWithNormalizedIdentity revision3 (normalizedMediaCollisions revision3 content) actual
               then Match_Collision else Match_None)
        else res_map Some (select_match ms))))"

definition governingResponseMedia :: "bool \<Rightarrow> bool \<Rightarrow> js_members \<Rightarrow> string option \<Rightarrow> (match_error, string option) res" where
  "governingResponseMedia revision3 fidelity content contentType =
     res_map (map_option (pm_canonical \<circ> mm_declared)) (governingResponseMediaMatch revision3 fidelity content contentType)"

section \<open>The Accept field\<close>

fun advertise :: "parsed_media \<Rightarrow> (string \<times> string) list \<Rightarrow> (string \<times> string) list" where
  "advertise p [] = [(pm_identity p, pm_canonical p)]"
| "advertise p ((i, t) # seen) =
     (if i = pm_identity p then (i, if utf16_less (pm_canonical p) t then pm_canonical p else t) # seen
      else (i, t) # advertise p seen)"

definition response_key_ok :: "string \<Rightarrow> bool" where
  "response_key_ok key \<longleftrightarrow>
     hundreds [''1'', ''2'', ''3'', ''4'', ''5''] key \<or> key \<in> set [''1XX'', ''2XX'', ''3XX'', ''4XX'', ''5XX'', ''default'']"

definition no_content_key :: "string \<Rightarrow> bool" where
  "no_content_key key \<longleftrightarrow> hundreds [''1''] key \<or> key \<in> set [''204'', ''205'', ''304'']"

definition advertised :: "bool \<Rightarrow> bool \<Rightarrow> string \<Rightarrow> (string \<times> string) list \<Rightarrow> (string \<times> string) list" where
  "advertised revision3 fidelity mt seen =
     (case parseMediaType mt revision3 of
        Inr p \<Rightarrow> if ''q'' \<in> fst ` set (pm_params p) then seen else advertise p seen
      | Inl _ \<Rightarrow>
          if revision3 \<and> fidelity then (case parseMediaRange mt True of Inr (p, _) \<Rightarrow> advertise p seen | Inl _ \<Rightarrow> seen)
          else seen)"

definition advertise_response :: "bool \<Rightarrow> bool \<Rightarrow> string \<times> jsval \<Rightarrow> (string \<times> string) list \<Rightarrow> (string \<times> string) list" where
  "advertise_response revision3 fidelity entry seen =
     (if \<not> response_key_ok (fst entry) \<or> no_content_key (fst entry) then seen
      else
        let content = response_content (snd entry); colliding = map fst (normalizedMediaCollisions revision3 content) in
        fold (\<lambda>mt. if mt \<in> set colliding then id else advertised revision3 fidelity mt) (member_keys content) seen)"

definition successMediaTypes :: "bool \<Rightarrow> bool \<Rightarrow> js_members option \<Rightarrow> string list" where
  "successMediaTypes revision3 fidelity operation =
     (case operation of
        None \<Rightarrow> []
      | Some ms \<Rightarrow>
          (case member_of ms ''responses'' of
             JObj responses \<Rightarrow> js_sort (map snd (fold (advertise_response revision3 fidelity) responses []))
           | _ \<Rightarrow> []))"

definition acceptHeader :: "bool \<Rightarrow> bool \<Rightarrow> js_members \<Rightarrow> string" where
  "acceptHeader revision3 fidelity operation = join '', '' (successMediaTypes revision3 fidelity (Some operation))"

definition isStreamingCapable :: "bool \<Rightarrow> bool \<Rightarrow> js_members option \<Rightarrow> bool" where
  "isStreamingCapable revision3 fidelity operation \<longleftrightarrow>
     (let media = successMediaTypes revision3 fidelity operation in
      if \<not> revision3 then ''text/event-stream'' \<in> set media
      else
        list_ex (\<lambda>v.
            (case parseMediaType v True of
               Inr p \<Rightarrow> pm_base p = ''text/event-stream''
             | Inl _ \<Rightarrow>
                 fidelity \<and>
                 (case parseMediaRange v True of Inr (p, _) \<Rightarrow> pm_base p \<in> set [''text/*'', ''*/*''] | Inl _ \<Rightarrow> False))) media)"

section \<open>The governing declaration is the most specific one\<close>

lemma more_specific_total: "\<not> more_specific a b \<Longrightarrow> \<not> more_specific b a \<Longrightarrow> equally_specific a b"
  by (auto simp: more_specific_def equally_specific_def)

lemma set_insert_match: "set (insert_match m ms) = insert m (set ms)"
  by (induction m ms rule: insert_match.induct) auto

lemma set_sort_matches: "set (sort_matches ms) = set ms"
  by (induction ms) (simp_all add: sort_matches_def set_insert_match)

text \<open>Sorted: nothing behind an entry is more specific than it.\<close>

definition descending :: "media_match list \<Rightarrow> bool" where
  "descending = sorted_wrt (\<lambda>a b. \<not> more_specific b a)"

lemma descending_insert: "descending ms \<Longrightarrow> descending (insert_match m ms)"
proof (induction m ms rule: insert_match.induct)
  case (2 m n ns)
  then show ?case
    by (auto simp: descending_def set_insert_match more_specific_def)
qed (simp add: descending_def)

lemma descending_sort: "descending (sort_matches ms)"
  by (induction ms) (simp_all add: sort_matches_def descending_insert, simp add: descending_def)

lemma length_sort_matches: "length (sort_matches ms) = length ms"
proof -
  have "length (insert_match m ns) = Suc (length ns)" for m ns by (induction m ns rule: insert_match.induct) auto
  then show ?thesis by (induction ms) (simp_all add: sort_matches_def)
qed

lemma select_match_iff:
  assumes "distinct ms"
  shows "select_match ms = Inr m \<longleftrightarrow> m \<in> set ms \<and> (\<forall>n\<in>set ms. n = m \<or> more_specific m n)"
proof -
  have distinct: "distinct (sort_matches ms)"
    by (rule card_distinct) (simp add: set_sort_matches length_sort_matches distinct_card [OF assms])
  consider (none) "sort_matches ms = []" | (one) a where "sort_matches ms = [a]"
    | (more) a b rest where "sort_matches ms = a # b # rest" by (cases "sort_matches ms" rule: remdups_adj.cases) auto
  then show ?thesis
  proof cases
    case none
    then show ?thesis using set_sort_matches [of ms] by (simp add: select_match_def)
  next
    case one
    then show ?thesis using set_sort_matches [of ms] by (auto simp: select_match_def)
  next
    case more
    have all: "set ms = insert a (insert b (set rest))" using set_sort_matches [of ms] more by simp
    have desc: "\<not> more_specific b a" "\<forall>n\<in>set rest. \<not> more_specific n a \<and> \<not> more_specific n b"
      using descending_sort [of ms] more by (auto simp: descending_def)
    show ?thesis
    proof (cases "equally_specific a b")
      case True
      have "a \<noteq> b" using distinct more by simp
      have even: "\<not> more_specific a b" "\<not> more_specific b a" using True by (simp_all add: more_specific_def equally_specific_def)
      have "\<not> (\<forall>n\<in>set ms. n = m \<or> more_specific m n)" if "m \<in> set ms"
      proof
        assume "\<forall>n\<in>set ms. n = m \<or> more_specific m n"
        then have "a = m \<or> more_specific m a" "b = m \<or> more_specific m b" unfolding all by blast+
        then show False using that \<open>a \<noteq> b\<close> even desc unfolding all by blast
      qed
      moreover have "select_match ms = Inl Match_Ambiguous" using True more by (simp add: select_match_def)
      ultimately show ?thesis by auto
    next
      case False
      have ab: "more_specific a b" using False desc(1) more_specific_total by blast
      have best: "more_specific a n" if "n \<in> set rest" for n
        using ab desc(2) that by (auto simp: more_specific_def)
      have "select_match ms = Inr a" using False more by (simp add: select_match_def)
      moreover have "(m \<in> set ms \<and> (\<forall>n\<in>set ms. n = m \<or> more_specific m n)) \<longleftrightarrow> m = a"
      proof
        assume "m \<in> set ms \<and> (\<forall>n\<in>set ms. n = m \<or> more_specific m n)"
        then have "a = m \<or> more_specific m a" "m = a \<or> m = b \<or> m \<in> set rest" unfolding all by blast+
        then show "m = a" using desc by blast
      next
        assume "m = a"
        then show "m \<in> set ms \<and> (\<forall>n\<in>set ms. n = m \<or> more_specific m n)" using ab best unfolding all by blast
      qed
      ultimately show ?thesis by auto
    qed
  qed
qed

text \<open>The keys of a content map that denote a media type or range, each with its parsed form.\<close>

lemma parsed_keys_iff: "(k, p) \<in> set (parsed_keys r3 content) \<longleftrightarrow> k \<in> set (member_keys content) \<and> (\<exists>s. media_or_range r3 k = Inr (p, s))"
  by (auto simp: parsed_keys_def split: sum.splits) metis

lemma parsed_keys_distinct: "distinct (member_keys content) \<Longrightarrow> distinct (map fst (parsed_keys r3 content))"
proof -
  have "distinct (map fst (concat (map (\<lambda>k. case media_or_range r3 k of Inr (p, _) \<Rightarrow> [(k, p)] | Inl _ \<Rightarrow> []) ks)))"
    if "distinct ks" for ks
    using that by (induction ks) (auto split: sum.splits)
  then show "distinct (member_keys content) \<Longrightarrow> distinct (map fst (parsed_keys r3 content))" by (simp add: parsed_keys_def)
qed

definition collides :: "bool \<Rightarrow> js_members \<Rightarrow> string \<Rightarrow> bool" where
  "collides r3 content k \<longleftrightarrow>
     (\<exists>p q l. (k, p) \<in> set (parsed_keys r3 content) \<and> (l, q) \<in> set (parsed_keys r3 content) \<and> l \<noteq> k \<and>
        pm_identity q = pm_identity p)"

lemma group_collides:
  assumes "distinct (map fst g)" and "(k, p) \<in> set g"
  shows "(case g of (a, b) # c # d \<Rightarrow> True | _ \<Rightarrow> False) \<longleftrightarrow> (\<exists>l q. (l, q) \<in> set g \<and> l \<noteq> k)"
  using assms by (cases g rule: remdups_adj.cases) (auto, (metis fst_conv image_eqI)+)

lemma collision_keys:
  assumes "distinct (member_keys content)"
  shows "k \<in> fst ` set (normalizedMediaCollisions r3 content) \<longleftrightarrow> collides r3 content k"
proof -
  define ps where "ps = parsed_keys r3 content"
  define shown where "shown i = (case identity_group ps i of
             (k, p) # q # g \<Rightarrow>
               map (\<lambda>(l, _). (l, smallest_text (pm_canonical p) (map (pm_canonical \<circ> snd) (q # g)))) ((k, p) # q # g)
           | _ \<Rightarrow> [])" for i
  have keys: "distinct (map fst (identity_group ps i))" for i
    using parsed_keys_distinct [OF assms, of r3] unfolding ps_def [symmetric] identity_group_def by (rule distinct_map_filter)
  have shown: "k \<in> fst ` set (shown i) \<longleftrightarrow> (\<exists>p. (k, p) \<in> set (identity_group ps i)) \<and> (case identity_group ps i of (a, b) # c # d \<Rightarrow> True | _ \<Rightarrow> False)" for i
  proof -
    have names: "fst ` set (map (\<lambda>(l, _). (l, t)) g) = fst ` set g" for t :: string and g :: "(string \<times> parsed_media) list"
      by (force simp: image_iff)
    show ?thesis
    proof (cases "identity_group ps i" rule: remdups_adj.cases)
      case (3 x y g)
      obtain a b where x: "x = (a, b)" by (cases x)
      show ?thesis unfolding shown_def 3 x list.case prod.case names simp_thms image_iff by (metis fst_conv surj_pair)
    qed (auto simp: shown_def)
  qed
  have "k \<in> fst ` set (normalizedMediaCollisions r3 content) \<longleftrightarrow> (\<exists>i\<in>pm_identity ` snd ` set ps. k \<in> fst ` set (shown i))"
    unfolding normalizedMediaCollisions_def Let_def ps_def [symmetric] shown_def [symmetric] by (auto simp: image_iff)
  also have "\<dots> \<longleftrightarrow> (\<exists>p q l. (k, p) \<in> set ps \<and> (l, q) \<in> set ps \<and> l \<noteq> k \<and> pm_identity q = pm_identity p)"
  proof
    assume "\<exists>i\<in>pm_identity ` snd ` set ps. k \<in> fst ` set (shown i)"
    then obtain i p where i: "(k, p) \<in> set (identity_group ps i)" "case identity_group ps i of (a, b) # c # d \<Rightarrow> True | _ \<Rightarrow> False"
      using shown by blast
    then obtain l q where "(l, q) \<in> set (identity_group ps i)" "l \<noteq> k" using group_collides [OF keys i(1)] by blast
    then have "(k, p) \<in> set ps \<and> (l, q) \<in> set ps \<and> l \<noteq> k \<and> pm_identity q = pm_identity p"
      using i(1) by (auto simp: identity_group_def)
    then show "\<exists>p q l. (k, p) \<in> set ps \<and> (l, q) \<in> set ps \<and> l \<noteq> k \<and> pm_identity q = pm_identity p" by blast
  next
    assume "\<exists>p q l. (k, p) \<in> set ps \<and> (l, q) \<in> set ps \<and> l \<noteq> k \<and> pm_identity q = pm_identity p"
    then obtain p q l where kl: "(k, p) \<in> set ps" "(l, q) \<in> set ps" "l \<noteq> k" "pm_identity q = pm_identity p" by blast
    then have "(k, p) \<in> set (identity_group ps (pm_identity p))" "(l, q) \<in> set (identity_group ps (pm_identity p))"
      by (simp_all add: identity_group_def)
    then have "k \<in> fst ` set (shown (pm_identity p))" using shown group_collides [OF keys] kl(3) by blast
    then show "\<exists>i\<in>pm_identity ` snd ` set ps. k \<in> fst ` set (shown i)" using kl(1) by force
  qed
  finally show ?thesis by (simp add: collides_def ps_def)
qed

text \<open>The declarations that compete for an actual media type.\<close>

definition competes :: "bool \<Rightarrow> bool \<Rightarrow> js_members \<Rightarrow> parsed_media \<Rightarrow> media_match \<Rightarrow> bool" where
  "competes r3 fidelity content actual m \<longleftrightarrow>
     (mm_key m, mm_media m) \<in> set content \<and> parse_declared r3 (mm_key m) = Inr (mm_declared m, mm_range m) \<and>
     \<not> collides r3 content (mm_key m) \<and> (mm_range m \<ge> 2 \<or> fidelity) \<and>
     (if mm_range m = 2 then pm_base (mm_declared m) = pm_base actual else mediaRangeMatches (mm_declared m) actual) \<and>
     mediaParametersMatch (mm_declared m) actual \<and> mm_parameters m = length (pm_params (mm_declared m))"

lemma declared_match_iff:
  assumes "distinct (member_keys content)" and "(k, v) \<in> set content" and "parse_declared r3 k = Inr d"
  shows "m \<in> set (declared_match actual fidelity (map fst (normalizedMediaCollisions r3 content)) (k, v) d) \<longleftrightarrow>
    competes r3 fidelity content actual m \<and> mm_key m = k"
proof -
  obtain p s where d: "d = (p, s)" by (cases d)
  have one: "(mm_key m, mm_media m) \<in> set content \<and> mm_key m = k \<longleftrightarrow> mm_key m = k \<and> mm_media m = v"
    using assms(1,2) by (auto simp: member_keys_def dest: eq_key_imp_eq_value)
  have key: "k \<in> set (map fst (normalizedMediaCollisions r3 content)) \<longleftrightarrow> collides r3 content k"
    using collision_keys [OF assms(1)] by simp
  show ?thesis
    using one key assms(3)
    by (cases m) (auto simp: declared_match_def competes_def d)
qed

lemma declared_match_distinct: "distinct (declared_match actual fidelity colliding e d)"
  by (simp add: declared_match_def split: prod.split)

lemma declared_matches_iff:
  assumes "distinct (member_keys content)" and "declared_matches r3 fidelity content actual = Inr ms"
  shows "set ms = {m. competes r3 fidelity content actual m}" and "distinct ms"
proof -
  define colliding where "colliding = map fst (normalizedMediaCollisions r3 content)"
  obtain parts where parts: "map_res (\<lambda>entry. res_map (declared_match actual fidelity colliding entry) (parse_declared r3 (fst entry))) content = Inr parts"
    and ms: "ms = concat parts"
    using assms(2) by (auto simp: declared_matches_def Let_def colliding_def js_result)
  have each: "list_all2 (\<lambda>(k, v) part. \<exists>d. parse_declared r3 k = Inr d \<and> part = declared_match actual fidelity colliding (k, v) d) content parts"
    using parts unfolding map_res_Inr_iff by (rule list_all2_mono) (auto simp: js_result)
  have same: "m \<in> set part \<longleftrightarrow> competes r3 fidelity content actual m \<and> mm_key m = k"
    if "(k, v) \<in> set content" "\<exists>d. parse_declared r3 k = Inr d \<and> part = declared_match actual fidelity colliding (k, v) d" for m k v part
    using declared_match_iff [OF assms(1) that(1)] that(2) unfolding colliding_def by blast
  have both: "(\<forall>m. m \<in> set (concat ps) \<longleftrightarrow> competes r3 fidelity content actual m \<and> mm_key m \<in> set (map fst es)) \<and> distinct (concat ps)"
    if "list_all2 (\<lambda>(k, v) part. \<exists>d. parse_declared r3 k = Inr d \<and> part = declared_match actual fidelity colliding (k, v) d) es ps"
      "set es \<subseteq> set content" "distinct (map fst es)" for es ps
    using that
  proof (induction es ps rule: list_all2_induct)
    case (Cons e es part ps)
    obtain k v where e: "e = (k, v)" by (cases e)
    have head: "m \<in> set part \<longleftrightarrow> competes r3 fidelity content actual m \<and> mm_key m = k" for m
      using same [of k v part] Cons.hyps(1) Cons.prems(1) e by auto
    obtain d where "part = declared_match actual fidelity colliding (k, v) d" using Cons.hyps(1) e by auto
    then have "distinct part" by (simp add: declared_match_distinct)
    then show ?case using Cons.IH Cons.prems head e by (auto simp del: set_concat)
  qed simp
  have keys: "distinct (map fst content)" using assms(1) by (simp add: member_keys_def)
  show "set ms = {m. competes r3 fidelity content actual m}"
    using both [OF each subset_refl keys] by (force simp: ms competes_def simp del: set_concat)
  show "distinct ms" using both [OF each subset_refl keys] ms by simp
qed

text \<open>
  C28. The declaration that governs an actual Content-Type is exactly the one that is more specific than
  every other declaration competing for it: a concrete type before a type range before the full range,
  then by the number of parameters.  Keys that denote one identity in two spellings do not compete, two
  equally specific competitors leave no declaration, and the order of the keys does not matter.
\<close>

theorem response_media_is_most_specific:
  assumes "distinct (member_keys content)" and "parseMediaType contentType r3 = Inr actual" and "contentType \<noteq> []"
    and "\<forall>k\<in>set (member_keys content). \<exists>d. parse_declared r3 k = Inr d"
  shows "governingResponseMediaMatch r3 fidelity content (Some contentType) = Inr (Some m) \<longleftrightarrow>
    competes r3 fidelity content actual m \<and> (\<forall>n. competes r3 fidelity content actual n \<longrightarrow> n = m \<or> more_specific m n)"
proof -
  have "\<exists>d. parse_declared r3 (fst e) = Inr d" if "e \<in> set content" for e
    using assms(4) that by (auto simp: member_keys_def)
  then have "\<not> (\<exists>x. map_res (\<lambda>e. res_map (f e) (parse_declared r3 (fst e))) content = Inl x)" for f :: "string \<times> jsval \<Rightarrow> parsed_media \<times> nat \<Rightarrow> media_match list"
    unfolding map_res_Inl_iff by (force simp: js_result)
  then obtain ms where ms: "declared_matches r3 fidelity content actual = Inr ms"
    by (cases "declared_matches r3 fidelity content actual") (auto simp: declared_matches_def Let_def js_result)
  note same = declared_matches_iff [OF assms(1) ms]
  show ?thesis
  proof (cases "ms = []")
    case True
    then have "\<not> competes r3 fidelity content actual n" for n using same(1) by auto
    then show ?thesis using True assms(2,3) ms by (auto simp: governingResponseMediaMatch_def)
  next
    case False
    then have "content \<noteq> []" using same(1) by (auto simp: competes_def)
    then have "governingResponseMediaMatch r3 fidelity content (Some contentType) = res_map Some (select_match ms)"
      using False assms(2,3) ms by (simp add: governingResponseMediaMatch_def)
    then show ?thesis using select_match_iff [OF same(2), of m] same(1) by (auto simp: js_result)
  qed
qed

definition example_content :: js_members where
  "example_content =
     [(''text/*'', JObj []), (''text/plain; charset=utf-8'', JObj []), (''TEXT/Plain'', JNull), (''text/plain'', JObj [])]"

definition example_match :: media_match where
  "example_match =
     \<lparr> mm_key = ''text/plain; charset=utf-8'',
       mm_declared = \<lparr> pm_base = ''text/plain'', pm_params = [(''charset'', ''utf-8'')], pm_rendered = [(''charset'', ''utf-8'')],
         pm_canonical = ''text/plain; charset=utf-8'', pm_identity = ''text/plain'' @ [CHR 0x00] @ ''charset=utf-8'' \<rparr>,
       mm_media = JObj [], mm_range = 2, mm_parameters = 1 \<rparr>"

lemma response_media_is_most_specific_witness:
  "\<exists>actual. competes True True example_content actual example_match \<and>
     (\<forall>n. competes True True example_content actual n \<longrightarrow> n = example_match \<or> more_specific example_match n)"
proof -
  have "case parseMediaType ''text/plain;charset=UTF-8'' True of Inr _ \<Rightarrow> True | Inl _ \<Rightarrow> False" by code_simp
  then obtain actual where actual: "parseMediaType ''text/plain;charset=UTF-8'' True = Inr actual" by (auto split: sum.splits)
  have keys: "distinct (member_keys example_content)" by code_simp
  have "list_all (\<lambda>k. case parse_declared True k of Inr _ \<Rightarrow> True | Inl _ \<Rightarrow> False) (member_keys example_content)" by code_simp
  then have all: "\<forall>k\<in>set (member_keys example_content). \<exists>d. parse_declared True k = Inr d"
    unfolding list_all_iff by (metis obj_sumE sum.case(1))
  have run: "governingResponseMediaMatch True True example_content (Some ''text/plain;charset=UTF-8'') = Inr (Some example_match)"
    by code_simp
  show ?thesis
    using response_media_is_most_specific [OF keys actual _ all, of True example_match] run by auto
qed

end
