(* ===== verification/Host_Transport.thy ===== *)
theory Host_Transport
  imports Js_Value
begin

text \<open>
  \<open>host-transport.ts\<close>: which method tokens a transport carries unchanged, the redirect loop of the
  host transport, the header section of one dispatch and its single settlement.

  Parameters of the model: the URL parser (a text against a base), the network (what one dispatch of a
  request returns, given the requests sent before it, or the text it rejects with), and what the
  platform extracts from a body source (its bytes and the content type it implies).
\<close>

section \<open>Methods\<close>

definition FETCH_FORBIDDEN_METHODS :: "string list" where
  "FETCH_FORBIDDEN_METHODS = [''CONNECT'', ''TRACE'', ''TRACK'']"

definition FETCH_NORMALIZED_METHODS :: "string list" where
  "FETCH_NORMALIZED_METHODS = [''DELETE'', ''GET'', ''HEAD'', ''OPTIONS'', ''POST'', ''PUT'']"

definition byteUppercase :: "string \<Rightarrow> string" where
  "byteUppercase m = ascii_upper m"

definition fetchCarriesMethod :: "string \<Rightarrow> bool" where
  "fetchCarriesMethod m =
     (let upper = byteUppercase m in
      if upper \<in> set FETCH_FORBIDDEN_METHODS then False
      else if upper \<in> set FETCH_NORMALIZED_METHODS \<and> m \<noteq> upper then False
      else True)"

definition hostCarriesMethod :: "string \<Rightarrow> bool" where
  "hostCarriesMethod m \<longleftrightarrow> m = byteUppercase m"

definition hostMethodRefusal :: "string \<Rightarrow> bool \<Rightarrow> string" where
  "hostMethodRefusal m hostAvailable =
     ''method '' @ json_quote m @ '' cannot be sent byte-exactly from this host: '' @
     (if byteUppercase m \<in> set FETCH_FORBIDDEN_METHODS then ''the WHATWG fetch API forbids it''
      else ''the WHATWG fetch API would send it as '' @ json_quote (byteUppercase m)) @ '' and '' @
     (if hostAvailable then ''the host HTTP client uppercases method tokens''
      else ''no host HTTP client is available in this runtime'')"

section \<open>Requests and responses\<close>

text \<open>A \<open>Headers\<close> object is a list of lower-case names and values without repetition of a name.\<close>

type_synonym header_list = "(string \<times> string) list"

definition header_delete :: "string \<Rightarrow> header_list \<Rightarrow> header_list" where
  "header_delete name hs = filter (\<lambda>h. fst h \<noteq> name) hs"

definition header_set :: "string \<Rightarrow> string \<Rightarrow> header_list \<Rightarrow> header_list" where
  "header_set name v hs = header_delete name hs @ [(name, v)]"

definition header_append :: "string \<times> string \<Rightarrow> header_list \<Rightarrow> header_list" where
  "header_append h hs =
     (let name = ascii_lower (fst h) in
      case map_of hs name of
        None \<Rightarrow> hs @ [(name, snd h)]
      | Some old \<Rightarrow> map (\<lambda>(n, v). if n = name then (n, old @ '', '' @ snd h) else (n, v)) hs)"

record location =
  lo_protocol :: string
  lo_origin :: string
  lo_href :: string

type_synonym location_parser = "string \<Rightarrow> location option \<Rightarrow> location option"

record host_request =
  hr_target :: location
  hr_method :: string
  hr_headers :: header_list
  hr_body :: "string option"

record host_response =
  hs_status :: nat
  hs_headers :: header_list
  hs_body :: "string option"

type_synonym network = "host_request list \<Rightarrow> host_request \<Rightarrow> (string, host_response) res"

datatype transport_error =
    Method_Refused string
  | Invalid_URL
  | Rejected string
  | Redirect_Is_Error
  | Too_Many_Redirects
  | Location_Does_Not_Parse string
  | Location_Not_HTTP string

datatype redirect_mode = Manual | Follow | Error_Mode

section \<open>One dispatch\<close>

text \<open>The fields handed to the HTTP client.\<close>

definition requestHeaders :: "host_request \<Rightarrow> header_list" where
  "requestHeaders r =
     (case hr_body r of
        None \<Rightarrow> hr_headers r
      | Some bytes \<Rightarrow> header_set ''content-length'' (decimal (length bytes)) (hr_headers r))"

definition NULL_BODY_STATUSES :: "nat list" where
  "NULL_BODY_STATUSES = [101, 204, 205, 304]"

fun raw_header_pairs :: "string list \<Rightarrow> (string \<times> string) list" where
  "raw_header_pairs (n # v # rest) = (n, v) # raw_header_pairs rest"
| "raw_header_pairs _ = []"

definition toResponse :: "nat \<Rightarrow> string list \<Rightarrow> string \<Rightarrow> string \<Rightarrow> bool \<Rightarrow> host_response" where
  "toResponse status rawHeaders content m headerSectionOnly =
     \<lparr> hs_status = status, hs_headers = fold header_append (raw_header_pairs rawHeaders) [],
       hs_body =
         (if headerSectionOnly \<or> m = ''HEAD'' \<or> status \<in> set NULL_BODY_STATUSES then None else Some content) \<rparr>"

text \<open>
  The promise of a dispatch settles with the first of the client's events, and once; \<open>toResponse\<close>
  makes the answer of an event that carries one.
\<close>

datatype client_event =
    On_Response nat "string list" string
  | On_Connect nat "string list"
  | On_Upgrade nat
  | On_Error string
  | On_Abort string

definition client_outcome :: "string \<Rightarrow> client_event \<Rightarrow> (string, host_response) res" where
  "client_outcome m e =
     (case e of
        On_Response status raw content \<Rightarrow> Inr (toResponse status raw content m False)
      | On_Connect status raw \<Rightarrow> Inr (toResponse status raw [] m True)
      | On_Upgrade status \<Rightarrow> Inl (''host transport cannot represent a '' @ decimal status @ '' upgrade response'')
      | On_Error reason \<Rightarrow> Inl reason
      | On_Abort reason \<Rightarrow> Inl reason)"

definition finish_step ::
  "string \<Rightarrow> (string, host_response) res option \<Rightarrow> client_event \<Rightarrow> (string, host_response) res option" where
  "finish_step m settled e = (case settled of None \<Rightarrow> Some (client_outcome m e) | Some v \<Rightarrow> Some v)"

definition dispatch_outcome :: "string \<Rightarrow> client_event list \<Rightarrow> (string, host_response) res option" where
  "dispatch_outcome m events = foldl (finish_step m) None events"

lemma dispatch_settles_once:
  "dispatch_outcome m (e # events) = Some (client_outcome m e)"
proof -
  have "foldl (finish_step m) (Some v) es = Some v" for v es
    by (induction es) (simp_all add: finish_step_def)
  then show ?thesis by (simp add: dispatch_outcome_def finish_step_def)
qed

section \<open>Redirects\<close>

definition REDIRECT_STATUSES :: "nat list" where
  "REDIRECT_STATUSES = [301, 302, 303, 307, 308]"

definition MAX_REDIRECTS :: nat where
  "MAX_REDIRECTS = 20"

definition body_headers :: "string list" where
  "body_headers =
     [''content-encoding'', ''content-language'', ''content-location'', ''content-type'', ''content-length'']"

definition becomes_get :: "nat \<Rightarrow> string \<Rightarrow> bool" where
  "becomes_get status m \<longleftrightarrow>
     ((status = 301 \<or> status = 302) \<and> m = ''POST'') \<or> (status = 303 \<and> m \<noteq> ''GET'' \<and> m \<noteq> ''HEAD'')"

definition redirected :: "nat \<Rightarrow> location \<Rightarrow> host_request \<Rightarrow> host_request" where
  "redirected status next_url r =
     (let r = (if becomes_get status (hr_method r)
               then r \<lparr> hr_method := ''GET'', hr_body := None,
                        hr_headers := fold header_delete body_headers (hr_headers r) \<rparr>
               else r);
          r = (if lo_origin next_url \<noteq> lo_origin (hr_target r)
               then r \<lparr> hr_headers := header_delete ''authorization'' (hr_headers r) \<rparr> else r) in
      r \<lparr> hr_target := next_url \<rparr>)"

text \<open>
  The loop, with the number of redirects it may still follow.  It returns the requests it sent, in
  order, and how it ended.
\<close>

fun transport_loop ::
  "network \<Rightarrow> location_parser \<Rightarrow> redirect_mode \<Rightarrow> nat \<Rightarrow> host_request list \<Rightarrow> host_request \<Rightarrow>
     host_request list \<times> (transport_error, host_response) res" where
  "transport_loop send new_url mode k sent r =
     (let sent' = sent @ [r] in
      case send sent r of
        Inl reason \<Rightarrow> (sent', Inl (Rejected reason))
      | Inr response \<Rightarrow>
          (case map_of (hs_headers response) ''location'' of
             None \<Rightarrow> (sent', Inr response)
           | Some loc \<Rightarrow>
               if hs_status response \<notin> set REDIRECT_STATUSES \<or> mode = Manual then (sent', Inr response)
               else if mode = Error_Mode then (sent', Inl Redirect_Is_Error)
               else
                 (case k of
                    0 \<Rightarrow> (sent', Inl Too_Many_Redirects)
                  | Suc m \<Rightarrow>
                      (case new_url loc (Some (hr_target r)) of
                         None \<Rightarrow> (sent', Inl (Location_Does_Not_Parse loc))
                       | Some next_url \<Rightarrow>
                           if lo_protocol next_url \<noteq> ''http:'' \<and> lo_protocol next_url \<noteq> ''https:''
                           then (sent', Inl (Location_Not_HTTP (lo_protocol next_url)))
                           else
                             transport_loop send new_url mode m sent'
                               (redirected (hs_status response) next_url r)))))"

declare transport_loop.simps [simp del]

text \<open>\<open>extracted\<close> is what the platform reads from the body source, \<open>None\<close> without one.\<close>

definition materializeBody :: "(string \<times> string option) option \<Rightarrow> header_list \<Rightarrow> string option \<times> header_list" where
  "materializeBody extracted hs =
     (case extracted of
        None \<Rightarrow> (None, hs)
      | Some (bytes, implied) \<Rightarrow>
          (Some bytes,
           (case implied of
              Some t \<Rightarrow> if map_of hs ''content-type'' = None then header_set ''content-type'' t hs else hs
            | None \<Rightarrow> hs)))"

definition nodeTransport ::
  "network \<Rightarrow> location_parser \<Rightarrow> string \<Rightarrow> string \<Rightarrow> header_list \<Rightarrow> (string \<times> string option) option \<Rightarrow>
     redirect_mode option \<Rightarrow> host_request list \<times> (transport_error, host_response) res" where
  "nodeTransport send new_url url m hs extracted mode =
     (if \<not> hostCarriesMethod m then ([], Inl (Method_Refused (hostMethodRefusal m True)))
      else
        (case new_url url None of
           None \<Rightarrow> ([], Inl Invalid_URL)
         | Some current \<Rightarrow>
             let (body, headers) = materializeBody extracted hs in
             transport_loop send new_url (case mode of None \<Rightarrow> Manual | Some md \<Rightarrow> md) MAX_REDIRECTS []
               \<lparr> hr_target = current, hr_method = m, hr_headers = headers, hr_body = body \<rparr>))"

section \<open>What a sequence of requests keeps\<close>

text \<open>One request and the next the loop sends after it.\<close>

definition confined_step :: "host_request \<Rightarrow> host_request \<Rightarrow> bool" where
  "confined_step r q \<longleftrightarrow>
     lo_protocol (hr_target q) \<in> {''http:'', ''https:''} \<and>
     set (hr_headers q) \<subseteq> set (hr_headers r) \<and>
     (\<forall>h\<in>set (hr_headers r). fst h = ''authorization'' \<or> fst h \<in> set body_headers \<or> h \<in> set (hr_headers q)) \<and>
     (hr_method q = hr_method r \<and> hr_body q = hr_body r \<or>
      hr_method q = ''GET'' \<and> hr_body q = None \<and> (\<forall>h\<in>set (hr_headers q). fst h \<notin> set body_headers)) \<and>
     (lo_origin (hr_target q) \<noteq> lo_origin (hr_target r) \<longrightarrow> (\<forall>h\<in>set (hr_headers q). fst h \<noteq> ''authorization''))"

fun confined :: "host_request list \<Rightarrow> bool" where
  "confined (r # q # rs) = (confined_step r q \<and> confined (q # rs))"
| "confined _ = True"

lemma set_header_delete: "set (header_delete name hs) = {h \<in> set hs. fst h \<noteq> name}"
  by (simp add: header_delete_def)

lemma set_fold_delete: "set (fold header_delete names hs) = {h \<in> set hs. fst h \<notin> set names}"
  by (induction names arbitrary: hs) (auto simp: set_header_delete)

lemma redirected_confined:
  assumes "lo_protocol next_url = ''http:'' \<or> lo_protocol next_url = ''https:''"
  shows "confined_step r (redirected status next_url r)"
  using assms
  by (cases "becomes_get status (hr_method r)"; cases "lo_origin next_url = lo_origin (hr_target r)")
    (auto simp: confined_step_def redirected_def set_fold_delete set_header_delete Let_def)

lemma confined_snoc: "confined (rs @ [r]) \<Longrightarrow> confined_step r q \<Longrightarrow> confined (rs @ [r, q])"
  by (induction rs rule: confined.induct) auto

lemma transport_loop_requests:
  "confined (sent @ [r]) \<Longrightarrow> transport_loop send new_url mode k sent r = (rs, result) \<Longrightarrow>
     confined rs \<and> (\<exists>ts. rs = sent @ r # ts \<and> length ts \<le> k \<and> (mode \<noteq> Follow \<longrightarrow> ts = []))"
proof (induction k arbitrary: sent r)
  case 0
  then show ?case
    by (subst (asm) transport_loop.simps) (auto simp: Let_def split: sum.splits option.splits if_splits)
next
  case (Suc k)
  show ?case
  proof (cases "\<exists>response loc next_url. send sent r = Inr response \<and>
      map_of (hs_headers response) ''location'' = Some loc \<and> hs_status response \<in> set REDIRECT_STATUSES \<and>
      mode = Follow \<and> new_url loc (Some (hr_target r)) = Some next_url \<and>
      (lo_protocol next_url = ''http:'' \<or> lo_protocol next_url = ''https:'')")
    case True
    then obtain response loc next_url where hop: "send sent r = Inr response"
      "map_of (hs_headers response) ''location'' = Some loc" "hs_status response \<in> set REDIRECT_STATUSES"
      "mode = Follow" "new_url loc (Some (hr_target r)) = Some next_url"
      "lo_protocol next_url = ''http:'' \<or> lo_protocol next_url = ''https:''" by blast
    let ?q = "redirected (hs_status response) next_url r"
    have "confined ((sent @ [r]) @ [?q])"
      using confined_snoc [OF Suc.prems(1) redirected_confined [OF hop(6)]] by simp
    moreover have "transport_loop send new_url mode k (sent @ [r]) ?q = (rs, result)"
      using Suc.prems(2) hop by (subst (asm) transport_loop.simps) (auto simp: Let_def)
    ultimately obtain ts where "confined rs" "rs = (sent @ [r]) @ ?q # ts" "length ts \<le> k"
      using Suc.IH [of "sent @ [r]" ?q] by blast
    then show ?thesis using hop(4) by auto
  next
    case False
    then have "rs = sent @ [r]"
      using Suc.prems(2)
      by (subst (asm) transport_loop.simps)
        (cases mode; auto simp: Let_def split: sum.splits option.splits if_splits)
    then show ?thesis using Suc.prems(1) by auto
  qed
qed

lemma confined_nth: "confined rs \<Longrightarrow> Suc i < length rs \<Longrightarrow> confined_step (rs ! i) (rs ! Suc i)"
proof (induction rs arbitrary: i rule: confined.induct)
  case (1 r q rs)
  then show ?case by (cases i) auto
qed auto

lemma confined_headers:
  "confined rs \<Longrightarrow> i \<le> j \<Longrightarrow> j < length rs \<Longrightarrow> set (hr_headers (rs ! j)) \<subseteq> set (hr_headers (rs ! i))"
proof (induction j)
  case (Suc j)
  then show ?case
    using confined_nth [of rs j] by (cases "i = Suc j") (auto simp: confined_step_def)
qed simp

lemma no_authorization_after:
  assumes "confined rs" and "i < j" and "j < length rs"
    and "lo_origin (hr_target (rs ! i)) \<noteq> lo_origin (hr_target (rs ! Suc i))"
  shows "\<forall>h\<in>set (hr_headers (rs ! j)). fst h \<noteq> ''authorization''"
proof -
  have "\<forall>h\<in>set (hr_headers (rs ! Suc i)). fst h \<noteq> ''authorization''"
    using confined_nth [OF assms(1), of i] assms(2-4) by (simp add: confined_step_def)
  with confined_headers [OF assms(1), of "Suc i" j] assms(2,3) show ?thesis by auto
qed

lemma origin_changes:
  assumes "lo_origin (hr_target (rs ! 0)) \<noteq> lo_origin (hr_target (rs ! j))"
  shows "\<exists>i<j. lo_origin (hr_target (rs ! i)) \<noteq> lo_origin (hr_target (rs ! Suc i))"
  using assms
proof (induction j)
  case (Suc j)
  show ?case
  proof (cases "lo_origin (hr_target (rs ! 0)) = lo_origin (hr_target (rs ! j))")
    case True
    then show ?thesis using Suc.prems by (intro exI [of _ j]) simp
  next
    case False
    then show ?thesis using Suc.IH by (meson less_SucI)
  qed
qed simp

lemma nodeTransport_requests:
  assumes "nodeTransport send new_url url m hs extracted mode = (rs, result)"
  shows "confined rs \<and> length rs \<le> 21 \<and> (mode \<noteq> Some Follow \<longrightarrow> length rs \<le> 1)"
proof (cases "rs = []")
  case False
  let ?mode = "case mode of None \<Rightarrow> Manual | Some md \<Rightarrow> md"
  from assms False obtain r where "transport_loop send new_url ?mode 20 [] r = (rs, result)"
    by (auto simp: nodeTransport_def MAX_REDIRECTS_def split: if_splits option.splits prod.splits)
  from transport_loop_requests [OF _ this] obtain ts where
    ts: "confined rs" "rs = [] @ r # ts" "length ts \<le> 20" "?mode \<noteq> Follow \<longrightarrow> ts = []" by auto
  have "mode \<noteq> Some Follow \<longrightarrow> ?mode \<noteq> Follow" by (cases mode) simp_all
  with ts show ?thesis by simp
qed simp


definition redirecting_network :: network where
  "redirecting_network sent r =
     (if sent = []
      then Inr \<lparr> hs_status = 302, hs_headers = [(''location'', ''http://b/'')], hs_body = None \<rparr>
      else Inr \<lparr> hs_status = 200, hs_headers = [], hs_body = Some ''ok'' \<rparr>)"

definition two_hosts :: location_parser where
  "two_hosts u base = Some \<lparr> lo_protocol = ''http:'', lo_origin = u, lo_href = u \<rparr>"


end
