(* ===== verification/Input_Routes.thy ===== *)
theory Input_Routes
  imports Param_Route Artifact_Names
begin

text \<open>
  \<open>input-routes-v2.ts\<close>: the flat public fields planned for the parameters and body properties of an
  operation, the envelope a binding transform turns a flat input into, its parsing, and its routing onto
  the request; with the Encoding lane of \<open>resolved-media.ts\<close> that a routed body property goes through.

  An envelope is a JSON value from outside.  A number is never a record here, and ill-typed fields of
  declarations count as absent.  The expression that the planner writes is JSONata; only its text is
  modelled, and \<open>route_envelope\<close> is the value it denotes.
\<close>

section \<open>Plans\<close>

text \<open>What routing reads of a body plan beyond \<open>body_plan\<close>.\<close>

record route_plan = body_plan +
  rp_required :: bool
  rp_family :: string
  rp_props :: "string list option"
  rp_media :: jsval
  rp_openapiVersion :: "string option"
  rp_oas30 :: bool

definition FAMILY_JSON :: string where "FAMILY_JSON = ''json''"
definition FAMILY_MULTIPART :: string where "FAMILY_MULTIPART = ''multipart''"

definition whole_plan :: "route_plan \<Rightarrow> bool" where
  "whole_plan plan \<longleftrightarrow> bp_synthetic plan \<or> bp_wholeObject plan"

definition plan_props :: "route_plan \<Rightarrow> string list" where
  "plan_props plan = (case rp_props plan of None \<Rightarrow> [] | Some names \<Rightarrow> names)"

definition planAllowsObjectPassthrough :: "route_plan \<Rightarrow> bool" where
  "planAllowsObjectPassthrough plan \<longleftrightarrow>
     bp_declared plan \<and> \<not> bp_synthetic plan \<and> \<not> bp_wholeObject plan \<and> rp_family plan = FAMILY_JSON"

section \<open>Planning the fields\<close>

datatype slot_kind = ParameterSlot | BodySlot | WholeBodySlot

record input_slot =
  sl_kind :: slot_kind
  sl_in :: string
  sl_name :: string
  sl_base :: string

record param_route =
  pr_in :: string
  pr_name :: string
  pr_field :: string

record abstract_routes =
  ar_parameters :: "param_route list"
  ar_bodyFields :: js_members
  ar_wholeBodyField :: string
  ar_openBody :: bool
  ar_bodyRequired :: bool
  ar_needsTransform :: bool

definition parameter_slots :: "jsval list \<Rightarrow> input_slot list" where
  "parameter_slots params =
     map (\<lambda>p. \<lparr> sl_kind = ParameterSlot, sl_in = p_in p, sl_name = p_name p, sl_base = p_name p \<rparr>)
       (filter (\<lambda>p. p_name p \<noteq> []) params)"

definition body_names :: "route_plan list \<Rightarrow> string list" where
  "body_names plans =
     code_point_sort (remdups (concat (map plan_props (filter (\<lambda>plan. \<not> whole_plan plan) plans))))"

definition body_slots :: "route_plan list \<Rightarrow> input_slot list" where
  "body_slots plans =
     map (\<lambda>n. \<lparr> sl_kind = BodySlot, sl_in = [], sl_name = n, sl_base = n \<rparr>) (body_names plans)"

definition whole_slots :: "route_plan list \<Rightarrow> input_slot list" where
  "whole_slots plans =
     (if list_ex whole_plan plans then
        [\<lparr> sl_kind = WholeBodySlot, sl_in = [], sl_name = [],
           sl_base = (if list_ex bp_wholeObject plans then ''payload'' else ''body'') \<rparr>]
      else [])"

definition input_slots :: "jsval list \<Rightarrow> route_plan list \<Rightarrow> input_slot list" where
  "input_slots params plans = parameter_slots params @ body_slots plans @ whole_slots plans"

text \<open>
  The field of one slot: its base name, else the first suffix that is neither used nor an authored
  base.  The search is the one of \<open>uniqueKey\<close> (\<open>unique_from\<close>), which always ends.
\<close>

definition slot_field :: "string list \<Rightarrow> string list \<Rightarrow> string \<Rightarrow> string" where
  "slot_field reserved used base =
     (if base \<in> set used then unique_from base (used @ reserved) 2 else base)"

fun assign_fields :: "string list \<Rightarrow> string list \<Rightarrow> string list \<Rightarrow> string list" where
  "assign_fields reserved used [] = []"
| "assign_fields reserved used (base # bases) =
     (let field = slot_field reserved used base in field # assign_fields reserved (field # used) bases)"

definition planned_slots :: "jsval list \<Rightarrow> route_plan list \<Rightarrow> (input_slot \<times> string) list" where
  "planned_slots params plans =
     (let slots = input_slots params plans; bases = map sl_base slots in
      zip slots (assign_fields bases [] bases))"

definition slot_step :: "input_slot \<times> string \<Rightarrow> abstract_routes \<Rightarrow> abstract_routes" where
  "slot_step sf r =
     (let (slot, field) = sf in
      case sl_kind slot of
        ParameterSlot \<Rightarrow>
          r \<lparr> ar_parameters := ar_parameters r @ [\<lparr> pr_in = sl_in slot, pr_name = sl_name slot, pr_field = field \<rparr>] \<rparr>
      | BodySlot \<Rightarrow> r \<lparr> ar_bodyFields := assign_member (sl_name slot) (JStr field) (ar_bodyFields r) \<rparr>
      | WholeBodySlot \<Rightarrow> r \<lparr> ar_wholeBodyField := field \<rparr>)"

definition planAbstractInputRoutes :: "jsval list \<Rightarrow> route_plan list \<Rightarrow> abstract_routes" where
  "planAbstractInputRoutes params plans =
     (let openBody = list_ex planAllowsObjectPassthrough plans;
          bodyRequired = list_ex rp_required plans in
      fold slot_step (planned_slots params plans)
        \<lparr> ar_parameters = [], ar_bodyFields = [], ar_wholeBodyField = [], ar_openBody = openBody,
          ar_bodyRequired = bodyRequired,
          ar_needsTransform = (input_slots params plans \<noteq> [] \<or> openBody \<or> bodyRequired) \<rparr>)"

definition find_route :: "param_route list \<Rightarrow> string \<Rightarrow> string \<Rightarrow> param_route option" where
  "find_route routes inValue name = List.find (\<lambda>r. pr_in r = inValue \<and> pr_name r = name) routes"

definition parameterField :: "abstract_routes \<Rightarrow> string \<Rightarrow> string \<Rightarrow> string" where
  "parameterField r inValue name =
     (case find_route (ar_parameters r) inValue name of None \<Rightarrow> name | Some route \<Rightarrow> pr_field route)"

text \<open>The lookup also sees the names of \<open>Object.prototype\<close>.\<close>

definition bodyField :: "abstract_routes \<Rightarrow> string \<Rightarrow> jsval" where
  "bodyField r name =
     (let v = get_object (ar_bodyFields r) name in
      if v = JUndefined \<or> v = JNull then JStr name else v)"

definition route_object :: "param_route \<Rightarrow> jsval" where
  "route_object r = JObj [(''in'', JStr (pr_in r)), (''name'', JStr (pr_name r)), (''field'', JStr (pr_field r))]"

definition body_descriptor :: "abstract_routes \<Rightarrow> js_members" where
  "body_descriptor r =
     (if ar_bodyFields r = [] then [] else [(''properties'', JObj (ar_bodyFields r))]) @
     (if ar_wholeBodyField r = [] then [] else [(''whole'', JStr (ar_wholeBodyField r))])"

text \<open>\<open>JSON.stringify\<close> in a template literal.\<close>

definition json_text :: "jsval \<Rightarrow> string" where
  "json_text v = (case JSON_stringify v of None \<Rightarrow> ''undefined'' | Some t \<Rightarrow> t)"

definition transformExpression :: "abstract_routes \<Rightarrow> execution_profile \<Rightarrow> string" where
  "transformExpression r prof =
     ''[{'' @ json_quote (inputRouteKey prof) @ '':'' @ json_quote (inputRouteMarker prof) @
     '','' @ json_quote ''value'' @ '':$,'' @ json_quote ''parameters'' @ '':'' @
     json_text (JArr (map route_object (ar_parameters r))) @
     '','' @ json_quote ''body'' @ '':'' @ json_text (JObj (body_descriptor r)) @ ''}]''"

text \<open>The value the expression denotes for a flat input.\<close>

definition route_envelope :: "abstract_routes \<Rightarrow> execution_profile \<Rightarrow> js_members \<Rightarrow> jsval" where
  "route_envelope r prof input =
     JArr [JObj [(inputRouteKey prof, JStr (inputRouteMarker prof)), (''value'', JObj input),
                 (''parameters'', JArr (map route_object (ar_parameters r))),
                 (''body'', JObj (body_descriptor r))]]"

fun ambiguous_from :: "string list \<Rightarrow> js_members \<Rightarrow> string list \<Rightarrow> bool" where
  "ambiguous_from seen input [] = False"
| "ambiguous_from seen input (name # names) =
     (if name = [] then ambiguous_from seen input names
      else name \<in> set seen \<and> has_member input name \<or> ambiguous_from (name # seen) input names)"

definition flatInputHasAmbiguousParameter :: "jsval list \<Rightarrow> js_members \<Rightarrow> bool" where
  "flatInputHasAmbiguousParameter params input = ambiguous_from [] input (map p_name params)"

section \<open>Parsing an envelope\<close>

record routed_envelope =
  re_value :: js_members
  re_parameters :: "param_route list"
  re_bodyFields :: js_members
  re_wholeBodyField :: string
  re_bodyPresent :: bool

definition revision_label :: "execution_profile \<Rightarrow> string" where
  "revision_label prof = (if mediaFidelity prof then ''media-fidelity'' else ''routed'')"

definition route_identity :: "string \<Rightarrow> string \<Rightarrow> string" where
  "route_identity inValue name = inValue @ CHR 0x00 # name"

record envelope_scan =
  es_parameters :: "param_route list"
  es_seen :: "string list"
  es_fields :: "string list"

definition several_destinations :: "string \<Rightarrow> string \<Rightarrow> string" where
  "several_destinations revision field =
     revision @ '' routed input field '' @ json_quote field @ '' supplies more than one destination''"

definition parse_parameter_entry :: "string \<Rightarrow> jsval \<Rightarrow> envelope_scan \<Rightarrow> (string, envelope_scan) res" where
  "parse_parameter_entry revision raw st =
     (if as_object raw = None then Inl (revision @ '' routed parameter entry must be an object'')
      else
        let inValue = fld raw ''in''; name = fld raw ''name''; field = fld raw ''field'';
            identity = route_identity inValue name in
        if inValue = [] \<or> name = [] \<or> field = []
        then Inl (revision @ '' routed parameter entry requires non-empty in, name, and field'')
        else if identity \<in> set (es_seen st)
        then Inl (revision @ '' routed input repeats parameter '' @ json_quote name @ '' in '' @ json_quote inValue)
        else if field \<in> set (es_fields st) then Inl (several_destinations revision field)
        else Inr \<lparr> es_parameters = es_parameters st @ [\<lparr> pr_in = inValue, pr_name = name, pr_field = field \<rparr>],
                   es_seen = identity # es_seen st, es_fields = field # es_fields st \<rparr>)"

definition parse_body_property ::
  "string \<Rightarrow> string \<times> jsval \<Rightarrow> js_members \<times> string list \<Rightarrow> (string, js_members \<times> string list) res" where
  "parse_body_property revision m st =
     (let (name, raw) = m; (mapped, seen) = st; field = str_or raw [] in
      if name = [] \<or> field = []
      then Inl (revision @ '' routed body property mappings require non-empty string names and fields'')
      else if field \<in> set seen then Inl (several_destinations revision field)
      else Inr (assign_member name raw mapped, field # seen))"

definition parse_body_properties ::
  "string \<Rightarrow> jsval \<Rightarrow> string list \<Rightarrow> (string, js_members \<times> string list) res" where
  "parse_body_properties revision properties seen =
     (if properties = JUndefined then Inr ([], seen)
      else
        (case as_object properties of
           None \<Rightarrow> Inl (revision @ '' routed body properties must be an object'')
         | Some ms \<Rightarrow> each_res (parse_body_property revision) ms ([], seen)))"

definition parse_whole_field :: "string \<Rightarrow> jsval \<Rightarrow> string list \<Rightarrow> (string, string) res" where
  "parse_whole_field revision whole seen =
     (if whole = JUndefined then Inr []
      else if str_or whole [] = [] then Inl (revision @ '' routed whole-body field must be a non-empty string'')
      else if str_or whole [] \<in> set seen then Inl (several_destinations revision (str_or whole []))
      else Inr (str_or whole []))"

definition parse_present :: "string \<Rightarrow> jsval \<Rightarrow> (string, bool) res" where
  "parse_present revision present =
     (case present of
        JUndefined \<Rightarrow> Inr False
      | JBool b \<Rightarrow> Inr b
      | _ \<Rightarrow> Inl (revision @ '' routed body present marker must be boolean''))"

definition parse_routes ::
  "string \<Rightarrow> js_members \<Rightarrow> js_members \<Rightarrow> (string, routed_envelope) res" where
  "parse_routes revision envelope input =
     (let raw = (case member_of envelope ''parameters'' of JNull \<Rightarrow> JArr [] | v \<Rightarrow> v) in
      case as_array raw of
        None \<Rightarrow> Inl (revision @ '' routed input parameters must be an array'')
      | Some entries \<Rightarrow>
          res_bind (each_res (parse_parameter_entry revision) entries
                      \<lparr> es_parameters = [], es_seen = [], es_fields = [] \<rparr>) (\<lambda>st.
            case as_object (member_of envelope ''body'') of
              None \<Rightarrow> Inl (revision @ '' routed input body descriptor must be an object'')
            | Some body \<Rightarrow>
                res_bind (parse_body_properties revision (member_of body ''properties'') (es_fields st))
                  (\<lambda>(mapped, seen).
                    res_bind (parse_whole_field revision (member_of body ''whole'') seen) (\<lambda>whole.
                      res_map (\<lambda>present.
                          \<lparr> re_value = input, re_parameters = es_parameters st, re_bodyFields = mapped,
                            re_wholeBodyField = whole, re_bodyPresent = present \<rparr>)
                        (parse_present revision (member_of body ''present''))))))"

definition parse_envelope :: "execution_profile \<Rightarrow> jsval \<Rightarrow> (string, routed_envelope) res" where
  "parse_envelope prof item =
     (let revision = revision_label prof; key = inputRouteKey prof in
      case as_object item of
        None \<Rightarrow> Inl (revision @ '' routed input array item must be an object'')
      | Some envelope \<Rightarrow>
          if \<not> in_object key envelope
          then Inl (revision @ '' routed input array item requires '' @ key @ '' marker'')
          else if length envelope \<noteq> 4 \<or> member_of envelope ''value'' = JUndefined \<or>
             member_of envelope ''parameters'' = JUndefined \<or> member_of envelope ''body'' = JUndefined
          then Inl (revision @ '' routed input array item must contain exactly '' @ key @
                 '', value, parameters, and body'')
          else if get_object envelope key \<noteq> JStr (inputRouteMarker prof)
          then Inl (revision @ '' routed input has invalid '' @ key @ '' marker '' @
                 json_text (get_object envelope key))
          else
            (case as_object (member_of envelope ''value'') of
               None \<Rightarrow> Inl (revision @ '' routed input value must be a JSON object'')
             | Some input \<Rightarrow> parse_routes revision envelope input))"

definition parseRoutedEnvelope ::
  "jsval \<Rightarrow> execution_profile \<Rightarrow> (string, routed_envelope option) res" where
  "parseRoutedEnvelope input prof =
     (case input of
        JArr [item] \<Rightarrow> res_map Some (parse_envelope prof item)
      | JArr _ \<Rightarrow> Inl (revision_label prof @ '' routed input must be an exact one-item array'')
      | _ \<Rightarrow> Inr None)"

section \<open>The identities of an envelope\<close>

definition check_parameter_route :: "string \<Rightarrow> string list \<Rightarrow> param_route \<Rightarrow> (string, unit) res" where
  "check_parameter_route revision known route =
     check (route_identity (pr_in route) (pr_name route) \<in> set known)
       (revision @ '' routed parameter '' @ json_quote (pr_name route) @ '' in '' @ json_quote (pr_in route) @
        '' does not identify an effective OpenAPI declaration'')"

definition check_body_route :: "string \<Rightarrow> string list \<Rightarrow> string \<Rightarrow> (string, unit) res" where
  "check_body_route revision known name =
     check (name \<in> set known)
       (revision @ '' routed body property '' @ json_quote name @
        '' does not identify a property in any admissible request-body candidate'')"

definition validateEnvelopeRoutes ::
  "jsval list \<Rightarrow> route_plan list \<Rightarrow> routed_envelope \<Rightarrow> execution_profile \<Rightarrow> (string, unit) res" where
  "validateEnvelopeRoutes params plans envelope prof =
     (let revision = revision_label prof;
          known = map (\<lambda>p. route_identity (p_in p) (p_name p)) (filter has_identity params);
          props = concat (map plan_props (filter (\<lambda>plan. \<not> whole_plan plan) plans)) in
      res_bind (each_res (\<lambda>route _. check_parameter_route revision known route) (re_parameters envelope) ())
        (\<lambda>_. res_bind (each_res (\<lambda>name _. check_body_route revision props name)
                        (member_keys (re_bodyFields envelope)) ())
          (\<lambda>_. check (re_wholeBodyField envelope = [] \<or> list_ex whole_plan plans)
                 (revision @ '' routed whole-body field does not identify any admissible whole-value request-body candidate''))))"

definition envelopeWillEmitBody :: "routed_envelope \<Rightarrow> jsval \<Rightarrow> bool" where
  "envelopeWillEmitBody envelope op \<longleftrightarrow>
     get_prop op ''requestBody'' \<notin> {JUndefined, JNull} \<and>
     (re_bodyPresent envelope \<or>
      list_ex (\<lambda>name. name \<notin> set (map pr_field (re_parameters envelope))) (member_keys (re_value envelope)))"

section \<open>The Encoding lane of a body property\<close>

definition encodingUsesSerialization :: "js_members option \<Rightarrow> bool" where
  "encodingUsesSerialization encoding \<longleftrightarrow>
     (case encoding of
        None \<Rightarrow> False
      | Some e \<Rightarrow> has_member e ''style'' \<or> has_member e ''explode'' \<or> has_member e ''allowReserved'')"

definition version_30 :: "string option \<Rightarrow> bool" where
  "version_30 v \<longleftrightarrow> (case v of None \<Rightarrow> False | Some t \<Rightarrow> prefix ''3.0'' t)"

definition encodingUsesSerializationForPlan :: "route_plan \<Rightarrow> js_members option \<Rightarrow> bool" where
  "encodingUsesSerializationForPlan plan encoding \<longleftrightarrow>
     encodingUsesSerialization encoding \<and>
     \<not> ((version_30 (rp_openapiVersion plan) \<or> rp_oas30 plan) \<and> rp_family plan = FAMILY_MULTIPART)"

definition property_encoding :: "route_plan \<Rightarrow> string \<Rightarrow> js_members option" where
  "property_encoding plan name =
     (case as_object (get_prop (rp_media plan) ''encoding'') of
        None \<Rightarrow> None
      | Some encodings \<Rightarrow> as_object (get_object encodings name))"

text \<open>
  The same as \<open>prepareStrictParameterStyleValue\<close> of \<open>params.ts\<close> but for the cookie style, which has an
  undefined cell there and none here.
\<close>

definition prepareBodyStyleValue ::
  "string \<Rightarrow> jsval \<Rightarrow> string \<Rightarrow> converter \<Rightarrow> (carriage_error, jsval) res" where
  "prepareBodyStyleValue name v style conv =
     (if isUndefinedStyleValue v then
        (if style \<in> set [''matrix'', ''label'', ''simple'', ''form''] then Inr JNull else Inl (UndefinedCell style))
      else
        res_bind (convertParameterScalars conv v False) (\<lambda>prepared.
          let delimiters = nonRFCStyleDelimiters style in
          if delimiters \<noteq> [] \<and>
             (containsAnyDelimiter name delimiters \<or> styleValueContainsDelimiter prepared delimiters)
          then Inl (StructuralDelimiter style)
          else if style = ''spaceDelimited'' \<or> style = ''pipeDelimited'' then
            (if as_array prepared = None \<and> as_object prepared = None then Inl (NeedsArrayOrObject style)
             else Inr prepared)
          else if style = ''deepObject'' \<and> as_object prepared = None then Inl NeedsObject
          else Inr prepared))"

text \<open>The \<open>codePointCompare\<close> of this module orders by UTF-16 code unit, unlike the one of \<open>util.ts\<close>.\<close>

definition delimited_body_sequence :: "jsval \<Rightarrow> string \<Rightarrow> jsval" where
  "delimited_body_sequence v style =
     (case as_object v of
        None \<Rightarrow> v
      | Some ms \<Rightarrow>
          if style \<noteq> ''spaceDelimited'' \<and> style \<noteq> ''pipeDelimited'' then v
          else JArr (concat (map (\<lambda>name. [JStr name, member_of ms name]) (js_sort (member_keys ms)))))"

definition prepareEncodingStylePropertyValue ::
  "route_plan \<Rightarrow> string \<Rightarrow> jsval \<Rightarrow> converter \<Rightarrow> (carriage_error, jsval) res" where
  "prepareEncodingStylePropertyValue plan name v conv =
     (case property_encoding plan name of
        None \<Rightarrow> Inr v
      | Some encoding \<Rightarrow>
          if \<not> encodingUsesSerializationForPlan plan (Some encoding) then Inr v
          else
            (let style = (if str_or (member_of encoding ''style'') [] = [] then ''form''
                          else str_or (member_of encoding ''style'') []) in
             res_map (\<lambda>prepared. delimited_body_sequence prepared style)
               (prepareBodyStyleValue name v style conv)))"

text \<open>For 3.0 schemas \<open>patternProperties\<close> is not read, so no regular-expression engine is needed.\<close>

definition contentFormNullIsElided :: "route_plan \<Rightarrow> string \<Rightarrow> jsval \<Rightarrow> bool \<Rightarrow> bool" where
  "contentFormNullIsElided plan name v oas30 \<longleftrightarrow>
     v = JNull \<and> as_object (rp_media plan) \<noteq> None \<and> oas30 \<and>
     \<not> encodingUsesSerializationForPlan plan (property_encoding plan name) \<and>
     (let root = resolveDeclaration (get_prop (rp_media plan) ''schema'') True in
      \<not> requiresProperty root name \<and> admitsNull (decl_property (\<lambda>_ _. None) root name))"

section \<open>Routing an envelope\<close>

datatype envelope_error =
    ParameterRoute carriage_error
  | BodyRoute carriage_error
  | NoDestination "string list"

definition mapped_value :: "routed_envelope \<Rightarrow> jsval \<Rightarrow> (string \<times> jsval) option" where
  "mapped_value envelope p =
     (case find_route (re_parameters envelope) (p_in p) (p_name p) of
        None \<Rightarrow> None
      | Some route \<Rightarrow>
          if in_object (pr_field route) (re_value envelope)
          then Some (pr_field route, get_object (re_value envelope) (pr_field route))
          else None)"

definition envelope_parameter ::
  "json_stringify \<Rightarrow> form_body_encoder \<Rightarrow> execution_profile \<Rightarrow> route_options \<Rightarrow> routed_envelope \<Rightarrow> jsval \<Rightarrow>
     route_state \<Rightarrow> (carriage_error, route_state) res" where
  "envelope_parameter sj form_body prof opts envelope p st =
     (if \<not> has_identity p then Inr st
      else
        (case mapped_value envelope p of
           None \<Rightarrow>
             Inr (if p_in p = ''path'' then st \<lparr> rs_missingPath := rs_missingPath st @ [p_name p] \<rparr>
                  else if p_required p
                  then st \<lparr> rs_missingRequired := rs_missingRequired st @ [p_in p @ ''/'' @ p_name p] \<rparr>
                  else st)
         | Some (field, v) \<Rightarrow>
             res_bind (prepareSchemaParameterValue sj (Some p) v (ro_converter opts) (ro_openapi32 opts))
               (\<lambda>(prepared, _).
                 res_map (\<lambda>r. st \<lparr> rs_routed := r, rs_consumed := List.insert field (rs_consumed st) \<rparr>)
                   (routeParameter sj form_body prof opts p prepared (rs_routed st)))))"

definition envelope_body_property ::
  "converter \<Rightarrow> bool \<Rightarrow> routed_envelope \<Rightarrow> route_plan \<Rightarrow> string \<Rightarrow>
     routed_input \<times> string list \<Rightarrow> (carriage_error, routed_input \<times> string list) res" where
  "envelope_body_property conv oas30 envelope plan name st =
     (let (r, consumed) = st; field = str_or (member_of (re_bodyFields envelope) name) [] in
      if \<not> in_object field (re_value envelope) \<or> name \<notin> set (plan_props plan) then Inr (r, consumed)
      else
        let v = get_object (re_value envelope) field in
        if contentFormNullIsElided plan name v oas30 then Inr (r, List.insert field consumed)
        else
          res_map (\<lambda>prepared. (r \<lparr> bodyFields := assign_member name prepared (bodyFields r) \<rparr>,
                               List.insert field consumed))
            (prepareEncodingStylePropertyValue plan name v conv))"

definition envelope_body ::
  "converter \<Rightarrow> bool \<Rightarrow> routed_envelope \<Rightarrow> route_plan option \<Rightarrow>
     routed_input \<times> string list \<Rightarrow> (carriage_error, routed_input \<times> string list) res" where
  "envelope_body conv oas30 envelope plan st =
     (case plan of
        None \<Rightarrow> Inr st
      | Some bp \<Rightarrow>
          if \<not> bp_declared bp then Inr st
          else if whole_plan bp then
            (let (r, consumed) = st; field = re_wholeBodyField envelope in
             Inr (if field \<noteq> [] \<and> in_object field (re_value envelope)
                  then (r \<lparr> bodyValue := get_object (re_value envelope) field, bodySet := True \<rparr>,
                        List.insert field consumed)
                  else (r, consumed)))
          else
            each_res (envelope_body_property conv oas30 envelope bp)
              (code_point_sort (member_keys (re_bodyFields envelope))) st)"

definition envelope_rest ::
  "route_plan option \<Rightarrow> js_members \<Rightarrow> string list \<Rightarrow> string \<Rightarrow> routed_input \<times> string list \<Rightarrow>
     routed_input \<times> string list" where
  "envelope_rest plan input consumed name st =
     (let (r, unmatched) = st in
      if name \<in> set consumed then (r, unmatched)
      else if (case plan of None \<Rightarrow> False | Some bp \<Rightarrow> planAllowsObjectPassthrough bp)
      then (r \<lparr> bodyFields := assign_member name (member_of input name) (bodyFields r) \<rparr>, unmatched)
      else (r, unmatched @ [name]))"

definition routeEnvelope ::
  "json_stringify \<Rightarrow> form_body_encoder \<Rightarrow> jsval list \<Rightarrow> routed_envelope \<Rightarrow> string \<Rightarrow> route_plan option \<Rightarrow>
     execution_profile \<Rightarrow> route_options \<Rightarrow> bool \<Rightarrow> (envelope_error, routed_input) res" where
  "routeEnvelope sj form_body params envelope pathTemplate plan prof opts oas30 =
     res_bind (res_err ParameterRoute (each_res (envelope_parameter sj form_body prof opts envelope) params
         \<lparr> rs_routed = (empty_route pathTemplate) \<lparr> bodySet := re_bodyPresent envelope \<rparr>, rs_consumed = [],
           rs_missingPath = [], rs_missingRequired = [] \<rparr>))
       (\<lambda>st.
         if rs_missingPath st \<noteq> [] then Inl (ParameterRoute (MissingPathParam (code_point_sort (rs_missingPath st))))
         else if rs_missingRequired st \<noteq> []
         then Inl (ParameterRoute (MissingRequired (code_point_sort (rs_missingRequired st))))
         else
           res_bind (res_err BodyRoute
               (envelope_body (ro_converter opts) oas30 envelope plan (rs_routed st, rs_consumed st)))
             (\<lambda>(r, consumed).
               let (r', unmatched) =
                 fold (envelope_rest plan (re_value envelope) consumed)
                   (code_point_sort (member_keys (re_value envelope))) (r, [])
               in if unmatched = [] then Inr r' else Inl (NoDestination unmatched)))"

section \<open>Assigned fields\<close>

lemma slot_field_fresh: "slot_field reserved used base \<notin> set used"
  using unique_from_correct [of 2 base "used @ reserved"] by (auto simp: slot_field_def)

lemma slot_field_cases: "slot_field reserved used base = base \<or> slot_field reserved used base \<notin> set reserved"
  using unique_from_correct [of 2 base "used @ reserved"] by (auto simp: slot_field_def)

lemma assign_fields_length [simp]: "length (assign_fields reserved used bases) = length bases"
  by (induction bases arbitrary: used) (simp_all add: Let_def)

lemma assign_fields_distinct:
  "distinct (assign_fields reserved used bases) \<and> set (assign_fields reserved used bases) \<inter> set used = {}"
proof (induction bases arbitrary: used)
  case (Cons b bases)
  let ?f = "slot_field reserved used b"
  from Cons.IH [of "?f # used"] slot_field_fresh [of reserved used b] show ?case
    by (auto simp: Let_def)
qed simp

text \<open>
  A generated field is no authored base, and a base that no earlier slot has is its own field:
  \<open>taken\<close> are the bases the used fields stand for.
\<close>

lemma assign_fields_names:
  assumes "\<forall>f\<in>set used. f \<in> set taken \<or> f \<notin> set reserved" and "set bases \<subseteq> set reserved"
    and "i < length bases"
  shows "(assign_fields reserved used bases ! i = bases ! i \<or> assign_fields reserved used bases ! i \<notin> set reserved) \<and>
    (bases ! i \<notin> set taken \<longrightarrow> bases ! i \<notin> set (take i bases) \<longrightarrow>
      assign_fields reserved used bases ! i = bases ! i)"
  using assms
proof (induction bases arbitrary: used taken i)
  case (Cons b bases)
  let ?f = "slot_field reserved used b"
  have step: "\<forall>f\<in>set (?f # used). f \<in> set (b # taken) \<or> f \<notin> set reserved"
    using Cons.prems(1) slot_field_cases [of reserved used b] by auto
  show ?case
  proof (cases i)
    case 0
    have "b \<notin> set taken \<Longrightarrow> ?f = b"
      using Cons.prems(1,2) by (auto simp: slot_field_def)
    with 0 slot_field_cases [of reserved used b] show ?thesis by (simp add: Let_def)
  next
    case (Suc j)
    with Cons.IH [OF step, of j] Cons.prems(2,3) show ?thesis by (auto simp: Let_def)
  qed
qed simp

lemma planned_slots_fst: "map fst (planned_slots params plans) = input_slots params plans"
  by (simp add: planned_slots_def Let_def)

lemma planned_slots_snd:
  "map snd (planned_slots params plans) =
     assign_fields (map sl_base (input_slots params plans)) [] (map sl_base (input_slots params plans))"
  by (simp add: planned_slots_def Let_def)

text \<open>
  C24.  Every destination of an operation gets a field of its own: no two declarations share one, a
  generated field never takes a name that some declaration was authored with, and a declaration whose
  name no earlier one has keeps it.
\<close>

theorem planned_fields_are_distinct:
  "distinct (map snd (planned_slots params plans)) \<and>
   (\<forall>i<length (planned_slots params plans).
      (let (slot, field) = planned_slots params plans ! i; bases = map sl_base (input_slots params plans) in
       (field = sl_base slot \<or> field \<notin> set bases) \<and>
       (sl_base slot \<notin> set (take i bases) \<longrightarrow> field = sl_base slot)))"
proof -
  let ?bases = "map sl_base (input_slots params plans)"
  have "distinct (map snd (planned_slots params plans))"
    using assign_fields_distinct [of ?bases "[]" ?bases] by (simp add: planned_slots_snd)
  moreover have "(let (slot, field) = planned_slots params plans ! i in
       (field = sl_base slot \<or> field \<notin> set ?bases) \<and>
       (sl_base slot \<notin> set (take i ?bases) \<longrightarrow> field = sl_base slot))"
    if "i < length (planned_slots params plans)" for i
    using that assign_fields_names [of "[]" "[]" ?bases ?bases i]
    by (simp add: planned_slots_def Let_def)
  ultimately show ?thesis by (simp add: Let_def)
qed

section \<open>The envelope of a plan\<close>

text \<open>The routes and body mappings among planned slots.\<close>

definition slot_routes :: "(input_slot \<times> string) list \<Rightarrow> param_route list" where
  "slot_routes sfs =
     map (\<lambda>(s, f). \<lparr> pr_in = sl_in s, pr_name = sl_name s, pr_field = f \<rparr>)
       (filter (\<lambda>(s, f). sl_kind s = ParameterSlot) sfs)"

definition slot_bodies :: "(input_slot \<times> string) list \<Rightarrow> (string \<times> string) list" where
  "slot_bodies sfs = map (\<lambda>(s, f). (sl_name s, f)) (filter (\<lambda>(s, f). sl_kind s = BodySlot) sfs)"

definition assign_body :: "string \<times> string \<Rightarrow> js_members \<Rightarrow> js_members" where
  "assign_body m ms = assign_member (fst m) (JStr (snd m)) ms"

lemma fold_slot_step:
  "ar_parameters (fold slot_step sfs r) = ar_parameters r @ slot_routes sfs"
  "ar_bodyFields (fold slot_step sfs r) = fold assign_body (slot_bodies sfs) (ar_bodyFields r)"
  by (induction sfs arbitrary: r)
    (auto simp: slot_step_def slot_routes_def slot_bodies_def assign_body_def split: slot_kind.splits)

lemma fold_slot_step_whole:
  "ar_wholeBodyField (fold slot_step sfs r) \<in>
     insert (ar_wholeBodyField r) (snd ` {sf \<in> set sfs. sl_kind (fst sf) = WholeBodySlot})"
proof (induction sfs arbitrary: r)
  case (Cons sf sfs)
  obtain s f where sf: "sf = (s, f)" by (cases sf)
  have "ar_wholeBodyField (slot_step sf r) \<in> insert (ar_wholeBodyField r) (if sl_kind s = WholeBodySlot then {f} else {})"
    by (simp add: sf slot_step_def split: slot_kind.splits)
  with Cons.IH [of "slot_step sf r"] show ?case by (auto simp: sf image_iff split: if_splits)
qed simp

lemma set_insert_member: "set (insert_member k v ms) = insert (k, v) (set ms)"
  by (induction k v ms rule: insert_member.induct) auto

lemma fold_assign_body:
  assumes "distinct (map fst bs)" and "distinct (map fst ms)" and "fst ` set bs \<inter> fst ` set ms = {}"
  shows "distinct (map fst (fold assign_body bs ms)) \<and>
    set (fold assign_body bs ms) = set ms \<union> {(n, JStr f) | n f. (n, f) \<in> set bs \<and> n \<noteq> ''__proto__''}"
  using assms
proof (induction bs arbitrary: ms)
  case (Cons b bs)
  obtain n f where b: "b = (n, f)" by (cases b)
  show ?case
  proof (cases "n = ''__proto__''")
    case True
    with Cons.prems b have "assign_body b ms = ms"
      by (auto simp: assign_body_def assign_member_def has_member_def)
    with Cons.IH [of ms] Cons.prems True b show ?thesis by auto
  next
    case False
    have new: "\<not> has_member ms n" using Cons.prems(3) b by (auto simp: has_member_def)
    with False b have a: "assign_body b ms = insert_member n (JStr f) ms"
      by (simp add: assign_body_def assign_member_def define_member_def)
    have "distinct (map fst (insert_member n (JStr f) ms))"
      using new Cons.prems(2) by (rule distinct_insert_member)
    moreover have "fst ` set bs \<inter> fst ` set (insert_member n (JStr f) ms) = {}"
      using Cons.prems(1,3) b by (auto simp: set_insert_member)
    ultimately show ?thesis
      using Cons.IH [of "insert_member n (JStr f) ms"] Cons.prems(1) False b a
      by (auto simp: set_insert_member)
  qed
qed simp

lemma parse_parameter_entries:
  assumes "\<forall>r\<in>set rs. pr_in r \<noteq> [] \<and> pr_name r \<noteq> [] \<and> pr_field r \<noteq> []"
    and "distinct (map (\<lambda>r. route_identity (pr_in r) (pr_name r)) rs)" and "distinct (map pr_field rs)"
    and "(\<lambda>r. route_identity (pr_in r) (pr_name r)) ` set rs \<inter> set (es_seen st) = {}"
    and "pr_field ` set rs \<inter> set (es_fields st) = {}"
  shows "\<exists>seen. each_res (parse_parameter_entry revision) (map route_object rs) st =
    Inr \<lparr> es_parameters = es_parameters st @ rs, es_seen = seen,
          es_fields = rev (map pr_field rs) @ es_fields st \<rparr>"
  using assms
proof (induction rs arbitrary: st)
  case Nil
  then show ?case by (intro exI [of _ "es_seen st"]) simp
next
  case (Cons r rs)
  let ?st = "\<lparr> es_parameters = es_parameters st @ [r], es_seen = route_identity (pr_in r) (pr_name r) # es_seen st,
    es_fields = pr_field r # es_fields st \<rparr>"
  have "parse_parameter_entry revision (route_object r) st = Inr ?st"
    using Cons.prems
    by (auto simp: parse_parameter_entry_def route_object_def fld_def str_or_def member_of_def Let_def)
  moreover from Cons.IH [of ?st] Cons.prems
  obtain seen where "each_res (parse_parameter_entry revision) (map route_object rs) ?st =
    Inr \<lparr> es_parameters = es_parameters ?st @ rs, es_seen = seen,
          es_fields = rev (map pr_field rs) @ es_fields ?st \<rparr>" by auto
  ultimately show ?case by auto
qed

lemma parse_body_entries:
  assumes "\<forall>(n, v)\<in>set ms. n \<noteq> [] \<and> (\<exists>f. v = JStr f \<and> f \<noteq> [])"
    and "distinct (map (\<lambda>m. str_or (snd m) []) ms)"
    and "(\<lambda>m. str_or (snd m) []) ` set ms \<inter> set seen = {}"
  shows "each_res (parse_body_property revision) ms (mapped, seen) =
    Inr (fold (\<lambda>(n, v). assign_member n v) ms mapped, rev (map (\<lambda>m. str_or (snd m) []) ms) @ seen)"
  using assms
proof (induction ms arbitrary: mapped seen)
  case (Cons m ms)
  obtain n f where m: "m = (n, JStr f)" "n \<noteq> []" "f \<noteq> []" using Cons.prems(1) by (cases m) auto
  have "parse_body_property revision m (mapped, seen) = Inr (assign_member n (JStr f) mapped, f # seen)"
    using Cons.prems(3) m by (auto simp: parse_body_property_def str_or_def)
  with Cons.IH [of "f # seen" "assign_member n (JStr f) mapped"] Cons.prems m show ?case
    by (auto simp: str_or_def)
qed simp

lemma map_of_assign_all:
  "distinct (map fst ms) \<Longrightarrow> ''__proto__'' \<notin> fst ` set ms \<Longrightarrow>
     map_of (fold (\<lambda>(n, v). assign_member n v) ms acc) = map_of acc ++ map_of ms"
proof (induction ms arbitrary: acc)
  case (Cons m ms)
  obtain n v where m: "m = (n, v)" by (cases m)
  from Cons.prems m have n: "n \<noteq> ''__proto__''" "map_of ms n = None"
    by (auto simp: map_of_eq_None_iff)
  have "fold (\<lambda>(n, v). assign_member n v) (m # ms) acc =
      fold (\<lambda>(n, v). assign_member n v) ms (assign_member n v acc)"
    by (simp add: m)
  with Cons.IH [of "assign_member n v acc"] Cons.prems m n
  have "map_of (fold (\<lambda>(n, v). assign_member n v) (m # ms) acc) = (map_of acc)(n \<mapsto> v) ++ map_of ms"
    by (simp add: map_of_assign_member fun_upd_def)
  also have "\<dots> = map_of acc ++ map_of (m # ms)"
    using n(2) by (auto simp: m map_add_def fun_eq_iff split: option.splits)
  finally show ?case .
qed simp

text \<open>What the slots of an operation look like, by kind.\<close>

lemma planned_slot_member:
  "(s, f) \<in> set (planned_slots params plans) \<Longrightarrow> s \<in> set (input_slots params plans)"
  using planned_slots_fst [of params plans] by (metis image_eqI list.set_map fst_conv)

lemma slot_shape:
  assumes "s \<in> set (input_slots params plans)"
  shows "(sl_kind s = ParameterSlot \<longrightarrow> (\<exists>p\<in>set params. p_name p \<noteq> [] \<and> sl_in s = p_in p \<and> sl_name s = p_name p \<and> sl_base s = p_name p))"
    and "(sl_kind s = BodySlot \<longrightarrow> sl_base s = sl_name s \<and>
       (\<exists>plan\<in>set plans. \<not> whole_plan plan \<and> sl_name s \<in> set (plan_props plan)))"
    and "(sl_kind s = WholeBodySlot \<longrightarrow> sl_base s \<noteq> [] \<and> list_ex whole_plan plans)"
  using assms
  by (auto simp: input_slots_def parameter_slots_def body_slots_def whole_slots_def body_names_def list_ex_iff
      split: if_splits)

lemma slot_names_distinct:
  "distinct (map sl_name (filter (\<lambda>s. sl_kind s = BodySlot) (input_slots params plans)))"
proof -
  have "filter (\<lambda>s. sl_kind s = BodySlot) (input_slots params plans) = body_slots plans"
    by (auto simp: input_slots_def parameter_slots_def body_slots_def whole_slots_def filter_empty_conv)
  then show ?thesis
    by (simp add: body_slots_def body_names_def comp_def code_point_sort_def)
qed

lemma slot_routes_input:
  "map (\<lambda>r. (pr_in r, pr_name r)) (slot_routes (planned_slots params plans)) =
     map (\<lambda>p. (p_in p, p_name p)) (filter (\<lambda>p. p_name p \<noteq> []) params)"
proof -
  have "map (\<lambda>r. (pr_in r, pr_name r)) (slot_routes sfs) =
      map (\<lambda>s. (sl_in s, sl_name s)) (filter (\<lambda>s. sl_kind s = ParameterSlot) (map fst sfs))" for sfs
    by (induction sfs) (auto simp: slot_routes_def)
  moreover have "filter (\<lambda>s. sl_kind s = ParameterSlot) (input_slots params plans) = parameter_slots params"
    by (auto simp: input_slots_def parameter_slots_def body_slots_def whole_slots_def filter_empty_conv)
  ultimately show ?thesis by (simp add: planned_slots_fst parameter_slots_def comp_def)
qed

lemma slot_bodies_names: "distinct (map fst (slot_bodies (planned_slots params plans)))"
proof -
  have "map fst (slot_bodies sfs) = map sl_name (filter (\<lambda>s. sl_kind s = BodySlot) (map fst sfs))" for sfs
    by (induction sfs) (auto simp: slot_bodies_def)
  then show ?thesis by (simp add: planned_slots_fst slot_names_distinct)
qed

lemma candidate_nonempty [simp]: "candidate key j \<noteq> []" "[] \<noteq> candidate key j"
  by (simp_all add: candidate_def)

lemma slot_field_nonempty: "base \<noteq> [] \<Longrightarrow> slot_field reserved used base \<noteq> []"
  using unique_from_correct [of 2 base "used @ reserved"] by (auto simp: slot_field_def)

lemma assign_fields_nonempty: "[] \<notin> set bases \<Longrightarrow> [] \<notin> set (assign_fields reserved used bases)"
proof (induction bases arbitrary: used)
  case (Cons b bases)
  then show ?case using slot_field_nonempty [of b reserved used] by (auto simp: Let_def)
qed simp

lemma planned_fields_nonempty:
  assumes "\<forall>plan\<in>set plans. [] \<notin> set (plan_props plan)" and "(s, f) \<in> set (planned_slots params plans)"
  shows "f \<noteq> []"
proof -
  have "sl_base t \<noteq> []" if "t \<in> set (input_slots params plans)" for t
    using slot_shape [OF that] assms(1) by (cases "sl_kind t") auto
  then have "[] \<notin> set (map snd (planned_slots params plans))"
    unfolding planned_slots_snd by (intro assign_fields_nonempty) force
  with assms(2) show ?thesis by force
qed

lemma planned_fields_inject:
  "(s, f) \<in> set (planned_slots params plans) \<Longrightarrow> (t, f) \<in> set (planned_slots params plans) \<Longrightarrow> s = t"
  using assign_fields_distinct planned_slots_snd [of params plans]
  by (metis eq_key_imp_eq_value distinct_map inj_on_def prod.inject snd_conv)

lemma distinct_slot_routes: "distinct (map snd sfs) \<Longrightarrow> distinct (map pr_field (slot_routes sfs))"
  by (induction sfs) (auto simp: slot_routes_def image_iff)

text \<open>The parts of a plan.\<close>

lemma plan_parts:
  "ar_parameters (planAbstractInputRoutes params plans) = slot_routes (planned_slots params plans)"
  "ar_bodyFields (planAbstractInputRoutes params plans) = fold assign_body (slot_bodies (planned_slots params plans)) []"
  "ar_wholeBodyField (planAbstractInputRoutes params plans) \<in>
     insert [] (snd ` {sf \<in> set (planned_slots params plans). sl_kind (fst sf) = WholeBodySlot})"
  using fold_slot_step_whole [of "planned_slots params plans"
    "\<lparr> ar_parameters = [], ar_bodyFields = [], ar_wholeBodyField = [],
       ar_openBody = list_ex planAllowsObjectPassthrough plans, ar_bodyRequired = list_ex rp_required plans,
       ar_needsTransform = (input_slots params plans \<noteq> [] \<or> list_ex planAllowsObjectPassthrough plans \<or>
         list_ex rp_required plans) \<rparr>"]
  by (simp_all add: planAbstractInputRoutes_def Let_def fold_slot_step)

lemma body_field_origin:
  assumes "(n, v) \<in> set (ar_bodyFields (planAbstractInputRoutes params plans))"
  obtains s f where "(s, f) \<in> set (planned_slots params plans)" "sl_kind s = BodySlot" "sl_name s = n"
    "v = JStr f" "n \<noteq> ''__proto__''"
  using assms fold_assign_body [OF slot_bodies_names, of "[]" params plans]
  by (auto simp: plan_parts slot_bodies_def)

lemma body_fields_distinct:
  "distinct (map fst (ar_bodyFields (planAbstractInputRoutes params plans)))"
  using fold_assign_body [OF slot_bodies_names, of "[]" params plans] by (simp add: plan_parts)

lemma route_origin:
  assumes "r \<in> set (ar_parameters (planAbstractInputRoutes params plans))"
  obtains s where "(s, pr_field r) \<in> set (planned_slots params plans)" "sl_kind s = ParameterSlot"
    "sl_in s = pr_in r" "sl_name s = pr_name r"
  using assms by (auto simp: plan_parts slot_routes_def)

text \<open>A planned destination is one the parser accepts.\<close>

definition plannable :: "jsval list \<Rightarrow> route_plan list \<Rightarrow> bool" where
  "plannable params plans \<longleftrightarrow>
     list_all (\<lambda>p. p_name p = [] \<or> p_in p \<noteq> []) params \<and>
     distinct (map (\<lambda>p. route_identity (p_in p) (p_name p)) (filter (\<lambda>p. p_name p \<noteq> []) params)) \<and>
     list_all (\<lambda>plan. [] \<notin> set (plan_props plan)) plans"

lemma plannable_field:
  "plannable params plans \<Longrightarrow> (s, f) \<in> set (planned_slots params plans) \<Longrightarrow> f \<noteq> []"
  by (rule planned_fields_nonempty) (auto simp: plannable_def list_all_iff)

lemma plannable_route:
  assumes "plannable params plans" and "r \<in> set (ar_parameters (planAbstractInputRoutes params plans))"
  shows "pr_in r \<noteq> [] \<and> pr_name r \<noteq> [] \<and> pr_field r \<noteq> [] \<and>
    (\<exists>p\<in>set params. has_identity p \<and> p_in p = pr_in r \<and> p_name p = pr_name r)"
proof -
  obtain s where s: "(s, pr_field r) \<in> set (planned_slots params plans)" "sl_kind s = ParameterSlot"
    "sl_in s = pr_in r" "sl_name s = pr_name r" using assms(2) by (rule route_origin)
  from slot_shape(1) [OF planned_slot_member [OF s(1)]] s(2-4) obtain p where
    p: "p \<in> set params" "p_name p \<noteq> []" "p_in p = pr_in r" "p_name p = pr_name r" by auto
  moreover from p assms(1) have "p_in p \<noteq> []" by (auto simp: plannable_def list_all_iff)
  ultimately have "has_identity p" by (simp add: has_identity_def)
  with p \<open>p_in p \<noteq> []\<close> plannable_field [OF assms(1) s(1)] show ?thesis by metis
qed

lemma plan_identities:
  assumes "plannable params plans"
  shows "distinct (map (\<lambda>r. route_identity (pr_in r) (pr_name r)) (ar_parameters (planAbstractInputRoutes params plans)))"
proof -
  have "map (\<lambda>r. route_identity (pr_in r) (pr_name r)) (slot_routes (planned_slots params plans)) =
      map (case_prod route_identity) (map (\<lambda>r. (pr_in r, pr_name r)) (slot_routes (planned_slots params plans)))"
    by simp
  also have "\<dots> = map (\<lambda>p. route_identity (p_in p) (p_name p)) (filter (\<lambda>p. p_name p \<noteq> []) params)"
    by (simp only: slot_routes_input) simp
  finally show ?thesis using assms by (simp add: plan_parts plannable_def)
qed

lemma plan_route_fields: "distinct (map pr_field (ar_parameters (planAbstractInputRoutes params plans)))"
  unfolding plan_parts
  by (rule distinct_slot_routes) (use assign_fields_distinct in \<open>simp add: planned_slots_snd\<close>)

lemma plan_body_entry:
  assumes "plannable params plans" and "m \<in> set (ar_bodyFields (planAbstractInputRoutes params plans))"
  obtains s f where "m = (sl_name s, JStr f)" "(s, f) \<in> set (planned_slots params plans)" "sl_kind s = BodySlot"
    "sl_name s \<noteq> []" "f \<noteq> []" "sl_name s \<noteq> ''__proto__''"
    "\<exists>plan\<in>set plans. \<not> whole_plan plan \<and> sl_name s \<in> set (plan_props plan)"
proof -
  obtain n v where m: "m = (n, v)" by (cases m)
  from assms(2) [unfolded m] obtain s f where s: "(s, f) \<in> set (planned_slots params plans)" "sl_kind s = BodySlot"
    "sl_name s = n" "v = JStr f" "n \<noteq> ''__proto__''" by (rule body_field_origin)
  from slot_shape(2) [OF planned_slot_member [OF s(1)]] s(2) have
    p: "\<exists>plan\<in>set plans. \<not> whole_plan plan \<and> sl_name s \<in> set (plan_props plan)" by simp
  with assms(1) have "sl_name s \<noteq> []" by (auto simp: plannable_def list_all_iff)
  with m s p plannable_field [OF assms(1) s(1)] show ?thesis by (intro that [of s f]) simp_all
qed

lemma plan_body_values:
  assumes "plannable params plans"
  shows "distinct (map (\<lambda>m. str_or (snd m) []) (ar_bodyFields (planAbstractInputRoutes params plans)))"
proof -
  let ?ms = "ar_bodyFields (planAbstractInputRoutes params plans)"
  have "inj_on (\<lambda>m. str_or (snd m) []) (set ?ms)"
  proof (rule inj_onI)
    fix m m' assume m: "m \<in> set ?ms" and m': "m' \<in> set ?ms" and e: "str_or (snd m) [] = str_or (snd m') []"
    obtain s f where s: "m = (sl_name s, JStr f)" "(s, f) \<in> set (planned_slots params plans)"
      using plan_body_entry [OF assms m] by metis
    obtain t g where t: "m' = (sl_name t, JStr g)" "(t, g) \<in> set (planned_slots params plans)"
      using plan_body_entry [OF assms m'] by metis
    from e s(1) t(1) have "f = g" by (simp add: str_or_def)
    with s t planned_fields_inject show "m = m'" by blast
  qed
  with body_fields_distinct [of params plans] show ?thesis by (simp add: distinct_map)
qed

lemma plan_fields_apart:
  assumes "plannable params plans"
  shows "pr_field ` set (ar_parameters (planAbstractInputRoutes params plans)) \<inter>
      (\<lambda>m. str_or (snd m) []) ` set (ar_bodyFields (planAbstractInputRoutes params plans)) = {}" (is ?A)
    and "ar_wholeBodyField (planAbstractInputRoutes params plans) \<notin>
      pr_field ` set (ar_parameters (planAbstractInputRoutes params plans)) \<union>
      (\<lambda>m. str_or (snd m) []) ` set (ar_bodyFields (planAbstractInputRoutes params plans))" (is ?B)
    and "ar_wholeBodyField (planAbstractInputRoutes params plans) = [] \<or> list_ex whole_plan plans" (is ?C)
proof -
  let ?r = "planAbstractInputRoutes params plans" and ?S = "set (planned_slots params plans)"
  have P: "\<exists>s. (s, pr_field r) \<in> ?S \<and> sl_kind s = ParameterSlot" if "r \<in> set (ar_parameters ?r)" for r
    using route_origin [OF that] by metis
  have B: "\<exists>s. (s, str_or (snd m) []) \<in> ?S \<and> sl_kind s = BodySlot" if "m \<in> set (ar_bodyFields ?r)" for m
    using plan_body_entry [OF assms that] by (metis as_str.simps(1) option.simps(5) snd_conv str_or_def)
  show ?A using P B planned_fields_inject by (fastforce dest!: P B)
  have W: "ar_wholeBodyField ?r = [] \<or> (\<exists>s. (s, ar_wholeBodyField ?r) \<in> ?S \<and> sl_kind s = WholeBodySlot)"
    using plan_parts(3) [of params plans] by force
  show ?B using W P B planned_fields_inject plannable_field [OF assms] by (fastforce dest!: P B)
  show ?C using W slot_shape(3) planned_slot_member by blast
qed

lemma stringify_planned_envelope:
  "\<exists>pre post. transformExpression r prof = pre @ ''$'' @ post \<and>
     JSON_stringify (route_envelope r prof input) = Some (pre @ json_text (JObj input) @ post)"
  by (rule exI [of _ "''[{'' @ json_quote (inputRouteKey prof) @ '':'' @ json_quote (inputRouteMarker prof) @
        '','' @ json_quote ''value'' @ '':''"],
      rule exI [of _ "'','' @ json_quote ''parameters'' @ '':'' @ json_text (JArr (map route_object (ar_parameters r))) @
        '','' @ json_quote ''body'' @ '':'' @ json_text (JObj (body_descriptor r)) @ ''}]''"])
    (simp add: transformExpression_def route_envelope_def json_text_def)

lemma parse_planned_bodies:
  assumes "plannable params plans" and "r = planAbstractInputRoutes params plans"
    and "set seen = pr_field ` set (ar_parameters r)"
  shows "parse_body_properties revision (member_of (body_descriptor r) ''properties'') seen =
    Inr (fold (\<lambda>(n, v). assign_member n v) (ar_bodyFields r) [],
         rev (map (\<lambda>m. str_or (snd m) []) (ar_bodyFields r)) @ seen)"
proof -
  have "case m of (n, v) \<Rightarrow> n \<noteq> [] \<and> (\<exists>f. v = JStr f \<and> f \<noteq> [])" if "m \<in> set (ar_bodyFields r)" for m
    by (rule plan_body_entry [OF assms(1) that [unfolded assms(2)]]) simp
  then have entries: "\<forall>(n, v)\<in>set (ar_bodyFields r). n \<noteq> [] \<and> (\<exists>f. v = JStr f \<and> f \<noteq> [])" by fast
  moreover have "distinct (map (\<lambda>m. str_or (snd m) []) (ar_bodyFields r))"
    using plan_body_values [OF assms(1)] assms(2) by simp
  moreover have "(\<lambda>m. str_or (snd m) []) ` set (ar_bodyFields r) \<inter> set seen = {}"
    using plan_fields_apart(1) [OF assms(1)] assms(2,3) by blast
  ultimately have "each_res (parse_body_property revision) (ar_bodyFields r) ([], seen) =
    Inr (fold (\<lambda>(n, v). assign_member n v) (ar_bodyFields r) [],
         rev (map (\<lambda>m. str_or (snd m) []) (ar_bodyFields r)) @ seen)"
    by (rule parse_body_entries)
  then show ?thesis
    by (auto simp: parse_body_properties_def body_descriptor_def member_of_def)
qed

lemma parse_planned_envelope:
  assumes "plannable params plans" and "inputRouteKey prof \<notin> {''value'', ''parameters'', ''body''}"
    and r: "r = planAbstractInputRoutes params plans"
  shows "parseRoutedEnvelope (route_envelope r prof input) prof =
    Inr (Some \<lparr> re_value = input, re_parameters = ar_parameters r,
      re_bodyFields = fold (\<lambda>(n, v). assign_member n v) (ar_bodyFields r) [],
      re_wholeBodyField = ar_wholeBodyField r, re_bodyPresent = False \<rparr>)"
proof -
  let ?rev = "revision_label prof" and ?st = "\<lparr> es_parameters = [], es_seen = [], es_fields = [] \<rparr>"
  have routes: "\<forall>q\<in>set (ar_parameters r). pr_in q \<noteq> [] \<and> pr_name q \<noteq> [] \<and> pr_field q \<noteq> []"
    using plannable_route [OF assms(1)] r by blast
  obtain seen where ps: "each_res (parse_parameter_entry ?rev) (map route_object (ar_parameters r)) ?st =
      Inr \<lparr> es_parameters = ar_parameters r, es_seen = seen, es_fields = rev (map pr_field (ar_parameters r)) \<rparr>"
    using parse_parameter_entries [OF routes, of ?st ?rev] plan_identities [OF assms(1)] plan_route_fields r by auto
  have bs: "parse_body_properties ?rev (member_of (body_descriptor r) ''properties'') (rev (map pr_field (ar_parameters r))) =
    Inr (fold (\<lambda>(n, v). assign_member n v) (ar_bodyFields r) [],
         rev (map (\<lambda>m. str_or (snd m) []) (ar_bodyFields r)) @ rev (map pr_field (ar_parameters r)))"
    by (rule parse_planned_bodies [OF assms(1) r]) simp
  have whole: "parse_whole_field ?rev (member_of (body_descriptor r) ''whole'')
      (rev (map (\<lambda>m. str_or (snd m) []) (ar_bodyFields r)) @ rev (map pr_field (ar_parameters r))) =
    Inr (ar_wholeBodyField r)"
    using plan_fields_apart(2) [OF assms(1)] r
    by (auto simp: parse_whole_field_def body_descriptor_def member_of_def str_or_def)
  have present: "parse_present ?rev (member_of (body_descriptor r) ''present'') = Inr False"
    by (auto simp: parse_present_def body_descriptor_def member_of_def)
  have "''value'' \<noteq> inputRouteKey prof" "''parameters'' \<noteq> inputRouteKey prof" "''body'' \<noteq> inputRouteKey prof"
    using assms(2) by auto
  with ps bs whole present assms(2) show ?thesis
    by (simp add: parseRoutedEnvelope_def route_envelope_def parse_envelope_def parse_routes_def in_object_def
        member_of_def get_object_def Let_def)
qed

lemma each_res_checks: "each_res (\<lambda>x _. f x) xs () = Inr () \<longleftrightarrow> (\<forall>x\<in>set xs. f x = Inr ())"
  by (induction xs) (auto simp: js_result)

lemma planned_routes_known:
  assumes "plannable params plans" and r: "r = planAbstractInputRoutes params plans"
    and "re_parameters env = ar_parameters r" and "set (member_keys (re_bodyFields env)) = fst ` set (ar_bodyFields r)"
    and "re_wholeBodyField env = ar_wholeBodyField r"
  shows "validateEnvelopeRoutes params plans env prof = Inr ()"
proof -
  let ?known = "map (\<lambda>p. route_identity (p_in p) (p_name p)) (filter has_identity params)"
  let ?props = "concat (map plan_props (filter (\<lambda>plan. \<not> whole_plan plan) plans))"
  have "route_identity (pr_in q) (pr_name q) \<in> set ?known" if "q \<in> set (ar_parameters r)" for q
    using plannable_route [OF assms(1) that [unfolded r]] by force
  moreover have "n \<in> set ?props" if "n \<in> fst ` set (ar_bodyFields r)" for n
  proof -
    from that obtain m where m: "m \<in> set (ar_bodyFields (planAbstractInputRoutes params plans))" "n = fst m"
      using r by auto
    show ?thesis by (rule plan_body_entry [OF assms(1) m(1)]) (use m(2) in auto)
  qed
  ultimately show ?thesis
    using plan_fields_apart(3) [OF assms(1)] r assms(3-5)
    by (simp add: validateEnvelopeRoutes_def Let_def each_res_checks js_result check_parameter_route_def check_body_route_def)
qed

text \<open>
  C25.  What the planner writes is what the parser accepts: for declarations with distinct identities and
  named properties, the transform expression of the plan is the JSON text of an envelope with \<open>$\<close> in the
  place of the input, and the envelope parses back to the input, the parameter routes, the body mapping and
  the whole-body field of the plan; every identity in it is known to the operation.
\<close>

theorem planned_envelope_roundtrip:
  assumes "plannable params plans" and "inputRouteKey prof \<notin> {''value'', ''parameters'', ''body''}"
    and "r = planAbstractInputRoutes params plans"
  shows "\<exists>pre post env. transformExpression r prof = pre @ ''$'' @ post \<and>
    JSON_stringify (route_envelope r prof input) = Some (pre @ json_text (JObj input) @ post) \<and>
    parseRoutedEnvelope (route_envelope r prof input) prof = Inr (Some env) \<and>
    re_value env = input \<and> re_parameters env = ar_parameters r \<and>
    map_of (re_bodyFields env) = map_of (ar_bodyFields r) \<and>
    re_wholeBodyField env = ar_wholeBodyField r \<and> \<not> re_bodyPresent env \<and>
    validateEnvelopeRoutes params plans env prof = Inr ()"
proof -
  let ?ms = "fold (\<lambda>(n, v). assign_member n v) (ar_bodyFields r) []"
  let ?env = "\<lparr> re_value = input, re_parameters = ar_parameters r, re_bodyFields = ?ms,
      re_wholeBodyField = ar_wholeBodyField r, re_bodyPresent = False \<rparr>"
  have bodies: "map_of ?ms = map_of (ar_bodyFields r)"
    using body_fields_distinct [of params plans] plan_body_entry [OF assms(1)] assms(3)
    by (subst map_of_assign_all) (auto elim!: body_field_origin)
  then have "dom (map_of ?ms) = dom (map_of (ar_bodyFields r))" by (rule arg_cong)
  then have "set (member_keys ?ms) = fst ` set (ar_bodyFields r)"
    by (simp add: member_keys_def dom_map_of_conv_image_fst)
  then have "validateEnvelopeRoutes params plans ?env prof = Inr ()"
    by (intro planned_routes_known [OF assms(1,3)]) simp_all
  moreover obtain pre post where "transformExpression r prof = pre @ ''$'' @ post"
    "JSON_stringify (route_envelope r prof input) = Some (pre @ json_text (JObj input) @ post)"
    using stringify_planned_envelope by blast
  ultimately show ?thesis
    using parse_planned_envelope [OF assms, of input] bodies
    by (intro exI [of _ pre] exI [of _ post] exI [of _ ?env]) simp
qed

section \<open>Where a routed field goes\<close>

text \<open>The names of a parsed mapping.\<close>

definition wf_mapping :: "js_members \<Rightarrow> bool" where
  "wf_mapping ms \<longleftrightarrow> distinct (member_keys ms) \<and> ''__proto__'' \<notin> set (member_keys ms)"

lemma wf_mapping_assign: "wf_mapping ms \<Longrightarrow> wf_mapping (assign_member n v ms)"
  by (auto simp: wf_mapping_def member_keys_def assign_member_def define_member_def distinct_insert_member
      keys_replace_member keys_insert_member simp del: set_map)

lemma parsed_mapping_wf:
  assumes "parseRoutedEnvelope v prof = Inr (Some env)"
  shows "wf_mapping (re_bodyFields env)"
proof -
  have step: "parse_body_property rev m st = Inr st' \<Longrightarrow> wf_mapping (fst st) \<Longrightarrow> wf_mapping (fst st')" for rev m st st'
    by (auto simp: parse_body_property_def wf_mapping_assign Let_def split: prod.splits if_splits)
  have bodies: "wf_mapping (fst st)" if "parse_body_properties rev properties seen = Inr st" for rev properties seen st
  proof (cases "as_object properties")
    case None
    with that show ?thesis
      by (auto simp: parse_body_properties_def wf_mapping_def member_keys_def split: if_splits)
  next
    case (Some ms)
    with that have "each_res (parse_body_property rev) ms ([], seen) = Inr st"
      by (auto simp: parse_body_properties_def split: if_splits)
    then show ?thesis
      by (rule each_res_invariant [where I = "\<lambda>st. wf_mapping (fst st)"])
        (simp add: wf_mapping_def member_keys_def, blast intro: step)
  qed
  obtain item where item: "parse_envelope prof item = Inr env"
    using assms by (auto simp: parseRoutedEnvelope_def js_result split: jsval.splits list.splits)
  then obtain rev envelope input where "parse_routes rev envelope input = Inr env"
    by (auto simp: parse_envelope_def Let_def split: option.splits if_splits)
  then obtain properties seen mapped seen' where
    "parse_body_properties rev properties seen = Inr (mapped, seen')" "re_bodyFields env = mapped"
    by (auto simp: parse_routes_def Let_def js_result split: option.splits prod.splits)
  with bodies show ?thesis by force
qed

text \<open>The parameters: what is consumed, and what must be there.\<close>

definition supplied_fields :: "routed_envelope \<Rightarrow> jsval list \<Rightarrow> string list" where
  "supplied_fields env ps =
     concat (map (\<lambda>p. case mapped_value env p of None \<Rightarrow> [] | Some (k, _) \<Rightarrow> [k]) (filter has_identity ps))"

lemma supplied_fieldsE:
  assumes "k \<in> set (supplied_fields env ps)"
  obtains p v where "p \<in> set ps" "has_identity p" "mapped_value env p = Some (k, v)"
proof -
  from assms obtain p where p: "p \<in> set ps" "has_identity p"
    "k \<in> set (case mapped_value env p of None \<Rightarrow> [] | Some (k, _) \<Rightarrow> [k])"
    by (auto simp: supplied_fields_def)
  then obtain v where "mapped_value env p = Some (k, v)" by (cases "mapped_value env p") auto
  with p(1,2) show ?thesis by (rule that)
qed

definition envelope_invariant :: "routed_envelope \<Rightarrow> jsval list \<Rightarrow> route_state \<Rightarrow> bool" where
  "envelope_invariant env ps st \<longleftrightarrow>
     set (rs_consumed st) \<subseteq> set (supplied_fields env ps) \<and>
     (rs_missingPath st = [] \<longrightarrow> rs_missingRequired st = [] \<longrightarrow>
       (\<forall>p\<in>set ps. has_identity p \<longrightarrow> p_in p = ''path'' \<or> p_required p \<longrightarrow> mapped_value env p \<noteq> None))"

lemma envelope_parameter_step:
  assumes "envelope_parameter sj form_body prof opts env p st = Inr st'" and "envelope_invariant env ps st"
  shows "envelope_invariant env (ps @ [p]) st'"
  using assms
  by (auto simp: envelope_parameter_def envelope_invariant_def supplied_fields_def js_result
      split: if_splits option.splits prod.splits)

lemma envelope_parameters_loop:
  "each_res (envelope_parameter sj form_body prof opts env) ps st = Inr st' \<Longrightarrow>
     envelope_invariant env qs st \<Longrightarrow> envelope_invariant env (qs @ ps) st'"
proof (induction ps arbitrary: qs st)
  case (Cons p ps)
  then obtain t where t: "envelope_parameter sj form_body prof opts env p st = Inr t"
    "each_res (envelope_parameter sj form_body prof opts env) ps t = Inr st'"
    by (auto simp: js_result)
  from Cons.IH [OF t(2) envelope_parameter_step [OF t(1) Cons.prems(2)]] show ?case by simp
qed simp

text \<open>The body properties.\<close>

definition mapped_field :: "routed_envelope \<Rightarrow> string \<Rightarrow> string" where
  "mapped_field env name = str_or (member_of (re_bodyFields env) name) []"

lemma body_property_keeps:
  assumes "envelope_body_property conv oas30 env plan name st = Inr st'" and "n \<noteq> name"
  shows "map_of (bodyFields (fst st')) n = map_of (bodyFields (fst st)) n"
  using assms
  by (auto simp: envelope_body_property_def Let_def js_result assign_member_def map_of_define_member
      split: prod.splits if_splits)

lemma body_properties_keep:
  "each_res (envelope_body_property conv oas30 env plan) names st = Inr st' \<Longrightarrow> n \<notin> set names \<Longrightarrow>
     map_of (bodyFields (fst st')) n = map_of (bodyFields (fst st)) n"
proof (induction names arbitrary: st)
  case (Cons name names)
  then obtain t where "envelope_body_property conv oas30 env plan name st = Inr t"
    "each_res (envelope_body_property conv oas30 env plan) names t = Inr st'" by (auto simp: js_result)
  with Cons body_property_keeps show ?case by auto
qed simp

definition delivered_property ::
  "converter \<Rightarrow> bool \<Rightarrow> routed_envelope \<Rightarrow> route_plan \<Rightarrow> string \<Rightarrow> js_members \<Rightarrow> bool" where
  "delivered_property conv oas30 env plan n out \<longleftrightarrow>
     (let v = get_object (re_value env) (mapped_field env n) in
      contentFormNullIsElided plan n v oas30 \<or>
      (\<exists>w. prepareEncodingStylePropertyValue plan n v conv = Inr w \<and> map_of out n = Some w))"

lemma body_property_consumes:
  assumes "envelope_body_property conv oas30 env plan name (r, c) = Inr (r', c')" and "k \<in> set c'" and "k \<notin> set c"
    and "name \<noteq> ''__proto__''"
  shows "name \<in> set (plan_props plan) \<and> mapped_field env name = k \<and>
    delivered_property conv oas30 env plan name (bodyFields r')"
  using assms
  by (auto simp: envelope_body_property_def delivered_property_def mapped_field_def Let_def js_result
      map_of_assign_member split: if_splits)

lemma body_properties_consume:
  assumes "each_res (envelope_body_property conv oas30 env plan) names (r, c) = Inr (r', c')"
    and "k \<in> set c'" and "k \<notin> set c" and "distinct names" and "''__proto__'' \<notin> set names"
  shows "\<exists>n\<in>set names. n \<in> set (plan_props plan) \<and> mapped_field env n = k \<and>
    delivered_property conv oas30 env plan n (bodyFields r')"
  using assms
proof (induction names arbitrary: r c)
  case (Cons name names)
  then obtain r1 c1 where t: "envelope_body_property conv oas30 env plan name (r, c) = Inr (r1, c1)"
    "each_res (envelope_body_property conv oas30 env plan) names (r1, c1) = Inr (r', c')"
    by (auto simp: js_result)
  show ?case
  proof (cases "k \<in> set c1")
    case True
    with body_property_consumes [OF t(1)] Cons.prems(3,5)
    have d: "name \<in> set (plan_props plan)" "mapped_field env name = k"
      "delivered_property conv oas30 env plan name (bodyFields r1)" by auto
    have "map_of (bodyFields r') name = map_of (bodyFields r1) name"
      using body_properties_keep [OF t(2), of name] Cons.prems(4) by simp
    with d have "delivered_property conv oas30 env plan name (bodyFields r')"
      by (simp add: delivered_property_def)
    with d show ?thesis by auto
  next
    case False
    with Cons.IH [OF t(2)] Cons.prems(2,4,5) show ?thesis by auto
  qed
qed simp

text \<open>The remaining fields.\<close>

definition open_plan :: "route_plan option \<Rightarrow> bool" where
  "open_plan plan \<longleftrightarrow> (case plan of None \<Rightarrow> False | Some bp \<Rightarrow> planAllowsObjectPassthrough bp)"

lemma envelope_rest_keeps:
  "bodySet (fst (fold (envelope_rest plan input c) names st)) = bodySet (fst st)"
  "bodyValue (fst (fold (envelope_rest plan input c) names st)) = bodyValue (fst st)"
  by (induction names arbitrary: st) (auto simp: envelope_rest_def split: prod.splits)

lemma envelope_rest_unmatched:
  "set (snd st) \<subseteq> set (snd (fold (envelope_rest plan input c) names st))"
proof (induction names arbitrary: st)
  case (Cons name names)
  have "set (snd st) \<subseteq> set (snd (envelope_rest plan input c name st))"
    by (auto simp: envelope_rest_def split: prod.splits)
  with Cons.IH [of "envelope_rest plan input c name st"] show ?case by auto
qed simp

lemma envelope_rest_other:
  "n \<in> set c \<or> n \<notin> set names \<Longrightarrow>
     map_of (bodyFields (fst (fold (envelope_rest plan input c) names st))) n = map_of (bodyFields (fst st)) n"
proof (induction names arbitrary: st)
  case (Cons name names)
  have "map_of (bodyFields (fst (envelope_rest plan input c name st))) n = map_of (bodyFields (fst st)) n"
    using Cons.prems by (auto simp: envelope_rest_def assign_member_def map_of_define_member split: prod.splits)
  with Cons.IH [of "envelope_rest plan input c name st"] Cons.prems show ?case by auto
qed simp

lemma envelope_rest_places:
  assumes "k \<in> set names" and "k \<notin> set c" and "k \<noteq> ''__proto__''" and "distinct names"
    and "snd (fold (envelope_rest plan input c) names st) = []"
  shows "open_plan plan \<and> map_of (bodyFields (fst (fold (envelope_rest plan input c) names st))) k = Some (member_of input k)"
  using assms
proof (induction names arbitrary: st)
  case (Cons name names)
  let ?st = "envelope_rest plan input c name st"
  show ?case
  proof (cases "name = k")
    case True
    have "snd ?st = []" using envelope_rest_unmatched [of ?st plan input c names] Cons.prems(5) by simp
    with True Cons.prems(2) have op: "open_plan plan"
      by (auto simp: envelope_rest_def open_plan_def split: prod.splits if_splits option.splits)
    with True Cons.prems(2,3) have "map_of (bodyFields (fst ?st)) k = Some (member_of input k)"
      by (auto simp: envelope_rest_def open_plan_def map_of_assign_member split: prod.splits option.splits)
    with op envelope_rest_other [of k c names plan input ?st] True Cons.prems(4) show ?thesis by simp
  next
    case False
    with Cons.IH [of ?st] Cons.prems show ?thesis by simp
  qed
qed simp

lemma routeEnvelope_obtain:
  assumes "routeEnvelope sj form_body params env tpl plan prof opts oas30 = Inr r"
  obtains st r1 consumed where "envelope_invariant env params st" "rs_missingPath st = []" "rs_missingRequired st = []"
    "envelope_body (ro_converter opts) oas30 env plan (rs_routed st, rs_consumed st) = Inr (r1, consumed)"
    "fold (envelope_rest plan (re_value env) consumed) (code_point_sort (member_keys (re_value env))) (r1, []) = (r, [])"
proof -
  let ?s0 = "\<lparr> rs_routed = (empty_route tpl) \<lparr> bodySet := re_bodyPresent env \<rparr>, rs_consumed = [],
    rs_missingPath = [], rs_missingRequired = [] \<rparr>"
  obtain st r1 consumed where st: "each_res (envelope_parameter sj form_body prof opts env) params ?s0 = Inr st"
    "rs_missingPath st = []" "rs_missingRequired st = []"
    "envelope_body (ro_converter opts) oas30 env plan (rs_routed st, rs_consumed st) = Inr (r1, consumed)"
    "fold (envelope_rest plan (re_value env) consumed) (code_point_sort (member_keys (re_value env))) (r1, []) = (r, [])"
    using assms by (auto simp: routeEnvelope_def js_result Let_def case_prod_beta prod_eq_iff split: if_splits)
  have "envelope_invariant env ([] @ params) st"
    by (rule envelope_parameters_loop [OF st(1)]) (simp add: envelope_invariant_def)
  with st that show ?thesis by simp
qed

text \<open>The contributions of the mapped parameters, in the order of the declarations.\<close>

definition mapped_params :: "routed_envelope \<Rightarrow> jsval list \<Rightarrow> jsval list" where
  "mapped_params env params = filter (\<lambda>p. has_identity p \<and> mapped_value env p \<noteq> None) params"

definition mapped_wire ::
  "json_stringify \<Rightarrow> form_body_encoder \<Rightarrow> execution_profile \<Rightarrow> route_options \<Rightarrow> routed_envelope \<Rightarrow> jsval \<Rightarrow> wire \<Rightarrow> bool" where
  "mapped_wire sj form_body prof opts env p w \<longleftrightarrow>
     (\<exists>k v prepared quoted. mapped_value env p = Some (k, v) \<and>
        prepareSchemaParameterValue sj (Some p) v (ro_converter opts) (ro_openapi32 opts) = Inr (prepared, quoted) \<and>
        parameter_wire sj form_body prof opts p prepared w)"

lemma envelope_parameters_wires:
  "each_res (envelope_parameter sj form_body prof opts env) ps st = Inr st' \<Longrightarrow>
     \<exists>ws. list_all2 (mapped_wire sj form_body prof opts env) (mapped_params env ps) ws \<and>
       carries ws (rs_routed st) (rs_routed st')"
proof (induction ps arbitrary: st)
  case (Cons p ps)
  then obtain t where t: "envelope_parameter sj form_body prof opts env p st = Inr t"
    "each_res (envelope_parameter sj form_body prof opts env) ps t = Inr st'"
    by (auto simp: js_result)
  from Cons.IH [OF t(2)] obtain ws where ws: "list_all2 (mapped_wire sj form_body prof opts env) (mapped_params env ps) ws"
    "carries ws (rs_routed t) (rs_routed st')" by blast
  show ?case
  proof (cases "has_identity p \<and> mapped_value env p \<noteq> None")
    case True
    then obtain w where "mapped_wire sj form_body prof opts env p w" "carries [w] (rs_routed st) (rs_routed t)"
      using t(1) by (fastforce simp: envelope_parameter_def mapped_wire_def js_result dest!: routeParameter_wire)
    with ws True show ?thesis
      by (intro exI [of _ "w # ws"]) (auto simp: mapped_params_def dest: carries_append)
  next
    case False
    then have "rs_routed t = rs_routed st"
      using t(1) by (cases "mapped_value env p") (auto simp: envelope_parameter_def split: if_splits)
    with ws False show ?thesis by (auto simp: mapped_params_def)
  qed
qed (auto simp: mapped_params_def)

lemma envelope_body_carries:
  assumes "envelope_body conv oas30 env plan (r, c) = Inr (r', c')"
  shows "carries [] r r'"
proof -
  have step: "envelope_body_property conv oas30 env bp name st = Inr st' \<Longrightarrow> carries [] r (fst st) \<Longrightarrow> carries [] r (fst st')"
    for bp name st st'
    by (auto simp: envelope_body_property_def carries_def Let_def js_result split: prod.splits if_splits)
  have loop: "carries [] r (fst st')"
    if "each_res (envelope_body_property conv oas30 env bp) names (r, c) = Inr st'" for bp names st'
    by (rule each_res_invariant [OF that, where I = "\<lambda>st. carries [] r (fst st)"]) (simp, blast intro: step)
  show ?thesis
    using assms loop by (fastforce simp: envelope_body_def carries_def Let_def split: option.splits if_splits)
qed

lemma envelope_rest_carries: "carries [] (fst st) (fst (fold (envelope_rest plan input c) names st))"
proof (induction names arbitrary: st)
  case (Cons n names)
  have "carries [] (fst st) (fst (envelope_rest plan input c n st))"
    by (cases st) (auto simp: envelope_rest_def carries_def split: option.splits)
  from carries_append [OF this Cons.IH] show ?case by simp
qed simp

lemma routeEnvelope_wires:
  assumes "routeEnvelope sj form_body params env tpl plan prof opts oas30 = Inr r"
  shows "\<exists>ws. list_all2 (mapped_wire sj form_body prof opts env) (mapped_params env params) ws \<and> carries ws (empty_route tpl) r"
proof -
  obtain st r1 consumed where loop: "each_res (envelope_parameter sj form_body prof opts env) params
      \<lparr> rs_routed = (empty_route tpl) \<lparr> bodySet := re_bodyPresent env \<rparr>, rs_consumed = [], rs_missingPath = [],
        rs_missingRequired = [] \<rparr> = Inr st"
    and body: "envelope_body (ro_converter opts) oas30 env plan (rs_routed st, rs_consumed st) = Inr (r1, consumed)"
    and rest: "fold (envelope_rest plan (re_value env) consumed) (code_point_sort (member_keys (re_value env))) (r1, []) = (r, [])"
    using assms by (auto simp: routeEnvelope_def js_result Let_def case_prod_beta prod_eq_iff split: if_splits)
  from envelope_parameters_wires [OF loop] obtain ws where ws:
    "list_all2 (mapped_wire sj form_body prof opts env) (mapped_params env params) ws"
    "carries ws ((empty_route tpl) \<lparr> bodySet := re_bodyPresent env \<rparr>) (rs_routed st)" by auto
  have "carries [] r1 r"
    using envelope_rest_carries [of "(r1, [])" plan "re_value env" consumed "code_point_sort (member_keys (re_value env))"] rest by simp
  from carries_append [OF carries_append [OF ws(2) envelope_body_carries [OF body]] this]
  have "carries ws ((empty_route tpl) \<lparr> bodySet := re_bodyPresent env \<rparr>) r" by simp
  with ws(1) show ?thesis by (auto simp: carries_def)
qed

text \<open>
  What becomes of a field mapped into the body, and the one way its value is lost: an own field with the
  name of the property, which no route names, passes through on top of it.
\<close>

definition reaches_body :: "converter \<Rightarrow> bool \<Rightarrow> routed_envelope \<Rightarrow> route_plan \<Rightarrow> string \<Rightarrow> routed_input \<Rightarrow> bool" where
  "reaches_body conv oas30 env bp k r \<longleftrightarrow>
     (if whole_plan bp
      then k = re_wholeBodyField env \<and> bodySet r \<and> bodyValue r = member_of (re_value env) k
      else \<exists>n. n \<in> set (plan_props bp) \<and> has_member (re_bodyFields env) n \<and> mapped_field env n = k \<and>
        delivered_property conv oas30 env bp n (bodyFields r))"

definition overwritten :: "routed_envelope \<Rightarrow> route_plan \<Rightarrow> string \<Rightarrow> routed_input \<Rightarrow> bool" where
  "overwritten env bp k r \<longleftrightarrow>
     \<not> whole_plan bp \<and> planAllowsObjectPassthrough bp \<and>
     (\<exists>n. n \<noteq> k \<and> n \<in> set (plan_props bp) \<and> mapped_field env n = k \<and> has_member (re_value env) n \<and>
        map_of (bodyFields r) n = Some (member_of (re_value env) n))"

lemma body_consumes:
  assumes "envelope_body conv oas30 env (Some bp) (r0, c0) = Inr (r1, c1)" and "k \<in> set c1" and "k \<notin> set c0"
    and "wf_mapping (re_bodyFields env)" and "has_member (re_value env) k"
  shows "bp_declared bp \<and>
    (if whole_plan bp then k = re_wholeBodyField env \<and> bodySet r1 \<and> bodyValue r1 = member_of (re_value env) k
     else \<exists>n. n \<in> set (plan_props bp) \<and> has_member (re_bodyFields env) n \<and> mapped_field env n = k \<and>
       delivered_property conv oas30 env bp n (bodyFields r1))"
proof (cases "bp_declared bp \<and> \<not> whole_plan bp")
  case True
  then have "each_res (envelope_body_property conv oas30 env bp) (code_point_sort (member_keys (re_bodyFields env)))
      (r0, c0) = Inr (r1, c1)" using assms(1) by (simp add: envelope_body_def)
  from body_properties_consume [OF this assms(2,3)] assms(4) True show ?thesis
    by (fastforce simp: wf_mapping_def code_point_sort_def has_member_def member_keys_def)
next
  case False
  with assms show ?thesis
    by (auto simp: envelope_body_def Let_def get_object_def member_of_def has_member_iff split: if_splits)
qed

lemma body_reaches:
  assumes "envelope_body conv oas30 env (Some bp) (r0, c0) = Inr (r1, c1)" and "k \<in> set c1" and "k \<notin> set c0"
    and "wf_mapping (re_bodyFields env)" and "has_member (re_value env) k" and "distinct (member_keys (re_value env))"
    and rest: "fold (envelope_rest (Some bp) (re_value env) c1) (code_point_sort (member_keys (re_value env))) (r1, []) = (r, [])"
  shows "bp_declared bp \<and> (reaches_body conv oas30 env bp k r \<or> overwritten env bp k r)"
proof -
  let ?names = "code_point_sort (member_keys (re_value env))"
  have same: "bodySet r = bodySet r1" "bodyValue r = bodyValue r1"
    using envelope_rest_keeps [of "Some bp" "re_value env" c1 ?names "(r1, [])"] rest by simp_all
  note c = body_consumes [OF assms(1-5)]
  show ?thesis
  proof (cases "whole_plan bp")
    case True
    with c same show ?thesis by (simp add: reaches_body_def)
  next
    case False
    with c obtain n where n: "n \<in> set (plan_props bp)" "has_member (re_bodyFields env) n" "mapped_field env n = k"
      "delivered_property conv oas30 env bp n (bodyFields r1)" by auto
    show ?thesis
    proof (cases "n \<in> set c1 \<or> n \<notin> set ?names")
      case True
      then have "map_of (bodyFields r) n = map_of (bodyFields r1) n"
        using envelope_rest_other [OF True, of "Some bp" "re_value env" "(r1, [])"] rest by simp
      then have "delivered_property conv oas30 env bp n (bodyFields r)" using n(4) by (simp add: delivered_property_def)
      with n c False show ?thesis by (auto simp: reaches_body_def)
    next
      case False
      have "n \<noteq> ''__proto__''" using assms(4) n(2) by (force simp: wf_mapping_def has_member_def member_keys_def)
      moreover have "distinct ?names" using assms(6) by (simp add: code_point_sort_def)
      ultimately have "planAllowsObjectPassthrough bp" "map_of (bodyFields r) n = Some (member_of (re_value env) n)"
        using envelope_rest_places [of n ?names c1 "Some bp" "re_value env" "(r1, [])"] False rest
        by (simp_all add: open_plan_def)
      moreover have "has_member (re_value env) n" "n \<noteq> k"
        using False assms(2) by (auto simp: has_member_def member_keys_def)
      ultimately show ?thesis using n c \<open>\<not> whole_plan bp\<close> by (auto simp: overwritten_def)
    qed
  qed
qed


section \<open>An operation with colliding names\<close>

text \<open>A path parameter, a query parameter and a body property, all named \<open>id\<close>.\<close>

definition example_declarations :: "jsval list" where
  "example_declarations =
     [example_path_parameter, JObj [(''name'', JStr ''id''), (''in'', JStr ''query'')]]"

definition example_route_plan :: route_plan where
  "example_route_plan =
     \<lparr> bp_declared = True, bp_synthetic = False, bp_wholeObject = False, rp_required = True, rp_family = FAMILY_JSON,
       rp_props = Some [''id''], rp_media = JObj [], rp_openapiVersion = Some ''3.1.0'', rp_oas30 = False \<rparr>"

definition example_flat_input :: js_members where
  "example_flat_input =
     [(''id'', JStr ''a/b''), (''id_2'', JStr ''q''), (''id_3'', JStr ''body''), (''note'', JStr ''n'')]"

abbreviation example_routes :: abstract_routes where
  "example_routes \<equiv> planAbstractInputRoutes example_declarations [example_route_plan]"

theorem planned_fields_are_distinct_witness:
  "map snd (planned_slots example_declarations [example_route_plan]) = [''id'', ''id_2'', ''id_3''] \<and>
   distinct [''id'', ''id_2'', ''id_3'']"
proof -
  have e: "map snd (planned_slots example_declarations [example_route_plan]) = [''id'', ''id_2'', ''id_3'']"
    by code_simp
  with planned_fields_are_distinct [of example_declarations "[example_route_plan]"] show ?thesis by metis
qed

theorem planned_envelope_roundtrip_witness:
  "\<exists>env. parseRoutedEnvelope (route_envelope example_routes OPENAPI_PROFILE_FULL example_flat_input)
       OPENAPI_PROFILE_FULL = Inr (Some env) \<and>
     map_of (re_bodyFields env) ''id'' = Some (JStr ''id_3'') \<and>
     validateEnvelopeRoutes example_declarations [example_route_plan] env OPENAPI_PROFILE_FULL = Inr ()"
proof -
  have p: "plannable example_declarations [example_route_plan]" by code_simp
  have k: "inputRouteKey OPENAPI_PROFILE_FULL \<notin> {''value'', ''parameters'', ''body''}" by code_simp
  have "map_of (ar_bodyFields example_routes) ''id'' = Some (JStr ''id_3'')" by code_simp
  with planned_envelope_roundtrip [OF p k refl, of example_flat_input] show ?thesis by auto
qed

definition example_envelope :: routed_envelope where
  "example_envelope =
     \<lparr> re_value = example_flat_input,
       re_parameters = [\<lparr> pr_in = ''path'', pr_name = ''id'', pr_field = ''id'' \<rparr>,
                        \<lparr> pr_in = ''query'', pr_name = ''id'', pr_field = ''id_2'' \<rparr>],
       re_bodyFields = [(''id'', JStr ''id_3'')], re_wholeBodyField = [], re_bodyPresent = False \<rparr>"

lemma example_routed:
  "res_map (\<lambda>r. (resolvedPath r, queryUnits r, bodyFields r))
     (routeEnvelope example_stringify (\<lambda>_ _. Inr []) example_declarations example_envelope ''/x/{id}''
       (Some example_route_plan) OPENAPI_PROFILE_FULL example_options False) =
   Inr (''/x/a%2Fb'', [''id=q''], [(''id'', JStr ''body''), (''note'', JStr ''n'')])"
  by code_simp


section \<open>What the code does not keep apart\<close>

text \<open>
  A field the input does not have counts as supplied when its name is one of \<open>Object.prototype\<close>: the
  parameter receives the inherited function.
\<close>

lemma inherited_field_is_supplied:
  "mapped_value (example_envelope \<lparr> re_value := [],
       re_parameters := [\<lparr> pr_in = ''query'', pr_name = ''constructor'', pr_field = ''constructor'' \<rparr>] \<rparr>)
     (JObj [(''name'', JStr ''constructor''), (''in'', JStr ''query'')]) = Some (''constructor'', JFun)"
  by code_simp

text \<open>
  An own field that no route names passes through to an open JSON body under its own name, also over a
  body property that another field was routed to.
\<close>

lemma passthrough_overwrites_routed_property:
  "res_map bodyFields
     (routeEnvelope example_stringify (\<lambda>_ _. Inr []) []
       (example_envelope \<lparr> re_value := [(''b'', JStr ''routed''), (''id'', JStr ''stray'')], re_parameters := [],
          re_bodyFields := [(''id'', JStr ''b'')] \<rparr>)
       ''/x'' (Some example_route_plan) OPENAPI_PROFILE_FULL example_options False) =
   Inr [(''id'', JStr ''stray'')]"
  by code_simp

text \<open>
  The two functions named \<open>codePointCompare\<close> order differently: an object in a delimited style has its
  members in one order as a parameter and in another as a body property.
\<close>

lemma delimited_orders_differ:
  "let private = [CHR 0xEE, CHR 0x80, CHR 0x80]; astral = [CHR 0xF0, CHR 0x90, CHR 0x80, CHR 0x80];
       v = JObj [(private, JStr ''a''), (astral, JStr ''b'')] in
   delimitedObjectAsSequence v ''pipeDelimited'' = JArr [JStr private, JStr ''a'', JStr astral, JStr ''b''] \<and>
   delimited_body_sequence v ''pipeDelimited'' = JArr [JStr astral, JStr ''b'', JStr private, JStr ''a'']"
  by code_simp

end
