(* ===== verification/Request_Assembly.thy ===== *)
theory Request_Assembly
  imports Security_Plans Servers Media_Selection Host_Transport Input_Routes
begin

text \<open>
  The path of a 3.x invocation through \<open>invoke.ts\<close> up to the wire: the gate that runs before any input is
  consumed, the assembly of the target URL and the header section from the routed input, the credentials
  and the hints of the context, and the redirects that are followed after it.

  Parameters of the model: the URL parsers of the platform, the regular expression engine behind
  \<open>patternProperties\<close>, the network, and the removal of query members from a URL
  (\<open>URLSearchParams.delete\<close>).  Request bodies are opaque texts here.
\<close>

section \<open>Before the input\<close>

datatype refusal =
    Refused string
  | Refused_Style style_error
  | Refused_Style_32 disposition
  | Server_Refusal server_error
  | Security_Type_Error
  | Credential_Collision collision
  | Context_Required jsval

definition requestBodyIgnored :: "string \<Rightarrow> string \<Rightarrow> bool" where
  "requestBodyIgnored openapiVersion verb \<longleftrightarrow>
     (let normalized = ascii_upper verb in
      normalized = ''TRACE'' \<or>
      prefix ''3.0.'' openapiVersion \<and> normalized \<in> set [''GET'', ''HEAD'', ''DELETE'', ''OPTIONS''])"

definition requestWillEmitBody :: "jsval list \<Rightarrow> js_members \<Rightarrow> jsval \<Rightarrow> bool" where
  "requestWillEmitBody params input op \<longleftrightarrow>
     get_prop op ''requestBody'' \<notin> {JUndefined, JNull} \<and>
     list_ex (\<lambda>name. name \<notin> set (filter (\<lambda>n. n \<noteq> []) (map p_name params))) (member_keys input)"

definition style_gate ::
  "(string \<Rightarrow> string \<Rightarrow> bool option) \<Rightarrow> execution_profile \<Rightarrow> string \<Rightarrow> jsval list \<Rightarrow> (refusal, unit) res" where
  "style_gate rx prof version params =
     (if \<not> mediaFidelity prof then Inr ()
      else
        res_bind
          (if version = ''3.2.0''
           then each_res (\<lambda>p _. res_err Refused_Style_32 (validateOpenAPI32ParameterSerialization p)) params ()
           else each_res (\<lambda>p _. res_err Refused_Style
                  (validateResolvedParameterSerialization p (prefix ''3.0'' version))) params ())
          (\<lambda>_. case resolvedStyleLaneUndefinedExpansionParam rx params prof (prefix ''3.0'' version) of
             None \<Rightarrow> Inr ()
           | Some name \<Rightarrow>
               Inl (Refused (''parameter '' @ json_quote name @ '' requires an undefined nested serialization expansion''))))"

definition refuse_if :: "string \<Rightarrow> (refusal, unit) res" where
  "refuse_if message = check (message = []) (Refused message)"

text \<open>
  The declaration checks of \<open>runBinding\<close> in its order; \<open>referring\<close> are the security schemes of the
  referring document of a resolved target.
\<close>

definition declaration_gate ::
  "(string \<Rightarrow> string \<Rightarrow> bool option) \<Rightarrow> execution_profile \<Rightarrow> jsval \<Rightarrow> jsval \<Rightarrow> string \<Rightarrow> jsval \<Rightarrow> jsval \<Rightarrow> string \<Rightarrow>
     (refusal, jsval list) res" where
  "declaration_gate rx prof doc securityDoc path pathItem op wireMethod =
     (let version = openapi_version doc; rows = effectiveParameterDeclarationRows pathItem op;
          params = effectiveParameters pathItem op;
          paths = (case get_prop doc ''paths'' of JObj ms \<Rightarrow> member_keys ms | _ \<Rightarrow> []) in
      if version = ''3.2.0'' \<and> wireMethod = ''CONNECT''
      then Inl (Refused ''CONNECT creates a tunnel outside the unary OpenAPI operation model'')
      else
        res_bind (refuse_if (case malformedEffectiveParameter rows version of None \<Rightarrow> []
           | Some name \<Rightarrow> ''effective Parameter Object '' @ json_quote name @ '' is upstream-invalid'')) (\<lambda>_.
        res_bind (refuse_if (case invalidRequiredParameterName rows of None \<Rightarrow> []
           | Some name \<Rightarrow> ''required parameter '' @ json_quote name @ '' cannot produce a valid HTTP field name'')) (\<lambda>_.
        res_bind (refuse_if (case equivalentPathTemplateCollision paths path of None \<Rightarrow> []
           | Some other \<Rightarrow> ''path template '' @ json_quote path @ '' is equivalent to '' @ json_quote other @
               '' and cannot be selected deterministically'')) (\<lambda>_.
        res_bind (refuse_if (if CHR ''?'' \<in> set path \<or> CHR ''#'' \<in> set path
           then ''path template '' @ json_quote path @ '' contains a query or fragment delimiter'' else [])) (\<lambda>_.
        res_bind (refuse_if (parameterOwnershipConflict params)) (\<lambda>_.
        res_bind (res_err (\<lambda>_. Security_Type_Error) (securityConfigurationError securityDoc op)) (\<lambda>configuration.
        res_bind (refuse_if configuration) (\<lambda>_.
        res_bind (refuse_if (let name = unflattenableParam params prof in if name = [] then []
           else ''operation declares parameter '' @ [CHR 0x22] @ name @ [CHR 0x22] @
             '' without a distinct wire identity under execution profile '' @ ep_name prof @
             '' (unflattenable or unresolvable)'')) (\<lambda>_.
        res_bind (style_gate rx prof version params) (\<lambda>_.
        res_map (\<lambda>_. params) (refuse_if (pathTemplateAddressabilityConflict path params))))))))))))"

definition security_gate ::
  "url_resolver \<Rightarrow> jsval \<Rightarrow> jsval \<Rightarrow> jsval \<Rightarrow> string \<Rightarrow> jsval list \<Rightarrow> string \<Rightarrow> (refusal, unit) res" where
  "security_gate resolve securityDoc op ctx baseURL params wireMethod =
     (case securityAlternativesCollision resolve securityDoc op baseURL params wireMethod of
        Some c \<Rightarrow> Inl (Credential_Collision c)
      | None \<Rightarrow>
          res_bind (refuse_if (securitySelectionError resolve securityDoc op ctx baseURL params wireMethod)) (\<lambda>_.
            case requiredContext resolve securityDoc op ctx baseURL params wireMethod of
              None \<Rightarrow> Inr ()
            | Some details \<Rightarrow> Inl (Context_Required details)))"

definition preflight ::
  "url_parser \<Rightarrow> url_resolver \<Rightarrow> (string \<Rightarrow> string \<Rightarrow> bool option) \<Rightarrow> execution_profile \<Rightarrow> jsval \<Rightarrow> jsval \<Rightarrow>
     string \<Rightarrow> jsval \<Rightarrow> jsval \<Rightarrow> string \<Rightarrow> jsval \<Rightarrow> string option \<Rightarrow> (refusal, jsval list \<times> string) res" where
  "preflight new_url resolve rx prof doc referring path pathItem op wireMethod ctx location =
     (let securityDoc = scopedSecurityDocument doc referring ctx in
      res_bind (declaration_gate rx prof doc securityDoc path pathItem op wireMethod) (\<lambda>params.
        res_bind (res_err Server_Refusal (resolveServer new_url doc pathItem op ctx location)) (\<lambda>baseURL.
          res_map (\<lambda>_. (params, baseURL))
            (security_gate resolve securityDoc op ctx baseURL params wireMethod))))"

section \<open>The header section\<close>

datatype assembly_error = Invalid_Header string | Bad_Target server_error

definition http_space :: "char \<Rightarrow> bool" where
  "http_space c \<longleftrightarrow> byte c \<in> {0x09, 0x0A, 0x0D, 0x20}"

definition trim_field :: "string \<Rightarrow> string" where
  "trim_field v = rev (dropWhile http_space (rev (dropWhile http_space v)))"

text \<open>
  The value a \<open>Headers\<close> object keeps: octets, without blanks at its ends.  A text outside Latin-1, a
  control that ends a field and a name that is no token make \<open>set\<close> throw.
\<close>

definition field_value :: "string \<Rightarrow> string option" where
  "field_value v =
     (case latin1_encode v of
        None \<Rightarrow> None
      | Some b \<Rightarrow>
          let t = trim_field b in
          if list_all (\<lambda>c. byte c \<notin> {0x00, 0x0A, 0x0D}) t then Some t else None)"

definition headers_set :: "string \<times> string \<Rightarrow> header_list \<Rightarrow> (assembly_error, header_list) res" where
  "headers_set h hs =
     (let (name, v) = h in
      case field_value v of
        Some t \<Rightarrow> if is_http_token name then Inr (header_set (ascii_lower name) t hs) else Inl (Invalid_Header name)
      | None \<Rightarrow> Inl (Invalid_Header name))"

definition on_channel :: "channel \<Rightarrow> placement list \<Rightarrow> placement list" where
  "on_channel ch placements = filter (\<lambda>pl. pl_channel pl = ch) placements"

definition query_units :: "routed_input \<Rightarrow> placement list \<Rightarrow> string list" where
  "query_units r placements =
     queryUnits r @ map (\<lambda>pl. encodeOpenAPICredentialQuery (pl_name pl) @ ''='' @ encodeOpenAPICredentialQuery (pl_value pl))
       (on_channel Query_Channel placements)"

definition cookie_units :: "routed_input \<Rightarrow> placement list \<Rightarrow> jsval \<Rightarrow> string list" where
  "cookie_units r placements ctx =
     cookieUnits r @ map (\<lambda>pl. pl_name pl @ ''='' @ pl_value pl) (on_channel Cookie_Channel placements) @
     map (\<lambda>k. k @ ''='' @ js_String (member_of (contextCookies ctx) k)) (js_sort (member_keys (contextCookies ctx)))"

definition request_url :: "string \<Rightarrow> routed_input \<Rightarrow> placement list \<Rightarrow> string" where
  "request_url baseURL r placements =
     baseURL @ resolvedPath r @
     (if query_units r placements = [] then [] else ''?'' @ join ''&'' (query_units r placements))"

text \<open>The calls of \<open>Headers.set\<close> in their order: a later one replaces an earlier one of its name.\<close>

definition declared_entries :: "string \<Rightarrow> string \<Rightarrow> (string \<times> string) list" where
  "declared_entries contentType accept =
     (if contentType = [] then [] else [(''Content-Type'', contentType)]) @
     (if accept = [] then [] else [(''Accept'', accept)])"

definition credential_entries :: "placement list \<Rightarrow> (string \<times> string) list" where
  "credential_entries placements = map (\<lambda>pl. (pl_name pl, pl_value pl)) (on_channel Header_Channel placements)"

definition hint_entries :: "jsval \<Rightarrow> (string \<times> string) list" where
  "hint_entries ctx = map (\<lambda>m. (fst m, js_String (snd m))) (contextHeaders ctx)"

definition cookie_entries :: "routed_input \<Rightarrow> placement list \<Rightarrow> jsval \<Rightarrow> (string \<times> string) list" where
  "cookie_entries r placements ctx =
     (let units = cookie_units r placements ctx in if units = [] then [] else [(''Cookie'', join ''; '' units)])"

definition assemble_headers ::
  "string \<Rightarrow> string \<Rightarrow> routed_input \<Rightarrow> placement list \<Rightarrow> jsval \<Rightarrow> (assembly_error, header_list) res" where
  "assemble_headers contentType accept r placements ctx =
     each_res headers_set
       (declared_entries contentType accept @ headers r @ credential_entries placements @ hint_entries ctx @
        cookie_entries r placements ctx) []"

datatype channel_refusal =
    Placement_Collision collision
  | Hint_Collision string
  | Assembly assembly_error

definition assemble_request ::
  "url_parser \<Rightarrow> string \<Rightarrow> jsval list \<Rightarrow> string \<Rightarrow> string \<Rightarrow> routed_input \<Rightarrow> placement list \<Rightarrow> jsval \<Rightarrow>
     (channel_refusal, string \<times> header_list) res" where
  "assemble_request new_url baseURL params contentType accept r placements ctx =
     (case openAPICredentialCollision placements params (populated r) of
        Some c \<Rightarrow> Inl (Placement_Collision c)
      | None \<Rightarrow>
          let hints = contextChannelCollision ctx placements (populated r); url = request_url baseURL r placements in
          if hints \<noteq> [] then Inl (Hint_Collision hints)
          else
            res_bind (res_err (Assembly \<circ> Bad_Target) (validateCompletedOpenAPIURL new_url url)) (\<lambda>_.
              res_map (Pair url) (res_err Assembly (assemble_headers contentType accept r placements ctx))))"

section \<open>Redirects\<close>

record planned_request =
  pq_target :: location
  pq_method :: string
  pq_headers :: header_list
  pq_body :: "string option"

type_synonym planned_network = "planned_request list \<Rightarrow> planned_request \<Rightarrow> (string, host_response) res"

definition redirectRewritesMethod :: "nat \<Rightarrow> string \<Rightarrow> bool" where
  "redirectRewritesMethod status m =
     (let normalized = ascii_upper m in
      if status = 303 then normalized \<noteq> ''GET'' \<and> normalized \<noteq> ''HEAD''
      else (status = 301 \<or> status = 302) \<and> normalized = ''POST'')"

text \<open>What a hop to another origin takes away; \<open>strip\<close> deletes a query member of a URL.\<close>

definition owned_headers :: "placement list \<Rightarrow> string list" where
  "owned_headers owned =
     map (\<lambda>pl. if pl_channel pl = Cookie_Channel then ''cookie'' else ascii_lower (pl_name pl))
       (filter (\<lambda>pl. pl_channel pl \<noteq> Query_Channel) owned)"

definition next_hop ::
  "(string \<Rightarrow> location \<Rightarrow> location) \<Rightarrow> placement list \<Rightarrow> location \<Rightarrow> planned_request \<Rightarrow> planned_request" where
  "next_hop strip owned target r =
     (if lo_origin (pq_target r) = lo_origin target then r \<lparr> pq_target := target \<rparr>
      else r \<lparr> pq_target := fold (\<lambda>pl. strip (pl_name pl)) (on_channel Query_Channel owned) target,
               pq_headers := fold header_delete (''cookie'' # owned_headers owned) (pq_headers r) \<rparr>)"

datatype redirect_error = Transport_Rejected string | Stopped

text \<open>\<open>k\<close> redirects may still be followed; the requests sent are returned with the outcome.\<close>

fun redirect_loop ::
  "planned_network \<Rightarrow> location_parser \<Rightarrow> (string \<Rightarrow> location \<Rightarrow> location) \<Rightarrow> placement list \<Rightarrow> nat \<Rightarrow>
     planned_request list \<Rightarrow> planned_request \<Rightarrow> planned_request list \<times> (redirect_error, host_response) res" where
  "redirect_loop send new_url strip owned k sent r =
     (let sent' = sent @ [r] in
      case send sent r of
        Inl reason \<Rightarrow> (sent', Inl (Transport_Rejected reason))
      | Inr response \<Rightarrow>
          (let loc = (case map_of (hs_headers response) ''location'' of None \<Rightarrow> [] | Some t \<Rightarrow> t) in
           if hs_status response \<notin> set REDIRECT_STATUSES \<or> loc = [] \<or>
              redirectRewritesMethod (hs_status response) (pq_method r)
           then (sent', Inr response)
           else
             (case k of
                0 \<Rightarrow> (sent', Inl Stopped)
              | Suc m \<Rightarrow>
                  (case new_url loc (Some (pq_target r)) of
                     None \<Rightarrow> (sent', Inr response)
                   | Some target \<Rightarrow>
                       redirect_loop send new_url strip owned m sent' (next_hop strip owned target r)))))"

declare redirect_loop.simps [simp del]

definition dispatchWithSafeRedirects ::
  "planned_network \<Rightarrow> location_parser \<Rightarrow> (string \<Rightarrow> location \<Rightarrow> location) \<Rightarrow> placement list \<Rightarrow> bool \<Rightarrow>
     planned_request \<Rightarrow> planned_request list \<times> (redirect_error, host_response) res" where
  "dispatchWithSafeRedirects send new_url strip owned follow r =
     (if \<not> follow then ([r], res_err Transport_Rejected (send [] r))
      else redirect_loop send new_url strip owned 9 [] r)"

section \<open>What routing records of its contributions\<close>

definition contributions_recorded :: "routed_input \<Rightarrow> bool" where
  "contributions_recorded r \<longleftrightarrow>
     (cookieUnits r \<noteq> [] \<longrightarrow> pop_cookie (populated r) \<noteq> []) \<and>
     (\<forall>h\<in>set (headers r). ascii_lower (fst h) \<in> set (pop_header (populated r)))"

lemma set_fold_insert: "set (fold List.insert ns xs) = set ns \<union> set xs"
  by (induction ns arbitrary: xs) auto

definition keeps_record :: "routed_input \<Rightarrow> routed_input \<Rightarrow> bool" where
  "keeps_record r r' \<longleftrightarrow> contributions_recorded r \<longrightarrow> contributions_recorded r'"

lemma keeps_record_push [simp]:
  "keeps_record r (push_query units names r)" "keeps_record r (substitute_path name out r)"
  "keeps_record r (push_header n v r)"
  by (auto simp: keeps_record_def contributions_recorded_def push_query_def push_header_def substitute_path_def)

lemma keeps_record_cookie [simp]: "keeps_record r (push_cookie units (name # names) r)"
proof -
  have "fold List.insert (name # names) (pop_cookie (populated r)) \<noteq> []"
    using set_fold_insert [of "name # names" "pop_cookie (populated r)"] by (metis Un_empty set_empty list.distinct(1))
  then show ?thesis by (simp add: keeps_record_def contributions_recorded_def push_cookie_def)
qed

lemma keeps_record_content:
  "routeContentParameter sj form_body prof opts p v r = Inr r' \<Longrightarrow> keeps_record r r'"
  by (auto simp: routeContentParameter_def Let_def js_result split: if_splits option.splits prod.splits)

lemma keeps_record_schema:
  "routeSchemaParameter sj prof opts p v r = Inr r' \<Longrightarrow> keeps_record r r'"
  by (auto simp: routeSchemaParameter_def Let_def js_result split: if_splits option.splits prod.splits)

lemma recorded_parameter:
  "routeParameter sj form_body prof opts p v r = Inr r' \<Longrightarrow> contributions_recorded r \<Longrightarrow> contributions_recorded r'"
  using keeps_record_content keeps_record_schema
  by (auto simp: routeParameter_def keeps_record_def split: if_splits)

lemma recorded_update [simp]:
  "contributions_recorded (r \<lparr> bodyFields := ms \<rparr>) = contributions_recorded r"
  "contributions_recorded (r \<lparr> bodyValue := v \<rparr>) = contributions_recorded r"
  "contributions_recorded (r \<lparr> bodySet := b \<rparr>) = contributions_recorded r"
  by (simp_all add: contributions_recorded_def)

lemma recorded_empty: "contributions_recorded (empty_route tpl)" "contributions_recorded ((empty_route tpl) \<lparr> bodySet := b \<rparr>)"
  by (simp_all add: contributions_recorded_def empty_route_def)

lemma recorded_route_fields:
  "contributions_recorded (fst (fold (route_field plan c input) names st)) = contributions_recorded (fst st)"
proof (induction names arbitrary: st)
  case (Cons name names)
  have "contributions_recorded (fst (route_field plan c input name st)) = contributions_recorded (fst st)"
    by (cases st) (auto simp: route_field_def Let_def split: option.splits)
  with Cons show ?case by simp
qed simp

theorem routeInput_recorded:
  assumes "routeInput sj form_body params input tpl plan prof opts = Inr r"
  shows "contributions_recorded r"
proof -
  obtain st unmatched where st: "each_res (route_declared sj form_body prof opts input) params
      \<lparr> rs_routed = empty_route tpl, rs_consumed = [], rs_missingPath = [], rs_missingRequired = [] \<rparr> = Inr st"
    and f: "fold (route_field plan (rs_consumed st) input) (js_sort (member_keys input)) (rs_routed st, []) = (r, unmatched)"
    using assms by (auto simp: routeInput_def js_result Let_def split: if_splits prod.splits)
  have "contributions_recorded (rs_routed st)"
    by (rule each_res_invariant [where I = "\<lambda>st. contributions_recorded (rs_routed st)", OF st])
      (auto simp: recorded_empty route_declared_def js_result dest: recorded_parameter split: if_splits)
  with recorded_route_fields [of plan "rs_consumed st" input "js_sort (member_keys input)" "(rs_routed st, [])"] f
  show ?thesis by simp
qed

lemma recorded_rest:
  "contributions_recorded (fst (fold (envelope_rest plan input c) names st)) = contributions_recorded (fst st)"
proof (induction names arbitrary: st)
  case (Cons name names)
  have "contributions_recorded (fst (envelope_rest plan input c name st)) = contributions_recorded (fst st)"
    by (cases st) (auto simp: envelope_rest_def)
  with Cons show ?case by simp
qed simp

lemma recorded_body:
  assumes "envelope_body conv oas30 env plan st = Inr st'" and "contributions_recorded (fst st)"
  shows "contributions_recorded (fst st')"
proof -
  have step: "envelope_body_property conv oas30 env bp n st = Inr st' \<Longrightarrow> contributions_recorded (fst st) \<Longrightarrow>
      contributions_recorded (fst st')" for bp n st st'
    by (cases st) (auto simp: envelope_body_property_def Let_def js_result split: if_splits)
  have "contributions_recorded (fst st')" if "each_res (envelope_body_property conv oas30 env bp) ns st = Inr st'" for bp ns
    by (rule each_res_invariant [where I = "\<lambda>st. contributions_recorded (fst st)", OF that]) (use assms(2) in simp, blast intro: step)
  with assms show ?thesis
    by (cases st) (auto simp: envelope_body_def Let_def split: option.splits if_splits)
qed

theorem routeEnvelope_recorded:
  assumes "routeEnvelope sj form_body params env tpl plan prof opts oas30 = Inr r"
  shows "contributions_recorded r"
proof -
  let ?s0 = "\<lparr> rs_routed = (empty_route tpl) \<lparr> bodySet := re_bodyPresent env \<rparr>, rs_consumed = [],
    rs_missingPath = [], rs_missingRequired = [] \<rparr>"
  obtain st r1 consumed unmatched where st: "each_res (envelope_parameter sj form_body prof opts env) params ?s0 = Inr st"
    "envelope_body (ro_converter opts) oas30 env plan (rs_routed st, rs_consumed st) = Inr (r1, consumed)"
    "fold (envelope_rest plan (re_value env) consumed) (code_point_sort (member_keys (re_value env))) (r1, []) = (r, unmatched)"
    using assms by (auto simp: routeEnvelope_def js_result Let_def case_prod_beta prod_eq_iff split: if_splits)
  have "contributions_recorded (rs_routed st)"
    by (rule each_res_invariant [where I = "\<lambda>st. contributions_recorded (rs_routed st)", OF st(1)])
      (auto simp: recorded_empty envelope_parameter_def js_result dest: recorded_parameter split: if_splits option.splits prod.splits)
  with recorded_body [OF st(2)] st(3)
    recorded_rest [of plan "re_value env" consumed "code_point_sort (member_keys (re_value env))" "(r1, [])"]
  show ?thesis by simp
qed

section \<open>The assembled header section\<close>

lemma map_of_header_set: "map_of (header_set name v hs) = (map_of hs)(name \<mapsto> v)"
proof -
  have "map_of (header_delete name hs) = (map_of hs)(name := None)"
    by (induction hs) (auto simp: header_delete_def fun_eq_iff)
  then show ?thesis by (auto simp: header_set_def map_add_def fun_eq_iff split: option.splits)
qed

text \<open>The last call for a name decides.\<close>

definition last_entry :: "string \<Rightarrow> (string \<times> string) list \<Rightarrow> (string \<times> string) option" where
  "last_entry k hs = List.find (\<lambda>h. ascii_lower (fst h) = k) (rev hs)"

lemma find_append: "List.find P (xs @ ys) = (case List.find P xs of None \<Rightarrow> List.find P ys | Some x \<Rightarrow> Some x)"
  by (induction xs) auto

lemma last_entry_append:
  "last_entry k (xs @ ys) = (case last_entry k ys of None \<Rightarrow> last_entry k xs | Some h \<Rightarrow> Some h)"
  by (simp add: last_entry_def find_append cong: option.case_cong)

lemma last_entry_None: "last_entry k hs = None \<longleftrightarrow> (\<forall>h\<in>set hs. ascii_lower (fst h) \<noteq> k)"
  by (auto simp: last_entry_def find_None_iff)

lemma headers_set_lookup:
  "each_res headers_set hs acc = Inr out \<Longrightarrow>
     map_of out k = (case last_entry k hs of None \<Rightarrow> map_of acc k | Some h \<Rightarrow> field_value (snd h))"
proof (induction hs arbitrary: out rule: rev_induct)
  case Nil
  then show ?case by (simp add: last_entry_def)
next
  case (snoc h hs)
  then obtain mid where mid: "each_res headers_set hs acc = Inr mid" "headers_set h mid = Inr out"
    by (auto simp: each_res_append js_result)
  obtain name v where h: "h = (name, v)" by (cases h)
  from mid(2) h obtain t where "field_value v = Some t" "out = header_set (ascii_lower name) t mid"
    by (auto simp: headers_set_def Let_def split: option.splits if_splits)
  with snoc.IH [OF mid(1)] h show ?case
    by (auto simp: last_entry_append map_of_header_set last_entry_def split: option.splits)
qed

text \<open>Sources of a \<open>Cookie\<close> header: the raw ones, and the units.\<close>

definition raw_cookie_entries :: "routed_input \<Rightarrow> placement list \<Rightarrow> jsval \<Rightarrow> (string \<times> string) list" where
  "raw_cookie_entries r placements ctx =
     filter (\<lambda>h. ascii_lower (fst h) = ''cookie'') (headers r @ credential_entries placements @ hint_entries ctx)"

lemma one_cookie_source:
  assumes "contributions_recorded r" and "openAPICredentialCollision placements params (populated r) = None"
    and "contextChannelCollision ctx placements (populated r) = []"
  shows "cookie_units r placements ctx = [] \<or> raw_cookie_entries r placements ctx = []"
proof (rule disjCI)
  assume raw: "raw_cookie_entries r placements ctx \<noteq> []"
  let ?owner = "raw_cookie_owner placements (populated r)"
  let ?structured = "pop_cookie (populated r) \<noteq> [] \<or> list_ex (\<lambda>pl. pl_channel pl = Cookie_Channel) placements"
  have source: "?owner \<or> raw_cookie_hint ctx"
    using raw assms(1)
    by (fastforce simp: raw_cookie_entries_def filter_empty_conv credential_entries_def hint_entries_def
        raw_cookie_owner_def raw_cookie_hint_def raw_cookie_def on_channel_def list_ex_iff member_keys_def
        contributions_recorded_def)
  have "\<not> (?owner \<and> ?structured)"
    using assms(2) by (auto simp: openAPICredentialCollision_def raw_cookie_owner_def Let_def split: if_splits)
  moreover have "\<not> (raw_cookie_hint ctx \<and> (?owner \<or> ?structured \<or> contextCookies ctx \<noteq> []))"
    "\<not> (?owner \<and> contextCookies ctx \<noteq> [])"
    using assms(3) by (auto simp: contextChannelCollision_def Let_def split: if_splits)
  ultimately have none: "\<not> ?structured" "contextCookies ctx = []" using source by auto
  then have "cookieUnits r = []" using assms(1) by (auto simp: contributions_recorded_def)
  with none show "cookie_units r placements ctx = []"
    by (auto simp: cookie_units_def on_channel_def list_ex_iff filter_empty_conv member_keys_def)
qed

lemma find_SomeD: "List.find P xs = Some x \<Longrightarrow> x \<in> set xs \<and> P x"
  by (induction xs) (auto split: if_splits)

lemma last_entry_Some: "last_entry k hs = Some h \<Longrightarrow> h \<in> set hs \<and> ascii_lower (fst h) = k"
  unfolding last_entry_def by (drule find_SomeD) simp

lemma cookie_lower: "ascii_lower ''Cookie'' = ''cookie''"
  by code_simp

lemma cookie_entries_last:
  assumes "cookie_units r placements ctx = [] \<or> raw_cookie_entries r placements ctx = []"
    and "h \<in> set (headers r @ credential_entries placements @ hint_entries ctx)"
  shows "last_entry (ascii_lower (fst h)) (cookie_entries r placements ctx) = None"
  using assms by (auto simp: cookie_entries_def raw_cookie_entries_def last_entry_None filter_empty_conv Let_def cookie_lower)

lemma credential_entry_last:
  assumes "distinct (map wire_key placements)" and "pl \<in> set placements" and "pl_channel pl = Header_Channel"
  shows "last_entry (ascii_lower (pl_name pl)) (credential_entries placements) = Some (pl_name pl, pl_value pl)"
proof -
  have "(pl_name pl, pl_value pl) \<in> set (credential_entries placements)"
    using assms(2,3) by (auto simp: credential_entries_def on_channel_def)
  then obtain h where h: "last_entry (ascii_lower (pl_name pl)) (credential_entries placements) = Some h"
    using last_entry_None [of "ascii_lower (pl_name pl)" "credential_entries placements"] by fastforce
  from last_entry_Some [OF h] obtain q where q: "q \<in> set placements" "pl_channel q = Header_Channel"
    "h = (pl_name q, pl_value q)" "ascii_lower (pl_name q) = ascii_lower (pl_name pl)"
    by (auto simp: credential_entries_def on_channel_def)
  then have "wire_key q = wire_key pl" using assms(3) by (simp add: wire_key_def)
  with assms(1,2) q(1) have "q = pl" by (meson distinct_map inj_onD)
  with h q(3) show ?thesis by simp
qed

definition hinted :: "jsval \<Rightarrow> string \<Rightarrow> bool" where
  "hinted ctx k \<longleftrightarrow> (\<exists>h\<in>set (hint_entries ctx). ascii_lower (fst h) = k)"

text \<open>
  C15.  The assembled request keeps its sources apart.  After routing, when assembly succeeds: a \<open>Cookie\<close>
  header has one source, either the units of parameters, credentials and hints, all of them joined, or a
  single raw field; every header credential is sent with its value, and every header parameter with its
  own, unless a hint of the context names the same field.
\<close>

theorem assembled_request_keeps_sources_apart:
  assumes "routeInput sj form_body params input path plan prof opts = Inr r \<or>
      routeEnvelope sj form_body params env path eplan prof opts oas30 = Inr r"
    and "assemble_request new_url baseURL params contentType accept r placements ctx = Inr (url, hs)"
  shows "url = request_url baseURL r placements \<and>
    (cookie_units r placements ctx = [] \<or>
      raw_cookie_entries r placements ctx = [] \<and>
      map_of hs ''cookie'' = field_value (join ''; '' (cookie_units r placements ctx))) \<and>
    (\<forall>pl\<in>set placements. pl_channel pl = Header_Channel \<longrightarrow> \<not> hinted ctx (ascii_lower (pl_name pl)) \<longrightarrow>
      map_of hs (ascii_lower (pl_name pl)) = field_value (pl_value pl)) \<and>
    (\<forall>h\<in>set (headers r). \<not> hinted ctx (ascii_lower (fst h)) \<longrightarrow>
      (\<exists>g\<in>set (headers r). ascii_lower (fst g) = ascii_lower (fst h) \<and>
        map_of hs (ascii_lower (fst h)) = field_value (snd g)))"
proof -
  have rec: "contributions_recorded r" using assms(1) routeInput_recorded routeEnvelope_recorded by blast
  from assms(2) have a: "openAPICredentialCollision placements params (populated r) = None"
    "contextChannelCollision ctx placements (populated r) = []" "url = request_url baseURL r placements"
    "assemble_headers contentType accept r placements ctx = Inr hs"
    by (auto simp: assemble_request_def Let_def js_result split: option.splits if_splits)
  note one = one_cookie_source [OF rec a(1,2)]
  note apart = collision_check_separates_destinations [OF a(1)]
  note look = headers_set_lookup [OF a(4) [unfolded assemble_headers_def], unfolded last_entry_append]
  have cookie: "cookie_units r placements ctx = [] \<or> raw_cookie_entries r placements ctx = [] \<and>
      map_of hs ''cookie'' = field_value (join ''; '' (cookie_units r placements ctx))"
  proof (cases "cookie_units r placements ctx = []")
    case False
    then have "last_entry ''cookie'' (cookie_entries r placements ctx) = Some (''Cookie'', join ''; '' (cookie_units r placements ctx))"
      by (simp add: cookie_entries_def last_entry_def cookie_lower)
    with look [of "''cookie''"] one False show ?thesis by simp
  qed simp
  have unhinted: "last_entry k (hint_entries ctx) = None" if "\<not> hinted ctx k" for k
    using that by (auto simp: hinted_def last_entry_None)
  have creds: "map_of hs (ascii_lower (pl_name pl)) = field_value (pl_value pl)"
    if "pl \<in> set placements" "pl_channel pl = Header_Channel" "\<not> hinted ctx (ascii_lower (pl_name pl))" for pl
    using look [of "ascii_lower (pl_name pl)"] unhinted [OF that(3)] credential_entry_last [OF conjunct1 [OF apart] that(1,2)]
      cookie_entries_last [OF one, of "(pl_name pl, pl_value pl)"] that(1,2)
    by (simp add: credential_entries_def on_channel_def)
  have params: "\<exists>g\<in>set (headers r). ascii_lower (fst g) = ascii_lower (fst h) \<and> map_of hs (ascii_lower (fst h)) = field_value (snd g)"
    if h: "h \<in> set (headers r)" "\<not> hinted ctx (ascii_lower (fst h))" for h
  proof -
    have "ascii_lower (fst h) \<in> set (pop_header (populated r))" using rec h(1) by (simp add: contributions_recorded_def)
    with apart have "last_entry (ascii_lower (fst h)) (credential_entries placements) = None"
      by (fastforce simp: last_entry_None credential_entries_def on_channel_def wire_key_def populated_names_def)
    moreover obtain g where "last_entry (ascii_lower (fst h)) (headers r) = Some g"
      using h(1) last_entry_None [of "ascii_lower (fst h)" "headers r"] by fastforce
    ultimately show ?thesis
      using look [of "ascii_lower (fst h)"] unhinted [OF h(2)] cookie_entries_last [OF one, of h] h(1)
        last_entry_Some [of "ascii_lower (fst h)" "headers r" g] by auto
  qed
  show ?thesis using a(3) cookie creds params by blast
qed

section \<open>The gate\<close>

lemma refuse_if_Inr [simp]: "refuse_if m = Inr u \<longleftrightarrow> m = []"
  by (simp add: refuse_if_def js_result)

lemma declaration_gate_ok:
  assumes "declaration_gate rx prof doc securityDoc path pathItem op wireMethod = Inr params"
  shows "params = effectiveParameters pathItem op \<and> CHR ''?'' \<notin> set path \<and> CHR ''#'' \<notin> set path \<and>
    parameterOwnershipConflict params = [] \<and> pathTemplateAddressabilityConflict path params = []"
  using assms
  by (auto simp: declaration_gate_def Let_def js_result simp del: append.simps split: if_splits)

lemma addressable_variables:
  assumes "pathTemplateAddressabilityConflict path params = []" and "n \<in> set (pathTemplateVariables path)"
  shows "n \<in> p_name ` {p \<in> set params. p_in p = ''path''}"
proof -
  have "remdups (filter (\<lambda>n. n \<notin> set (map p_name (filter (\<lambda>p. p_in p = ''path'' \<and> p_name p \<noteq> []) params)))
      (pathTemplateVariables path)) = []"
    using assms(1) by (simp add: pathTemplateAddressabilityConflict_def Let_def split: if_splits)
  with assms(2) show ?thesis by (auto simp: filter_empty_conv)
qed

text \<open>
  C13.  What passes the gate can be addressed and is authenticated: the parameters are the effective ones,
  the path template has no query or fragment delimiter and a declared path parameter for each of its
  variables, the base is the resolved server, and when the operation has Security Requirement Objects one
  alternative of them is selected, anonymous by declaration or satisfied by the context.  There is one way
  past the last condition: a context whose configuration has the member \<open>security\<close> with the value
  \<open>undefined\<close>, which passes the gate with no alternative selected
  (\<open>undefined_selection_sends_unauthenticated\<close>).
\<close>

theorem preflight_addresses_and_authenticates:
  assumes "preflight new_url resolve rx prof doc referring path pathItem op wireMethod ctx location = Inr (params, baseURL)"
  shows "params = effectiveParameters pathItem op \<and> CHR ''?'' \<notin> set path \<and> CHR ''#'' \<notin> set path \<and>
    (\<forall>n\<in>set (pathTemplateVariables path). n \<in> p_name ` {p \<in> set params. p_in p = ''path''}) \<and>
    resolveServer new_url doc pathItem op ctx location = Inr baseURL \<and>
    (effectiveSecurityRequirements (scopedSecurityDocument doc referring ctx) op = [] \<or>
      map_of (contextConfiguration ctx) ''security'' = Some JUndefined \<or>
      (\<exists>plan. selectedSecurityPlan resolve (scopedSecurityDocument doc referring ctx) op ctx baseURL params wireMethod = Some plan \<and>
        (sp_requirements plan = [] \<or> plan_satisfied ctx plan)))"
proof -
  let ?doc = "scopedSecurityDocument doc referring ctx"
  from assms have g: "declaration_gate rx prof doc ?doc path pathItem op wireMethod = Inr params"
    "resolveServer new_url doc pathItem op ctx location = Inr baseURL"
    "security_gate resolve ?doc op ctx baseURL params wireMethod = Inr ()"
    by (auto simp: preflight_def Let_def js_result)
  note d = declaration_gate_ok [OF g(1)]
  from g(3) have s: "securitySelectionError resolve ?doc op ctx baseURL params wireMethod = []"
    "requiredContext resolve ?doc op ctx baseURL params wireMethod = None"
    by (auto simp: security_gate_def js_result split: option.splits)
  have "effectiveSecurityRequirements ?doc op = [] \<or> map_of (contextConfiguration ctx) ''security'' = Some JUndefined \<or>
      (\<exists>plan. selectedSecurityPlan resolve ?doc op ctx baseURL params wireMethod = Some plan \<and>
        (sp_requirements plan = [] \<or> plan_satisfied ctx plan))"
    using secured_selection [OF s] selected_in(2) by blast
  with d g(2) addressable_variables show ?thesis by blast
qed

section \<open>What redirects keep\<close>

definition clean_of :: "placement list \<Rightarrow> planned_request \<Rightarrow> bool" where
  "clean_of owned q \<longleftrightarrow> (\<forall>h\<in>set (pq_headers q). fst h \<notin> set (''cookie'' # owned_headers owned))"

definition hop_of :: "placement list \<Rightarrow> planned_request \<Rightarrow> planned_request \<Rightarrow> bool" where
  "hop_of owned r q \<longleftrightarrow>
     pq_method q = pq_method r \<and> pq_body q = pq_body r \<and> set (pq_headers q) \<subseteq> set (pq_headers r) \<and>
     (lo_origin (pq_target q) \<noteq> lo_origin (pq_target r) \<longrightarrow> clean_of owned q)"

lemma strip_origin:
  "\<forall>n u. lo_origin (strip n u) = lo_origin u \<Longrightarrow>
     lo_origin (fold (\<lambda>pl. strip (pl_name pl)) pls target) = lo_origin target"
  by (induction pls arbitrary: target) auto

lemma next_hop_of:
  assumes "\<forall>n u. lo_origin (strip n u) = lo_origin u" and "hop_of owned r0 r"
  shows "hop_of owned r0 (next_hop strip owned target r)"
  using assms strip_origin [OF assms(1)]
  by (auto simp: hop_of_def next_hop_def clean_of_def set_fold_delete set_header_delete)

lemma redirect_loop_cases:
  "redirect_loop send new_url strip owned (Suc k) sent r = (rs, result) \<Longrightarrow>
     rs = sent @ [r] \<or> (\<exists>target. redirect_loop send new_url strip owned k (sent @ [r]) (next_hop strip owned target r) = (rs, result))"
  by (subst (asm) redirect_loop.simps) (auto simp: Let_def split: sum.splits if_splits option.splits)

lemma redirect_loop_hops:
  assumes strip: "\<forall>n u. lo_origin (strip n u) = lo_origin u"
  shows "redirect_loop send new_url strip owned k sent r = (rs, result) \<Longrightarrow> hop_of owned r0 r \<Longrightarrow>
    \<exists>ts. rs = sent @ r # ts \<and> length ts \<le> k \<and> (\<forall>q\<in>set ts. hop_of owned r0 q)"
proof (induction k arbitrary: sent r)
  case 0
  then show ?case
    by (subst (asm) redirect_loop.simps) (auto simp: Let_def split: sum.splits if_splits)
next
  case (Suc k)
  from redirect_loop_cases [OF Suc.prems(1)] show ?case
  proof
    assume "rs = sent @ [r]"
    then show ?thesis by simp
  next
    assume "\<exists>target. redirect_loop send new_url strip owned k (sent @ [r]) (next_hop strip owned target r) = (rs, result)"
    then obtain target where t: "redirect_loop send new_url strip owned k (sent @ [r]) (next_hop strip owned target r) = (rs, result)"
      by blast
    from Suc.IH [OF t next_hop_of [OF strip Suc.prems(2)]] next_hop_of [OF strip Suc.prems(2), of target]
    show ?thesis by auto
  qed
qed

lemma owned_headers_member:
  "pl \<in> set owned \<Longrightarrow> pl_channel pl = Header_Channel \<Longrightarrow> ascii_lower (pl_name pl) \<in> set (owned_headers owned)"
  by (force simp: owned_headers_def)

lemma hop_clean:
  assumes "hop_of owned r q" and "lo_origin (pq_target q) \<noteq> lo_origin (pq_target r)" and "h \<in> set (pq_headers q)"
  shows "fst h \<noteq> ''cookie'' \<and> (\<forall>pl\<in>set owned. pl_channel pl = Header_Channel \<longrightarrow> fst h \<noteq> ascii_lower (pl_name pl))"
proof -
  have "fst h \<notin> set (''cookie'' # owned_headers owned)" using assms by (simp add: hop_of_def clean_of_def)
  with owned_headers_member show ?thesis by fastforce
qed

text \<open>
  C16.  Redirects keep the request and its credentials: at most ten requests are sent, one unless redirects
  are followed, all with the method and the body of the first and headers among its own, and a request to
  another origin than the first carries no \<open>Cookie\<close> and no header of a selected credential.
\<close>

theorem redirects_keep_credentials_home:
  assumes "dispatchWithSafeRedirects send new_url strip owned follow r = (rs, result)"
    and "\<forall>n u. lo_origin (strip n u) = lo_origin u"
  shows "\<exists>ts. rs = r # ts \<and> length rs \<le> 10 \<and> (follow \<or> ts = []) \<and>
    (\<forall>q\<in>set rs. pq_method q = pq_method r \<and> pq_body q = pq_body r \<and> set (pq_headers q) \<subseteq> set (pq_headers r) \<and>
      (lo_origin (pq_target q) \<noteq> lo_origin (pq_target r) \<longrightarrow>
        (\<forall>h\<in>set (pq_headers q). fst h \<noteq> ''cookie'' \<and>
          (\<forall>pl\<in>set owned. pl_channel pl = Header_Channel \<longrightarrow> fst h \<noteq> ascii_lower (pl_name pl)))))"
proof -
  have self: "hop_of owned r r" by (simp add: hop_of_def)
  obtain ts where ts: "rs = r # ts" "length ts \<le> 9" "follow \<or> ts = []" "\<forall>q\<in>set ts. hop_of owned r q"
  proof (cases follow)
    case True
    then have "redirect_loop send new_url strip owned 9 [] r = (rs, result)"
      using assms(1) by (simp add: dispatchWithSafeRedirects_def)
    from redirect_loop_hops [OF assms(2) this self] that True show ?thesis by auto
  next
    case False
    with assms(1) that show ?thesis by (auto simp: dispatchWithSafeRedirects_def)
  qed
  have "\<forall>q\<in>set rs. hop_of owned r q" using ts(1,4) self by auto
  then show ?thesis
    using ts(1-3) hop_clean by (intro exI [of _ ts] conjI ballI impI) (auto simp: hop_of_def)
qed

section \<open>A request with three sources\<close>

definition example_header_parameter :: jsval where
  "example_header_parameter = JObj [(''name'', JStr ''X-Trace''), (''in'', JStr ''header'')]"

definition example_credential :: placement where
  "example_credential = \<lparr> pl_channel = Header_Channel, pl_name = ''X-Key'', pl_value = ''k1'' \<rparr>"

definition example_hints :: jsval where
  "example_hints = JObj [(''headers'', JObj [(''X-Hint'', JStr '' h '')]), (''cookies'', JObj [(''sid'', JStr ''s'')])]"

definition example_routing :: "(carriage_error, routed_input) res" where
  "example_routing =
     routeInput example_stringify (\<lambda>_ _. Inr []) [example_path_parameter, example_header_parameter]
       [(''id'', JStr ''a/b''), (''X-Trace'', JStr ''t'')] ''/x/{id}'' None OPENAPI_PROFILE_BASE example_options"

definition example_completed :: url_parser where
  "example_completed s base =
     Some \<lparr> u_href = s, u_protocol = ''https:'', u_username = [], u_password = [], u_hostname = ''h'',
            u_pathname = ''/'', u_search = [], u_hash = [] \<rparr>"

lemma example_assembled:
  "res_bind (res_map (\<lambda>r. r) example_routing) (\<lambda>r. res_err (\<lambda>_. ConversionRequired)
     (assemble_request example_completed ''https://h'' [example_path_parameter, example_header_parameter] []
       ''application/json'' r [example_credential] example_hints)) =
   Inr (''https://h/x/a%2Fb'',
     [(''accept'', ''application/json''), (''x-trace'', ''t''), (''x-key'', ''k1''), (''x-hint'', ''h''), (''cookie'', ''sid=s'')])"
  by code_simp

theorem assembled_request_keeps_sources_apart_witness:
  "\<exists>r url hs. example_routing = Inr r \<and>
     assemble_request example_completed ''https://h'' [example_path_parameter, example_header_parameter] []
       ''application/json'' r [example_credential] example_hints = Inr (url, hs) \<and>
     map_of hs ''x-key'' = field_value ''k1''"
proof -
  obtain r where r: "example_routing = Inr r"
    using example_assembled by (auto simp: js_result)
  let ?run = "assemble_request example_completed ''https://h'' [example_path_parameter, example_header_parameter] []
      ''application/json'' r [example_credential] example_hints"
  obtain url hs where run: "?run = Inr (url, hs)"
    using example_assembled by (auto simp: r js_result)
  have "routeInput example_stringify (\<lambda>_ _. Inr []) [example_path_parameter, example_header_parameter]
      [(''id'', JStr ''a/b''), (''X-Trace'', JStr ''t'')] ''/x/{id}'' None OPENAPI_PROFILE_BASE example_options = Inr r"
    using r by (simp add: example_routing_def)
  note placed = assembled_request_keeps_sources_apart [OF disjI1 [OF this] run]
  have k: "ascii_lower (pl_name example_credential) = ''x-key''" "pl_value example_credential = ''k1''"
    "pl_channel example_credential = Header_Channel" by code_simp+
  have "hint_entries example_hints = [(''X-Hint'', '' h '')]" by code_simp
  moreover have "ascii_lower ''X-Hint'' = ''x-hint''" by code_simp
  ultimately have "\<not> hinted example_hints ''x-key''" by (simp add: hinted_def)
  with placed k have "map_of hs ''x-key'' = field_value ''k1''" by (metis list.set_intros(1))
  with r run show ?thesis by blast
qed

definition example_gate :: "(refusal, jsval list \<times> string) res" where
  "example_gate =
     preflight example_completed (\<lambda>_ _. None) (\<lambda>_ _. None) OPENAPI_PROFILE_FULL
       (JObj [(''openapi'', JStr ''3.1.0''), (''servers'', JArr [JObj [(''url'', JStr ''https://h'')]]),
          (''components'', JObj [(''securitySchemes'', JObj [(''key'',
             JObj [(''type'', JStr ''apiKey''), (''in'', JStr ''header''), (''name'', JStr ''X-Key'')])])]),
          (''security'', JArr [JObj [(''key'', JArr [])]]), (''paths'', JObj [(''/x/{id}'', JObj [])])])
       JUndefined ''/x/{id}''
       (JObj [(''parameters'', JArr [JObj [(''name'', JStr ''id''), (''in'', JStr ''path''), (''required'', JBool True),
          (''schema'', JObj [(''type'', JStr ''string'')])]])])
       (JObj []) ''GET'' (JObj [(''apiKey'', JStr ''k'')]) None"

lemma example_gate_passed: "res_map snd example_gate = Inr ''https://h''"
  by code_simp

theorem preflight_addresses_and_authenticates_witness:
  "\<exists>params baseURL. example_gate = Inr (params, baseURL) \<and>
     (\<forall>n\<in>set (pathTemplateVariables ''/x/{id}''). n \<in> p_name ` {p \<in> set params. p_in p = ''path''}) \<and>
     map_of (contextConfiguration (JObj [(''apiKey'', JStr ''k'')])) ''security'' \<noteq> Some JUndefined"
proof -
  obtain params baseURL where g: "example_gate = Inr (params, baseURL)"
    using example_gate_passed by (auto simp: js_result)
  have "map_of (contextConfiguration (JObj [(''apiKey'', JStr ''k'')])) ''security'' \<noteq> Some JUndefined" by code_simp
  with preflight_addresses_and_authenticates [OF g [unfolded example_gate_def]] g show ?thesis by blast
qed

definition example_place :: "string \<Rightarrow> location" where
  "example_place host = \<lparr> lo_protocol = ''https:'', lo_origin = ''https://'' @ host, lo_href = ''https://'' @ host @ ''/'' \<rparr>"

definition example_hops :: planned_network where
  "example_hops sent r =
     Inr \<lparr> hs_status = (if sent = [] then 307 else 200),
           hs_headers = (if sent = [] then [(''location'', ''//evil'')] else []), hs_body = None \<rparr>"

definition example_planned :: planned_request where
  "example_planned =
     \<lparr> pq_target = example_place ''h'', pq_method = ''POST'',
       pq_headers = [(''x-key'', ''k1''), (''cookie'', ''sid=s''), (''accept'', ''*/*'')], pq_body = Some ''b'' \<rparr>"

lemma example_hops_sent:
  "map (\<lambda>q. (lo_origin (pq_target q), pq_method q, map fst (pq_headers q)))
     (fst (dispatchWithSafeRedirects example_hops (\<lambda>_ _. Some (example_place ''evil'')) (\<lambda>_ u. u) [example_credential]
       True example_planned)) =
   [(''https://h'', ''POST'', [''x-key'', ''cookie'', ''accept'']), (''https://evil'', ''POST'', [''accept''])]"
  by code_simp

theorem redirects_keep_credentials_home_witness:
  "\<exists>rs result. dispatchWithSafeRedirects example_hops (\<lambda>_ _. Some (example_place ''evil'')) (\<lambda>_ u. u) [example_credential]
       True example_planned = (rs, result) \<and> length rs \<le> 10 \<and> (\<forall>q\<in>set rs. pq_body q = Some ''b'')"
proof -
  obtain rs result where run: "dispatchWithSafeRedirects example_hops (\<lambda>_ _. Some (example_place ''evil'')) (\<lambda>_ u. u)
      [example_credential] True example_planned = (rs, result)" by fastforce
  from redirects_keep_credentials_home [OF run] have "length rs \<le> 10 \<and> (\<forall>q\<in>set rs. pq_body q = pq_body example_planned)"
    by auto
  with run show ?thesis by (simp add: example_planned_def)
qed

section \<open>What a custom handler sends\<close>

text \<open>
  A scheme that a security handler satisfies has no credential value, so it owns no destination: the
  field the handler sets goes along to another origin.
\<close>

lemma handled_scheme_owns_no_header:
  "let scheme = JObj [(''type'', JStr ''apiKey''), (''in'', JStr ''header''), (''name'', JStr ''X-Key'')];
       plan = \<lparr> sp_requirements = [[(''type'', JStr ''auth.apiKey''), (''name'', JStr ''key'')]],
                sp_schemes = [(''key'', scheme)], sp_alternative = 0 \<rparr>;
       ctx = JObj [(''$openapiSecurity'', JObj [(''key'', JBool True)])] in
   plan_satisfied ctx plan \<and> credentialValues plan ctx = Inr [] \<and>
   map pl_name (openAPICredentialDestinations (sp_schemes plan)) = [''X-Key''] \<and>
   map fst (pq_headers (next_hop (\<lambda>_ u. u) [] (example_place ''evil'') example_planned)) = [''x-key'', ''accept'']"
  by code_simp

end
