(* ===== verification/Swagger20_Security.thy ===== *)
theory Swagger20_Security
  imports Swagger20_Params Security_Wire
begin

text \<open>
  \<open>swagger20-security.ts\<close>, the requirement builders of \<open>swagger20-context.ts\<close> it refuses with, and
  \<open>swagger20-server.ts\<close>: the credentials of one security alternative of a Swagger 2.0 operation, where
  they go on the wire, and the target base of the operation.

  The effective \<open>security\<close> and \<open>schemes\<close> members, the root object and the entry resource are
  arguments; the URL parser of the platform is a parameter.  The credential record holds own
  properties only.
\<close>

section \<open>Challenges\<close>

text \<open>A requirement is its type, the name of its scheme and its scopes.\<close>

type_synonym auth_requirement = "string \<times> string \<times> string list"

datatype sec_error =
    Sec_Error string
  | Sec_Config_Required string
  | Sec_Credentials_Required "auth_requirement list" string

definition swagger20CredentialRequirement :: "string \<Rightarrow> string \<Rightarrow> string list \<Rightarrow> auth_requirement option" where
  "swagger20CredentialRequirement schemeType name scopes =
     (if schemeType = ''basic'' then Some (''auth.basic'', name, [])
      else if schemeType = ''apiKey'' then Some (''auth.apiKey'', name, [])
      else if schemeType = ''oauth2'' then Some (''auth.oauth2'', name, scopes)
      else None)"

definition swagger20ConfigurationDescription :: "string \<Rightarrow> string" where
  "swagger20ConfigurationDescription point =
     (if point = ''propertyMedia'' then ''select one concrete media type for this present file form parameter''
      else ''supply the Swagger 2.0 '' @ point @ '' configuration value'')"

definition swagger20ConfigurationSchema :: "string \<Rightarrow> jsval" where
  "swagger20ConfigurationSchema point =
     (if point = ''requestMedia'' \<or> point = ''propertyMedia'' then JObj [(''type'', JStr ''string'')]
      else if point = ''security'' then
        JObj [(''type'', JStr ''object''),
              (''properties'', JObj [(''index'', JObj [(''type'', JStr ''integer''), (''minimum'', JNum ''0'')])]),
              (''required'', JArr [JStr ''index'']), (''additionalProperties'', JBool False)]
      else if point = ''emptyValueForm'' then JObj [(''enum'', JArr [JStr ''name-only'', JStr ''empty''])]
      else JUndefined)"

text \<open>
  \<open>swagger20RefusalError\<close>: the code of a refusal, its message, and the requirement a challenge
  carries; a configuration point is named with its description and schema.
\<close>

datatype refusal_requirement =
    Config_Value string string jsval
  | Auth_Requirements "auth_requirement list"

definition swagger20RefusalError :: "sec_error \<Rightarrow> string \<times> string \<times> refusal_requirement option" where
  "swagger20RefusalError e =
     (case e of
        Sec_Error m \<Rightarrow> (''ERR_REFUSED'', m, None)
      | Sec_Config_Required point \<Rightarrow>
          (''CONTEXT_REQUIRED'', swagger20ConfigurationDescription point,
           Some (Config_Value point (swagger20ConfigurationDescription point) (swagger20ConfigurationSchema point)))
      | Sec_Credentials_Required reqs m \<Rightarrow> (''CONTEXT_REQUIRED'', m, Some (Auth_Requirements reqs)))"

fun scope_texts :: "jsval \<Rightarrow> string list" where
  "scope_texts (JArr xs) = concat (map (\<lambda>v. case as_str v of None \<Rightarrow> [] | Some s \<Rightarrow> [s]) xs)"
| "scope_texts _ = []"

fun alternative_entries :: "js_members \<Rightarrow> js_members \<Rightarrow> string list \<Rightarrow> auth_requirement list option" where
  "alternative_entries requirement definitions [] = Some []"
| "alternative_entries requirement definitions (name # names) =
     (case as_object (get_object definitions name) of
        None \<Rightarrow> None
      | Some d \<Rightarrow>
          (case swagger20CredentialRequirement (member_or [] (stringMember d ''type'')) name
                  (scope_texts (member_of requirement name)) of
             None \<Rightarrow> None
           | Some e \<Rightarrow> map_option ((#) e) (alternative_entries requirement definitions names)))"

definition swagger20AlternativeRequirements :: "js_members \<Rightarrow> js_members \<Rightarrow> auth_requirement list option" where
  "swagger20AlternativeRequirements requirement definitions =
     (case alternative_entries requirement definitions (js_sort (member_keys requirement)) of
        Some (e # es) \<Rightarrow> Some (e # es)
      | _ \<Rightarrow> None)"

definition missingCredentials :: "auth_requirement list option \<Rightarrow> string \<Rightarrow> sec_error" where
  "missingCredentials alternative message =
     (case alternative of None \<Rightarrow> Sec_Error message | Some reqs \<Rightarrow> Sec_Credentials_Required reqs message)"

section \<open>Placements\<close>

record sw_credentials =
  sc_basic :: "(string \<times> string \<times> string) list"
  sc_apiKeys :: "(string \<times> string) list"
  sc_oauth2 :: "(string \<times> string) list"

record sw_placement =
  cp_query :: bool
  cp_wire :: string
  cp_value :: string

definition validBasicText :: "string \<Rightarrow> bool" where
  "validBasicText v \<longleftrightarrow> list_all (\<lambda>p. 0x20 \<le> p \<and> p \<le> 0x7e) (code_points v)"

definition PROCESSOR_OWNED_CREDENTIAL_HEADERS :: "string list" where
  "PROCESSOR_OWNED_CREDENTIAL_HEADERS =
     [''host'', ''content-length'', ''content-type'', ''content-encoding'', ''accept'', ''accept-encoding'',
      ''connection'', ''keep-alive'', ''proxy-authorization'', ''proxy-connection'', ''te'', ''trailer'',
      ''transfer-encoding'', ''upgrade'']"

definition sec_check :: "bool \<Rightarrow> string \<Rightarrow> (sec_error, unit) res" where
  "sec_check ok message = check ok (Sec_Error message)"

definition has_text :: "js_members \<Rightarrow> string \<Rightarrow> bool" where
  "has_text d field \<longleftrightarrow> (case stringMember d field of Valid v \<Rightarrow> v \<noteq> [] | _ \<Rightarrow> False)"

definition oauth2_flow :: "string \<Rightarrow> js_members \<Rightarrow> string \<Rightarrow> (sec_error, unit) res" where
  "oauth2_flow name d flow =
     (if flow = ''implicit'' \<and> \<not> has_text d ''authorizationUrl''
      then Inl (Sec_Error (''Swagger 2.0 implicit OAuth2 definition '' @ json_quote name @ '' requires authorizationUrl''))
      else if flow \<in> set [''password'', ''application''] \<and> \<not> has_text d ''tokenUrl''
      then Inl (Sec_Error (''Swagger 2.0 '' @ flow @ '' OAuth2 definition '' @ json_quote name @ '' requires tokenUrl''))
      else if flow = ''accessCode'' \<and> (\<not> has_text d ''authorizationUrl'' \<or> \<not> has_text d ''tokenUrl'')
      then Inl (Sec_Error (''Swagger 2.0 accessCode OAuth2 definition '' @ json_quote name @
                           '' requires authorizationUrl and tokenUrl''))
      else sec_check (flow \<in> set [''implicit'', ''password'', ''application'', ''accessCode''])
             (''Swagger 2.0 OAuth2 definition '' @ json_quote name @ '' has inadmissible flow '' @ json_quote flow))"

definition validateOAuth2 :: "string \<Rightarrow> js_members \<Rightarrow> string list \<Rightarrow> (sec_error, unit) res" where
  "validateOAuth2 name d requiredScopes =
     (case stringMember d ''flow'' of
        Valid flow \<Rightarrow>
          res_bind (oauth2_flow name d flow) (\<lambda>_.
          case objectMember d ''scopes'' of
            Valid scopes \<Rightarrow>
              res_bind (each_res (\<lambda>m _. sec_check (is_str (snd m))
                (''Swagger 2.0 OAuth2 definition '' @ json_quote name @ '' scope '' @ json_quote (fst m) @
                 '' description is not a string'')) scopes ()) (\<lambda>_.
              each_res (\<lambda>s _. sec_check (has_member scopes s)
                (''Swagger 2.0 OAuth2 requirement '' @ json_quote name @ '' names undeclared scope '' @ json_quote s))
                requiredScopes ())
          | _ \<Rightarrow> Inl (Sec_Error (''Swagger 2.0 OAuth2 definition '' @ json_quote name @ '' requires a scopes object'')))
      | _ \<Rightarrow> Inl (Sec_Error (''Swagger 2.0 OAuth2 definition '' @ json_quote name @ '' requires a string flow'')))"

definition authorization_placement :: "string \<Rightarrow> sw_placement" where
  "authorization_placement v = \<lparr> cp_query = False, cp_wire = ''Authorization'', cp_value = v \<rparr>"

definition sw_basic_placement ::
  "string \<Rightarrow> string list \<Rightarrow> sw_credentials \<Rightarrow> auth_requirement list option \<Rightarrow> (sec_error, sw_placement) res" where
  "sw_basic_placement name scopes credentials alternative =
     (if scopes \<noteq> []
      then Inl (Sec_Error (''Swagger 2.0 basic requirement '' @ json_quote name @ '' must have an empty scopes array''))
      else
        (case map_of (sc_basic credentials) name of
           None \<Rightarrow> Inl (missingCredentials alternative
                     (''Swagger 2.0 basic credential '' @ json_quote name @ '' is required''))
         | Some (userId, password) \<Rightarrow>
             if CHR '':'' \<in> set userId \<or> \<not> validBasicText userId \<or> \<not> validBasicText password
             then Inl (Sec_Error (''Swagger 2.0 basic credential '' @ json_quote name @ '' violates RFC 7617 constraints''))
             else Inr (authorization_placement (''Basic '' @ btoa (userId @ '':'' @ password)))))"

definition sw_apiKey_placement ::
  "string \<Rightarrow> js_members \<Rightarrow> string list \<Rightarrow> sw_credentials \<Rightarrow> auth_requirement list option \<Rightarrow>
     (sec_error, sw_placement) res" where
  "sw_apiKey_placement name d scopes credentials alternative =
     (if scopes \<noteq> []
      then Inl (Sec_Error (''Swagger 2.0 apiKey requirement '' @ json_quote name @ '' must have an empty scopes array''))
      else
        (case (stringMember d ''in'', stringMember d ''name'') of
           (Valid destination, Valid wire) \<Rightarrow>
             if wire = [] \<or> destination \<notin> set [''query'', ''header'']
             then Inl (Sec_Error (''Swagger 2.0 apiKey definition '' @ json_quote name @
                                  '' requires a nonempty name and query or header destination''))
             else if destination = ''header'' \<and> \<not> is_http_token wire
             then Inl (Sec_Error (''Swagger 2.0 apiKey definition '' @ json_quote name @ '' has an invalid header destination''))
             else
               (case map_of (sc_apiKeys credentials) name of
                  None \<Rightarrow> Inl (missingCredentials alternative
                            (''Swagger 2.0 apiKey credential '' @ json_quote name @ '' is required''))
                | Some v \<Rightarrow>
                    if destination = ''header'' \<and> \<not> httpFieldValue v
                    then Inl (Sec_Error (''Swagger 2.0 apiKey credential '' @ json_quote name @ '' contains a field-invalid byte''))
                    else if destination = ''header'' \<and> ascii_lower wire = ''cookie'' \<and> \<not> cookieString v
                    then Inl (Sec_Error (''Swagger 2.0 apiKey credential '' @ json_quote name @
                                         '' is not a complete Cookie field value''))
                    else Inr \<lparr> cp_query = (destination = ''query''), cp_wire = wire, cp_value = v \<rparr>)
         | _ \<Rightarrow> Inl (Sec_Error (''Swagger 2.0 apiKey definition '' @ json_quote name @
                               '' requires a nonempty name and query or header destination''))))"

definition bearer_token :: "string \<Rightarrow> bool" where
  "bearer_token t \<longleftrightarrow>
     (let body = rev (dropWhile (\<lambda>c. c = CHR ''='') (rev t)) in body \<noteq> [] \<and> list_all b64token_char body)"

definition sw_oauth2_placement ::
  "string \<Rightarrow> js_members \<Rightarrow> string list \<Rightarrow> sw_credentials \<Rightarrow> auth_requirement list option \<Rightarrow>
     (sec_error, sw_placement) res" where
  "sw_oauth2_placement name d scopes credentials alternative =
     res_bind (validateOAuth2 name d scopes) (\<lambda>_.
       let message = ''Swagger 2.0 OAuth2 credential '' @ json_quote name @ '' requires an RFC 6750 Bearer access token'' in
       case map_of (sc_oauth2 credentials) name of
         None \<Rightarrow> Inl (missingCredentials alternative message)
       | Some token \<Rightarrow>
           if \<not> bearer_token token then Inl (Sec_Error message)
           else Inr (authorization_placement (''Bearer '' @ token)))"

definition credentialPlacement ::
  "string \<Rightarrow> js_members \<Rightarrow> string list \<Rightarrow> sw_credentials \<Rightarrow> auth_requirement list option \<Rightarrow>
     (sec_error, sw_placement) res" where
  "credentialPlacement name d scopes credentials alternative =
     (case stringMember d ''type'' of
        Valid type \<Rightarrow>
          if type = ''basic'' then sw_basic_placement name scopes credentials alternative
          else if type = ''apiKey'' then sw_apiKey_placement name d scopes credentials alternative
          else if type = ''oauth2'' then sw_oauth2_placement name d scopes credentials alternative
          else Inl (Sec_Error (''Swagger 2.0 security definition '' @ json_quote name @ '' has inadmissible type '' @
                               json_quote type))
      | _ \<Rightarrow> Inl (Sec_Error (''Swagger 2.0 security definition '' @ json_quote name @ '' requires a string type'')))"

section \<open>Selection\<close>

definition sw_wire_key :: "sw_placement \<Rightarrow> bool \<times> string" where
  "sw_wire_key p = (cp_query p, if cp_query p then cp_wire p else ascii_lower (cp_wire p))"

definition credentialCollides :: "sw_placement \<Rightarrow> sw_set \<Rightarrow> bool" where
  "credentialCollides p parameters =
     (if cp_query p then
        (case by_wire parameters ''query'' (cp_wire p) of None \<Rightarrow> False | Some q \<Rightarrow> sp_required q)
      else
        list_ex (\<lambda>q. sp_in q = ''header'' \<and> by_wire parameters ''header'' (sp_name q) = Some q \<and>
                   sp_required q \<and> ascii_lower (sp_name q) = ascii_lower (cp_wire p)) (ss_nonBody parameters))"

definition int_text :: "int \<Rightarrow> string" where
  "int_text i = (if i < 0 then ''-'' @ decimal (nat (- i)) else decimal (nat i))"

type_synonym selection_state = "((bool \<times> string) \<times> string) list \<times> sw_placement list"

definition admit_placement :: "sw_set \<Rightarrow> string \<Rightarrow> sw_placement \<Rightarrow> selection_state \<Rightarrow> (sec_error, selection_state) res" where
  "admit_placement parameters name p st =
     (let (owned, placements) = st; previous = map_of owned (sw_wire_key p) in
      if previous \<noteq> None \<and> previous \<noteq> Some []
      then Inl (Sec_Error (''Swagger 2.0 credentials '' @ json_quote (the previous) @ '' and '' @ json_quote name @
                           '' collide at one wire destination''))
      else if credentialCollides p parameters
      then Inl (Sec_Error (''Swagger 2.0 credential '' @ json_quote name @ '' collides with an effective Parameter''))
      else if \<not> cp_query p \<and> ascii_lower (cp_wire p) \<in> set PROCESSOR_OWNED_CREDENTIAL_HEADERS
      then Inl (Sec_Error (''Swagger 2.0 credential '' @ json_quote name @ '' collides with processor-owned header '' @
                           json_quote (cp_wire p)))
      else Inr ((sw_wire_key p, name) # owned, placements @ [p]))"

fun string_scopes :: "jsval \<Rightarrow> string list option" where
  "string_scopes (JArr xs) = (if list_all is_str xs then Some (scope_texts (JArr xs)) else None)"
| "string_scopes _ = None"

definition select_scheme ::
  "js_members \<Rightarrow> js_members \<Rightarrow> sw_set \<Rightarrow> sw_credentials \<Rightarrow> string \<Rightarrow> selection_state \<Rightarrow> (sec_error, selection_state) res" where
  "select_scheme requirement definitions parameters credentials name st =
     (case string_scopes (member_of requirement name) of
        None \<Rightarrow> Inl (Sec_Error (''Swagger 2.0 security requirement '' @ json_quote name @ '' scopes must be a string array''))
      | Some scopes \<Rightarrow>
          (case as_object (get_object definitions name) of
             None \<Rightarrow> Inl (Sec_Error (''Swagger 2.0 security requirement '' @ json_quote name @ '' names no usable root definition''))
           | Some d \<Rightarrow>
               res_bind (credentialPlacement name d scopes credentials
                          (swagger20AlternativeRequirements requirement definitions)) (\<lambda>p.
               admit_placement parameters name p st)))"

text \<open>The index is the one the caller configured, if any; every safe integer.\<close>

definition selectSwagger20Security ::
  "js_members \<Rightarrow> js_members \<Rightarrow> sw_set \<Rightarrow> int option \<Rightarrow> sw_credentials \<Rightarrow> (sec_error, sw_placement list) res" where
  "selectSwagger20Security root operation parameters selection credentials =
     (let own = arrayMember operation ''security'';
          effective = (if sw_present own then own else arrayMember root ''security'') in
      case effective of
        Absent \<Rightarrow> Inr []
      | Ill_Typed \<Rightarrow> Inl (Sec_Error ''Swagger 2.0 effective security field is not an array'')
      | Valid requirements \<Rightarrow>
          if requirements = [] then Inr []
          else if selection = None \<and> length requirements \<noteq> 1 then Inl (Sec_Config_Required ''security'')
          else
            let selected = (case selection of None \<Rightarrow> 0 | Some i \<Rightarrow> i) in
            if selected < 0 \<or> int (length requirements) \<le> selected
            then Inl (Sec_Error (''Swagger 2.0 security alternative index '' @ int_text selected @
                                 '' is outside the effective requirement list''))
            else
              (case as_object (requirements ! nat selected) of
                 None \<Rightarrow> Inl (Sec_Error (''Swagger 2.0 security alternative '' @ int_text selected @ '' is not an object''))
               | Some requirement \<Rightarrow>
                   if requirement = [] then Inr []
                   else
                     (case objectMember root ''securityDefinitions'' of
                        Valid definitions \<Rightarrow>
                          res_map snd
                            (each_res (select_scheme requirement definitions parameters credentials)
                               (js_sort (member_keys requirement)) ([], []))
                      | _ \<Rightarrow> Inl (Sec_Error (''Swagger 2.0 selected security alternative has no usable root '' @
                                            ''securityDefinitions object'')))))"

section \<open>Application\<close>

definition runtimeCredentialCollision :: "sw_routed \<Rightarrow> sw_placement \<Rightarrow> bool" where
  "runtimeCredentialCollision routed p =
     (if cp_query p then list_ex (\<lambda>c. wc_name c = swagger20PercentEncode (cp_wire p)) (sw_query routed)
      else list_ex (\<lambda>c. ascii_lower (wc_name c) = ascii_lower (cp_wire p)) (sw_headers routed))"

definition plain_contribution :: "string \<Rightarrow> string \<Rightarrow> sw_contribution" where
  "plain_contribution name v =
     \<lparr> wc_name = name, wc_value = v, wc_present = True, wc_delimiter = None, wc_octets = None \<rparr>"

definition apply_placement :: "sw_placement \<Rightarrow> sw_routed \<Rightarrow> (sec_error, sw_routed) res" where
  "apply_placement p routed =
     (if runtimeCredentialCollision routed p
      then Inl (Sec_Error (''Swagger 2.0 credential destination '' @ json_quote (cp_wire p) @
                           '' collides with supplied parameter input''))
      else if cp_query p
      then Inr (routed \<lparr> sw_query := sw_query routed @
                  [plain_contribution (swagger20PercentEncode (cp_wire p)) (swagger20PercentEncode (cp_value p))] \<rparr>)
      else Inr (routed \<lparr> sw_headers := sw_headers routed @ [plain_contribution (cp_wire p) (cp_value p)] \<rparr>))"

definition applySwagger20Security :: "sw_routed \<Rightarrow> sw_placement list \<Rightarrow> (sec_error, sw_routed) res" where
  "applySwagger20Security routed placements = each_res apply_placement placements routed"

section \<open>The target base\<close>

record sw_url =
  su_protocol :: string
  su_username :: string
  su_password :: string
  su_host :: string
  su_pathname :: string
  su_search :: string
  su_hash :: string

type_synonym sw_url_parser = "string \<Rightarrow> sw_url option"

definition swagger20Host :: "sw_url_parser \<Rightarrow> string \<Rightarrow> bool" where
  "swagger20Host new_url v =
     (if list_ex (\<lambda>c. c \<in> set ''/?#@'') v then False
      else
        (case new_url (''http://'' @ v) of
           None \<Rightarrow> False
         | Some u \<Rightarrow>
             su_host u = v \<and> su_username u = [] \<and> su_password u = [] \<and> su_pathname u = ''/'' \<and>
             su_search u = [] \<and> su_hash u = []))"

definition validateConfiguredServer :: "sw_url_parser \<Rightarrow> string \<Rightarrow> (sec_error, unit) res" where
  "validateConfiguredServer new_url v =
     (if v = [] \<or> CHR 0x0D \<in> set v \<or> CHR 0x0A \<in> set v
      then Inl (Sec_Error ''Swagger 2.0 consumer server override is not an absolute target URL'')
      else
        (case new_url v of
           None \<Rightarrow> Inl (Sec_Error ''Swagger 2.0 consumer server override is not an absolute target URL'')
         | Some u \<Rightarrow>
             sec_check
               (\<not> ((su_protocol u \<noteq> ''http:'' \<and> su_protocol u \<noteq> ''https:'') \<or> su_host u = [] \<or>
                    su_username u \<noteq> [] \<or> su_password u \<noteq> [] \<or> su_search u \<noteq> [] \<or> su_hash u \<noteq> []))
               ''Swagger 2.0 consumer server override is not a complete HTTP target URL''))"

definition web_schemes :: "string list" where
  "web_schemes = [''http'', ''https'', ''ws'', ''wss'']"

definition inherited_scheme :: "sw_url_parser \<Rightarrow> string option \<Rightarrow> (sec_error, string) res" where
  "inherited_scheme new_url retrieval =
     (case nonempty retrieval of
        None \<Rightarrow> Inl (Sec_Error ''Swagger 2.0 target omits schemes without a document retrieval scheme'')
      | Some r \<Rightarrow>
          (case new_url r of
             None \<Rightarrow> Inl (Sec_Error ''Swagger 2.0 document retrieval URI is invalid'')
           | Some u \<Rightarrow>
               let inherited = ascii_lower (butlast (su_protocol u)) in
               if inherited \<in> set web_schemes then Inr inherited
               else Inl (Sec_Error (''Swagger 2.0 retrieval scheme '' @ json_quote inherited @
                                    '' is not an effective HTTP or WebSocket scheme''))))"

text \<open>The authored schemes, \<open>None\<close> for a member that is none of the four.\<close>

definition effectiveSchemes ::
  "sw_url_parser \<Rightarrow> js_members \<Rightarrow> js_members \<Rightarrow> string option \<Rightarrow> (sec_error, string option list) res" where
  "effectiveSchemes new_url root operation retrieval =
     (let own = arrayMember operation ''schemes'' in
      case (if sw_present own then own else arrayMember root ''schemes'') of
        Absent \<Rightarrow> res_map (\<lambda>s. [Some s]) (inherited_scheme new_url retrieval)
      | Ill_Typed \<Rightarrow> Inl (Sec_Error ''Swagger 2.0 effective schemes must be a nonempty array'')
      | Valid xs \<Rightarrow>
          if xs = [] then Inl (Sec_Error ''Swagger 2.0 effective schemes must be a nonempty array'')
          else Inr (map (\<lambda>v. case as_str v of
                           Some s \<Rightarrow> if s \<in> set web_schemes then Some s else None | None \<Rightarrow> None) xs))"

definition select_scheme_name :: "string option list \<Rightarrow> int option \<Rightarrow> (sec_error, string) res" where
  "select_scheme_name authored schemeIndex =
     (case schemeIndex of
        Some i \<Rightarrow>
          if i < 0 \<or> int (length authored) \<le> i
          then Inl (Sec_Error (''Swagger 2.0 server scheme index '' @ int_text i @ '' is outside the effective scheme list''))
          else
            (case authored ! nat i of
               Some s \<Rightarrow>
                 if s = ''http'' \<or> s = ''https'' then Inr s
                 else Inl (Sec_Error (''Swagger 2.0 effective scheme '' @ json_quote s @ '' is unusable for HTTP execution''))
             | None \<Rightarrow> Inl (Sec_Error ''Swagger 2.0 effective scheme undefined is unusable for HTTP execution''))
      | None \<Rightarrow>
          (case filter (\<lambda>s. s = ''http'' \<or> s = ''https'') (map (case_option [] id) authored) of
             [] \<Rightarrow> Inl (Sec_Error ''Swagger 2.0 target has no usable http or https scheme'')
           | [s] \<Rightarrow> Inr s
           | _ \<Rightarrow> Inl (Sec_Config_Required ''server'')))"

definition document_host :: "sw_url_parser \<Rightarrow> string option \<Rightarrow> (sec_error, string) res" where
  "document_host new_url retrieval =
     (let omitted = Sec_Error ''Swagger 2.0 target omits host without a document retrieval authority'' in
      case nonempty retrieval of
        None \<Rightarrow> Inl omitted
      | Some r \<Rightarrow>
          (case new_url r of
             None \<Rightarrow> Inl (Sec_Error ''Swagger 2.0 document retrieval URI is invalid'')
           | Some u \<Rightarrow> if su_host u = [] then Inl omitted else Inr (su_host u)))"

definition base_path_ok :: "string sw_member \<Rightarrow> bool" where
  "base_path_ok m =
     (case m of
        Absent \<Rightarrow> True
      | Ill_Typed \<Rightarrow> False
      | Valid v \<Rightarrow> starts_with ''/'' v \<and> CHR ''?'' \<notin> set v \<and> CHR ''#'' \<notin> set v)"

definition host_ok :: "sw_url_parser \<Rightarrow> string sw_member \<Rightarrow> bool" where
  "host_ok new_url m =
     (case m of Absent \<Rightarrow> True | Ill_Typed \<Rightarrow> False | Valid v \<Rightarrow> v \<noteq> [] \<and> swagger20Host new_url v)"

definition resolveSwagger20Server ::
  "sw_url_parser \<Rightarrow> js_members \<Rightarrow> js_members \<Rightarrow> sw_resource \<Rightarrow> string \<Rightarrow> string option \<Rightarrow> int option \<Rightarrow>
     (sec_error, string) res" where
  "resolveSwagger20Server new_url root operation entry path configured schemeIndex =
     (if \<not> starts_with ''/'' path
      then Inl (Sec_Error (''Swagger 2.0 Paths key '' @ json_quote path @ '' must begin with /''))
      else
        case configured of
          Some c \<Rightarrow>
            if schemeIndex \<noteq> None
            then Inl (Sec_Error ''configuration.server cannot combine a complete URL with a scheme index'')
            else res_map (\<lambda>_. c) (validateConfiguredServer new_url c)
        | None \<Rightarrow>
            let host = stringMember root ''host''; basePath = stringMember root ''basePath'';
                retrieval = (case sr_retrieval entry of Some r \<Rightarrow> Some r | None \<Rightarrow> sr_requested entry) in
            if \<not> host_ok new_url host
            then Inl (Sec_Error ''Swagger 2.0 host must contain only an authority host and optional port'')
            else if \<not> base_path_ok basePath
            then Inl (Sec_Error ''Swagger 2.0 basePath must be a nonempty absolute path without query or fragment'')
            else
              res_bind (effectiveSchemes new_url root operation retrieval) (\<lambda>authored.
              res_bind (select_scheme_name authored schemeIndex) (\<lambda>selected.
              res_map (\<lambda>h. selected @ ''://'' @ h @ member_or [] basePath)
                (case host of Valid h \<Rightarrow> Inr h | _ \<Rightarrow> document_host new_url retrieval))))"

definition joinSwagger20Target :: "string \<Rightarrow> string \<Rightarrow> string" where
  "joinSwagger20Target base path =
     (if ends_with ''/'' base \<and> starts_with ''/'' path then butlast base @ path else base @ path)"

section \<open>Selected credentials are safe and keep to their own destinations\<close>

definition sw_safe :: "sw_placement \<Rightarrow> bool" where
  "sw_safe p \<longleftrightarrow>
     cp_query p \<or>
     (is_http_token (cp_wire p) \<and> list_all field_octet (cp_value p) \<and>
      ascii_lower (cp_wire p) \<notin> set PROCESSOR_OWNED_CREDENTIAL_HEADERS)"

lemma httpFieldValue_octets: "httpFieldValue v \<Longrightarrow> list_all field_octet v"
  by (auto simp: httpFieldValue_def field_octet_def list_all_iff)

lemma prefix_octets: "list_all field_octet ''Basic ''" "list_all field_octet ''Bearer ''"
  by (simp_all add: field_octet_def byte_def)

lemma b64token_octet: "b64token_char c \<Longrightarrow> field_octet c"
  by (auto simp: b64token_char_def field_octet_def is_alnum_def is_upper_def is_lower_def is_digit_def byte_def)

lemma bearer_token_octets:
  assumes "bearer_token t"
  shows "list_all field_octet t"
proof -
  let ?eq = "\<lambda>c. c = CHR ''=''"
  have "field_octet (CHR ''='')" by (simp add: field_octet_def byte_def)
  then have "list_all field_octet (takeWhile ?eq (rev t))" by (auto simp: list_all_iff dest: set_takeWhileD)
  moreover have "list_all field_octet (dropWhile ?eq (rev t))"
    using assms b64token_octet by (auto simp: bearer_token_def Let_def list_all_iff)
  ultimately have "list_all field_octet (rev t)"
    by (metis list_all_append takeWhile_dropWhile_id)
  then show ?thesis by simp
qed

definition octets_ok :: "sw_placement \<Rightarrow> bool" where
  "octets_ok p \<longleftrightarrow> cp_query p \<or> (is_http_token (cp_wire p) \<and> list_all field_octet (cp_value p))"

lemma authorization_ok: "list_all field_octet v \<Longrightarrow> octets_ok (authorization_placement v)"
proof -
  have "is_http_token ''Authorization''" by code_simp
  then show "list_all field_octet v \<Longrightarrow> octets_ok (authorization_placement v)"
    by (simp add: octets_ok_def authorization_placement_def)
qed

lemma basic_ok:
  assumes "sw_basic_placement name scopes credentials alternative = Inr p"
  shows "octets_ok p"
proof -
  obtain u w where c: "map_of (sc_basic credentials) name = Some (u, w)"
    using assms by (cases "map_of (sc_basic credentials) name") (auto simp: sw_basic_placement_def split: if_splits)
  have "p = authorization_placement (''Basic '' @ btoa (u @ '':'' @ w))"
    using assms unfolding sw_basic_placement_def c option.case prod.case
    by (simp only: sum.inject sum.distinct simp_thms split: if_splits)
  moreover have "list_all field_octet (''Basic '' @ btoa (u @ '':'' @ w))"
    unfolding list_all_append by (rule conjI [OF prefix_octets(1) btoa_field_octets])
  ultimately show ?thesis by (simp only: authorization_ok)
qed

lemma apiKey_ok:
  assumes "sw_apiKey_placement name d scopes credentials alternative = Inr p"
  shows "octets_ok p"
proof -
  obtain destination where dest: "stringMember d ''in'' = Valid destination"
    using assms unfolding sw_apiKey_placement_def
    by (cases "stringMember d ''in''"; simp only: sum.distinct sw_member.case prod.case split: if_splits)
  obtain wire where wire: "stringMember d ''name'' = Valid wire"
    using assms unfolding sw_apiKey_placement_def dest
    by (cases "stringMember d ''name''"; simp only: sum.distinct sw_member.case prod.case split: if_splits)
  obtain v where v: "map_of (sc_apiKeys credentials) name = Some v"
    using assms unfolding sw_apiKey_placement_def dest wire
    by (cases "map_of (sc_apiKeys credentials) name";
        simp only: sum.distinct sw_member.case prod.case option.case split: if_splits)
  have "p = \<lparr> cp_query = (destination = ''query''), cp_wire = wire, cp_value = v \<rparr> \<and>
      destination \<in> set [''query'', ''header''] \<and> (destination = ''header'' \<longrightarrow> is_http_token wire \<and> httpFieldValue v)"
    using assms unfolding sw_apiKey_placement_def dest wire v sw_member.case prod.case option.case
    by (simp only: sum.inject sum.distinct simp_thms split: if_splits) blast
  then show ?thesis using httpFieldValue_octets [of v] by (auto simp: octets_ok_def)
qed

lemma oauth2_ok:
  assumes "sw_oauth2_placement name d scopes credentials alternative = Inr p"
  shows "octets_ok p"
proof -
  obtain t where c: "map_of (sc_oauth2 credentials) name = Some t"
    using assms by (cases "map_of (sc_oauth2 credentials) name") (auto simp: sw_oauth2_placement_def Let_def js_result)
  obtain v where v: "validateOAuth2 name d scopes = Inr v"
    using assms by (cases "validateOAuth2 name d scopes") (auto simp: sw_oauth2_placement_def)
  have p: "p = authorization_placement (''Bearer '' @ t) \<and> bearer_token t"
    using assms unfolding sw_oauth2_placement_def c v Let_def option.case res_bind.simps
    by (simp only: sum.inject sum.distinct simp_thms split: if_splits)
  have "list_all field_octet (''Bearer '' @ t)"
    unfolding list_all_append using prefix_octets(2) bearer_token_octets p by blast
  then show ?thesis using p by (simp only: authorization_ok)
qed

lemma placement_octets:
  assumes "credentialPlacement name d scopes credentials alternative = Inr p"
  shows "octets_ok p"
proof -
  from assms consider "sw_basic_placement name scopes credentials alternative = Inr p"
    | "sw_apiKey_placement name d scopes credentials alternative = Inr p"
    | "sw_oauth2_placement name d scopes credentials alternative = Inr p"
    by (auto simp: credentialPlacement_def split: sw_member.splits if_splits)
  then show ?thesis using basic_ok apiKey_ok oauth2_ok by cases
qed

text \<open>\<open>named\<close> says that no scheme has the empty name; the check of destinations takes such an owner for none.\<close>

definition selection_ok :: "bool \<Rightarrow> selection_state \<Rightarrow> bool" where
  "selection_ok named st \<longleftrightarrow>
     (let (owned, placements) = st in
      list_all sw_safe placements \<and>
      (named \<longrightarrow> map fst owned = rev (map sw_wire_key placements) \<and>
         distinct (map sw_wire_key placements) \<and> [] \<notin> snd ` set owned))"

lemma admit_placement_ok:
  assumes "admit_placement parameters name p st = Inr st'" and "selection_ok named st" and "named \<Longrightarrow> name \<noteq> []"
    and "octets_ok p"
  shows "selection_ok named st' \<and> \<not> credentialCollides p parameters \<and> snd st' = snd st @ [p]"
proof -
  obtain owned placements where st: "st = (owned, placements)" by (cases st)
  from assms(1) st have st': "st' = ((sw_wire_key p, name) # owned, placements @ [p])"
    and free: "map_of owned (sw_wire_key p) = None \<or> map_of owned (sw_wire_key p) = Some []"
    and ok: "\<not> credentialCollides p parameters"
      "cp_query p \<or> ascii_lower (cp_wire p) \<notin> set PROCESSOR_OWNED_CREDENTIAL_HEADERS"
    by (auto simp: admit_placement_def Let_def split: if_splits)
  have "sw_wire_key p \<notin> set (map sw_wire_key placements)" if named
  proof -
    have "map_of owned (sw_wire_key p) = None"
      using free assms(2) st that by (auto simp: selection_ok_def dest!: map_of_SomeD intro: rev_image_eqI)
    then have "sw_wire_key p \<notin> set (map fst owned)" by (simp add: map_of_eq_None_iff)
    moreover have "set (map fst owned) = set (map sw_wire_key placements)"
      using assms(2) st that unfolding selection_ok_def by (metis (mono_tags, lifting) case_prod_conv set_rev)
    ultimately show ?thesis by blast
  qed
  then show ?thesis
    using assms(2-4) st st' ok by (auto simp: selection_ok_def sw_safe_def octets_ok_def)
qed

lemma select_scheme_ok:
  assumes "select_scheme requirement definitions parameters credentials name st = Inr st'"
    and "selection_ok (\<not> has_member definitions []) st"
  shows "selection_ok (\<not> has_member definitions []) st' \<and> (\<exists>p. snd st' = snd st @ [p] \<and> \<not> credentialCollides p parameters)"
proof -
  from assms(1) obtain scopes d p where d: "as_object (get_object definitions name) = Some d"
    and p: "credentialPlacement name d scopes credentials
        (swagger20AlternativeRequirements requirement definitions) = Inr p"
    and adm: "admit_placement parameters name p st = Inr st'"
    by (auto simp: select_scheme_def js_result split: option.splits)
  have "name \<noteq> []" if "\<not> has_member definitions []"
  proof
    assume "name = []"
    then have "map_of definitions name = None" using that by (simp add: has_member_iff)
    then have "get_object definitions name = JUndefined"
      using \<open>name = []\<close> by (simp add: get_object_def object_prototype_names_def)
    then show False using d by simp
  qed
  from admit_placement_ok [OF adm assms(2) this placement_octets [OF p]] show ?thesis by blast
qed

text \<open>
  C31. The credentials of a selected alternative are safe on the wire and keep apart: a header
  credential has a field name the processor does not own and a value without control characters, none
  has the destination of a required parameter, and no two have the same destination, unless the
  document defines a scheme whose name is the empty text.
\<close>
theorem selected_credentials_are_safe:
  assumes "selectSwagger20Security root operation parameters selection credentials = Inr ps"
  shows "list_all sw_safe ps \<and> list_all (\<lambda>p. \<not> credentialCollides p parameters) ps \<and>
    (distinct (map sw_wire_key ps) \<or>
      (\<exists>definitions. objectMember root ''securityDefinitions'' = Valid definitions \<and> has_member definitions []))"
proof (cases "ps = []")
  case False
  from assms False obtain requirement definitions st where defs: "objectMember root ''securityDefinitions'' = Valid definitions"
    and loop: "each_res (select_scheme requirement definitions parameters credentials)
      (js_sort (member_keys requirement)) ([], []) = Inr st" and ps: "ps = snd st"
    by (auto simp: selectSwagger20Security_def Let_def js_result split: sw_member.splits if_splits option.splits)
  have "selection_ok (\<not> has_member definitions []) st \<and> list_all (\<lambda>p. \<not> credentialCollides p parameters) (snd st)"
  proof (rule each_res_invariant [OF loop])
    show "selection_ok (\<not> has_member definitions []) ([], []) \<and>
        list_all (\<lambda>p. \<not> credentialCollides p parameters) (snd ([], []))"
      by (simp add: selection_ok_def)
  qed (use select_scheme_ok in fastforce)
  then show ?thesis unfolding ps using defs by (cases st) (auto simp: selection_ok_def)
qed simp

text \<open>
  The exception is real: \<open>if (previous)\<close> takes an owner with the empty name for no owner, so two
  credentials for one header field are selected.
\<close>

lemma empty_name_owns_nothing:
  "let key = JObj [(''type'', JStr ''apiKey''), (''in'', JStr ''header''), (''name'', JStr ''X-Key'')] in
   selectSwagger20Security
     [(''security'', JArr [JObj [([], JArr []), (''b'', JArr [])]]),
      (''securityDefinitions'', JObj [([], key), (''b'', key)])] []
     empty_set None
     \<lparr> sc_basic = [], sc_apiKeys = [([], ''one''), (''b'', ''two'')], sc_oauth2 = [] \<rparr> =
   Inr [\<lparr> cp_query = False, cp_wire = ''X-Key'', cp_value = ''one'' \<rparr>,
        \<lparr> cp_query = False, cp_wire = ''X-Key'', cp_value = ''two'' \<rparr>]"
  by code_simp

section \<open>Applied credentials are alone at their destinations\<close>

definition at_destination :: "sw_placement \<Rightarrow> sw_routed \<Rightarrow> sw_contribution list" where
  "at_destination p routed =
     (if cp_query p then filter (\<lambda>c. wc_name c = swagger20PercentEncode (cp_wire p)) (sw_query routed)
      else filter (\<lambda>c. ascii_lower (wc_name c) = ascii_lower (cp_wire p)) (sw_headers routed))"

definition credential_contribution :: "sw_placement \<Rightarrow> sw_contribution" where
  "credential_contribution p =
     (if cp_query p then plain_contribution (swagger20PercentEncode (cp_wire p)) (swagger20PercentEncode (cp_value p))
      else plain_contribution (cp_wire p) (cp_value p))"

lemma apply_placement_at:
  assumes "apply_placement p routed = Inr routed'"
  shows "at_destination p routed = [] \<and> at_destination p routed' = [credential_contribution p] \<and>
    (at_destination q routed' = at_destination q routed \<or> at_destination q routed = [])"
  using assms
  by (auto simp: apply_placement_def runtimeCredentialCollision_def at_destination_def credential_contribution_def
      plain_contribution_def list_ex_iff filter_empty_conv split: if_splits)

text \<open>
  Applying the credentials puts each of them at its destination alone: when it succeeds, the
  query units or header fields of the request under the name of a credential are that credential and
  nothing else, neither supplied input nor another credential.
\<close>
theorem applied_credentials_are_alone:
  assumes "applySwagger20Security routed ps = Inr routed'" and "p \<in> set ps"
  shows "at_destination p routed' = [credential_contribution p]"
proof -
  have keep: "each_res apply_placement qs r = Inr r' \<Longrightarrow> at_destination p r = [credential_contribution p] \<Longrightarrow>
      at_destination p r' = [credential_contribution p]" for qs r r'
  proof (induction qs arbitrary: r)
    case (Cons q qs)
    then obtain u where u: "apply_placement q r = Inr u" "each_res apply_placement qs u = Inr r'"
      by (auto simp: js_result)
    have "at_destination p u = at_destination p r"
      using apply_placement_at [OF u(1), of p] Cons.prems(2) by auto
    then show ?case using Cons.IH [OF u(2)] Cons.prems(2) by simp
  qed simp
  show ?thesis
    using assms unfolding applySwagger20Security_def
  proof (induction ps arbitrary: routed)
    case (Cons q qs)
    then obtain u where u: "apply_placement q routed = Inr u" "each_res apply_placement qs u = Inr routed'"
      by (auto simp: js_result)
    show ?case
    proof (cases "p = q")
      case True
      then show ?thesis using keep [OF u(2)] apply_placement_at [OF u(1)] by simp
    next
      case False
      then show ?thesis using Cons.IH [OF u(2)] Cons.prems(2) by simp
    qed
  qed simp
qed

definition simple_routed :: sw_routed where
  "simple_routed =
     \<lparr> sw_resolvedPath = ''/a'', sw_query = [plain_contribution ''q'' ''1''], sw_headers = [], sw_formData = [],
       sw_body = JUndefined, sw_bodyPresent = False, sw_formPresent = False \<rparr>"

definition two_schemes_root :: js_members where
  "two_schemes_root =
     [(''securityDefinitions'',
       JObj [(''b'', JObj [(''type'', JStr ''basic'')]),
             (''k'', JObj [(''type'', JStr ''apiKey''), (''in'', JStr ''query''), (''name'', JStr ''key'')])]),
      (''security'', JArr [JObj [(''b'', JArr []), (''k'', JArr [])]])]"

definition two_credentials :: sw_credentials where
  "two_credentials = \<lparr> sc_basic = [(''b'', ''u'', ''p'')], sc_apiKeys = [(''k'', ''s'')], sc_oauth2 = [] \<rparr>"

lemma selected_credentials_are_safe_witness:
  "\<exists>ps. selectSwagger20Security two_schemes_root [] empty_set None two_credentials = Inr ps \<and>
     length ps = 2 \<and> list_all sw_safe ps \<and> distinct (map sw_wire_key ps)"
proof -
  have "case selectSwagger20Security two_schemes_root [] empty_set None two_credentials of
      Inl _ \<Rightarrow> False | Inr ps \<Rightarrow> length ps = 2"
    by code_simp
  then obtain ps where ps: "selectSwagger20Security two_schemes_root [] empty_set None two_credentials = Inr ps"
    "length ps = 2" by (auto split: sum.splits)
  have "\<not> has_member definitions []" if "objectMember two_schemes_root ''securityDefinitions'' = Valid definitions" for definitions
    using that by (auto simp: two_schemes_root_def objectMember_def typed_member_def)
  with selected_credentials_are_safe [OF ps(1)] ps show ?thesis by blast
qed

lemma applied_credentials_are_alone_witness:
  "\<exists>r. applySwagger20Security simple_routed [\<lparr> cp_query = True, cp_wire = ''key'', cp_value = ''s'' \<rparr>] = Inr r \<and>
     at_destination \<lparr> cp_query = True, cp_wire = ''key'', cp_value = ''s'' \<rparr> r =
       [credential_contribution \<lparr> cp_query = True, cp_wire = ''key'', cp_value = ''s'' \<rparr>]"
proof -
  have "case applySwagger20Security simple_routed [\<lparr> cp_query = True, cp_wire = ''key'', cp_value = ''s'' \<rparr>] of
      Inl _ \<Rightarrow> False | Inr _ \<Rightarrow> True"
    by code_simp
  then obtain r where r: "applySwagger20Security simple_routed [\<lparr> cp_query = True, cp_wire = ''key'', cp_value = ''s'' \<rparr>] = Inr r"
    by (auto split: sum.splits)
  from applied_credentials_are_alone [OF r] r show ?thesis by simp
qed

section \<open>The shape of the target\<close>

lemma select_scheme_name_http: "select_scheme_name authored i = Inr s \<Longrightarrow> s = ''http'' \<or> s = ''https''"
proof (cases i)
  case None
  assume "select_scheme_name authored i = Inr s"
  then have "filter (\<lambda>s. s = ''http'' \<or> s = ''https'') (map (case_option [] id) authored) = [s]"
    unfolding None select_scheme_name_def option.case
    by (cases "filter (\<lambda>s. s = ''http'' \<or> s = ''https'') (map (case_option [] id) authored)" rule: list.exhaust)
      (simp_all split: list.splits)
  then have "s \<in> set (filter (\<lambda>s. s = ''http'' \<or> s = ''https'') (map (case_option [] id) authored))" by simp
  then show ?thesis by simp
next
  case (Some k)
  assume "select_scheme_name authored i = Inr s"
  then show ?thesis unfolding Some select_scheme_name_def by (auto split: if_splits option.splits)
qed

definition authority_free :: "string \<Rightarrow> bool" where
  "authority_free h \<longleftrightarrow> h \<noteq> [] \<and> list_all (\<lambda>c. c \<notin> set ''/?#@'') h"

lemma ends_with_slash: "ends_with ''/'' s \<longleftrightarrow> s \<noteq> [] \<and> last s = CHR ''/''"
  by (cases s rule: rev_cases) (auto simp: ends_with_def)

text \<open>
  The target of an operation has one shape: without a configured server the base is an http or
  https scheme, an authority without path, query, fragment or userinfo characters, and the declared
  base path, and the Paths key is joined to it with one slash at the seam.
\<close>
theorem swagger20_target_shape:
  assumes "resolveSwagger20Server new_url root operation entry path None schemeIndex = Inr base"
    and "\<forall>r u. new_url r = Some u \<longrightarrow> su_host u = [] \<or> authority_free (su_host u)"
  shows "\<exists>scheme host bp. (scheme = ''http'' \<or> scheme = ''https'') \<and> authority_free host \<and>
    base = scheme @ ''://'' @ host @ bp \<and> (bp = [] \<or> hd bp = CHR ''/'') \<and> CHR ''?'' \<notin> set bp \<and> CHR ''#'' \<notin> set bp \<and>
    joinSwagger20Target base path = scheme @ ''://'' @ host @ (if ends_with ''/'' bp then butlast bp else bp) @ path"
proof -
  let ?host = "stringMember root ''host''" and ?bp = "stringMember root ''basePath''"
  let ?ret = "case sr_retrieval entry of Some r \<Rightarrow> Some r | None \<Rightarrow> sr_requested entry"
  have ok: "starts_with ''/'' path" "host_ok new_url ?host" "base_path_ok ?bp"
    using assms(1) unfolding resolveSwagger20Server_def
    by (simp_all only: sum.distinct option.case Let_def simp_thms split: if_splits)
  obtain authored scheme h where s: "select_scheme_name authored schemeIndex = Inr scheme"
    and h: "(case ?host of Valid h \<Rightarrow> Inr h | _ \<Rightarrow> document_host new_url ?ret) = Inr h"
    and base: "base = scheme @ ''://'' @ h @ member_or [] ?bp"
    using assms(1) ok unfolding resolveSwagger20Server_def by (auto simp: Let_def js_result)
  define bp where "bp = member_or [] ?bp"
  have bp: "bp = [] \<or> hd bp = CHR ''/''" "CHR ''?'' \<notin> set bp" "CHR ''#'' \<notin> set bp"
    using ok(3) by (auto simp: bp_def base_path_ok_def member_or_def starts_with_def prefix_def split: sw_member.splits)
  have free: "authority_free h"
  proof (cases ?host)
    case (Valid v)
    then have "v = h" using h by simp
    then show ?thesis
      using ok(2) Valid by (auto simp: host_ok_def swagger20Host_def authority_free_def list_all_iff list_ex_iff split: if_splits)
  next
    case Absent
    then have "document_host new_url ?ret = Inr h" using h by simp
    then obtain r u where "new_url r = Some u" "su_host u = h" "h \<noteq> []"
      unfolding document_host_def Let_def by (auto split: option.splits if_splits)
    then show ?thesis using assms(2) by blast
  next
    case Ill_Typed
    then show ?thesis using ok(2) by (simp add: host_ok_def)
  qed
  have last_h: "h \<noteq> []" "last h \<noteq> CHR ''/''"
    using free by (auto simp: authority_free_def list_all_iff dest: last_in_set)
  have "joinSwagger20Target base path = scheme @ ''://'' @ h @ (if ends_with ''/'' bp then butlast bp else bp) @ path"
  proof (cases "bp = []")
    case True
    then show ?thesis using last_h ok(1) unfolding joinSwagger20Target_def base ends_with_slash bp_def [symmetric] by simp
  next
    case False
    then show ?thesis using last_h ok(1)
      unfolding joinSwagger20Target_def base ends_with_slash bp_def [symmetric] by (simp add: butlast_append)
  qed
  then show ?thesis using select_scheme_name_http [OF s] free base bp unfolding bp_def [symmetric] by blast
qed

definition plain_url_parser :: sw_url_parser where
  "plain_url_parser s =
     (if s = ''http://a.b''
      then Some \<lparr> su_protocol = ''http:'', su_username = [], su_password = [], su_host = ''a.b'', su_pathname = ''/'',
                  su_search = [], su_hash = [] \<rparr>
      else None)"

lemma swagger20_target_shape_witness:
  "\<exists>scheme host bp. joinSwagger20Target ''https://a.b/v1/'' ''/pets'' = scheme @ ''://'' @ host @ bp @ ''/pets'' \<and>
     authority_free host"
proof -
  have run: "resolveSwagger20Server plain_url_parser
      [(''host'', JStr ''a.b''), (''basePath'', JStr ''/v1/''), (''schemes'', JArr [JStr ''https''])] []
      \<lparr> sr_requested = None, sr_retrieval = None \<rparr> ''/pets'' None None = Inr ''https://a.b/v1/''"
    by code_simp
  have host: "\<forall>r u. plain_url_parser r = Some u \<longrightarrow> su_host u = [] \<or> authority_free (su_host u)"
    by (auto simp: plain_url_parser_def authority_free_def split: if_splits)
  obtain scheme host bp where "authority_free host"
    "joinSwagger20Target ''https://a.b/v1/'' ''/pets'' =
       scheme @ ''://'' @ host @ (if ends_with ''/'' bp then butlast bp else bp) @ ''/pets''"
    using swagger20_target_shape [OF run host] by blast
  then show ?thesis by blast
qed

text \<open>
  A parser that drops the default port of http, as the URL Standard says, makes the check refuse a
  host that spells it out.
\<close>

lemma default_port_host_refused:
  assumes "new_url ''http://h:80'' = Some u" and "su_host u = ''h''"
  shows "\<not> swagger20Host new_url ''h:80''"
  using assms by (simp add: swagger20Host_def)

end
