(* ===== verification/Swagger20_Responses.thy ===== *)
theory Swagger20_Responses
  imports Swagger20_Bodies
begin

text \<open>
  The response half of \<open>swagger20-media.ts\<close>: the Responses Object and the response that governs a status,
  the defects of a Response Object, the generated Accept field, the lane a response body is read in
  and its decoding.  The strict JSON reader (\<open>util.ts\<close>, \<open>@openbindings/json\<close>) and the caller's character
  decoders are parameters.
\<close>

section \<open>The Responses Object\<close>

definition swagger20SuccessResponseKey :: "string \<Rightarrow> bool" where
  "swagger20SuccessResponseKey key \<longleftrightarrow>
     key = ''default'' \<or> (length key = 3 \<and> hd key = CHR ''2'' \<and> list_all is_digit key)"

record sw_response =
  rs_raw :: js_members
  rs_resource :: sw_resource
  rs_key :: string
  rs_invalid :: bool

fun resolveResponse ::
  "sw_resolver \<Rightarrow> nat \<Rightarrow> jsval \<Rightarrow> sw_resource \<Rightarrow> string \<Rightarrow> string list \<Rightarrow> (sw_error, sw_response) res" where
  "resolveResponse resolve n v resource key active =
     (case as_object v of
        None \<Rightarrow> Inr \<lparr> rs_raw = [], rs_resource = resource, rs_key = key, rs_invalid = True \<rparr>
      | Some ms \<Rightarrow>
          (case stringMember ms ''$ref'' of
             Ill_Typed \<Rightarrow> Inl (Sw_Error ''Response Reference Object has an invalid $ref'')
           | Valid target \<Rightarrow>
               if target = [] then Inl (Sw_Error ''Response Reference Object has an invalid $ref'')
               else if reference_identity ''response'' resource target \<in> set active
               then Inl (Sw_Error ''selected Response reference cycle is not resolvable'')
               else
                 (case n of
                    0 \<Rightarrow> Inl Sw_Unresolved
                  | Suc m \<Rightarrow>
                      res_bind (resolve target resource) (\<lambda>r.
                      if sn_cycle r then Inl (Sw_Error ''selected Response reference cycle is not resolvable'')
                      else resolveResponse resolve m (sn_node r) (sn_resource r) key
                             [reference_identity ''response'' resource target]))
           | Absent \<Rightarrow> Inr \<lparr> rs_raw = ms, rs_resource = resource, rs_key = key, rs_invalid = False \<rparr>))"

declare resolveResponse.simps [simp del]

definition defect_field :: "js_members \<Rightarrow> string \<Rightarrow> unit \<Rightarrow> (sw_error, unit) res" where
  "defect_field raw field _ =
     (if \<not> has_member raw field then Inr ()
      else
        (case as_object (member_of raw field) of
           None \<Rightarrow> Inl (Sw_Error (''Response Object '' @ json_quote field @ '' is not a map''))
         | Some members \<Rightarrow>
             if field \<noteq> ''headers'' then Inr ()
             else
               each_res (\<lambda>name _.
                   if starts_with ''x-'' name \<or> as_object (member_of members name) \<noteq> None then Inr ()
                   else Inl (Sw_Error (''Response Object header '' @ json_quote name @ '' is not a Header Object'')))
                 (js_sort (member_keys members)) ()))"

definition response_defect :: "js_members \<Rightarrow> (sw_error, unit) res" where
  "response_defect raw =
     (if \<not> has_member raw ''description'' \<and> has_member raw ''schema''
      then Inl (Sw_Error ''Response Object omits its REQUIRED description while declaring a schema'')
      else if has_member raw ''schema'' \<and> as_object (member_of raw ''schema'') = None
      then Inl (Sw_Error ''Response Object `schema` is not a Schema Object'')
      else each_res (defect_field raw) [''headers'', ''examples''] ())"

definition swagger20ResponseObjectDefect ::
  "sw_resolver \<Rightarrow> nat \<Rightarrow> jsval \<Rightarrow> sw_resource \<Rightarrow> string \<Rightarrow> (sw_error, unit) res" where
  "swagger20ResponseObjectDefect resolve n v resource key =
     res_bind (resolveResponse resolve n v resource key []) (\<lambda>r. response_defect (rs_raw r))"

definition status_key :: "string \<Rightarrow> bool" where
  "status_key key \<longleftrightarrow>
     length key = 3 \<and> CHR ''1'' \<le> hd key \<and> hd key \<le> CHR ''5'' \<and> list_all is_digit key"

definition swagger20ResponsesFor :: "js_members \<Rightarrow> (sw_error, js_members) res" where
  "swagger20ResponsesFor operation =
     (case objectMember operation ''responses'' of
        Valid responses \<Rightarrow>
          res_bind (each_res (\<lambda>key count.
              if starts_with ''x-'' (ascii_lower key) then Inr count
              else if key \<noteq> ''default'' \<and> \<not> status_key key
              then Inl (Sw_Error (''selected Swagger 2.0 Responses Object contains inadmissible key '' @ json_quote key))
              else Inr (Suc count)) (member_keys responses) 0) (\<lambda>count.
          if count = 0
          then Inl (Sw_Error ''selected Swagger 2.0 Responses Object has no exact status or default Response'')
          else Inr responses)
      | _ \<Rightarrow> Inl (Sw_Error ''selected Swagger 2.0 Operation requires a Responses Object''))"

text \<open>\<open>None\<close> when no response governs; a response that does not resolve governs as an invalid one.\<close>

definition governingSwagger20Response ::
  "sw_resolver \<Rightarrow> nat \<Rightarrow> sw_resource \<Rightarrow> js_members \<Rightarrow> nat \<Rightarrow> (sw_error, sw_response option) res" where
  "governingSwagger20Response resolve n resource responses status =
     (let exact = decimal status in
      if \<not> has_member responses exact \<and> \<not> has_member responses ''default'' then Inr None
      else
        let key = (if has_member responses exact then exact else ''default'') in
        (case resolveResponse resolve n (member_of responses key) resource key [] of
           Inl Sw_Unresolved \<Rightarrow> Inl Sw_Unresolved
         | Inl _ \<Rightarrow> Inr (Some \<lparr> rs_raw = [], rs_resource = resource, rs_key = key, rs_invalid = True \<rparr>)
         | Inr r \<Rightarrow> Inr (Some r)))"

section \<open>Lanes and the Accept field\<close>

definition swagger20ResponseLane :: "sw_media \<Rightarrow> sw_schema \<Rightarrow> (media_refusal, sw_lane) res" where
  "swagger20ResponseLane media d =
     body_lane (''response media '' @ json_quote (media_text media) @ '' and declaration define no byte carriage'') media d"

definition response_candidates :: "string list" where
  "response_candidates =
     [''application/json'', ''application/problem+json'', ''text/plain'', ''application/xml'',
      ''application/octet-stream'', ''image/png'']"

definition swagger20ResponseRangeHasLane :: "sw_media \<Rightarrow> sw_schema \<Rightarrow> bool" where
  "swagger20ResponseRangeHasLane declared d =
     (if sm_specificity declared = 2 then is_ok (swagger20ResponseLane declared d)
      else
        list_ex (\<lambda>candidate.
          (case parseConcrete candidate of
             Inl _ \<Rightarrow> False
           | Inr media \<Rightarrow> declarationMatches declared media \<and> is_ok (swagger20ResponseLane media d)))
          response_candidates)"

text \<open>The declarations of the responses that resolve; an error other than running out of steps is skipped.\<close>

definition accept_declaration ::
  "sw_resolver \<Rightarrow> nat \<Rightarrow> sw_resource \<Rightarrow> string \<times> jsval \<Rightarrow> sw_schema list \<Rightarrow> (sw_error, sw_schema list) res" where
  "accept_declaration resolve n resource entry ds =
     (let (key, raw) = entry in
      if starts_with ''x-'' key \<or> \<not> (length key = 3 \<and> list_all is_digit key) \<and> key \<noteq> ''default'' then Inr ds
      else
        (case res_bind (resolveResponse resolve n raw resource key []) (\<lambda>r.
                if \<not> has_member (rs_raw r) ''schema'' then Inr []
                else res_map (\<lambda>d. [d])
                       (resolveSwagger20SchemaDeclaration n resolve True (member_of (rs_raw r) ''schema'') (rs_resource r) [])) of
           Inl Sw_Unresolved \<Rightarrow> Inl Sw_Unresolved
         | Inl _ \<Rightarrow> Inr ds
         | Inr d \<Rightarrow> Inr (ds @ d)))"

definition accepted_media :: "sw_schema list \<Rightarrow> sw_media_entry \<Rightarrow> string list" where
  "accepted_media ds e =
     (case usable_entry e of
        None \<Rightarrow> []
      | Some m \<Rightarrow>
          if list_ex (\<lambda>(name, _). ascii_lower name = ''q'') (media_params m) then []
          else if list_ex (swagger20ResponseRangeHasLane m) ds then [media_text m] else [])"

definition swagger20AcceptHeader ::
  "sw_resolver \<Rightarrow> nat \<Rightarrow> js_members \<Rightarrow> js_members \<Rightarrow> sw_resource \<Rightarrow> sw_set \<Rightarrow> js_members \<Rightarrow> (media_refusal, string) res" where
  "swagger20AcceptHeader resolve n root operation resource parameters responses =
     (if list_ex (\<lambda>name. ascii_lower name = ''accept'') (wire_names parameters ''header'') then Inr []
      else
        res_bind (res_err Refused (each_res (accept_declaration resolve n resource) responses [])) (\<lambda>ds.
        if ds = [] then Inr []
        else
          res_map (\<lambda>es. join '', '' (code_point_sort (remdups (concat (map (accepted_media ds) es)))))
            (effectiveSwagger20MediaSet root operation ''produces'')))"

section \<open>Decoding\<close>

definition byte_order_mark :: string where
  "byte_order_mark = [char_of (0xEF :: nat), char_of (0xBB :: nat), char_of (0xBF :: nat)]"

text \<open>\<open>new TextDecoder("utf-8", \{ fatal: true \})\<close>: one byte order mark at the start is dropped.\<close>

definition decode_fatal :: "(string \<Rightarrow> bool) \<Rightarrow> string \<Rightarrow> string option" where
  "decode_fatal well_formed bytes =
     (if \<not> well_formed bytes then None
      else Some (if prefix byte_order_mark bytes then drop 3 bytes else bytes))"

definition decodeCharacterData ::
  "(string \<Rightarrow> bool) \<Rightarrow> (string \<Rightarrow> (string \<Rightarrow> string option) option) \<Rightarrow> string \<Rightarrow> sw_media \<Rightarrow>
     (media_refusal, string) res" where
  "decodeCharacterData well_formed decoders bytes media =
     (let charset = charsetFor media in
      if charset = ''utf-8'' \<or> charset = ''utf8'' then
        (case decode_fatal well_formed bytes of None \<Rightarrow> Inl Type_Error | Some t \<Rightarrow> Inr t)
      else
        (case decoders charset of
           None \<Rightarrow> refuse (''unsupported response character-data charset '' @ json_quote charset)
         | Some decode \<Rightarrow>
             (case decode bytes of
                None \<Rightarrow> refuse (''response character-data charset '' @ json_quote charset @ '' failed'')
              | Some t \<Rightarrow> Inr t)))"

text \<open>The media type, its one governing declaration and the lane of a response.\<close>

definition response_lane ::
  "sw_media_set \<Rightarrow> string \<Rightarrow> sw_schema \<Rightarrow> (media_refusal, sw_media \<times> sw_lane) res" where
  "response_lane produces actual d =
     res_bind (res_err Not_Media (parseConcrete (if actual = [] then ''application/octet-stream'' else actual))) (\<lambda>media.
     case bestMatches produces media of
       [] \<Rightarrow> refuse (''response media '' @ json_quote (media_text media) @
                     '' matches no non-colliding effective produces declaration'')
     | [_] \<Rightarrow> res_map (\<lambda>lane. (media, lane)) (swagger20ResponseLane media d)
     | _ \<Rightarrow> refuse (''response media '' @ json_quote (media_text media) @
                    '' ambiguously matches effective produces''))"

definition decode_lane ::
  "(string \<Rightarrow> bool) \<Rightarrow> (string \<Rightarrow> (media_refusal, jsval) res) \<Rightarrow> (string \<Rightarrow> (string \<Rightarrow> string option) option) \<Rightarrow>
     string \<Rightarrow> sw_media \<Rightarrow> sw_lane \<Rightarrow> (media_refusal, jsval) res" where
  "decode_lane well_formed strict_json decoders bytes media lane =
     (case lane of
        Lane_JSON \<Rightarrow>
          (case decode_fatal well_formed bytes of
             None \<Rightarrow> refuse ''response body is not strict JSON''
           | Some t \<Rightarrow> strict_json t)
      | Lane_Text \<Rightarrow> res_map JStr (decodeCharacterData well_formed decoders bytes media)
      | Lane_Byte \<Rightarrow>
          (case decode_fatal well_formed bytes of
             None \<Rightarrow> Inl Type_Error
           | Some t \<Rightarrow>
               if base64_shape t then Inr (JStr t) else refuse ''format byte response is not standard Base64'')
      | _ \<Rightarrow> Inr (JStr (btoa bytes)))"

definition decodeSwagger20Response ::
  "(string \<Rightarrow> bool) \<Rightarrow> (string \<Rightarrow> (media_refusal, jsval) res) \<Rightarrow> (string \<Rightarrow> (string \<Rightarrow> string option) option) \<Rightarrow>
     sw_resolver \<Rightarrow> nat \<Rightarrow> js_members \<Rightarrow> js_members \<Rightarrow> sw_response \<Rightarrow> string \<Rightarrow> string \<Rightarrow> (media_refusal, jsval) res" where
  "decodeSwagger20Response well_formed strict_json decoders resolve n root operation governing bytes actual =
     (if \<not> has_member (rs_raw governing) ''schema''
      then refuse ''non-empty response is governed by a Response Object without schema''
      else
        res_bind (res_err Refused
            (resolveSwagger20SchemaDeclaration n resolve True (member_of (rs_raw governing) ''schema'')
               (rs_resource governing) [])) (\<lambda>d.
        res_bind (effectiveSwagger20MediaSet root operation ''produces'') (\<lambda>produces.
        res_bind (response_lane produces actual d) (\<lambda>(media, lane).
        decode_lane well_formed strict_json decoders bytes media lane))))"

definition contentCodingTokens :: "string \<Rightarrow> (sw_error, string list) res" where
  "contentCodingTokens v =
     (let tokens = map (\<lambda>t. ascii_lower (js_trim t)) (split_str '','' v) in
      if list_all is_http_token tokens then Inr tokens else Inl (Sw_Error ''invalid Content-Encoding token list''))"

section \<open>What is sent in a lane is read back in it\<close>

lemma canonical_octets: "canonicalBase64Bytes s = Inr bytes \<Longrightarrow> btoa bytes = s"
  by (auto simp: canonicalBase64Bytes_def split: if_splits option.splits)

lemma byte_order_mark_hd: "prefix byte_order_mark s \<Longrightarrow> byte (hd s) = 0xEF"
  by (auto simp: prefix_def byte_order_mark_def byte_def)

lemma base64_shape_no_mark:
  assumes "base64_shape s"
  shows "\<not> prefix byte_order_mark s"
proof
  assume mark: "prefix byte_order_mark s"
  then have "s \<noteq> []" by (auto simp: prefix_def byte_order_mark_def)
  then have "base64_char (hd s)" using assms by (cases s rule: base64_shape.cases) auto
  then show False using byte_order_mark_hd [OF mark] by (auto simp: base64_char_def char_class_defs)
qed

text \<open>What the decoder returns for a body that was sent in a lane; \<open>decode\<close> is the decoding of the bytes.\<close>

definition lane_returns ::
  "json_stringify \<Rightarrow> (string \<Rightarrow> bool) \<Rightarrow> (string \<Rightarrow> (media_refusal, jsval) res) \<Rightarrow>
     (string \<Rightarrow> (string \<Rightarrow> string option) option) \<Rightarrow> sw_media \<Rightarrow> string \<Rightarrow> jsval \<Rightarrow> sw_lane \<Rightarrow>
     (media_refusal, jsval) res \<Rightarrow> bool" where
  "lane_returns sj well_formed strict_json decoders media bytes body lane decoded \<longleftrightarrow>
     (let charset = charsetFor media in
      case lane of
        Lane_JSON \<Rightarrow> sj body = Some bytes \<and>
          (well_formed bytes \<longrightarrow> \<not> prefix byte_order_mark bytes \<longrightarrow> decoded = strict_json bytes)
      | Lane_Text \<Rightarrow>
          (\<exists>s. body = JStr s \<and>
             (if charset \<in> {''utf-8'', ''utf8''}
              then bytes = s \<and> (well_formed s \<longrightarrow> decoded = Inr (JStr (if prefix byte_order_mark s then drop 3 s else s)))
              else \<forall>decode. decoders charset = Some decode \<longrightarrow> decode bytes = Some s \<longrightarrow> decoded = Inr body))
      | Lane_Byte \<Rightarrow> well_formed bytes \<longrightarrow> decoded = Inr body
      | Lane_Octets \<Rightarrow> decoded = Inr body
      | _ \<Rightarrow> True)"

text \<open>
  C35. The lanes of requests and responses agree: of a body that a request sends, the decoder of a
  response in the same lane and medium makes, for octets, the Base64 text that was given; for Base64 text,
  the same text; for UTF-8 text, the same text without a byte order mark at its start; for text in another
  charset, the same text when the caller's decoder undoes the caller's encoder on it; and for JSON, what
  the strict reader makes of exactly the text the serializer wrote.  UTF-8 lanes are read when the
  validator accepts what was written, and JSON when it starts with no byte order mark.
\<close>
theorem payload_lanes_roundtrip:
  assumes "encodeSwagger20RequestPayload sj encoders random pm selection model routed = Inr (bytes, contentType)"
  shows "lane_returns sj well_formed strict_json decoders (sl_media selection) bytes (sw_body routed) (sl_lane selection)
    (decode_lane well_formed strict_json decoders bytes (sl_media selection) (sl_lane selection))"
proof (cases "sl_lane selection")
  case Lane_JSON
  then show ?thesis
    using assms
    by (auto simp: encodeSwagger20RequestPayload_def Let_def decode_lane_def decode_fatal_def lane_returns_def
        split: option.splits)
next
  case Lane_Text
  then obtain s where s: "sw_body routed = JStr s" "encodeCharacterData encoders s (sl_media selection) = Inr bytes"
    using assms by (auto simp: encodeSwagger20RequestPayload_def Let_def js_result split: option.splits)
  show ?thesis
  proof (cases "charsetFor (sl_media selection) \<in> {''utf-8'', ''utf8''}")
    case True
    then have "bytes = s" using s(2) by (auto simp: encodeCharacterData_def Let_def)
    with True Lane_Text s(1) show ?thesis
      by (auto simp: lane_returns_def Let_def decode_lane_def decodeCharacterData_def decode_fatal_def)
  next
    case False
    with Lane_Text s(1) show ?thesis
      by (auto simp: lane_returns_def Let_def decode_lane_def decodeCharacterData_def)
  qed
next
  case Lane_Byte
  then have "\<exists>s. sw_body routed = JStr s \<and> bytes = s \<and> base64_shape s"
    using assms by (auto simp: encodeSwagger20RequestPayload_def Let_def split: option.splits if_splits)
  with Lane_Byte show ?thesis
    using base64_shape_no_mark by (auto simp: lane_returns_def Let_def decode_lane_def decode_fatal_def)
next
  case Lane_Octets
  then show ?thesis
    using assms
    by (auto simp: encodeSwagger20RequestPayload_def Let_def js_result decode_lane_def canonical_octets lane_returns_def
        split: option.splits)
qed (simp_all add: lane_returns_def Let_def)

definition lane_selection :: "string \<Rightarrow> sw_lane \<Rightarrow> sw_selection" where
  "lane_selection base lane =
     \<lparr> sl_media = plain_media base 2, sl_declaration = plain_media base 2, sl_lane = lane \<rparr>"

definition routed_body :: "jsval \<Rightarrow> sw_routed" where
  "routed_body v =
     \<lparr> sw_resolvedPath = [], sw_query = [], sw_headers = [], sw_formData = [], sw_body = v, sw_bodyPresent = True,
       sw_formPresent = False \<rparr>"

text \<open>A reader of one JSON text, for an example.\<close>

definition reads_true :: "string \<Rightarrow> (media_refusal, jsval) res" where
  "reads_true t = (if t = ''true'' then Inr (JBool True) else Inl Type_Error)"

lemma payload_lanes_roundtrip_witness:
  "decode_lane (\<lambda>_. True) reads_true (\<lambda>_. None) ''abc'' (plain_media ''image/png'' 2) Lane_Octets = Inr (JStr ''YWJj'') \<and>
   decode_lane (\<lambda>_. True) reads_true (\<lambda>_. None) ''hi'' (plain_media ''text/plain'' 2) Lane_Text = Inr (JStr ''hi'') \<and>
   decode_lane (\<lambda>_. True) reads_true (\<lambda>_. None) ''true'' (plain_media ''application/json'' 2) Lane_JSON = Inr (JBool True)"
proof (intro conjI)
  let ?send = "\<lambda>base lane v. encodeSwagger20RequestPayload JSON_stringify (\<lambda>_. None) (\<lambda>_. []) [] (lane_selection base lane)
      example_payload (routed_body v)"
  have mark: "\<not> prefix byte_order_mark s" if "byte (hd s) \<noteq> 0xEF" for s using that byte_order_mark_hd by blast
  have "?send ''image/png'' Lane_Octets (JStr ''YWJj'') = Inr (''abc'', ''image/png'')" by code_simp
  from payload_lanes_roundtrip [OF this, of "\<lambda>_. True" reads_true "\<lambda>_. None"]
  show "decode_lane (\<lambda>_. True) reads_true (\<lambda>_. None) ''abc'' (plain_media ''image/png'' 2) Lane_Octets = Inr (JStr ''YWJj'')"
    by (simp add: lane_returns_def Let_def lane_selection_def routed_body_def)
  have "?send ''text/plain'' Lane_Text (JStr ''hi'') = Inr (''hi'', ''text/plain'')"
    "charsetFor (plain_media ''text/plain'' 2) = ''utf-8''" by code_simp+
  with payload_lanes_roundtrip [OF this(1), of "\<lambda>_. True" reads_true "\<lambda>_. None"] mark [of "''hi''"]
  show "decode_lane (\<lambda>_. True) reads_true (\<lambda>_. None) ''hi'' (plain_media ''text/plain'' 2) Lane_Text = Inr (JStr ''hi'')"
    by (simp add: lane_returns_def Let_def lane_selection_def routed_body_def byte_def)
  have "?send ''application/json'' Lane_JSON (JBool True) = Inr (''true'', ''application/json'')" by code_simp
  from payload_lanes_roundtrip [OF this, of "\<lambda>_. True" reads_true "\<lambda>_. None"] mark [of "''true''"]
  show "decode_lane (\<lambda>_. True) reads_true (\<lambda>_. None) ''true'' (plain_media ''application/json'' 2) Lane_JSON = Inr (JBool True)"
    by (simp add: lane_returns_def Let_def lane_selection_def routed_body_def byte_def reads_true_def)
qed

section \<open>The Accept field\<close>

definition accept_offer :: "sw_schema list \<Rightarrow> sw_media \<Rightarrow> bool" where
  "accept_offer ds m \<longleftrightarrow>
     (\<forall>(name, v)\<in>set (media_params m). ascii_lower name \<noteq> ''q'') \<and>
     (\<exists>d\<in>set ds. swagger20ResponseRangeHasLane m d)"

lemma accepted_media_iff:
  "t \<in> set (accepted_media ds e) \<longleftrightarrow> (\<exists>m. usable_entry e = Some m \<and> accept_offer ds m \<and> t = media_text m)"
  by (cases "usable_entry e") (auto simp: accepted_media_def accept_offer_def list_ex_iff case_prod_unfold)

lemma distinct_code_point_sort: "distinct (code_point_sort xs) = distinct xs"
  by (simp add: code_point_sort_def)

lemma sorted_code_point_sort: "sorted (map code_point_key (code_point_sort xs))"
  by (simp add: code_point_sort_def)

text \<open>
  The generated Accept field lists, once each and in byte order, exactly the \<open>produces\<close> entries with
  an identity of their own and no q parameter for which some declared response has a lane; it is
  empty when the operation declares an Accept parameter itself.
\<close>
theorem accept_header_is_exact:
  assumes "swagger20AcceptHeader resolve n root operation resource parameters responses = Inr header"
    and "header \<noteq> []"
  shows "\<exists>ds es ms. each_res (accept_declaration resolve n resource) responses [] = Inr ds \<and>
    effectiveSwagger20MediaSet root operation ''produces'' = Inr es \<and> header = join '', '' ms \<and>
    distinct ms \<and> sorted (map code_point_key ms) \<and>
    set ms = {media_text m | e m. e \<in> set es \<and> usable_entry e = Some m \<and> accept_offer ds m} \<and>
    (\<forall>name\<in>set (wire_names parameters ''header''). ascii_lower name \<noteq> ''accept'')"
proof -
  obtain ds es where ds: "each_res (accept_declaration resolve n resource) responses [] = Inr ds"
    and es: "effectiveSwagger20MediaSet root operation ''produces'' = Inr es"
    and header: "header = join '', '' (code_point_sort (remdups (concat (map (accepted_media ds) es))))"
    and own: "\<not> list_ex (\<lambda>name. ascii_lower name = ''accept'') (wire_names parameters ''header'')"
    using assms by (auto simp: swagger20AcceptHeader_def js_result split: if_splits)
  define ms where "ms = code_point_sort (remdups (concat (map (accepted_media ds) es)))"
  have "set ms = {media_text m | e m. e \<in> set es \<and> usable_entry e = Some m \<and> accept_offer ds m}"
    by (auto simp: ms_def accepted_media_iff) metis
  moreover have "distinct ms" "sorted (map code_point_key ms)"
    unfolding ms_def distinct_code_point_sort by (simp, rule sorted_code_point_sort)
  moreover have "\<forall>name\<in>set (wire_names parameters ''header''). ascii_lower name \<noteq> ''accept''"
    using own by (simp add: list_ex_iff)
  ultimately show ?thesis using ds es header unfolding ms_def [symmetric] by blast
qed

definition accept_root :: js_members where
  "accept_root = [(''produces'', JArr [JStr ''text/plain'', JStr ''application/json''])]"

definition accept_responses :: js_members where
  "accept_responses = [(''200'', JObj [(''schema'', JObj [(''type'', JStr ''string'')])])]"

lemma accept_example:
  "swagger20AcceptHeader schema_example_resolver 2 accept_root [] example_resource empty_set accept_responses =
     Inr ''application/json, text/plain''"
  by code_simp

lemma accept_header_is_exact_witness:
  "\<exists>ds es ms. each_res (accept_declaration schema_example_resolver 2 example_resource) accept_responses [] = Inr ds \<and>
     effectiveSwagger20MediaSet accept_root [] ''produces'' = Inr es \<and> ''application/json, text/plain'' = join '', '' ms \<and>
     set ms = {media_text m | e m. e \<in> set es \<and> usable_entry e = Some m \<and> accept_offer ds m}"
  using accept_header_is_exact [OF accept_example] by blast

section \<open>Defects that are not reported\<close>

text \<open>A value that is no Response Object, and a description that is no string, pass as free of defects.\<close>

lemma missing_response_object_has_no_defect:
  "swagger20ResponseObjectDefect resolve n (JStr ''OK'') resource ''200'' = Inr ()"
  by (simp add: swagger20ResponseObjectDefect_def resolveResponse.simps response_defect_def defect_field_def)

lemma ill_typed_description_has_no_defect:
  "swagger20ResponseObjectDefect resolve n (JObj [(''description'', JNum ''1'')]) resource ''200'' = Inr ()"
  by (simp add: swagger20ResponseObjectDefect_def resolveResponse.simps response_defect_def defect_field_def
      stringMember_def typed_member_def)

end
