(* ===== verification/Swagger20_Reference.thy ===== *)
theory Swagger20_Reference
  imports Swagger20_Params Artifact_Names
begin

text \<open>
  \<open>swagger20-reference.ts\<close>: the graph of resources of a Swagger 2.0 document, the resolution of a JSON
  Reference through it, and the merge of a Path Item with what its reference names.

  A \<open>Swagger20Resolution\<close> is an object that several places share: \<open>memo.done\<close> keeps the object a reference
  resolved to, and following a pointer assigns to its \<open>node\<close>.  So the state has an explicit store:
  a resolution is an address into \<open>rf_store\<close>.  A failing call drops the memo with the error.  The
  platform's URL parser and the loading of a resource (fetch, JSON or YAML parser) are parameters,
  and so is the root a resource was loaded with.  The table of loads under way is left out: calls
  are sequential here.

  What is kept of a parsed URL: \<open>ru_protocol\<close>, \<open>ru_hash\<close>, and in \<open>ru_href\<close> the \<open>href\<close> after the code has set
  \<open>hash\<close> to the empty text, which is the only \<open>href\<close> it reads.
\<close>

record ref_url =
  ru_protocol :: string
  ru_href :: string
  ru_hash :: string

type_synonym ref_url_parser = "string \<Rightarrow> string option \<Rightarrow> ref_url option"

record sw_graph =
  sg_url :: ref_url_parser
  sg_root :: "sw_resource \<Rightarrow> jsval"
  sg_load :: "string \<Rightarrow> (sw_error, sw_resource) res"
  sg_self_contained :: bool
  sg_external :: bool

record ref_state =
  rf_store :: "sw_resolution list"
  rf_done :: "(string \<times> nat) list"
  rf_active :: "string list"
  rf_path_active :: "string list"
  rf_resources :: "(string \<times> sw_resource) list"

definition new_memo :: "ref_state \<Rightarrow> ref_state" where
  "new_memo st = st \<lparr> rf_store := [], rf_done := [], rf_active := [], rf_path_active := [] \<rparr>"

definition empty_graph_state :: ref_state where
  "empty_graph_state =
     \<lparr> rf_store = [], rf_done = [], rf_active = [], rf_path_active = [], rf_resources = [] \<rparr>"

section \<open>Pointer tokens\<close>

fun wellFormedPointerToken :: "string \<Rightarrow> bool" where
  "wellFormedPointerToken [] = True"
| "wellFormedPointerToken (c # s) =
     (if c = CHR ''~''
      then s \<noteq> [] \<and> (hd s = CHR ''0'' \<or> hd s = CHR ''1'') \<and> wellFormedPointerToken (tl s)
      else wellFormedPointerToken s)"

definition decodePointerToken :: "string \<Rightarrow> string" where
  "decodePointerToken v = replace_all ''~0'' ''~'' (replace_all ''~1'' ''/'' v)"

definition escapePointerToken :: "string \<Rightarrow> string" where
  "escapePointerToken v = replace_all ''/'' ''~1'' (replace_all ''~'' ''~0'' v)"

definition array_token :: "string \<Rightarrow> bool" where
  "array_token t \<longleftrightarrow> t \<noteq> [] \<and> list_all is_digit t \<and> (hd t \<noteq> CHR ''0'' \<or> t = ''0'')"

section \<open>Resources\<close>

definition resourceBase :: "sw_resource \<Rightarrow> string option" where
  "resourceBase r = (case sr_retrieval r of Some u \<Rightarrow> Some u | None \<Rightarrow> sr_requested r)"

definition resourceKey :: "ref_url_parser \<Rightarrow> string \<Rightarrow> (sw_error, string) res" where
  "resourceKey new_url v =
     (if v = [] then Inr []
      else (case new_url v None of None \<Rightarrow> Inl (Sw_Error ''Invalid URL'') | Some u \<Rightarrow> Inr (ru_href u)))"

definition nonempty_uris :: "sw_resource \<Rightarrow> string list" where
  "nonempty_uris r =
     filter (\<lambda>u. u \<noteq> []) (List.map_filter (\<lambda>u. u) [sr_requested r, sr_retrieval r])"

definition rememberResolvedResource ::
  "ref_url_parser \<Rightarrow> sw_resource \<Rightarrow> ref_state \<Rightarrow> (sw_error, ref_state) res" where
  "rememberResolvedResource new_url r st =
     (if nonempty_uris r = [] then Inr (st \<lparr> rf_resources := ([], r) # rf_resources st \<rparr>)
      else
        each_res (\<lambda>u st. res_map (\<lambda>k. st \<lparr> rf_resources := (k, r) # rf_resources st \<rparr>) (resourceKey new_url u))
          (nonempty_uris r) st)"

definition resourceForReference ::
  "sw_graph \<Rightarrow> string \<Rightarrow> sw_resource \<Rightarrow> ref_state \<Rightarrow> (sw_error, sw_resource \<times> ref_state) res" where
  "resourceForReference g uri origin st =
     res_bind (resourceKey (sg_url g) uri) (\<lambda>key.
     if key = [] then Inr (origin, st)
     else
       res_bind (map_res (resourceKey (sg_url g)) (nonempty_uris origin)) (\<lambda>own.
       if key \<in> set own then Inr (origin, st)
       else
         (case map_of (rf_resources st) key of
            Some r \<Rightarrow> Inr (r, st)
          | None \<Rightarrow>
              if sg_self_contained g
              then Inl (Sw_Error (''reference '' @ json_quote uri @ '' cannot resolve: embedded Swagger 2.0 content '' @
                                  ''with no co-present location must be self-contained''))
              else if \<not> sg_external g
              then Inl (Sw_Error (''external Swagger 2.0 reference '' @ json_quote uri @ '' is disabled''))
              else
                res_bind (sg_load g uri) (\<lambda>r.
                res_map (\<lambda>st. (r, st)) (rememberResolvedResource (sg_url g) r st)))))"

section \<open>References\<close>

definition new_object :: "sw_resolution \<Rightarrow> ref_state \<Rightarrow> nat \<times> ref_state" where
  "new_object x st = (length (rf_store st), st \<lparr> rf_store := rf_store st @ [x] \<rparr>)"

definition assign_node :: "nat \<Rightarrow> jsval \<Rightarrow> ref_state \<Rightarrow> ref_state" where
  "assign_node a v st = st \<lparr> rf_store := (rf_store st)[a := (rf_store st ! a) \<lparr> sn_node := v \<rparr>] \<rparr>"

text \<open>The target of a reference: a fragment alone needs no base, anything else without one must be absolute.\<close>

definition reference_url :: "sw_graph \<Rightarrow> string \<Rightarrow> sw_resource \<Rightarrow> (sw_error, ref_url) res" where
  "reference_url g raw origin =
     (let base = (case resourceBase origin of None \<Rightarrow> None | Some b \<Rightarrow> if b = [] then None else Some b);
          fragment_only = (base = None \<and> starts_with ''#'' raw) in
      case sg_url g raw (if fragment_only then Some ''swagger20:self'' else base) of
        None \<Rightarrow> Inl (Sw_Error (''Swagger 2.0 reference '' @ json_quote raw @ '' is not a URI''))
      | Some u \<Rightarrow>
          if base = None \<and> \<not> fragment_only \<and> sg_self_contained g
          then Inl (Sw_Error (''reference '' @ json_quote raw @ '' cannot resolve: embedded Swagger 2.0 '' @
                              ''content with no co-present location must be self-contained''))
          else Inr u)"

definition pointer_error :: "string \<Rightarrow> string \<Rightarrow> (sw_error, 'a) res" where
  "pointer_error token what = Inl (Sw_Error (''JSON Pointer token '' @ json_quote token @ what))"

text \<open>
  \<open>resolveReference\<close> and the loops of \<open>resolvePointer\<close>.  A call returns the address of a resolution.  The
  number bounds the references followed; \<open>Sw_Unresolved\<close> says that it was too small.
\<close>

function resolveReference ::
  "sw_graph \<Rightarrow> nat \<Rightarrow> string \<Rightarrow> sw_resource \<Rightarrow> ref_state \<Rightarrow> (sw_error, nat \<times> ref_state) res"
  and pointer_tokens ::
  "sw_graph \<Rightarrow> nat \<Rightarrow> string \<Rightarrow> string list \<Rightarrow> nat \<Rightarrow> ref_state \<Rightarrow> (sw_error, nat \<times> ref_state) res" where
  "resolveReference g n raw origin st =
     (case n of
        0 \<Rightarrow> Inl Sw_Unresolved
      | Suc m \<Rightarrow>
          res_bind (reference_url g raw origin) (\<lambda>target.
          let uri = (if ru_protocol target = ''swagger20:'' then [] else ru_href target); fragment = ru_hash target in
          res_bind (resourceKey (sg_url g) uri) (\<lambda>key.
          let canonical = key @ ''#'' @ fragment in
          case map_of (rf_done st) canonical of
            Some a \<Rightarrow> Inr (a, st)
          | None \<Rightarrow>
              if canonical \<in> set (rf_active st)
              then Inr (new_object \<lparr> sn_node = JUndefined, sn_resource = origin, sn_cycle = True \<rparr> st)
              else
                res_bind (resourceForReference g uri origin (st \<lparr> rf_active := canonical # rf_active st \<rparr>)) (\<lambda>(resource, st).
                let (a, st) = new_object \<lparr> sn_node = sg_root g resource, sn_resource = resource, sn_cycle = False \<rparr> st in
                res_map (\<lambda>(a, st). (a, st \<lparr> rf_done := (canonical, a) # rf_done st,
                                                  rf_active := removeAll canonical (rf_active st) \<rparr>))
                  (if fragment = [] then Inr (a, st)
                   else
                     (case decodeURIComponent fragment of
                        None \<Rightarrow> Inl (Sw_Error ''URI malformed'')
                      | Some pointer \<Rightarrow>
                          if \<not> starts_with ''/'' pointer
                          then Inl (Sw_Error (''Swagger 2.0 reference '' @ json_quote raw @
                                              '' has unsupported non-JSON-Pointer fragment''))
                          else pointer_tokens g m pointer (split_str ''/'' (tl pointer)) a st))))))"
| "pointer_tokens g n pointer tokens a st =
     (case tokens of
        [] \<Rightarrow> Inr (a, st)
      | encoded # ts \<Rightarrow>
          if \<not> wellFormedPointerToken encoded
          then Inl (Sw_Error (''fragment '' @ json_quote pointer @ '' contains malformed RFC 6901 escape''))
          else
            let token = decodePointerToken encoded in
            (case sn_node (rf_store st ! a) of
               JObj ms \<Rightarrow>
                 (case map_of ms token of
                    Some v \<Rightarrow> pointer_tokens g n pointer ts a (assign_node a v st)
                  | None \<Rightarrow>
                      (case stringMember ms ''$ref'' of
                         Valid target \<Rightarrow>
                           (case n of
                              0 \<Rightarrow> Inl Sw_Unresolved
                            | Suc m \<Rightarrow>
                                res_bind (resolveReference g m target (sn_resource (rf_store st ! a)) st) (\<lambda>(b, st).
                                if sn_cycle (rf_store st ! b) then Inr (b, st)
                                else pointer_tokens g m pointer (encoded # ts) b st))
                       | _ \<Rightarrow> pointer_error token '' identifies no object member''))
             | JArr xs \<Rightarrow>
                 if \<not> array_token token \<or> length xs \<le> digits_value 0 token
                 then pointer_error token '' identifies no array member''
                 else pointer_tokens g n pointer ts a (assign_node a (xs ! digits_value 0 token) st)
             | _ \<Rightarrow> pointer_error token '' cannot be applied to a scalar''))"
  by pat_completeness auto
termination
  by (relation "measures
      [\<lambda>x. case x of Inl (g, n, _) \<Rightarrow> n | Inr (g, n, _) \<Rightarrow> n,
       \<lambda>x. case x of Inl _ \<Rightarrow> 0 | Inr (g, n, p, ts, _) \<Rightarrow> Suc (length ts)]") auto

declare resolveReference.simps [simp del] pointer_tokens.simps [simp del]

text \<open>The resolver the other components call, with a new memo each time.\<close>

definition graph_resolver :: "sw_graph \<Rightarrow> nat \<Rightarrow> ref_state \<Rightarrow> sw_resolver" where
  "graph_resolver g n st target r =
     res_map (\<lambda>(a, st). rf_store st ! a) (resolveReference g n target r (new_memo st))"

section \<open>Path Items\<close>

record sw_path_item =
  pi_raw :: js_members
  pi_resource :: sw_resource
  pi_members :: "(string \<times> sw_resource) list"

definition pathItemMemberResource :: "sw_path_item \<Rightarrow> string \<Rightarrow> sw_resource" where
  "pathItemMemberResource item name =
     (case map_of (pi_members item) name of Some r \<Rightarrow> r | None \<Rightarrow> pi_resource item)"

definition merge_member ::
  "sw_path_item \<Rightarrow> string \<times> jsval \<Rightarrow> js_members \<times> (string \<times> sw_resource) list \<Rightarrow>
     js_members \<times> (string \<times> sw_resource) list" where
  "merge_member item entry st =
     (let (name, v) = entry; (merged, resources) = st in
      if name = ''$ref'' \<or> has_member merged name then st
      else (assign_member name v merged, (name, pathItemMemberResource item name) # resources))"

definition merge_path_items :: "sw_path_item \<Rightarrow> sw_path_item \<Rightarrow> sw_path_item" where
  "merge_path_items item target =
     (let (merged, resources) =
        fold (merge_member item) (pi_raw item)
          (pi_raw target, rev (map (\<lambda>name. (name, pathItemMemberResource target name)) (member_keys (pi_raw target)))) in
      \<lparr> pi_raw = merged, pi_resource = pi_resource target, pi_members = resources \<rparr>)"

definition path_item_cycle :: "string \<Rightarrow> (sw_error, 'a) res" where
  "path_item_cycle meth =
     Inl (Sw_Error (''selected Swagger 2.0 Path Item reference cycle leaves '' @ meth @ '' unresolved''))"

primrec resolvePathItem ::
  "nat \<Rightarrow> sw_graph \<Rightarrow> nat \<Rightarrow> string \<Rightarrow> sw_path_item \<Rightarrow> ref_state \<Rightarrow> (sw_error, sw_path_item \<times> ref_state) res" where
  "resolvePathItem 0 g n meth item st = Inl Sw_Unresolved"
| "resolvePathItem (Suc k) g n meth item st =
     (case stringMember (pi_raw item) ''$ref'' of
        Absent \<Rightarrow> Inr (item, st)
      | Ill_Typed \<Rightarrow> Inl (Sw_Error ''selected Swagger 2.0 Path Item has an invalid $ref'')
      | Valid reference \<Rightarrow>
          if reference = [] then Inl (Sw_Error ''selected Swagger 2.0 Path Item has an invalid $ref'')
          else
            res_bind (resourceKey (sg_url g) (case resourceBase (pi_resource item) of None \<Rightarrow> [] | Some b \<Rightarrow> b)) (\<lambda>base.
            let key = base @ ''|'' @ reference @ ''|'' @ meth in
            if key \<in> set (rf_path_active st) then path_item_cycle meth
            else
              res_bind (resolveReference g n reference (pi_resource item)
                          (st \<lparr> rf_path_active := key # rf_path_active st \<rparr>)) (\<lambda>(a, st).
              let resolved = rf_store st ! a in
              if sn_cycle resolved then path_item_cycle meth
              else
                (case as_object (sn_node resolved) of
                   None \<Rightarrow> Inl (Sw_Error ''selected Swagger 2.0 Path Item $ref does not resolve to an object'')
                 | Some ms \<Rightarrow>
                     res_bind (resolvePathItem k g n meth
                                 \<lparr> pi_raw = ms, pi_resource = sn_resource resolved, pi_members = [] \<rparr> st) (\<lambda>(target, st).
                     if has_member (pi_raw item) meth \<and> has_member (pi_raw target) meth
                     then Inl (Sw_Error (''selected Swagger 2.0 Path Item has undefined adjacent/ref collision at '' @ meth))
                     else if has_member (pi_raw item) ''parameters'' \<and> has_member (pi_raw target) ''parameters''
                     then Inl (Sw_Error ''selected Swagger 2.0 Path Item has undefined adjacent/ref collision at parameters'')
                     else Inr (merge_path_items item target,
                               st \<lparr> rf_path_active := removeAll key (rf_path_active st) \<rparr>))))))"

declare resolvePathItem.simps(2) [simp del]

section \<open>A pointer reference names the value at its path\<close>

text \<open>RFC 6901 without references: the value a list of unescaped tokens leads to.\<close>

fun walk :: "jsval \<Rightarrow> string list \<Rightarrow> jsval option" where
  "walk v [] = Some v"
| "walk (JObj ms) (t # ts) = (case map_of ms t of None \<Rightarrow> None | Some w \<Rightarrow> walk w ts)"
| "walk (JArr xs) (t # ts) =
     (if array_token t \<and> digits_value 0 t < length xs then walk (xs ! digits_value 0 t) ts else None)"
| "walk _ _ = None"

lemma escapePointerToken_eq: "escapePointerToken = escapePointerSegment"
  by (simp add: fun_eq_iff escapePointerToken_def escapePointerSegment_def)

lemma decode_escape_token [simp]: "decodePointerToken (escapePointerToken t) = t"
  using unescape_escape [of t] by (simp add: decodePointerToken_def unescapeJSONPointerSegment_def escapePointerToken_eq)

lemma escaped_token_well_formed [simp]: "wellFormedPointerToken (escapePointerToken t)"
proof -
  have "wellFormedPointerToken (concat (map pointer_char t))"
    by (induction t) (auto simp: pointer_char_def)
  then show ?thesis by (simp add: escapePointerToken_eq escapePointerSegment_chars)
qed

lemma pointer_Nil [simp]: "pointer_tokens g n pointer [] a st = Inr (a, st)"
  by (simp add: pointer_tokens.simps)

lemma pointer_own:
  "wellFormedPointerToken t \<Longrightarrow> sn_node (rf_store st ! a) = JObj ms \<Longrightarrow> map_of ms (decodePointerToken t) = Some v \<Longrightarrow>
     pointer_tokens g n pointer (t # ts) a st = pointer_tokens g n pointer ts a (assign_node a v st)"
  by (subst pointer_tokens.simps) simp

lemma pointer_element:
  "wellFormedPointerToken t \<Longrightarrow> sn_node (rf_store st ! a) = JArr xs \<Longrightarrow> array_token (decodePointerToken t) \<Longrightarrow>
     digits_value 0 (decodePointerToken t) < length xs \<Longrightarrow>
     pointer_tokens g n pointer (t # ts) a st =
       pointer_tokens g n pointer ts a (assign_node a (xs ! digits_value 0 (decodePointerToken t)) st)"
  by (subst pointer_tokens.simps) simp

lemma assign_node_simps [simp]:
  "a < length (rf_store st) \<Longrightarrow> assign_node a v (assign_node a w st) = assign_node a v st"
  "a < length (rf_store st) \<Longrightarrow> sn_node (rf_store (assign_node a v st) ! a) = v"
  "length (rf_store (assign_node a v st)) = length (rf_store st)"
  by (simp_all add: assign_node_def)

lemma assign_node_same: "assign_node a (sn_node (rf_store st ! a)) st = st"
  by (simp add: assign_node_def)

lemma pointer_tokens_walk:
  "a < length (rf_store st) \<Longrightarrow> sn_node (rf_store st ! a) = w \<Longrightarrow> walk w path = Some v \<Longrightarrow>
     pointer_tokens g n pointer (map escapePointerToken path) a st = Inr (a, assign_node a v st)"
proof (induction w path arbitrary: st rule: walk.induct)
  case (1 w)
  then show ?case using assign_node_same [of a st] by simp
next
  case (2 ms t ts)
  from "2.prems"(3) obtain w where w: "map_of ms t = Some w" "walk w ts = Some v" by (auto split: option.splits)
  show ?case
    using "2.IH" [OF w(1), of "assign_node a w st"] "2.prems" w by (simp add: pointer_own [of _ _ _ ms w])
next
  case (3 xs t ts)
  from "3.prems"(3) have i: "array_token t" "digits_value 0 t < length xs" "walk (xs ! digits_value 0 t) ts = Some v"
    by (auto split: if_splits)
  show ?case
    using "3.IH" [of "assign_node a (xs ! digits_value 0 t) st"] "3.prems" i
    by (simp add: pointer_element [of _ _ _ xs])
qed simp_all

definition same_document :: "sw_graph \<Rightarrow> ref_url \<Rightarrow> sw_resource \<Rightarrow> bool" where
  "same_document g u r \<longleftrightarrow>
     ru_protocol u = ''swagger20:'' \<or>
     (\<exists>key own. resourceKey (sg_url g) (ru_href u) = Inr key \<and>
        map_res (resourceKey (sg_url g)) (nonempty_uris r) = Inr own \<and> key \<in> set own)"

lemma same_document_resource:
  assumes "same_document g u r"
  shows "\<exists>key. resourceKey (sg_url g) (if ru_protocol u = ''swagger20:'' then [] else ru_href u) = Inr key \<and>
    (\<forall>st. resourceForReference g (if ru_protocol u = ''swagger20:'' then [] else ru_href u) r st = Inr (r, st))"
proof (cases "ru_protocol u = ''swagger20:''")
  case True
  then show ?thesis by (simp add: resourceKey_def resourceForReference_def)
next
  case False
  with assms obtain key own where "resourceKey (sg_url g) (ru_href u) = Inr key"
    "map_res (resourceKey (sg_url g)) (nonempty_uris r) = Inr own" "key \<in> set own"
    by (auto simp: same_document_def)
  with False show ?thesis by (simp add: resourceForReference_def)
qed

text \<open>
  C27. A reference into the same document that spells a path by escaped tokens names the value at that
  path: resolving it gives that value, in the resource it came from, in one step.
\<close>
theorem pointer_reference_roundtrip:
  assumes "reference_url g raw r = Inr u" and "same_document g u r"
    and "decodeURIComponent (ru_hash u) = Some (''/'' @ join ''/'' (map escapePointerToken path))"
    and "path \<noteq> []" and "walk (sg_root g r) path = Some v"
  shows "graph_resolver g (Suc n) st raw r = Inr \<lparr> sn_node = v, sn_resource = r, sn_cycle = False \<rparr>"
proof -
  obtain key where key: "resourceKey (sg_url g) (if ru_protocol u = ''swagger20:'' then [] else ru_href u) = Inr key"
    and own: "\<And>st. resourceForReference g (if ru_protocol u = ''swagger20:'' then [] else ru_href u) r st = Inr (r, st)"
    using same_document_resource [OF assms(2)] by blast
  have tokens: "split_str ''/'' (join ''/'' (map escapePointerToken path)) = map escapePointerToken path"
    using assms(4) slash_not_escaped by (intro split_join_char) (auto simp: escapePointerToken_eq)
  have hash: "ru_hash u \<noteq> []" using assms(3) by (auto simp: decode_Nil)
  define st1 where "st1 = (new_memo st) \<lparr> rf_active := [key @ ''#'' @ ru_hash u],
    rf_store := [\<lparr> sn_node = sg_root g r, sn_resource = r, sn_cycle = False \<rparr>] \<rparr>"
  have walked: "pointer_tokens g n pointer (map escapePointerToken path) 0 st1 = Inr (0, assign_node 0 v st1)" for pointer
    using assms(5) by (intro pointer_tokens_walk) (simp_all add: st1_def)
  have state: "(new_memo st) \<lparr> rf_active := [key @ ''#'' @ ru_hash u],
      rf_store := [\<lparr> sn_node = sg_root g r, sn_resource = r, sn_cycle = False \<rparr>] \<rparr> = st1"
    by (simp add: st1_def)
  show ?thesis
    using assms(1,3) key own hash tokens walked
    by (simp add: graph_resolver_def resolveReference.simps [of g "Suc n"] new_memo_def new_object_def Let_def
        starts_with_def assign_node_def st1_def)
qed

text \<open>A document without a location, and a parser that knows fragments only.\<close>

definition fragment_parser :: ref_url_parser where
  "fragment_parser raw base =
     (if starts_with ''#'' raw
      then Some \<lparr> ru_protocol = ''swagger20:'', ru_href = ''swagger20:self'', ru_hash = tl raw \<rparr> else None)"

definition embedded :: sw_resource where
  "embedded = \<lparr> sr_requested = None, sr_retrieval = None \<rparr>"

definition embedded_graph :: "jsval \<Rightarrow> sw_graph" where
  "embedded_graph root =
     \<lparr> sg_url = fragment_parser, sg_root = (\<lambda>_. root), sg_load = (\<lambda>_. Inl (Sw_Error ''no fetch'')),
       sg_self_contained = True, sg_external = True \<rparr>"

lemma pointer_reference_roundtrip_witness:
  "graph_resolver (embedded_graph (JObj [(''definitions'', JObj [(''a/b~'', JNum ''1'')])])) 1 empty_graph_state
     ''#/definitions/a~1b~0'' embedded = Inr \<lparr> sn_node = JNum ''1'', sn_resource = embedded, sn_cycle = False \<rparr>"
proof -
  let ?g = "embedded_graph (JObj [(''definitions'', JObj [(''a/b~'', JNum ''1'')])])"
  let ?u = "\<lparr> ru_protocol = ''swagger20:'', ru_href = ''swagger20:self'', ru_hash = ''/definitions/a~1b~0'' \<rparr>"
  have "reference_url ?g ''#/definitions/a~1b~0'' embedded = Inr ?u"
    "decodeURIComponent (ru_hash ?u) = Some (''/'' @ join ''/'' (map escapePointerToken [''definitions'', ''a/b~'']))"
    "walk (sg_root ?g embedded) [''definitions'', ''a/b~''] = Some (JNum ''1'')"
    by code_simp+
  moreover have "same_document ?g ?u embedded" by (simp add: same_document_def)
  ultimately show ?thesis
    using pointer_reference_roundtrip [of ?g "''#/definitions/a~1b~0''" embedded ?u
        "[''definitions'', ''a/b~'']" "JNum ''1''" 0] by simp
qed

section \<open>A resolution that is shared\<close>

text \<open>
  In this document the pointer \<open>/a/x/b\<close>, with the references on its way followed, leads to 1.  The
  resolution never gets there: \<open>memo.done\<close> keeps the object that \<open>#/c\<close> resolved to, the token \<open>x\<close> assigns
  to its \<open>node\<close>, and when the reference found there is followed it is answered with the same object,
  whose node is by then that reference itself.
\<close>

definition shared_root :: jsval where
  "shared_root =
     JObj [(''a'', JObj [(''$ref'', JStr ''#/c'')]),
           (''c'', JObj [(''x'', JObj [(''$ref'', JStr ''#/c'')]), (''b'', JNum ''1'')])]"

definition shared_graph :: sw_graph where
  "shared_graph = embedded_graph shared_root"

definition reference_node :: jsval where
  "reference_node = JObj [(''$ref'', JStr ''#/c'')]"

lemma pointer_reference:
  "wellFormedPointerToken t \<Longrightarrow> sn_node (rf_store st ! a) = JObj ms \<Longrightarrow> map_of ms (decodePointerToken t) = None \<Longrightarrow>
     stringMember ms ''$ref'' = Valid target \<Longrightarrow>
     pointer_tokens g n pointer (t # ts) a st =
       (case n of
          0 \<Rightarrow> Inl Sw_Unresolved
        | Suc m \<Rightarrow>
            res_bind (resolveReference g m target (sn_resource (rf_store st ! a)) st) (\<lambda>(b, st).
            if sn_cycle (rf_store st ! b) then Inr (b, st) else pointer_tokens g m pointer (t # ts) b st))"
  by (subst pointer_tokens.simps) simp

lemma shared_url: "reference_url shared_graph (CHR ''#'' # f) embedded =
    Inr \<lparr> ru_protocol = ''swagger20:'', ru_href = ''swagger20:self'', ru_hash = f \<rparr>"
  by (simp add: reference_url_def shared_graph_def embedded_graph_def fragment_parser_def embedded_def resourceBase_def
      starts_with_def)

lemma resolve_done:
  "map_of (rf_done st) (CHR ''#'' # f) = Some a \<Longrightarrow>
     resolveReference shared_graph (Suc n) (CHR ''#'' # f) embedded st = Inr (a, st)"
  by (subst resolveReference.simps) (simp add: shared_url resourceKey_def)

lemma resolve_zero: "resolveReference g 0 raw r st = Inl Sw_Unresolved"
  by (subst resolveReference.simps) simp

lemma plain_tokens [simp]:
  "wellFormedPointerToken ''a''" "wellFormedPointerToken ''b''" "wellFormedPointerToken ''c''" "wellFormedPointerToken ''x''"
  "decodePointerToken ''a'' = ''a''" "decodePointerToken ''b'' = ''b''" "decodePointerToken ''c'' = ''c''"
  "decodePointerToken ''x'' = ''x''"
  by code_simp+

lemma reference_member: "stringMember [(''$ref'', JStr t)] ''$ref'' = Valid t"
  by (simp add: stringMember_def typed_member_def)

lemma shared_loop:
  assumes "map_of (rf_done st) ''#/c'' = Some a"
    and "rf_store st ! a = \<lparr> sn_node = reference_node, sn_resource = embedded, sn_cycle = False \<rparr>"
  shows "pointer_tokens shared_graph n pointer [''b''] a st = Inl Sw_Unresolved"
proof (induction n rule: less_induct)
  case (less n)
  have step: "pointer_tokens shared_graph n pointer [''b''] a st =
       (case n of
          0 \<Rightarrow> Inl Sw_Unresolved
        | Suc m \<Rightarrow>
            res_bind (resolveReference shared_graph m ''#/c'' embedded st) (\<lambda>(b, st).
            if sn_cycle (rf_store st ! b) then Inr (b, st) else pointer_tokens shared_graph m pointer [''b''] b st))"
    using pointer_reference [of "''b''" st a "[(''$ref'', JStr ''#/c'')]" "''#/c''" shared_graph n pointer "[]"] assms(2)
    by (simp add: reference_node_def reference_member split: nat.split)
  show ?case
  proof (cases n)
    case (Suc m)
    then show ?thesis
      using step resolve_done [OF assms(1)] less.IH [of m] assms(2)
      by (cases m) (simp_all add: resolve_zero)
  qed (use step in simp)
qed

text \<open>The state when the second token is read: the object of \<open>#/a/x/b\<close>, still being resolved.\<close>

definition shared_start :: ref_state where
  "shared_start = empty_graph_state
     \<lparr> rf_active := [''#/a/x/b''],
       rf_store := [\<lparr> sn_node = reference_node, sn_resource = embedded, sn_cycle = False \<rparr>] \<rparr>"

definition shared_followed :: ref_state where
  "shared_followed = empty_graph_state
     \<lparr> rf_active := [''#/a/x/b''], rf_done := [(''#/c'', 1)],
       rf_store := [\<lparr> sn_node = reference_node, sn_resource = embedded, sn_cycle = False \<rparr>,
                    \<lparr> sn_node = JObj [(''x'', JObj [(''$ref'', JStr ''#/c'')]), (''b'', JNum ''1'')],
                      sn_resource = embedded, sn_cycle = False \<rparr>] \<rparr>"

lemma plain_fragments:
  "decodeURIComponent ''/c'' = Some ''/c''" "decodeURIComponent ''/a/x/b'' = Some ''/a/x/b''"
  "split_str ''/'' ''c'' = [''c'']" "split_str ''/'' ''a/x/b'' = [''a'', ''x'', ''b'']"
  by code_simp+

lemma shared_follow: "resolveReference shared_graph (Suc n) ''#/c'' embedded shared_start = Inr (1, shared_followed)"
proof -
  have "pointer_tokens shared_graph n pointer [''c''] 1
      (shared_start \<lparr> rf_active := [''#/c'', ''#/a/x/b''], rf_store := rf_store shared_start @
         [\<lparr> sn_node = shared_root, sn_resource = embedded, sn_cycle = False \<rparr>] \<rparr>) =
    Inr (1, shared_followed \<lparr> rf_active := [''#/c'', ''#/a/x/b''], rf_done := [] \<rparr>)" for pointer
    by (subst pointer_own) (simp_all add: shared_start_def shared_root_def assign_node_def shared_followed_def
        empty_graph_state_def)+
  then show ?thesis
    using shared_url [of "''/c''"]
    by (subst resolveReference.simps)
      (simp add: resourceKey_def resourceForReference_def plain_fragments starts_with_def new_object_def Let_def
        shared_start_def shared_followed_def shared_graph_def embedded_graph_def empty_graph_state_def)
qed

lemma shared_second: "pointer_tokens shared_graph n pointer [''x'', ''b''] 0 shared_start = Inl Sw_Unresolved"
proof -
  have step: "pointer_tokens shared_graph n pointer [''x'', ''b''] 0 shared_start =
       (case n of
          0 \<Rightarrow> Inl Sw_Unresolved
        | Suc m \<Rightarrow>
            res_bind (resolveReference shared_graph m ''#/c'' embedded shared_start) (\<lambda>(b, st).
            if sn_cycle (rf_store st ! b) then Inr (b, st) else pointer_tokens shared_graph m pointer [''x'', ''b''] b st))"
    using pointer_reference [of "''x''" shared_start 0 "[(''$ref'', JStr ''#/c'')]" "''#/c''" shared_graph n pointer "[''b'']"]
    by (simp add: reference_node_def reference_member shared_start_def split: nat.split)
  have "pointer_tokens shared_graph m pointer [''x'', ''b''] 1 shared_followed = Inl Sw_Unresolved" for m
  proof -
    have "pointer_tokens shared_graph m pointer [''x'', ''b''] 1 shared_followed =
      pointer_tokens shared_graph m pointer [''b''] 1 (assign_node 1 reference_node shared_followed)"
      by (subst pointer_own) (simp_all add: shared_followed_def reference_node_def)+
    also have "\<dots> = Inl Sw_Unresolved"
      by (rule shared_loop) (simp_all add: shared_followed_def assign_node_def)
    finally show ?thesis .
  qed
  moreover have "\<not> sn_cycle (rf_store shared_followed ! 1)" by (simp add: shared_followed_def)
  ultimately show ?thesis using step shared_follow by (cases n; cases "n - 1") (auto simp: resolve_zero)
qed

lemma shared_resolution_never_ends:
  "graph_resolver shared_graph n empty_graph_state ''#/a/x/b'' embedded = Inl Sw_Unresolved"
proof (cases n)
  case (Suc m)
  have "pointer_tokens shared_graph m pointer [''a'', ''x'', ''b''] 0
      (empty_graph_state \<lparr> rf_active := [''#/a/x/b''],
         rf_store := [\<lparr> sn_node = shared_root, sn_resource = embedded, sn_cycle = False \<rparr>] \<rparr>) = Inl Sw_Unresolved" for pointer
    using shared_second [of m pointer]
    by (subst pointer_own) (simp_all add: shared_root_def assign_node_def shared_start_def reference_node_def)+
  then show ?thesis
    using shared_url [of "''/a/x/b''"] unfolding Suc
    by (simp add: graph_resolver_def resolveReference.simps [of _ "Suc m"] resourceKey_def resourceForReference_def
        plain_fragments starts_with_def new_object_def Let_def new_memo_def shared_graph_def embedded_graph_def
        empty_graph_state_def)
qed (simp add: graph_resolver_def resolve_zero)

section \<open>A merged Path Item\<close>

text \<open>
  The chain of Path Items a selected one stands for: itself, and what its reference resolves to, in
  some state of the graph.
\<close>

inductive path_chain :: "sw_graph \<Rightarrow> sw_path_item \<Rightarrow> sw_path_item list \<Rightarrow> bool" for g where
  last: "stringMember (pi_raw item) ''$ref'' = Absent \<Longrightarrow> path_chain g item [item]"
| follow: "stringMember (pi_raw item) ''$ref'' = Valid reference \<Longrightarrow>
    resolveReference g n reference (pi_resource item) st = Inr (a, st') \<Longrightarrow>
    sn_node (rf_store st' ! a) = JObj ms \<Longrightarrow>
    path_chain g \<lparr> pi_raw = ms, pi_resource = sn_resource (rf_store st' ! a), pi_members = [] \<rparr> chain \<Longrightarrow>
    path_chain g item (item # chain)"

text \<open>The member a chain declares under a name, and the resource it was authored in: the deepest one.\<close>

fun authored :: "sw_path_item list \<Rightarrow> string \<Rightarrow> (jsval \<times> sw_resource) option" where
  "authored [] name = None"
| "authored (i # chain) name =
     (case authored chain name of
        Some x \<Rightarrow> Some x
      | None \<Rightarrow> map_option (\<lambda>v. (v, pi_resource i)) (map_of (pi_raw i) name))"

definition effective_member :: "sw_path_item \<Rightarrow> string \<Rightarrow> (jsval \<times> sw_resource) option" where
  "effective_member item name = map_option (\<lambda>v. (v, pathItemMemberResource item name)) (map_of (pi_raw item) name)"

definition ordinary_name :: "string \<Rightarrow> bool" where
  "ordinary_name name \<longleftrightarrow> name \<noteq> ''$ref'' \<and> name \<noteq> ''__proto__''"

lemma assign_other: "k \<noteq> name \<Longrightarrow> map_of (assign_member k v ms) name = map_of ms name"
  by (cases "k = ''__proto__''") (auto simp: assign_member_def map_of_define_member)

lemma merge_fold:
  assumes "ordinary_name name" and "fold (merge_member item) es (m, rs) = (m', rs')"
  shows "map_of m' name = (case map_of m name of Some v \<Rightarrow> Some v | None \<Rightarrow> map_of es name) \<and>
    map_of rs' name = (if map_of m name = None \<and> map_of es name \<noteq> None
                       then Some (pathItemMemberResource item name) else map_of rs name)"
  using assms(2)
proof (induction es arbitrary: m rs)
  case (Cons e es)
  obtain k v where e: "e = (k, v)" by (cases e)
  obtain m1 rs1 where step: "merge_member item e (m, rs) = (m1, rs1)" by (cases "merge_member item e (m, rs)")
  with Cons.prems have rest: "fold (merge_member item) es (m1, rs1) = (m', rs')" by simp
  have "map_of m1 name = (case map_of m name of Some v \<Rightarrow> Some v | None \<Rightarrow> map_of [e] name) \<and>
      map_of rs1 name = (if map_of m name = None \<and> map_of [e] name \<noteq> None
                         then Some (pathItemMemberResource item name) else map_of rs name)"
    using step assms(1) unfolding e merge_member_def ordinary_name_def
    by (cases "k = name") (auto simp: has_member_iff assign_other map_of_assign_member split: if_splits option.splits)
  then show ?case using Cons.IH [OF rest] unfolding e by (auto split: option.splits if_splits)
qed (simp split: option.split)

lemma map_of_rev_constant: "map_of (rev (map (\<lambda>k. (k, f k)) ks)) k = (if k \<in> set ks then Some (f k) else None)"
  by (induction ks) (auto simp: map_add_def)

lemma merged_member:
  assumes "ordinary_name name"
  shows "effective_member (merge_path_items item target) name =
    (case effective_member target name of Some x \<Rightarrow> Some x | None \<Rightarrow> effective_member item name)"
proof -
  obtain m rs where fold: "fold (merge_member item) (pi_raw item)
      (pi_raw target, rev (map (\<lambda>name. (name, pathItemMemberResource target name)) (member_keys (pi_raw target)))) = (m, rs)"
    by (metis surj_pair)
  have raw: "pi_raw (merge_path_items item target) = m" and members: "pi_members (merge_path_items item target) = rs"
    using fold by (simp_all add: merge_path_items_def)
  note merged = merge_fold [OF assms fold, unfolded map_of_rev_constant member_keys_def]
  show ?thesis
  proof (cases "map_of (pi_raw target) name")
    case None
    then have "name \<notin> set (map fst (pi_raw target))" by (simp add: map_of_eq_None_iff)
    then show ?thesis
      using merged None
      by (cases "map_of (pi_raw item) name") (simp_all add: effective_member_def pathItemMemberResource_def raw members)
  next
    case (Some v)
    then have "name \<in> set (map fst (pi_raw target))" by (metis map_of_eq_None_iff set_map option.distinct(1))
    then show ?thesis
      using merged Some by (simp add: effective_member_def pathItemMemberResource_def raw members)
  qed
qed

lemma resolvePathItem_chain:
  "resolvePathItem k g n meth item st = Inr (result, st') \<Longrightarrow> pi_members item = [] \<Longrightarrow>
     \<exists>chain. path_chain g item chain \<and>
       (\<forall>name. ordinary_name name \<longrightarrow> effective_member result name = authored chain name) \<and>
       (\<forall>name\<in>{meth, ''parameters''}. ordinary_name name \<longrightarrow>
          length (filter (\<lambda>i. has_member (pi_raw i) name) chain) \<le> 1)"
proof (induction k arbitrary: item st result st')
  case (Suc k)
  note run = Suc.prems(1) [unfolded resolvePathItem.simps]
  show ?case
  proof (cases "stringMember (pi_raw item) ''$ref''")
    case Absent
    with run have "result = item" by simp
    moreover have "authored [item] name = effective_member item name" for name
      using Suc.prems(2) by (simp add: effective_member_def pathItemMemberResource_def)
    moreover have "length (filter (\<lambda>i. has_member (pi_raw i) name) [item]) \<le> 1" for name by simp
    ultimately show ?thesis using path_chain.last [OF Absent] by metis
  next
    case (Valid reference)
    with run obtain a st1 ms target st2 s0 where
      resolved: "resolveReference g n reference (pi_resource item) s0 = Inr (a, st1)"
      and node: "sn_node (rf_store st1 ! a) = JObj ms"
      and nested: "resolvePathItem k g n meth
         \<lparr> pi_raw = ms, pi_resource = sn_resource (rf_store st1 ! a), pi_members = [] \<rparr> st1 = Inr (target, st2)"
      and apart: "\<not> (has_member (pi_raw item) meth \<and> has_member (pi_raw target) meth)"
        "\<not> (has_member (pi_raw item) ''parameters'' \<and> has_member (pi_raw target) ''parameters'')"
      and result: "result = merge_path_items item target"
      by (auto simp: js_result path_item_cycle_def Let_def split: if_splits option.splits)
    from Suc.IH [OF nested] obtain chain where chain: "path_chain g
         \<lparr> pi_raw = ms, pi_resource = sn_resource (rf_store st1 ! a), pi_members = [] \<rparr> chain"
      and members: "\<forall>name. ordinary_name name \<longrightarrow> effective_member target name = authored chain name"
      and once: "\<forall>name\<in>{meth, ''parameters''}. ordinary_name name \<longrightarrow>
          length (filter (\<lambda>i. has_member (pi_raw i) name) chain) \<le> 1"
      by auto
    have absent: "authored c name = None \<longleftrightarrow> filter (\<lambda>i. has_member (pi_raw i) name) c = []" for c name
      by (induction c) (auto simp: has_member_iff split: option.splits)
    have own: "effective_member item name = map_option (\<lambda>v. (v, pi_resource item)) (map_of (pi_raw item) name)" for name
      using Suc.prems(2) by (simp add: effective_member_def pathItemMemberResource_def)
    have "effective_member result name = authored (item # chain) name" if "ordinary_name name" for name
      using merged_member [OF that, of item target] members that by (simp add: result own split: option.split)
    moreover have "length (filter (\<lambda>i. has_member (pi_raw i) name) (item # chain)) \<le> 1"
      if name: "name \<in> {meth, ''parameters''}" "ordinary_name name" for name
    proof (cases "has_member (pi_raw item) name")
      case True
      with apart name(1) have "\<not> has_member (pi_raw target) name" by auto
      then have "effective_member target name = None" by (auto simp: effective_member_def has_member_iff)
      then have "filter (\<lambda>i. has_member (pi_raw i) name) chain = []" using members name(2) absent by simp
      then show ?thesis using True by simp
    next
      case False
      then show ?thesis using once name by auto
    qed
    ultimately show ?thesis using path_chain.follow [OF Valid resolved node chain] by blast
  qed (use run in simp)
qed simp

text \<open>
  A Path Item with a reference stands for the chain of Path Items its references name: each of
  its members is the one the chain declares, with the resource it was authored in, so that references
  inside it are read against the right document; and the selected method and the parameters are
  declared by one item of the chain at most.
\<close>
theorem path_item_is_its_chain:
  assumes "resolvePathItem k g n meth item st = Inr (result, st')" and "pi_members item = []"
  shows "\<exists>chain. path_chain g item chain \<and>
    (\<forall>name. ordinary_name name \<longrightarrow> effective_member result name = authored chain name) \<and>
    (\<forall>name\<in>{meth, ''parameters''}. ordinary_name name \<longrightarrow>
       length (filter (\<lambda>i. has_member (pi_raw i) name) chain) \<le> 1)"
  using resolvePathItem_chain [OF assms] .

definition chained_graph :: sw_graph where
  "chained_graph = embedded_graph (JObj [(''p'', JObj [(''get'', JObj []), (''x-a'', JNum ''1'')])])"

definition chained_item :: sw_path_item where
  "chained_item =
     \<lparr> pi_raw = [(''$ref'', JStr ''#/p''), (''parameters'', JArr [])], pi_resource = embedded, pi_members = [] \<rparr>"

lemma chained_resolved:
  "(case resolvePathItem 2 chained_graph 2 ''get'' chained_item empty_graph_state of
      Inr (result, _) \<Rightarrow> map fst (pi_raw result) = [''get'', ''x-a'', ''parameters''] | Inl _ \<Rightarrow> False)"
  by code_simp

lemma path_item_is_its_chain_witness:
  "\<exists>result st chain. resolvePathItem 2 chained_graph 2 ''get'' chained_item empty_graph_state = Inr (result, st) \<and>
     path_chain chained_graph chained_item chain \<and> effective_member result ''get'' = authored chain ''get''"
proof -
  obtain result st where "resolvePathItem 2 chained_graph 2 ''get'' chained_item empty_graph_state = Inr (result, st)"
    using chained_resolved by (auto split: sum.splits)
  note run = this
  have "pi_members chained_item = []" by (simp add: chained_item_def)
  from path_item_is_its_chain [OF run this] obtain chain where "path_chain chained_graph chained_item chain"
    "\<forall>name. ordinary_name name \<longrightarrow> effective_member result name = authored chain name" by blast
  moreover have "ordinary_name ''get''" by (simp add: ordinary_name_def)
  ultimately show ?thesis using run by blast
qed

end
