(* ===== verification/Sequential_Response.thy ===== *)
theory Sequential_Response
  imports Openapi32_Multipart Swagger20_Responses
begin

text \<open>
  \<open>openapi32-sequential-response.ts\<close>: the item framings of OpenAPI 3.2 responses.  A body is the list of
  chunks the platform reads and how the stream ends; the client side is the list of outputs emitted and
  how the session was left.  Parameters: the UTF-8 validator and its message, the strict JSON reader, and
  whether the session (and the output observer) takes a value after the ones it has; the limit is whole.
\<close>

section \<open>Bodies and sessions\<close>

datatype strict_failure = JSON_Invalid string | JSON_Surrogate

record seq_env =
  sq_well_formed :: "string \<Rightarrow> bool"
  sq_malformed :: string
  sq_parse :: "string \<Rightarrow> (strict_failure, jsval) res"
  sq_accepts :: "jsval list \<Rightarrow> jsval \<Rightarrow> bool"
  sq_limit :: nat

datatype stream_end = Stream_Done | Stream_Broken string bool

text \<open>\<open>closeOutput\<close>, \<open>fireError\<close> with a message, and a return that leaves the session as it is.\<close>

datatype seq_end = Seq_Closed | Seq_Failed string | Seq_Left

record seq_stop =
  so_out :: "jsval list"
  so_end :: seq_end

record seq_state =
  ss_pending :: string
  ss_index :: nat
  ss_out :: "jsval list"

definition stopped :: "seq_end \<Rightarrow> seq_state \<Rightarrow> seq_stop" where
  "stopped e st = \<lparr> so_out = ss_out st, so_end = e \<rparr>"

abbreviation seq_fail :: "string \<Rightarrow> seq_state \<Rightarrow> (seq_stop, 'a) res" where
  "seq_fail message st \<equiv> Inl (stopped (Seq_Failed message) st)"

definition emitSequentialValue :: "seq_env \<Rightarrow> jsval \<Rightarrow> seq_state \<Rightarrow> (seq_stop, seq_state) res" where
  "emitSequentialValue env v st =
     (if sq_accepts env (ss_out st) v then Inr (st \<lparr> ss_out := ss_out st @ [v] \<rparr>) else Inl (stopped Seq_Left st))"

definition item_too_long :: "nat \<Rightarrow> string" where
  "item_too_long limit = ''sequential response item exceeds '' @ decimal limit @ '' byte limit''"

definition item_name :: "string \<Rightarrow> nat \<Rightarrow> string" where
  "item_name framing index = framing @ '' item '' @ decimal index"

definition emitJSONItem :: "seq_env \<Rightarrow> string \<Rightarrow> bool \<Rightarrow> string \<Rightarrow> seq_state \<Rightarrow> (seq_stop, seq_state) res" where
  "emitJSONItem env framing whitespaceEmpty item st =
     (let name = item_name framing (ss_index st) in
      if length item > sq_limit env then seq_fail (item_too_long (sq_limit env)) st
      else
        (case decode_fatal (sq_well_formed env) item of
           None \<Rightarrow> seq_fail (name @ '' is malformed JSON: '' @ sq_malformed env) st
         | Some s \<Rightarrow>
             if item = [] \<or> whitespaceEmpty \<and> js_trim s = [] then seq_fail (name @ '' is empty'') st
             else
               (case sq_parse env s of
                  Inl (JSON_Invalid m) \<Rightarrow> seq_fail (name @ '' is malformed JSON: '' @ m) st
                | Inl JSON_Surrogate \<Rightarrow> seq_fail (name @ '' carries an unpaired surrogate'') st
                | Inr v \<Rightarrow> emitSequentialValue env v st)))"

definition seq_start :: seq_state where
  "seq_start = \<lparr> ss_pending = [], ss_index = 0, ss_out = [] \<rparr>"

definition next_item :: "string \<Rightarrow> seq_state \<Rightarrow> seq_state" where
  "next_item rest st = st \<lparr> ss_index := Suc (ss_index st), ss_pending := rest \<rparr>"

text \<open>The error a body read ends with when the session was not aborted.\<close>

definition broken_end :: "string \<Rightarrow> bool \<Rightarrow> seq_end" where
  "broken_end message aborted = (if aborted then Seq_Left else Seq_Failed message)"

definition run_chunks ::
  "(string \<Rightarrow> seq_state \<Rightarrow> (seq_stop, seq_state) res) \<Rightarrow> (seq_state \<Rightarrow> (seq_stop, seq_state) res) \<Rightarrow>
     (string list \<times> stream_end) option \<Rightarrow> seq_stop" where
  "run_chunks chunk finish body =
     (case body of
        None \<Rightarrow> stopped Seq_Closed seq_start
      | Some (chunks, e) \<Rightarrow>
          (case each_res chunk chunks seq_start of
             Inl s \<Rightarrow> s
           | Inr st \<Rightarrow>
               (case e of
                  Stream_Broken message aborted \<Rightarrow> stopped (broken_end message aborted) st
                | Stream_Done \<Rightarrow> (case finish st of Inl s \<Rightarrow> s | Inr st' \<Rightarrow> stopped Seq_Closed st'))))"

section \<open>JSON Lines\<close>

definition strip_cr :: "string \<Rightarrow> string" where
  "strip_cr s = (if s \<noteq> [] \<and> last s = CHR 0x0D then butlast s else s)"

definition line_frame :: "string \<Rightarrow> (string \<times> string) option" where
  "line_frame p = map_option (\<lambda>n. (strip_cr (take n p), drop (Suc n) p)) (index_of (CHR 0x0A) p)"

lemma line_frame_shorter: "line_frame p = Some (i, r) \<Longrightarrow> length r < length p"
  by (auto simp: line_frame_def index_of_Some)

function drain_lines :: "seq_env \<Rightarrow> seq_state \<Rightarrow> (seq_stop, seq_state) res" where
  "drain_lines env st =
     (case line_frame (ss_pending st) of
        None \<Rightarrow> Inr st
      | Some (item, rest) \<Rightarrow>
          res_bind (emitJSONItem env ''JSON Lines'' False item st) (\<lambda>st'. drain_lines env (next_item rest st')))"
  by pat_completeness auto
termination
  by (relation "measure (\<lambda>(_, st). length (ss_pending st))") (auto simp: next_item_def dest: line_frame_shorter)

declare drain_lines.simps [simp del]

definition lines_chunk :: "seq_env \<Rightarrow> string \<Rightarrow> seq_state \<Rightarrow> (seq_stop, seq_state) res" where
  "lines_chunk env c st =
     res_bind (drain_lines env (st \<lparr> ss_pending := ss_pending st @ c \<rparr>)) (\<lambda>st'.
       if length (ss_pending st') > sq_limit env + 1 then seq_fail (item_too_long (sq_limit env)) st' else Inr st')"

definition lines_finish :: "seq_env \<Rightarrow> seq_state \<Rightarrow> (seq_stop, seq_state) res" where
  "lines_finish env st =
     (if ss_pending st = [] then Inr st else emitJSONItem env ''JSON Lines'' False (strip_cr (ss_pending st)) st)"

definition streamJSONLines :: "seq_env \<Rightarrow> (string list \<times> stream_end) option \<Rightarrow> seq_stop" where
  "streamJSONLines env = run_chunks (lines_chunk env) (lines_finish env)"

section \<open>JSON text sequences\<close>

definition trimSequenceTerminator :: "string \<Rightarrow> string" where
  "trimSequenceTerminator s = strip_cr (if s \<noteq> [] \<and> last s = CHR 0x0A then butlast s else s)"

definition sequence_frame :: "string \<Rightarrow> (string \<times> string) option" where
  "sequence_frame p =
     (case p of
        [] \<Rightarrow> None
      | _ # s \<Rightarrow> map_option (\<lambda>n. (trimSequenceTerminator (take n s), drop n s)) (index_of (CHR 0x1E) s))"

lemma sequence_frame_shorter: "sequence_frame p = Some (i, r) \<Longrightarrow> length r < length p"
  by (auto simp: sequence_frame_def split: list.splits)

definition sequence_gate :: "string \<Rightarrow> string option" where
  "sequence_gate p =
     (if p \<noteq> [] \<and> hd p \<noteq> CHR 0x1E then Some ''JSON text sequence does not begin with RS'' else None)"

function drain_sequence :: "seq_env \<Rightarrow> seq_state \<Rightarrow> (seq_stop, seq_state) res" where
  "drain_sequence env st =
     (case sequence_frame (ss_pending st) of
        None \<Rightarrow> Inr st
      | Some (item, rest) \<Rightarrow>
          res_bind (emitJSONItem env ''JSON text sequence'' True item st) (\<lambda>st'. drain_sequence env (next_item rest st')))"
  by pat_completeness auto
termination
  by (relation "measure (\<lambda>(_, st). length (ss_pending st))") (auto simp: next_item_def dest: sequence_frame_shorter)

declare drain_sequence.simps [simp del]

definition sequence_chunk :: "seq_env \<Rightarrow> string \<Rightarrow> seq_state \<Rightarrow> (seq_stop, seq_state) res" where
  "sequence_chunk env c st =
     (let joined = st \<lparr> ss_pending := ss_pending st @ c \<rparr> in
      case sequence_gate (ss_pending joined) of
        Some message \<Rightarrow> seq_fail message joined
      | None \<Rightarrow>
          res_bind (drain_sequence env joined) (\<lambda>st'.
            if length (ss_pending st') > sq_limit env + 3 then seq_fail (item_too_long (sq_limit env)) st' else Inr st'))"

definition sequence_finish :: "seq_env \<Rightarrow> seq_state \<Rightarrow> (seq_stop, seq_state) res" where
  "sequence_finish env st =
     (if ss_pending st = [] then Inr st
      else
        (case sequence_gate (ss_pending st) of
           Some message \<Rightarrow> seq_fail message st
         | None \<Rightarrow> emitJSONItem env ''JSON text sequence'' True (trimSequenceTerminator (tl (ss_pending st))) st))"

definition streamJSONSequence :: "seq_env \<Rightarrow> (string list \<times> stream_end) option \<Rightarrow> seq_stop" where
  "streamJSONSequence env = run_chunks (sequence_chunk env) (sequence_finish env)"

section \<open>Framings and chunk boundaries\<close>

text \<open>
  What a framing promises: the first item of a buffer does not depend on what follows it, the buffer is
  refused by its first byte only, and a buffer over the bound has no item that could still be emitted.
\<close>

locale item_framing =
  fixes frame :: "string \<Rightarrow> (string \<times> string) option"
    and gate :: "string \<Rightarrow> string option"
    and emit :: "string \<Rightarrow> seq_state \<Rightarrow> (seq_stop, seq_state) res"
    and bound :: nat
    and too_long :: string
    and drain :: "seq_state \<Rightarrow> (seq_stop, seq_state) res"
    and chunk :: "string \<Rightarrow> seq_state \<Rightarrow> (seq_stop, seq_state) res"
  assumes frame_shorter: "frame p = Some (i, r) \<Longrightarrow> length r < length p"
    and frame_extend: "frame p = Some (i, r) \<Longrightarrow> frame (p @ q) = Some (i, r @ q)"
    and gate_empty: "gate [] = None"
    and gate_extend: "p \<noteq> [] \<Longrightarrow> gate (p @ q) = gate p"
    and gate_rest: "frame p = Some (i, r) \<Longrightarrow> gate (r @ q) = None"
    and emit_pending: "emit i (st \<lparr> ss_pending := p \<rparr>) = res_map (\<lambda>s. s \<lparr> ss_pending := p \<rparr>) (emit i st)"
    and oversized: "frame p = None \<Longrightarrow> length p > bound \<Longrightarrow> frame (p @ q) = Some (i, r) \<Longrightarrow> emit i st = seq_fail too_long st"
    and drain_unfold: "drain st = (case frame (ss_pending st) of None \<Rightarrow> Inr st
       | Some (i, r) \<Rightarrow> res_bind (emit i st) (\<lambda>st'. drain (next_item r st')))"
    and chunk_unfold: "chunk c st = (case gate (ss_pending st @ c) of
       Some m \<Rightarrow> seq_fail m st
     | None \<Rightarrow> res_bind (drain (st \<lparr> ss_pending := ss_pending st @ c \<rparr>)) (\<lambda>st'.
         if length (ss_pending st') > bound then seq_fail too_long st' else Inr st'))"
begin

lemma frame_empty: "frame [] = None"
  using frame_shorter [of "[]"] by (cases "frame []") auto

lemma drain_extend:
  "drain (st \<lparr> ss_pending := p @ q \<rparr>) =
     res_bind (drain (st \<lparr> ss_pending := p \<rparr>)) (\<lambda>st'. drain (st' \<lparr> ss_pending := ss_pending st' @ q \<rparr>))"
proof (induction "length p" arbitrary: p st rule: less_induct)
  case less
  show ?case
  proof (cases "frame p")
    case None
    then show ?thesis by (subst (2) drain_unfold) simp
  next
    case (Some ir)
    obtain i r where f: "frame p = Some (i, r)" using Some by (cases ir) auto
    have ih: "drain (next_item (r @ q) s) = res_bind (drain (next_item r s)) (\<lambda>st'. drain (st' \<lparr> ss_pending := ss_pending st' @ q \<rparr>))" for s
      using less [of r "s \<lparr> ss_index := Suc (ss_index s) \<rparr>"] frame_shorter [OF f] by (simp add: next_item_def)
    show ?thesis
      by (subst (1 2) drain_unfold) (cases "emit i st", simp_all add: f frame_extend [OF f] emit_pending ih [unfolded next_item_def] next_item_def)
  qed
qed

lemma drain_settled:
  assumes "drain st = Inr st'" and "\<forall>q. gate (ss_pending st @ q) = None"
  shows "frame (ss_pending st') = None \<and> (\<forall>q. gate (ss_pending st' @ q) = None)"
  using assms
proof (induction "length (ss_pending st)" arbitrary: st rule: less_induct)
  case less
  show ?case
  proof (cases "frame (ss_pending st)")
    case None
    then show ?thesis using less.prems by (simp add: drain_unfold [of st])
  next
    case (Some ir)
    obtain i r where f: "frame (ss_pending st) = Some (i, r)" using Some by (cases ir) auto
    obtain s where s: "drain (next_item r s) = Inr st'"
      using less.prems(1) f by (auto simp: drain_unfold [of st] res_bind_Inr_iff)
    have "length (ss_pending (next_item r s)) < length (ss_pending st)"
      using frame_shorter [OF f] by (simp add: next_item_def)
    then show ?thesis using less.hyps [of "next_item r s"] s gate_rest [OF f] by (simp add: next_item_def)
  qed
qed

lemma chunk_join: "res_bind (chunk a st) (chunk b) = chunk (a @ b) st"
proof -
  define p where "p = ss_pending st @ a"
  have whole: "ss_pending st @ a @ b = p @ b" by (simp add: p_def)
  consider (refused) m where "gate p = Some m" | (empty) "p = []" | (passed) "p \<noteq> []" "gate p = None"
    by (cases "gate p") auto
  then show ?thesis
  proof cases
    case refused
    then have "p \<noteq> []" using gate_empty by auto
    then show ?thesis using refused gate_extend by (simp add: chunk_unfold [of _ st] whole p_def [symmetric])
  next
    case empty
    then have p: "ss_pending st = []" "a = []" by (simp_all add: p_def)
    have "drain st = Inr st" using p frame_empty by (simp add: drain_unfold [of st])
    moreover have "gate (ss_pending st) = None" "\<not> bound < length (ss_pending st)" using p gate_empty by simp_all
    ultimately have "chunk [] st = Inr st" by (simp add: chunk_unfold [of "[]" st])
    then show ?thesis by (simp add: p(2))
  next
    case passed
    have all: "gate (p @ q) = None" for q using passed gate_extend by simp
    have "(if length (ss_pending s) > bound then seq_fail too_long s else chunk b s) =
        res_bind (drain (s \<lparr> ss_pending := ss_pending s @ b \<rparr>)) (\<lambda>s'. if length (ss_pending s') > bound then seq_fail too_long s' else Inr s')"
      if s: "drain (st \<lparr> ss_pending := p \<rparr>) = Inr s" for s
    proof -
      have settled: "frame (ss_pending s) = None" "gate (ss_pending s @ b) = None"
        using drain_settled [OF s] all by simp_all
      show ?thesis
      proof (cases "length (ss_pending s) > bound")
        case True
        show ?thesis
        proof (cases "frame (ss_pending s @ b)")
          case None
          then show ?thesis using True by (simp add: drain_unfold [of "s \<lparr> ss_pending := ss_pending s @ b \<rparr>"] stopped_def)
        next
          case (Some ir)
          obtain i r where ir: "ir = (i, r)" by (cases ir)
          show ?thesis using True Some oversized [OF settled(1) True Some [unfolded ir]]
            by (simp add: drain_unfold [of "s \<lparr> ss_pending := ss_pending s @ b \<rparr>"] ir emit_pending stopped_def)
        qed
      qed (simp add: chunk_unfold [of b s] settled)
    qed
    note late = this
    define check where "check = (\<lambda>s. if length (ss_pending s) > bound then seq_fail too_long s else Inr s)"
    have "chunk a st = res_bind (drain (st \<lparr> ss_pending := p \<rparr>)) check"
      using passed(2) by (simp add: chunk_unfold [of a st] p_def [symmetric] check_def)
    moreover have "chunk (a @ b) st = res_bind (res_bind (drain (st \<lparr> ss_pending := p \<rparr>))
        (\<lambda>s. drain (s \<lparr> ss_pending := ss_pending s @ b \<rparr>))) check"
      by (simp add: chunk_unfold [of "a @ b" st] whole all check_def drain_extend [where st = st and p = p and q = b])
    moreover have "res_bind (check s) (chunk b) = res_bind (drain (s \<lparr> ss_pending := ss_pending s @ b \<rparr>)) check"
      if "drain (st \<lparr> ss_pending := p \<rparr>) = Inr s" for s
    proof -
      have "res_bind (check s) (chunk b) = (if length (ss_pending s) > bound then seq_fail too_long s else chunk b s)"
        by (simp add: check_def)
      also have "\<dots> = res_bind (drain (s \<lparr> ss_pending := ss_pending s @ b \<rparr>)) check"
        unfolding check_def by (rule late [OF that])
      finally show ?thesis .
    qed
    ultimately show ?thesis by (cases "drain (st \<lparr> ss_pending := p \<rparr>)") simp_all
  qed
qed

lemma chunks_irrelevant: "each_res chunk cs seq_start = chunk (concat cs) seq_start"
proof -
  have "each_res chunk cs st = chunk (concat cs) st" if "chunk [] st = Inr st" for st
    using that
  proof (induction cs arbitrary: st)
    case (Cons c cs)
    have "each_res chunk cs st' = chunk (concat cs) st'" if "chunk c st = Inr st'" for st'
      using Cons.IH [of st'] chunk_join [of c st "[]"] that by simp
    then have "each_res chunk (c # cs) st = res_bind (chunk c st) (chunk (concat cs))"
      by (cases "chunk c st") simp_all
    then show ?case by (simp add: chunk_join)
  qed simp
  moreover have "chunk [] seq_start = Inr seq_start"
    using gate_empty frame_empty by (simp add: chunk_unfold seq_start_def drain_unfold)
  ultimately show ?thesis by blast
qed

lemma run_irrelevant: "run_chunks chunk finish (Some (cs, e)) = run_chunks chunk finish (Some ([concat cs], e))"
  by (simp add: run_chunks_def chunks_irrelevant)

end

lemma index_of_extend: "index_of c s = Some n \<Longrightarrow> index_of c (s @ t) = Some n \<and> n < length s"
  by (induction s arbitrary: n) (auto split: if_splits)

lemma index_of_past: "index_of c s = None \<Longrightarrow> index_of c (s @ t) = Some n \<Longrightarrow> length s \<le> n"
  by (induction s arbitrary: n) (auto split: if_splits)

lemma line_frame_extend: "line_frame p = Some (i, r) \<Longrightarrow> line_frame (p @ q) = Some (i, r @ q)"
  by (auto simp: line_frame_def dest: index_of_extend [where t = q])

lemma strip_cr_length: "length s \<le> Suc (length (strip_cr s))"
  by (simp add: strip_cr_def)

lemma trim_terminator_length: "length s \<le> length (trimSequenceTerminator s) + 2"
  using strip_cr_length [of s] strip_cr_length [of "butlast s"] by (auto simp: trimSequenceTerminator_def)

lemma line_frame_oversized:
  assumes "line_frame p = None" and "length p > limit + 1" and "line_frame (p @ q) = Some (i, r)"
  shows "length i > limit"
proof -
  obtain n where n: "index_of (CHR 0x0A) (p @ q) = Some n" "i = strip_cr (take n (p @ q))"
    using assms(3) by (auto simp: line_frame_def)
  have "length p \<le> n" using assms(1) n(1) index_of_past by (auto simp: line_frame_def)
  moreover have "n < length (p @ q)" using n(1) by (simp add: index_of_Some)
  ultimately show ?thesis using assms(2) strip_cr_length [of "take n (p @ q)"] n(2) by simp
qed

lemma sequence_frame_extend: "sequence_frame p = Some (i, r) \<Longrightarrow> sequence_frame (p @ q) = Some (i, r @ q)"
  by (auto simp: sequence_frame_def split: list.splits dest: index_of_extend [where t = q])

lemma sequence_frame_rest: "sequence_frame p = Some (i, r) \<Longrightarrow> \<exists>s. r = CHR 0x1E # s"
  by (auto simp: sequence_frame_def index_of_Some Cons_nth_drop_Suc [symmetric] split: list.splits)

lemma sequence_frame_oversized:
  assumes "sequence_frame p = None" and "length p > limit + 3" and "sequence_frame (p @ q) = Some (i, r)"
  shows "length i > limit"
proof -
  obtain c s where p: "p = c # s" using assms(2) by (cases p) auto
  obtain n where n: "index_of (CHR 0x1E) (s @ q) = Some n" "i = trimSequenceTerminator (take n (s @ q))"
    using assms(3) p by (auto simp: sequence_frame_def)
  have "length s \<le> n" using assms(1) n(1) index_of_past p by (auto simp: sequence_frame_def)
  moreover have "n < length (s @ q)" using n(1) by (simp add: index_of_Some)
  ultimately show ?thesis using assms(2) trim_terminator_length [of "take n (s @ q)"] n(2) p by simp
qed

lemma emitJSONItem_pending:
  "emitJSONItem env framing w i (st \<lparr> ss_pending := p \<rparr>) =
     res_map (\<lambda>s. s \<lparr> ss_pending := p \<rparr>) (emitJSONItem env framing w i st)"
  by (simp add: emitJSONItem_def emitSequentialValue_def Let_def stopped_def split: option.split sum.split strict_failure.split)

lemma emitJSONItem_long:
  "length i > sq_limit env \<Longrightarrow> emitJSONItem env framing w i st = seq_fail (item_too_long (sq_limit env)) st"
  by (simp add: emitJSONItem_def)

interpretation lines: item_framing line_frame "\<lambda>_. None" "emitJSONItem env ''JSON Lines'' False" "sq_limit env + 1"
  "item_too_long (sq_limit env)" "drain_lines env" "lines_chunk env" for env
proof (unfold_locales, goal_cases)
  case (7 p q i r st)
  then show ?case using line_frame_oversized emitJSONItem_long by blast
next
  case (8 st)
  then show ?case by (rule drain_lines.simps)
qed (auto simp: line_frame_shorter line_frame_extend emitJSONItem_pending lines_chunk_def)

interpretation sequence: item_framing sequence_frame sequence_gate "emitJSONItem env ''JSON text sequence'' True" "sq_limit env + 3"
  "item_too_long (sq_limit env)" "drain_sequence env" "sequence_chunk env" for env
proof (unfold_locales, goal_cases)
  case (5 p i r q)
  then show ?case using sequence_frame_rest [OF 5] by (auto simp: sequence_gate_def)
next
  case (7 p q i r st)
  then show ?case using sequence_frame_oversized emitJSONItem_long by blast
next
  case (8 st)
  then show ?case by (rule drain_sequence.simps)
next
  case (9 c st)
  then show ?case by (simp add: sequence_chunk_def Let_def stopped_def cong: option.case_cong)
qed (auto simp: sequence_frame_shorter sequence_frame_extend emitJSONItem_pending sequence_gate_def)

text \<open>
  C7. What a JSON Lines or JSON text sequence response emits, and how it ends, depends on the bytes of
  the body and the way the stream ends, not on how the network cuts the body into chunks.
\<close>

theorem sequential_reading_ignores_chunk_boundaries:
  "streamJSONLines env (Some (chunks, e)) = streamJSONLines env (Some ([concat chunks], e)) \<and>
   streamJSONSequence env (Some (chunks, e)) = streamJSONSequence env (Some ([concat chunks], e))"
  unfolding streamJSONLines_def streamJSONSequence_def
  using lines.run_irrelevant [of env "lines_finish env" chunks e] sequence.run_irrelevant [of env "sequence_finish env" chunks e] by simp

section \<open>What a sequential body carries\<close>

definition item_text_ok :: "seq_env \<Rightarrow> string \<Rightarrow> jsval \<Rightarrow> bool" where
  "item_text_ok env u v \<longleftrightarrow>
     list_all (\<lambda>c. c \<notin> set u) [CHR 0x0A, CHR 0x0D, CHR 0x1E] \<and> js_trim u \<noteq> [] \<and> length u \<le> sq_limit env \<and>
     sq_well_formed env u \<and> \<not> prefix byte_order_mark u \<and> sq_parse env u = Inr v"

text \<open>A value whose JSON text, with the markup characters escaped, is one the reader takes back to it.\<close>

definition json_item_ok :: "media32_env \<Rightarrow> seq_env \<Rightarrow> jsval \<Rightarrow> bool" where
  "json_item_ok menv env v \<longleftrightarrow>
     (case stringify_media_json menv v of Inr u \<Rightarrow> item_text_ok env u v | Inl _ \<Rightarrow> False)"

lemma emit_item:
  assumes "item_text_ok env u v" and "sq_accepts env = (\<lambda>_ _. True)"
  shows "emitJSONItem env framing w u st = Inr (st \<lparr> ss_out := ss_out st @ [v] \<rparr>)"
proof -
  have "u \<noteq> []" using assms(1) by (auto simp: item_text_ok_def js_trim_def trim_start_def trim_end_def)
  then show ?thesis using assms by (simp add: item_text_ok_def emitJSONItem_def emitSequentialValue_def decode_fatal_def)
qed

lemma strip_cr_id: "CHR 0x0D \<notin> set u \<Longrightarrow> strip_cr u = u"
  using last_in_set by (fastforce simp: strip_cr_def)

lemma frames_of_item:
  assumes "item_text_ok env u v"
  shows "line_frame (u @ CHR 0x0A # r) = Some (u, r)"
    and "sequence_frame (CHR 0x1E # u @ CHR 0x0A # CHR 0x1E # r) = Some (u, CHR 0x1E # r)"
    and "trimSequenceTerminator (u @ [CHR 0x0A]) = u"
proof -
  have free: "CHR 0x0A \<notin> set u" "CHR 0x0D \<notin> set u" "CHR 0x1E \<notin> set u" using assms by (simp_all add: item_text_ok_def)
  show trim: "trimSequenceTerminator (u @ [CHR 0x0A]) = u" using free by (simp add: trimSequenceTerminator_def strip_cr_id)
  show "line_frame (u @ CHR 0x0A # r) = Some (u, r)"
    using free by (simp add: line_frame_def index_of_append strip_cr_id)
  have "CHR 0x1E \<notin> set (u @ [CHR 0x0A])" using free by simp
  from index_of_append [OF this, of r]
  have "index_of (CHR 0x1E) (u @ CHR 0x0A # CHR 0x1E # r) = Some (Suc (length u))" by simp
  then show "sequence_frame (CHR 0x1E # u @ CHR 0x0A # CHR 0x1E # r) = Some (u, CHR 0x1E # r)"
    using trim by (simp add: sequence_frame_def)
qed

lemma drain_lines_items:
  assumes "list_all2 (item_text_ok env) us vs" and "sq_accepts env = (\<lambda>_ _. True)"
  shows "drain_lines env (st \<lparr> ss_pending := concat (map (\<lambda>u. u @ [CHR 0x0A]) us) \<rparr>) =
    Inr (st \<lparr> ss_pending := [], ss_index := ss_index st + length vs, ss_out := ss_out st @ vs \<rparr>)"
  using assms(1)
proof (induction us vs arbitrary: st rule: list_all2_induct)
  case Nil
  then show ?case by (subst drain_lines.simps) (simp add: line_frame_def)
next
  case (Cons u us v vs)
  show ?case
    using Cons.IH [of "st \<lparr> ss_out := ss_out st @ [v], ss_index := Suc (ss_index st) \<rparr>"]
    by (subst drain_lines.simps)
      (simp add: frames_of_item(1) [OF Cons.hyps(1)] emit_item [OF Cons.hyps(1) assms(2)] next_item_def)
qed

definition sequence_texts :: "string list \<Rightarrow> string" where
  "sequence_texts us = concat (map (\<lambda>u. CHR 0x1E # u @ [CHR 0x0A]) us)"

lemma drain_sequence_items:
  assumes "list_all2 (item_text_ok env) us vs" and "item_text_ok env u v" and "sq_accepts env = (\<lambda>_ _. True)"
  shows "drain_sequence env (st \<lparr> ss_pending := sequence_texts (us @ [u]) \<rparr>) =
    Inr (st \<lparr> ss_pending := sequence_texts [u], ss_index := ss_index st + length vs, ss_out := ss_out st @ vs \<rparr>)"
  using assms(1)
proof (induction us vs arbitrary: st rule: list_all2_induct)
  case Nil
  have "sequence_frame (sequence_texts [u]) = None"
    using assms(2) by (simp add: sequence_frame_def sequence_texts_def item_text_ok_def index_of_None)
  then show ?case by (subst drain_sequence.simps) simp
next
  case (Cons w us x vs)
  obtain r where r: "sequence_texts (us @ [u]) = CHR 0x1E # r"
    by (cases us) (simp_all add: sequence_texts_def)
  have front: "sequence_texts ((w # us) @ [u]) = CHR 0x1E # w @ CHR 0x0A # CHR 0x1E # r"
    using r by (simp add: sequence_texts_def)
  show ?case
    using Cons.IH [of "st \<lparr> ss_out := ss_out st @ [x], ss_index := Suc (ss_index st) \<rparr>"] unfolding front
    by (subst drain_sequence.simps)
      (simp add: frames_of_item(2) [OF Cons.hyps(1)] emit_item [OF Cons.hyps(1) assms(3)] next_item_def r)
qed

text \<open>The texts of the items of a body.\<close>

lemma sequential_body_texts:
  assumes "buildOpenAPI32SequentialBody menv kind (JArr items) = Inr body"
    and "list_all (json_item_ok menv env) items"
  shows "\<exists>us. list_all2 (item_text_ok env) us items \<and>
    body = concat (map (\<lambda>u. (if kind = JSON_Seq then [CHR 0x1E] else []) @ u @ [CHR 0x0A]) us)"
proof -
  define frame where "frame u = (if kind = JSON_Seq then [CHR 0x1E] else []) @ u @ [CHR 0x0A]" for u :: string
  obtain parts where parts: "map_res (\<lambda>item. res_map frame (stringify_media_json menv item)) items = Inr parts" and body: "body = concat parts"
    using assms(1) by (auto simp: buildOpenAPI32SequentialBody_def frame_def [abs_def] js_result)
  have "\<exists>us. list_all2 (item_text_ok env) us items \<and> parts = map frame us"
    using parts assms(2)
  proof (induction items arbitrary: parts)
    case (Cons v items)
    then obtain u ps where u: "stringify_media_json menv v = Inr u" "parts = frame u # ps"
      "map_res (\<lambda>item. res_map frame (stringify_media_json menv item)) items = Inr ps"
      by (auto simp: res_bind_Inr_iff res_map_Inr_iff)
    with Cons obtain us where "list_all2 (item_text_ok env) us items" "ps = map frame us" by auto
    moreover have "item_text_ok env u v" using Cons.prems(2) u(1) by (simp add: json_item_ok_def)
    ultimately have "list_all2 (item_text_ok env) (u # us) (v # items) \<and> parts = map frame (u # us)" using u(2) by simp
    then show ?case by blast
  qed simp
  then show ?thesis using body by (auto simp: frame_def [abs_def])
qed

text \<open>
  C8. What a request sends as a JSON Lines or JSON text sequence body, the response reader of the same
  framing reads back item by item and closes, however the bytes are cut into chunks, for items whose
  JSON text the reader's parser inverts and the limit admits.
\<close>

theorem sequential_body_roundtrip:
  assumes "buildOpenAPI32SequentialBody menv kind (JArr items) = Inr body" and "concat chunks = body"
    and "list_all (json_item_ok menv env) items" and "sq_accepts env = (\<lambda>_ _. True)"
  shows "(if kind = JSON_Seq then streamJSONSequence else streamJSONLines) env (Some (chunks, Stream_Done)) =
    \<lparr> so_out = items, so_end = Seq_Closed \<rparr>"
proof -
  obtain us where us: "list_all2 (item_text_ok env) us items"
    and body: "body = concat (map (\<lambda>u. (if kind = JSON_Seq then [CHR 0x1E] else []) @ u @ [CHR 0x0A]) us)"
    using sequential_body_texts [OF assms(1,3)] by blast
  show ?thesis
  proof (cases kind)
    case JSON_Lines
    then have "body = concat (map (\<lambda>u. u @ [CHR 0x0A]) us)" using body by simp
    then show ?thesis
      using JSON_Lines drain_lines_items [OF us assms(4), of seq_start] lines.run_irrelevant [of env "lines_finish env" chunks Stream_Done]
      by (simp add: assms(2) streamJSONLines_def run_chunks_def lines_chunk_def lines_finish_def seq_start_def stopped_def)
  next
    case JSON_Seq
    then have body: "body = sequence_texts us" using body by (simp add: sequence_texts_def)
    have whole: "streamJSONSequence env (Some (chunks, Stream_Done)) = streamJSONSequence env (Some ([body], Stream_Done))"
      using sequence.run_irrelevant [of env "sequence_finish env" chunks Stream_Done] by (simp add: streamJSONSequence_def assms(2))
    have "streamJSONSequence env (Some ([body], Stream_Done)) = \<lparr> so_out = items, so_end = Seq_Closed \<rparr>"
    proof (cases us rule: rev_cases)
      case Nil
      then have "items = []" "body = []" using us body by (simp_all add: sequence_texts_def)
      then show ?thesis
        by (simp add: streamJSONSequence_def run_chunks_def sequence_chunk_def sequence_finish_def sequence_gate_def seq_start_def
            drain_sequence.simps sequence_frame_def stopped_def)
    next
      case (snoc ws u)
      then obtain vs v where items: "items = vs @ [v]" and ok: "list_all2 (item_text_ok env) ws vs" "item_text_ok env u v"
        using us by (auto simp: list_all2_append1 list_all2_Cons1)
      have gate: "sequence_gate body = None" "sequence_gate (sequence_texts [u]) = None"
        unfolding body snoc by (cases ws; simp add: sequence_gate_def sequence_texts_def)+
      have short: "length (sequence_texts [u]) \<le> sq_limit env + 2"
        using ok(2) by (simp add: sequence_texts_def item_text_ok_def)
      have tl: "sequence_texts [u] \<noteq> []" "tl (sequence_texts [u]) = u @ [CHR 0x0A]" by (simp_all add: sequence_texts_def)
      show ?thesis
        using drain_sequence_items [OF ok assms(4), of seq_start] gate short tl
          emit_item [OF ok(2) assms(4)] frames_of_item(3) [OF ok(2)]
        by (simp add: body snoc streamJSONSequence_def run_chunks_def sequence_chunk_def sequence_finish_def seq_start_def stopped_def items)
    qed
    then show ?thesis using JSON_Seq whole by simp
  qed
qed

definition example_seq_env :: seq_env where
  "example_seq_env =
     \<lparr> sq_well_formed = (\<lambda>_. True), sq_malformed = ''malformed'',
       sq_parse = (\<lambda>t. if t = ''true'' then Inr (JBool True) else if t = ''null'' then Inr JNull else Inr (JNum t)),
       sq_accepts = (\<lambda>_ _. True), sq_limit = 9 \<rparr>"

lemma sequential_body_roundtrip_witness:
  "streamJSONSequence example_seq_env (Some ([CHR 0x1E # ''tr'', ''ue'' @ [CHR 0x0A, CHR 0x1E], ''42'' @ [CHR 0x0A]], Stream_Done)) =
     \<lparr> so_out = [JBool True, JNum ''42''], so_end = Seq_Closed \<rparr>"
proof -
  have built: "buildOpenAPI32SequentialBody example_media32_env JSON_Seq (JArr [JBool True, JNum ''42'']) =
      Inr (CHR 0x1E # ''true'' @ [CHR 0x0A, CHR 0x1E] @ ''42'' @ [CHR 0x0A])"
    by code_simp
  have no_mark: "\<not> prefix byte_order_mark ''true''" "\<not> prefix byte_order_mark ''42''"
    by (auto dest!: byte_order_mark_hd simp: byte_def)
  have texts: "stringify_media_json example_media32_env (JBool True) = Inr ''true''"
    "stringify_media_json example_media32_env (JNum ''42'') = Inr ''42''" "js_trim ''true'' = ''true''" "js_trim ''42'' = ''42''"
    by code_simp+
  have ok: "list_all (json_item_ok example_media32_env example_seq_env) [JBool True, JNum ''42'']"
    using no_mark by (simp add: json_item_ok_def texts item_text_ok_def example_seq_env_def)
  show ?thesis
    using sequential_body_roundtrip [OF built _ ok, of "[CHR 0x1E # ''tr'', ''ue'' @ [CHR 0x0A, CHR 0x1E], ''42'' @ [CHR 0x0A]]"]
    by (simp add: example_seq_env_def)
qed

end
