(* ===== verification/Part_Reader.thy ===== *)
theory Part_Reader
  imports Sequential_Response Unicode
begin

text \<open>
  The multipart half of \<open>openapi32-sequential-response.ts\<close>: the reader of delimited bytes, part headers,
  transfer encodings and the decoding of parts.  Reading is proved to depend on the bytes still to come
  only (\<open>view\<close>), which carries the independence from chunk boundaries over to multipart responses.
\<close>

section \<open>The byte reader\<close>

record byte_reader =
  br_pending :: string
  br_chunks :: "string list"
  br_end :: stream_end

text \<open>What a read throws: a message, and whether the session was aborted by then.\<close>

type_synonym part_thrown = "string \<times> bool"

definition readMore :: "byte_reader \<Rightarrow> (part_thrown, byte_reader) res" where
  "readMore rd =
     (case br_chunks rd of
        c # cs \<Rightarrow> Inr (rd \<lparr> br_pending := br_pending rd @ c, br_chunks := cs \<rparr>)
      | [] \<Rightarrow>
          (case br_end rd of
             Stream_Done \<Rightarrow> Inl (''unexpected end of multipart response'', False)
           | Stream_Broken message aborted \<Rightarrow> Inl (message, aborted)))"

lemma readMore_chunks: "readMore rd = Inr rd' \<Longrightarrow> length (br_chunks rd') < length (br_chunks rd)"
  by (auto simp: readMore_def split: list.splits stream_end.splits)

function readExact :: "nat \<Rightarrow> byte_reader \<Rightarrow> (part_thrown, string \<times> byte_reader) res" where
  "readExact n rd =
     (if length (br_pending rd) < n then res_bind (readMore rd) (readExact n)
      else Inr (take n (br_pending rd), rd \<lparr> br_pending := drop n (br_pending rd) \<rparr>))"
  by pat_completeness auto
termination
  by (relation "measure (\<lambda>(_, rd). length (br_chunks rd))") (auto dest: readMore_chunks)

declare readExact.simps [simp del]

fun indexOfBytes :: "string \<Rightarrow> string \<Rightarrow> nat option" where
  "indexOfBytes d [] = (if d = [] then Some 0 else None)"
| "indexOfBytes d (c # s) = (if prefix d (c # s) then Some 0 else map_option Suc (indexOfBytes d s))"

definition released :: "string \<Rightarrow> string \<Rightarrow> nat" where
  "released d pending = length pending - min (length pending) (length d - 1)"

function read_until_from ::
  "string \<Rightarrow> nat \<Rightarrow> string \<Rightarrow> byte_reader \<Rightarrow> (part_thrown, string \<times> byte_reader) res" where
  "read_until_from d limit taken rd =
     (let pending = br_pending rd in
      case indexOfBytes d pending of
        Some n \<Rightarrow>
          if length taken + n > limit then Inl (item_too_long limit, False)
          else Inr (taken @ take n pending, rd \<lparr> br_pending := drop (n + length d) pending \<rparr>)
      | None \<Rightarrow>
          (let k = released d pending in
           if k > 0 \<and> length taken + k > limit then Inl (item_too_long limit, False)
           else
             res_bind (readMore (rd \<lparr> br_pending := drop k pending \<rparr>)) (read_until_from d limit (taken @ take k pending))))"
  by pat_completeness auto
termination
  by (relation "measure (\<lambda>(_, _, _, rd). length (br_chunks rd))") (auto dest: readMore_chunks)

declare read_until_from.simps [simp del]

definition readUntil :: "string \<Rightarrow> nat \<Rightarrow> byte_reader \<Rightarrow> (part_thrown, string \<times> byte_reader) res" where
  "readUntil d limit = read_until_from d limit []"

section \<open>The reader reads what is still to come\<close>

definition view :: "byte_reader \<Rightarrow> string \<times> stream_end" where
  "view rd = (br_pending rd @ concat (br_chunks rd), br_end rd)"

definition viewed :: "(part_thrown, 'a \<times> byte_reader) res \<Rightarrow> (part_thrown, 'a \<times> string \<times> stream_end) res" where
  "viewed r = res_map (\<lambda>(x, rd). (x, view rd)) r"

definition end_thrown :: "stream_end \<Rightarrow> part_thrown" where
  "end_thrown e =
     (case e of
        Stream_Done \<Rightarrow> (''unexpected end of multipart response'', False)
      | Stream_Broken message aborted \<Rightarrow> (message, aborted))"

lemma readMore_view:
  "readMore rd = (case br_chunks rd of [] \<Rightarrow> Inl (end_thrown (br_end rd))
     | c # cs \<Rightarrow> Inr (rd \<lparr> br_pending := br_pending rd @ c, br_chunks := cs \<rparr>))"
  by (simp add: readMore_def end_thrown_def split: list.split stream_end.split)

definition exact_bytes :: "nat \<Rightarrow> string \<times> stream_end \<Rightarrow> (part_thrown, string \<times> string \<times> stream_end) res" where
  "exact_bytes n v =
     (if length (fst v) < n then Inl (end_thrown (snd v)) else Inr (take n (fst v), drop n (fst v), snd v))"

lemma readExact_view: "viewed (readExact n rd) = exact_bytes n (view rd)"
proof (induction "br_chunks rd" arbitrary: rd)
  case Nil
  then have "br_chunks rd = []" by simp
  then show ?case by (subst readExact.simps) (auto simp: viewed_def exact_bytes_def view_def readMore_view)
next
  case (Cons c cs)
  then have chunks: "br_chunks rd = c # cs" by simp
  define rd' where "rd' = rd \<lparr> br_pending := br_pending rd @ c, br_chunks := cs \<rparr>"
  have "view rd' = view rd" by (simp add: rd'_def view_def chunks)
  moreover have "viewed (readExact n rd') = exact_bytes n (view rd')" by (rule Cons.hyps(1)) (simp add: rd'_def)
  moreover have "readMore rd = Inr rd'" by (simp add: readMore_view chunks rd'_def)
  ultimately show ?case by (subst readExact.simps) (auto simp: viewed_def exact_bytes_def view_def)
qed

text \<open>The specification of reading up to a delimiter, over the bytes to come.\<close>

definition until_bytes ::
  "string \<Rightarrow> nat \<Rightarrow> string \<Rightarrow> string \<times> stream_end \<Rightarrow> (part_thrown, string \<times> string \<times> stream_end) res" where
  "until_bytes d limit taken v =
     (case indexOfBytes d (fst v) of
        Some n \<Rightarrow>
          if length taken + n > limit then Inl (item_too_long limit, False)
          else Inr (taken @ take n (fst v), drop (n + length d) (fst v), snd v)
      | None \<Rightarrow>
          if released d (fst v) > 0 \<and> length taken + released d (fst v) > limit then Inl (item_too_long limit, False)
          else Inl (end_thrown (snd v)))"

lemma indexOfBytes_Some:
  "d \<noteq> [] \<Longrightarrow> indexOfBytes d s = Some n \<longleftrightarrow> prefix d (drop n s) \<and> (\<forall>m<n. \<not> prefix d (drop m s))"
proof (induction s arbitrary: n)
  case (Cons c s)
  then show ?case by (cases n) (auto simp: less_Suc_eq_0_disj)
qed simp

lemma indexOfBytes_None: "d \<noteq> [] \<Longrightarrow> indexOfBytes d s = None \<longleftrightarrow> (\<forall>m. \<not> prefix d (drop m s))"
proof (induction s)
  case (Cons c s)
  have "(\<forall>m. \<not> prefix d (drop m (c # s))) \<longleftrightarrow> \<not> prefix d (c # s) \<and> (\<forall>m. \<not> prefix d (drop m s))"
    by (metis drop0 drop_Suc_Cons not0_implies_Suc)
  then show ?case using Cons by auto
qed simp

lemma indexOfBytes_bound: "indexOfBytes d s = Some n \<Longrightarrow> n + length d \<le> length s"
proof (induction s arbitrary: n)
  case (Cons c s)
  then show ?case by (auto split: if_splits dest: prefix_length_le)
qed (auto split: if_splits)

lemma prefix_within: "length d \<le> length p \<Longrightarrow> prefix d (p @ t) \<longleftrightarrow> prefix d p"
  by (auto simp: prefix_append dest: prefix_length_le)

lemma indexOfBytes_extend:
  assumes "indexOfBytes d s = Some n"
  shows "indexOfBytes d (s @ t) = Some n"
  using assms
proof (induction s arbitrary: n)
  case (Cons c s)
  have "length d \<le> length (c # s)" using indexOfBytes_bound [OF Cons.prems] by simp
  then have "prefix d (c # s @ t) \<longleftrightarrow> prefix d (c # s)" using prefix_within [of d "c # s" t] by simp
  then show ?case using Cons by (auto split: if_splits)
qed (cases t; auto split: if_splits)

text \<open>No delimiter starts in the released bytes, whatever follows the buffer.\<close>

lemma released_free:
  assumes "d \<noteq> []" and "indexOfBytes d p = None" and "m < released d p"
  shows "\<not> prefix d (drop m (p @ t))"
proof
  assume pre: "prefix d (drop m (p @ t))"
  have "m + length d \<le> length p" using assms(1,3) by (cases d) (auto simp: released_def)
  then have "prefix d (drop m p)" using pre prefix_within [of d "drop m p" t] by simp
  then show False using assms(1,2) indexOfBytes_None by blast
qed

lemma indexOfBytes_released:
  assumes "d \<noteq> []" and "indexOfBytes d p = None"
  shows "indexOfBytes d (p @ t) = map_option ((+) (released d p)) (indexOfBytes d (drop (released d p) p @ t))"
proof -
  define k where "k = released d p"
  have "k \<le> length p" by (simp add: k_def released_def)
  have skip: "indexOfBytes d s = map_option ((+) k) (indexOfBytes d (drop k s))"
    if "\<forall>m<k. \<not> prefix d (drop m s)" "k \<le> length s" for s k
    using that
  proof (induction k arbitrary: s)
    case (Suc k)
    then obtain c u where s: "s = c # u" by (cases s) auto
    have head: "\<not> prefix d s" using Suc.prems(1) by auto
    have "\<forall>m<k. \<not> prefix d (drop m u)" using Suc.prems(1) s by (metis Suc_less_eq drop_Suc_Cons)
    then have "indexOfBytes d u = map_option ((+) k) (indexOfBytes d (drop k u))"
      using Suc.IH [of u] Suc.prems(2) s by simp
    then show ?case using head s by (simp add: option.map_comp comp_def)
  next
    case 0
    then show ?case by (cases "indexOfBytes d s") simp_all
  qed
  show ?thesis
    using skip [of k "p @ t"] released_free [OF assms] \<open>k \<le> length p\<close> by (simp add: k_def [symmetric])
qed

lemma read_until_Some:
  "indexOfBytes d (br_pending rd) = Some n \<Longrightarrow> read_until_from d limit taken rd =
     (if length taken + n > limit then Inl (item_too_long limit, False)
      else Inr (taken @ take n (br_pending rd), rd \<lparr> br_pending := drop (n + length d) (br_pending rd) \<rparr>))"
  by (subst read_until_from.simps) (simp add: Let_def)

lemma read_until_None:
  "indexOfBytes d (br_pending rd) = None \<Longrightarrow> k = released d (br_pending rd) \<Longrightarrow> read_until_from d limit taken rd =
     (if k > 0 \<and> length taken + k > limit then Inl (item_too_long limit, False)
      else res_bind (readMore (rd \<lparr> br_pending := drop k (br_pending rd) \<rparr>)) (read_until_from d limit (taken @ take k (br_pending rd))))"
  by (subst read_until_from.simps) (simp add: Let_def)

lemma read_until_view:
  assumes "d \<noteq> []"
  shows "viewed (read_until_from d limit taken rd) = until_bytes d limit taken (view rd)"
proof (induction "br_chunks rd" arbitrary: rd taken)
  case Nil
  then have chunks: "br_chunks rd = []" by simp
  show ?case
  proof (cases "indexOfBytes d (br_pending rd)")
    case None
    then show ?thesis using chunks
      by (simp add: read_until_None [OF None refl] viewed_def until_bytes_def view_def readMore_view)
  next
    case (Some n)
    then show ?thesis using chunks
      by (simp add: read_until_Some [OF Some] viewed_def until_bytes_def view_def)
  qed
next
  case (Cons c cs)
  then have chunks: "br_chunks rd = c # cs" by simp
  define p where "p = br_pending rd"
  define k where "k = released d p"
  define rest where "rest = c @ concat cs"
  have view: "view rd = (p @ rest, br_end rd)" by (simp add: view_def p_def rest_def chunks)
  show ?case
  proof (cases "indexOfBytes d p")
    case (Some n)
    have "n + length d \<le> length p" by (rule indexOfBytes_bound [OF Some])
    then show ?thesis
      using Some indexOfBytes_extend [OF Some, of rest]
      by (simp add: p_def read_until_Some viewed_def until_bytes_def view_def chunks rest_def)
  next
    case None
    have found: "indexOfBytes d (p @ rest) = map_option ((+) k) (indexOfBytes d (drop k p @ rest))"
      unfolding k_def by (rule indexOfBytes_released [OF assms None])
    have kp: "k \<le> length p" by (simp add: k_def released_def)
    have grow: "released d (p @ rest) = k + released d (drop k p @ rest)"
      by (simp add: k_def released_def)
    show ?thesis
    proof (cases "k > 0 \<and> length taken + k > limit")
      case True
      then have "until_bytes d limit taken (view rd) = Inl (item_too_long limit, False)"
        using found grow by (auto simp: until_bytes_def view split: option.splits)
      then show ?thesis using True read_until_None [OF None [unfolded p_def] k_def [unfolded p_def], of limit taken]
        by (simp add: viewed_def)
    next
      case False
      define rd' where "rd' = rd \<lparr> br_pending := drop k p @ c, br_chunks := cs \<rparr>"
      have "viewed (read_until_from d limit (taken @ take k p) rd') = until_bytes d limit (taken @ take k p) (view rd')"
        by (rule Cons.hyps(1)) (simp add: rd'_def)
      also have "\<dots> = until_bytes d limit taken (view rd)"
      proof -
        define q where "q = drop k p @ rest"
        have v: "view rd' = (q, br_end rd)" by (simp add: view_def rd'_def rest_def q_def)
        have len: "length (taken @ take k p) = length taken + k" using kp by simp
        have found: "indexOfBytes d (p @ rest) = map_option ((+) k) (indexOfBytes d q)" using found by (simp only: q_def)
        have grow: "released d (p @ rest) = k + released d q" using grow by (simp only: q_def)
        show ?thesis
        proof (cases "indexOfBytes d q")
          case None
          then have "indexOfBytes d (p @ rest) = None" using found by simp
          then have "until_bytes d limit taken (view rd) =
              (if k + released d q > 0 \<and> length taken + (k + released d q) > limit then Inl (item_too_long limit, False)
               else Inl (end_thrown (br_end rd)))"
            by (simp only: until_bytes_def view fst_conv snd_conv option.case grow)
          moreover have "until_bytes d limit (taken @ take k p) (view rd') =
              (if released d q > 0 \<and> length taken + k + released d q > limit then Inl (item_too_long limit, False)
               else Inl (end_thrown (br_end rd)))"
            using None by (simp only: until_bytes_def v fst_conv snd_conv option.case len)
          moreover have "(released d q > 0 \<and> length taken + k + released d q > limit) \<longleftrightarrow>
              (k + released d q > 0 \<and> length taken + (k + released d q) > limit)"
            using False by linarith
          ultimately show ?thesis by (simp only: )
        next
          case (Some n)
          then have at: "indexOfBytes d (p @ rest) = Some (k + n)" using found by simp
          have parts: "take (k + n) (p @ rest) = take k p @ take n q" "drop (k + n + length d) (p @ rest) = drop (n + length d) q"
            using kp unfolding q_def by (simp_all add: take_add ac_simps)
          have "until_bytes d limit taken (view rd) =
              (if length taken + (k + n) > limit then Inl (item_too_long limit, False)
               else Inr (taken @ take k p @ take n q, drop (n + length d) q, br_end rd))"
            by (simp only: until_bytes_def view fst_conv snd_conv option.case at parts)
          then show ?thesis using Some
            by (simp only: until_bytes_def v fst_conv snd_conv option.case len append_assoc add.assoc)
        qed
      qed
      finally have "viewed (read_until_from d limit (taken @ take k p) rd') = until_bytes d limit taken (view rd)" .
      moreover have "readMore (rd \<lparr> br_pending := drop k p \<rparr>) = Inr rd'" by (simp add: readMore_view chunks rd'_def)
      moreover have "read_until_from d limit taken rd =
          res_bind (readMore (rd \<lparr> br_pending := drop k p \<rparr>)) (read_until_from d limit (taken @ take k p))"
        using False read_until_None [OF None [unfolded p_def] k_def [unfolded p_def], of limit taken] unfolding p_def by (simp only: if_False)
      ultimately show ?thesis by simp
    qed
  qed
qed

text \<open>Readers with the same bytes to come give the same results and stay alike.\<close>

lemma readExact_alike: "view rd = view rd' \<Longrightarrow> viewed (readExact n rd) = viewed (readExact n rd')"
  by (simp add: readExact_view)

lemma readUntil_alike: "d \<noteq> [] \<Longrightarrow> view rd = view rd' \<Longrightarrow> viewed (readUntil d limit rd) = viewed (readUntil d limit rd')"
  by (simp add: readUntil_def read_until_view)

lemma viewed_bind:
  assumes "viewed m = viewed m'" and "\<And>x rd rd'. view rd = view rd' \<Longrightarrow> viewed (f x rd) = viewed (f' x rd')"
  shows "viewed (res_bind m (\<lambda>(x, rd). f x rd)) = viewed (res_bind m' (\<lambda>(x, rd). f' x rd))"
  using assms by (cases m; cases m') (auto simp: viewed_def)

lemma viewed_eqE:
  assumes "viewed m = viewed m'"
  obtains e where "m = Inl e" "m' = Inl e" | x s s' where "m = Inr (x, s)" "m' = Inr (x, s')" "view s = view s'"
  using assms by (cases m; cases m') (auto simp: viewed_def)

lemma readExact_shorter: "readExact n rd = Inr (x, rd') \<Longrightarrow> length (fst (view rd')) + n = length (fst (view rd)) \<and> length x = n"
  using readExact_view [of n rd] by (auto simp: viewed_def exact_bytes_def split: if_splits)

lemma readUntil_shorter: "d \<noteq> [] \<Longrightarrow> readUntil d limit rd = Inr (x, rd') \<Longrightarrow> length (fst (view rd')) \<le> length (fst (view rd))"
  using read_until_view [of d limit "[]" rd] by (auto simp: readUntil_def viewed_def until_bytes_def split: option.splits if_splits)

section \<open>Delimiter lines\<close>

datatype after_boundary = Boundary_Close | Boundary_Part

definition boundary_error :: "nat option \<Rightarrow> string" where
  "boundary_error index =
     ''invalid '' @ (case index of None \<Rightarrow> ''initial multipart boundary'' | Some i \<Rightarrow> ''multipart boundary after item '' @ decimal i)"

function skip_padding :: "string \<Rightarrow> byte_reader \<Rightarrow> (part_thrown, string \<times> byte_reader) res" where
  "skip_padding b rd =
     (if b = '' '' \<or> b = [CHR 0x09] then res_bind (readExact 1 rd) (\<lambda>(c, rd'). skip_padding c rd') else Inr (b, rd))"
  by pat_completeness auto
termination
  by (relation "measure (\<lambda>(_, rd). length (fst (view rd)))") (auto dest!: readExact_shorter)

declare skip_padding.simps [simp del]

definition readBoundaryEnding :: "byte_reader \<Rightarrow> nat option \<Rightarrow> (part_thrown, after_boundary \<times> byte_reader) res" where
  "readBoundaryEnding rd index =
     res_bind (readExact 1 rd) (\<lambda>(b, rd).
       if b = ''-'' then
         res_bind (readExact 1 rd) (\<lambda>(c, rd).
           if c = ''-'' then Inr (Boundary_Close, rd) else Inl (boundary_error index, False))
       else
         res_bind (skip_padding b rd) (\<lambda>(b, rd).
           if b = [CHR 0x0D] then
             res_bind (readExact 1 rd) (\<lambda>(c, rd).
               if c = [CHR 0x0A] then Inr (Boundary_Part, rd) else Inl (boundary_error index, False))
           else Inl (boundary_error index, False)))"

lemma skip_padding_alike: "view rd = view rd' \<Longrightarrow> viewed (skip_padding b rd) = viewed (skip_padding b rd')"
proof (induction "length (fst (view rd))" arbitrary: b rd rd' rule: less_induct)
  case less
  show ?case
  proof (cases "b = '' '' \<or> b = [CHR 0x09]")
    case True
    have "viewed (skip_padding c s) = viewed (skip_padding c s')"
      if "readExact 1 rd = Inr (c, s)" "view s = view s'" for c s s'
      using less.hyps [of s s' c] that readExact_shorter [OF that(1)] by simp
    moreover have "skip_padding b rd = res_bind (readExact 1 rd) (\<lambda>(c, rd'). skip_padding c rd')"
      "skip_padding b rd' = res_bind (readExact 1 rd') (\<lambda>(c, rd'). skip_padding c rd')"
      using True by (subst skip_padding.simps, simp)+
    ultimately show ?thesis
    proof (cases rule: viewed_eqE [OF readExact_alike [OF less.prems, of 1]])
      case (1 e)
      with \<open>skip_padding b rd = _\<close> \<open>skip_padding b rd' = _\<close> show ?thesis by (simp only: res_bind.simps)
    next
      case (2 x s s')
      with \<open>skip_padding b rd = _\<close> \<open>skip_padding b rd' = _\<close>
        \<open>\<And>c s s'. readExact 1 rd = Inr (c, s) \<Longrightarrow> view s = view s' \<Longrightarrow> viewed (skip_padding c s) = viewed (skip_padding c s')\<close>
      show ?thesis by (simp only: res_bind.simps prod.case)
    qed
  qed (use less.prems in \<open>simp add: skip_padding.simps viewed_def\<close>)
qed

lemma readBoundaryEnding_alike:
  assumes "view rd = view rd'"
  shows "viewed (readBoundaryEnding rd index) = viewed (readBoundaryEnding rd' index)"
proof -
  have close: "viewed (if c = t then Inr (r, s) else Inl e) = viewed (if c = t then Inr (r, s') else Inl e)"
    if "view s = view s'" for c t :: string and r :: after_boundary and s s' e
    using that by (simp add: viewed_def)
  show ?thesis
    unfolding readBoundaryEnding_def
  proof (rule viewed_bind [OF readExact_alike [OF assms]], goal_cases)
    case (1 b s s')
    show ?case
    proof (cases "b = ''-''")
      case True
      then show ?thesis by (simp only: simp_thms if_True) (rule viewed_bind [OF readExact_alike [OF 1]], rule close)
    next
      case False
      have "viewed (res_bind (skip_padding b s) (\<lambda>(b, rd).
           if b = [CHR 0x0D] then
             res_bind (readExact 1 rd) (\<lambda>(c, rd).
               if c = [CHR 0x0A] then Inr (Boundary_Part, rd) else Inl (boundary_error index, False))
           else Inl (boundary_error index, False))) =
         viewed (res_bind (skip_padding b s') (\<lambda>(b, rd).
           if b = [CHR 0x0D] then
             res_bind (readExact 1 rd) (\<lambda>(c, rd).
               if c = [CHR 0x0A] then Inr (Boundary_Part, rd) else Inl (boundary_error index, False))
           else Inl (boundary_error index, False)))"
      proof (rule viewed_bind [OF skip_padding_alike [OF 1]], goal_cases)
        case (1 x u u')
        show ?case
        proof (cases "x = [CHR 0x0D]")
          case True
          then show ?thesis by (simp only: simp_thms if_True) (rule viewed_bind [OF readExact_alike [OF 1]], rule close)
        qed (simp add: viewed_def)
      qed
      then show ?thesis using False by simp
    qed
  qed
qed

lemma skip_padding_shorter: "skip_padding b rd = Inr (c, rd') \<Longrightarrow> length (fst (view rd')) \<le> length (fst (view rd))"
proof (induction "length (fst (view rd))" arbitrary: b rd rule: less_induct)
  case less
  show ?case
  proof (cases "b = '' '' \<or> b = [CHR 0x09]")
    case True
    then have "skip_padding b rd = res_bind (readExact 1 rd) (\<lambda>(c, rd'). skip_padding c rd')" by (subst skip_padding.simps) simp
    from trans [OF this [symmetric] less.prems]
    obtain d s where s: "readExact 1 rd = Inr (d, s)" "skip_padding d s = Inr (c, rd')"
      unfolding res_bind_Inr_iff by auto
    then show ?thesis using less.hyps [of s d] readExact_shorter [OF s(1)] by simp
  qed (use less.prems in \<open>simp add: skip_padding.simps\<close>)
qed

lemma readBoundaryEnding_shorter:
  assumes "readBoundaryEnding rd index = Inr (b, rd')"
  shows "length (fst (view rd')) < length (fst (view rd))"
proof -
  obtain c s where s: "readExact 1 rd = Inr (c, s)"
    and rest: "(if c = ''-'' then
         res_bind (readExact 1 s) (\<lambda>(c, rd).
           if c = ''-'' then Inr (Boundary_Close, rd) else Inl (boundary_error index, False))
       else
         res_bind (skip_padding c s) (\<lambda>(b, rd).
           if b = [CHR 0x0D] then
             res_bind (readExact 1 rd) (\<lambda>(c, rd).
               if c = [CHR 0x0A] then Inr (Boundary_Part, rd) else Inl (boundary_error index, False))
           else Inl (boundary_error index, False))) = Inr (b, rd')"
    using assms unfolding readBoundaryEnding_def by (auto simp: res_bind_Inr_iff)
  have "length (fst (view rd')) \<le> length (fst (view s))"
  proof (cases "c = ''-''")
    case True
    then obtain d where "readExact 1 s = Inr (d, rd')" using rest by (auto simp: res_bind_Inr_iff split: if_splits)
    then show ?thesis using readExact_shorter by fastforce
  next
    case False
    then obtain x u d where "skip_padding c s = Inr (x, u)" "readExact 1 u = Inr (d, rd')"
      using rest by (auto simp: res_bind_Inr_iff split: if_splits)
    then show ?thesis using skip_padding_shorter readExact_shorter by fastforce
  qed
  then show ?thesis using readExact_shorter [OF s] by simp
qed

end
