(* ===== verification/Multipart_Response.thy ===== *)
theory Multipart_Response
  imports Part_Reader
begin

text \<open>
  Positional multipart responses of \<open>openapi32-sequential-response.ts\<close>: part headers, transfer encodings,
  the decoding of one part, the loop over the parts, and the choice of a framing by media type.
\<close>

section \<open>Texts of octets\<close>

text \<open>The label \<open>latin1\<close> of the Encoding Standard names windows-1252: the code units of 0x80 to 0x9f.\<close>

definition windows1252_row :: "nat list" where
  "windows1252_row =
     [0x20AC, 0x81, 0x201A, 0x0192, 0x201E, 0x2026, 0x2020, 0x2021, 0x02C6, 0x2030, 0x0160, 0x2039, 0x0152, 0x8D, 0x017D, 0x8F,
      0x90, 0x2018, 0x2019, 0x201C, 0x201D, 0x2022, 0x2013, 0x2014, 0x02DC, 0x2122, 0x0161, 0x203A, 0x0153, 0x9D, 0x017E, 0x0178]"

definition windows1252_unit :: "char \<Rightarrow> nat" where
  "windows1252_unit c = (if 0x80 \<le> byte c \<and> byte c < 0xA0 then windows1252_row ! (byte c - 0x80) else byte c)"

definition unit_text :: "nat \<Rightarrow> string" where
  "unit_text n =
     (if n < 0x80 then [char_of n]
      else if n < 0x800 then [char_of (0xC0 + n div 64), char_of (0x80 + n mod 64)]
      else [char_of (0xE0 + n div 4096), char_of (0x80 + n div 64 mod 64), char_of (0x80 + n mod 64)])"

definition asciiText :: "string \<Rightarrow> string" where
  "asciiText bytes = concat (map (unit_text \<circ> windows1252_unit) bytes)"

section \<open>Part headers\<close>

record part_env =
  pe_seq :: seq_env
  pe_media :: media32_env
  pe_header_error :: "string \<Rightarrow> string \<Rightarrow> string"

definition header_value_ok :: "string \<Rightarrow> bool" where
  "header_value_ok v \<longleftrightarrow>
     list_all (\<lambda>p. p \<le> 0xFF) (code_points v) \<and> list_all (\<lambda>c. c \<notin> set [CHR 0x00, CHR 0x0A, CHR 0x0D]) v"

definition part_header :: "part_env \<Rightarrow> string \<Rightarrow> (string, string \<times> string) res" where
  "part_header env line =
     (case cut (CHR '':'') line of
        None \<Rightarrow> fails ''invalid multipart part header''
      | Some (name, v) \<Rightarrow>
          if name = [] then fails ''invalid multipart part header''
          else if is_http_token (js_trim name) \<and> header_value_ok (js_trim v)
          then Inr (ascii_lower (js_trim name), js_trim v)
          else fails (pe_header_error env (js_trim name) (js_trim v)))"

definition parsePartHeaders :: "part_env \<Rightarrow> string \<Rightarrow> (string, (string \<times> string) list) res" where
  "parsePartHeaders env s = map_res (part_header env) (split_str part_crlf s)"

definition header_get :: "(string \<times> string) list \<Rightarrow> string \<Rightarrow> string option" where
  "header_get hs k = (case filter (\<lambda>h. fst h = k) hs of [] \<Rightarrow> None | vs \<Rightarrow> Some (join '', '' (map snd vs)))"

section \<open>Transfer encodings\<close>

text \<open>\<open>atob\<close> on padded text of the shape the code tests for: the pad bits are not looked at.\<close>

fun atob_forgiving :: "string \<Rightarrow> string" where
  "atob_forgiving (w # x # y # z # s) =
     (let p = the (sextet_value w); q = the (sextet_value x) in
      if y = CHR ''='' then [char_of (p * 4 + q div 16)]
      else
        let r = the (sextet_value y) in
        if z = CHR ''='' then [char_of (p * 4 + q div 16), char_of (q mod 16 * 16 + r div 4)]
        else
          char_of (p * 4 + q div 16) # char_of (q mod 16 * 16 + r div 4)
            # char_of (r mod 4 * 64 + the (sextet_value z)) # atob_forgiving s)"
| "atob_forgiving _ = []"

text \<open>Soft line breaks are removed first, then the escapes are read.\<close>

fun drop_soft_breaks :: "string \<Rightarrow> string" where
  "drop_soft_breaks [] = []"
| "drop_soft_breaks (c # s) =
     (if c = CHR ''='' \<and> prefix [CHR 0x0D, CHR 0x0A] s then drop_soft_breaks (drop 2 s)
      else if c = CHR ''='' \<and> prefix [CHR 0x0A] s then drop_soft_breaks (drop 1 s)
      else c # drop_soft_breaks s)"

text \<open>An unescaped octet is stored as the low byte of its code unit.\<close>

fun quoted_octets :: "string \<Rightarrow> string option" where
  "quoted_octets [] = Some []"
| "quoted_octets (c # s) =
     (if c \<noteq> CHR ''='' then map_option ((#) (char_of (windows1252_unit c mod 256))) (quoted_octets s)
      else
        (case s of
           a # b # t \<Rightarrow>
             (case (hex_value a, hex_value b) of
                (Some p, Some q) \<Rightarrow> map_option ((#) (char_of (16 * p + q))) (quoted_octets t)
              | _ \<Rightarrow> None)
         | _ \<Rightarrow> None))"

definition decodeQuotedPrintable :: "string \<Rightarrow> (string, string) res" where
  "decodeQuotedPrintable body =
     (case quoted_octets (drop_soft_breaks body) of
        None \<Rightarrow> fails ''invalid quoted-printable Content-Transfer-Encoding''
      | Some bytes \<Rightarrow> Inr bytes)"

definition decodeTransferEncoding :: "string \<Rightarrow> string \<Rightarrow> (string, string) res" where
  "decodeTransferEncoding body raw =
     (let encoding = ascii_lower (js_trim raw) in
      if encoding \<in> set [[], ''binary'', ''7bit'', ''8bit''] then Inr body
      else if encoding = ''base64'' then
        (let s = filter (\<lambda>c. c \<notin> set [CHR 0x09, CHR 0x0A, CHR 0x0D, CHR '' '']) body in
         if base64_shape s then Inr (atob_forgiving s) else fails ''invalid base64 Content-Transfer-Encoding'')
      else if encoding = ''quoted-printable'' then decodeQuotedPrintable body
      else fails (''unsupported Content-Transfer-Encoding '' @ json_quote raw))"

section \<open>One part\<close>

definition positionalItemSchema :: "js_members \<Rightarrow> nat \<Rightarrow> jsval" where
  "positionalItemSchema media index =
     (if has_member media ''itemSchema'' then member_of media ''itemSchema''
      else
        (case as_object (member_of media ''schema'') of
           None \<Rightarrow> JUndefined
         | Some ms \<Rightarrow>
             (case as_array (member_of ms ''prefixItems'') of
                Some ps \<Rightarrow> if index < length ps then ps ! index else member_of ms ''items''
              | None \<Rightarrow> member_of ms ''items'')))"

definition response_part_type :: "jsval \<Rightarrow> string" where
  "response_part_type schema =
     (let d = resolveDeclaration schema False; (explicit, clash) = keywordString d ''contentMediaType'' in
      if \<not> clash \<and> explicit \<noteq> [] then explicit
      else if admitsStringAsSoleNonNullType d then ''text/plain; charset=utf-8''
      else if declaresOnly d [''object'', ''array'', ''boolean'', ''number'', ''integer'', ''null''] then ''application/json''
      else ''application/octet-stream'')"

definition decodePartText :: "part_env \<Rightarrow> string \<Rightarrow> string \<Rightarrow> bool \<Rightarrow> (string, string) res" where
  "decodePartText env body charset preserveBOM =
     (let label = ascii_lower charset; wf = sq_well_formed (pe_seq env) in
      if label \<in> set [''utf-8'', ''utf8''] then
        (case (if preserveBOM then (if wf body then Some body else None) else decode_fatal wf body) of
           None \<Rightarrow> fails (sq_malformed (pe_seq env))
         | Some s \<Rightarrow> Inr s)
      else if label \<in> set [''us-ascii'', ''ascii''] then
        (if list_ex (\<lambda>c. byte c \<ge> 0x80) body then fails ''part is not valid US-ASCII'' else Inr body)
      else if label \<in> set [''iso-8859-1'', ''iso8859-1'', ''latin-1'', ''latin1''] then Inr (bytesAsLatin1 body)
      else fails (''unsupported part charset '' @ json_quote charset))"

text \<open>The message of a media type that does not parse.\<close>

definition media_error_text :: "string \<Rightarrow> media_error \<Rightarrow> string" where
  "media_error_text raw e =
     (case e of
        NotConcrete \<Rightarrow> ''media type '' @ json_quote raw @ '' is not concrete''
      | NotARange \<Rightarrow> ''media type '' @ json_quote raw @ '' is not a supported media range''
      | UnterminatedQuote \<Rightarrow> ''unterminated quoted media-type parameter in '' @ json_quote raw
      | InvalidParameter \<Rightarrow> ''invalid media-type parameter in '' @ json_quote raw
      | InvalidWhitespace \<Rightarrow> ''invalid whitespace around media-type parameter '' @ [CHR 0x27, CHR ''='', CHR 0x27] @ '' in '' @ json_quote raw
      | InvalidParameterName \<Rightarrow> ''invalid media-type parameter name in '' @ json_quote raw
      | DuplicateParameter name \<Rightarrow> ''duplicate media-type parameter '' @ json_quote name
      | InvalidUnquotedValue \<Rightarrow> ''invalid unquoted media-type parameter value''
      | InvalidQuotedParameter \<Rightarrow> ''invalid quoted parameter''
      | InvalidQuotedPair \<Rightarrow> ''invalid quoted-pair in media-type parameter''
      | InvalidQuotedString \<Rightarrow> ''invalid quoted-string in media-type parameter'')"

definition part_json :: "part_env \<Rightarrow> string \<Rightarrow> string \<Rightarrow> (string, jsval) res" where
  "part_json env contentType body =
     (let subject = ''part declares '' @ json_quote contentType in
      case decode_fatal (sq_well_formed (pe_seq env)) body of
        None \<Rightarrow> fails (subject @ '' but is not valid JSON: '' @ sq_malformed (pe_seq env))
      | Some s \<Rightarrow>
          (case sq_parse (pe_seq env) s of
             Inl (JSON_Invalid m) \<Rightarrow> fails (subject @ '' but is not valid JSON: '' @ m)
           | Inl JSON_Surrogate \<Rightarrow> fails (subject @ '' but carries an unpaired surrogate'')
           | Inr v \<Rightarrow> Inr v))"

definition decodeSequentialPart :: "part_env \<Rightarrow> string \<Rightarrow> string \<Rightarrow> jsval \<Rightarrow> (string, jsval) res" where
  "decodeSequentialPart env contentType body schema =
     res_bind (res_err (media_error_text contentType) (parseMediaType contentType True)) (\<lambda>parsed.
       let base = pm_base parsed; kind = openAPI32NonJSONTextKind schema in
       if isJSONMediaType base then part_json env contentType body
       else if typeless (resolveDeclaration schema False) then Inr (JStr (btoa body))
       else if isCharacterDataMedia base \<and> kind \<noteq> None \<and> (base \<noteq> ''text/json'' \<or> kind = Some Text_String) then
         res_bind (decodePartText env body (case map_of (pm_params parsed) ''charset'' of None \<Rightarrow> ''utf-8'' | Some c \<Rightarrow> c)
                     (kind \<noteq> Some Text_String))
           (parseOpenAPI32NonJSONText (pe_media env) schema)
       else fails (''part media '' @ json_quote contentType @ '' and its declaration select no incorporated carriage lane''))"

section \<open>The stream of parts\<close>

definition unaborted :: "(string, 'a) res \<Rightarrow> (part_thrown, 'a) res" where
  "unaborted = res_err (\<lambda>m. (m, False))"

definition part_limit :: nat where "part_limit = 64 * 1024"

text \<open>What the headers and octets of a part are read as.\<close>

definition part_content ::
  "part_env \<Rightarrow> js_members \<Rightarrow> nat \<Rightarrow> (string \<times> string) list \<Rightarrow> string \<Rightarrow> (string, jsval) res" where
  "part_content env media index hs raw =
     res_bind (decodeTransferEncoding raw (case header_get hs ''content-transfer-encoding'' of None \<Rightarrow> [] | Some v \<Rightarrow> v)) (\<lambda>body.
     if length body > sq_limit (pe_seq env) then fails (item_too_long (sq_limit (pe_seq env)))
     else
       let schema = positionalItemSchema media index in
       decodeSequentialPart env
         (case header_get hs ''content-type'' of None \<Rightarrow> response_part_type schema | Some t \<Rightarrow> t) body schema)"

definition read_part ::
  "part_env \<Rightarrow> js_members \<Rightarrow> string \<Rightarrow> nat \<Rightarrow> byte_reader \<Rightarrow> (part_thrown, jsval \<times> byte_reader) res" where
  "read_part env media boundary index rd =
     res_bind (readUntil (part_crlf @ part_crlf) part_limit rd) (\<lambda>(header_bytes, rd).
     res_bind (unaborted (parsePartHeaders env (asciiText header_bytes))) (\<lambda>hs.
     res_bind (readUntil (part_crlf @ ''--'' @ boundary) (sq_limit (pe_seq env)) rd) (\<lambda>(raw, rd).
     res_map (\<lambda>v. (v, rd)) (unaborted (part_content env media index hs raw)))))"

definition thrown_end :: "part_thrown \<Rightarrow> seq_end" where
  "thrown_end t = broken_end (''positional multipart response: '' @ fst t) (snd t)"

lemma read_part_shorter:
  assumes "read_part env media boundary index rd = Inr (v, rd')"
  shows "length (fst (view rd')) \<le> length (fst (view rd))"
proof -
  have d: "part_crlf @ part_crlf \<noteq> []" "part_crlf @ ''--'' @ boundary \<noteq> []" by (simp_all add: part_crlf_def)
  obtain hb s where s: "readUntil (part_crlf @ part_crlf) part_limit rd = Inr (hb, s)"
    and rest: "res_bind (unaborted (parsePartHeaders env (asciiText hb))) (\<lambda>hs.
     res_bind (readUntil (part_crlf @ ''--'' @ boundary) (sq_limit (pe_seq env)) s) (\<lambda>(raw, rd).
     res_map (\<lambda>v. (v, rd)) (unaborted (part_content env media index hs raw)))) = Inr (v, rd')"
    using assms unfolding read_part_def res_bind_Inr_iff [of "readUntil _ _ _"] by auto
  obtain raw u where "readUntil (part_crlf @ ''--'' @ boundary) (sq_limit (pe_seq env)) s = Inr (raw, u)" "rd' = u"
    using rest by (auto simp: res_bind_Inr_iff res_map_Inr_iff)
  then show ?thesis using readUntil_shorter [OF d(1) s] readUntil_shorter [OF d(2)] by fastforce
qed

function part_loop :: "part_env \<Rightarrow> js_members \<Rightarrow> string \<Rightarrow> byte_reader \<Rightarrow> seq_state \<Rightarrow> seq_stop" where
  "part_loop env media boundary rd st =
     (case read_part env media boundary (ss_index st) rd of
        Inl t \<Rightarrow> stopped (thrown_end t) st
      | Inr (v, rd) \<Rightarrow>
          (case emitSequentialValue (pe_seq env) v st of
             Inl s \<Rightarrow> s
           | Inr st \<Rightarrow>
               (case readBoundaryEnding rd (Some (ss_index st)) of
                  Inl t \<Rightarrow> stopped (thrown_end t) st
                | Inr (Boundary_Close, _) \<Rightarrow> stopped Seq_Closed st
                | Inr (Boundary_Part, rd) \<Rightarrow> part_loop env media boundary rd (next_item [] st))))"
  by pat_completeness auto
termination
  by (relation "measure (\<lambda>(_, _, _, rd, _). length (fst (view rd)))")
    (auto dest!: read_part_shorter readBoundaryEnding_shorter)

declare part_loop.simps [simp del]

definition read_multipart :: "part_env \<Rightarrow> js_members \<Rightarrow> string \<Rightarrow> byte_reader \<Rightarrow> seq_stop" where
  "read_multipart env media boundary rd =
     (case res_bind (readUntil (''--'' @ boundary) part_limit rd) (\<lambda>(_, rd). readBoundaryEnding rd None) of
        Inl t \<Rightarrow> stopped (thrown_end t) seq_start
      | Inr (Boundary_Close, _) \<Rightarrow> stopped Seq_Closed seq_start
      | Inr (Boundary_Part, rd) \<Rightarrow> part_loop env media boundary rd seq_start)"

definition response_boundary :: "string option \<Rightarrow> string" where
  "response_boundary contentType =
     (case parseMediaType (case contentType of None \<Rightarrow> [] | Some t \<Rightarrow> t) True of
        Inl _ \<Rightarrow> []
      | Inr parsed \<Rightarrow> (case map_of (pm_params parsed) ''boundary'' of None \<Rightarrow> [] | Some b \<Rightarrow> b))"

definition streamMultipart ::
  "part_env \<Rightarrow> js_members \<Rightarrow> string option \<Rightarrow> (string list \<times> stream_end) option \<Rightarrow> seq_stop" where
  "streamMultipart env media contentType body =
     (let boundary = response_boundary contentType in
      if boundary = [] then stopped (Seq_Failed ''positional multipart response has no valid boundary'') seq_start
      else
        (case body of
           None \<Rightarrow> stopped Seq_Closed seq_start
         | Some (chunks, e) \<Rightarrow>
             read_multipart env media boundary \<lparr> br_pending = [], br_chunks = chunks, br_end = e \<rparr>))"

section \<open>The choice of a framing\<close>

datatype response_framing = Framing_Lines | Framing_Sequence | Framing_SSE | Framing_Multipart

definition classifyOpenAPI32SequentialResponse :: "string \<Rightarrow> js_members \<Rightarrow> (string, response_framing option) res" where
  "classifyOpenAPI32SequentialResponse mediaType media =
     res_bind (res_err (media_error_text mediaType) (parseMediaType mediaType True)) (\<lambda>parsed.
       let base = pm_base parsed in
       if base = ''application/jsonl'' \<or> base = ''application/x-ndjson'' then Inr (Some Framing_Lines)
       else if base = ''application/json-seq'' \<or> ends_with ''+json-seq'' base then Inr (Some Framing_Sequence)
       else if base = ''text/event-stream'' then Inr (Some Framing_SSE)
       else if starts_with ''multipart/'' base \<and> openAPI32PositionalMultipart (Some media) then Inr (Some Framing_Multipart)
       else if has_member media ''itemSchema''
       then fails (''response media '' @ json_quote base @ '' declares itemSchema but has no incorporated sequential framing'')
       else Inr None)"

definition streamOpenAPI32SequentialResponse ::
  "(unit \<Rightarrow> seq_stop) \<Rightarrow> part_env \<Rightarrow> response_framing \<Rightarrow> js_members \<Rightarrow> string option \<Rightarrow>
     (string list \<times> stream_end) option \<Rightarrow> seq_stop" where
  "streamOpenAPI32SequentialResponse sse env kind media contentType body =
     (case kind of
        Framing_SSE \<Rightarrow> sse ()
      | Framing_Lines \<Rightarrow> streamJSONLines (pe_seq env) body
      | Framing_Sequence \<Rightarrow> streamJSONSequence (pe_seq env) body
      | Framing_Multipart \<Rightarrow> streamMultipart env media contentType body)"

section \<open>Chunk boundaries\<close>

lemma read_part_alike:
  assumes "view rd = view rd'"
  shows "viewed (read_part env media boundary index rd) = viewed (read_part env media boundary index rd')"
proof -
  have d: "part_crlf @ part_crlf \<noteq> []" "part_crlf @ ''--'' @ boundary \<noteq> []" by (simp_all add: part_crlf_def)
  show ?thesis
    unfolding read_part_def
  proof (rule viewed_bind [OF readUntil_alike [OF d(1) assms]], goal_cases)
    case (1 hb s s')
    show ?case
    proof (cases "unaborted (parsePartHeaders env (asciiText hb))")
      case (Inr hs)
      have "viewed (res_bind (readUntil (part_crlf @ ''--'' @ boundary) (sq_limit (pe_seq env)) s) (\<lambda>(raw, rd).
          res_map (\<lambda>v. (v, rd)) (unaborted (part_content env media index hs raw)))) =
        viewed (res_bind (readUntil (part_crlf @ ''--'' @ boundary) (sq_limit (pe_seq env)) s') (\<lambda>(raw, rd).
          res_map (\<lambda>v. (v, rd)) (unaborted (part_content env media index hs raw))))"
      proof (rule viewed_bind [OF readUntil_alike [OF d(2) 1]], goal_cases)
        case (1 raw u u')
        then show ?case by (cases "unaborted (part_content env media index hs raw)") (simp_all add: viewed_def)
      qed
      then show ?thesis using Inr by simp
    qed (simp add: viewed_def)
  qed
qed

lemma part_loop_alike: "view rd = view rd' \<Longrightarrow> part_loop env media boundary rd st = part_loop env media boundary rd' st"
proof (induction "length (fst (view rd))" arbitrary: rd rd' st rule: less_induct)
  case less
  show ?case
  proof (cases rule: viewed_eqE [OF read_part_alike [OF less.prems, of env media boundary "ss_index st"]])
    case (1 e)
    then show ?thesis by (simp add: part_loop.simps)
  next
    case (2 v s s')
    show ?thesis
    proof (cases "emitSequentialValue (pe_seq env) v st")
      case (Inl stop)
      then show ?thesis using 2 by (simp add: part_loop.simps)
    next
      case (Inr st')
      show ?thesis
      proof (cases rule: viewed_eqE [OF readBoundaryEnding_alike [OF 2(3), of "Some (ss_index st')"]])
        case (1 e)
        then show ?thesis using 2 Inr by (simp add: part_loop.simps)
      next
        case (2 b t t')
        have "part_loop env media boundary t (next_item [] st') = part_loop env media boundary t' (next_item [] st')"
        proof (rule less.hyps [OF _ 2(3)])
          show "length (fst (view t)) < length (fst (view rd))"
            using readBoundaryEnding_shorter [OF 2(1)] read_part_shorter [OF \<open>read_part env media boundary (ss_index st) rd = Inr (v, s)\<close>] by simp
        qed
        then show ?thesis
          using 2 Inr \<open>read_part env media boundary (ss_index st) rd = Inr (v, s)\<close> \<open>read_part env media boundary (ss_index st) rd' = Inr (v, s')\<close>
          by (simp add: part_loop.simps [of env media boundary rd] part_loop.simps [of env media boundary rd'] split: after_boundary.split)
      qed
    qed
  qed
qed

text \<open>
  C6. A positional multipart response is read the same however the network cuts it into chunks: the
  delimiter search that keeps back a tail of the buffer finds every delimiter that spans chunks, and the
  limits are met or missed by the bytes alone.
\<close>

theorem multipart_reading_ignores_chunk_boundaries:
  "streamMultipart env media contentType (Some (chunks, e)) = streamMultipart env media contentType (Some ([concat chunks], e))"
proof -
  have "read_multipart env media boundary rd = read_multipart env media boundary rd'" if "view rd = view rd'" for boundary rd rd'
  proof -
    have "viewed (res_bind (readUntil (''--'' @ boundary) part_limit rd) (\<lambda>(_, rd). readBoundaryEnding rd None)) =
        viewed (res_bind (readUntil (''--'' @ boundary) part_limit rd') (\<lambda>(_, rd). readBoundaryEnding rd None))"
    proof (rule viewed_bind [OF readUntil_alike [OF _ that]])
      show "''--'' @ boundary \<noteq> []" by simp
    qed (rule readBoundaryEnding_alike)
    then show ?thesis
    proof (cases rule: viewed_eqE)
      case (2 b t t')
      then show ?thesis using part_loop_alike [OF 2(3)] by (simp add: read_multipart_def split: after_boundary.split)
    qed (simp add: read_multipart_def)
  qed
  then show ?thesis by (simp add: streamMultipart_def Let_def view_def)
qed

section \<open>Where the reader departs from the formats\<close>

definition crlf_lines :: "string list \<Rightarrow> string" where
  "crlf_lines ls = concat (map (\<lambda>l. l @ part_crlf) ls)"

text \<open>
  RFC 2046 permits a part without header fields: after the line end of its delimiter comes the empty line
  that ends the headers.  The reader looks for a second line end there and finds it in a later part, or
  runs into the end of the body.
\<close>

lemma headerless_part_lost:
  assumes "view rd = (crlf_lines [[], ''hi'', ''--b--''], Stream_Done)"
  shows "read_part env media ''b'' index rd = Inl (''unexpected end of multipart response'', False)"
proof -
  have "indexOfBytes (part_crlf @ part_crlf) (crlf_lines [[], ''hi'', ''--b--'']) = None"
    by (simp add: crlf_lines_def part_crlf_def)
  then have "viewed (readUntil (part_crlf @ part_crlf) part_limit rd) = Inl (''unexpected end of multipart response'', False)"
    by (simp add: readUntil_def read_until_view assms until_bytes_def end_thrown_def part_crlf_def crlf_lines_def released_def part_limit_def)
  then have "readUntil (part_crlf @ part_crlf) part_limit rd = Inl (''unexpected end of multipart response'', False)"
    by (cases "readUntil (part_crlf @ part_crlf) part_limit rd") (simp_all add: viewed_def)
  then show ?thesis by (simp add: read_part_def)
qed

text \<open>An octet of the windows-1252 range a quoted-printable body carries as it is comes out as another.\<close>

lemma quoted_printable_octet_changed: "decodeQuotedPrintable [CHR 0x80] = Inr [CHR 0xAC]"
  by code_simp

end
