(* ===== verification/Response_Mechanics.thy ===== *)
theory Response_Mechanics
  imports Media_Selection Multipart_Response
begin

text \<open>
  \<open>response-mechanics.ts\<close> and \<open>response-body.ts\<close>: content codings of requests and responses, the required
  and exact response headers, the bounded reading of a body, the declaration that governs it and the lane
  it must have.  Header lists hold lower-case names with their combined values; a coder is a function
  that may fail; a delivery limit is whole.  Errors keep their code, and their text where it is kept.
\<close>

datatype wire_error =
    Wire_Refused string
  | Wire_Protocol
  | Wire_Response_Error
  | Wire_Other

type_synonym http_headers = "(string \<times> string) list"
type_synonym coder = "string \<Rightarrow> string option"
type_synonym coders = "(string \<times> coder) list"

definition field_text :: "http_headers \<Rightarrow> string \<Rightarrow> string" where
  "field_text hs n = (case map_of hs n of None \<Rightarrow> [] | Some v \<Rightarrow> v)"

definition delete_header :: "string \<Rightarrow> http_headers \<Rightarrow> http_headers" where
  "delete_header n hs = filter (\<lambda>h. fst h \<noteq> n) hs"

definition set_header :: "string \<Rightarrow> string \<Rightarrow> http_headers \<Rightarrow> http_headers" where
  "set_header n v hs = (n, v) # delete_header n hs"

section \<open>Reading a body\<close>

datatype read_error = Over_Limit | Read_Failed

fun read_chunks :: "nat \<Rightarrow> string \<Rightarrow> string list \<Rightarrow> stream_end \<Rightarrow> (read_error, string) res" where
  "read_chunks limit taken [] e = (case e of Stream_Done \<Rightarrow> Inr taken | Stream_Broken _ _ \<Rightarrow> Inl Read_Failed)"
| "read_chunks limit taken (c # cs) e =
     (if length taken + length c > limit then Inl Over_Limit else read_chunks limit (taken @ c) cs e)"

definition readResponseBytes :: "nat \<Rightarrow> (string list \<times> stream_end) option \<Rightarrow> (read_error, string) res" where
  "readResponseBytes limit body = (case body of None \<Rightarrow> Inr [] | Some (chunks, e) \<Rightarrow> read_chunks limit [] chunks e)"

definition default_delivery_limit :: nat where "default_delivery_limit = 10 * 1024 * 1024"

definition resolveOpenAPIDeliveryUnitLimit :: "nat option \<Rightarrow> nat" where
  "resolveOpenAPIDeliveryUnitLimit v = (case v of Some n \<Rightarrow> if n > 0 then n else default_delivery_limit | None \<Rightarrow> default_delivery_limit)"

section \<open>Content codings\<close>

text \<open>The capabilities by normalized token, up to the first that is no function or collides.\<close>

fun normalize_codings :: "string \<Rightarrow> (string \<times> 'c option) list \<Rightarrow> (string \<times> 'c) list \<Rightarrow> (string \<times> 'c) list \<times> string option" where
  "normalize_codings direction [] codecs = (codecs, None)"
| "normalize_codings direction ((authored, codec) # rest) codecs =
     (let token = ascii_lower (js_trim authored) in
      case codec of
        None \<Rightarrow> (codecs, Some (''invalid '' @ direction @ '' content-coding capability '' @ json_quote authored))
      | Some c \<Rightarrow>
          if token \<in> fst ` set codecs
          then (codecs, Some (direction @ '' content-coding capabilities collide at '' @ json_quote token))
          else normalize_codings direction rest (codecs @ [(token, c)]))"

definition normalizeOpenAPIContentCodings :: "string \<Rightarrow> (string \<times> 'c option) list option \<Rightarrow> (string \<times> 'c) list \<times> string option" where
  "normalizeOpenAPIContentCodings direction given = normalize_codings direction (case given of None \<Rightarrow> [] | Some cs \<Rightarrow> cs) []"

definition parsedContentCodings :: "string \<Rightarrow> string list option" where
  "parsedContentCodings raw =
     (let tokens = map (\<lambda>m. ascii_lower (js_trim m)) (split_str '','' raw) in
      if list_all is_http_token tokens then Some tokens else None)"

definition encode_step :: "coders \<Rightarrow> string \<Rightarrow> string \<Rightarrow> (wire_error, string) res" where
  "encode_step codecs token bytes =
     (if token = ''identity'' then Inr bytes
      else
        (case map_of codecs token of
           None \<Rightarrow> Inl (Wire_Refused (''request content-coding '' @ json_quote token @ '' is unsupported''))
         | Some codec \<Rightarrow>
             (case codec bytes of
                None \<Rightarrow> Inl (Wire_Refused (''request content-coding '' @ json_quote token @ '' failed''))
              | Some out \<Rightarrow> Inr out)))"

definition decode_step :: "nat \<Rightarrow> coders \<Rightarrow> string \<Rightarrow> string \<Rightarrow> (wire_error, string) res" where
  "decode_step limit codecs token bytes =
     (if token = ''identity'' then Inr bytes
      else
        (case map_of codecs token of
           None \<Rightarrow> Inl Wire_Protocol
         | Some codec \<Rightarrow>
             (case codec bytes of
                None \<Rightarrow> Inl Wire_Protocol
              | Some out \<Rightarrow> if length out > limit then Inl Wire_Response_Error else Inr out)))"

section \<open>Declarations\<close>

record mechanics_model =
  rm_openapi :: "string option"
  rm_operation :: js_members
  rm_parameters :: "jsval list"
  rm_method :: string
  rm_limit :: "nat option"
  rm_charsets :: "string list"
  rm_unary :: "(string \<times> string) option"

definition model_oas30 :: "mechanics_model \<Rightarrow> bool" where
  "model_oas30 model = (case rm_openapi model of None \<Rightarrow> True | Some v \<Rightarrow> prefix ''3.0'' v)"

definition is_head :: "mechanics_model \<Rightarrow> bool" where
  "is_head model \<longleftrightarrow> ascii_lower (rm_method model) = ''head''"

definition effectiveContentEncodingParameter :: "jsval list \<Rightarrow> jsval option" where
  "effectiveContentEncodingParameter parameters =
     (case filter (\<lambda>p. get_prop p ''in'' = JStr ''header'' \<and>
              (case get_prop p ''name'' of JStr n \<Rightarrow> ascii_lower n = ''content-encoding'' | _ \<Rightarrow> False)) parameters of
        [p] \<Rightarrow> Some p
      | _ \<Rightarrow> None)"

definition schemaAdmitsHeaderValue :: "jsval \<Rightarrow> string \<Rightarrow> bool \<Rightarrow> bool" where
  "schemaAdmitsHeaderValue schema v oas30 \<longleftrightarrow>
     (let d = resolveDeclaration schema oas30 in
      \<not> d_ambiguous d \<and> (typeless d \<or> admitsStringAsSoleNonNullType d) \<and> admitsStringEnumValue d v)"

definition headerExactStringDomainAdmits :: "jsval \<Rightarrow> string \<Rightarrow> bool \<Rightarrow> bool" where
  "headerExactStringDomainAdmits schema v oas30 \<longleftrightarrow>
     (let d = resolveDeclaration schema oas30 in d_ambiguous d \<or> admitsNoInstance d \<or> admitsStringEnumValue d v)"

definition declared_headers :: "jsval \<Rightarrow> js_members" where
  "declared_headers response = (case as_object (get_prop response ''headers'') of None \<Rightarrow> [] | Some hs \<Rightarrow> hs)"

definition responseHeaders :: "jsval \<Rightarrow> string \<Rightarrow> js_members list" where
  "responseHeaders response wanted =
     concat (map (\<lambda>(name, v). case as_object v of
         Some ms \<Rightarrow> if ascii_lower name = ascii_lower wanted then [ms] else []
       | None \<Rightarrow> []) (declared_headers response))"

text \<open>\<open>Headers.has\<close> throws for a name that is no token.\<close>

definition required_header :: "http_headers \<Rightarrow> string \<times> jsval \<Rightarrow> unit \<Rightarrow> (wire_error, unit) res" where
  "required_header actual entry _ =
     (let (name, raw) = entry in
      if ascii_lower name = ''content-type'' \<or> get_prop raw ''required'' \<noteq> JBool True then Inr ()
      else if \<not> is_http_token name then Inl Wire_Other
      else check (ascii_lower name \<in> fst ` set actual) Wire_Protocol)"

definition requireGovernedResponseHeaders :: "jsval \<Rightarrow> http_headers \<Rightarrow> (wire_error, unit) res" where
  "requireGovernedResponseHeaders response actual = each_res (required_header actual) (declared_headers response) ()"

section \<open>Requests\<close>

definition governOpenAPIRequest ::
  "mechanics_model \<Rightarrow> coders \<Rightarrow> http_headers \<Rightarrow> string option \<Rightarrow> (wire_error, http_headers \<times> string option) res" where
  "governOpenAPIRequest model codecs hdrs body =
     (let raw = field_text hdrs ''content-encoding'' in
      if raw = [] then Inr (hdrs, body)
      else
        (case body of
           None \<Rightarrow> Inl (Wire_Refused ''request Content-Encoding cannot be supplied when no request representation is emitted'')
         | Some bytes \<Rightarrow>
             (case effectiveContentEncodingParameter (rm_parameters model) of
                None \<Rightarrow> Inl (Wire_Refused ''request Content-Encoding has no effective governing Header Parameter'')
              | Some governing \<Rightarrow>
                  if \<not> schemaAdmitsHeaderValue (get_prop governing ''schema'') raw (model_oas30 model)
                  then Inl (Wire_Refused ''request Content-Encoding is not admitted by its governing Header Parameter'')
                  else
                    (case parsedContentCodings raw of
                       None \<Rightarrow> Inl (Wire_Refused ''invalid Content-Encoding field value'')
                     | Some tokens \<Rightarrow>
                         res_map (\<lambda>out. (delete_header ''content-length'' hdrs, Some out))
                           (each_res (encode_step codecs) tokens bytes)))))"

section \<open>Responses\<close>

record fetch_response =
  fr_status :: nat
  fr_filtered :: bool
  fr_headers :: http_headers
  fr_body :: "(string list \<times> stream_end) option"

record governed =
  gv_headers :: http_headers
  gv_body :: "string option"
  gv_empty :: bool

definition requireReadableOpenAPIResponse :: "fetch_response \<Rightarrow> (wire_error, unit) res" where
  "requireReadableOpenAPIResponse r = check (\<not> fr_filtered r \<and> fr_status r \<noteq> 0) Wire_Response_Error"

definition responseBodyForbidden :: "nat \<Rightarrow> bool" where
  "responseBodyForbidden status \<longleftrightarrow> status = 101 \<or> status = 204 \<or> status = 205 \<or> status = 304"

definition successful_status :: "nat \<Rightarrow> bool" where
  "successful_status status \<longleftrightarrow> 200 \<le> status \<and> status < 300"

text \<open>The platform's constructor takes the statuses 200 to 599, and no bytes where none may be.\<close>

definition responseFromBytes :: "nat \<Rightarrow> http_headers \<Rightarrow> string \<Rightarrow> (wire_error, governed) res" where
  "responseFromBytes status hdrs bytes =
     (if status < 200 \<or> status > 599 \<or> responseBodyForbidden status \<and> bytes \<noteq> [] then Inl Wire_Other
      else
        Inr \<lparr> gv_headers = delete_header ''content-length'' hdrs,
              gv_body = (if responseBodyForbidden status then None else Some bytes), gv_empty = (bytes = []) \<rparr>)"

definition validateResponseMediaLane :: "jsval \<Rightarrow> string \<Rightarrow> bool \<Rightarrow> string list \<Rightarrow> bool \<Rightarrow> (wire_error, unit) res" where
  "validateResponseMediaLane media contentType oas30 charsets oas32 =
     res_bind (res_err (\<lambda>_. Wire_Other) (parseMediaType contentType True)) (\<lambda>parsed.
       let base = pm_base parsed; schema = get_prop media ''schema''; d = resolveDeclaration schema oas30;
           charset = (case map_of (pm_params parsed) ''charset'' of None \<Rightarrow> ''utf-8'' | Some c \<Rightarrow> c) in
       if isJSONMediaType base then Inr ()
       else if isCharacterDataMedia base \<and>
         (admitsStringAsSoleNonNullType d \<or> oas32 \<and> base \<noteq> ''text/json'' \<and> openAPI32NonJSONTextKind schema \<noteq> None)
       then check (ascii_lower charset \<in> set [''utf-8'', ''utf8''] \<or> ascii_lower charset \<in> set charsets) Wire_Protocol
       else if typeless d then Inr ()
       else if admitsStringAsSoleNonNullType d then
         (let (format, mixed) = decl_format d; (encoding, conflict) = keywordString d ''contentEncoding'' in
          check (\<not> mixed \<and> \<not> conflict \<and>
            (oas30 \<and> (format = ''binary'' \<or> format = ''byte'') \<or> \<not> oas30 \<and> encoding \<noteq> [])) Wire_Protocol)
       else Inl Wire_Protocol)"

definition response_match :: "jsval \<Rightarrow> string \<Rightarrow> media_match option" where
  "response_match response contentType =
     (case governingResponseMediaMatch True True (response_content response) (Some contentType) of
        Inr m \<Rightarrow> m
      | Inl _ \<Rightarrow> None)"

text \<open>Whether the response is left a stream: an event stream, or a framing of version 3.2.\<close>

definition left_streaming ::
  "mechanics_model \<Rightarrow> fetch_response \<Rightarrow> (string \<times> jsval) option \<Rightarrow> (wire_error, bool) res" where
  "left_streaming model r governing =
     (case (map_of (fr_headers r) ''content-type'', governing) of
        (Some contentType, Some (_, response)) \<Rightarrow>
          if is_head model \<or> fr_body r = None \<or> field_text (fr_headers r) ''content-encoding'' \<noteq> [] then Inr False
          else
            (case response_match response contentType of
               None \<Rightarrow> Inr False
             | Some m \<Rightarrow>
                 (let media = (case mm_media m of JObj ms \<Rightarrow> ms | _ \<Rightarrow> []);
                      events = (case parseMediaType contentType True of Inr p \<Rightarrow> pm_base p = ''text/event-stream'' | Inl _ \<Rightarrow> False) in
                  res_bind (res_err (\<lambda>_. Wire_Protocol) (classifyOpenAPI32SequentialResponse contentType media)) (\<lambda>framing.
                    if events \<or> rm_openapi model = Some ''3.2.0'' \<and> framing \<noteq> None then
                      res_map (\<lambda>_. True)
                        (if framing = Some Framing_SSE
                         then validateResponseMediaLane (mm_media m) contentType False (rm_charsets model) False
                         else Inr ())
                    else Inr False)))
      | _ \<Rightarrow> Inr False)"

definition declared_codings_admit :: "mechanics_model \<Rightarrow> jsval \<Rightarrow> string \<Rightarrow> bool" where
  "declared_codings_admit model response raw \<longleftrightarrow>
     list_all (\<lambda>h. headerExactStringDomainAdmits (member_of h ''schema'') raw (model_oas30 model))
       (responseHeaders response ''Content-Encoding'')"

definition decode_body ::
  "mechanics_model \<Rightarrow> coders \<Rightarrow> nat \<Rightarrow> (string \<times> jsval) option \<Rightarrow> nat \<Rightarrow> string \<Rightarrow> string \<Rightarrow> (wire_error, string) res" where
  "decode_body model codecs limit governing status raw bytes =
     (if raw = [] then Inr bytes
      else
        (case parsedContentCodings raw of
           None \<Rightarrow> Inl Wire_Protocol
         | Some tokens \<Rightarrow>
             if \<not> (case governing of None \<Rightarrow> True | Some (_, response) \<Rightarrow> declared_codings_admit model response raw)
             then Inl Wire_Protocol
             else if is_head model \<or> responseBodyForbidden status \<or> governing = None \<and> successful_status status then Inr bytes
             else each_res (decode_step limit codecs) (rev tokens) bytes))"

definition content_type_or_octets :: "http_headers \<Rightarrow> string" where
  "content_type_or_octets hdrs =
     (let t = field_text hdrs ''content-type'' in if t = [] then ''application/octet-stream'' else t)"

text \<open>What becomes of the bytes that were read and decoded.\<close>

definition deliver ::
  "mechanics_model \<Rightarrow> (string \<times> jsval) option \<Rightarrow> nat \<Rightarrow> http_headers \<Rightarrow> string \<Rightarrow> (wire_error, governed) res" where
  "deliver model governing status hdrs bytes =
     (if bytes = [] then responseFromBytes status hdrs bytes
      else
        (case governing of
           None \<Rightarrow> if successful_status status then Inl Wire_Protocol else responseFromBytes status hdrs bytes
         | Some (_, response) \<Rightarrow>
             (let contentType = content_type_or_octets hdrs;
                  typed = (if field_text hdrs ''content-type'' = [] then set_header ''content-type'' contentType hdrs else hdrs) in
              case response_match response contentType of
                None \<Rightarrow> if successful_status status then Inl Wire_Protocol else responseFromBytes status typed bytes
              | Some m \<Rightarrow>
                  (case validateResponseMediaLane (mm_media m) contentType (model_oas30 model) (rm_charsets model)
                          (rm_openapi model = Some ''3.2.0'') of
                     Inl e \<Rightarrow> if successful_status status then Inl e else responseFromBytes status typed bytes
                   | Inr _ \<Rightarrow>
                       (let events = (case parseMediaType contentType True of Inr p \<Rightarrow> pm_base p = ''text/event-stream'' | Inl _ \<Rightarrow> False) in
                        responseFromBytes status
                          (case rm_unary model of
                             Some (name, mediaType) \<Rightarrow>
                               if events then set_header ''content-type'' mediaType (set_header (ascii_lower name) contentType typed) else typed
                           | None \<Rightarrow> typed)
                          bytes)))))"

text \<open>\<open>None\<close>: the response is handed on as it is.\<close>

definition governOpenAPIResponse :: "mechanics_model \<Rightarrow> coders \<Rightarrow> fetch_response \<Rightarrow> (wire_error, governed option) res" where
  "governOpenAPIResponse model codecs r =
     (let governing = governingResponse (rm_operation model) (fr_status r); limit = resolveOpenAPIDeliveryUnitLimit (rm_limit model) in
      res_bind (requireReadableOpenAPIResponse r) (\<lambda>_.
      res_bind (case governing of None \<Rightarrow> Inr () | Some (_, response) \<Rightarrow> requireGovernedResponseHeaders response (fr_headers r)) (\<lambda>_.
      res_bind (left_streaming model r governing) (\<lambda>streaming.
      if streaming then Inr None
      else
        res_bind (res_err (\<lambda>e. case e of Over_Limit \<Rightarrow> Wire_Response_Error | Read_Failed \<Rightarrow> Wire_Protocol)
                   (readResponseBytes limit (fr_body r))) (\<lambda>read.
        res_bind (decode_body model codecs limit governing (fr_status r) (field_text (fr_headers r) ''content-encoding'')
                   (if is_head model then [] else read)) (\<lambda>bytes.
        res_map Some (deliver model governing (fr_status r) (fr_headers r) bytes)))))))"

text \<open>The adapter's alias for every governed event stream.\<close>

definition unary_view :: "string \<Rightarrow> jsval \<Rightarrow> jsval" where
  "unary_view unaryMediaType response =
     (case response of
        JObj ms \<Rightarrow>
          (case response_match response ''text/event-stream'' of
             None \<Rightarrow> response
           | Some m \<Rightarrow>
               JObj (assign_member ''content'' (JObj (assign_member unaryMediaType (mm_media m) (response_content response))) ms))
      | _ \<Rightarrow> response)"

definition prepareOpenAPIUnaryResponseView :: "string \<Rightarrow> js_members \<Rightarrow> js_members" where
  "prepareOpenAPIUnaryResponseView unaryMediaType operation =
     (case member_of operation ''responses'' of
        JObj responses \<Rightarrow>
          assign_member ''responses'' (JObj (map (\<lambda>(k, r). (k, unary_view unaryMediaType r)) responses)) operation
      | _ \<Rightarrow> operation)"

section \<open>Bounds\<close>

lemma read_chunks_done:
  "read_chunks limit taken cs Stream_Done =
     (if length taken \<le> limit \<or> cs = [] then
        (if length (taken @ concat cs) \<le> limit \<or> cs = [] then Inr (taken @ concat cs) else Inl Over_Limit)
      else Inl Over_Limit)"
  by (induction limit taken cs Stream_Done rule: read_chunks.induct) auto

text \<open>A body that ends is read whole when it fits, and refused when it does not, whatever its chunks are.\<close>

lemma readResponseBytes_done:
  "readResponseBytes limit (Some (cs, Stream_Done)) =
     (if length (concat cs) \<le> limit then Inr (concat cs) else Inl Over_Limit)"
  by (cases cs) (auto simp: readResponseBytes_def read_chunks_done)

lemma readResponseBytes_bound: "readResponseBytes limit body = Inr bytes \<Longrightarrow> length bytes \<le> limit"
proof -
  have "length bytes \<le> limit" if "read_chunks limit taken cs e = Inr bytes" "length taken \<le> limit" for taken cs e
    using that by (induction limit taken cs e rule: read_chunks.induct) (auto split: stream_end.splits if_splits)
  then show "readResponseBytes limit body = Inr bytes \<Longrightarrow> length bytes \<le> limit"
    by (auto simp: readResponseBytes_def split: option.splits)
qed

lemma decode_step_bound: "decode_step limit codecs t bytes = Inr out \<Longrightarrow> length bytes \<le> limit \<Longrightarrow> length out \<le> limit"
  by (auto simp: decode_step_def split: if_splits option.splits)

lemma decode_body_bound:
  assumes "decode_body model codecs limit governing status raw bytes = Inr out" and "length bytes \<le> limit"
  shows "length out \<le> limit"
proof -
  have "length out \<le> limit" if "each_res (decode_step limit codecs) ts bytes = Inr out" for ts
    by (rule each_res_invariant [OF that, of "\<lambda>b. length b \<le> limit"]) (use assms(2) decode_step_bound in auto)
  then show ?thesis using assms by (auto simp: decode_body_def split: if_splits option.splits)
qed

lemma responseFromBytes_body: "responseFromBytes status hdrs bytes = Inr g \<Longrightarrow> gv_body g = Some b \<Longrightarrow> b = bytes"
  by (auto simp: responseFromBytes_def split: if_splits)

lemma deliver_body:
  assumes "deliver model governing status hdrs bytes = Inr g" and "gv_body g = Some b"
  shows "b = bytes"
    and "successful_status status \<Longrightarrow> bytes \<noteq> [] \<Longrightarrow> \<exists>k response m. governing = Some (k, response) \<and>
      response_match response (content_type_or_octets hdrs) = Some m \<and>
      validateResponseMediaLane (mm_media m) (content_type_or_octets hdrs) (model_oas30 model) (rm_charsets model)
        (rm_openapi model = Some ''3.2.0'') = Inr ()"
proof -
  show "b = bytes"
    using assms responseFromBytes_body unfolding deliver_def Let_def by (auto split: if_splits option.splits sum.splits)
  show "successful_status status \<Longrightarrow> bytes \<noteq> [] \<Longrightarrow> \<exists>k response m. governing = Some (k, response) \<and>
      response_match response (content_type_or_octets hdrs) = Some m \<and>
      validateResponseMediaLane (mm_media m) (content_type_or_octets hdrs) (model_oas30 model) (rm_charsets model)
        (rm_openapi model = Some ''3.2.0'') = Inr ()"
    using assms(1) unfolding deliver_def Let_def by (auto split: option.splits sum.splits)
qed

text \<open>
  C11. What is delivered of a response never exceeds the delivery limit, decoded or not; a HEAD response
  delivers no bytes; and the bytes of a successful response are delivered only under the declaration that
  governs its status, with the media type that matches its Content-Type and a lane that can carry it.
\<close>

theorem delivered_response_is_bounded_and_governed:
  assumes "governOpenAPIResponse model codecs r = Inr (Some g)" and "gv_body g = Some b"
  shows "length b \<le> resolveOpenAPIDeliveryUnitLimit (rm_limit model) \<and> (is_head model \<longrightarrow> b = []) \<and>
    (successful_status (fr_status r) \<longrightarrow> b \<noteq> [] \<longrightarrow>
      (\<exists>k response m. governingResponse (rm_operation model) (fr_status r) = Some (k, response) \<and>
        response_match response (content_type_or_octets (fr_headers r)) = Some m \<and>
        validateResponseMediaLane (mm_media m) (content_type_or_octets (fr_headers r)) (model_oas30 model) (rm_charsets model)
          (rm_openapi model = Some ''3.2.0'') = Inr ()))"
proof -
  define governing where "governing = governingResponse (rm_operation model) (fr_status r)"
  define limit where "limit = resolveOpenAPIDeliveryUnitLimit (rm_limit model)"
  define kept where "kept read = (if is_head model then [] else read)" for read :: string
  obtain read bytes where read: "readResponseBytes limit (fr_body r) = Inr read"
    and bytes: "decode_body model codecs limit governing (fr_status r) (field_text (fr_headers r) ''content-encoding'')
        (kept read) = Inr bytes"
    and deliver: "deliver model governing (fr_status r) (fr_headers r) bytes = Inr g"
    using assms(1) unfolding governOpenAPIResponse_def Let_def governing_def [symmetric] limit_def [symmetric] kept_def [symmetric]
    by (auto simp: js_result split: if_splits)
  note body = deliver_body [OF deliver assms(2)]
  have "length (kept read) \<le> limit" using readResponseBytes_bound [OF read] by (simp add: kept_def)
  then have "length bytes \<le> limit" by (rule decode_body_bound [OF bytes])
  moreover have "bytes = []" if "is_head model"
    using bytes that by (auto simp: decode_body_def kept_def split: if_splits option.splits)
  ultimately show ?thesis using body by (auto simp: limit_def governing_def)
qed

definition json_model :: mechanics_model where
  "json_model =
     \<lparr> rm_openapi = Some ''3.1.0'',
       rm_operation = [(''responses'', JObj [(''200'', JObj [(''content'', JObj [(''application/json'', JObj [])])])])],
       rm_parameters = [], rm_method = ''get'', rm_limit = Some 9, rm_charsets = [], rm_unary = None \<rparr>"

definition json_reply :: fetch_response where
  "json_reply =
     \<lparr> fr_status = 200, fr_filtered = False, fr_headers = [(''content-type'', ''application/json'')],
       fr_body = Some ([''[1'', ''2]''], Stream_Done) \<rparr>"

lemma delivered_response_is_bounded_and_governed_witness:
  "length ''[12]'' \<le> resolveOpenAPIDeliveryUnitLimit (rm_limit json_model) \<and> (\<exists>k response m.
     governingResponse (rm_operation json_model) 200 = Some (k, response) \<and> response_match response ''application/json'' = Some m)"
proof -
  have run: "governOpenAPIResponse json_model [] json_reply =
      Inr (Some \<lparr> gv_headers = [(''content-type'', ''application/json'')], gv_body = Some ''[12]'', gv_empty = False \<rparr>)"
    by code_simp
  have facts: "successful_status (fr_status json_reply)" "content_type_or_octets (fr_headers json_reply) = ''application/json''"
    "fr_status json_reply = 200" by code_simp+
  show ?thesis
    using delivered_response_is_bounded_and_governed [OF run, of "''[12]''"] facts by auto
qed

section \<open>Codings are undone in reverse\<close>

lemma each_res_step: "each_res f (xs @ [x]) s = res_bind (each_res f xs s) (f x)"
proof -
  have "each_res f [x] t = f x t" for t by (cases "f x t") simp_all
  then show ?thesis by (cases "each_res f xs s") (simp_all add: each_res_append)
qed

lemma codings_undone:
  assumes "each_res (encode_step encoders) tokens body = Inr sent"
    and "\<And>t e b w. map_of encoders t = Some e \<Longrightarrow> e b = Some w \<Longrightarrow> \<exists>d. map_of decoders t = Some d \<and> d w = Some b"
    and "\<And>i. i \<le> length tokens \<Longrightarrow> \<forall>b. each_res (encode_step encoders) (take i tokens) body = Inr b \<longrightarrow> length b \<le> limit"
  shows "each_res (decode_step limit decoders) (rev tokens) sent = Inr body"
  using assms(1,3)
proof (induction tokens arbitrary: sent rule: rev_induct)
  case (snoc t tokens)
  obtain mid where mid: "each_res (encode_step encoders) tokens body = Inr mid" "encode_step encoders t mid = Inr sent"
    using snoc.prems(1) by (auto simp: each_res_step res_bind_Inr_iff)
  have bound: "length mid \<le> limit" using snoc.prems(2) [of "length tokens"] mid(1) by simp
  have "decode_step limit decoders t sent = Inr mid"
  proof (cases "t = ''identity''")
    case False
    then obtain e where "map_of encoders t = Some e" "e mid = Some sent"
      using mid(2) by (auto simp: encode_step_def split: option.splits)
    then show ?thesis using assms(2) False bound by (fastforce simp: decode_step_def)
  qed (use mid(2) in \<open>simp add: encode_step_def decode_step_def\<close>)
  moreover have "each_res (decode_step limit decoders) (rev tokens) mid = Inr body"
  proof (rule snoc.IH [OF mid(1)])
    fix i assume "i \<le> length tokens"
    then show "\<forall>b. each_res (encode_step encoders) (take i tokens) body = Inr b \<longrightarrow> length b \<le> limit"
      using snoc.prems(2) [of i] by simp
  qed
  ultimately show ?case by simp
qed simp

text \<open>No stage of the coding exceeds the limit the decoder applies to each of its stages.\<close>

definition stages_within :: "nat \<Rightarrow> coders \<Rightarrow> string \<Rightarrow> string \<Rightarrow> bool" where
  "stages_within limit encoders raw body \<longleftrightarrow>
     (\<forall>tokens i b. parsedContentCodings raw = Some tokens \<longrightarrow> i \<le> length tokens \<longrightarrow>
        each_res (encode_step encoders) (take i tokens) body = Inr b \<longrightarrow> length b \<le> limit)"

definition coders_undone :: "coders \<Rightarrow> coders \<Rightarrow> bool" where
  "coders_undone encoders decoders \<longleftrightarrow>
     (\<forall>t e b w. map_of encoders t = Some e \<longrightarrow> e b = Some w \<longrightarrow> (\<exists>d. map_of decoders t = Some d \<and> d w = Some b))"

text \<open>
  C32. The content codings a request applies in order, the response side undoes in reverse order: with
  decoders that undo the encoders, stages within the limit and a declaration that admits the field, a
  body that is echoed with the same Content-Encoding is read back unchanged.
\<close>

theorem content_codings_roundtrip:
  assumes "governOpenAPIRequest model encoders hdrs (Some body) = Inr (hdrs', Some sent)"
    and "coders_undone encoders decoders" and "stages_within limit encoders (field_text hdrs ''content-encoding'') body"
    and "declared_codings_admit reply response (field_text hdrs ''content-encoding'')"
    and "\<not> is_head reply" and "\<not> responseBodyForbidden status"
  shows "decode_body reply decoders limit (Some (k, response)) status (field_text hdrs ''content-encoding'') sent = Inr body"
proof (cases "field_text hdrs ''content-encoding'' = []")
  case True
  then show ?thesis using assms(1) by (simp add: governOpenAPIRequest_def decode_body_def)
next
  case False
  then obtain tokens where tokens: "parsedContentCodings (field_text hdrs ''content-encoding'') = Some tokens"
    "each_res (encode_step encoders) tokens body = Inr sent"
    using assms(1) by (auto simp: governOpenAPIRequest_def Let_def js_result split: option.splits if_splits)
  have "each_res (decode_step limit decoders) (rev tokens) sent = Inr body"
  proof (rule codings_undone [OF tokens(2)])
    show "\<exists>d. map_of decoders t = Some d \<and> d w = Some b" if "map_of encoders t = Some e" "e b = Some w" for t e b w
      using assms(2) that unfolding coders_undone_def by blast
    show "\<forall>b. each_res (encode_step encoders) (take i tokens) body = Inr b \<longrightarrow> length b \<le> limit" if "i \<le> length tokens" for i
      using assms(3) tokens(1) that unfolding stages_within_def by blast
  qed
  then show ?thesis using False tokens(1) assms(4-6) by (simp add: decode_body_def)
qed

definition example_coded_model :: mechanics_model where
  "example_coded_model =
     \<lparr> rm_openapi = Some ''3.1.0'', rm_operation = [],
       rm_parameters = [JObj [(''name'', JStr ''Content-Encoding''), (''in'', JStr ''header''), (''schema'', JObj [(''type'', JStr ''string'')])]],
       rm_method = ''post'', rm_limit = None, rm_charsets = [], rm_unary = None \<rparr>"

lemma content_codings_roundtrip_witness:
  "decode_body example_coded_model [(''mirror'', \<lambda>b. Some (rev b))] 3 (Some (''200'', JObj [])) 200 ''Mirror, identity'' ''cba'' = Inr ''abc''"
proof -
  define coders :: coders where "coders = [(''mirror'', \<lambda>b. Some (rev b))]"
  have sent: "governOpenAPIRequest example_coded_model coders [(''content-encoding'', ''Mirror, identity'')] (Some ''abc'') =
      Inr ([(''content-encoding'', ''Mirror, identity'')], Some ''cba'')"
    unfolding coders_def by code_simp
  have undone: "coders_undone coders coders" by (auto simp: coders_undone_def coders_def)
  have tokens: "parsedContentCodings ''Mirror, identity'' = Some [''mirror'', ''identity'']" by code_simp
  have stages: "stages_within 3 coders ''Mirror, identity'' ''abc''"
  proof -
    have "length b \<le> 3" if "each_res (encode_step coders) (take i [''mirror'', ''identity'']) ''abc'' = Inr b" for i b
      using that by (cases i; cases "i - 1") (auto simp: encode_step_def coders_def split: if_splits)
    then show ?thesis unfolding stages_within_def tokens by auto
  qed
  have raw: "field_text [(''content-encoding'', ''Mirror, identity'')] ''content-encoding'' = ''Mirror, identity''"
    by (simp add: field_text_def)
  have "decode_body example_coded_model coders 3 (Some (''200'', JObj [])) 200
      (field_text [(''content-encoding'', ''Mirror, identity'')] ''content-encoding'') ''cba'' = Inr ''abc''"
  proof (rule content_codings_roundtrip [OF sent undone])
    show "declared_codings_admit example_coded_model (JObj []) (field_text [(''content-encoding'', ''Mirror, identity'')] ''content-encoding'')"
      by (simp add: declared_codings_admit_def responseHeaders_def declared_headers_def member_of_def)
    show "\<not> is_head example_coded_model" by code_simp
  qed (simp_all add: raw stages responseBodyForbidden_def)
  then show ?thesis by (simp only: raw coders_def)
qed

end
