(* ===== verification/Spec2Isabelle.thy ===== *)
theory Spec2Isabelle
  imports Multipart_Frames Request_Assembly Swagger20_Security Swagger20_Responses Swagger20_Reference Response_Mechanics
begin

text \<open>
  A verification library of the TypeScript OpenAPI client (\<open>src/typescript/src\<close>): the program that takes an
  OpenAPI 3.0, 3.1, 3.2 or Swagger 2.0 document and one operation of it, turns a flat public input into an
  HTTP request, sends it, and reads the response back into typed outputs of an invocation session.

  \<^bold>\<open>The program and the theories.\<close>  The client works in the order of the list; file names are those of
  \<open>src/typescript/src\<close>, and a definition has the name of the function it translates.

  \<^item> Prelude.  \<open>Js_Base\<close>: results, strings, sorting and replacing as JavaScript has them.  \<open>Js_Value\<close>: JSON
    values, own and inherited members.  \<open>Unicode\<close>: code points and UTF-16 units.  \<open>Uri_Escape\<close> and
    \<open>Base64\<close>: the encoders and the readers that undo them.
  \<^item> Documents.  \<open>Declaration\<close> (\<open>resolved-declaration.ts\<close>): what a schema declares when only its keywords are
    read.  \<open>Artifact_Names\<close> (\<open>util.ts\<close>): keys, references, names of the schemas that cut a cycle.
    \<open>Swagger20_Reference\<close> (\<open>swagger20-reference.ts\<close>): the reference graph over a store of shared objects.
  \<^item> Parameters.  \<open>Param_Decls\<close>, \<open>Param_Values\<close> and \<open>Param_Route\<close> (\<open>params.ts\<close>): effective parameters, styles,
    and the placement of values.  \<open>Openapi32_Params\<close> (\<open>openapi32-parameters.ts\<close>): the gate of 3.2.
    \<open>Swagger20_Params\<close> (\<open>swagger20-parameters.ts\<close>) and \<open>Swagger20_Schema\<close> (\<open>swagger20-schema.ts\<close>): the same for
    2.0, with the assertions on values.  \<open>Input_Routes\<close> (\<open>input-routes-v2.ts\<close> and the Encoding lane of
    \<open>resolved-media.ts\<close>): the public fields, the envelope a transform writes, and its routing.
  \<^item> Bodies.  \<open>Media_Type\<close> (\<open>media.ts\<close>); \<open>Openapi32_Media\<close> and \<open>Openapi32_Multipart\<close> (\<open>openapi32-media.ts\<close>),
    with \<open>Multipart_Frames\<close>, what their multipart bodies carry; \<open>Swagger20_Media\<close> and \<open>Swagger20_Bodies\<close>
    (\<open>swagger20-media.ts\<close>).
  \<^item> Targets and credentials.  \<open>Target_Base\<close> (\<open>target-base.ts\<close>) and \<open>Servers\<close> (\<open>servers.ts\<close>): the base URL.
    \<open>Context_Fields\<close> and \<open>Context_Resolution\<close> (\<open>internal/context.ts\<close>): what is read of a context, released for a
    challenge, merged, and shown.  \<open>Security_Wire\<close> (\<open>security-wire.ts\<close>), \<open>Security_Plans\<close> (\<open>invoke.ts\<close>) and
    \<open>Swagger20_Security\<close> (\<open>swagger20-security.ts\<close>, \<open>-context.ts\<close>, \<open>-server.ts\<close>): the alternative that is selected
    and where its credentials go.
  \<^item> Exchange.  \<open>Request_Assembly\<close> (\<open>invoke.ts\<close>): the gate before any input, the URL and header section, the
    redirects that are followed.  \<open>Host_Transport\<close> (\<open>host-transport.ts\<close>): the transport of the host and its own
    redirect loop.
  \<^item> Responses.  \<open>Media_Selection\<close> (\<open>media.ts\<close>, \<open>openapi32-response.ts\<close>): the response and the media declaration
    that govern.  \<open>Response_Mechanics\<close> (\<open>response-mechanics.ts\<close>, \<open>response-body.ts\<close>): codings, limits, lanes.
    \<open>Sse\<close> (\<open>sse.ts\<close>), \<open>Sequential_Response\<close>, \<open>Part_Reader\<close> and \<open>Multipart_Response\<close>
    (\<open>openapi32-sequential-response.ts\<close>): the streaming readers.  \<open>Swagger20_Responses\<close> (\<open>swagger20-media.ts\<close>).
  \<^item> Session.  \<open>Invocation_Errors\<close> (\<open>internal/errcodes.ts\<close>, \<open>internal/invocation.ts\<close>) and
    \<open>Invocation_Handle\<close> (\<open>internal/invocation.ts\<close>): the buffers and promises between caller and producer, as a
    machine with one step per operation; the event-stream reader drives it.

  \<^bold>\<open>How the code is modelled.\<close>
  \<^item> A string without lone surrogates is its UTF-8 encoding, a list of characters that are bytes.  Case folding
    is its ASCII part; orders by UTF-16 unit and by code point are written out.  Replacing with a pattern
    string includes the \<open>$\<close> templates of JavaScript.
  \<^item> A thrown error is the left side of a sum, one constructor per throw or the thrown text; \<open>res_bind\<close>,
    \<open>check\<close>, \<open>map_res\<close> and \<open>each_res\<close> sequence.  \<open>each_res_invariant\<close> is the rule for loops that may throw,
    and the collections \<open>js_result\<close> and \<open>js_string\<close> carry the routine steps.
  \<^item> A JSON value is a \<open>jsval\<close> whose objects are association lists in the order of their keys.  Where the code
    reads a member through the prototype the model does (\<open>get_object\<close>, \<open>in_object\<close>), and it tells assignment
    (\<open>assign_member\<close>) from literals and spreads (\<open>define_member\<close>), which differ at \<open>__proto__\<close>.  A field whose
    value is not of its TypeScript type counts as absent (\<open>fld\<close>).
  \<^item> A body that is read is the list of its chunks and the way the stream ends; offsets and limits are whole
    numbers, and no value of the modelled code comes near the width of a JavaScript number.
  \<^item> Code that is not in the repository is a parameter: URL parsers and resolvers, the regular expression
    engine, the network, the stores and resolvers of contexts, the texts drawn from \<open>Math.random\<close>, character
    and content coders, \<open>@openbindings/json\<close>, and the caller's converters.  A property that relies on one
    names what it relies on as a hypothesis, and its witness supplies a function that has it.

  \<^bold>\<open>Interfaces.\<close>  \<open>component_escaper\<close> (\<open>Uri_Escape\<close>) is the contract of an encoder whose output stays inside a
  URI component; it is interpreted for \<open>encodeURIComponent\<close>, both escapers of \<open>params.ts\<close>, the strict escaper, the
  escaper of credentials and that of Swagger 2.0, and the safety of routing, credentials and collections
  rests on its facts.  \<open>item_framing\<close> (\<open>Sequential_Response\<close>) is the contract of a sequential framing: a reader
  that takes one item off a buffer and does not change its mind when more bytes come; it is interpreted for
  JSON Lines and JSON text sequences, and gives both their independence of chunk boundaries.

  \<^bold>\<open>What is shown.\<close>
  \<^item> Session: bounded buffers lose, repeat and reorder nothing; the terminal transition happens once and settles
    every promise; queued outputs come before the verdict.
  \<^item> Streams: the event-stream reader refines an abstract model of blocks; event streams, sequential and
    multipart bodies are read the same however they are cut into chunks; sequential bodies
    and content codings are read back as they were written, and Swagger 2.0 lanes as far as the coders,
    serializers and readers of the caller undo each other; delivered bytes stay within the limit and under
    the declaration that governs them.
  \<^item> Requests: path, query, header fields and cookie are exactly the contributions of the supplied parameters,
    and every field of an input reaches one or the body, up to the losses the theorems name; values cannot
    change the structure of the path; required parameters are enforced; public field names are distinct, and
    the envelope of a plan is parsed back to it; multipart bodies have one framed part for every value, and
    can be split again when no part holds the delimiter, which the code checks of texts in the Swagger 2.0
    lane only; collections can be split again.
  \<^item> Targets: the hand-written target grammar is that of RFC 3986 and RFC 9110; a resolved base URL is an
    absolute HTTP target.
  \<^item> Credentials: what is released of a context is the least the challenge asks for, points and values of
    the configuration included; redaction does not depend on secrets; the credentials of a request come from
    one declared alternative, stay inside their field and keep apart from parameters; the client places none
    on a TRACE request.  On a redirect to another origin the
    transport drops Authorization (method and body may be kept) and the invocation the destinations of its
    own credential placements and Cookie.  What custom security handlers and context hints add is not
    covered by these.
  \<^item> Selection and documents: the governing media declaration is the most specific competitor; references and
    pointers lead where they say; effective parameters are well formed; cut points get distinct names;
    normalized numbers keep their value, in the shorter of two spellings.

  Beside each theorem on success stand the lemmas on the branches that throw.  Behaviour that surprises is
  proved too, on inputs that show it (for instance \<open>inherited_field_is_supplied\<close>,
  \<open>undefined_selection_sends_unauthenticated\<close>, \<open>handled_scheme_owns_no_header\<close>, \<open>delimited_orders_differ\<close>).

  \<^bold>\<open>Bounds and termination.\<close>  Recursions over JSON values end by the size of the value, readers by the bytes
  that are left, the searches for a free name by the names that are taken.  References can be cyclic, so
  \<open>resolveParameter\<close> and \<open>resolveReference\<close> take the number of references to follow, and \<open>Sw_Unresolved\<close> says
  that it was too small; for parameters a number that is enough is given when references descend, and
  further steps change no result.  Redirect loops are bounded by the code: 20 in the
  transport, 9 in the invocation.  Buffers hold 4 outputs and 1 input, an event-stream line 16 MiB, a part
  header section 64 KiB, and a response without a configured limit 10 MiB, as in the code.

  \<^bold>\<open>What is not modelled.\<close>  The client facade and the Swagger 2.0 engine, which wire the modelled parts around
  live platform objects; of the pipeline of \<open>invoke.ts\<close> the planning of a request body and the hand-over of a
  response; 3.0 and 3.1 request bodies (\<open>resolved-media.ts\<close>, \<open>request-json.ts\<close>), built over schema graphs that
  are rewritten for a while; the loading of documents, which is the work of third-party parsers; the census
  of the acceptance floor; projection and synthesis, which describe documents for generators and take no
  part in a request; and files that only declare types or re-export.
\<close>

end
